(* ===== verification/Prelude.thy ===== *)
theory Prelude
  imports Main
begin

text \<open>
  Shared vocabulary of the development: the fragment of the JavaScript standard library the
  sources use on strings and numbers, and database tables as lists of rows.

  Strings are lists of 8-bit characters, so a JavaScript string is modelled as far as it stays
  in the Latin-1 range of Unicode.  On that range \<open>js_space\<close> is exactly the class that
  \<^verbatim>\<open>String.prototype.trim\<close> strips and the regular expression escape
  \<^verbatim>\<open>\s\<close> matches, and \<open>js_lower\<close> is \<^verbatim>\<open>toLowerCase\<close>.
  A \<^verbatim>\<open>Date\<close> is its number of milliseconds.

  A table is the list of its rows.  The order of the list is the order in which the database
  happens to enumerate the rows; no theorem fixes it.
\<close>

named_theorems table_simps \<open>rewrite rules for reads and writes of tables\<close>
named_theorems js_simps \<open>rewrite rules for the string and number library\<close>

type_synonym millis = int
type_synonym user_id = int

section \<open>Strings\<close>

definition js_space :: "char \<Rightarrow> bool" where
  "js_space c = (let n = (of_char c :: nat) in (9 \<le> n \<and> n \<le> 13) \<or> n = 32 \<or> n = 160)"

definition js_digit :: "char \<Rightarrow> bool" where
  "js_digit c = (let n = (of_char c :: nat) in 48 \<le> n \<and> n \<le> 57)"

definition js_trim :: "string \<Rightarrow> string" where
  "js_trim s = rev (dropWhile js_space (rev (dropWhile js_space s)))"

definition js_lower_char :: "char \<Rightarrow> char" where
  "js_lower_char c =
     (let n = (of_char c :: nat) in
      if (65 \<le> n \<and> n \<le> 90) \<or> (192 \<le> n \<and> n \<le> 222 \<and> n \<noteq> 215)
      then char_of (n + 32) else c)"

definition js_lower :: "string \<Rightarrow> string" where
  "js_lower s = map js_lower_char s"

definition starts_with :: "string \<Rightarrow> string \<Rightarrow> bool" where
  "starts_with p s = (take (length p) s = p)"

definition slice :: "nat \<Rightarrow> nat \<Rightarrow> string \<Rightarrow> string" where
  "slice a b s = take (b - a) (drop a s)"

text \<open>\<^verbatim>\<open>split\<close>\<close>

fun split_on :: "char \<Rightarrow> string \<Rightarrow> string list" where
  "split_on d [] = [[]]"
| "split_on d (c # cs) =
     (if c = d then [] # split_on d cs
      else (case split_on d cs of [] \<Rightarrow> [[c]] | p # ps \<Rightarrow> (c # p) # ps))"

lemma split_on_none: "d \<notin> set s \<Longrightarrow> split_on d s = [s]"
  by (induction s) auto

lemma split_on_append: "d \<notin> set a \<Longrightarrow> split_on d (a @ d # b) = a # split_on d b"
  by (induction a) auto

lemma split_on_ne: "split_on d s \<noteq> []"
  by (induction s) (auto split: list.split)

text \<open>\<^verbatim>\<open>String(v || '')\<close> and \<^verbatim>\<open>String(v ?? '')\<close> on a nullable string.\<close>

definition or_empty :: "string option \<Rightarrow> string" where
  "or_empty v = (case v of None \<Rightarrow> [] | Some s \<Rightarrow> s)"

text \<open>\<^verbatim>\<open>s || null\<close>, \<^verbatim>\<open>a || b\<close> and \<^verbatim>\<open>a ?? b\<close>.\<close>

definition non_empty :: "string \<Rightarrow> string option" where
  "non_empty s = (if s = [] then None else Some s)"

definition js_or :: "string option \<Rightarrow> string option \<Rightarrow> string option" where
  "js_or a b = (case a of None \<Rightarrow> b | Some s \<Rightarrow> if s = [] then b else Some s)"

definition nullish :: "'a option \<Rightarrow> 'a option \<Rightarrow> 'a option" where
  "nullish a b = (case a of None \<Rightarrow> b | Some x \<Rightarrow> Some x)"

text \<open>Truthiness of a nullable string and of a nullable integer.\<close>

definition truthy :: "string option \<Rightarrow> bool" where
  "truthy v = (case v of None \<Rightarrow> False | Some s \<Rightarrow> s \<noteq> [])"

definition truthy_int :: "int option \<Rightarrow> bool" where
  "truthy_int v = (case v of None \<Rightarrow> False | Some n \<Rightarrow> n \<noteq> 0)"

lemma js_or_None [js_simps]: "js_or None b = b"
  by (simp add: js_or_def)

lemma js_or_truthy [js_simps]: "truthy a \<Longrightarrow> js_or a b = a"
  by (auto simp: js_or_def truthy_def split: option.splits)

lemma dropWhile_idle: "(xs \<noteq> [] \<Longrightarrow> \<not> p (hd xs)) \<Longrightarrow> dropWhile p xs = xs"
  by (cases xs) auto

lemma js_trim_idem [js_simps]: "js_trim (js_trim s) = js_trim s"
proof -
  let ?u = "dropWhile js_space s"
  let ?v = "rev (dropWhile js_space (rev ?u))"
  have "dropWhile js_space ?v = ?v"
  proof (rule dropWhile_idle)
    assume ne: "?v \<noteq> []"
    obtain ys where "rev ?u = ys @ dropWhile js_space (rev ?u)"
      by (metis takeWhile_dropWhile_id)
    then have u: "?u = ?v @ rev ys"
      by (metis rev_append rev_rev_ident)
    with ne have "hd ?v = hd ?u" and "?u \<noteq> []"
      by (metis hd_append2, metis append_is_Nil_conv)
    then show "\<not> js_space (hd ?v)"
      by (simp add: hd_dropWhile)
  qed
  moreover have "dropWhile js_space (rev ?v) = rev ?v"
    by (simp add: dropWhile_idle hd_dropWhile)
  ultimately show ?thesis
    by (simp add: js_trim_def)
qed

section \<open>Decimal numbers\<close>

definition digit_val :: "char \<Rightarrow> nat" where
  "digit_val c = of_char c - 48"

definition digit_char :: "nat \<Rightarrow> char" where
  "digit_char n = char_of (48 + n)"

definition nat_of_digits :: "string \<Rightarrow> nat" where
  "nat_of_digits s = foldl (\<lambda>n c. 10 * n + digit_val c) 0 s"

fun show_nat :: "nat \<Rightarrow> string" where
  "show_nat n = (if n < 10 then [digit_char n] else show_nat (n div 10) @ [digit_char (n mod 10)])"

declare show_nat.simps [simp del]

definition show_int :: "int \<Rightarrow> string" where
  "show_int n = (if n < 0 then CHR ''-'' # show_nat (nat (- n)) else show_nat (nat n))"

lemma digit_val_char [js_simps]: "n < 10 \<Longrightarrow> digit_val (digit_char n) = n"
  by (simp add: digit_val_def digit_char_def)

lemma js_digit_char [js_simps]: "n < 10 \<Longrightarrow> js_digit (digit_char n)"
  by (simp add: js_digit_def digit_char_def Let_def)

lemma digit_char_val [js_simps]: "js_digit c \<Longrightarrow> digit_char (digit_val c) = c"
  by (simp add: js_digit_def digit_val_def digit_char_def Let_def)

lemma digit_val_less: "js_digit c \<Longrightarrow> digit_val c < 10"
  by (auto simp: js_digit_def digit_val_def Let_def)

lemma digit_val_pos: "js_digit c \<Longrightarrow> c \<noteq> CHR ''0'' \<Longrightarrow> 0 < digit_val c"
proof (rule ccontr)
  assume d: "js_digit c" and c: "c \<noteq> CHR ''0''" and z: "\<not> 0 < digit_val c"
  from d z have "digit_char 0 = c"
    using digit_char_val [OF d] by simp
  moreover have "digit_char 0 = CHR ''0''"
    by code_simp
  ultimately show False
    using c by simp
qed

lemma nat_of_digits_snoc [js_simps]:
  "nat_of_digits (s @ [c]) = 10 * nat_of_digits s + digit_val c"
  by (simp add: nat_of_digits_def)

lemma nat_of_digits_Nil [js_simps]: "nat_of_digits [] = 0"
  by (simp add: nat_of_digits_def)

lemma nat_of_digits_single [js_simps]: "nat_of_digits [c] = digit_val c"
  by (simp add: nat_of_digits_def)

lemma nat_of_digits_show [js_simps]: "nat_of_digits (show_nat n) = n"
proof (induction n rule: show_nat.induct)
  case (1 n)
  then show ?case
    by (cases "n < 10") (simp_all add: show_nat.simps [of n] js_simps)
qed

lemma show_nat_digits: "\<forall>c \<in> set (show_nat n). js_digit c"
proof (induction n rule: show_nat.induct)
  case (1 n)
  then show ?case
    by (cases "n < 10") (simp_all add: show_nat.simps [of n] js_simps)
qed

lemma length_show_nat: "10 ^ k \<le> n \<Longrightarrow> n < 10 ^ Suc k \<Longrightarrow> length (show_nat n) = Suc k"
proof (induction k arbitrary: n)
  case 0
  then show ?case by (simp add: show_nat.simps [of n])
next
  case (Suc k)
  then have "10 ^ k \<le> n div 10" "n div 10 < 10 ^ Suc k"
    by (simp_all add: less_eq_div_iff_mult_less_eq div_less_iff_less_mult)
  then have "length (show_nat (n div 10)) = Suc k" by (rule Suc.IH)
  moreover have "10 * 1 \<le> 10 * (10 :: nat) ^ k" by (rule mult_le_mono2) simp
  then have "\<not> n < 10" using Suc.prems(1) unfolding power_Suc by linarith
  ultimately show ?case by (simp add: show_nat.simps [of n])
qed

lemma nat_of_digits_pos:
  "s \<noteq> [] \<Longrightarrow> \<forall>c \<in> set s. js_digit c \<Longrightarrow> hd s \<noteq> CHR ''0'' \<Longrightarrow> 0 < nat_of_digits s"
proof (induction s rule: rev_induct)
  case Nil
  then show ?case by simp
next
  case (snoc c s)
  then show ?case
    by (cases "s = []") (simp_all add: js_simps digit_val_pos)
qed

lemma show_nat_of_digits [js_simps]:
  assumes "s \<noteq> []" and "\<forall>c \<in> set s. js_digit c" and "hd s \<noteq> CHR ''0''"
  shows "show_nat (nat_of_digits s) = s"
  using assms
proof (induction s rule: rev_induct)
  case Nil
  then show ?case by simp
next
  case (snoc c s)
  have c: "js_digit c" and cl: "digit_val c < 10"
    using snoc.prems by (simp_all add: digit_val_less)
  show ?case
  proof (cases "s = []")
    case True
    with c cl show ?thesis by (simp add: show_nat.simps js_simps)
  next
    case False
    with snoc.prems have hd: "hd s \<noteq> CHR ''0''" and ds: "\<forall>x \<in> set s. js_digit x"
      by simp_all
    let ?n = "nat_of_digits s"
    have "0 < ?n"
      using False ds hd by (rule nat_of_digits_pos)
    then have big: "\<not> 10 * ?n + digit_val c < 10" by simp
    have quot: "(10 * ?n + digit_val c) div 10 = ?n" and rem: "(10 * ?n + digit_val c) mod 10 = digit_val c"
      using cl by simp_all
    have "show_nat ?n = s"
      using False ds hd by (rule snoc.IH)
    with big quot rem c show ?thesis
      by (simp add: show_nat.simps [of "10 * ?n + digit_val c"] js_simps)
  qed
qed

text \<open>
  \<^verbatim>\<open>BigInt(text)\<close>: surrounding white space is ignored, the empty text is zero, a
  sign is allowed before decimal digits, the prefixes \<^verbatim>\<open>0x\<close>,
  \<^verbatim>\<open>0o\<close> and \<^verbatim>\<open>0b\<close> select another radix, and any other
  text raises a \<^verbatim>\<open>SyntaxError\<close> (\<open>None\<close>).
\<close>

definition radix_val :: "char \<Rightarrow> nat" where
  "radix_val c =
     (let n = of_char c in
      if 48 \<le> n \<and> n \<le> 57 then n - 48
      else if 97 \<le> n \<and> n \<le> 102 then n - 87
      else if 65 \<le> n \<and> n \<le> 70 then n - 55
      else 99)"

definition parse_radix :: "nat \<Rightarrow> string \<Rightarrow> int option" where
  "parse_radix b s =
     (if s \<noteq> [] \<and> (\<forall>c \<in> set s. radix_val c < b)
      then Some (int (foldl (\<lambda>n c. b * n + radix_val c) 0 s)) else None)"

definition parse_decimal :: "string \<Rightarrow> int option" where
  "parse_decimal s = (if s \<noteq> [] \<and> (\<forall>c \<in> set s. js_digit c) then Some (int (nat_of_digits s)) else None)"

definition bigint_of_string :: "string \<Rightarrow> int option" where
  "bigint_of_string s =
     (let t = js_trim s in
      if t = [] then Some 0
      else if starts_with ''0x'' t \<or> starts_with ''0X'' t then parse_radix 16 (drop 2 t)
      else if starts_with ''0o'' t \<or> starts_with ''0O'' t then parse_radix 8 (drop 2 t)
      else if starts_with ''0b'' t \<or> starts_with ''0B'' t then parse_radix 2 (drop 2 t)
      else if hd t = CHR ''-'' then map_option uminus (parse_decimal (tl t))
      else if hd t = CHR ''+'' then parse_decimal (tl t)
      else parse_decimal t)"

lemma digit_not_space: "js_digit c \<Longrightarrow> \<not> js_space c"
  by (auto simp: js_digit_def js_space_def Let_def)

lemma js_trim_digits [js_simps]: "\<forall>c \<in> set s. js_digit c \<Longrightarrow> js_trim s = s"
proof -
  assume d: "\<forall>c \<in> set s. js_digit c"
  then have "dropWhile js_space s = s" and "dropWhile js_space (rev s) = rev s"
    by (auto intro!: dropWhile_idle simp: digit_not_space hd_rev)
  then show ?thesis by (simp add: js_trim_def)
qed

lemma bigint_of_digits [js_simps]:
  assumes ne: "s \<noteq> []" and d: "\<forall>c \<in> set s. js_digit c"
  shows "bigint_of_string s = Some (int (nat_of_digits s))"
proof -
  have sec: "\<not> js_digit (CHR ''x'')" "\<not> js_digit (CHR ''X'')" "\<not> js_digit (CHR ''o'')"
    "\<not> js_digit (CHR ''O'')" "\<not> js_digit (CHR ''b'')" "\<not> js_digit (CHR ''B'')"
    "\<not> js_digit (CHR ''-'')" "\<not> js_digit (CHR ''+'')"
    by (simp_all add: js_digit_def)
  obtain a r where s: "s = a # r" using ne by (cases s) auto
  have "a \<noteq> CHR ''-''" "a \<noteq> CHR ''+''"
    using d s sec by auto
  moreover have "\<not> starts_with [CHR ''0'', x] s" if "\<not> js_digit x" for x
    using d s that by (cases r) (auto simp: starts_with_def)
  ultimately show ?thesis
    using s d sec by (simp add: bigint_of_string_def js_trim_digits parse_decimal_def)
qed

section \<open>Tables\<close>

text \<open>
  \<open>find_latest k p\<close> is \<^verbatim>\<open>findFirst\<close> with an \<^verbatim>\<open>orderBy\<close> on
  the column \<open>k\<close> descending; \<^verbatim>\<open>findFirst\<close> without an order and
  \<^verbatim>\<open>findUnique\<close> are \<open>List.find\<close>.  \<open>update_where\<close> is
  \<^verbatim>\<open>updateMany\<close>, or \<^verbatim>\<open>update\<close> when the condition is the
  primary key, and \<open>count_where\<close> the count the former returns.
\<close>

fun find_latest :: "('r \<Rightarrow> int) \<Rightarrow> ('r \<Rightarrow> bool) \<Rightarrow> 'r list \<Rightarrow> 'r option" where
  "find_latest k p [] = None"
| "find_latest k p (r # rs) =
     (case find_latest k p rs of
        None \<Rightarrow> if p r then Some r else None
      | Some r' \<Rightarrow> if p r \<and> k r' \<le> k r then Some r else Some r')"

definition update_where :: "('r \<Rightarrow> bool) \<Rightarrow> ('r \<Rightarrow> 'r) \<Rightarrow> 'r list \<Rightarrow> 'r list" where
  "update_where p f rs = map (\<lambda>r. if p r then f r else r) rs"

definition count_where :: "('r \<Rightarrow> bool) \<Rightarrow> 'r list \<Rightarrow> nat" where
  "count_where p rs = length (filter p rs)"

lemma find_latest_None [table_simps]: "find_latest k p rs = None \<longleftrightarrow> (\<forall>r \<in> set rs. \<not> p r)"
  by (induction rs) (auto split: option.splits)

lemma find_latest_SomeD:
  "find_latest k p rs = Some r \<Longrightarrow> r \<in> set rs \<and> p r \<and> (\<forall>x \<in> set rs. p x \<longrightarrow> k x \<le> k r)"
proof (induction rs arbitrary: r)
  case Nil
  then show ?case by simp
next
  case (Cons a rs)
  show ?case
  proof (cases "find_latest k p rs")
    case None
    then have "\<forall>x \<in> set rs. \<not> p x" by (simp add: find_latest_None)
    with None Cons.prems show ?thesis by (auto split: if_splits)
  next
    case (Some b)
    with Cons.IH have "b \<in> set rs" "p b" "\<forall>x \<in> set rs. p x \<longrightarrow> k x \<le> k b" by auto
    with Some Cons.prems show ?thesis by (fastforce split: if_splits)
  qed
qed

lemma find_SomeD: "List.find p rs = Some r \<Longrightarrow> r \<in> set rs \<and> p r"
  by (auto simp: find_Some_iff)

lemma find_NoneD: "List.find p rs = None \<Longrightarrow> r \<in> set rs \<Longrightarrow> \<not> p r"
  by (auto simp: find_None_iff)

lemma set_update_where [table_simps]:
  "set (update_where p f rs) = (\<lambda>r. if p r then f r else r) ` set rs"
  by (simp add: update_where_def)

lemma update_where_keeps [intro]: "r \<in> set rs \<Longrightarrow> \<not> p r \<Longrightarrow> r \<in> set (update_where p f rs)"
  by (auto simp: table_simps)

lemma update_where_hit [intro]: "r \<in> set rs \<Longrightarrow> p r \<Longrightarrow> f r \<in> set (update_where p f rs)"
  by (auto simp: table_simps)

lemma update_whereE:
  assumes "r \<in> set (update_where p f rs)"
  obtains (kept) "r \<in> set rs" "\<not> p r" | (hit) r0 where "r0 \<in> set rs" "p r0" "r = f r0"
  using assms by (auto simp: table_simps split: if_splits)

lemma update_where_key [table_simps]:
  "(\<And>r. key (f r) = key r) \<Longrightarrow> map key (update_where p f rs) = map key rs"
  by (simp add: update_where_def)

lemma update_where_empty [table_simps]: "update_where p f [] = []"
  by (simp add: update_where_def)

lemma update_where_none: "(\<And>r. r \<in> set rs \<Longrightarrow> \<not> p r) \<Longrightarrow> update_where p f rs = rs"
  by (induction rs) (auto simp: update_where_def)

lemma length_update_where [table_simps]: "length (update_where p f rs) = length rs"
  by (simp add: update_where_def)

lemma ball_update_where:
  "(\<forall>r \<in> set (update_where p f rs). P r) \<longleftrightarrow> (\<forall>r \<in> set rs. if p r then P (f r) else P r)"
  by (auto simp: update_where_def)

lemma find_update_where:
  "(\<And>r. q (f r) = q r) \<Longrightarrow>
   List.find q (update_where p f rs) = map_option (\<lambda>r. if p r then f r else r) (List.find q rs)"
  by (induction rs) (auto simp: update_where_def)

lemma update_where_append: "update_where p f (xs @ ys) = update_where p f xs @ update_where p f ys"
  by (simp add: update_where_def)

lemma find_append_None: "(\<And>x. x \<in> set xs \<Longrightarrow> \<not> p x) \<Longrightarrow> List.find p (xs @ ys) = List.find p ys"
  by (induction xs) auto

lemma find_map: "List.find p (map f xs) = map_option f (List.find (\<lambda>x. p (f x)) xs)"
  by (induction xs) simp_all

lemma find_append_Some: "List.find p xs = Some r \<Longrightarrow> List.find p (xs @ ys) = Some r"
  by (induction xs) (auto split: if_splits)

lemma count_where_pos: "0 < count_where p rs \<longleftrightarrow> (\<exists>r \<in> set rs. p r)"
  by (simp add: count_where_def filter_empty_conv)

lemma count_where_zero: "count_where p rs = 0 \<longleftrightarrow> (\<forall>r \<in> set rs. \<not> p r)"
  by (simp add: count_where_def filter_empty_conv)

lemma distinct_key_eq:
  "distinct (map key rs) \<Longrightarrow> r \<in> set rs \<Longrightarrow> r' \<in> set rs \<Longrightarrow> key r = key r' \<Longrightarrow> r = r'"
  by (metis inj_on_def distinct_map)

lemma bex_update_where:
  "(\<exists>r \<in> set (update_where p f rs). P r) \<longleftrightarrow> (\<exists>r \<in> set rs. if p r then P (f r) else P r)"
  by (auto simp: update_where_def)

lemma filter_eq_single: "distinct rs \<Longrightarrow> r \<in> set rs \<Longrightarrow> filter (\<lambda>x. x = r) rs = [r]"
  by (induction rs) (auto simp: filter_empty_conv)

lemma count_where_key:
  assumes "distinct (map key rs)" and "r \<in> set rs" and "p r"
  shows "count_where (\<lambda>x. key x = key r \<and> p x) rs = 1"
proof -
  have "filter (\<lambda>x. key x = key r \<and> p x) rs = filter (\<lambda>x. x = r) rs"
    using assms distinct_key_eq [OF assms(1) _ assms(2)] by (intro filter_cong) auto
  then show ?thesis
    using assms(1,2) by (simp add: count_where_def filter_eq_single distinct_map)
qed

lemma find_by_key:
  "distinct (map key rs) \<Longrightarrow> r \<in> set rs \<Longrightarrow> key r = i \<Longrightarrow> List.find (\<lambda>x. key x = i) rs = Some r"
  by (induction rs) (auto simp: rev_image_eqI)

lemma distinct_count_list: "distinct xs \<Longrightarrow> count_list xs x \<le> 1"
  by (induction xs) (auto simp: count_notin)

end
