(* ===== verification/Phone.thy ===== *)
theory Phone
  imports Prelude
begin

text \<open>
  \<^verbatim>\<open>src/src/utils/phone.ts\<close>: normalisation of Russian phone numbers to eleven
  digits starting with 7, their numeric form stored in the database, and the display format.
  The \<^verbatim>\<open>unknown\<close> input is a nullable string, \<^verbatim>\<open>String(input ?? '')\<close> being
  \<open>or_empty\<close>.
\<close>

definition normalizePhoneToDigits11 :: "string option \<Rightarrow> string option" where
  "normalizePhoneToDigits11 input =
     (let digits = filter js_digit (or_empty input) in
      if digits = [] then None
      else
        let n1 = (if length digits = 10 then CHR ''7'' # digits else digits);
            n2 = (if length n1 = 11 \<and> starts_with ''8'' n1 then CHR ''7'' # drop 1 n1 else n1)
        in if length n2 \<noteq> 11 \<or> \<not> starts_with ''7'' n2 then None else Some n2)"

definition normalizePhoneToBigInt :: "string option \<Rightarrow> int option" where
  "normalizePhoneToBigInt input =
     (case normalizePhoneToDigits11 input of
        None \<Rightarrow> None
      | Some digits \<Rightarrow> bigint_of_string digits)"

definition toApiPhoneString :: "int option \<Rightarrow> string option" where
  "toApiPhoneString v =
     (case v of None \<Rightarrow> None | Some n \<Rightarrow> normalizePhoneToDigits11 (Some (show_int n)))"

definition formatDigits11ToDisplay :: "string option \<Rightarrow> string option" where
  "formatDigits11ToDisplay input =
     (case normalizePhoneToDigits11 input of
        None \<Rightarrow> None
      | Some digits \<Rightarrow>
          Some (''+7 ('' @ slice 1 4 digits @ '') '' @ slice 4 7 digits @ ''-'' @
                slice 7 9 digits @ ''-'' @ slice 9 11 digits))"

definition sanitizePhoneForSearch :: "string option \<Rightarrow> string" where
  "sanitizePhoneForSearch input = filter js_digit (or_empty input)"

text \<open>The canonical form every normalised number has.\<close>

definition canonical_phone :: "string \<Rightarrow> bool" where
  "canonical_phone s \<longleftrightarrow> length s = 11 \<and> (\<forall>c \<in> set s. js_digit c) \<and> hd s = CHR ''7''"

lemma seven_digit [simp]: "js_digit (CHR ''7'')"
  by (simp add: js_digit_def)

lemma starts_with_single: "starts_with [c] s \<longleftrightarrow> (s \<noteq> [] \<and> hd s = c)"
  by (cases s) (auto simp: starts_with_def)

lemma canonicalI: "\<forall>c \<in> set s. js_digit c \<Longrightarrow> length s = 11 \<Longrightarrow> starts_with ''7'' s \<Longrightarrow> canonical_phone s"
  by (simp add: canonical_phone_def starts_with_single)

lemma normalize_canonical:
  assumes "normalizePhoneToDigits11 input = Some s"
  shows "canonical_phone s"
proof -
  define d where "d = filter js_digit (or_empty input)"
  define n1 where "n1 = (if length d = 10 then CHR ''7'' # d else d)"
  define n2 where "n2 = (if length n1 = 11 \<and> starts_with ''8'' n1 then CHR ''7'' # drop 1 n1 else n1)"
  have "\<forall>c \<in> set n1. js_digit c" by (simp add: n1_def d_def)
  then have dig: "\<forall>c \<in> set n2. js_digit c"
    by (auto simp: n2_def dest: in_set_dropD)
  from assms have "s = n2 \<and> length n2 = 11 \<and> starts_with ''7'' n2"
    unfolding normalizePhoneToDigits11_def Let_def d_def [symmetric] n1_def [symmetric] n2_def [symmetric]
    by (simp split: if_splits)
  with dig show ?thesis by (simp add: canonicalI)
qed

lemma normalize_of_digits:
  assumes "canonical_phone (filter js_digit s)"
  shows "normalizePhoneToDigits11 (Some s) = Some (filter js_digit s)"
proof -
  have "length (filter js_digit s) = 11" "filter js_digit s \<noteq> []" "hd (filter js_digit s) = CHR ''7''"
    using assms by (auto simp: canonical_phone_def)
  then show ?thesis
    by (simp add: normalizePhoneToDigits11_def or_empty_def starts_with_single)
qed

lemma normalize_fixed: "canonical_phone s \<Longrightarrow> normalizePhoneToDigits11 (Some s) = Some s"
proof -
  assume c: "canonical_phone s"
  then have "filter js_digit s = s" by (simp add: canonical_phone_def)
  with c show ?thesis using normalize_of_digits [of s] by simp
qed

lemma canonical_show:
  assumes "canonical_phone s"
  shows "show_int (int (nat_of_digits s)) = s"
proof -
  from assms have "s \<noteq> []" "\<forall>c \<in> set s. js_digit c" "hd s \<noteq> CHR ''0''"
    by (auto simp: canonical_phone_def)
  then show ?thesis by (simp add: show_int_def show_nat_of_digits)
qed

lemma bigint_canonical: "canonical_phone s \<Longrightarrow> bigint_of_string s = Some (int (nat_of_digits s))"
  by (rule bigint_of_digits) (auto simp: canonical_phone_def)

lemma canonical_value_pos: "canonical_phone s \<Longrightarrow> 0 < nat_of_digits s"
  by (rule nat_of_digits_pos) (auto simp: canonical_phone_def)

lemma normalizePhoneToBigInt_Some_iff:
  "normalizePhoneToBigInt input = Some n \<longleftrightarrow>
     (\<exists>s. normalizePhoneToDigits11 input = Some s \<and> n = int (nat_of_digits s))"
  by (auto simp: normalizePhoneToBigInt_def bigint_canonical normalize_canonical split: option.splits)

lemma toApi_of_canonical: "canonical_phone s \<Longrightarrow> toApiPhoneString (Some (int (nat_of_digits s))) = Some s"
  by (simp add: toApiPhoneString_def canonical_show normalize_fixed)

lemma canonical_value_inj:
  "canonical_phone s \<Longrightarrow> canonical_phone t \<Longrightarrow> nat_of_digits s = nat_of_digits t \<Longrightarrow> s = t"
  by (metis canonical_show)

lemma filter_digit_slice: "\<forall>c \<in> set s. js_digit c \<Longrightarrow> filter js_digit (slice a b s) = slice a b s"
  by (auto simp: slice_def intro!: filter_True dest: in_set_takeD in_set_dropD)

lemma canonical_split:
  assumes "canonical_phone s"
  shows "s = ''7'' @ slice 1 4 s @ slice 4 7 s @ slice 7 9 s @ slice 9 11 s"
proof -
  have len: "length s = 11" and hd: "hd s = CHR ''7''" using assms by (simp_all add: canonical_phone_def)
  from len obtain a b c d e f g h i j k where "s = [a, b, c, d, e, f, g, h, i, j, k]"
    by (auto simp: numeral_eq_Suc length_Suc_conv)
  with hd show ?thesis by (simp add: slice_def)
qed

text \<open>Evaluation of the phone functions on concrete texts.\<close>

lemmas phone_eval =
  normalizePhoneToDigits11_def normalizePhoneToBigInt_def or_empty_def js_digit_def starts_with_def
  bigint_of_digits nat_of_digits_def digit_val_def

section \<open>Properties\<close>

text \<open>
  The number stored in the database loses nothing: whenever a text normalises to a stored
  value, reading that value back through \<open>toApiPhoneString\<close> gives exactly the eleven digits
  the text normalises to, and these are digits starting with 7.
\<close>

theorem phone_store_roundtrip:
  assumes "normalizePhoneToBigInt input = Some n"
  shows "\<exists>s. normalizePhoneToDigits11 input = Some s \<and> toApiPhoneString (Some n) = Some s \<and> canonical_phone s"
proof -
  from assms obtain s where s: "normalizePhoneToDigits11 input = Some s" "n = int (nat_of_digits s)"
    by (auto simp: normalizePhoneToBigInt_Some_iff)
  then show ?thesis by (simp add: toApi_of_canonical normalize_canonical)
qed

theorem phone_store_roundtrip_witness:
  "\<exists>s. normalizePhoneToDigits11 (Some ''8 (912) 345-67-89'') = Some s \<and>
       toApiPhoneString (Some 79123456789) = Some s \<and> canonical_phone s"
proof (rule phone_store_roundtrip)
  show "normalizePhoneToBigInt (Some ''8 (912) 345-67-89'') = Some 79123456789"
    by (simp add: phone_eval)
qed

text \<open>
  The display form of a phone is a faithful rendering: normalising what
  \<open>formatDigits11ToDisplay\<close> prints gives the number that was printed.
\<close>

theorem phone_display_roundtrip:
  assumes "formatDigits11ToDisplay input = Some shown"
  shows "normalizePhoneToDigits11 (Some shown) = normalizePhoneToDigits11 input"
proof -
  from assms obtain s where s: "normalizePhoneToDigits11 input = Some s"
    and shown: "shown = ''+7 ('' @ slice 1 4 s @ '') '' @ slice 4 7 s @ ''-'' @ slice 7 9 s @ ''-'' @ slice 9 11 s"
    by (auto simp: formatDigits11ToDisplay_def split: option.splits)
  have can: "canonical_phone s" using s by (rule normalize_canonical)
  then have dig: "\<forall>c \<in> set s. js_digit c" by (simp add: canonical_phone_def)
  have punct: "filter js_digit ''+7 ('' = ''7''" "filter js_digit '') '' = []" "filter js_digit ''-'' = []"
    by code_simp+
  have "filter js_digit shown = s"
    unfolding shown filter_append punct filter_digit_slice [OF dig]
    using canonical_split [OF can] by simp
  then show ?thesis using normalize_of_digits [of shown] can s by simp
qed

theorem phone_display_roundtrip_witness:
  "normalizePhoneToDigits11 (Some ''+7 (912) 345-67-89'') = normalizePhoneToDigits11 (Some ''9123456789'')"
proof (rule phone_display_roundtrip)
  show "formatDigits11ToDisplay (Some ''9123456789'') = Some ''+7 (912) 345-67-89''"
    by (simp add: formatDigits11ToDisplay_def phone_eval slice_def)
qed

end
