(* ===== verification/Accounts.thy ===== *)
theory Accounts
  imports Prelude
begin

text \<open>
  The account data that the identity services share: the contact and messenger columns of the
  \<^verbatim>\<open>User\<close> table (\<^verbatim>\<open>src/prisma/schema.core.prisma\<close>), the bot settings
  read from the environment, and the rule that derives a user's authentication provider
  (\<^verbatim>\<open>src/src/services/phoneVerificationService.ts\<close>).
\<close>

datatype messenger = TELEGRAM | MAX_BOT

datatype auth_provider = LOCAL | ONLY_TELEGRAM | ONLY_MAX | HYBRID

text \<open>The states of a phone or e-mail change session.\<close>

datatype session_status = PENDING | VERIFIED | FAILED | EXPIRED | CANCELLED

record user =
  u_id :: user_id
  u_email :: "string option"
  u_passwordHash :: "string option"
  u_phone :: "int option"
  u_phoneVerifiedAt :: "millis option"
  u_telegramId :: "int option"
  u_telegramUsername :: "string option"
  u_telegramLinkedAt :: "millis option"
  u_maxId :: "int option"
  u_maxUsername :: "string option"
  u_maxLinkedAt :: "millis option"
  u_authProvider :: auth_provider

record bot_env =
  TELEGRAM_BOT_TOKEN :: "string option"
  TELEGRAM_BOT_USERNAME :: "string option"
  MAX_BOT_TOKEN :: "string option"
  MAX_BOT_USERNAME :: "string option"

definition isTelegramBotConfigured :: "bot_env \<Rightarrow> bool" where
  "isTelegramBotConfigured env \<longleftrightarrow>
     js_trim (or_empty (TELEGRAM_BOT_TOKEN env)) \<noteq> [] \<and> js_trim (or_empty (TELEGRAM_BOT_USERNAME env)) \<noteq> []"

definition isMaxBotConfigured :: "bot_env \<Rightarrow> bool" where
  "isMaxBotConfigured env \<longleftrightarrow>
     js_trim (or_empty (MAX_BOT_TOKEN env)) \<noteq> [] \<and> js_trim (or_empty (MAX_BOT_USERNAME env)) \<noteq> []"

definition hasCredentials :: "user \<Rightarrow> bool" where
  "hasCredentials u \<longleftrightarrow> truthy (u_email u) \<and> truthy (u_passwordHash u)"

definition resolveAuthProvider :: "bool \<Rightarrow> bool \<Rightarrow> bool \<Rightarrow> auth_provider" where
  "resolveAuthProvider hasLocalCredentials hasTelegram hasMax =
     (if hasLocalCredentials then (if hasTelegram \<or> hasMax then HYBRID else LOCAL)
      else if hasTelegram \<and> hasMax then HYBRID
      else if hasTelegram then ONLY_TELEGRAM
      else if hasMax then ONLY_MAX
      else LOCAL)"

text \<open>
  \<^verbatim>\<open>parseBigInt\<close> of the session services on a nullable text: \<open>None\<close> is
  \<^verbatim>\<open>null\<close>, also where \<^verbatim>\<open>BigInt\<close> raises.
\<close>

definition parseBigInt :: "string option \<Rightarrow> int option" where
  "parseBigInt v = (case v of None \<Rightarrow> None | Some s \<Rightarrow> bigint_of_string s)"

section \<open>Uniqueness of the contact columns\<close>

text \<open>
  The database declares \<^verbatim>\<open>id\<close>, \<^verbatim>\<open>phone\<close>,
  \<^verbatim>\<open>telegramId\<close> and \<^verbatim>\<open>maxId\<close> unique; a write that broke one
  of them would be rejected.  \<open>users_wf\<close> is that constraint.
\<close>

definition unique_col :: "('r \<Rightarrow> 'v option) \<Rightarrow> ('r \<Rightarrow> 'k) \<Rightarrow> 'r list \<Rightarrow> bool" where
  "unique_col col key rs \<longleftrightarrow>
     (\<forall>r \<in> set rs. \<forall>x \<in> set rs. col r \<noteq> None \<longrightarrow> col r = col x \<longrightarrow> key r = key x)"

definition users_wf :: "user list \<Rightarrow> bool" where
  "users_wf us \<longleftrightarrow> distinct (map u_id us) \<and> unique_col u_phone u_id us \<and>
     unique_col u_telegramId u_id us \<and> unique_col u_maxId u_id us"

lemma unique_col_update:
  assumes u: "unique_col col key rs" and k: "\<And>r. key (f r) = key r"
    and c: "\<And>r. col (f r) = None \<or> col (f r) = col r"
  shows "unique_col col key (update_where p f rs)"
  unfolding unique_col_def
proof (intro ballI impI)
  fix r x
  assume r: "r \<in> set (update_where p f rs)" and x: "x \<in> set (update_where p f rs)"
    and ne: "col r \<noteq> None" and eq: "col r = col x"
  have inv: "\<exists>y0 \<in> set rs. key y = key y0 \<and> (col y = None \<or> col y = col y0)"
    if "y \<in> set (update_where p f rs)" for y
    using that k c by (cases rule: update_whereE) blast+
  from inv [OF r] inv [OF x] show "key r = key x"
    using u ne eq unfolding unique_col_def by metis
qed

lemma unique_col_set:
  assumes "unique_col col key rs" and "\<And>r. col (f r) = Some v" and "\<And>r. key (f r) = key r"
    and "\<And>r. r \<in> set rs \<Longrightarrow> col r = Some v \<Longrightarrow> key r = k"
  shows "unique_col col key (update_where (\<lambda>r. key r = k) f rs)"
  unfolding unique_col_def
proof (intro ballI impI)
  fix r x
  assume r: "r \<in> set (update_where (\<lambda>r. key r = k) f rs)"
    and x: "x \<in> set (update_where (\<lambda>r. key r = k) f rs)"
    and ne: "col r \<noteq> None" and eq: "col r = col x"
  have inv: "(y \<in> set rs \<and> key y \<noteq> k) \<or> (key y = k \<and> col y = Some v)"
    if "y \<in> set (update_where (\<lambda>r. key r = k) f rs)" for y
    using that by (cases rule: update_whereE) (auto simp: assms(2,3))
  from inv [OF r] inv [OF x] show "key r = key x"
    using assms(1,4) ne eq unfolding unique_col_def by metis
qed

lemma unique_colD:
  "unique_col col key rs \<Longrightarrow> r \<in> set rs \<Longrightarrow> x \<in> set rs \<Longrightarrow> col r = Some v \<Longrightarrow> col x = Some v \<Longrightarrow> key r = key x"
  unfolding unique_col_def by fastforce

end
