(* ===== verification/Regex.thy ===== *)
theory Regex
  imports Prelude
begin

text \<open>
  The regular expressions of the sources as data, with the meaning of an anchored test
  (\<open>denotes\<close>) and an executable test by derivatives (\<open>re_test\<close>), which decides it.
  A pattern of the sources is then transcribed symbol by symbol.  Only the operators the
  sources use are here: character classes, sequence, alternative, \<^verbatim>\<open>*\<close>,
  \<^verbatim>\<open>+\<close> and counted repetition.
\<close>

datatype re =
    Nul
  | Eps
  | Cls "char \<Rightarrow> bool"
  | Sq re re
  | Alt re re
  | Star re

definition Plus :: "re \<Rightarrow> re" where
  "Plus r = Sq r (Star r)"

fun Lit :: "string \<Rightarrow> re" where
  "Lit [] = Eps"
| "Lit (c # s) = Sq (Cls (\<lambda>x. x = c)) (Lit s)"

fun Rep :: "nat \<Rightarrow> re \<Rightarrow> re" where
  "Rep 0 r = Eps"
| "Rep (Suc n) r = Sq r (Rep n r)"

text \<open>An unanchored test looks for a match anywhere in the text.\<close>

definition Anywhere :: "re \<Rightarrow> re" where
  "Anywhere r = Sq (Star (Cls (\<lambda>_. True))) (Sq r (Star (Cls (\<lambda>_. True))))"

inductive denotes :: "re \<Rightarrow> string \<Rightarrow> bool" where
  eps: "denotes Eps []"
| cls: "p c \<Longrightarrow> denotes (Cls p) [c]"
| sq: "denotes r s \<Longrightarrow> denotes r' s' \<Longrightarrow> denotes (Sq r r') (s @ s')"
| alt1: "denotes r s \<Longrightarrow> denotes (Alt r r') s"
| alt2: "denotes r' s \<Longrightarrow> denotes (Alt r r') s"
| star0: "denotes (Star r) []"
| star1: "denotes r s \<Longrightarrow> denotes (Star r) s' \<Longrightarrow> denotes (Star r) (s @ s')"

inductive_simps denotes_Nul [simp]: "denotes Nul s"
inductive_simps denotes_Eps [simp]: "denotes Eps s"
inductive_simps denotes_Cls: "denotes (Cls p) s"
inductive_simps denotes_Sq: "denotes (Sq r r') s"
inductive_simps denotes_Alt: "denotes (Alt r r') s"

fun nullable :: "re \<Rightarrow> bool" where
  "nullable Nul = False"
| "nullable Eps = True"
| "nullable (Cls p) = False"
| "nullable (Sq r r') = (nullable r \<and> nullable r')"
| "nullable (Alt r r') = (nullable r \<or> nullable r')"
| "nullable (Star r) = True"

text \<open>Constructors that drop the empty language and the empty word keep derivatives small.\<close>

fun mk_sq :: "re \<Rightarrow> re \<Rightarrow> re" where
  "mk_sq Nul r' = Nul"
| "mk_sq Eps r' = r'"
| "mk_sq r r' = Sq r r'"

fun mk_alt :: "re \<Rightarrow> re \<Rightarrow> re" where
  "mk_alt Nul r' = r'"
| "mk_alt r Nul = r"
| "mk_alt r r' = Alt r r'"

fun deriv :: "char \<Rightarrow> re \<Rightarrow> re" where
  "deriv c Nul = Nul"
| "deriv c Eps = Nul"
| "deriv c (Cls p) = (if p c then Eps else Nul)"
| "deriv c (Sq r r') =
     (if nullable r then mk_alt (mk_sq (deriv c r) r') (deriv c r') else mk_sq (deriv c r) r')"
| "deriv c (Alt r r') = mk_alt (deriv c r) (deriv c r')"
| "deriv c (Star r) = mk_sq (deriv c r) (Star r)"

fun re_test :: "re \<Rightarrow> string \<Rightarrow> bool" where
  "re_test r [] = nullable r"
| "re_test r (c # s) = re_test (deriv c r) s"

lemma denotes_Nil: "denotes r [] \<longleftrightarrow> nullable r"
proof (induction r)
  case (Sq r r')
  then show ?case by (simp add: denotes_Sq)
next
  case (Alt r r')
  then show ?case by (simp add: denotes_Alt)
qed (auto simp: denotes_Cls intro: denotes.intros)

lemma denotes_mk_sq: "denotes (mk_sq r r') s \<longleftrightarrow> denotes (Sq r r') s"
  by (cases r) (simp_all add: denotes_Sq)

lemma denotes_mk_alt: "denotes (mk_alt r r') s \<longleftrightarrow> denotes (Alt r r') s"
  by (cases r; cases r') (simp_all add: denotes_Alt)

lemma denotes_Star_Cons:
  assumes "denotes (Star r) (c # s)"
  shows "\<exists>u v. s = u @ v \<and> denotes r (c # u) \<and> denotes (Star r) v"
  using assms
proof (induction "Star r" "c # s" arbitrary: s rule: denotes.induct)
  case (star1 u v)
  then show ?case by (cases u) auto
qed

lemma denotes_deriv: "denotes (deriv c r) s \<longleftrightarrow> denotes r (c # s)"
proof (induction r arbitrary: s)
  case (Sq r r')
  have "denotes (Sq r r') (c # s) \<longleftrightarrow>
      (\<exists>u v. s = u @ v \<and> denotes r (c # u) \<and> denotes r' v) \<or> denotes r [] \<and> denotes r' (c # s)"
    by (auto simp: denotes_Sq Cons_eq_append_conv)
  then show ?case
    by (auto simp: Sq.IH denotes_mk_alt denotes_mk_sq denotes_Alt denotes_Sq denotes_Nil)
next
  case (Alt r r')
  then show ?case by (simp add: denotes_mk_alt denotes_Alt)
next
  case (Star r)
  have "denotes (deriv c (Star r)) s \<longleftrightarrow> (\<exists>u v. s = u @ v \<and> denotes r (c # u) \<and> denotes (Star r) v)"
    by (auto simp: denotes_mk_sq denotes_Sq Star.IH)
  also have "\<dots> \<longleftrightarrow> denotes (Star r) (c # s)"
    using denotes.star1 [of r "c # _"] by (auto dest: denotes_Star_Cons)
  finally show ?case .
qed (auto simp: denotes_Cls)

theorem re_test_denotes: "re_test r s \<longleftrightarrow> denotes r s"
  by (induction s arbitrary: r) (simp_all add: denotes_Nil denotes_deriv)

subsection \<open>What the operators of the sources match\<close>

lemma denotes_Lit [simp]: "denotes (Lit l) s \<longleftrightarrow> s = l"
  by (induction l arbitrary: s) (auto simp: denotes_Sq denotes_Cls)

lemma denotes_Star_Cls [simp]: "denotes (Star (Cls p)) s \<longleftrightarrow> (\<forall>c \<in> set s. p c)"
proof (induction s)
  case Nil
  show ?case by (simp add: denotes_Nil)
next
  case (Cons c s)
  then show ?case
    using denotes.star1 [of "Cls p" "[c]" s]
    by (auto simp: denotes_Cls dest!: denotes_Star_Cons)
qed

lemma denotes_Sq_Cls: "denotes (Sq (Cls p) r) s \<longleftrightarrow> (\<exists>c t. s = c # t \<and> p c \<and> denotes r t)"
proof
  assume "denotes (Sq (Cls p) r) s"
  then show "\<exists>c t. s = c # t \<and> p c \<and> denotes r t"
    by (auto simp: denotes_Sq denotes_Cls)
next
  assume "\<exists>c t. s = c # t \<and> p c \<and> denotes r t"
  then show "denotes (Sq (Cls p) r) s"
    using denotes.sq [OF denotes.cls] by fastforce
qed

lemma denotes_Plus_Cls [simp]: "denotes (Plus (Cls p)) s \<longleftrightarrow> s \<noteq> [] \<and> (\<forall>c \<in> set s. p c)"
  by (cases s) (auto simp: Plus_def denotes_Sq_Cls)

lemma denotes_Rep_Cls [simp]: "denotes (Rep n (Cls p)) s \<longleftrightarrow> length s = n \<and> (\<forall>c \<in> set s. p c)"
proof (induction n arbitrary: s)
  case (Suc n)
  then show ?case
    by (cases s) (auto simp: denotes_Sq_Cls)
qed auto

lemma denotes_Sq_Lit: "denotes (Sq (Lit l) r) s \<longleftrightarrow> (\<exists>t. s = l @ t \<and> denotes r t)"
  unfolding denotes_Sq denotes_Lit by blast

lemma denotes_Sq_Plus:
  "denotes (Sq (Plus (Cls p)) r) s \<longleftrightarrow>
     (\<exists>u t. s = u @ t \<and> u \<noteq> [] \<and> (\<forall>c \<in> set u. p c) \<and> denotes r t)"
  unfolding denotes_Sq denotes_Plus_Cls by blast

lemma denotes_Anywhere: "denotes (Anywhere r) s \<longleftrightarrow> (\<exists>a m b. s = a @ m @ b \<and> denotes r m)"
  by (auto simp: Anywhere_def denotes_Sq)

declare Lit.simps [simp del] Rep.simps [simp del] re_test.simps [simp del]

subsection \<open>Patterns used by several components\<close>

text \<open>\<^verbatim>\<open>/^[^\s@]+@[^\s@]+\.[^\s@]+$/\<close>\<close>

definition EMAIL_RE :: re where
  "EMAIL_RE =
     (let part = Plus (Cls (\<lambda>c. \<not> js_space c \<and> c \<noteq> CHR ''@''))
      in Sq part (Sq (Lit ''@'') (Sq part (Sq (Lit ''.'') part))))"

text \<open>\<^verbatim>\<open>[A-Za-z0-9_-]\<close>\<close>

definition token_char :: "char \<Rightarrow> bool" where
  "token_char c =
     (let n = (of_char c :: nat) in
      (65 \<le> n \<and> n \<le> 90) \<or> (97 \<le> n \<and> n \<le> 122) \<or> (48 \<le> n \<and> n \<le> 57) \<or> n = 95 \<or> n = 45)"

lemma EMAIL_RE_shape:
  assumes "denotes EMAIL_RE s"
  obtains l d t where "s = l @ ''@'' @ d @ ''.'' @ t" and "l \<noteq> []" and "d \<noteq> []" and "t \<noteq> []"
    and "\<forall>c \<in> set (l @ d @ t). \<not> js_space c \<and> c \<noteq> CHR ''@''"
proof -
  let ?p = "\<lambda>c. \<not> js_space c \<and> c \<noteq> CHR ''@''"
  from assms obtain l s1 where s: "s = l @ s1" and l: "l \<noteq> []" "\<forall>c \<in> set l. ?p c"
    and s1: "denotes (Sq (Lit ''@'') (Sq (Plus (Cls ?p)) (Sq (Lit ''.'') (Plus (Cls ?p))))) s1"
    unfolding EMAIL_RE_def Let_def denotes_Sq_Plus [of ?p _ s] by blast
  from s1 obtain s1r where s1r: "s1 = ''@'' @ s1r"
    and "denotes (Sq (Plus (Cls ?p)) (Sq (Lit ''.'') (Plus (Cls ?p)))) s1r"
    unfolding denotes_Sq_Lit [of "''@''"] by blast
  then obtain d s2 where "s1r = d @ s2" and d: "d \<noteq> []" "\<forall>c \<in> set d. ?p c"
    and s2: "denotes (Sq (Lit ''.'') (Plus (Cls ?p))) s2"
    unfolding denotes_Sq_Plus [of ?p _ s1r] by blast
  with s1r have s1': "s1 = ''@'' @ d @ s2" by simp
  from s2 obtain t where "s2 = ''.'' @ t" and t: "t \<noteq> []" "\<forall>c \<in> set t. ?p c"
    unfolding denotes_Sq_Lit denotes_Plus_Cls by blast
  with s s1' have "s = l @ ''@'' @ d @ ''.'' @ t" by simp
  then show thesis
    using that l d t by (metis Un_iff set_append)
qed

lemma EMAIL_RE_intro:
  assumes "l \<noteq> []" "d \<noteq> []" "t \<noteq> []" and "\<forall>c \<in> set (l @ d @ t). \<not> js_space c \<and> c \<noteq> CHR ''@''"
  shows "denotes EMAIL_RE (l @ ''@'' @ d @ ''.'' @ t)"
proof -
  have "denotes (Plus (Cls (\<lambda>c. \<not> js_space c \<and> c \<noteq> CHR ''@''))) l"
    "denotes (Plus (Cls (\<lambda>c. \<not> js_space c \<and> c \<noteq> CHR ''@''))) d"
    "denotes (Plus (Cls (\<lambda>c. \<not> js_space c \<and> c \<noteq> CHR ''@''))) t"
    using assms by simp_all
  then show ?thesis unfolding EMAIL_RE_def Let_def by (intro denotes.sq) simp_all
qed

lemma EMAIL_RE_demo: "denotes EMAIL_RE ''new@b.ru''" "denotes EMAIL_RE ''old@b.ru''"
  using EMAIL_RE_intro [of "''new''" "''b''" "''ru''"] EMAIL_RE_intro [of "''old''" "''b''" "''ru''"]
  by (simp_all add: js_space_def)

end
