(* ===== verification/Contracts.thy ===== *)
theory Contracts
  imports Prelude
begin

text \<open>
  The interfaces the components share, as locales: a machine whose closed rows are final
  (\<open>session_machine\<close>), one that also keeps at most one open request per owner
  (\<open>owned_session_machine\<close>), a credential that can be redeemed at most once for each time it is armed
  (\<open>rearmable_shot\<close>) or at most once at all (\<open>one_shot\<close>), and a claim that excludes others for a time (\<open>lease\<close>).  The facts about whole runs are proved here once; each component
  interprets the locales on its own handlers.
\<close>

section \<open>At most one open row per owner\<close>

definition one_open :: "('r \<Rightarrow> 'o) \<Rightarrow> ('r \<Rightarrow> bool) \<Rightarrow> 'r list \<Rightarrow> bool" where
  "one_open owner open_row rs \<longleftrightarrow> (\<forall>u. length (filter (\<lambda>r. owner r = u \<and> open_row r) rs) \<le> 1)"

lemma one_open_Nil [simp]: "one_open owner open_row []"
  by (simp add: one_open_def)

lemma length_filter_map_le:
  "(\<And>r. r \<in> set rs \<Longrightarrow> q (g r) \<Longrightarrow> q r) \<Longrightarrow> length (filter q (map g rs)) \<le> length (filter q rs)"
  by (induction rs) (auto simp: le_Suc_eq)

lemma one_open_snoc:
  assumes "one_open owner open_row rs"
    and "\<And>x. x \<in> set rs \<Longrightarrow> owner x = owner r \<Longrightarrow> \<not> open_row x"
  shows "one_open owner open_row (rs @ [r])"
  unfolding one_open_def
proof
  fix u
  have none: "filter (\<lambda>x. owner x = owner r \<and> open_row x) rs = []"
    using assms(2) by (auto simp: filter_empty_conv)
  show "length (filter (\<lambda>x. owner x = u \<and> open_row x) (rs @ [r])) \<le> 1"
    using assms(1) none by (cases "owner r = u") (auto simp: one_open_def)
qed

lemma one_open_eq:
  assumes one: "one_open owner open_row rs"
    and r: "r \<in> set rs" "open_row r" and x: "x \<in> set rs" "open_row x" "owner x = owner r"
  shows "x = r"
proof -
  let ?f = "filter (\<lambda>y. owner y = owner r \<and> open_row y) rs"
  have len: "length ?f \<le> 1" using one by (simp add: one_open_def)
  have mem: "r \<in> set ?f" "x \<in> set ?f" using r x by simp_all
  obtain y where "?f = [y]"
    using len mem by (cases ?f) auto
  with mem show ?thesis by (metis singletonD set_simps(1,2) list.simps(15))
qed

section \<open>Writes that only touch open rows\<close>

text \<open>
  \<open>touches\<close> relates a table before and after a handler that rewrites open rows in place and
  keeps identifiers and owners.  The contracts below follow from it.
\<close>

definition touches ::
  "('r \<Rightarrow> 'k) \<Rightarrow> ('r \<Rightarrow> 'o) \<Rightarrow> ('r \<Rightarrow> bool) \<Rightarrow> 'r list \<Rightarrow> 'r list \<Rightarrow> bool" where
  "touches ident owner open_row rs rs' \<longleftrightarrow>
     (\<exists>p f. rs' = update_where p f rs \<and> (\<forall>r. ident (f r) = ident r \<and> owner (f r) = owner r) \<and>
        (\<forall>r \<in> set rs. p r \<longrightarrow> open_row r))"

lemma touchesI:
  assumes "rs' = update_where p f rs" and "\<And>r. ident (f r) = ident r" and "\<And>r. owner (f r) = owner r"
    and "\<And>r. r \<in> set rs \<Longrightarrow> p r \<Longrightarrow> open_row r"
  shows "touches ident owner open_row rs rs'"
  unfolding touches_def using assms by blast

lemma touchesE:
  assumes "touches ident owner open_row rs rs'"
  obtains p f where "rs' = update_where p f rs" and "\<And>r. ident (f r) = ident r"
    and "\<And>r. owner (f r) = owner r" and "\<And>r. r \<in> set rs \<Longrightarrow> p r \<Longrightarrow> open_row r"
  using assms unfolding touches_def by blast

lemma touches_refl [intro, simp]: "touches ident owner open_row rs rs"
  by (rule touchesI [where p = "\<lambda>_. False" and f = id]) (simp_all add: update_where_def)

lemma touches_write:
  assumes "distinct (map ident rs)" and "s \<in> set rs" and "open_row s"
    and "\<And>r. ident (f r) = ident r" and "\<And>r. owner (f r) = owner r"
  shows "touches ident owner open_row rs (update_where (\<lambda>r. ident r = ident s) f rs)"
proof (rule touchesI [where p = "\<lambda>r. ident r = ident s" and f = f])
  fix r assume "r \<in> set rs" "ident r = ident s"
  then show "open_row r" using assms(1-3) distinct_key_eq by metis
qed (simp_all add: assms)

lemma touches_where:
  assumes "\<And>r. p r \<Longrightarrow> open_row r" and "\<And>r. ident (f r) = ident r" and "\<And>r. owner (f r) = owner r"
  shows "touches ident owner open_row rs (update_where p f rs)"
  using assms by (auto intro: touchesI)

lemma touches_distinct:
  "touches ident owner open_row rs rs' \<Longrightarrow> map ident rs' = map ident rs"
  by (erule touchesE) (simp add: update_where_key)

lemma touches_frozen:
  "touches ident owner open_row rs rs' \<Longrightarrow> r \<in> set rs \<Longrightarrow> \<not> open_row r \<Longrightarrow> r \<in> set rs'"
  by (erule touchesE) auto

lemma touches_one_open:
  assumes "touches ident owner open_row rs rs'" and one: "one_open owner open_row rs"
  shows "one_open owner open_row rs'"
  using assms(1)
proof (cases rule: touchesE)
  case (1 p f)
  show ?thesis
    unfolding one_open_def
  proof
    fix u
    let ?q = "\<lambda>r. owner r = u \<and> open_row r"
    have "length (filter ?q rs') \<le> length (filter ?q rs)"
      unfolding 1(1) update_where_def by (rule length_filter_map_le) (use 1 in \<open>auto split: if_splits\<close>)
    then show "length (filter ?q rs') \<le> 1"
      using one by (auto simp: one_open_def intro: order_trans)
  qed
qed

lemma touches_trans:
  assumes "touches ident owner open_row rs rs1" and "touches ident owner open_row rs1 rs2"
  shows "touches ident owner open_row rs rs2"
proof -
  from assms(1) obtain p f where 1: "rs1 = update_where p f rs" "\<And>r. ident (f r) = ident r"
    "\<And>r. owner (f r) = owner r" "\<And>r. r \<in> set rs \<Longrightarrow> p r \<Longrightarrow> open_row r"
    unfolding touches_def by blast
  from assms(2) obtain q g where 2: "rs2 = update_where q g rs1" "\<And>r. ident (g r) = ident r"
    "\<And>r. owner (g r) = owner r" "\<And>r. r \<in> set rs1 \<Longrightarrow> q r \<Longrightarrow> open_row r"
    unfolding touches_def by blast
  define a where "a = (\<lambda>r. if p r then f r else r)"
  define b where "b = (\<lambda>r. if q r then g r else r)"
  have ab: "ident (b (a r)) = ident r" "owner (b (a r)) = owner r" for r
    using 1(2,3) 2(2,3) by (simp_all add: a_def b_def)
  have "b (a r) = r" if "\<not> (p r \<or> q (a r))" for r
    using that by (auto simp: a_def b_def)
  then have rs2: "rs2 = update_where (\<lambda>r. p r \<or> q (a r)) (\<lambda>r. b (a r)) rs"
    unfolding 2(1) 1(1) update_where_def a_def [symmetric] b_def [symmetric] by simp
  show ?thesis
  proof (rule touchesI [OF rs2])
    show "ident (b (a r)) = ident r" "owner (b (a r)) = owner r" for r by (rule ab)+
    fix r
    assume r: "r \<in> set rs" "p r \<or> q (a r)"
    show "open_row r"
    proof (cases "p r")
      case False
      then have "r \<in> set rs1" using r(1) 1(1) by auto
      then show ?thesis using 2(4) r(2) False by (simp add: a_def)
    qed (use 1(4) r in blast)
  qed
qed

text \<open>
  \<open>moves\<close>: the handler rewrites open rows and may append one new row whose owner then has no
  other open row.  \<open>fresh\<close> is the condition under which the new identifier is unused.
\<close>

definition moves ::
  "bool \<Rightarrow> ('r \<Rightarrow> 'k) \<Rightarrow> ('r \<Rightarrow> 'o) \<Rightarrow> ('r \<Rightarrow> bool) \<Rightarrow> 'r list \<Rightarrow> 'r list \<Rightarrow> bool" where
  "moves fresh ident owner open_row rs rs' \<longleftrightarrow>
     touches ident owner open_row rs rs' \<or>
     (\<exists>mid r. touches ident owner open_row rs mid \<and> rs' = mid @ [r] \<and> (fresh \<longrightarrow> ident r \<notin> ident ` set rs) \<and>
        (one_open owner open_row rs \<longrightarrow> (\<forall>x \<in> set mid. owner x = owner r \<longrightarrow> \<not> open_row x)))"

lemma moves_touch [intro]: "touches ident owner open_row rs rs' \<Longrightarrow> moves fresh ident owner open_row rs rs'"
  by (simp add: moves_def)

lemma movesI:
  assumes "touches ident owner open_row rs mid" and "rs' = mid @ [r]" and "fresh \<Longrightarrow> ident r \<notin> ident ` set rs"
    and "\<And>x. one_open owner open_row rs \<Longrightarrow> x \<in> set mid \<Longrightarrow> owner x = owner r \<Longrightarrow> \<not> open_row x"
  shows "moves fresh ident owner open_row rs rs'"
  unfolding moves_def using assms by blast

lemma moves_frozen: "moves fresh ident owner open_row rs rs' \<Longrightarrow> r \<in> set rs \<Longrightarrow> \<not> open_row r \<Longrightarrow> r \<in> set rs'"
  unfolding moves_def using touches_frozen by fastforce

lemma moves_distinct:
  assumes "moves fresh ident owner open_row rs rs'" and fresh and "distinct (map ident rs)"
  shows "distinct (map ident rs')"
  using assms unfolding moves_def
proof (elim disjE exE conjE)
  fix mid r
  assume t: "touches ident owner open_row rs mid" and rs': "rs' = mid @ [r]"
    and new: "fresh \<longrightarrow> ident r \<notin> ident ` set rs"
  have "map ident mid = map ident rs" using t by (rule touches_distinct)
  moreover from this have "ident ` set mid = ident ` set rs" by (metis list.set_map)
  ultimately show ?thesis using assms(2,3) new by (simp add: rs')
qed (use touches_distinct in metis)

lemma moves_one_open:
  assumes "moves fresh ident owner open_row rs rs'" and "one_open owner open_row rs"
  shows "one_open owner open_row rs'"
  using assms unfolding moves_def by (auto intro: touches_one_open one_open_snoc)

section \<open>Machines whose closed rows are final\<close>

text \<open>
  \<open>step a d\<close> is the state after the handler call \<open>a\<close>; \<open>fresh a d\<close> says that the
  identifiers the database generates in that call are new.
\<close>

locale session_machine =
  fixes rows :: "'db \<Rightarrow> 'r list"
    and ident :: "'r \<Rightarrow> 'k"
    and closed :: "'r \<Rightarrow> bool"
    and step :: "'op \<Rightarrow> 'db \<Rightarrow> 'db"
    and fresh :: "'op \<Rightarrow> 'db \<Rightarrow> bool"
  assumes step_frozen: "distinct (map ident (rows d)) \<Longrightarrow> r \<in> set (rows d) \<Longrightarrow> closed r \<Longrightarrow>
      r \<in> set (rows (step a d))"
    and step_distinct: "fresh a d \<Longrightarrow> distinct (map ident (rows d)) \<Longrightarrow>
      distinct (map ident (rows (step a d)))"
begin

fun run :: "'op list \<Rightarrow> 'db \<Rightarrow> 'db" where
  "run [] d = d"
| "run (a # as) d = run as (step a d)"

fun fresh_run :: "'op list \<Rightarrow> 'db \<Rightarrow> bool" where
  "fresh_run [] d = True"
| "fresh_run (a # as) d = (fresh a d \<and> fresh_run as (step a d))"

lemma run_distinct:
  "fresh_run as d \<Longrightarrow> distinct (map ident (rows d)) \<Longrightarrow> distinct (map ident (rows (run as d)))"
  by (induction as arbitrary: d) (auto dest: step_distinct)

lemma run_frozen:
  "fresh_run as d \<Longrightarrow> distinct (map ident (rows d)) \<Longrightarrow> r \<in> set (rows d) \<Longrightarrow> closed r \<Longrightarrow>
   r \<in> set (rows (run as d))"
  by (induction as arbitrary: d) (auto dest: step_frozen step_distinct)

text \<open>A closed session is found unchanged, and alone under its identifier, after any run.\<close>

lemma closed_final:
  assumes "fresh_run as d" and "distinct (map ident (rows d))"
    and "r \<in> set (rows d)" and "closed r"
    and "x \<in> set (rows (run as d))" and "ident x = ident r"
  shows "x = r"
proof -
  have "r \<in> set (rows (run as d))" using assms(1-4) by (rule run_frozen)
  moreover have "distinct (map ident (rows (run as d)))" using assms(1,2) by (rule run_distinct)
  ultimately show ?thesis using assms(5,6) by (metis distinct_key_eq)
qed

end

locale owned_session_machine = session_machine rows ident closed step fresh
  for rows :: "'db \<Rightarrow> 'r list" and ident :: "'r \<Rightarrow> 'k" and closed :: "'r \<Rightarrow> bool"
    and step :: "'op \<Rightarrow> 'db \<Rightarrow> 'db" and fresh :: "'op \<Rightarrow> 'db \<Rightarrow> bool" +
  fixes owner :: "'r \<Rightarrow> 'o"
  assumes step_one_open: "distinct (map ident (rows d)) \<Longrightarrow> one_open owner (\<lambda>r. \<not> closed r) (rows d) \<Longrightarrow>
      one_open owner (\<lambda>r. \<not> closed r) (rows (step a d))"
begin

lemma run_one_open:
  "fresh_run as d \<Longrightarrow> distinct (map ident (rows d)) \<Longrightarrow> one_open owner (\<lambda>r. \<not> closed r) (rows d) \<Longrightarrow>
   one_open owner (\<lambda>r. \<not> closed r) (rows (run as d))"
  by (induction as arbitrary: d) (auto dest: step_one_open step_distinct)

lemma run_open_unique:
  assumes "fresh_run as d" and "rows d = []" and "r \<in> set (rows (run as d))" and "x \<in> set (rows (run as d))"
    and "\<not> closed r" and "\<not> closed x" and "owner x = owner r"
  shows "x = r"
proof -
  have "one_open owner (\<lambda>r. \<not> closed r) (rows (run as d))"
    by (rule run_one_open [OF assms(1)]) (simp_all add: assms(2))
  then show ?thesis using assms(3-7) by (metis one_open_eq)
qed

end

section \<open>Credentials that are redeemed at most once\<close>

text \<open>
  \<open>redeem t k\<close> is the guarded write that consumes the credential \<open>k\<close> with the request
  data \<open>t\<close> and reports whether it did; \<open>env\<close> is everything else that can happen to the state.  Once spent,
  a credential stays spent until a step \<open>rearms\<close> it.
\<close>

datatype ('a, 'k, 'op) shot = Redeem 'a 'k | Env 'op

locale rearmable_shot =
  fixes redeem :: "'a \<Rightarrow> 'k \<Rightarrow> 'db \<Rightarrow> bool \<times> 'db"
    and env :: "'op \<Rightarrow> 'db \<Rightarrow> 'db"
    and inv :: "'db \<Rightarrow> bool"
    and spent :: "'k \<Rightarrow> 'db \<Rightarrow> bool"
    and rearms :: "'k \<Rightarrow> 'op \<Rightarrow> 'db \<Rightarrow> bool"
  assumes redeem_spends: "inv d \<Longrightarrow> fst (redeem t k d) \<Longrightarrow> spent k (snd (redeem t k d))"
    and spent_refused: "inv d \<Longrightarrow> spent k d \<Longrightarrow> \<not> fst (redeem t k d)"
    and spent_redeem: "inv d \<Longrightarrow> spent k d \<Longrightarrow> spent k (snd (redeem t k' d))"
    and spent_env: "inv d \<Longrightarrow> spent k d \<Longrightarrow> \<not> rearms k e d \<Longrightarrow> spent k (env e d)"
    and inv_redeem: "inv d \<Longrightarrow> inv (snd (redeem t k d))"
    and inv_env: "inv d \<Longrightarrow> inv (env e d)"
begin

fun wins :: "'k \<Rightarrow> ('a, 'k, 'op) shot list \<Rightarrow> 'db \<Rightarrow> nat" where
  "wins k [] d = 0"
| "wins k (Env e # es) d = wins k es (env e d)"
| "wins k (Redeem t k' # es) d =
     (if k' = k \<and> fst (redeem t k' d) then 1 else 0) + wins k es (snd (redeem t k' d))"

fun rearmings :: "'k \<Rightarrow> ('a, 'k, 'op) shot list \<Rightarrow> 'db \<Rightarrow> nat" where
  "rearmings k [] d = 0"
| "rearmings k (Env e # es) d = (if rearms k e d then 1 else 0) + rearmings k es (env e d)"
| "rearmings k (Redeem t k' # es) d = rearmings k es (snd (redeem t k' d))"

lemma wins_bounded: "inv d \<Longrightarrow> wins k es d \<le> (if spent k d then 0 else 1) + rearmings k es d"
proof (induction es arbitrary: d)
  case (Cons e es)
  show ?case
  proof (cases e)
    case (Redeem t k')
    note IH = Cons.IH [OF inv_redeem [OF Cons.prems, of t k']]
    show ?thesis
    proof (cases "k' = k \<and> fst (redeem t k' d)")
      case True
      then have "spent k (snd (redeem t k' d))" and "\<not> spent k d"
        using redeem_spends spent_refused Cons.prems by blast+
      then show ?thesis using IH True Redeem by simp
    next
      case False
      then show ?thesis using IH Redeem spent_redeem [OF Cons.prems, of k t k'] by (auto split: if_splits)
    qed
  next
    case (Env x)
    then show ?thesis
      using Cons.IH [OF inv_env [OF Cons.prems, of x]] spent_env [OF Cons.prems, of k x] by (auto split: if_splits)
  qed
qed simp

lemma once_per_arming: "inv d \<Longrightarrow> wins k es d \<le> 1 + rearmings k es d"
  using wins_bounded [of d k es] by (auto split: if_splits)

end

text \<open>A credential that nothing arms again.\<close>

locale one_shot =
  fixes redeem :: "'a \<Rightarrow> 'k \<Rightarrow> 'db \<Rightarrow> bool \<times> 'db"
    and env :: "'op \<Rightarrow> 'db \<Rightarrow> 'db"
    and inv :: "'db \<Rightarrow> bool"
    and spent :: "'k \<Rightarrow> 'db \<Rightarrow> bool"
  assumes redeem_spends: "inv d \<Longrightarrow> fst (redeem t k d) \<Longrightarrow> spent k (snd (redeem t k d))"
    and spent_refused: "inv d \<Longrightarrow> spent k d \<Longrightarrow> \<not> fst (redeem t k d)"
    and spent_redeem: "inv d \<Longrightarrow> spent k d \<Longrightarrow> spent k (snd (redeem t k' d))"
    and spent_env: "inv d \<Longrightarrow> spent k d \<Longrightarrow> spent k (env e d)"
    and inv_redeem: "inv d \<Longrightarrow> inv (snd (redeem t k d))"
    and inv_env: "inv d \<Longrightarrow> inv (env e d)"

sublocale one_shot \<subseteq> rearm: rearmable_shot redeem env inv spent "\<lambda>_ _ _. False"
  by unfold_locales (simp_all add: redeem_spends spent_refused spent_redeem spent_env inv_redeem inv_env)

context one_shot
begin

fun successes :: "'k \<Rightarrow> ('a, 'k, 'op) shot list \<Rightarrow> 'db \<Rightarrow> nat" where
  "successes k [] d = 0"
| "successes k (Env e # es) d = successes k es (env e d)"
| "successes k (Redeem t k' # es) d =
     (if k' = k \<and> fst (redeem t k' d) then 1 else 0) + successes k es (snd (redeem t k' d))"

lemma successes_wins: "successes k es d = rearm.wins k es d"
  by (induction k es d rule: successes.induct) simp_all

lemma never_rearmed: "rearm.rearmings k es d = 0"
  by (induction k es d rule: successes.induct) simp_all

lemma at_most_once: "inv d \<Longrightarrow> successes k es d \<le> 1"
  using rearm.once_per_arming [of d k es] by (simp add: successes_wins never_rearmed)

end

section \<open>Claims that exclude others for a time\<close>

text \<open>
  \<open>acquire t now k\<close> tries to obtain the claim \<open>k\<close> at time \<open>now\<close> for
  \<open>span t\<close> milliseconds; \<open>held k u\<close> says that the claim lasts beyond the time
  \<open>u\<close>.  A step is \<open>quiet\<close> when it happens by \<open>u\<close> and does not take the claim
  away.
\<close>

locale lease =
  fixes acquire :: "'t \<Rightarrow> millis \<Rightarrow> 'k \<Rightarrow> 'db \<Rightarrow> bool \<times> 'db"
    and span :: "'t \<Rightarrow> int"
    and conflicts :: "'k \<Rightarrow> 'k \<Rightarrow> bool"
    and inv :: "'db \<Rightarrow> bool"
    and held :: "'k \<Rightarrow> millis \<Rightarrow> 'db \<Rightarrow> bool"
    and step :: "'op \<Rightarrow> 'db \<Rightarrow> 'db"
    and quiet :: "'k \<Rightarrow> millis \<Rightarrow> 'op \<Rightarrow> 'db \<Rightarrow> bool"
  assumes acquire_holds: "inv d \<Longrightarrow> fst (acquire t now k d) \<Longrightarrow> u < now + span t \<Longrightarrow> held k u (snd (acquire t now k d))"
    and held_refuses: "held k u d \<Longrightarrow> now \<le> u \<Longrightarrow> conflicts k k' \<Longrightarrow> \<not> fst (acquire t now k' d)"
    and quiet_step: "held k u d \<Longrightarrow> quiet k u e d \<Longrightarrow> held k u (step e d)"
begin

fun lease_run :: "'op list \<Rightarrow> 'db \<Rightarrow> 'db" where
  "lease_run [] d = d"
| "lease_run (e # es) d = lease_run es (step e d)"

fun quiet_run :: "'k \<Rightarrow> millis \<Rightarrow> 'op list \<Rightarrow> 'db \<Rightarrow> bool" where
  "quiet_run k u [] d = True"
| "quiet_run k u (e # es) d = (quiet k u e d \<and> quiet_run k u es (step e d))"

lemma run_held: "held k u d \<Longrightarrow> quiet_run k u es d \<Longrightarrow> held k u (lease_run es d)"
  by (induction es arbitrary: d) (simp_all add: quiet_step)

lemma exclusive:
  assumes "inv d" and "fst (acquire t now k d)" and "u < now + span t"
    and "quiet_run k u es (snd (acquire t now k d))" and "now' \<le> u" and "conflicts k k'"
  shows "\<not> fst (acquire t' now' k' (lease_run es (snd (acquire t now k d))))"
  using assms acquire_holds run_held held_refuses by blast

end

end
