(* ===== verification/Phone_Verification.thy ===== *)
theory Phone_Verification
  imports Phone Accounts Regex Contracts
begin

text \<open>
  \<^verbatim>\<open>src/src/services/phoneVerificationService.ts\<close>: a user asks to verify a phone,
  opens a deep link in Telegram or MAX, the bot binds the messenger account to the session and
  the shared contact verifies the phone.

  The state is the user table and the session table.  A handler takes the clock reading
  \<open>now\<close>, the values the runtime generates (row identifier, random token) and the state,
  and returns its result with the new state; \<open>hash\<close> is the SHA-256 digest.
\<close>

section \<open>Data\<close>

record phone_session =
  ps_id :: string
  ps_userId :: user_id
  ps_requestedPhone :: int
  ps_status :: session_status
  ps_provider :: messenger
  ps_tokenHash :: string
  ps_telegramUserId :: "int option"
  ps_chatId :: "int option"
  ps_maxUserId :: "int option"
  ps_maxChatId :: "int option"
  ps_expiresAt :: millis
  ps_verifiedAt :: "millis option"
  ps_failureReason :: "string option"
  ps_createdAt :: millis
  ps_updatedAt :: millis

record phone_db =
  pd_users :: "user list"
  pd_sessions :: "phone_session list"

datatype phone_error =
    TELEGRAM_PHONE_VERIFICATION_NOT_CONFIGURED
  | MAX_PHONE_VERIFICATION_NOT_CONFIGURED
  | PHONE_FORMAT_INVALID
  | PHONE_USED_BY_ANOTHER_USER
  | DEEP_LINK_UNAVAILABLE messenger

record phone_started =
  st_sessionId :: string
  st_deepLinkUrl :: string
  st_qrPayload :: string
  st_expiresAt :: millis
  st_pollIntervalSec :: int
  st_requestedPhone :: "string option"
  st_provider :: messenger

record phone_state =
  sv_id :: string
  sv_status :: session_status
  sv_requestedPhone :: "string option"
  sv_expiresAt :: millis
  sv_verifiedAt :: "millis option"
  sv_failureReason :: "string option"
  sv_provider :: messenger
  sv_createdAt :: millis
  sv_updatedAt :: millis

text \<open>The columns both bind handlers return.\<close>

record phone_bound =
  bd_id :: string
  bd_status :: session_status
  bd_expiresAt :: millis
  bd_requestedPhone :: int

datatype contact_result =
    Refused string
  | Verified user_id

section \<open>Configuration and deep links\<close>

definition PHONE_VERIFICATION_TTL_MS :: millis where
  "PHONE_VERIFICATION_TTL_MS = 10 * 60 * 1000"

definition PHONE_VERIFICATION_POLL_INTERVAL_SEC :: int where
  "PHONE_VERIFICATION_POLL_INTERVAL_SEC = 3"

definition getTelegramBotUsername :: "bot_env \<Rightarrow> string" where
  "getTelegramBotUsername env = js_trim (or_empty (TELEGRAM_BOT_USERNAME env))"

definition getMaxBotUsername :: "bot_env \<Rightarrow> string" where
  "getMaxBotUsername env = js_trim (or_empty (MAX_BOT_USERNAME env))"

definition ensurePhoneVerificationConfigured :: "bot_env \<Rightarrow> messenger \<Rightarrow> phone_error option" where
  "ensurePhoneVerificationConfigured env provider =
     (if provider = TELEGRAM
      then (if \<not> isTelegramBotConfigured env \<or> getTelegramBotUsername env = []
            then Some TELEGRAM_PHONE_VERIFICATION_NOT_CONFIGURED else None)
      else (if \<not> isMaxBotConfigured env \<or> getMaxBotUsername env = []
            then Some MAX_PHONE_VERIFICATION_NOT_CONFIGURED else None))"

definition buildDeepLink :: "bot_env \<Rightarrow> messenger \<Rightarrow> string \<Rightarrow> phone_error + string" where
  "buildDeepLink env provider token =
     (if provider = TELEGRAM
      then (if getTelegramBotUsername env = [] then Inl TELEGRAM_PHONE_VERIFICATION_NOT_CONFIGURED
            else Inr (''https://t.me/'' @ getTelegramBotUsername env @ ''?start=verify_phone_'' @ token))
      else (if getMaxBotUsername env = [] then Inl MAX_PHONE_VERIFICATION_NOT_CONFIGURED
            else Inr (''https://max.ru/'' @ getMaxBotUsername env @ ''?start=verify_phone_'' @ token)))"

text \<open>\<^verbatim>\<open>/[?&]start=verify_phone_[A-Za-z0-9_-]+/\<close>\<close>

definition START_RE :: re where
  "START_RE =
     Anywhere (Sq (Cls (\<lambda>c. c = CHR ''?'' \<or> c = CHR ''&''))
                  (Sq (Lit ''start=verify_phone_'') (Plus (Cls token_char))))"

definition isValidPhoneVerificationDeepLink :: "string \<Rightarrow> messenger \<Rightarrow> bool" where
  "isValidPhoneVerificationDeepLink url provider =
     (if url = [] then False
      else if provider = TELEGRAM
      then (if \<not> starts_with ''https://t.me/'' url then False else re_test START_RE url)
      else (if \<not> starts_with ''https://max.ru/'' url then False else re_test START_RE url))"

section \<open>Handlers\<close>

text \<open>The write that closes a session with a reason.\<close>

definition close_phone :: "millis \<Rightarrow> session_status \<Rightarrow> string \<Rightarrow> phone_session \<Rightarrow> phone_session" where
  "close_phone now st reason s = s\<lparr>ps_status := st, ps_failureReason := Some reason, ps_updatedAt := now\<rparr>"

definition write_session :: "string \<Rightarrow> (phone_session \<Rightarrow> phone_session) \<Rightarrow> phone_db \<Rightarrow> phone_db" where
  "write_session i f db = db\<lparr>pd_sessions := update_where (\<lambda>s. ps_id s = i) f (pd_sessions db)\<rparr>"

definition write_user :: "user_id \<Rightarrow> (user \<Rightarrow> user) \<Rightarrow> phone_db \<Rightarrow> phone_db" where
  "write_user i f db = db\<lparr>pd_users := update_where (\<lambda>u. u_id u = i) f (pd_users db)\<rparr>"

definition startPhoneVerificationSession ::
  "bot_env \<Rightarrow> (string \<Rightarrow> string) \<Rightarrow> string \<Rightarrow> string \<Rightarrow> millis \<Rightarrow> user_id \<Rightarrow> string \<Rightarrow> messenger option \<Rightarrow>
   phone_db \<Rightarrow> (phone_error + phone_started) \<times> phone_db" where
  "startPhoneVerificationSession env hash newId rawToken now userId phoneRaw p db =
     (let provider = (case p of None \<Rightarrow> TELEGRAM | Some q \<Rightarrow> q) in
      case ensurePhoneVerificationConfigured env provider of
        Some e \<Rightarrow> (Inl e, db)
      | None \<Rightarrow>
      (case normalizePhoneToDigits11 (Some phoneRaw) of
         None \<Rightarrow> (Inl PHONE_FORMAT_INVALID, db)
       | Some digits \<Rightarrow>
       let phone = normalizePhoneToBigInt (Some digits) in
       if \<not> truthy_int phone then (Inl PHONE_FORMAT_INVALID, db)
       else if List.find (\<lambda>u. u_phone u = phone \<and> u_id u \<noteq> userId) (pd_users db) \<noteq> None
       then (Inl PHONE_USED_BY_ANOTHER_USER, db)
       else
         let cancelled = update_where (\<lambda>s. ps_userId s = userId \<and> ps_status s = PENDING)
               (close_phone now CANCELLED ''REPLACED_BY_NEW_REQUEST'') (pd_sessions db);
             created = \<lparr>ps_id = newId, ps_userId = userId, ps_requestedPhone = the phone,
               ps_status = PENDING, ps_provider = provider, ps_tokenHash = hash rawToken,
               ps_telegramUserId = None, ps_chatId = None, ps_maxUserId = None, ps_maxChatId = None,
               ps_expiresAt = now + PHONE_VERIFICATION_TTL_MS, ps_verifiedAt = None,
               ps_failureReason = None, ps_createdAt = now, ps_updatedAt = now\<rparr>;
             db' = db\<lparr>pd_sessions := cancelled @ [created]\<rparr>
         in case buildDeepLink env provider rawToken of
              Inl e \<Rightarrow> (Inl e, db')
            | Inr url \<Rightarrow>
                if \<not> isValidPhoneVerificationDeepLink url provider
                then (Inl (DEEP_LINK_UNAVAILABLE provider), db')
                else (Inr \<lparr>st_sessionId = ps_id created, st_deepLinkUrl = url, st_qrPayload = url,
                        st_expiresAt = ps_expiresAt created,
                        st_pollIntervalSec = PHONE_VERIFICATION_POLL_INTERVAL_SEC,
                        st_requestedPhone = toApiPhoneString (Some (ps_requestedPhone created)),
                        st_provider = ps_provider created\<rparr>, db')))"

definition phone_view :: "phone_session \<Rightarrow> phone_state" where
  "phone_view s = \<lparr>sv_id = ps_id s, sv_status = ps_status s,
     sv_requestedPhone = toApiPhoneString (Some (ps_requestedPhone s)),
     sv_expiresAt = ps_expiresAt s, sv_verifiedAt = ps_verifiedAt s,
     sv_failureReason = ps_failureReason s, sv_provider = ps_provider s,
     sv_createdAt = ps_createdAt s, sv_updatedAt = ps_updatedAt s\<rparr>"

definition getPhoneVerificationSessionState ::
  "millis \<Rightarrow> user_id \<Rightarrow> string \<Rightarrow> phone_db \<Rightarrow> phone_state option \<times> phone_db" where
  "getPhoneVerificationSessionState now userId sessionId db =
     (case List.find (\<lambda>s. ps_id s = sessionId \<and> ps_userId s = userId) (pd_sessions db) of
        None \<Rightarrow> (None, db)
      | Some s \<Rightarrow>
          if ps_status s = PENDING \<and> ps_expiresAt s \<le> now
          then (Some (phone_view (close_phone now EXPIRED ''SESSION_EXPIRED'' s)),
                write_session (ps_id s) (close_phone now EXPIRED ''SESSION_EXPIRED'') db)
          else (Some (phone_view s), db))"

definition cancelPhoneVerificationSession ::
  "millis \<Rightarrow> user_id \<Rightarrow> string \<Rightarrow> phone_db \<Rightarrow> bool \<times> phone_db" where
  "cancelPhoneVerificationSession now userId sessionId db =
     (let hit = (\<lambda>s. ps_id s = sessionId \<and> ps_userId s = userId \<and> ps_status s = PENDING) in
      (0 < count_where hit (pd_sessions db),
       db\<lparr>pd_sessions := update_where hit (close_phone now CANCELLED ''CANCELLED_BY_USER'') (pd_sessions db)\<rparr>))"

definition bound_view :: "phone_session \<Rightarrow> phone_bound" where
  "bound_view s = \<lparr>bd_id = ps_id s, bd_status = ps_status s, bd_expiresAt = ps_expiresAt s,
     bd_requestedPhone = ps_requestedPhone s\<rparr>"

definition bindTelegramToPhoneVerificationByStartToken ::
  "(string \<Rightarrow> string) \<Rightarrow> millis \<Rightarrow> string \<Rightarrow> string \<Rightarrow> string option \<Rightarrow> phone_db \<Rightarrow>
   phone_bound option \<times> phone_db" where
  "bindTelegramToPhoneVerificationByStartToken hash now token0 telegramUserId chatId db =
     (let token = js_trim token0 in
      if token = [] then (None, db)
      else
        let tgId = parseBigInt (Some telegramUserId); chat = parseBigInt chatId in
        if \<not> truthy_int tgId then (None, db)
        else
          case List.find (\<lambda>s. ps_tokenHash s = hash token) (pd_sessions db) of
            None \<Rightarrow> (None, db)
          | Some s \<Rightarrow>
              if ps_provider s \<noteq> TELEGRAM then (None, db)
              else if ps_status s \<noteq> PENDING then (Some (bound_view s), db)
              else
                let f = (if ps_expiresAt s \<le> now then close_phone now EXPIRED ''SESSION_EXPIRED''
                         else (\<lambda>r. r\<lparr>ps_telegramUserId := tgId, ps_chatId := chat, ps_updatedAt := now\<rparr>))
                in (Some (bound_view (f s)), write_session (ps_id s) f db))"

definition bindMaxToPhoneVerificationByStartToken ::
  "(string \<Rightarrow> string) \<Rightarrow> millis \<Rightarrow> string \<Rightarrow> string \<Rightarrow> string option \<Rightarrow> phone_db \<Rightarrow>
   phone_bound option \<times> phone_db" where
  "bindMaxToPhoneVerificationByStartToken hash now token0 maxUserId chatId db =
     (let token = js_trim token0 in
      if token = [] then (None, db)
      else
        let mxId = parseBigInt (Some maxUserId); chat = parseBigInt chatId in
        if \<not> truthy_int mxId then (None, db)
        else
          case List.find (\<lambda>s. ps_tokenHash s = hash token) (pd_sessions db) of
            None \<Rightarrow> (None, db)
          | Some s \<Rightarrow>
              if ps_provider s \<noteq> MAX_BOT then (None, db)
              else if ps_status s \<noteq> PENDING then (Some (bound_view s), db)
              else
                let f = (if ps_expiresAt s \<le> now then close_phone now EXPIRED ''SESSION_EXPIRED''
                         else (\<lambda>r. r\<lparr>ps_maxUserId := mxId, ps_maxChatId := chat, ps_updatedAt := now\<rparr>))
                in (Some (bound_view (f s)), write_session (ps_id s) f db))"

text \<open>The write that marks a session verified.\<close>

definition verify_session :: "millis \<Rightarrow> phone_session \<Rightarrow> phone_session" where
  "verify_session now s =
     s\<lparr>ps_status := VERIFIED, ps_verifiedAt := Some now, ps_failureReason := None, ps_updatedAt := now\<rparr>"

definition link_telegram :: "millis \<Rightarrow> int \<Rightarrow> int \<Rightarrow> string option \<Rightarrow> user \<Rightarrow> user" where
  "link_telegram now phone tgId username u =
     u\<lparr>u_phone := Some phone, u_phoneVerifiedAt := Some now, u_telegramId := Some tgId,
       u_telegramUsername := js_or username (u_telegramUsername u),
       u_telegramLinkedAt :=
         (if \<not> truthy_int (u_telegramId u) \<or> u_telegramId u \<noteq> Some tgId then Some now
          else nullish (u_telegramLinkedAt u) (Some now)),
       u_authProvider := resolveAuthProvider (hasCredentials u) (truthy_int (Some tgId)) (truthy_int (u_maxId u))\<rparr>"

definition unlink_telegram :: "user \<Rightarrow> user" where
  "unlink_telegram u =
     u\<lparr>u_telegramId := None, u_telegramUsername := None, u_telegramLinkedAt := None,
       u_authProvider := resolveAuthProvider (hasCredentials u) False (truthy_int (u_maxId u))\<rparr>"

definition verifyPhoneByTelegramContact ::
  "millis \<Rightarrow> string \<Rightarrow> string \<Rightarrow> string option \<Rightarrow> phone_db \<Rightarrow> contact_result \<times> phone_db" where
  "verifyPhoneByTelegramContact now telegramUserId phoneRaw username db =
     (let tg = parseBigInt (Some telegramUserId) in
      if \<not> truthy_int tg then (Refused ''INVALID_TELEGRAM_USER_ID'', db)
      else case normalizePhoneToDigits11 (Some phoneRaw) of
        None \<Rightarrow> (Refused ''INVALID_PHONE'', db)
      | Some digits \<Rightarrow>
      let phone = normalizePhoneToBigInt (Some digits) in
      if \<not> truthy_int phone then (Refused ''INVALID_PHONE'', db)
      else case find_latest ps_createdAt
                  (\<lambda>s. ps_provider s = TELEGRAM \<and> ps_telegramUserId s = tg \<and> ps_status s = PENDING)
                  (pd_sessions db) of
        None \<Rightarrow> (Refused ''SESSION_NOT_FOUND'', db)
      | Some s \<Rightarrow>
      let refuse = (\<lambda>st reason. (Refused reason, write_session (ps_id s) (close_phone now st reason) db)) in
      if ps_expiresAt s \<le> now then refuse EXPIRED ''SESSION_EXPIRED''
      else if toApiPhoneString (Some (ps_requestedPhone s)) \<noteq> Some digits then refuse FAILED ''PHONE_MISMATCH''
      else case List.find (\<lambda>u. u_id u = ps_userId s) (pd_users db) of
        None \<Rightarrow> refuse FAILED ''USER_NOT_FOUND''
      | Some u \<Rightarrow>
      if List.find (\<lambda>x. u_phone x = phone \<and> u_id x \<noteq> u_id u) (pd_users db) \<noteq> None
      then refuse FAILED ''PHONE_ALREADY_USED''
      else
        let db1 = (case List.find (\<lambda>x. u_telegramId x = tg \<and> u_id x \<noteq> u_id u) (pd_users db) of
                     None \<Rightarrow> db
                   | Some x \<Rightarrow> write_user (u_id x) unlink_telegram db);
            db2 = write_user (u_id u) (link_telegram now (the phone) (the tg) username) db1;
            db3 = write_session (ps_id s) (verify_session now) db2
        in (Verified (u_id u), db3))"

definition link_max :: "millis \<Rightarrow> int \<Rightarrow> int \<Rightarrow> string option \<Rightarrow> user \<Rightarrow> user" where
  "link_max now phone mxId username u =
     u\<lparr>u_phone := Some phone, u_phoneVerifiedAt := Some now, u_maxId := Some mxId,
       u_maxUsername := js_or username (u_maxUsername u),
       u_maxLinkedAt :=
         (if \<not> truthy_int (u_maxId u) \<or> u_maxId u \<noteq> Some mxId then Some now
          else nullish (u_maxLinkedAt u) (Some now)),
       u_authProvider := resolveAuthProvider (hasCredentials u) (truthy_int (u_telegramId u)) (truthy_int (Some mxId))\<rparr>"

definition verifyPhoneByMaxContact ::
  "millis \<Rightarrow> string \<Rightarrow> string \<Rightarrow> string option \<Rightarrow> phone_db \<Rightarrow> contact_result \<times> phone_db" where
  "verifyPhoneByMaxContact now maxUserId phoneRaw username db =
     (let mx = parseBigInt (Some maxUserId) in
      if \<not> truthy_int mx then (Refused ''INVALID_MAX_USER_ID'', db)
      else case normalizePhoneToDigits11 (Some phoneRaw) of
        None \<Rightarrow> (Refused ''INVALID_PHONE'', db)
      | Some digits \<Rightarrow>
      let phone = normalizePhoneToBigInt (Some digits) in
      if \<not> truthy_int phone then (Refused ''INVALID_PHONE'', db)
      else case find_latest ps_createdAt
                  (\<lambda>s. ps_provider s = MAX_BOT \<and> ps_maxUserId s = mx \<and> ps_status s = PENDING)
                  (pd_sessions db) of
        None \<Rightarrow> (Refused ''SESSION_NOT_FOUND'', db)
      | Some s \<Rightarrow>
      let refuse = (\<lambda>st reason. (Refused reason, write_session (ps_id s) (close_phone now st reason) db)) in
      if ps_expiresAt s \<le> now then refuse EXPIRED ''SESSION_EXPIRED''
      else if toApiPhoneString (Some (ps_requestedPhone s)) \<noteq> Some digits then refuse FAILED ''PHONE_MISMATCH''
      else case List.find (\<lambda>u. u_id u = ps_userId s) (pd_users db) of
        None \<Rightarrow> refuse FAILED ''USER_NOT_FOUND''
      | Some u \<Rightarrow>
      if List.find (\<lambda>x. u_phone x = phone \<and> u_id x \<noteq> u_id u) (pd_users db) \<noteq> None
      then refuse FAILED ''PHONE_ALREADY_USED''
      else if List.find (\<lambda>x. u_maxId x = mx \<and> u_id x \<noteq> u_id u) (pd_users db) \<noteq> None
      then refuse FAILED ''MAX_ALREADY_USED''
      else (Verified (u_id u),
            write_session (ps_id s) (verify_session now)
              (write_user (u_id u) (link_max now (the phone) (the mx) username) db)))"

section \<open>The service as a machine\<close>

datatype phone_op =
    Start string string millis user_id string "messenger option"
  | State millis user_id string
  | Cancel millis user_id string
  | BindTelegram millis string string "string option"
  | VerifyTelegram millis string string "string option"
  | BindMax millis string string "string option"
  | VerifyMax millis string string "string option"

fun phone_step :: "bot_env \<Rightarrow> (string \<Rightarrow> string) \<Rightarrow> phone_op \<Rightarrow> phone_db \<Rightarrow> phone_db" where
  "phone_step env h (Start i tok now u ph p) db = snd (startPhoneVerificationSession env h i tok now u ph p db)"
| "phone_step env h (State now u i) db = snd (getPhoneVerificationSessionState now u i db)"
| "phone_step env h (Cancel now u i) db = snd (cancelPhoneVerificationSession now u i db)"
| "phone_step env h (BindTelegram now t m c) db = snd (bindTelegramToPhoneVerificationByStartToken h now t m c db)"
| "phone_step env h (VerifyTelegram now m ph n) db = snd (verifyPhoneByTelegramContact now m ph n db)"
| "phone_step env h (BindMax now t m c) db = snd (bindMaxToPhoneVerificationByStartToken h now t m c db)"
| "phone_step env h (VerifyMax now m ph n) db = snd (verifyPhoneByMaxContact now m ph n db)"

fun phone_fresh :: "phone_op \<Rightarrow> phone_db \<Rightarrow> bool" where
  "phone_fresh (Start i tok now u ph p) db = (i \<notin> ps_id ` set (pd_sessions db))"
| "phone_fresh _ db = True"

section \<open>Sessions\<close>

abbreviation phone_open :: "phone_session \<Rightarrow> bool" where
  "phone_open s \<equiv> ps_status s = PENDING"

abbreviation phone_closed :: "phone_session \<Rightarrow> bool" where
  "phone_closed s \<equiv> ps_status s \<noteq> PENDING"

abbreviation phone_touches :: "phone_db \<Rightarrow> phone_db \<Rightarrow> bool" where
  "phone_touches db db' \<equiv> touches ps_id ps_userId phone_open (pd_sessions db) (pd_sessions db')"

lemma close_phone_fields [simp]:
  "ps_id (close_phone now st why s) = ps_id s"
  "ps_userId (close_phone now st why s) = ps_userId s"
  "ps_status (close_phone now st why s) = st"
  by (simp_all add: close_phone_def)

lemma verify_session_fields [simp]:
  "ps_id (verify_session now s) = ps_id s"
  "ps_userId (verify_session now s) = ps_userId s"
  "ps_status (verify_session now s) = VERIFIED"
  by (simp_all add: verify_session_def)

lemma write_tables [simp]:
  "pd_sessions (write_session i f db) = update_where (\<lambda>s. ps_id s = i) f (pd_sessions db)"
  "pd_users (write_session i f db) = pd_users db"
  "pd_users (write_user k g db) = update_where (\<lambda>u. u_id u = k) g (pd_users db)"
  "pd_sessions (write_user k g db) = pd_sessions db"
  by (simp_all add: write_session_def write_user_def)

lemma state_touches:
  "distinct (map ps_id (pd_sessions db)) \<Longrightarrow> phone_touches db (snd (getPhoneVerificationSessionState now u i db))"
  by (auto simp: getPhoneVerificationSessionState_def split: option.splits
      dest!: find_SomeD intro!: touches_write)

lemma cancel_touches:
  "distinct (map ps_id (pd_sessions db)) \<Longrightarrow> phone_touches db (snd (cancelPhoneVerificationSession now u i db))"
  by (auto simp: cancelPhoneVerificationSession_def Let_def intro!: touches_where)

lemma bindTelegram_touches:
  "distinct (map ps_id (pd_sessions db)) \<Longrightarrow> phone_touches db (snd (bindTelegramToPhoneVerificationByStartToken h now t m c db))"
  by (auto simp: bindTelegramToPhoneVerificationByStartToken_def Let_def split: option.splits
      dest!: find_SomeD intro!: touches_write)

lemma bindMax_touches:
  "distinct (map ps_id (pd_sessions db)) \<Longrightarrow> phone_touches db (snd (bindMaxToPhoneVerificationByStartToken h now t m c db))"
  by (auto simp: bindMaxToPhoneVerificationByStartToken_def Let_def split: option.splits
      dest!: find_SomeD intro!: touches_write)

lemma verifyTelegram_touches:
  "distinct (map ps_id (pd_sessions db)) \<Longrightarrow> phone_touches db (snd (verifyPhoneByTelegramContact now m ph n db))"
  by (auto simp: verifyPhoneByTelegramContact_def Let_def split: option.splits
      dest!: find_latest_SomeD intro!: touches_write)

lemma verifyMax_touches:
  "distinct (map ps_id (pd_sessions db)) \<Longrightarrow> phone_touches db (snd (verifyPhoneByMaxContact now m ph n db))"
  by (auto simp: verifyPhoneByMaxContact_def Let_def split: option.splits
      dest!: find_latest_SomeD intro!: touches_write)

text \<open>A start request either leaves the table alone or closes the user's open rows and adds one.\<close>

lemma start_sessions:
  obtains (same) "pd_sessions (snd (startPhoneVerificationSession env h i tok now u ph p db)) = pd_sessions db"
  | (created) r where
      "pd_sessions (snd (startPhoneVerificationSession env h i tok now u ph p db)) =
         update_where (\<lambda>s. ps_userId s = u \<and> phone_open s)
           (close_phone now CANCELLED ''REPLACED_BY_NEW_REQUEST'') (pd_sessions db) @ [r]"
      "ps_id r = i" "ps_userId r = u" "phone_open r"
proof -
  let ?t = "pd_sessions (snd (startPhoneVerificationSession env h i tok now u ph p db))"
  have "?t = pd_sessions db \<or> (\<exists>r. ?t = update_where (\<lambda>s. ps_userId s = u \<and> phone_open s)
           (close_phone now CANCELLED ''REPLACED_BY_NEW_REQUEST'') (pd_sessions db) @ [r] \<and>
         ps_id r = i \<and> ps_userId r = u \<and> phone_open r)"
    by (auto simp: startPhoneVerificationSession_def Let_def split: option.splits sum.splits)
  then show thesis using that by blast
qed

lemma replaced_touches:
  "touches ps_id ps_userId phone_open rs
     (update_where (\<lambda>s. ps_userId s = u \<and> phone_open s) (close_phone now CANCELLED why) rs)"
  by (rule touches_where) auto

lemma start_one_open:
  assumes "one_open ps_userId phone_open (pd_sessions db)"
  shows "one_open ps_userId phone_open (pd_sessions (snd (startPhoneVerificationSession env h i tok now u ph p db)))"
proof (cases rule: start_sessions [of env h i tok now u ph p db])
  case same
  then show ?thesis using assms by simp
next
  case (created r)
  let ?rs = "update_where (\<lambda>s. ps_userId s = u \<and> phone_open s)
    (close_phone now CANCELLED ''REPLACED_BY_NEW_REQUEST'') (pd_sessions db)"
  have "one_open ps_userId phone_open ?rs"
    using replaced_touches assms by (rule touches_one_open)
  moreover have "\<not> phone_open x" if "x \<in> set ?rs" "ps_userId x = ps_userId r" for x
    using that created(3) by (cases rule: update_whereE) auto
  ultimately show ?thesis
    unfolding created(1) by (rule one_open_snoc)
qed

lemma start_frozen:
  assumes "distinct (map ps_id (pd_sessions db))" and "r \<in> set (pd_sessions db)" and "phone_closed r"
  shows "r \<in> set (pd_sessions (snd (startPhoneVerificationSession env h i tok now u ph p db)))"
proof (cases rule: start_sessions [of env h i tok now u ph p db])
  case same
  then show ?thesis using assms by simp
next
  case created
  then show ?thesis using touches_frozen [OF replaced_touches assms(2,3)] by simp
qed

lemma start_distinct:
  assumes "i \<notin> ps_id ` set (pd_sessions db)" and "distinct (map ps_id (pd_sessions db))"
  shows "distinct (map ps_id (pd_sessions (snd (startPhoneVerificationSession env h i tok now u ph p db))))"
proof (cases rule: start_sessions [of env h i tok now u ph p db])
  case same
  then show ?thesis using assms by simp
next
  case (created r)
  have "map ps_id (update_where (\<lambda>s. ps_userId s = u \<and> phone_open s)
      (close_phone now CANCELLED ''REPLACED_BY_NEW_REQUEST'') (pd_sessions db)) = map ps_id (pd_sessions db)"
    by (rule update_where_key) simp
  then show ?thesis using assms created by (simp add: image_set [symmetric] del: image_set)
qed

fun is_start :: "phone_op \<Rightarrow> bool" where
  "is_start (Start i tok now u ph p) = True"
| "is_start _ = False"

lemma phone_step_touches:
  "distinct (map ps_id (pd_sessions db)) \<Longrightarrow> \<not> is_start a \<Longrightarrow> phone_touches db (phone_step env h a db)"
  by (cases a) (simp_all add: state_touches cancel_touches bindTelegram_touches bindMax_touches
      verifyTelegram_touches verifyMax_touches)

interpretation pv: owned_session_machine pd_sessions ps_id phone_closed "phone_step env h" phone_fresh ps_userId
  for env h
proof unfold_locales
  fix r :: phone_session and d :: phone_db and a
  assume "distinct (map ps_id (pd_sessions d))" "r \<in> set (pd_sessions d)" "phone_closed r"
  then show "r \<in> set (pd_sessions (phone_step env h a d))"
    using touches_frozen [OF phone_step_touches [of d a env h]] by (cases a) (auto simp: start_frozen)
next
  fix d :: phone_db and a
  assume "phone_fresh a d" "distinct (map ps_id (pd_sessions d))"
  then show "distinct (map ps_id (pd_sessions (phone_step env h a d)))"
    using touches_distinct [OF phone_step_touches [of d a env h]] by (cases a) (auto simp: start_distinct)
next
  fix d :: phone_db and a
  assume "distinct (map ps_id (pd_sessions d))" "one_open ps_userId (\<lambda>r. \<not> phone_closed r) (pd_sessions d)"
  then show "one_open ps_userId (\<lambda>r. \<not> phone_closed r) (pd_sessions (phone_step env h a d))"
    using touches_one_open [OF phone_step_touches [of d a env h]] by (cases a) (auto simp: start_one_open)
qed

section \<open>Users\<close>

lemma link_telegram_fields [simp]:
  "u_id (link_telegram now ph tg n u) = u_id u"
  "u_phone (link_telegram now ph tg n u) = Some ph"
  "u_telegramId (link_telegram now ph tg n u) = Some tg"
  "u_maxId (link_telegram now ph tg n u) = u_maxId u"
  by (simp_all add: link_telegram_def)

lemma unlink_telegram_fields [simp]:
  "u_id (unlink_telegram u) = u_id u"
  "u_phone (unlink_telegram u) = u_phone u"
  "u_telegramId (unlink_telegram u) = None"
  "u_maxId (unlink_telegram u) = u_maxId u"
  by (simp_all add: unlink_telegram_def)

lemma link_max_fields [simp]:
  "u_id (link_max now ph mx n u) = u_id u"
  "u_phone (link_max now ph mx n u) = Some ph"
  "u_telegramId (link_max now ph mx n u) = u_telegramId u"
  "u_maxId (link_max now ph mx n u) = Some mx"
  by (simp_all add: link_max_def)

lemma users_wf_link_telegram:
  assumes "users_wf us" and "\<And>x. x \<in> set us \<Longrightarrow> u_phone x = Some ph \<Longrightarrow> u_id x = k"
    and "\<And>x. x \<in> set us \<Longrightarrow> u_telegramId x = Some tg \<Longrightarrow> u_id x = k"
  shows "users_wf (update_where (\<lambda>u. u_id u = k) (link_telegram now ph tg n) us)"
  using assms unfolding users_wf_def
  by (auto simp: update_where_key intro: unique_col_set unique_col_update)

lemma users_wf_unlink_telegram:
  "users_wf us \<Longrightarrow> users_wf (update_where p unlink_telegram us)"
  unfolding users_wf_def by (auto simp: update_where_key intro: unique_col_update)

lemma users_wf_link_max:
  assumes "users_wf us" and "\<And>x. x \<in> set us \<Longrightarrow> u_phone x = Some ph \<Longrightarrow> u_id x = k"
    and "\<And>x. x \<in> set us \<Longrightarrow> u_maxId x = Some mx \<Longrightarrow> u_id x = k"
  shows "users_wf (update_where (\<lambda>u. u_id u = k) (link_max now ph mx n) us)"
  using assms unfolding users_wf_def
  by (auto simp: update_where_key intro: unique_col_set unique_col_update)

text \<open>The user table the Telegram handler reaches before it links the account.\<close>

definition release_telegram :: "user_id \<Rightarrow> int \<Rightarrow> phone_db \<Rightarrow> phone_db" where
  "release_telegram k tg db =
     (case List.find (\<lambda>x. u_telegramId x = Some tg \<and> u_id x \<noteq> k) (pd_users db) of
        None \<Rightarrow> db | Some x \<Rightarrow> write_user (u_id x) unlink_telegram db)"

lemma release_telegram_spec:
  assumes wf: "users_wf (pd_users db)"
  shows "users_wf (pd_users (release_telegram k tg db))"
    and "x \<in> set (pd_users (release_telegram k tg db)) \<Longrightarrow> u_telegramId x = Some tg \<Longrightarrow> u_id x = k"
    and "x \<in> set (pd_users (release_telegram k tg db)) \<Longrightarrow>
           \<exists>y \<in> set (pd_users db). u_id y = u_id x \<and> u_phone y = u_phone x"
    and "y \<in> set (pd_users db) \<Longrightarrow> u_id y = k \<Longrightarrow> y \<in> set (pd_users (release_telegram k tg db))"
    and "pd_sessions (release_telegram k tg db) = pd_sessions db"
proof -
  show "users_wf (pd_users (release_telegram k tg db))"
    using wf by (auto simp: release_telegram_def users_wf_unlink_telegram split: option.splits)
  show "u_id x = k" if "x \<in> set (pd_users (release_telegram k tg db))" "u_telegramId x = Some tg"
  proof (cases "List.find (\<lambda>x. u_telegramId x = Some tg \<and> u_id x \<noteq> k) (pd_users db)")
    case None
    with that show ?thesis by (auto simp: release_telegram_def dest: find_NoneD)
  next
    case (Some z)
    then have z: "z \<in> set (pd_users db)" "u_telegramId z = Some tg" "u_id z \<noteq> k"
      by (auto dest: find_SomeD)
    have uq: "unique_col u_telegramId u_id (pd_users db)"
      using wf by (simp add: users_wf_def)
    from that(1) have "x \<in> set (update_where (\<lambda>u. u_id u = u_id z) unlink_telegram (pd_users db))"
      using Some by (simp add: release_telegram_def)
    then show ?thesis
    proof (cases rule: update_whereE)
      case kept
      then show ?thesis using unique_colD [OF uq kept(1) z(1) that(2) z(2)] by simp
    next
      case (hit r0)
      then show ?thesis using that(2) by simp
    qed
  qed
  show "\<exists>y \<in> set (pd_users db). u_id y = u_id x \<and> u_phone y = u_phone x"
    if "x \<in> set (pd_users (release_telegram k tg db))"
    using that by (auto simp: release_telegram_def table_simps split: option.splits if_splits)
  show "y \<in> set (pd_users (release_telegram k tg db))" if "y \<in> set (pd_users db)" "u_id y = k"
    using that by (auto simp: release_telegram_def split: option.splits dest!: find_SomeD)
  show "pd_sessions (release_telegram k tg db) = pd_sessions db"
    by (simp add: release_telegram_def split: option.splits)
qed

text \<open>What a successful verification through Telegram has checked and written.\<close>

lemma verifyTelegram_Verified:
  assumes "verifyPhoneByTelegramContact now m ph n db = (Verified k, db')"
  obtains tg digits s u where
    "parseBigInt (Some m) = Some tg" and "tg \<noteq> 0" and "normalizePhoneToDigits11 (Some ph) = Some digits"
    and "s \<in> set (pd_sessions db)" and "ps_provider s = TELEGRAM" and "ps_telegramUserId s = Some tg"
    and "phone_open s" and "now < ps_expiresAt s"
    and "toApiPhoneString (Some (ps_requestedPhone s)) = Some digits"
    and "u \<in> set (pd_users db)" and "u_id u = k" and "ps_userId s = k"
    and "\<And>x. x \<in> set (pd_users db) \<Longrightarrow> u_phone x = Some (int (nat_of_digits digits)) \<Longrightarrow> u_id x = k"
    and "db' = write_session (ps_id s) (verify_session now)
           (write_user k (link_telegram now (int (nat_of_digits digits)) tg n) (release_telegram k tg db))"
proof -
  from assms obtain tg where tg: "parseBigInt (Some m) = Some tg" "tg \<noteq> 0"
    by (auto simp: verifyPhoneByTelegramContact_def Let_def truthy_int_def split: option.splits if_splits)
  from assms tg obtain digits where d: "normalizePhoneToDigits11 (Some ph) = Some digits"
    by (auto simp: verifyPhoneByTelegramContact_def Let_def truthy_int_def split: option.splits)
  have can: "canonical_phone digits" using d by (rule normalize_canonical)
  then have phone: "normalizePhoneToBigInt (Some digits) = Some (int (nat_of_digits digits))"
    "int (nat_of_digits digits) \<noteq> 0"
    using canonical_value_pos by (auto simp: normalizePhoneToBigInt_def normalize_fixed bigint_canonical)
  let ?q = "\<lambda>s. ps_provider s = TELEGRAM \<and> ps_telegramUserId s = Some tg \<and> phone_open s"
  note def = verifyPhoneByTelegramContact_def [of now m ph n db, unfolded tg(1) d phone(1) Let_def]
  from assms tg phone(2) obtain s where s: "find_latest ps_createdAt ?q (pd_sessions db) = Some s"
    by (auto simp: def truthy_int_def d phone split: option.splits)
  note ds = def [simplified s d phone(1) option.case tg(1)]
  from assms tg phone(2) have c1: "now < ps_expiresAt s"
    "toApiPhoneString (Some (ps_requestedPhone s)) = Some digits"
    by (auto simp: ds truthy_int_def d phone split: if_splits)
  from assms tg phone(2) c1 obtain u where u: "List.find (\<lambda>u. u_id u = ps_userId s) (pd_users db) = Some u"
    by (auto simp: ds truthy_int_def d phone split: option.splits)
  from assms tg phone(2) c1 u have fin: "k = u_id u"
    "List.find (\<lambda>x. u_phone x = Some (int (nat_of_digits digits)) \<and> u_id x \<noteq> u_id u) (pd_users db) = None"
    "db' = write_session (ps_id s) (verify_session now)
       (write_user k (link_telegram now (int (nat_of_digits digits)) tg n) (release_telegram k tg db))"
    by (auto simp: ds truthy_int_def d phone release_telegram_def split: if_splits)
  show thesis
  proof (rule that [OF tg d])
    show "s \<in> set (pd_sessions db)" "ps_provider s = TELEGRAM" "ps_telegramUserId s = Some tg" "phone_open s"
      using find_latest_SomeD [OF s] by auto
    show "u \<in> set (pd_users db)" "u_id u = k" "ps_userId s = k"
      using find_SomeD [OF u] fin(1) by auto
    show "u_id x = k" if "x \<in> set (pd_users db)" "u_phone x = Some (int (nat_of_digits digits))" for x
      using find_NoneD [OF fin(2) that(1)] that(2) fin(1) by auto
  qed (use c1 fin in auto)
qed

lemma verifyMax_users:
  assumes wf: "users_wf (pd_users db)"
  shows "users_wf (pd_users (snd (verifyPhoneByMaxContact now m ph n db)))"
proof -
  have link: "users_wf (update_where (\<lambda>u. u_id u = k) (link_max now v w n) (pd_users db))"
    if "List.find (\<lambda>x. u_phone x = Some v \<and> u_id x \<noteq> k) (pd_users db) = None"
      "List.find (\<lambda>x. u_maxId x = Some w \<and> u_id x \<noteq> k) (pd_users db) = None" for k v w
    using wf by (rule users_wf_link_max) (use that in \<open>auto dest: find_NoneD\<close>)
  show ?thesis
    using wf link
    by (auto simp: verifyPhoneByMaxContact_def Let_def truthy_int_def split: option.splits)
qed

lemma verifyTelegram_users:
  assumes wf: "users_wf (pd_users db)"
  shows "users_wf (pd_users (snd (verifyPhoneByTelegramContact now m ph n db)))"
proof (cases "fst (verifyPhoneByTelegramContact now m ph n db)")
  case (Refused why)
  then have "pd_users (snd (verifyPhoneByTelegramContact now m ph n db)) = pd_users db"
    by (auto simp: verifyPhoneByTelegramContact_def Let_def split: option.splits if_splits)
  then show ?thesis using wf by simp
next
  case (Verified k)
  then have "verifyPhoneByTelegramContact now m ph n db =
      (Verified k, snd (verifyPhoneByTelegramContact now m ph n db))"
    by (metis prod.collapse)
  then show ?thesis
  proof (cases rule: verifyTelegram_Verified)
    case (1 tg digits s u)
    have "users_wf (update_where (\<lambda>u. u_id u = k) (link_telegram now (int (nat_of_digits digits)) tg n)
            (pd_users (release_telegram k tg db)))"
    proof (rule users_wf_link_telegram)
      show "users_wf (pd_users (release_telegram k tg db))"
        using wf by (rule release_telegram_spec(1))
      show "u_id x = k" if "x \<in> set (pd_users (release_telegram k tg db))"
        "u_phone x = Some (int (nat_of_digits digits))" for x
        using release_telegram_spec(3) [OF wf that(1)] that(2) 1(13) by metis
      show "u_id x = k" if "x \<in> set (pd_users (release_telegram k tg db))" "u_telegramId x = Some tg" for x
        using release_telegram_spec(2) [OF wf] that by blast
    qed
    then show ?thesis unfolding 1(14) by simp
  qed
qed

section \<open>Properties\<close>

text \<open>
  C8: Verification through a Telegram contact is sound.  If the handler reports success for a
  user, the contact's phone normalises to the phone requested in a pending, unexpired session of
  that user that was bound to this Telegram account; afterwards the user owns the phone and the
  Telegram account, nobody else owns either, and the session is verified.
\<close>

theorem verify_telegram_sound:
  assumes wf: "users_wf (pd_users db)"
    and ok: "verifyPhoneByTelegramContact now m ph n db = (Verified k, db')"
  shows "\<exists>tg digits s. parseBigInt (Some m) = Some tg \<and> normalizePhoneToDigits11 (Some ph) = Some digits \<and>
           s \<in> set (pd_sessions db) \<and> ps_userId s = k \<and> ps_status s = PENDING \<and> now < ps_expiresAt s \<and>
           ps_telegramUserId s = Some tg \<and> toApiPhoneString (Some (ps_requestedPhone s)) = Some digits \<and>
           verify_session now s \<in> set (pd_sessions db') \<and>
           (\<exists>u \<in> set (pd_users db'). u_id u = k \<and> u_phone u = Some (int (nat_of_digits digits)) \<and>
              u_telegramId u = Some tg) \<and>
           (\<forall>x \<in> set (pd_users db'). u_phone x = Some (int (nat_of_digits digits)) \<or> u_telegramId x = Some tg \<longrightarrow>
              u_id x = k)"
  using ok
proof (cases rule: verifyTelegram_Verified)
  case (1 tg digits s u)
  let ?f = "link_telegram now (int (nat_of_digits digits)) tg n"
  let ?us = "update_where (\<lambda>u. u_id u = k) ?f (pd_users (release_telegram k tg db))"
  have us: "pd_users db' = ?us" and ss: "verify_session now s \<in> set (pd_sessions db')"
    using 1(4) by (auto simp: 1(14) release_telegram_spec(5) [OF wf])
  have "u \<in> set (pd_users (release_telegram k tg db))"
    using wf 1(10,11) by (rule release_telegram_spec(4))
  then have "?f u \<in> set ?us" using 1(11) by auto
  moreover have "u_id (?f u) = k \<and> u_phone (?f u) = Some (int (nat_of_digits digits)) \<and> u_telegramId (?f u) = Some tg"
    using 1(11) by simp
  moreover have "u_id x = k"
    if "x \<in> set ?us" "u_phone x = Some (int (nat_of_digits digits)) \<or> u_telegramId x = Some tg" for x
    using that(1)
  proof (cases rule: update_whereE)
    case kept
    then show ?thesis
      using that(2) release_telegram_spec(2,3) [OF wf kept(1)] 1(13) by metis
  next
    case (hit r0)
    then show ?thesis by simp
  qed
  ultimately show ?thesis using 1(1-12) ss unfolding us by blast
qed

definition demo_user :: user where
  "demo_user = \<lparr>u_id = 7, u_email = Some ''a@b.ru'', u_passwordHash = Some ''h'', u_phone = None,
     u_phoneVerifiedAt = None, u_telegramId = None, u_telegramUsername = None, u_telegramLinkedAt = None,
     u_maxId = None, u_maxUsername = None, u_maxLinkedAt = None, u_authProvider = LOCAL\<rparr>"

definition demo_session :: phone_session where
  "demo_session = \<lparr>ps_id = ''s1'', ps_userId = 7, ps_requestedPhone = 79123456789, ps_status = PENDING,
     ps_provider = TELEGRAM, ps_tokenHash = ''t'', ps_telegramUserId = Some 55, ps_chatId = None,
     ps_maxUserId = None, ps_maxChatId = None, ps_expiresAt = 1000, ps_verifiedAt = None,
     ps_failureReason = None, ps_createdAt = 0, ps_updatedAt = 0\<rparr>"

definition demo_env :: bot_env where
  "demo_env = \<lparr>TELEGRAM_BOT_TOKEN = Some ''t'', TELEGRAM_BOT_USERNAME = Some ''bot'',
     MAX_BOT_TOKEN = None, MAX_BOT_USERNAME = None\<rparr>"

definition demo_db :: phone_db where
  "demo_db = \<lparr>pd_users = [demo_user, demo_user\<lparr>u_id := 8, u_telegramId := Some 55\<rparr>], pd_sessions = [demo_session]\<rparr>"

lemma demo_phone:
  "normalizePhoneToDigits11 (Some ''89123456789'') = Some ''79123456789''"
  "normalizePhoneToBigInt (Some ''79123456789'') = Some 79123456789"
  "toApiPhoneString (Some 79123456789) = Some ''79123456789''"
proof -
  show "normalizePhoneToDigits11 (Some ''89123456789'') = Some ''79123456789''"
    and v: "normalizePhoneToBigInt (Some ''79123456789'') = Some 79123456789"
    by (simp_all add: phone_eval)
  from v have "canonical_phone ''79123456789''" and "79123456789 = int (nat_of_digits ''79123456789'')"
    by (simp_all add: canonical_phone_def phone_eval)
  then show "toApiPhoneString (Some 79123456789) = Some ''79123456789''"
    by (metis toApi_of_canonical)
qed

lemma demo_messenger: "parseBigInt (Some ''55'') = Some 55"
  by (simp add: parseBigInt_def phone_eval)

lemma demo_wf: "users_wf (pd_users demo_db)"
  unfolding users_wf_def unique_col_def by (simp add: demo_db_def demo_user_def)

theorem verify_telegram_sound_witness:
  "\<exists>db'. verifyPhoneByTelegramContact 500 ''55'' ''89123456789'' None demo_db = (Verified 7, db') \<and>
     (\<exists>u \<in> set (pd_users db'). u_id u = 7 \<and> u_telegramId u = Some 55)"
proof -
  let ?r = "verifyPhoneByTelegramContact 500 ''55'' ''89123456789'' None demo_db"
  have "fst ?r = Verified 7"
    by (simp add: verifyPhoneByTelegramContact_def demo_phone demo_messenger truthy_int_def demo_db_def
        demo_session_def demo_user_def Let_def)
  then have r: "?r = (Verified 7, snd ?r)" by (metis prod.collapse)
  with verify_telegram_sound [OF demo_wf r] show ?thesis by (auto simp: demo_messenger)
qed

text \<open>
  No handler of the service, on any input, breaks the uniqueness of user identifiers, phones,
  Telegram accounts or MAX accounts; a verification that takes a Telegram account over releases it
  from its previous owner first.
\<close>

theorem phone_users_unique:
  assumes "users_wf (pd_users db)"
  shows "users_wf (pd_users (phone_step env h a db))"
proof (cases a)
  case (Start i tok now u ph p)
  have "pd_users (snd (startPhoneVerificationSession env h i tok now u ph p db)) = pd_users db"
    by (auto simp: startPhoneVerificationSession_def Let_def split: option.splits sum.splits)
  then show ?thesis using Start assms by simp
next
  case (State now u i)
  have "pd_users (snd (getPhoneVerificationSessionState now u i db)) = pd_users db"
    by (auto simp: getPhoneVerificationSessionState_def split: option.splits)
  then show ?thesis using State assms by simp
next
  case (Cancel now u i)
  then show ?thesis using assms by (simp add: cancelPhoneVerificationSession_def Let_def)
next
  case (BindTelegram now t m c)
  have "pd_users (snd (bindTelegramToPhoneVerificationByStartToken h now t m c db)) = pd_users db"
    by (auto simp: bindTelegramToPhoneVerificationByStartToken_def Let_def split: option.splits)
  then show ?thesis using BindTelegram assms by simp
next
  case (BindMax now t m c)
  have "pd_users (snd (bindMaxToPhoneVerificationByStartToken h now t m c db)) = pd_users db"
    by (auto simp: bindMaxToPhoneVerificationByStartToken_def Let_def split: option.splits)
  then show ?thesis using BindMax assms by simp
qed (use assms in \<open>simp_all add: verifyTelegram_users verifyMax_users\<close>)

theorem phone_users_unique_witness:
  "users_wf (pd_users (phone_step demo_env id (VerifyTelegram 500 ''55'' ''89123456789'' None) demo_db))"
  by (rule phone_users_unique [OF demo_wf])

text \<open>
  A session that left the pending state is final: after any sequence of handler calls, on any
  inputs, the row with its identifier is that row, unchanged in every column.
\<close>

theorem phone_session_final:
  assumes "pv.fresh_run env h as db" and "distinct (map ps_id (pd_sessions db))"
    and "s \<in> set (pd_sessions db)" and "ps_status s \<noteq> PENDING"
    and "x \<in> set (pd_sessions (pv.run env h as db))" and "ps_id x = ps_id s"
  shows "x = s"
  using assms by (rule pv.closed_final)

theorem phone_session_final_witness:
  "{x. x \<in> set (pd_sessions (pv.run demo_env id
          [Start ''s2'' ''tok'' 600 7 ''89123456789'' None, Cancel 700 7 ''s1'']
          (demo_db\<lparr>pd_sessions := [demo_session\<lparr>ps_status := FAILED\<rparr>]\<rparr>))) \<and> ps_id x = ''s1''}
     \<subseteq> {demo_session\<lparr>ps_status := FAILED\<rparr>}"
proof
  let ?as = "[Start ''s2'' ''tok'' 600 7 ''89123456789'' None, Cancel 700 7 ''s1'']"
  let ?db = "demo_db\<lparr>pd_sessions := [demo_session\<lparr>ps_status := FAILED\<rparr>]\<rparr>"
  fix x
  assume "x \<in> {x. x \<in> set (pd_sessions (pv.run demo_env id ?as ?db)) \<and> ps_id x = ''s1''}"
  then have x: "x \<in> set (pd_sessions (pv.run demo_env id ?as ?db))" "ps_id x = ''s1''" by auto
  have "x = demo_session\<lparr>ps_status := FAILED\<rparr>"
    by (rule phone_session_final [OF _ _ _ _ x(1)]) (use x(2) in \<open>simp_all add: demo_session_def\<close>)
  then show "x \<in> {demo_session\<lparr>ps_status := FAILED\<rparr>}" by simp
qed

text \<open>
  From an empty table, whatever the sequence of handler calls, a user never has two pending
  verification sessions: a new request replaces the previous one.
\<close>

theorem phone_single_pending:
  assumes "pv.fresh_run env h as db" and "pd_sessions db = []" and "s \<in> set (pd_sessions (pv.run env h as db))"
    and "x \<in> set (pd_sessions (pv.run env h as db))"
    and "ps_status s = PENDING" and "ps_status x = PENDING" and "ps_userId x = ps_userId s"
  shows "x = s"
  using pv.run_open_unique [OF assms(1-4)] assms(5-7) by simp

theorem phone_single_pending_witness:
  "\<exists>s. {x. x \<in> set (pd_sessions (pv.run demo_env id [Start ''s2'' ''tok'' 600 7 ''89123456789'' None]
          (demo_db\<lparr>pd_sessions := []\<rparr>))) \<and> ps_status x = PENDING \<and> ps_userId x = 7} = {s}"
proof -
  let ?as = "[Start ''s2'' ''tok'' 600 7 ''89123456789'' None]"
  let ?db = "demo_db\<lparr>pd_sessions := []\<rparr>"
  let ?S = "{x. x \<in> set (pd_sessions (pv.run demo_env id ?as ?db)) \<and> ps_status x = PENDING \<and> ps_userId x = 7}"
  have "\<exists>s \<in> set (pd_sessions (phone_step demo_env id (hd ?as) ?db)). ps_status s = PENDING \<and> ps_userId s = 7"
    by (simp add: demo_env_def startPhoneVerificationSession_def ensurePhoneVerificationConfigured_def
        isTelegramBotConfigured_def getTelegramBotUsername_def or_empty_def js_trim_def js_space_def
        demo_phone truthy_int_def demo_db_def demo_user_def buildDeepLink_def Let_def)
  then obtain s where s: "s \<in> ?S" by auto
  have "x = s" if "x \<in> ?S" for x
    using phone_single_pending [of demo_env id ?as ?db s x] s that by simp
  with s show ?thesis by blast
qed

end
