(* ===== verification/Email_Change.thy ===== *)
theory Email_Change
  imports Accounts Regex Contracts
begin

text \<open>
  \<^verbatim>\<open>src/src/services/emailChangeService.ts\<close>: a user asks to change the e-mail
  address, receives a six digit code at the new address and confirms it.

  The state is the user table, the session table and the list of mails handed to the mail
  service.  Two things the service takes from elsewhere are parameters: \<open>hash\<close>, the SHA-256
  digest, and \<open>ci a b\<close>, whether the database's case-insensitive comparison of the searched
  address \<open>a\<close> accepts the stored address \<open>b\<close>.  \<open>mailOk\<close> says whether the mail
  service accepted the message.
\<close>

section \<open>Data\<close>

record email_session =
  es_id :: string
  es_userId :: user_id
  es_currentEmail :: "string option"
  es_requestedEmail :: string
  es_codeHash :: string
  es_status :: session_status
  es_attemptsCount :: int
  es_expiresAt :: millis
  es_verifiedAt :: "millis option"
  es_lastSentAt :: "millis option"
  es_failureReason :: "string option"
  es_createdAt :: millis
  es_updatedAt :: millis

record email_db =
  ed_users :: "user list"
  ed_sessions :: "email_session list"
  ed_outbox :: "(string \<times> string) list"

datatype email_error =
    EMAIL_CHANGE_INVALID_EMAIL
  | EMAIL_CHANGE_USER_NOT_FOUND
  | EMAIL_CHANGE_SAME_AS_CURRENT
  | EMAIL_CHANGE_CONFLICT
  | EMAIL_CHANGE_SESSION_NOT_FOUND
  | EMAIL_CHANGE_SESSION_NOT_ACTIVE
  | EMAIL_CHANGE_SESSION_EXPIRED
  | EMAIL_CHANGE_RESEND_TOO_EARLY int
  | EMAIL_CHANGE_INVALID_CODE
  | EMAIL_CHANGE_TOO_MANY_ATTEMPTS
  | MAIL_FAILED

record email_view =
  ev_id :: string
  ev_status :: session_status
  ev_currentEmail :: "string option"
  ev_requestedEmail :: string
  ev_attemptsCount :: int
  ev_expiresAt :: millis
  ev_verifiedAt :: "millis option"
  ev_lastSentAt :: "millis option"
  ev_failureReason :: "string option"
  ev_createdAt :: millis
  ev_updatedAt :: millis

record email_started =
  em_sessionId :: string
  em_requestedEmail :: string
  em_expiresAt :: millis
  em_resendCooldownSec :: int

section \<open>Helpers\<close>

definition EMAIL_CHANGE_CODE_TTL_MS :: millis where
  "EMAIL_CHANGE_CODE_TTL_MS = 10 * 60 * 1000"

definition EMAIL_CHANGE_RESEND_COOLDOWN_SEC :: int where
  "EMAIL_CHANGE_RESEND_COOLDOWN_SEC = 30"

definition EMAIL_CHANGE_MAX_ATTEMPTS :: int where
  "EMAIL_CHANGE_MAX_ATTEMPTS = 5"

definition normalizeEmail :: "string option \<Rightarrow> string" where
  "normalizeEmail v = js_lower (js_trim (or_empty v))"

text \<open>
  \<^verbatim>\<open>String(Math.floor(100000 + Math.random() * 900000))\<close>, the random draw scaled to
  \<open>r < 900000\<close>.
\<close>

definition generateCode :: "nat \<Rightarrow> string" where
  "generateCode r = show_nat (100000 + r)"

definition isExpired :: "millis \<Rightarrow> millis \<Rightarrow> bool" where
  "isExpired now expiresAt \<longleftrightarrow> expiresAt \<le> now"

definition mapSession :: "email_session \<Rightarrow> email_view" where
  "mapSession s = \<lparr>ev_id = es_id s, ev_status = es_status s, ev_currentEmail = es_currentEmail s,
     ev_requestedEmail = es_requestedEmail s, ev_attemptsCount = es_attemptsCount s,
     ev_expiresAt = es_expiresAt s, ev_verifiedAt = es_verifiedAt s, ev_lastSentAt = es_lastSentAt s,
     ev_failureReason = es_failureReason s, ev_createdAt = es_createdAt s, ev_updatedAt = es_updatedAt s\<rparr>"

text \<open>\<^verbatim>\<open>/^\d{6}$/\<close>\<close>

definition CODE_RE :: re where
  "CODE_RE = Rep 6 (Cls js_digit)"

definition close_email :: "millis \<Rightarrow> session_status \<Rightarrow> string \<Rightarrow> email_session \<Rightarrow> email_session" where
  "close_email now st reason s = s\<lparr>es_status := st, es_failureReason := Some reason, es_updatedAt := now\<rparr>"

definition write_email :: "string \<Rightarrow> (email_session \<Rightarrow> email_session) \<Rightarrow> email_db \<Rightarrow> email_db" where
  "write_email i f db = db\<lparr>ed_sessions := update_where (\<lambda>s. es_id s = i) f (ed_sessions db)\<rparr>"

definition email_taken :: "(string \<Rightarrow> string \<Rightarrow> bool) \<Rightarrow> string \<Rightarrow> user_id \<Rightarrow> user list \<Rightarrow> bool" where
  "email_taken ci requested userId us \<longleftrightarrow>
     List.find (\<lambda>u. (case u_email u of None \<Rightarrow> False | Some e \<Rightarrow> ci requested e) \<and> u_id u \<noteq> userId) us \<noteq> None"

definition find_email_session :: "string \<Rightarrow> user_id \<Rightarrow> email_db \<Rightarrow> email_session option" where
  "find_email_session i userId db = List.find (\<lambda>s. es_id s = i \<and> es_userId s = userId) (ed_sessions db)"

section \<open>Handlers\<close>

definition startEmailChangeSession ::
  "(string \<Rightarrow> string \<Rightarrow> bool) \<Rightarrow> (string \<Rightarrow> string) \<Rightarrow> string \<Rightarrow> nat \<Rightarrow> bool \<Rightarrow> millis \<Rightarrow> user_id \<Rightarrow> string \<Rightarrow>
   email_db \<Rightarrow> (email_error + email_started) \<times> email_db" where
  "startEmailChangeSession ci hash newId draw mailOk now userId emailRaw db =
     (let requestedEmail = normalizeEmail (Some emailRaw) in
      if \<not> re_test EMAIL_RE requestedEmail then (Inl EMAIL_CHANGE_INVALID_EMAIL, db)
      else case List.find (\<lambda>u. u_id u = userId) (ed_users db) of
        None \<Rightarrow> (Inl EMAIL_CHANGE_USER_NOT_FOUND, db)
      | Some user \<Rightarrow>
      if truthy (u_email user) \<and> normalizeEmail (u_email user) = requestedEmail
      then (Inl EMAIL_CHANGE_SAME_AS_CURRENT, db)
      else if email_taken ci requestedEmail userId (ed_users db) then (Inl EMAIL_CHANGE_CONFLICT, db)
      else
        let cancelled = update_where (\<lambda>s. es_userId s = userId \<and> es_status s = PENDING)
              (close_email now CANCELLED ''REPLACED_BY_NEW_REQUEST'') (ed_sessions db);
            code = generateCode draw;
            session = \<lparr>es_id = newId, es_userId = userId, es_currentEmail = u_email user,
              es_requestedEmail = requestedEmail, es_codeHash = hash code, es_status = PENDING,
              es_attemptsCount = 0, es_expiresAt = now + EMAIL_CHANGE_CODE_TTL_MS, es_verifiedAt = None,
              es_lastSentAt = Some now, es_failureReason = None, es_createdAt = now, es_updatedAt = now\<rparr>;
            db' = db\<lparr>ed_sessions := cancelled @ [session]\<rparr>
        in if \<not> mailOk then (Inl MAIL_FAILED, db')
           else (Inr \<lparr>em_sessionId = es_id session, em_requestedEmail = es_requestedEmail session,
                   em_expiresAt = es_expiresAt session,
                   em_resendCooldownSec = EMAIL_CHANGE_RESEND_COOLDOWN_SEC\<rparr>,
                 db'\<lparr>ed_outbox := ed_outbox db @ [(requestedEmail, code)]\<rparr>))"

definition getEmailChangeSessionState ::
  "millis \<Rightarrow> user_id \<Rightarrow> string \<Rightarrow> email_db \<Rightarrow> email_view option \<times> email_db" where
  "getEmailChangeSessionState now userId sessionId db =
     (case find_email_session sessionId userId db of
        None \<Rightarrow> (None, db)
      | Some s \<Rightarrow>
          if es_status s = PENDING \<and> isExpired now (es_expiresAt s)
          then (Some (mapSession (close_email now EXPIRED ''SESSION_EXPIRED'' s)),
                write_email (es_id s) (close_email now EXPIRED ''SESSION_EXPIRED'') db)
          else (Some (mapSession s), db))"

definition resendEmailChangeCode ::
  "(string \<Rightarrow> string) \<Rightarrow> nat \<Rightarrow> bool \<Rightarrow> millis \<Rightarrow> user_id \<Rightarrow> string \<Rightarrow> email_db \<Rightarrow>
   (email_error + email_view) \<times> email_db" where
  "resendEmailChangeCode hash draw mailOk now userId sessionId db =
     (case find_email_session sessionId userId db of
        None \<Rightarrow> (Inl EMAIL_CHANGE_SESSION_NOT_FOUND, db)
      | Some s \<Rightarrow>
      if es_status s \<noteq> PENDING then (Inl EMAIL_CHANGE_SESSION_NOT_ACTIVE, db)
      else if isExpired now (es_expiresAt s)
      then (Inl EMAIL_CHANGE_SESSION_EXPIRED,
            write_email (es_id s) (close_email now EXPIRED ''SESSION_EXPIRED'') db)
      else
        let lastSentAtMs = (case es_lastSentAt s of None \<Rightarrow> 0 | Some t \<Rightarrow> t);
            elapsedMs = now - lastSentAtMs
        in if es_lastSentAt s \<noteq> None \<and> elapsedMs < 1000 * EMAIL_CHANGE_RESEND_COOLDOWN_SEC
           then (Inl (EMAIL_CHANGE_RESEND_TOO_EARLY
                       (- ((elapsedMs - 1000 * EMAIL_CHANGE_RESEND_COOLDOWN_SEC) div 1000))), db)
           else
             let code = generateCode draw;
                 f = (\<lambda>r. r\<lparr>es_codeHash := hash code, es_lastSentAt := Some now,
                            es_failureReason := None, es_updatedAt := now\<rparr>);
                 db' = write_email (es_id s) f db
             in if \<not> mailOk then (Inl MAIL_FAILED, db')
                else (Inr (mapSession (f s)),
                      db'\<lparr>ed_outbox := ed_outbox db @ [(es_requestedEmail s, code)]\<rparr>))"

definition verifyEmailChangeSession ::
  "(string \<Rightarrow> string \<Rightarrow> bool) \<Rightarrow> (string \<Rightarrow> string) \<Rightarrow> millis \<Rightarrow> user_id \<Rightarrow> string \<Rightarrow> string \<Rightarrow> email_db \<Rightarrow>
   (email_error + email_view) \<times> email_db" where
  "verifyEmailChangeSession ci hash now userId sessionId codeRaw db =
     (let code = js_trim codeRaw in
      if \<not> re_test CODE_RE code then (Inl EMAIL_CHANGE_INVALID_CODE, db)
      else case find_email_session sessionId userId db of
        None \<Rightarrow> (Inl EMAIL_CHANGE_SESSION_NOT_FOUND, db)
      | Some s \<Rightarrow>
      if es_status s \<noteq> PENDING then (Inl EMAIL_CHANGE_SESSION_NOT_ACTIVE, db)
      else if isExpired now (es_expiresAt s)
      then (Inl EMAIL_CHANGE_SESSION_EXPIRED,
            write_email (es_id s) (close_email now EXPIRED ''SESSION_EXPIRED'') db)
      else if hash code \<noteq> es_codeHash s
      then let attempts = es_attemptsCount s + 1;
               tooMany = EMAIL_CHANGE_MAX_ATTEMPTS \<le> attempts
           in (Inl (if tooMany then EMAIL_CHANGE_TOO_MANY_ATTEMPTS else EMAIL_CHANGE_INVALID_CODE),
               write_email (es_id s)
                 (\<lambda>r. r\<lparr>es_attemptsCount := attempts, es_status := (if tooMany then FAILED else PENDING),
                        es_failureReason := Some (if tooMany then ''TOO_MANY_ATTEMPTS'' else ''INVALID_CODE''),
                        es_updatedAt := now\<rparr>) db)
      else if email_taken ci (es_requestedEmail s) userId (ed_users db)
      then (Inl EMAIL_CHANGE_CONFLICT,
            write_email (es_id s) (close_email now FAILED ''EMAIL_ALREADY_USED'') db)
      else
        let db1 = db\<lparr>ed_users := update_where (\<lambda>u. u_id u = userId)
                       (\<lambda>u. u\<lparr>u_email := Some (es_requestedEmail s)\<rparr>) (ed_users db)\<rparr>;
            db2 = write_email (es_id s)
                    (\<lambda>r. r\<lparr>es_status := VERIFIED, es_verifiedAt := Some now, es_failureReason := None,
                           es_updatedAt := now\<rparr>) db1;
            db3 = db2\<lparr>ed_sessions := update_where
                       (\<lambda>r. es_userId r = userId \<and> es_status r = PENDING \<and> es_id r \<noteq> es_id s)
                       (close_email now CANCELLED ''REPLACED_BY_VERIFIED_REQUEST'') (ed_sessions db2)\<rparr>
        in case List.find (\<lambda>r. es_id r = es_id s) (ed_sessions db3) of
             None \<Rightarrow> (Inl EMAIL_CHANGE_SESSION_NOT_FOUND, db3)
           | Some r \<Rightarrow> (Inr (mapSession r), db3))"

definition cancelEmailChangeSession ::
  "millis \<Rightarrow> user_id \<Rightarrow> string \<Rightarrow> email_db \<Rightarrow> bool \<times> email_db" where
  "cancelEmailChangeSession now userId sessionId db =
     (let hit = (\<lambda>s. es_id s = sessionId \<and> es_userId s = userId \<and> es_status s = PENDING) in
      (0 < count_where hit (ed_sessions db),
       db\<lparr>ed_sessions := update_where hit (close_email now CANCELLED ''CANCELLED_BY_USER'') (ed_sessions db)\<rparr>))"

section \<open>The service as a machine\<close>

datatype email_op =
    StartEmail string nat bool millis user_id string
  | StateEmail millis user_id string
  | ResendEmail nat bool millis user_id string
  | VerifyEmail millis user_id string string
  | CancelEmail millis user_id string

fun email_step ::
  "(string \<Rightarrow> string \<Rightarrow> bool) \<Rightarrow> (string \<Rightarrow> string) \<Rightarrow> email_op \<Rightarrow> email_db \<Rightarrow> email_db" where
  "email_step ci h (StartEmail i draw ok now u e) db = snd (startEmailChangeSession ci h i draw ok now u e db)"
| "email_step ci h (StateEmail now u i) db = snd (getEmailChangeSessionState now u i db)"
| "email_step ci h (ResendEmail draw ok now u i) db = snd (resendEmailChangeCode h draw ok now u i db)"
| "email_step ci h (VerifyEmail now u i c) db = snd (verifyEmailChangeSession ci h now u i c db)"
| "email_step ci h (CancelEmail now u i) db = snd (cancelEmailChangeSession now u i db)"

fun email_fresh :: "email_op \<Rightarrow> email_db \<Rightarrow> bool" where
  "email_fresh (StartEmail i draw ok now u e) db = (i \<notin> es_id ` set (ed_sessions db))"
| "email_fresh _ db = True"

abbreviation email_open :: "email_session \<Rightarrow> bool" where
  "email_open s \<equiv> es_status s = PENDING"

abbreviation email_closed :: "email_session \<Rightarrow> bool" where
  "email_closed s \<equiv> es_status s \<noteq> PENDING"

abbreviation email_touches :: "email_db \<Rightarrow> email_db \<Rightarrow> bool" where
  "email_touches db db' \<equiv> touches es_id es_userId email_open (ed_sessions db) (ed_sessions db')"

lemma close_email_fields [simp]:
  "es_id (close_email now st why s) = es_id s"
  "es_userId (close_email now st why s) = es_userId s"
  "es_status (close_email now st why s) = st"
  "es_attemptsCount (close_email now st why s) = es_attemptsCount s"
  by (simp_all add: close_email_def)

lemma write_email_tables [simp]:
  "ed_sessions (write_email i f db) = update_where (\<lambda>s. es_id s = i) f (ed_sessions db)"
  "ed_users (write_email i f db) = ed_users db"
  "ed_outbox (write_email i f db) = ed_outbox db"
  by (simp_all add: write_email_def)

lemma find_email_sessionD:
  "find_email_session i u db = Some s \<Longrightarrow> s \<in> set (ed_sessions db) \<and> es_id s = i \<and> es_userId s = u"
  unfolding find_email_session_def by (drule find_SomeD) simp

lemma state_email_touches:
  "distinct (map es_id (ed_sessions db)) \<Longrightarrow> email_touches db (snd (getEmailChangeSessionState now u i db))"
  by (auto simp: getEmailChangeSessionState_def split: option.splits
      dest!: find_email_sessionD intro!: touches_write)

lemma resend_email_touches:
  "distinct (map es_id (ed_sessions db)) \<Longrightarrow> email_touches db (snd (resendEmailChangeCode h draw ok now u i db))"
  by (auto simp: resendEmailChangeCode_def Let_def split: option.splits
      dest!: find_email_sessionD intro!: touches_write)

lemma cancel_email_touches:
  "distinct (map es_id (ed_sessions db)) \<Longrightarrow> email_touches db (snd (cancelEmailChangeSession now u i db))"
  by (auto simp: cancelEmailChangeSession_def Let_def intro!: touches_where)

lemma verify_email_touches:
  assumes d: "distinct (map es_id (ed_sessions db))"
  shows "email_touches db (snd (verifyEmailChangeSession ci h now u i c db))"
proof (cases "find_email_session i u db")
  case None
  then show ?thesis by (simp add: verifyEmailChangeSession_def Let_def)
next
  case (Some s)
  then have s: "s \<in> set (ed_sessions db)" using find_email_sessionD by blast
  have fin: "touches es_id es_userId email_open (ed_sessions db)
      (update_where (\<lambda>r. es_userId r = u \<and> email_open r \<and> es_id r \<noteq> es_id s)
        (close_email now CANCELLED ''REPLACED_BY_VERIFIED_REQUEST'')
        (update_where (\<lambda>r. es_id r = es_id s) (\<lambda>r. r\<lparr>es_status := VERIFIED, es_verifiedAt := Some now,
           es_failureReason := None, es_updatedAt := now\<rparr>) (ed_sessions db)))" if "email_open s"
    by (rule touches_trans [OF touches_write [where s = s] touches_where]) (use d s that in auto)
  show ?thesis
    using d s fin
    by (auto simp: verifyEmailChangeSession_def Some Let_def split: option.splits intro!: touches_write)
qed

lemma start_email_sessions:
  obtains (same) "ed_sessions (snd (startEmailChangeSession ci h i draw ok now u e db)) = ed_sessions db"
  | (created) r where
      "ed_sessions (snd (startEmailChangeSession ci h i draw ok now u e db)) =
         update_where (\<lambda>s. es_userId s = u \<and> email_open s)
           (close_email now CANCELLED ''REPLACED_BY_NEW_REQUEST'') (ed_sessions db) @ [r]"
      "es_id r = i" "es_userId r = u" "email_open r" "es_attemptsCount r = 0"
proof -
  let ?t = "ed_sessions (snd (startEmailChangeSession ci h i draw ok now u e db))"
  have "?t = ed_sessions db \<or> (\<exists>r. ?t = update_where (\<lambda>s. es_userId s = u \<and> email_open s)
           (close_email now CANCELLED ''REPLACED_BY_NEW_REQUEST'') (ed_sessions db) @ [r] \<and>
         es_id r = i \<and> es_userId r = u \<and> email_open r \<and> es_attemptsCount r = 0)"
    by (auto simp: startEmailChangeSession_def Let_def split: option.splits)
  then show thesis using that by blast
qed

lemma replaced_email_touches:
  "touches es_id es_userId email_open rs
     (update_where (\<lambda>s. es_userId s = u \<and> email_open s) (close_email now CANCELLED why) rs)"
  by (rule touches_where) auto

lemma start_email_one_open:
  assumes "one_open es_userId email_open (ed_sessions db)"
  shows "one_open es_userId email_open (ed_sessions (snd (startEmailChangeSession ci h i draw ok now u e db)))"
proof (cases rule: start_email_sessions [of ci h i draw ok now u e db])
  case same
  then show ?thesis using assms by simp
next
  case (created r)
  let ?rs = "update_where (\<lambda>s. es_userId s = u \<and> email_open s)
    (close_email now CANCELLED ''REPLACED_BY_NEW_REQUEST'') (ed_sessions db)"
  have "one_open es_userId email_open ?rs"
    using replaced_email_touches assms by (rule touches_one_open)
  moreover have "\<not> email_open x" if "x \<in> set ?rs" "es_userId x = es_userId r" for x
    using that created(3) by (cases rule: update_whereE) auto
  ultimately show ?thesis
    unfolding created(1) by (rule one_open_snoc)
qed

lemma start_email_frozen:
  assumes "distinct (map es_id (ed_sessions db))" and "r \<in> set (ed_sessions db)" and "email_closed r"
  shows "r \<in> set (ed_sessions (snd (startEmailChangeSession ci h i draw ok now u e db)))"
proof (cases rule: start_email_sessions [of ci h i draw ok now u e db])
  case same
  then show ?thesis using assms by simp
next
  case created
  then show ?thesis using touches_frozen [OF replaced_email_touches assms(2,3)] by simp
qed

lemma start_email_distinct:
  assumes "i \<notin> es_id ` set (ed_sessions db)" and "distinct (map es_id (ed_sessions db))"
  shows "distinct (map es_id (ed_sessions (snd (startEmailChangeSession ci h i draw ok now u e db))))"
proof (cases rule: start_email_sessions [of ci h i draw ok now u e db])
  case same
  then show ?thesis using assms by simp
next
  case (created r)
  have "map es_id (update_where (\<lambda>s. es_userId s = u \<and> email_open s)
      (close_email now CANCELLED ''REPLACED_BY_NEW_REQUEST'') (ed_sessions db)) = map es_id (ed_sessions db)"
    by (rule update_where_key) simp
  then show ?thesis using assms created by (simp add: image_set [symmetric] del: image_set)
qed

fun is_start_email :: "email_op \<Rightarrow> bool" where
  "is_start_email (StartEmail i draw ok now u e) = True"
| "is_start_email _ = False"

lemma email_step_touches:
  "distinct (map es_id (ed_sessions db)) \<Longrightarrow> \<not> is_start_email a \<Longrightarrow> email_touches db (email_step ci h a db)"
  by (cases a) (simp_all add: state_email_touches resend_email_touches verify_email_touches cancel_email_touches)

interpretation ec: owned_session_machine ed_sessions es_id email_closed "email_step ci h" email_fresh es_userId
  for ci h
proof unfold_locales
  fix r :: email_session and d :: email_db and a
  assume "distinct (map es_id (ed_sessions d))" "r \<in> set (ed_sessions d)" "email_closed r"
  then show "r \<in> set (ed_sessions (email_step ci h a d))"
    using touches_frozen [OF email_step_touches [of d a ci h]] by (cases a) (auto simp: start_email_frozen)
next
  fix d :: email_db and a
  assume "email_fresh a d" "distinct (map es_id (ed_sessions d))"
  then show "distinct (map es_id (ed_sessions (email_step ci h a d)))"
    using touches_distinct [OF email_step_touches [of d a ci h]] by (cases a) (auto simp: start_email_distinct)
next
  fix d :: email_db and a
  assume "distinct (map es_id (ed_sessions d))" "one_open es_userId (\<lambda>r. \<not> email_closed r) (ed_sessions d)"
  then show "one_open es_userId (\<lambda>r. \<not> email_closed r) (ed_sessions (email_step ci h a d))"
    using touches_one_open [OF email_step_touches [of d a ci h]] by (cases a) (auto simp: start_email_one_open)
qed

section \<open>The budget of wrong codes\<close>

definition attempts_ok :: "email_session \<Rightarrow> bool" where
  "attempts_ok s \<longleftrightarrow> 0 \<le> es_attemptsCount s \<and> es_attemptsCount s \<le> EMAIL_CHANGE_MAX_ATTEMPTS \<and>
     (es_status s = PENDING \<longrightarrow> es_attemptsCount s < EMAIL_CHANGE_MAX_ATTEMPTS)"

lemma attempts_update:
  assumes "\<forall>s \<in> set rs. attempts_ok s" and "\<And>s. s \<in> set rs \<Longrightarrow> p s \<Longrightarrow> attempts_ok s \<Longrightarrow> attempts_ok (f s)"
  shows "\<forall>s \<in> set (update_where p f rs). attempts_ok s"
  using assms by (auto simp: table_simps)

lemma attempts_close [simp]: "st \<noteq> PENDING \<Longrightarrow> attempts_ok s \<Longrightarrow> attempts_ok (close_email now st why s)"
  by (simp add: attempts_ok_def)

lemma attempts_verify:
  assumes ok: "\<forall>s \<in> set (ed_sessions db). attempts_ok s"
  shows "\<forall>s \<in> set (ed_sessions (snd (verifyEmailChangeSession ci h now u i c db))). attempts_ok s"
proof (cases "find_email_session i u db")
  case None
  then show ?thesis using ok by (simp add: verifyEmailChangeSession_def Let_def)
next
  case (Some s)
  then have s: "attempts_ok s" using ok find_email_sessionD by blast
  have wrong: "\<forall>r \<in> set (update_where (\<lambda>r. es_id r = es_id s)
      (\<lambda>r. r\<lparr>es_attemptsCount := es_attemptsCount s + 1,
             es_status := (if EMAIL_CHANGE_MAX_ATTEMPTS \<le> es_attemptsCount s + 1 then FAILED else PENDING),
             es_failureReason := why, es_updatedAt := now\<rparr>) (ed_sessions db)). attempts_ok r"
    if "email_open s" for why
    using ok by (rule attempts_update) (use s that in \<open>auto simp: attempts_ok_def\<close>)
  have done_: "\<forall>r \<in> set (update_where (\<lambda>r. es_userId r = u \<and> email_open r \<and> es_id r \<noteq> es_id s)
        (close_email now CANCELLED ''REPLACED_BY_VERIFIED_REQUEST'')
        (update_where (\<lambda>r. es_id r = es_id s) (\<lambda>r. r\<lparr>es_status := VERIFIED, es_verifiedAt := Some now,
           es_failureReason := None, es_updatedAt := now\<rparr>) (ed_sessions db))). attempts_ok r"
    by (intro attempts_update [OF attempts_update [OF ok]]) (auto simp: attempts_ok_def)
  have closed: "\<forall>r \<in> set (update_where (\<lambda>r. es_id r = es_id s) (close_email now st why) (ed_sessions db)). attempts_ok r"
    if "st \<noteq> PENDING" for st why
    using ok by (rule attempts_update) (use that in simp)
  show ?thesis
    using ok wrong done_ closed [of EXPIRED] closed [of FAILED]
    by (auto simp: verifyEmailChangeSession_def Some Let_def split: option.splits)
qed

lemma attempts_step:
  assumes ok: "\<forall>s \<in> set (ed_sessions db). attempts_ok s"
  shows "\<forall>s \<in> set (ed_sessions (email_step ci h a db)). attempts_ok s"
proof (cases a)
  case (StartEmail i draw mail now u e)
  show ?thesis
  proof (cases rule: start_email_sessions [of ci h i draw mail now u e db])
    case same
    then show ?thesis using StartEmail ok by simp
  next
    case (created r)
    have "\<forall>s \<in> set (update_where (\<lambda>s. es_userId s = u \<and> email_open s)
        (close_email now CANCELLED ''REPLACED_BY_NEW_REQUEST'') (ed_sessions db)). attempts_ok s"
      using ok by (rule attempts_update) simp
    moreover have "attempts_ok r"
      using created by (simp add: attempts_ok_def EMAIL_CHANGE_MAX_ATTEMPTS_def)
    ultimately show ?thesis using StartEmail created(1) by auto
  qed
next
  case (StateEmail now u i)
  then show ?thesis
    using ok by (auto simp: getEmailChangeSessionState_def table_simps split: option.splits)
next
  case (ResendEmail draw mail now u i)
  have "\<forall>r \<in> set (update_where p (\<lambda>r. r\<lparr>es_codeHash := x, es_lastSentAt := y, es_failureReason := z,
      es_updatedAt := w\<rparr>) (ed_sessions db)). attempts_ok r" for p x y z w
    using ok by (rule attempts_update) (simp add: attempts_ok_def)
  then show ?thesis
    using ResendEmail ok by (auto simp: resendEmailChangeCode_def Let_def table_simps split: option.splits)
next
  case (VerifyEmail now u i c)
  then show ?thesis using ok by (simp add: attempts_verify)
next
  case (CancelEmail now u i)
  then show ?thesis using ok by (auto simp: cancelEmailChangeSession_def Let_def table_simps)
qed

lemma attempts_run:
  "\<forall>s \<in> set (ed_sessions db). attempts_ok s \<Longrightarrow> \<forall>s \<in> set (ed_sessions (ec.run ci h as db)). attempts_ok s"
proof (induction as arbitrary: db)
  case (Cons a as)
  then show ?case by (metis attempts_step ec.run.simps(2))
qed simp

section \<open>Codes\<close>

lemma generateCode_accepted:
  assumes "r < 900000"
  shows "js_trim (generateCode r) = generateCode r" and "re_test CODE_RE (generateCode r)"
proof -
  have dig: "\<forall>c \<in> set (generateCode r). js_digit c"
    unfolding generateCode_def by (rule show_nat_digits)
  have "length (generateCode r) = Suc 5"
    unfolding generateCode_def by (rule length_show_nat) (use assms in simp_all)
  with dig show "re_test CODE_RE (generateCode r)"
    by (simp add: re_test_denotes CODE_RE_def)
  show "js_trim (generateCode r) = generateCode r"
    using dig by (rule js_trim_digits)
qed

text \<open>What a confirmed change has checked and written.\<close>

lemma verify_email_Inr:
  assumes "verifyEmailChangeSession ci h now u i c db = (Inr v, db')"
  obtains s where "find_email_session i u db = Some s" and "email_open s" and "now < es_expiresAt s"
    and "h (js_trim c) = es_codeHash s" and "\<not> email_taken ci (es_requestedEmail s) u (ed_users db)"
    and "ed_users db' = update_where (\<lambda>x. u_id x = u) (\<lambda>x. x\<lparr>u_email := Some (es_requestedEmail s)\<rparr>) (ed_users db)"
    and "ed_sessions db' = update_where (\<lambda>r. es_userId r = u \<and> email_open r \<and> es_id r \<noteq> es_id s)
        (close_email now CANCELLED ''REPLACED_BY_VERIFIED_REQUEST'')
        (update_where (\<lambda>r. es_id r = es_id s) (\<lambda>r. r\<lparr>es_status := VERIFIED, es_verifiedAt := Some now,
           es_failureReason := None, es_updatedAt := now\<rparr>) (ed_sessions db))"
proof -
  from assms obtain s where s: "find_email_session i u db = Some s"
    by (auto simp: verifyEmailChangeSession_def Let_def split: option.splits if_splits)
  note def = verifyEmailChangeSession_def [of ci h now u i c db, unfolded s Let_def option.case]
  from assms have "email_open s" "now < es_expiresAt s" "h (js_trim c) = es_codeHash s"
    "\<not> email_taken ci (es_requestedEmail s) u (ed_users db)"
    unfolding def by (auto simp: isExpired_def split: if_splits)
  with s show thesis
    using that assms unfolding def by (auto simp: isExpired_def split: if_splits option.splits)
qed

section \<open>Properties\<close>

text \<open>
  C31: A confirmed change is authorised: the code's digest is the one stored in a pending,
  unexpired session of this user and no other user holds the requested address; afterwards the
  user has that address, the session is verified and the user has no pending session left.
\<close>

theorem verify_email_sound:
  assumes "verifyEmailChangeSession ci h now u i c db = (Inr v, db')"
  shows "\<exists>s \<in> set (ed_sessions db). es_id s = i \<and> es_userId s = u \<and> es_status s = PENDING \<and>
           now < es_expiresAt s \<and> es_codeHash s = h (js_trim c) \<and>
           (\<forall>x \<in> set (ed_users db). u_id x \<noteq> u \<longrightarrow> (\<forall>e. u_email x = Some e \<longrightarrow> \<not> ci (es_requestedEmail s) e)) \<and>
           (\<forall>x \<in> set (ed_users db'). u_id x = u \<longrightarrow> u_email x = Some (es_requestedEmail s)) \<and>
           (\<forall>r \<in> set (ed_sessions db'). es_id r = i \<longrightarrow> es_status r = VERIFIED) \<and>
           (\<forall>r \<in> set (ed_sessions db'). es_userId r = u \<longrightarrow> es_status r \<noteq> PENDING)"
  using assms
proof (cases rule: verify_email_Inr)
  case (1 s)
  have s: "s \<in> set (ed_sessions db)" "es_id s = i" "es_userId s = u"
    using find_email_sessionD [OF 1(1)] by auto
  have free: "\<forall>x \<in> set (ed_users db). u_id x \<noteq> u \<longrightarrow> (\<forall>e. u_email x = Some e \<longrightarrow> \<not> ci (es_requestedEmail s) e)"
    using 1(5) by (force simp: email_taken_def find_None_iff)
  have mail: "\<forall>x \<in> set (ed_users db'). u_id x = u \<longrightarrow> u_email x = Some (es_requestedEmail s)"
    unfolding 1(6) by (simp add: ball_update_where)
  have st: "\<forall>r \<in> set (ed_sessions db'). es_id r = i \<longrightarrow> es_status r = VERIFIED"
    unfolding 1(7) s(2) by (simp add: ball_update_where)
  have none: "\<forall>r \<in> set (ed_sessions db'). es_userId r = u \<longrightarrow> es_status r \<noteq> PENDING"
    unfolding 1(7) s(2) by (simp add: ball_update_where)
  show ?thesis
    by (rule bexI [OF _ s(1)]) (use s(2,3) 1(2-4) free mail st none in \<open>intro conjI; simp\<close>)
qed

definition demo_email_user :: user where
  "demo_email_user = \<lparr>u_id = 7, u_email = Some ''old@b.ru'', u_passwordHash = Some ''h'', u_phone = None,
     u_phoneVerifiedAt = None, u_telegramId = None, u_telegramUsername = None, u_telegramLinkedAt = None,
     u_maxId = None, u_maxUsername = None, u_maxLinkedAt = None, u_authProvider = LOCAL\<rparr>"

definition demo_email_session :: email_session where
  "demo_email_session = \<lparr>es_id = ''s1'', es_userId = 7, es_currentEmail = None, es_requestedEmail = ''new@b.ru'',
     es_codeHash = ''123456'', es_status = PENDING, es_attemptsCount = 0, es_expiresAt = 1000,
     es_verifiedAt = None, es_lastSentAt = Some 0, es_failureReason = None, es_createdAt = 0, es_updatedAt = 0\<rparr>"

definition demo_email_db :: email_db where
  "demo_email_db = \<lparr>ed_users = [demo_email_user], ed_sessions = [demo_email_session], ed_outbox = []\<rparr>"

lemma demo_code: "js_trim ''123456'' = ''123456''" "re_test CODE_RE ''123456''"
  by (simp_all add: js_trim_digits js_digit_def CODE_RE_def re_test_denotes)

theorem verify_email_sound_witness:
  "\<exists>v db'. verifyEmailChangeSession (=) id 500 7 ''s1'' ''123456'' demo_email_db = (Inr v, db') \<and>
     (\<exists>s \<in> set (ed_sessions demo_email_db). es_status s = PENDING \<and> es_codeHash s = ''123456'')"
proof -
  let ?r = "verifyEmailChangeSession (=) id 500 7 ''s1'' ''123456'' demo_email_db"
  have "\<exists>v. fst ?r = Inr v"
    by (simp add: verifyEmailChangeSession_def demo_code demo_email_db_def demo_email_session_def
        demo_email_user_def find_email_session_def isExpired_def email_taken_def Let_def update_where_def)
  then obtain v where "?r = (Inr v, snd ?r)" by (metis prod.collapse)
  from this verify_email_sound [OF this] show ?thesis by (auto simp: demo_code)
qed

text \<open>
  A requested change can be completed: when the request was accepted, the code mailed to the
  new address confirms it at any time before the session expires, provided the row identifier is
  new and the user table has not changed; the user then has the new address.
\<close>

theorem email_change_completes:
  assumes start: "startEmailChangeSession ci h i draw True t0 u e db = (Inr st, db1)"
    and draw: "draw < 900000" and new: "i \<notin> es_id ` set (ed_sessions db)"
    and time: "now < t0 + EMAIL_CHANGE_CODE_TTL_MS"
  shows "ed_outbox db1 = ed_outbox db @ [(em_requestedEmail st, generateCode draw)] \<and>
    (\<exists>v db2. verifyEmailChangeSession ci h now u (em_sessionId st) (generateCode draw) db1 = (Inr v, db2) \<and>
       ev_status v = VERIFIED \<and>
       (\<exists>x \<in> set (ed_users db2). u_id x = u \<and> u_email x = Some (em_requestedEmail st)))"
proof -
  define req where "req = normalizeEmail (Some e)"
  from start obtain user where user: "List.find (\<lambda>u'. u_id u' = u) (ed_users db) = Some user"
    and free: "\<not> email_taken ci req u (ed_users db)"
    by (auto simp: startEmailChangeSession_def Let_def req_def split: option.splits if_splits)
  define s where "s = \<lparr>es_id = i, es_userId = u, es_currentEmail = u_email user,
    es_requestedEmail = req, es_codeHash = h (generateCode draw), es_status = PENDING,
    es_attemptsCount = 0, es_expiresAt = t0 + EMAIL_CHANGE_CODE_TTL_MS, es_verifiedAt = None,
    es_lastSentAt = Some t0, es_failureReason = None, es_createdAt = t0, es_updatedAt = t0\<rparr>"
  define old where "old = update_where (\<lambda>s. es_userId s = u \<and> es_status s = PENDING)
    (close_email t0 CANCELLED ''REPLACED_BY_NEW_REQUEST'') (ed_sessions db)"
  have db1: "ed_sessions db1 = old @ [s]" "ed_users db1 = ed_users db"
    "ed_outbox db1 = ed_outbox db @ [(req, generateCode draw)]"
    and st: "em_sessionId st = i" "em_requestedEmail st = req"
    using start user free
    by (auto simp: startEmailChangeSession_def Let_def req_def s_def old_def split: if_splits)
  have ids: "\<forall>r \<in> set old. es_id r \<noteq> i"
    using new by (auto simp: old_def table_simps)
  have fnd: "find_email_session i u db1 = Some s"
    using ids by (auto simp: find_email_session_def db1(1) find_append_None s_def)
  define s' where "s' = s\<lparr>es_status := VERIFIED, es_verifiedAt := Some now, es_failureReason := None, es_updatedAt := now\<rparr>"
  have "List.find (\<lambda>r. es_id r = i) (old @ [s]) = Some s"
    using ids by (simp add: find_append_None s_def)
  then have found: "List.find (\<lambda>r. es_id r = i) (update_where (\<lambda>r. es_userId r = u \<and> es_status r = PENDING \<and> es_id r \<noteq> i)
      (close_email now CANCELLED ''REPLACED_BY_VERIFIED_REQUEST'')
      (update_where (\<lambda>r. es_id r = i) (\<lambda>r. r\<lparr>es_status := VERIFIED, es_verifiedAt := Some now,
         es_failureReason := None, es_updatedAt := now\<rparr>) (old @ [s]))) = Some s'"
    by (simp add: find_update_where s_def s'_def)
  have "verifyEmailChangeSession ci h now u i (generateCode draw) db1 =
      (Inr (mapSession s'), snd (verifyEmailChangeSession ci h now u i (generateCode draw) db1))"
    using fnd generateCode_accepted [OF draw] time free found
    by (simp add: verifyEmailChangeSession_def Let_def s_def isExpired_def db1)
  moreover from this have "ed_users (snd (verifyEmailChangeSession ci h now u i (generateCode draw) db1)) =
      update_where (\<lambda>x. u_id x = u) (\<lambda>x. x\<lparr>u_email := Some req\<rparr>) (ed_users db)"
    using fnd by (elim verify_email_Inr) (simp add: db1 s_def)
  moreover have "user \<in> set (ed_users db)" "u_id user = u" using find_SomeD [OF user] by auto
  ultimately show ?thesis
    unfolding st db1(3) by (auto simp: mapSession_def s'_def intro!: exI bexI [OF _ update_where_hit])
qed

lemma demo_normalize: "normalizeEmail (Some ''new@b.ru'') = ''new@b.ru''"
  "normalizeEmail (Some ''old@b.ru'') = ''old@b.ru''"
  by (simp_all add: normalizeEmail_def or_empty_def js_trim_def js_space_def js_lower_def js_lower_char_def)

theorem email_change_completes_witness:
  "\<exists>st db1 v db2. startEmailChangeSession (=) id ''s2'' 5 True 0 7 ''new@b.ru'' demo_email_db = (Inr st, db1) \<and>
     verifyEmailChangeSession (=) id 100 7 (em_sessionId st) (generateCode 5) db1 = (Inr v, db2) \<and>
     ev_status v = VERIFIED"
proof -
  let ?r = "startEmailChangeSession (=) id ''s2'' 5 True 0 7 ''new@b.ru'' demo_email_db"
  have "\<exists>st. fst ?r = Inr st"
    using EMAIL_RE_demo
    by (simp add: startEmailChangeSession_def re_test_denotes demo_normalize demo_email_db_def
        demo_email_user_def truthy_def email_taken_def Let_def)
  then obtain st where r: "?r = (Inr st, snd ?r)" by (metis prod.collapse)
  have "''s2'' \<notin> es_id ` set (ed_sessions demo_email_db)"
    by (simp add: demo_email_db_def demo_email_session_def)
  from email_change_completes [OF r _ this, of 100] r show ?thesis
    by (auto simp: EMAIL_CHANGE_CODE_TTL_MS_def)
qed

text \<open>
  From an empty table and over any sequence of requests, resends, confirmations and
  cancellations, a session records at most five wrong codes, and a session that has recorded five
  is no longer pending; a resend never gives new attempts.
\<close>

theorem email_attempts_bounded:
  assumes "ed_sessions db = []" and "s \<in> set (ed_sessions (ec.run ci h as db))"
  shows "0 \<le> es_attemptsCount s \<and> es_attemptsCount s \<le> 5 \<and> (es_attemptsCount s = 5 \<longrightarrow> es_status s \<noteq> PENDING)"
proof -
  have "attempts_ok s" using attempts_run [of db ci h as] assms by simp
  then show ?thesis by (auto simp: attempts_ok_def EMAIL_CHANGE_MAX_ATTEMPTS_def)
qed

lemma demo_wrong_code: "js_trim ''000000'' = ''000000''" "re_test CODE_RE ''000000''"
  by (simp_all add: js_trim_digits js_digit_def CODE_RE_def re_test_denotes)

theorem email_attempts_bounded_witness:
  "\<exists>s. ed_sessions (ec.run (=) id [StartEmail ''s2'' 5 True 0 7 ''new@b.ru'']
          (demo_email_db\<lparr>ed_sessions := []\<rparr>)) = [s] \<and> es_attemptsCount s \<le> 5"
proof -
  let ?as = "[StartEmail ''s2'' 5 True 0 7 ''new@b.ru'']"
  let ?db = "demo_email_db\<lparr>ed_sessions := []\<rparr>"
  have "\<exists>s. ed_sessions (email_step (=) id (hd ?as) ?db) = [s]"
    using EMAIL_RE_demo
    by (simp add: startEmailChangeSession_def re_test_denotes demo_normalize demo_email_db_def
        demo_email_user_def truthy_def email_taken_def Let_def update_where_def)
  then obtain s where s: "ed_sessions (ec.run (=) id ?as ?db) = [s]" by auto
  then have "es_attemptsCount s \<le> 5"
    using email_attempts_bounded [of ?db s "(=)" id ?as] by simp
  with s show ?thesis by blast
qed

text \<open>
  The waiting time reported with a refused resend is exact: it is between one second and the
  thirty of the cool-down when the clock has not run backwards, a resend that many seconds later is
  no longer refused for being early, and one second less would not have been enough.
\<close>

theorem resend_retry_exact:
  assumes early: "fst (resendEmailChangeCode h draw ok now u i db) = Inl (EMAIL_CHANGE_RESEND_TOO_EARLY n)"
    and "find_email_session i u db = Some s" and "es_lastSentAt s = Some t" and "t \<le> now"
  shows "1 \<le> n \<and> n \<le> 30 \<and>
    (\<forall>m. fst (resendEmailChangeCode h draw ok (now + 1000 * n) u i db) \<noteq> Inl (EMAIL_CHANGE_RESEND_TOO_EARLY m)) \<and>
    (now + 1000 * (n - 1)) - t < 30000"
proof -
  have pend: "es_status s = PENDING" and young: "now - t < 30000"
    and n: "n = - ((now - t - 30000) div 1000)"
    using early assms(2,3)
    by (auto simp: resendEmailChangeCode_def Let_def EMAIL_CHANGE_RESEND_COOLDOWN_SEC_def split: if_splits)
  have arith: "1 \<le> n \<and> n \<le> 30 \<and> 30000 \<le> now + 1000 * n - t \<and> (now + 1000 * (n - 1)) - t < 30000"
  proof -
    define x where "x = now - t - 30000"
    have "1000 * (x div 1000) \<le> x" and "x < 1000 * (x div 1000) + 1000" by presburger+
    with young assms(4) show ?thesis unfolding n x_def [symmetric] by (simp add: x_def)
  qed
  then have "fst (resendEmailChangeCode h draw ok (now + 1000 * n) u i db) \<noteq> Inl (EMAIL_CHANGE_RESEND_TOO_EARLY m)" for m
    using assms(2,3) pend
    by (simp add: resendEmailChangeCode_def Let_def EMAIL_CHANGE_RESEND_COOLDOWN_SEC_def)
  with arith show ?thesis by blast
qed

theorem resend_retry_exact_witness:
  "fst (resendEmailChangeCode id 5 True 500 7 ''s1'' demo_email_db) = Inl (EMAIL_CHANGE_RESEND_TOO_EARLY 30) \<and>
   (500 + 1000 * (30 - 1)) - (0::int) < 30000"
proof -
  have r: "fst (resendEmailChangeCode id 5 True 500 7 ''s1'' demo_email_db) = Inl (EMAIL_CHANGE_RESEND_TOO_EARLY 30)"
    and f: "find_email_session ''s1'' 7 demo_email_db = Some demo_email_session"
    by (simp_all add: resendEmailChangeCode_def find_email_session_def demo_email_db_def demo_email_session_def
        isExpired_def EMAIL_CHANGE_RESEND_COOLDOWN_SEC_def)
  have "es_lastSentAt demo_email_session = Some 0" by (simp add: demo_email_session_def)
  with resend_retry_exact [OF r f this] r show ?thesis by simp
qed

text \<open>
  A closed e-mail change session is final, and the user's open session is unique: after any
  sequence of handler calls from an empty table, two pending rows of one user are the same row, and
  a row that is closed in an intermediate state is still there, unchanged, at the end.
\<close>

theorem email_sessions_disciplined:
  assumes "ec.fresh_run ci h as db" and "ed_sessions db = []"
    and "ec.fresh_run ci h bs (ec.run ci h as db)"
    and "s \<in> set (ed_sessions (ec.run ci h as db))" and "x \<in> set (ed_sessions (ec.run ci h as db))"
    and "es_userId x = es_userId s"
  shows "(es_status s = PENDING \<and> es_status x = PENDING \<longrightarrow> x = s) \<and>
    (es_status s \<noteq> PENDING \<longrightarrow> s \<in> set (ed_sessions (ec.run ci h bs (ec.run ci h as db))))"
proof -
  have "distinct (map es_id (ed_sessions (ec.run ci h as db)))"
    using assms(1) by (rule ec.run_distinct) (simp add: assms(2))
  then show ?thesis
    using ec.run_open_unique [OF assms(1,2,4,5)] ec.run_frozen [OF assms(3) _ assms(4)] assms(6) by blast
qed

theorem email_sessions_disciplined_witness:
  "\<exists>s. ed_sessions (ec.run (=) id [StartEmail ''s2'' 5 True 0 7 ''new@b.ru'']
       (demo_email_db\<lparr>ed_sessions := []\<rparr>)) = [s] \<and> es_status s = PENDING \<and>
     {x. x \<in> set (ed_sessions (ec.run (=) id [StartEmail ''s2'' 5 True 0 7 ''new@b.ru'']
       (demo_email_db\<lparr>ed_sessions := []\<rparr>))) \<and> es_status x = PENDING \<and> es_userId x = es_userId s} = {s}"
proof -
  let ?as = "[StartEmail ''s2'' 5 True 0 7 ''new@b.ru'']"
  let ?db = "demo_email_db\<lparr>ed_sessions := []\<rparr>"
  have "\<exists>s. ed_sessions (email_step (=) id (hd ?as) ?db) = [s] \<and> es_status s = PENDING"
    using EMAIL_RE_demo
    by (simp add: startEmailChangeSession_def re_test_denotes demo_normalize demo_email_db_def
        demo_email_user_def truthy_def email_taken_def Let_def update_where_def)
  then obtain s where s: "ed_sessions (ec.run (=) id ?as ?db) = [s]" "es_status s = PENDING" by auto
  have "x = s" if "x \<in> set (ed_sessions (ec.run (=) id ?as ?db))" "es_status x = PENDING"
    "es_userId x = es_userId s" for x
    using email_sessions_disciplined [of "(=)" id ?as ?db "[]" s x] s that by simp
  with s show ?thesis by auto
qed

end
