(* ===== verification/Messenger_Qr.thy ===== *)
theory Messenger_Qr
  imports Accounts Regex Contracts
begin

text \<open>
  \<^verbatim>\<open>src/src/services/messengerQrAuthSessionService.ts\<close> and the polling handler
  \<^verbatim>\<open>handleQrAuthStatus\<close> of \<^verbatim>\<open>src/src/routes/auth.ts\<close>: sign-in by a QR
  code that opens a messenger.  The browser holds a client token and polls; the messenger bot binds
  its user with the start token and, once the user is resolved, marks the session verified; the
  next poll issues tokens and consumes the session.

  The state is the session table and the list of users that tokens were issued to.
\<close>

section \<open>Data\<close>

datatype qr_status =
    Q_PENDING | Q_AWAITING_CONTACT | Q_VERIFIED | Q_FAILED | Q_EXPIRED | Q_CANCELLED | Q_CONSUMED

record qr_session =
  qs_id :: string
  qs_provider :: messenger
  qs_startTokenHash :: string
  qs_clientTokenHash :: string
  qs_status :: qr_status
  qs_messengerUserId :: "int option"
  qs_messengerChatId :: "int option"
  qs_messengerUsername :: "string option"
  qs_resolvedUserId :: "user_id option"
  qs_failureReason :: "string option"
  qs_expiresAt :: millis
  qs_verifiedAt :: "millis option"
  qs_consumedAt :: "millis option"
  qs_createdAt :: millis
  qs_updatedAt :: millis

record qr_db =
  qd_sessions :: "qr_session list"
  qd_issued :: "user_id list"

datatype qr_error =
    QR_AUTH_NOT_CONFIGURED messenger
  | QR_DEEP_LINK_UNAVAILABLE messenger
  | SESSION_TOKEN_REQUIRED
  | QR_UNIQUE_VIOLATION

record qr_started =
  qt_provider :: messenger
  qt_sessionToken :: string
  qt_deepLinkUrl :: string
  qt_qrPayload :: string
  qt_expiresAt :: millis
  qt_pollIntervalSec :: int

definition MESSENGER_QR_AUTH_TTL_MS :: millis where
  "MESSENGER_QR_AUTH_TTL_MS = 10 * 60 * 1000"

definition MESSENGER_QR_AUTH_POLL_INTERVAL_SEC :: int where
  "MESSENGER_QR_AUTH_POLL_INTERVAL_SEC = 3"

definition ACTIVE_PENDING_STATUSES :: "qr_status list" where
  "ACTIVE_PENDING_STATUSES = [Q_PENDING, Q_AWAITING_CONTACT]"

abbreviation qr_active :: "qr_session \<Rightarrow> bool" where
  "qr_active s \<equiv> qs_status s \<in> set ACTIVE_PENDING_STATUSES"

section \<open>Configuration and deep links\<close>

text \<open>\<^verbatim>\<open>.replace(/^@+/, '').trim()\<close>\<close>

definition getTelegramBotUsername :: "bot_env \<Rightarrow> string" where
  "getTelegramBotUsername env = js_trim (dropWhile (\<lambda>c. c = CHR ''@'') (or_empty (TELEGRAM_BOT_USERNAME env)))"

definition getMaxBotUsername :: "bot_env \<Rightarrow> string" where
  "getMaxBotUsername env = js_trim (dropWhile (\<lambda>c. c = CHR ''@'') (or_empty (MAX_BOT_USERNAME env)))"

text \<open>\<^verbatim>\<open>/^https:\/\/t\.me\/.+\?start=auth_qr_[A-Za-z0-9_-]+$/\<close>, and the same for MAX.\<close>

definition DEEP_LINK_RE :: "string \<Rightarrow> re" where
  "DEEP_LINK_RE host =
     Sq (Lit host) (Sq (Plus (Cls (\<lambda>c. c \<noteq> CHR 0x0A \<and> c \<noteq> CHR 0x0D)))
       (Sq (Lit ''?start=auth_qr_'') (Plus (Cls token_char))))"

definition isValidDeepLink :: "string \<Rightarrow> messenger \<Rightarrow> bool" where
  "isValidDeepLink url provider =
     (if provider = MAX_BOT then re_test (DEEP_LINK_RE ''https://max.ru/'') url
      else re_test (DEEP_LINK_RE ''https://t.me/'') url)"

definition ensureProviderConfigured :: "bot_env \<Rightarrow> messenger \<Rightarrow> qr_error option" where
  "ensureProviderConfigured env provider =
     (if provider = TELEGRAM
      then (if \<not> isTelegramBotConfigured env \<or> getTelegramBotUsername env = []
            then Some (QR_AUTH_NOT_CONFIGURED TELEGRAM) else None)
      else (if \<not> isMaxBotConfigured env \<or> getMaxBotUsername env = []
            then Some (QR_AUTH_NOT_CONFIGURED MAX_BOT) else None))"

definition buildDeepLink :: "bot_env \<Rightarrow> messenger \<Rightarrow> string \<Rightarrow> qr_error + string" where
  "buildDeepLink env provider startToken =
     (if provider = TELEGRAM
      then (if getTelegramBotUsername env = [] then Inl (QR_AUTH_NOT_CONFIGURED TELEGRAM)
            else let url = ''https://t.me/'' @ getTelegramBotUsername env @ ''?start=auth_qr_'' @ startToken
                 in if \<not> isValidDeepLink url provider then Inl (QR_DEEP_LINK_UNAVAILABLE TELEGRAM) else Inr url)
      else (if getMaxBotUsername env = [] then Inl (QR_AUTH_NOT_CONFIGURED MAX_BOT)
            else let url = ''https://max.ru/'' @ getMaxBotUsername env @ ''?start=auth_qr_'' @ startToken
                 in if \<not> isValidDeepLink url provider then Inl (QR_DEEP_LINK_UNAVAILABLE MAX_BOT) else Inr url))"

section \<open>Handlers\<close>

definition write_qr :: "string \<Rightarrow> (qr_session \<Rightarrow> qr_session) \<Rightarrow> qr_db \<Rightarrow> qr_db" where
  "write_qr i f db = db\<lparr>qd_sessions := update_where (\<lambda>s. qs_id s = i) f (qd_sessions db)\<rparr>"

definition close_qr :: "millis \<Rightarrow> qr_status \<Rightarrow> string \<Rightarrow> qr_session \<Rightarrow> qr_session" where
  "close_qr now st reason s = s\<lparr>qs_status := st, qs_failureReason := Some reason, qs_updatedAt := now\<rparr>"

definition expireSessionIfNeeded :: "millis \<Rightarrow> qr_session \<Rightarrow> qr_db \<Rightarrow> qr_session \<times> qr_db" where
  "expireSessionIfNeeded now s db =
     (if \<not> qr_active s then (s, db)
      else if now < qs_expiresAt s then (s, db)
      else (close_qr now Q_EXPIRED ''SESSION_EXPIRED'' s,
            write_qr (qs_id s) (close_qr now Q_EXPIRED ''SESSION_EXPIRED'') db))"

text \<open>
  The row identifier and both token digests are unique columns: the database rejects a row that
  repeats one of them.
\<close>

definition startMessengerQrAuthSession ::
  "bot_env \<Rightarrow> (string \<Rightarrow> string) \<Rightarrow> string \<Rightarrow> string \<Rightarrow> string \<Rightarrow> millis \<Rightarrow> messenger \<Rightarrow> qr_db \<Rightarrow>
   (qr_error + qr_started) \<times> qr_db" where
  "startMessengerQrAuthSession env hash newId startToken sessionToken now provider db =
     (case ensureProviderConfigured env provider of
        Some e \<Rightarrow> (Inl e, db)
      | None \<Rightarrow>
      (case buildDeepLink env provider startToken of
         Inl e \<Rightarrow> (Inl e, db)
       | Inr deepLinkUrl \<Rightarrow>
       if \<exists>s \<in> set (qd_sessions db). qs_id s = newId \<or> qs_startTokenHash s = hash startToken \<or>
            qs_clientTokenHash s = hash sessionToken
       then (Inl QR_UNIQUE_VIOLATION, db)
       else
         (Inr \<lparr>qt_provider = provider, qt_sessionToken = sessionToken, qt_deepLinkUrl = deepLinkUrl,
              qt_qrPayload = deepLinkUrl, qt_expiresAt = now + MESSENGER_QR_AUTH_TTL_MS,
              qt_pollIntervalSec = MESSENGER_QR_AUTH_POLL_INTERVAL_SEC\<rparr>,
          db\<lparr>qd_sessions := qd_sessions db @
               [\<lparr>qs_id = newId, qs_provider = provider, qs_startTokenHash = hash startToken,
                 qs_clientTokenHash = hash sessionToken, qs_status = Q_PENDING,
                 qs_messengerUserId = None, qs_messengerChatId = None, qs_messengerUsername = None,
                 qs_resolvedUserId = None, qs_failureReason = None,
                 qs_expiresAt = now + MESSENGER_QR_AUTH_TTL_MS, qs_verifiedAt = None,
                 qs_consumedAt = None, qs_createdAt = now, qs_updatedAt = now\<rparr>]\<rparr>)))"

definition getMessengerQrAuthSessionByClientToken ::
  "(string \<Rightarrow> string) \<Rightarrow> millis \<Rightarrow> messenger \<Rightarrow> string \<Rightarrow> qr_db \<Rightarrow> (qr_error + qr_session option) \<times> qr_db" where
  "getMessengerQrAuthSessionByClientToken hash now provider sessionTokenRaw db =
     (let sessionToken = js_trim sessionTokenRaw in
      if sessionToken = [] then (Inl SESSION_TOKEN_REQUIRED, db)
      else case List.find (\<lambda>s. qs_provider s = provider \<and> qs_clientTokenHash s = hash sessionToken) (qd_sessions db) of
        None \<Rightarrow> (Inr None, db)
      | Some s \<Rightarrow> (let (actual, db') = expireSessionIfNeeded now s db in (Inr (Some actual), db')))"

definition cancelMessengerQrAuthSessionByClientToken ::
  "(string \<Rightarrow> string) \<Rightarrow> millis \<Rightarrow> messenger \<Rightarrow> string \<Rightarrow> qr_db \<Rightarrow>
   (qr_error + bool \<times> qr_session option) \<times> qr_db" where
  "cancelMessengerQrAuthSessionByClientToken hash now provider sessionTokenRaw db =
     (case getMessengerQrAuthSessionByClientToken hash now provider sessionTokenRaw db of
        (Inl e, db') \<Rightarrow> (Inl e, db')
      | (Inr None, db') \<Rightarrow> (Inr (False, None), db')
      | (Inr (Some s), db') \<Rightarrow>
          if \<not> qr_active s then (Inr (False, Some s), db')
          else (Inr (True, Some (close_qr now Q_CANCELLED ''CANCELLED_BY_USER'' s)),
                write_qr (qs_id s) (close_qr now Q_CANCELLED ''CANCELLED_BY_USER'') db'))"

definition bindMessengerQrAuthSessionByStartToken ::
  "(string \<Rightarrow> string) \<Rightarrow> millis \<Rightarrow> messenger \<Rightarrow> string \<Rightarrow> string \<Rightarrow> string option \<Rightarrow> string option \<Rightarrow> qr_db \<Rightarrow>
   qr_session option \<times> qr_db" where
  "bindMessengerQrAuthSessionByStartToken hash now provider startTokenRaw userIdRaw chatIdRaw username db =
     (let startToken = js_trim startTokenRaw in
      if startToken = [] then (None, db)
      else
        let messengerUserId = parseBigInt (Some userIdRaw); messengerChatId = parseBigInt chatIdRaw in
        if \<not> truthy_int messengerUserId then (None, db)
        else case List.find (\<lambda>s. qs_provider s = provider \<and> qs_startTokenHash s = hash startToken) (qd_sessions db) of
          None \<Rightarrow> (None, db)
        | Some s \<Rightarrow>
            (let (actual, db') = expireSessionIfNeeded now s db in
             if \<not> qr_active actual then (Some actual, db')
             else
               let f = (\<lambda>r. r\<lparr>qs_messengerUserId := messengerUserId, qs_messengerChatId := messengerChatId,
                          qs_messengerUsername := js_or username None, qs_status := Q_AWAITING_CONTACT,
                          qs_failureReason := None, qs_updatedAt := now\<rparr>)
               in (Some (f actual), write_qr (qs_id actual) f db')))"

definition getLatestActiveMessengerQrAuthSessionByMessengerUser ::
  "millis \<Rightarrow> messenger \<Rightarrow> string \<Rightarrow> qr_db \<Rightarrow> qr_session option" where
  "getLatestActiveMessengerQrAuthSessionByMessengerUser now provider userIdRaw db =
     (let messengerUserId = parseBigInt (Some userIdRaw) in
      if \<not> truthy_int messengerUserId then None
      else find_latest qs_updatedAt
             (\<lambda>s. qs_provider s = provider \<and> qs_messengerUserId s = messengerUserId \<and> qr_active s \<and>
                  now < qs_expiresAt s) (qd_sessions db))"

definition markLatestMessengerQrAuthSessionVerified ::
  "millis \<Rightarrow> messenger \<Rightarrow> string \<Rightarrow> user_id \<Rightarrow> string option \<Rightarrow> qr_db \<Rightarrow> qr_session option \<times> qr_db" where
  "markLatestMessengerQrAuthSessionVerified now provider userIdRaw resolvedUserId username db =
     (case getLatestActiveMessengerQrAuthSessionByMessengerUser now provider userIdRaw db of
        None \<Rightarrow> (None, db)
      | Some s \<Rightarrow>
          let f = (\<lambda>r. r\<lparr>qs_status := Q_VERIFIED, qs_resolvedUserId := Some resolvedUserId,
                     qs_messengerUsername := js_or username (js_or (qs_messengerUsername s) None),
                     qs_failureReason := None, qs_verifiedAt := Some now, qs_updatedAt := now\<rparr>)
          in (Some (f s), write_qr (qs_id s) f db))"

definition markLatestMessengerQrAuthSessionFailed ::
  "millis \<Rightarrow> messenger \<Rightarrow> string \<Rightarrow> string \<Rightarrow> string option \<Rightarrow> qr_db \<Rightarrow> qr_session option \<times> qr_db" where
  "markLatestMessengerQrAuthSessionFailed now provider userIdRaw failureReason username db =
     (case getLatestActiveMessengerQrAuthSessionByMessengerUser now provider userIdRaw db of
        None \<Rightarrow> (None, db)
      | Some s \<Rightarrow>
          let f = (\<lambda>r. r\<lparr>qs_status := Q_FAILED, qs_failureReason := Some failureReason,
                     qs_messengerUsername := js_or username (js_or (qs_messengerUsername s) None),
                     qs_updatedAt := now\<rparr>)
          in (Some (f s), write_qr (qs_id s) f db))"

definition consumeMessengerQrAuthSession :: "millis \<Rightarrow> string \<Rightarrow> qr_db \<Rightarrow> bool \<times> qr_db" where
  "consumeMessengerQrAuthSession now sessionId db =
     (let i = js_trim sessionId in
      if i = [] then (False, db)
      else
        let hit = (\<lambda>s. qs_id s = i \<and> qs_status s = Q_VERIFIED) in
        (0 < count_where hit (qd_sessions db),
         db\<lparr>qd_sessions := update_where hit
              (\<lambda>s. s\<lparr>qs_status := Q_CONSUMED, qs_consumedAt := Some now, qs_updatedAt := now\<rparr>) (qd_sessions db)\<rparr>))"

section \<open>Polling\<close>

text \<open>
  \<^verbatim>\<open>handleQrAuthStatus\<close> in the two parts its \<^verbatim>\<open>await\<close>s separate: the poll
  reads the session and, when it is verified, decides to sign the user in; the completion issues
  the tokens and then consumes the session, ignoring what the consumption reports.  Other requests
  run between the two.  \<open>known u\<close> says that the user row exists.
\<close>

datatype qr_public = P_PENDING | P_AWAITING_CONTACT | P_FAILED | P_EXPIRED | P_CANCELLED | P_CONSUMED

definition mapQrSessionState :: "qr_status \<Rightarrow> qr_public" where
  "mapQrSessionState st =
     (if st = Q_AWAITING_CONTACT then P_AWAITING_CONTACT
      else if st = Q_FAILED then P_FAILED
      else if st = Q_EXPIRED then P_EXPIRED
      else if st = Q_CANCELLED then P_CANCELLED
      else if st = Q_CONSUMED then P_CONSUMED
      else P_PENDING)"

datatype qr_reply =
    QR_NOT_FOUND
  | QR_USER_UNDEFINED
  | QR_FAILED qr_error
  | QR_NO_SUCH_USER
  | QR_STATE qr_public "string option"
  | QR_AUTHORIZED user_id

datatype qr_poll = Reply qr_reply | SignIn string user_id

definition qr_poll_begin ::
  "(string \<Rightarrow> string) \<Rightarrow> millis \<Rightarrow> messenger \<Rightarrow> string \<Rightarrow> qr_db \<Rightarrow> qr_poll \<times> qr_db" where
  "qr_poll_begin hash now provider sessionToken db =
     (case getMessengerQrAuthSessionByClientToken hash now provider sessionToken db of
        (Inl e, db') \<Rightarrow> (Reply (QR_FAILED e), db')
      | (Inr None, db') \<Rightarrow> (Reply QR_NOT_FOUND, db')
      | (Inr (Some s), db') \<Rightarrow>
          if qs_status s = Q_VERIFIED
          then (if \<not> truthy_int (qs_resolvedUserId s) then (Reply QR_USER_UNDEFINED, db')
                else (SignIn (qs_id s) (the (qs_resolvedUserId s)), db'))
          else (Reply (QR_STATE (mapQrSessionState (qs_status s)) (qs_failureReason s)), db'))"

definition qr_poll_end :: "(user_id \<Rightarrow> bool) \<Rightarrow> millis \<Rightarrow> qr_poll \<Rightarrow> qr_db \<Rightarrow> qr_reply \<times> qr_db" where
  "qr_poll_end known now p db =
     (case p of
        Reply r \<Rightarrow> (r, db)
      | SignIn sid u \<Rightarrow>
          if \<not> known u then (QR_NO_SUCH_USER, db)
          else (QR_AUTHORIZED u,
                snd (consumeMessengerQrAuthSession now sid (db\<lparr>qd_issued := qd_issued db @ [u]\<rparr>))))"

definition handleQrAuthStatus ::
  "(string \<Rightarrow> string) \<Rightarrow> (user_id \<Rightarrow> bool) \<Rightarrow> millis \<Rightarrow> messenger \<Rightarrow> string \<Rightarrow> qr_db \<Rightarrow> qr_reply \<times> qr_db" where
  "handleQrAuthStatus hash known now provider sessionToken db =
     (let (p, db') = qr_poll_begin hash now provider sessionToken db in qr_poll_end known now p db')"

section \<open>The service as a machine\<close>

datatype qr_op =
    StartQr string string string millis messenger
  | GetQr millis messenger string
  | CancelQr millis messenger string
  | BindQr millis messenger string string "string option" "string option"
  | VerifyQr millis messenger string user_id "string option"
  | FailQr millis messenger string string "string option"

fun qr_step :: "bot_env \<Rightarrow> (string \<Rightarrow> string) \<Rightarrow> qr_op \<Rightarrow> qr_db \<Rightarrow> qr_db" where
  "qr_step env h (StartQr i st ct now p) db = snd (startMessengerQrAuthSession env h i st ct now p db)"
| "qr_step env h (GetQr now p t) db = snd (getMessengerQrAuthSessionByClientToken h now p t db)"
| "qr_step env h (CancelQr now p t) db = snd (cancelMessengerQrAuthSessionByClientToken h now p t db)"
| "qr_step env h (BindQr now p t m c n) db = snd (bindMessengerQrAuthSessionByStartToken h now p t m c n db)"
| "qr_step env h (VerifyQr now p m u n) db = snd (markLatestMessengerQrAuthSessionVerified now p m u n db)"
| "qr_step env h (FailQr now p m r n) db = snd (markLatestMessengerQrAuthSessionFailed now p m r n db)"

text \<open>The life cycle of a session, as an automaton on the status alone.\<close>

fun qr_next :: "qr_status \<Rightarrow> qr_status \<Rightarrow> bool" where
  "qr_next Q_PENDING st = (st \<in> {Q_AWAITING_CONTACT, Q_EXPIRED, Q_CANCELLED})"
| "qr_next Q_AWAITING_CONTACT st = (st \<in> {Q_AWAITING_CONTACT, Q_VERIFIED, Q_FAILED, Q_EXPIRED, Q_CANCELLED})"
| "qr_next Q_VERIFIED st = (st = Q_CONSUMED)"
| "qr_next _ st = False"

text \<open>What holds of every stored row.\<close>

definition qr_row_ok :: "qr_session \<Rightarrow> bool" where
  "qr_row_ok s \<longleftrightarrow>
     (qs_status s = Q_PENDING \<longrightarrow> qs_messengerUserId s = None) \<and>
     (qs_status s \<in> {Q_AWAITING_CONTACT, Q_VERIFIED, Q_FAILED, Q_CONSUMED} \<longrightarrow> qs_messengerUserId s \<noteq> None) \<and>
     (qs_status s \<in> {Q_VERIFIED, Q_CONSUMED} \<longleftrightarrow> qs_resolvedUserId s \<noteq> None)"

definition qr_wf :: "qr_db \<Rightarrow> bool" where
  "qr_wf db \<longleftrightarrow> distinct (map qs_id (qd_sessions db)) \<and> (\<forall>s \<in> set (qd_sessions db). qr_row_ok s)"

text \<open>
  \<open>qr_follows\<close> relates a table to the next one row by row: same row, or the same identifier
  one transition further and still well-formed; new rows come at the end, pending.
\<close>

definition qr_row_next :: "qr_session \<Rightarrow> qr_session \<Rightarrow> bool" where
  "qr_row_next s s' \<longleftrightarrow> s' = s \<or> (qs_id s' = qs_id s \<and> qr_next (qs_status s) (qs_status s') \<and> qr_row_ok s')"

lemma qr_row_next_refl [simp, intro]: "qr_row_next s s"
  by (simp add: qr_row_next_def)

lemma qr_active_iff: "qr_active s \<longleftrightarrow> qs_status s = Q_PENDING \<or> qs_status s = Q_AWAITING_CONTACT"
  by (simp add: ACTIVE_PENDING_STATUSES_def)

lemma write_qr_tables [simp]:
  "qd_sessions (write_qr i f db) = update_where (\<lambda>s. qs_id s = i) f (qd_sessions db)"
  "qd_issued (write_qr i f db) = qd_issued db"
  by (simp_all add: write_qr_def)

lemma close_qr_fields [simp]:
  "qs_id (close_qr now st why s) = qs_id s"
  "qs_status (close_qr now st why s) = st"
  "qs_messengerUserId (close_qr now st why s) = qs_messengerUserId s"
  "qs_resolvedUserId (close_qr now st why s) = qs_resolvedUserId s"
  by (simp_all add: close_qr_def)

lemma update_by_id:
  assumes "distinct (map qs_id rs)" and "s \<in> set rs" and "qr_row_next s (f s)"
  shows "list_all2 qr_row_next rs (update_where (\<lambda>r. qs_id r = qs_id s) f rs)"
proof -
  have "qr_row_next r (if qs_id r = qs_id s then f r else r)" if "r \<in> set rs" for r
    using that assms distinct_key_eq [OF assms(1) that assms(2)] by auto
  then show ?thesis
    unfolding update_where_def list_all2_map2 by (simp add: list_all2_same)
qed

lemma qr_rows_wf:
  assumes "list_all2 qr_row_next rs rs'" and "distinct (map qs_id rs)" and "\<forall>s \<in> set rs. qr_row_ok s"
  shows "distinct (map qs_id rs') \<and> (\<forall>s \<in> set rs'. qr_row_ok s)"
proof
  have "map qs_id rs' = map qs_id rs"
    using assms(1) by (induction rule: list_all2_induct) (auto simp: qr_row_next_def)
  then show "distinct (map qs_id rs')" using assms(2) by simp
  show "\<forall>s \<in> set rs'. qr_row_ok s"
    using assms(1,3) by (induction rule: list_all2_induct) (auto simp: qr_row_next_def)
qed

section \<open>Every handler follows the life cycle\<close>

abbreviation qr_rows :: "qr_db \<Rightarrow> qr_db \<Rightarrow> bool" where
  "qr_rows db db' \<equiv> list_all2 qr_row_next (qd_sessions db) (qd_sessions db')"

lemma qr_rows_refl [simp, intro]: "qr_rows db db"
  by (simp add: list_all2_same)

lemma expire_rows:
  assumes "qr_wf db" and "s \<in> set (qd_sessions db)"
  shows "qr_rows db (snd (expireSessionIfNeeded now s db))"
proof -
  have "qr_row_ok s" using assms by (simp add: qr_wf_def)
  then have "qr_row_next s (close_qr now Q_EXPIRED ''SESSION_EXPIRED'' s)" if "qr_active s"
    using that by (auto simp: qr_row_next_def qr_row_ok_def qr_active_iff)
  then show ?thesis
    using assms by (auto simp: expireSessionIfNeeded_def qr_wf_def intro!: update_by_id)
qed

lemma expire_active:
  "qr_active (fst (expireSessionIfNeeded now s db)) \<Longrightarrow> expireSessionIfNeeded now s db = (s, db) \<and> qr_active s"
  by (auto simp: expireSessionIfNeeded_def qr_active_iff split: if_splits)

lemma get_cases:
  obtains (err) e where "getMessengerQrAuthSessionByClientToken h now p t db = (Inl e, db)"
  | (none) "getMessengerQrAuthSessionByClientToken h now p t db = (Inr None, db)"
  | (found) s where "s \<in> set (qd_sessions db)" "qs_provider s = p" "qs_clientTokenHash s = h (js_trim t)"
      "getMessengerQrAuthSessionByClientToken h now p t db =
         (Inr (Some (fst (expireSessionIfNeeded now s db))), snd (expireSessionIfNeeded now s db))"
proof (cases "js_trim t = []")
  case True
  then show thesis using err by (simp add: getMessengerQrAuthSessionByClientToken_def)
next
  case tok: False
  show thesis
  proof (cases "List.find (\<lambda>s. qs_provider s = p \<and> qs_clientTokenHash s = h (js_trim t)) (qd_sessions db)")
    case None
    then show thesis using none tok by (simp add: getMessengerQrAuthSessionByClientToken_def)
  next
    case (Some s)
    then show thesis
      using found [of s] tok find_SomeD [OF Some]
      by (simp add: getMessengerQrAuthSessionByClientToken_def split_beta)
  qed
qed

lemma get_rows: "qr_wf db \<Longrightarrow> qr_rows db (snd (getMessengerQrAuthSessionByClientToken h now p t db))"
  by (cases rule: get_cases [of h now p t db]) (simp_all add: expire_rows)

lemma cancel_rows:
  assumes wf: "qr_wf db"
  shows "qr_rows db (snd (cancelMessengerQrAuthSessionByClientToken h now p t db))"
proof (cases rule: get_cases [of h now p t db])
  case (found s)
  have "qr_row_ok s" using wf found(1) by (simp add: qr_wf_def)
  then have "qr_row_next s (close_qr now Q_CANCELLED ''CANCELLED_BY_USER'' s)" if "qr_active s"
    using that by (auto simp: qr_row_next_def qr_row_ok_def qr_active_iff)
  then show ?thesis
    using wf found(1,4) expire_active [of now s db] expire_rows [OF wf found(1), of now]
    by (cases "qr_active (fst (expireSessionIfNeeded now s db))")
      (auto simp: cancelMessengerQrAuthSessionByClientToken_def qr_wf_def intro!: update_by_id)
qed (simp_all add: cancelMessengerQrAuthSessionByClientToken_def)

lemma bind_rows:
  assumes wf: "qr_wf db"
  shows "qr_rows db (snd (bindMessengerQrAuthSessionByStartToken h now p t m c n db))"
proof (cases "js_trim t = [] \<or> \<not> truthy_int (parseBigInt (Some m)) \<or>
    List.find (\<lambda>s. qs_provider s = p \<and> qs_startTokenHash s = h (js_trim t)) (qd_sessions db) = None")
  case True
  then have "snd (bindMessengerQrAuthSessionByStartToken h now p t m c n db) = db"
    by (elim disjE) (simp_all add: bindMessengerQrAuthSessionByStartToken_def Let_def)
  then show ?thesis by simp
next
  case False
  then obtain s where find: "List.find (\<lambda>s. qs_provider s = p \<and> qs_startTokenHash s = h (js_trim t)) (qd_sessions db) = Some s"
    by auto
  have s: "s \<in> set (qd_sessions db)" using find_SomeD [OF find] by simp
  have ok: "qr_row_ok s" using wf s by (simp add: qr_wf_def)
  obtain k where k: "parseBigInt (Some m) = Some k"
    using False by (auto simp: truthy_int_def split: option.splits)
  have next_: "qr_row_next s (s\<lparr>qs_messengerUserId := Some k, qs_messengerChatId := parseBigInt c,
      qs_messengerUsername := js_or n None, qs_status := Q_AWAITING_CONTACT, qs_failureReason := None,
      qs_updatedAt := now\<rparr>)" if "qr_active s"
    unfolding qr_row_next_def
    by (rule disjI2) (use ok that [unfolded qr_active_iff] in \<open>auto simp: qr_row_ok_def\<close>)
  show ?thesis
  proof (cases "qr_active (fst (expireSessionIfNeeded now s db))")
    case True
    have e: "expireSessionIfNeeded now s db = (s, db)" and act: "qr_active s"
      using expire_active [OF True] by simp_all
    let ?f = "\<lambda>r. r\<lparr>qs_messengerUserId := Some k, qs_messengerChatId := parseBigInt c,
      qs_messengerUsername := js_or n None, qs_status := Q_AWAITING_CONTACT, qs_failureReason := None,
      qs_updatedAt := now\<rparr>"
    have "snd (bindMessengerQrAuthSessionByStartToken h now p t m c n db) = write_qr (qs_id s) ?f db"
      using False act by (simp add: bindMessengerQrAuthSessionByStartToken_def Let_def find k e)
    moreover have "list_all2 qr_row_next (qd_sessions db) (update_where (\<lambda>r. qs_id r = qs_id s) ?f (qd_sessions db))"
      by (rule update_by_id) (use wf s next_ [OF act] in \<open>simp_all add: qr_wf_def\<close>)
    ultimately show ?thesis by simp
  next
    case na: False
    then show ?thesis
      using expire_rows [OF wf s, of now] False
      by (simp add: bindMessengerQrAuthSessionByStartToken_def Let_def find split_beta)
  qed
qed

lemma latest_active:
  assumes "getLatestActiveMessengerQrAuthSessionByMessengerUser now p m db = Some s"
  shows "s \<in> set (qd_sessions db)" and "qr_active s" and "qs_messengerUserId s \<noteq> None"
    and "now < qs_expiresAt s" and "qs_messengerUserId s = parseBigInt (Some m)" and "qs_provider s = p"
proof -
  from assms have m: "truthy_int (parseBigInt (Some m))"
    and f: "find_latest qs_updatedAt (\<lambda>s. qs_provider s = p \<and> qs_messengerUserId s = parseBigInt (Some m) \<and>
      qr_active s \<and> now < qs_expiresAt s) (qd_sessions db) = Some s"
    by (auto simp: getLatestActiveMessengerQrAuthSessionByMessengerUser_def Let_def split: if_splits)
  show "s \<in> set (qd_sessions db)" "qr_active s" "now < qs_expiresAt s"
    "qs_messengerUserId s = parseBigInt (Some m)" "qs_provider s = p"
    using find_latest_SomeD [OF f] by simp_all
  then show "qs_messengerUserId s \<noteq> None" using m by (auto simp: truthy_int_def split: option.splits)
qed

lemma latest_awaiting:
  assumes "qr_wf db" and "getLatestActiveMessengerQrAuthSessionByMessengerUser now p m db = Some s"
  shows "qs_status s = Q_AWAITING_CONTACT" and "qr_row_ok s"
proof -
  show ok: "qr_row_ok s" using assms(1) latest_active(1) [OF assms(2)] by (simp add: qr_wf_def)
  show "qs_status s = Q_AWAITING_CONTACT"
    using ok latest_active(2,3) [OF assms(2)] by (auto simp: qr_row_ok_def qr_active_iff)
qed

lemma verify_rows:
  assumes wf: "qr_wf db"
  shows "qr_rows db (snd (markLatestMessengerQrAuthSessionVerified now p m u n db))"
proof (cases "getLatestActiveMessengerQrAuthSessionByMessengerUser now p m db")
  case None
  then show ?thesis by (simp add: markLatestMessengerQrAuthSessionVerified_def)
next
  case (Some s)
  have "qr_row_next s (s\<lparr>qs_status := Q_VERIFIED, qs_resolvedUserId := Some u, qs_messengerUsername := x,
      qs_failureReason := None, qs_verifiedAt := Some now, qs_updatedAt := now\<rparr>)" for x
    using latest_awaiting [OF wf Some] latest_active(3) [OF Some] by (simp add: qr_row_next_def qr_row_ok_def)
  then show ?thesis
    using wf latest_active(1) [OF Some]
    by (simp add: markLatestMessengerQrAuthSessionVerified_def Some Let_def qr_wf_def update_by_id)
qed

lemma fail_rows:
  assumes wf: "qr_wf db"
  shows "qr_rows db (snd (markLatestMessengerQrAuthSessionFailed now p m r n db))"
proof (cases "getLatestActiveMessengerQrAuthSessionByMessengerUser now p m db")
  case None
  then show ?thesis by (simp add: markLatestMessengerQrAuthSessionFailed_def)
next
  case (Some s)
  have "qr_row_next s (s\<lparr>qs_status := Q_FAILED, qs_failureReason := Some r, qs_messengerUsername := x,
      qs_updatedAt := now\<rparr>)" for x
    using latest_awaiting [OF wf Some] latest_active(3) [OF Some] by (simp add: qr_row_next_def qr_row_ok_def)
  then show ?thesis
    using wf latest_active(1) [OF Some]
    by (simp add: markLatestMessengerQrAuthSessionFailed_def Some Let_def qr_wf_def update_by_id)
qed

lemma consume_rows:
  assumes wf: "qr_wf db"
  shows "qr_rows db (snd (consumeMessengerQrAuthSession now i db))"
proof -
  have "qr_row_next s (s\<lparr>qs_status := Q_CONSUMED, qs_consumedAt := Some now, qs_updatedAt := now\<rparr>)"
    if "s \<in> set (qd_sessions db)" "qs_status s = Q_VERIFIED" for s
    using that wf by (auto simp: qr_row_next_def qr_row_ok_def qr_wf_def)
  then have "list_all2 qr_row_next (qd_sessions db) (update_where (\<lambda>s. qs_id s = js_trim i \<and> qs_status s = Q_VERIFIED)
      (\<lambda>s. s\<lparr>qs_status := Q_CONSUMED, qs_consumedAt := Some now, qs_updatedAt := now\<rparr>) (qd_sessions db))"
    by (auto simp: update_where_def list_all2_map2 list_all2_same)
  then show ?thesis by (simp add: consumeMessengerQrAuthSession_def Let_def list_all2_same)
qed

lemma start_rows:
  obtains (same) "snd (startMessengerQrAuthSession env h i st ct now p db) = db"
  | (new) s where "qd_sessions (snd (startMessengerQrAuthSession env h i st ct now p db)) = qd_sessions db @ [s]"
      "qd_issued (snd (startMessengerQrAuthSession env h i st ct now p db)) = qd_issued db"
      "qs_status s = Q_PENDING" "qr_row_ok s" "qs_id s \<notin> qs_id ` set (qd_sessions db)"
proof -
  let ?r = "snd (startMessengerQrAuthSession env h i st ct now p db)"
  have "?r = db \<or> (\<exists>s. qd_sessions ?r = qd_sessions db @ [s] \<and> qd_issued ?r = qd_issued db \<and>
      qs_status s = Q_PENDING \<and> qr_row_ok s \<and> qs_id s \<notin> qs_id ` set (qd_sessions db))"
    by (auto simp: startMessengerQrAuthSession_def qr_row_ok_def split: option.splits sum.splits)
  then show thesis using that by blast
qed

fun is_start_qr :: "qr_op \<Rightarrow> bool" where
  "is_start_qr (StartQr i st ct now p) = True"
| "is_start_qr _ = False"

lemma qr_step_old: "qr_wf db \<Longrightarrow> \<not> is_start_qr a \<Longrightarrow> qr_rows db (qr_step env h a db)"
  by (cases a) (simp_all add: get_rows cancel_rows bind_rows verify_rows fail_rows)

lemma qr_step_rows:
  assumes "qr_wf db"
  obtains rs new where "qd_sessions (qr_step env h a db) = rs @ new" and "list_all2 qr_row_next (qd_sessions db) rs"
    and "\<forall>s \<in> set new. qs_status s = Q_PENDING"
proof (cases a)
  case (StartQr i st ct now p)
  show thesis
  proof (cases rule: start_rows [of env h i st ct now p db])
    case same
    then show thesis using that [of "qd_sessions db" "[]"] StartQr by (simp add: list_all2_same)
  next
    case (new s)
    then show thesis using that [of "qd_sessions db" "[s]"] StartQr by (simp add: list_all2_same)
  qed
qed (use that [of "qd_sessions (qr_step env h a db)" "[]"] qr_step_old [OF assms, of a env h] in auto)

lemma qr_rows_keep_wf: "qr_wf db \<Longrightarrow> qr_rows db db' \<Longrightarrow> qr_wf db'"
  using qr_rows_wf unfolding qr_wf_def by blast

lemma qr_step_wf:
  assumes wf: "qr_wf db"
  shows "qr_wf (qr_step env h a db)"
proof (cases "is_start_qr a")
  case True
  then obtain i st ct now p where a: "a = StartQr i st ct now p" by (cases a) auto
  show ?thesis
    by (cases rule: start_rows [of env h i st ct now p db]) (use wf in \<open>auto simp: a qr_wf_def\<close>)
next
  case False
  then show ?thesis using wf qr_step_old qr_rows_keep_wf by blast
qed

section \<open>Reachable states\<close>

text \<open>
  The requests as a step relation: a handler call, or the completion of a poll that may have begun
  in any earlier state.
\<close>

inductive qr_trans :: "bot_env \<Rightarrow> (string \<Rightarrow> string) \<Rightarrow> (user_id \<Rightarrow> bool) \<Rightarrow> qr_db \<Rightarrow> qr_db \<Rightarrow> bool"
  for env h known where
  call: "qr_trans env h known db (qr_step env h a db)"
| complete: "qr_trans env h known db (snd (qr_poll_end known now p db))"

inductive qr_reachable :: "bot_env \<Rightarrow> (string \<Rightarrow> string) \<Rightarrow> (user_id \<Rightarrow> bool) \<Rightarrow> qr_db \<Rightarrow> bool"
  for env h known where
  init: "qr_reachable env h known \<lparr>qd_sessions = [], qd_issued = us\<rparr>"
| step: "qr_reachable env h known db \<Longrightarrow> qr_trans env h known db db' \<Longrightarrow> qr_reachable env h known db'"

inductive_cases qr_transE: "qr_trans env h known db db'"

lemma issue_tables [simp]: "qr_wf (db\<lparr>qd_issued := us\<rparr>) = qr_wf db"
  by (simp add: qr_wf_def)

lemma poll_end_rows: "qr_wf db \<Longrightarrow> qr_rows db (snd (qr_poll_end known now p db))"
  using consume_rows [of "db\<lparr>qd_issued := us\<rparr>" for us]
  by (auto simp: qr_poll_end_def split: qr_poll.splits)

lemma qr_trans_rows:
  assumes "qr_trans env h known db db'" and wf: "qr_wf db"
  obtains rs new where "qd_sessions db' = rs @ new" and "list_all2 qr_row_next (qd_sessions db) rs"
    and "\<forall>s \<in> set new. qs_status s = Q_PENDING"
  using assms(1)
proof cases
  case (call a)
  then show thesis using qr_step_rows [OF wf, of env h a] that by metis
next
  case (complete now p)
  then show thesis using that [of "qd_sessions db'" "[]"] poll_end_rows [OF wf, of known now p] by simp
qed

lemma qr_trans_wf: "qr_trans env h known db db' \<Longrightarrow> qr_wf db \<Longrightarrow> qr_wf db'"
  by (erule qr_transE) (auto intro: qr_step_wf qr_rows_keep_wf poll_end_rows)

lemma qr_reachable_wf: "qr_reachable env h known db \<Longrightarrow> qr_wf db"
proof (induction rule: qr_reachable.induct)
  case (init us)
  show ?case by (simp add: qr_wf_def)
next
  case (step db db')
  then show ?case using qr_trans_wf by blast
qed

section \<open>A session is consumed at most once\<close>

definition rows_of :: "string \<Rightarrow> qr_db \<Rightarrow> qr_session list" where
  "rows_of k db = filter (\<lambda>s. qs_id s = k) (qd_sessions db)"

definition qr_spent :: "string \<Rightarrow> qr_db \<Rightarrow> bool" where
  "qr_spent k db \<longleftrightarrow> rows_of (js_trim k) db \<noteq> [] \<and> (\<forall>s \<in> set (rows_of (js_trim k) db). qs_status s = Q_CONSUMED)"

lemma filter_update_other:
  assumes "\<And>s. s \<in> set rs \<Longrightarrow> p s \<Longrightarrow> qs_id s \<noteq> k" and "\<And>s. qs_id (f s) = qs_id s"
  shows "filter (\<lambda>s. qs_id s = k) (update_where p f rs) = filter (\<lambda>s. qs_id s = k) rs"
  using assms(1) by (induction rs) (auto simp: update_where_def assms(2))

lemma write_qr_other:
  "i \<noteq> k \<Longrightarrow> (\<And>s. qs_id (f s) = qs_id s) \<Longrightarrow> rows_of k (write_qr i f db) = rows_of k db"
  unfolding rows_of_def write_qr_tables by (rule filter_update_other) auto

lemma settled_id: "\<forall>s \<in> set (rows_of k db). \<not> qr_active s \<Longrightarrow> s \<in> set (qd_sessions db) \<Longrightarrow> qr_active s \<Longrightarrow> qs_id s \<noteq> k"
  by (auto simp: rows_of_def)

lemma expire_settled:
  assumes "\<forall>s \<in> set (rows_of k db). \<not> qr_active s" and "s \<in> set (qd_sessions db)"
  shows "rows_of k (snd (expireSessionIfNeeded now s db)) = rows_of k db"
  using settled_id [OF assms] by (auto simp: expireSessionIfNeeded_def intro!: write_qr_other)

lemma get_settled:
  assumes "\<forall>s \<in> set (rows_of k db). \<not> qr_active s"
  shows "rows_of k (snd (getMessengerQrAuthSessionByClientToken h now p t db)) = rows_of k db"
  by (cases rule: get_cases [of h now p t db]) (simp_all add: expire_settled [OF assms])

lemma cancel_settled:
  assumes set: "\<forall>s \<in> set (rows_of k db). \<not> qr_active s"
  shows "rows_of k (snd (cancelMessengerQrAuthSessionByClientToken h now p t db)) = rows_of k db"
proof (cases rule: get_cases [of h now p t db])
  case (found s)
  show ?thesis
  proof (cases "qr_active (fst (expireSessionIfNeeded now s db))")
    case True
    then have "expireSessionIfNeeded now s db = (s, db)" "qr_active s" using expire_active by blast+
    moreover have "qs_id s \<noteq> k" using settled_id [OF set found(1)] \<open>qr_active s\<close> by simp
    ultimately show ?thesis
      using found(4) by (simp add: cancelMessengerQrAuthSessionByClientToken_def write_qr_other)
  next
    case False
    then show ?thesis
      using found(4) expire_settled [OF set found(1)] by (simp add: cancelMessengerQrAuthSessionByClientToken_def)
  qed
qed (simp_all add: cancelMessengerQrAuthSessionByClientToken_def)

lemma bind_settled:
  assumes set: "\<forall>s \<in> set (rows_of k db). \<not> qr_active s"
  shows "rows_of k (snd (bindMessengerQrAuthSessionByStartToken h now p t m c n db)) = rows_of k db"
proof (cases "js_trim t = [] \<or> \<not> truthy_int (parseBigInt (Some m)) \<or>
    List.find (\<lambda>s. qs_provider s = p \<and> qs_startTokenHash s = h (js_trim t)) (qd_sessions db) = None")
  case True
  then have "snd (bindMessengerQrAuthSessionByStartToken h now p t m c n db) = db"
    by (elim disjE) (simp_all add: bindMessengerQrAuthSessionByStartToken_def Let_def)
  then show ?thesis by simp
next
  case False
  then obtain s where find: "List.find (\<lambda>s. qs_provider s = p \<and> qs_startTokenHash s = h (js_trim t)) (qd_sessions db) = Some s"
    by auto
  have s: "s \<in> set (qd_sessions db)" using find_SomeD [OF find] by simp
  show ?thesis
  proof (cases "qr_active (fst (expireSessionIfNeeded now s db))")
    case True
    then have "expireSessionIfNeeded now s db = (s, db)" "qr_active s" using expire_active by blast+
    moreover have "qs_id s \<noteq> k" using settled_id [OF set s] \<open>qr_active s\<close> by simp
    ultimately show ?thesis
      using False by (simp add: bindMessengerQrAuthSessionByStartToken_def Let_def find write_qr_other)
  next
    case na: False
    then show ?thesis
      using expire_settled [OF set s, of now] False
      by (simp add: bindMessengerQrAuthSessionByStartToken_def Let_def find split_beta)
  qed
qed

lemma latest_settled:
  assumes "\<forall>s \<in> set (rows_of k db). \<not> qr_active s"
    and "getLatestActiveMessengerQrAuthSessionByMessengerUser now p m db = Some s"
  shows "qs_id s \<noteq> k"
  using settled_id [OF assms(1)] latest_active(1,2) [OF assms(2)] by simp

lemma verify_settled:
  assumes "\<forall>s \<in> set (rows_of k db). \<not> qr_active s"
  shows "rows_of k (snd (markLatestMessengerQrAuthSessionVerified now p m u n db)) = rows_of k db"
  using latest_settled [OF assms, of now p m]
  by (cases "getLatestActiveMessengerQrAuthSessionByMessengerUser now p m db")
    (simp_all add: markLatestMessengerQrAuthSessionVerified_def Let_def write_qr_other)

lemma fail_settled:
  assumes "\<forall>s \<in> set (rows_of k db). \<not> qr_active s"
  shows "rows_of k (snd (markLatestMessengerQrAuthSessionFailed now p m r n db)) = rows_of k db"
  using latest_settled [OF assms, of now p m]
  by (cases "getLatestActiveMessengerQrAuthSessionByMessengerUser now p m db")
    (simp_all add: markLatestMessengerQrAuthSessionFailed_def Let_def write_qr_other)

lemma start_settled:
  assumes "rows_of k db \<noteq> []"
  shows "rows_of k (snd (startMessengerQrAuthSession env h i st ct now p db)) = rows_of k db"
proof (cases rule: start_rows [of env h i st ct now p db])
  case (new s)
  have "k \<in> qs_id ` set (qd_sessions db)" using assms by (auto simp: rows_of_def filter_empty_conv)
  then show ?thesis using new(1,5) by (auto simp: rows_of_def)
qed simp

lemma qr_step_settled:
  assumes "\<forall>s \<in> set (rows_of k db). \<not> qr_active s" and "rows_of k db \<noteq> []"
  shows "rows_of k (qr_step env h a db) = rows_of k db"
  using assms
  by (cases a) (simp_all add: start_settled get_settled cancel_settled bind_settled verify_settled fail_settled)

lemma consume_settled:
  assumes "\<forall>s \<in> set (rows_of k db). qs_status s \<noteq> Q_VERIFIED"
  shows "rows_of k (snd (consumeMessengerQrAuthSession now i db)) = rows_of k db"
proof -
  have "filter (\<lambda>s. qs_id s = k) (update_where (\<lambda>s. qs_id s = js_trim i \<and> qs_status s = Q_VERIFIED) f (qd_sessions db)) =
      filter (\<lambda>s. qs_id s = k) (qd_sessions db)" if "\<And>s. qs_id (f s) = qs_id s" for f
    by (rule filter_update_other) (use assms that in \<open>auto simp: rows_of_def\<close>)
  then show ?thesis by (simp add: consumeMessengerQrAuthSession_def Let_def rows_of_def)
qed

lemma consume_refused:
  assumes "\<forall>s \<in> set (rows_of (js_trim k) db). qs_status s \<noteq> Q_VERIFIED"
  shows "\<not> fst (consumeMessengerQrAuthSession now k db)"
proof -
  have "count_where (\<lambda>s. qs_id s = js_trim k \<and> qs_status s = Q_VERIFIED) (qd_sessions db) = 0"
    using assms by (auto simp: count_where_def rows_of_def filter_empty_conv)
  then show ?thesis by (simp add: consumeMessengerQrAuthSession_def Let_def)
qed

lemma consume_spends:
  assumes wf: "qr_wf db" and hit: "fst (consumeMessengerQrAuthSession now k db)"
  shows "qr_spent k (snd (consumeMessengerQrAuthSession now k db))"
proof -
  let ?p = "\<lambda>s. qs_id s = js_trim k \<and> qs_status s = Q_VERIFIED"
  from hit have ne: "js_trim k \<noteq> []" and "0 < count_where ?p (qd_sessions db)"
    by (auto simp: consumeMessengerQrAuthSession_def Let_def split: if_splits)
  then obtain s where s: "s \<in> set (qd_sessions db)" "qs_id s = js_trim k" "qs_status s = Q_VERIFIED"
    by (auto simp: count_where_pos)
  have only: "r = s" if "r \<in> set (qd_sessions db)" "qs_id r = js_trim k" for r
    using that s wf distinct_key_eq [of qs_id "qd_sessions db" r s] by (simp add: qr_wf_def)
  let ?f = "\<lambda>s. s\<lparr>qs_status := Q_CONSUMED, qs_consumedAt := Some now, qs_updatedAt := now\<rparr>"
  have after: "qd_sessions (snd (consumeMessengerQrAuthSession now k db)) = update_where ?p ?f (qd_sessions db)"
    using ne by (simp add: consumeMessengerQrAuthSession_def Let_def)
  have "?f s \<in> set (update_where ?p ?f (qd_sessions db))" using s by (intro update_where_hit) simp_all
  then have "?f s \<in> set (rows_of (js_trim k) (snd (consumeMessengerQrAuthSession now k db)))"
    using s by (simp add: rows_of_def after)
  moreover have "qs_status r = Q_CONSUMED" if r: "r \<in> set (update_where ?p ?f (qd_sessions db))" "qs_id r = js_trim k" for r
  proof -
    obtain x where x: "x \<in> set (qd_sessions db)" "r = (if ?p x then ?f x else x)"
      using r(1) by (auto simp: update_where_def)
    then have "x = s" using r(2) only by (simp split: if_splits)
    then show ?thesis using x s by simp
  qed
  ultimately show ?thesis unfolding qr_spent_def by (metis (mono_tags, lifting) after empty_iff empty_set mem_Collect_eq rows_of_def set_filter)
qed

interpretation qs: one_shot consumeMessengerQrAuthSession "qr_step env h" qr_wf qr_spent
  for env :: bot_env and h :: "string \<Rightarrow> string"
proof
  fix d t k k' and a :: qr_op
  assume wf: "qr_wf d"
  show "qr_wf (snd (consumeMessengerQrAuthSession t k d))"
    using wf consume_rows qr_rows_keep_wf by blast
  show "qr_wf (qr_step env h a d)" using wf by (rule qr_step_wf)
  show "qr_spent k (snd (consumeMessengerQrAuthSession t k d))" if "fst (consumeMessengerQrAuthSession t k d)"
    using that consume_spends [OF wf] by simp
  assume spent: "qr_spent k d"
  then show "\<not> fst (consumeMessengerQrAuthSession t k d)"
    by (intro consume_refused) (auto simp: qr_spent_def)
  have "rows_of (js_trim k) (snd (consumeMessengerQrAuthSession t k' d)) = rows_of (js_trim k) d"
    by (rule consume_settled) (use spent in \<open>auto simp: qr_spent_def\<close>)
  then show "qr_spent k (snd (consumeMessengerQrAuthSession t k' d))" using spent by (simp add: qr_spent_def)
  have "rows_of (js_trim k) (qr_step env h a d) = rows_of (js_trim k) d"
    by (rule qr_step_settled) (use spent in \<open>auto simp: qr_spent_def ACTIVE_PENDING_STATUSES_def\<close>)
  then show "qr_spent k (qr_step env h a d)" using spent by (simp add: qr_spent_def)
qed

section \<open>Properties\<close>

definition demo_qr_row :: qr_session where
  "demo_qr_row = \<lparr>qs_id = ''q1'', qs_provider = TELEGRAM, qs_startTokenHash = ''st'', qs_clientTokenHash = ''ct'',
     qs_status = Q_VERIFIED, qs_messengerUserId = Some 55, qs_messengerChatId = None,
     qs_messengerUsername = None, qs_resolvedUserId = Some 7, qs_failureReason = None,
     qs_expiresAt = 1000, qs_verifiedAt = Some 100, qs_consumedAt = None, qs_createdAt = 0, qs_updatedAt = 100\<rparr>"

definition demo_bots :: bot_env where
  "demo_bots = \<lparr>TELEGRAM_BOT_TOKEN = None, TELEGRAM_BOT_USERNAME = None, MAX_BOT_TOKEN = None,
     MAX_BOT_USERNAME = None\<rparr>"

definition demo_qr :: qr_db where
  "demo_qr = \<lparr>qd_sessions = [demo_qr_row], qd_issued = []\<rparr>"

lemma demo_qr_wf: "qr_wf demo_qr"
  by (simp add: qr_wf_def demo_qr_def demo_qr_row_def qr_row_ok_def)

lemma demo_qr_trim: "js_trim ''q1'' = ''q1''" "js_trim ''ct'' = ''ct''"
  by (simp_all add: js_trim_def js_space_def)

text \<open>The poll that signs a user in found the session of its token verified for that user.\<close>

lemma poll_begin_sign_in:
  assumes "qr_poll_begin h now p t db = (SignIn i u, db')"
  obtains s where "db' = db" "s \<in> set (qd_sessions db)" "js_trim t \<noteq> []"
    "List.find (\<lambda>s. qs_provider s = p \<and> qs_clientTokenHash s = h (js_trim t)) (qd_sessions db) = Some s"
    "qs_status s = Q_VERIFIED" "qs_resolvedUserId s = Some u" "u \<noteq> 0" "qs_id s = i"
proof -
  have ne: "js_trim t \<noteq> []"
    using assms by (auto simp: qr_poll_begin_def getMessengerQrAuthSessionByClientToken_def)
  obtain s where find: "List.find (\<lambda>s. qs_provider s = p \<and> qs_clientTokenHash s = h (js_trim t)) (qd_sessions db) = Some s"
    using assms ne
    by (cases "List.find (\<lambda>s. qs_provider s = p \<and> qs_clientTokenHash s = h (js_trim t)) (qd_sessions db)")
      (simp_all add: qr_poll_begin_def getMessengerQrAuthSessionByClientToken_def)
  have mem: "s \<in> set (qd_sessions db)" using find_SomeD [OF find] by simp
  have v: "qs_status s = Q_VERIFIED"
    using assms ne find
    by (auto simp: qr_poll_begin_def getMessengerQrAuthSessionByClientToken_def expireSessionIfNeeded_def split: if_splits)
  have "qr_poll_begin h now p t db = (if \<not> truthy_int (qs_resolvedUserId s) then (Reply QR_USER_UNDEFINED, db)
      else (SignIn (qs_id s) (the (qs_resolvedUserId s)), db))"
    using ne find v
    by (simp add: qr_poll_begin_def getMessengerQrAuthSessionByClientToken_def expireSessionIfNeeded_def
        ACTIVE_PENDING_STATUSES_def)
  with assms have "truthy_int (qs_resolvedUserId s)" "db' = db" "qs_id s = i" "the (qs_resolvedUserId s) = u"
    by (simp_all split: if_splits)
  then show thesis
    using that [of s] find mem v ne by (auto simp: truthy_int_def split: option.splits)
qed

lemma poll_begin_no_auth: "fst (qr_poll_begin h now p t db) \<noteq> Reply (QR_AUTHORIZED u)"
  by (cases rule: get_cases [of h now p t db]) (simp_all add: qr_poll_begin_def)



text \<open>
  Single consumption.  However the other handlers are interleaved with them, at most one of any
  number of consumption requests for a session succeeds.
\<close>

theorem qr_consume_once:
  assumes "qr_wf db"
  shows "qs.successes env h k es db \<le> 1"
  using assms by (rule qs.at_most_once)

theorem qr_consume_once_witness:
  "qs.successes demo_bots id ''q1'' [Redeem 5 ''q1'', Env (CancelQr 6 TELEGRAM ''ct''), Redeem 7 ''q1''] demo_qr = 1"
proof -
  let ?es = "[Env (CancelQr 6 TELEGRAM ''ct''), Redeem 7 ''q1'']"
  have "fst (consumeMessengerQrAuthSession 5 ''q1'' demo_qr)"
    by (simp add: consumeMessengerQrAuthSession_def demo_qr_def demo_qr_row_def count_where_def demo_qr_trim Let_def)
  then have "1 \<le> qs.successes demo_bots id ''q1'' (Redeem 5 ''q1'' # ?es) demo_qr" by simp
  with qr_consume_once [OF demo_qr_wf, of demo_bots id "''q1''" "Redeem 5 ''q1'' # ?es"] show ?thesis by linarith
qed

text \<open>
  C9: A poll signs a user in only for the session its token belongs to, only when that session is
  verified and names that user, and only if the user exists; the session is consumed by the same
  request, so that the next poll with the token reports the consumption and issues nothing.
\<close>

theorem qr_login_sound:
  assumes wf: "qr_wf db" and trimmed: "\<And>s. s \<in> set (qd_sessions db) \<Longrightarrow> js_trim (qs_id s) = qs_id s \<and> qs_id s \<noteq> []"
    and poll: "handleQrAuthStatus h known now p t db = (QR_AUTHORIZED u, db')"
  shows "known u \<and> qd_issued db' = qd_issued db @ [u] \<and>
    (\<exists>s \<in> set (qd_sessions db). qs_provider s = p \<and> qs_clientTokenHash s = h (js_trim t) \<and>
       qs_status s = Q_VERIFIED \<and> qs_resolvedUserId s = Some u) \<and>
    (\<exists>why. handleQrAuthStatus h known later p t db' = (QR_STATE P_CONSUMED why, db'))"
proof -
  obtain i where b: "qr_poll_begin h now p t db = (SignIn i u, snd (qr_poll_begin h now p t db))" and k: "known u"
    and e: "qr_poll_end known now (SignIn i u) (snd (qr_poll_begin h now p t db)) = (QR_AUTHORIZED u, db')"
    using poll poll_begin_no_auth [of h now p t db u]
    by (cases "qr_poll_begin h now p t db"; cases "fst (qr_poll_begin h now p t db)")
      (simp_all add: handleQrAuthStatus_def qr_poll_end_def split: if_splits)
  obtain s where s: "snd (qr_poll_begin h now p t db) = db" "s \<in> set (qd_sessions db)" "js_trim t \<noteq> []"
    and find: "List.find (\<lambda>s. qs_provider s = p \<and> qs_clientTokenHash s = h (js_trim t)) (qd_sessions db) = Some s"
    and v: "qs_status s = Q_VERIFIED" "qs_resolvedUserId s = Some u" "qs_id s = i"
    by (rule poll_begin_sign_in [OF b]) blast
  let ?f = "\<lambda>s. s\<lparr>qs_status := Q_CONSUMED, qs_consumedAt := Some now, qs_updatedAt := now\<rparr>"
  let ?p = "\<lambda>s. qs_id s = i \<and> qs_status s = Q_VERIFIED"
  have db': "db' = db\<lparr>qd_issued := qd_issued db @ [u], qd_sessions := update_where ?p ?f (qd_sessions db)\<rparr>"
    using e k trimmed [OF s(2)] v(3) unfolding s(1)
    by (simp add: qr_poll_end_def consumeMessengerQrAuthSession_def Let_def)
  have "List.find (\<lambda>s. qs_provider s = p \<and> qs_clientTokenHash s = h (js_trim t)) (qd_sessions db') = Some (?f s)"
    unfolding db' using find v by (simp add: find_update_where)
  then have "handleQrAuthStatus h known later p t db' = (QR_STATE P_CONSUMED (qs_failureReason s), db')"
    using s(3)
    by (simp add: handleQrAuthStatus_def qr_poll_begin_def getMessengerQrAuthSessionByClientToken_def
        expireSessionIfNeeded_def ACTIVE_PENDING_STATUSES_def qr_poll_end_def mapQrSessionState_def)
  moreover have "qs_provider s = p \<and> qs_clientTokenHash s = h (js_trim t)" using find_SomeD [OF find] by simp
  ultimately show ?thesis using k s(2) v by (auto simp: db')
qed

theorem qr_login_sound_witness:
  "\<exists>db' why. handleQrAuthStatus id (\<lambda>_. True) 200 TELEGRAM ''ct'' demo_qr = (QR_AUTHORIZED 7, db') \<and>
     handleQrAuthStatus id (\<lambda>_. True) 300 TELEGRAM ''ct'' db' = (QR_STATE P_CONSUMED why, db')"
proof -
  let ?r = "handleQrAuthStatus id (\<lambda>_. True) 200 TELEGRAM ''ct'' demo_qr"
  have "?r = (QR_AUTHORIZED 7, snd ?r)"
    by (simp add: handleQrAuthStatus_def qr_poll_begin_def getMessengerQrAuthSessionByClientToken_def demo_qr_def
        demo_qr_row_def demo_qr_trim expireSessionIfNeeded_def ACTIVE_PENDING_STATUSES_def qr_poll_end_def truthy_int_def Let_def)
  with qr_login_sound [OF demo_qr_wf _ this, of 300] show ?thesis
    by (auto simp: demo_qr_def demo_qr_row_def demo_qr_trim)
qed

text \<open>
  Two polls that both read the verified session before either completes sign the user in twice:
  the handler issues tokens before it consumes the session and ignores whether the consumption
  succeeded.
\<close>

theorem qr_double_issue:
  assumes b: "qr_poll_begin h n1 p t db = (SignIn i u, db1)" and k: "known u"
    and e1: "qr_poll_end known n3 (SignIn i u) (snd (qr_poll_begin h n2 p t db1)) = (r1, db2)"
    and e2: "qr_poll_end known n4 (fst (qr_poll_begin h n2 p t db1)) db2 = (r2, db3)"
  shows "r1 = QR_AUTHORIZED u \<and> r2 = QR_AUTHORIZED u \<and> qd_issued db3 = qd_issued db @ [u, u]"
proof -
  obtain s where s: "db1 = db" "js_trim t \<noteq> []"
    and find: "List.find (\<lambda>s. qs_provider s = p \<and> qs_clientTokenHash s = h (js_trim t)) (qd_sessions db) = Some s"
    and v: "qs_status s = Q_VERIFIED" "qs_resolvedUserId s = Some u" "u \<noteq> 0" "qs_id s = i"
    by (rule poll_begin_sign_in [OF b]) blast
  have b2: "qr_poll_begin h n2 p t db = (SignIn i u, db)"
    using s(2) find v
    by (simp add: qr_poll_begin_def getMessengerQrAuthSessionByClientToken_def expireSessionIfNeeded_def
        ACTIVE_PENDING_STATUSES_def truthy_int_def)
  have issued: "qd_issued (snd (consumeMessengerQrAuthSession n j d)) = qd_issued d" for n j d
    by (simp add: consumeMessengerQrAuthSession_def Let_def)
  show ?thesis using e1 e2 k by (auto simp: b2 s(1) qr_poll_end_def issued)
qed

theorem qr_double_issue_witness:
  "\<exists>db2 db3. qr_poll_end (\<lambda>_. True) 3 (SignIn ''q1'' 7) demo_qr = (QR_AUTHORIZED 7, db2) \<and>
     qr_poll_end (\<lambda>_. True) 4 (fst (qr_poll_begin id 2 TELEGRAM ''ct'' demo_qr)) db2 = (QR_AUTHORIZED 7, db3) \<and>
     qd_issued db3 = [7, 7]"
proof -
  have b: "qr_poll_begin id n TELEGRAM ''ct'' demo_qr = (SignIn ''q1'' 7, demo_qr)" for n
    by (simp add: qr_poll_begin_def getMessengerQrAuthSessionByClientToken_def demo_qr_def
        demo_qr_row_def demo_qr_trim expireSessionIfNeeded_def ACTIVE_PENDING_STATUSES_def truthy_int_def Let_def)
  obtain r1 db2 where e1: "qr_poll_end (\<lambda>_. True) 3 (SignIn ''q1'' 7) (snd (qr_poll_begin id 2 TELEGRAM ''ct'' demo_qr)) = (r1, db2)"
    by fastforce
  obtain r2 db3 where e2: "qr_poll_end (\<lambda>_. True) 4 (fst (qr_poll_begin id 2 TELEGRAM ''ct'' demo_qr)) db2 = (r2, db3)"
    by fastforce
  have known: "(\<lambda>_. True) (7 :: user_id)" by simp
  show ?thesis using qr_double_issue [OF b known e1 e2] e1 e2 b by (auto simp: demo_qr_def)
qed

end
