(* ===== verification/Refresh_Tokens.thy ===== *)
theory Refresh_Tokens
  imports Accounts Contracts
begin

text \<open>
  \<^verbatim>\<open>src/src/services/authRefreshTokenService.ts\<close> and the \<^verbatim>\<open>/token\<close> and
  \<^verbatim>\<open>/logout\<close> handlers of \<^verbatim>\<open>src/src/routes/auth.ts\<close>: refresh tokens are
  stored by digest, tied to a device session, and rotated: each use revokes the stored row and
  creates its successor in the same family, inside one database transaction.

  Parameters: \<open>hash\<close> is the SHA-256 digest and \<open>verify\<close> is \<^verbatim>\<open>jwt.verify\<close>
  with the refresh secret, returning the \<^verbatim>\<open>userId\<close> claim of a valid token.  The
  raw token that \<^verbatim>\<open>jwt.sign\<close> produces and the generated identifiers are arguments.
  \<open>known\<close> says which user rows exist.
\<close>

section \<open>Data\<close>

record device_info =
  di_deviceSessionId :: "string option"
  di_installId :: "string option"
  di_platform :: "string option"
  di_appVersion :: "string option"
  di_deviceName :: "string option"

record device_session =
  dv_id :: string
  dv_userId :: user_id
  dv_installId :: string
  dv_platform :: "string option"
  dv_appVersion :: "string option"
  dv_deviceName :: "string option"
  dv_createdAt :: millis
  dv_lastSeenAt :: millis
  dv_revokedAt :: "millis option"

record refresh_token =
  rt_id :: int
  rt_token :: string
  rt_tokenHash :: "string option"
  rt_userId :: user_id
  rt_deviceSessionId :: "string option"
  rt_familyId :: "string option"
  rt_replacedById :: "int option"
  rt_expiresAt :: millis
  rt_revoked :: bool
  rt_usedAt :: "millis option"
  rt_graceUntil :: "millis option"

text \<open>\<open>td_seq\<close> is the sequence that numbers the token rows.\<close>

record token_db =
  td_tokens :: "refresh_token list"
  td_devices :: "device_session list"
  td_seq :: int

text \<open>What a request that creates a token draws: raw token, device id, family id.\<close>

record token_draw =
  dr_raw :: string
  dr_device :: string
  dr_family :: string

section \<open>Device sessions\<close>

definition clean :: "string option \<Rightarrow> string option" where
  "clean v = non_empty (js_trim (or_empty v))"

definition no_device_info :: device_info where
  "no_device_info = \<lparr>di_deviceSessionId = None, di_installId = None, di_platform = None,
     di_appVersion = None, di_deviceName = None\<rparr>"

definition normalizeDeviceInfo :: "device_info option \<Rightarrow> device_info" where
  "normalizeDeviceInfo input =
     (case input of
        None \<Rightarrow> no_device_info
      | Some i \<Rightarrow> \<lparr>di_deviceSessionId = clean (di_deviceSessionId i), di_installId = clean (di_installId i),
          di_platform = clean (di_platform i), di_appVersion = clean (di_appVersion i),
          di_deviceName = clean (di_deviceName i)\<rparr>)"

definition buildDeviceInfoFromRequestBody :: "device_info option \<Rightarrow> device_info" where
  "buildDeviceInfoFromRequestBody body =
     normalizeDeviceInfo (Some (case body of None \<Rightarrow> no_device_info | Some b \<Rightarrow> b))"

definition touch_device :: "millis \<Rightarrow> device_info \<Rightarrow> bool \<Rightarrow> device_session \<Rightarrow> device_session" where
  "touch_device now info withInstall d =
     d\<lparr>dv_lastSeenAt := now,
       dv_installId := (if withInstall then or_empty (js_or (di_installId info) (Some (dv_installId d)))
                        else dv_installId d),
       dv_platform := js_or (di_platform info) (dv_platform d),
       dv_appVersion := js_or (di_appVersion info) (dv_appVersion d),
       dv_deviceName := js_or (di_deviceName info) (dv_deviceName d)\<rparr>"

definition write_device :: "string \<Rightarrow> (device_session \<Rightarrow> device_session) \<Rightarrow> token_db \<Rightarrow> token_db" where
  "write_device i f db = db\<lparr>td_devices := update_where (\<lambda>d. dv_id d = i) f (td_devices db)\<rparr>"

text \<open>The part of \<^verbatim>\<open>ensureDeviceSession\<close> that looks the device up by its installation.\<close>

definition ensure_by_install ::
  "millis \<Rightarrow> string \<Rightarrow> user_id \<Rightarrow> device_info \<Rightarrow> token_db \<Rightarrow> string option \<times> token_db" where
  "ensure_by_install now newId userId info db =
     (case di_installId info of
        None \<Rightarrow> (None, db)
      | Some installId \<Rightarrow>
         (case find_latest dv_createdAt
                 (\<lambda>d. dv_userId d = userId \<and> dv_installId d = installId \<and> dv_revokedAt d = None)
                 (td_devices db) of
            Some d \<Rightarrow> (Some (dv_id d), write_device (dv_id d) (touch_device now info False) db)
          | None \<Rightarrow>
              (Some newId,
               db\<lparr>td_devices := td_devices db @
                   [\<lparr>dv_id = newId, dv_userId = userId, dv_installId = installId,
                     dv_platform = di_platform info, dv_appVersion = di_appVersion info,
                     dv_deviceName = di_deviceName info, dv_createdAt = now, dv_lastSeenAt = now,
                     dv_revokedAt = None\<rparr>]\<rparr>)))"

definition ensureDeviceSession ::
  "millis \<Rightarrow> string \<Rightarrow> user_id \<Rightarrow> device_info option \<Rightarrow> token_db \<Rightarrow> string option \<times> token_db" where
  "ensureDeviceSession now newId userId rawInfo db =
     (let info = normalizeDeviceInfo rawInfo in
      case di_deviceSessionId info of
        None \<Rightarrow> ensure_by_install now newId userId info db
      | Some i \<Rightarrow>
         (case List.find (\<lambda>d. dv_id d = i \<and> dv_userId d = userId \<and> dv_revokedAt d = None) (td_devices db) of
            Some d \<Rightarrow> (Some (dv_id d), write_device (dv_id d) (touch_device now info True) db)
          | None \<Rightarrow> ensure_by_install now newId userId info db))"

section \<open>Creating tokens\<close>

text \<open>
  \<^verbatim>\<open>token\<close> and \<^verbatim>\<open>tokenHash\<close> are unique columns: creating a row that repeats one fails
  with \<open>None\<close>; the device session written before stays written unless a transaction rolls back.
\<close>

definition persistRefreshToken ::
  "(string \<Rightarrow> string) \<Rightarrow> millis \<Rightarrow> token_draw \<Rightarrow> user_id \<Rightarrow> millis \<Rightarrow> device_info option \<Rightarrow> string option \<Rightarrow>
   token_db \<Rightarrow> (string \<times> string option \<times> int) option \<times> token_db" where
  "persistRefreshToken hash now draw userId expiresAt deviceInfo familyId db =
     (let tokenHash = hash (dr_raw draw);
          (deviceSessionId, db1) = ensureDeviceSession now (dr_device draw) userId deviceInfo db in
      if \<exists>r \<in> set (td_tokens db1). rt_token r = tokenHash \<or> rt_tokenHash r = Some tokenHash then (None, db1)
      else
        (Some (dr_raw draw, deviceSessionId, td_seq db1),
         db1\<lparr>td_tokens := td_tokens db1 @
               [\<lparr>rt_id = td_seq db1, rt_token = tokenHash, rt_tokenHash = Some tokenHash, rt_userId = userId,
                 rt_deviceSessionId = deviceSessionId, rt_familyId = js_or familyId (Some (dr_family draw)),
                 rt_replacedById = None, rt_expiresAt = expiresAt, rt_revoked = False, rt_usedAt = None,
                 rt_graceUntil = None\<rparr>],
             td_seq := td_seq db1 + 1\<rparr>))"

definition createUniqueRefreshToken ::
  "(string \<Rightarrow> string) \<Rightarrow> millis \<Rightarrow> token_draw \<Rightarrow> user_id \<Rightarrow> device_info option \<Rightarrow> string option \<Rightarrow>
   token_db \<Rightarrow> (string \<times> string option \<times> int) option \<times> token_db" where
  "createUniqueRefreshToken hash now draw userId deviceInfo familyId db =
     persistRefreshToken hash now draw userId (now + 30 * 24 * 60 * 60 * 1000) deviceInfo familyId db"

section \<open>Rotation\<close>

datatype token_reply =
    TOKEN_REQUIRED
  | TOKEN_UNKNOWN
  | TOKEN_REVOKED
  | TOKEN_EXPIRED
  | TOKEN_INVALID
  | TOKEN_NO_USER
  | REFRESH_TOKEN_ROTATED
  | TOKEN_FAILED
  | TOKEN_OK user_id string "string option"

definition matches_token :: "(string \<Rightarrow> string) \<Rightarrow> string \<Rightarrow> refresh_token \<Rightarrow> bool" where
  "matches_token hash raw r \<longleftrightarrow> rt_tokenHash r = Some (hash raw) \<or> rt_token r = raw \<or> rt_token r = hash raw"

text \<open>The guarded write that claims a row: \<^verbatim>\<open>updateMany\<close> on a live row, reporting the count.\<close>

definition claim_token :: "int \<Rightarrow> millis \<Rightarrow> int \<Rightarrow> token_db \<Rightarrow> nat \<times> token_db" where
  "claim_token grace now i db =
     (let live = (\<lambda>r. rt_id r = i \<and> \<not> rt_revoked r \<and> now \<le> rt_expiresAt r) in
      (count_where live (td_tokens db),
       db\<lparr>td_tokens := update_where live
            (\<lambda>r. r\<lparr>rt_revoked := True, rt_usedAt := Some now, rt_graceUntil := Some (now + grace)\<rparr>) (td_tokens db)\<rparr>))"

record rotation =
  ro_hash :: "string \<Rightarrow> string"
  ro_grace :: int
  ro_now :: millis
  ro_draw :: token_draw
  ro_user :: user_id
  ro_device :: "device_info"

datatype rotated = ROTATED_ELSEWHERE | ROTATION_FAILED | ROTATED string "string option"

text \<open>The transaction of the \<^verbatim>\<open>/token\<close> handler; an exception rolls everything back.\<close>

definition rotate_transaction :: "rotation \<Rightarrow> int \<Rightarrow> token_db \<Rightarrow> rotated \<times> token_db" where
  "rotate_transaction ro i db =
     (case List.find (\<lambda>r. rt_id r = i) (td_tokens db) of
        None \<Rightarrow> (ROTATED_ELSEWHERE, db)
      | Some current \<Rightarrow>
          if rt_revoked current \<or> rt_expiresAt current < ro_now ro then (ROTATED_ELSEWHERE, db)
          else
            let (n, db1) = claim_token (ro_grace ro) (ro_now ro) (rt_id current) db in
            if n \<noteq> 1 then (ROTATED_ELSEWHERE, db)
            else
              case createUniqueRefreshToken (ro_hash ro) (ro_now ro) (ro_draw ro) (ro_user ro)
                     (Some (ro_device ro)) (rt_familyId current) db1 of
                (None, db2) \<Rightarrow> (ROTATION_FAILED, db)
              | (Some (token, dev, newId), db2) \<Rightarrow>
                  (ROTATED token dev,
                   db2\<lparr>td_tokens := update_where (\<lambda>r. rt_id r = rt_id current)
                         (\<lambda>r. r\<lparr>rt_replacedById := Some newId\<rparr>) (td_tokens db2)\<rparr>))"

text \<open>
  The handler in the two parts its \<^verbatim>\<open>await\<close>s separate: the checks on the row it read,
  and the rotation.
\<close>

datatype token_check = Refused token_reply | Rotate int user_id "string option"

definition token_lookup ::
  "(string \<Rightarrow> string) \<Rightarrow> (string \<Rightarrow> int option) \<Rightarrow> (user_id \<Rightarrow> bool) \<Rightarrow> millis \<Rightarrow> string option \<Rightarrow> token_db \<Rightarrow> token_check" where
  "token_lookup hash verify known now refreshToken db =
     (if \<not> truthy refreshToken then Refused TOKEN_REQUIRED
      else
        let raw = the refreshToken in
        case List.find (matches_token hash raw) (td_tokens db) of
          None \<Rightarrow> Refused TOKEN_UNKNOWN
        | Some stored \<Rightarrow>
            if rt_revoked stored
            then (case rt_graceUntil stored of
                    Some g \<Rightarrow> if now < g then Refused REFRESH_TOKEN_ROTATED else Refused TOKEN_REVOKED
                  | None \<Rightarrow> Refused TOKEN_REVOKED)
            else if rt_expiresAt stored < now then Refused TOKEN_EXPIRED
            else if \<not> truthy_int (verify raw) \<or> verify raw \<noteq> Some (rt_userId stored) then Refused TOKEN_INVALID
            else if \<not> known (the (verify raw)) then Refused TOKEN_NO_USER
            else Rotate (rt_id stored) (the (verify raw)) (rt_deviceSessionId stored))"

definition token_handler ::
  "(string \<Rightarrow> string) \<Rightarrow> (string \<Rightarrow> int option) \<Rightarrow> (user_id \<Rightarrow> bool) \<Rightarrow> int \<Rightarrow> millis \<Rightarrow> token_draw \<Rightarrow> string option \<Rightarrow>
   device_info \<Rightarrow> token_db \<Rightarrow> token_reply \<times> token_db" where
  "token_handler hash verify known grace now draw refreshToken body db =
     (case token_lookup hash verify known now refreshToken db of
        Refused r \<Rightarrow> (r, db)
      | Rotate i u dev \<Rightarrow>
          (let info = buildDeviceInfoFromRequestBody
                 (Some (body\<lparr>di_deviceSessionId := js_or (di_deviceSessionId body) dev\<rparr>)) in
           case rotate_transaction \<lparr>ro_hash = hash, ro_grace = grace, ro_now = now, ro_draw = draw,
                  ro_user = u, ro_device = info\<rparr> i db of
             (ROTATED_ELSEWHERE, db') \<Rightarrow> (REFRESH_TOKEN_ROTATED, db')
           | (ROTATION_FAILED, db') \<Rightarrow> (TOKEN_FAILED, db')
           | (ROTATED token d, db') \<Rightarrow> (TOKEN_OK u token d, db')))"

text \<open>\<^verbatim>\<open>/logout\<close> for the authenticated user; \<open>False\<close> is the missing token.\<close>

definition logout_handler :: "(string \<Rightarrow> string) \<Rightarrow> user_id \<Rightarrow> string option \<Rightarrow> token_db \<Rightarrow> bool \<times> token_db" where
  "logout_handler hash userId refreshToken db =
     (if \<not> truthy refreshToken then (False, db)
      else (True, db\<lparr>td_tokens := update_where
              (\<lambda>r. rt_userId r = userId \<and> matches_token hash (the refreshToken) r)
              (\<lambda>r. r\<lparr>rt_revoked := True\<rparr>) (td_tokens db)\<rparr>))"

section \<open>Well-formed tables\<close>

definition token_wf :: "token_db \<Rightarrow> bool" where
  "token_wf db \<longleftrightarrow> distinct (map rt_id (td_tokens db)) \<and> (\<forall>r \<in> set (td_tokens db). rt_id r < td_seq db)"

lemma write_device_tables [simp]:
  "td_tokens (write_device i f db) = td_tokens db" "td_seq (write_device i f db) = td_seq db"
  "td_devices (write_device i f db) = update_where (\<lambda>d. dv_id d = i) f (td_devices db)"
  by (simp_all add: write_device_def)

lemma ensure_by_install_tokens [simp]:
  "td_tokens (snd (ensure_by_install now i u info db)) = td_tokens db"
  "td_seq (snd (ensure_by_install now i u info db)) = td_seq db"
  by (simp_all add: ensure_by_install_def split: option.splits)

lemma ensureDeviceSession_tokens [simp]:
  "td_tokens (snd (ensureDeviceSession now i u info db)) = td_tokens db"
  "td_seq (snd (ensureDeviceSession now i u info db)) = td_seq db"
  by (simp_all add: ensureDeviceSession_def Let_def split: option.splits)

text \<open>The row a successful creation appends.\<close>

definition new_token ::
  "(string \<Rightarrow> string) \<Rightarrow> token_draw \<Rightarrow> user_id \<Rightarrow> millis \<Rightarrow> string option \<Rightarrow> string option \<Rightarrow> int \<Rightarrow> refresh_token" where
  "new_token h draw u expiresAt dev fam i =
     \<lparr>rt_id = i, rt_token = h (dr_raw draw), rt_tokenHash = Some (h (dr_raw draw)), rt_userId = u,
      rt_deviceSessionId = dev, rt_familyId = js_or fam (Some (dr_family draw)),
      rt_replacedById = None, rt_expiresAt = expiresAt, rt_revoked = False, rt_usedAt = None, rt_graceUntil = None\<rparr>"

lemma new_token_fields [simp]:
  "rt_id (new_token h draw u e dev fam i) = i"
  "rt_revoked (new_token h draw u e dev fam i) = False"
  "rt_userId (new_token h draw u e dev fam i) = u"
  "rt_expiresAt (new_token h draw u e dev fam i) = e"
  "rt_familyId (new_token h draw u e dev fam i) = js_or fam (Some (dr_family draw))"
  "rt_tokenHash (new_token h draw u e dev fam i) = Some (h (dr_raw draw))"
  by (simp_all add: new_token_def)

abbreviation token_ttl :: millis where
  "token_ttl \<equiv> 30 * 24 * 60 * 60 * 1000"

abbreviation hash_used :: "string \<Rightarrow> token_db \<Rightarrow> bool" where
  "hash_used th db \<equiv> \<exists>r \<in> set (td_tokens db). rt_token r = th \<or> rt_tokenHash r = Some th"

lemma create_cases:
  obtains (taken) db' where "createUniqueRefreshToken h now draw u info fam db = (None, db')"
      "hash_used (h (dr_raw draw)) db" "td_tokens db' = td_tokens db" "td_seq db' = td_seq db"
  | (made) dev db' where "createUniqueRefreshToken h now draw u info fam db = (Some (dr_raw draw, dev, td_seq db), db')"
      "\<not> hash_used (h (dr_raw draw)) db" "dev = fst (ensureDeviceSession now (dr_device draw) u info db)"
      "td_tokens db' = td_tokens db @ [new_token h draw u (now + token_ttl) dev fam (td_seq db)]"
      "td_seq db' = td_seq db + 1"
proof -
  obtain dev db1 where e: "ensureDeviceSession now (dr_device draw) u info db = (dev, db1)" by fastforce
  have db1: "td_tokens db1 = td_tokens db" "td_seq db1 = td_seq db"
    using ensureDeviceSession_tokens [of now "dr_device draw" u info db] by (simp_all add: e)
  show thesis
  proof (cases "hash_used (h (dr_raw draw)) db")
    case True
    have "createUniqueRefreshToken h now draw u info fam db = (None, db1)"
      using True by (simp add: createUniqueRefreshToken_def persistRefreshToken_def e db1 Let_def)
    then show thesis using taken True db1 by blast
  next
    case False
    let ?db' = "db1\<lparr>td_tokens := td_tokens db @ [new_token h draw u (now + token_ttl) dev fam (td_seq db)],
        td_seq := td_seq db + 1\<rparr>"
    have "createUniqueRefreshToken h now draw u info fam db = (Some (dr_raw draw, dev, td_seq db), ?db')"
      using False by (simp add: createUniqueRefreshToken_def persistRefreshToken_def e db1 Let_def new_token_def)
    then show thesis using made False by (simp add: e)
  qed
qed

lemma token_wf_append:
  "token_wf db \<Longrightarrow> td_tokens db' = td_tokens db @ [r] \<Longrightarrow> rt_id r = td_seq db \<Longrightarrow> td_seq db' = td_seq db + 1 \<Longrightarrow> token_wf db'"
  by (fastforce simp: token_wf_def)

lemma token_wf_update:
  assumes "token_wf db" and "\<And>r. rt_id (f r) = rt_id r"
  shows "token_wf (db\<lparr>td_tokens := update_where p f (td_tokens db)\<rparr>)"
  using assms by (simp add: token_wf_def update_where_key ball_update_where)

section \<open>What a rotation does\<close>

definition retire :: "rotation \<Rightarrow> int \<Rightarrow> refresh_token \<Rightarrow> refresh_token" where
  "retire ro successor r = r\<lparr>rt_revoked := True, rt_usedAt := Some (ro_now ro),
     rt_graceUntil := Some (ro_now ro + ro_grace ro), rt_replacedById := Some successor\<rparr>"

lemma retire_fields [simp]:
  "rt_id (retire ro n r) = rt_id r" "rt_revoked (retire ro n r)" "rt_familyId (retire ro n r) = rt_familyId r"
  "rt_replacedById (retire ro n r) = Some n" "rt_graceUntil (retire ro n r) = Some (ro_now ro + ro_grace ro)"
  "rt_token (retire ro n r) = rt_token r" "rt_tokenHash (retire ro n r) = rt_tokenHash r"
  "rt_userId (retire ro n r) = rt_userId r"
  by (simp_all add: retire_def)

lemma matches_retire [simp]: "matches_token h raw (retire ro n r) = matches_token h raw r"
  by (simp add: matches_token_def)

lemma rotate_cases:
  assumes wf: "token_wf db"
  obtains (elsewhere) "rotate_transaction ro i db = (ROTATED_ELSEWHERE, db)"
      "\<And>r. r \<in> set (td_tokens db) \<Longrightarrow> rt_id r = i \<Longrightarrow> rt_revoked r \<or> rt_expiresAt r < ro_now ro"
  | (failed) "rotate_transaction ro i db = (ROTATION_FAILED, db)" "hash_used (ro_hash ro (dr_raw (ro_draw ro))) db"
  | (ok) r dev db' where "rotate_transaction ro i db = (ROTATED (dr_raw (ro_draw ro)) dev, db')"
      "r \<in> set (td_tokens db)" "rt_id r = i" "\<not> rt_revoked r" "ro_now ro \<le> rt_expiresAt r"
      "\<not> hash_used (ro_hash ro (dr_raw (ro_draw ro))) db"
      "td_tokens db' = update_where (\<lambda>x. rt_id x = i) (retire ro (td_seq db)) (td_tokens db) @
         [new_token (ro_hash ro) (ro_draw ro) (ro_user ro) (ro_now ro + token_ttl) dev (rt_familyId r) (td_seq db)]"
      "td_seq db' = td_seq db + 1"
proof (cases "\<exists>r \<in> set (td_tokens db). rt_id r = i \<and> \<not> rt_revoked r \<and> ro_now ro \<le> rt_expiresAt r")
  case False
  have "rotate_transaction ro i db = (ROTATED_ELSEWHERE, db)"
  proof (cases "List.find (\<lambda>r. rt_id r = i) (td_tokens db)")
    case (Some r)
    then have "rt_revoked r \<or> rt_expiresAt r < ro_now ro" using False find_SomeD [OF Some] by force
    then show ?thesis using Some by (simp add: rotate_transaction_def)
  qed (simp add: rotate_transaction_def)
  then show thesis using elsewhere False by force
next
  case True
  then obtain r where r: "r \<in> set (td_tokens db)" "rt_id r = i" "\<not> rt_revoked r" "ro_now ro \<le> rt_expiresAt r" by blast
  have dist: "distinct (map rt_id (td_tokens db))" using wf by (simp add: token_wf_def)
  have find: "List.find (\<lambda>x. rt_id x = i) (td_tokens db) = Some r" using dist r(1,2) by (rule find_by_key)
  let ?live = "\<lambda>x. rt_id x = i \<and> \<not> rt_revoked x \<and> ro_now ro \<le> rt_expiresAt x"
  let ?cl = "\<lambda>x. x\<lparr>rt_revoked := True, rt_usedAt := Some (ro_now ro), rt_graceUntil := Some (ro_now ro + ro_grace ro)\<rparr>"
  let ?db1 = "db\<lparr>td_tokens := update_where ?live ?cl (td_tokens db)\<rparr>"
  have "count_where ?live (td_tokens db) = 1"
    using count_where_key [OF dist r(1), of "\<lambda>x. \<not> rt_revoked x \<and> ro_now ro \<le> rt_expiresAt x"] r by simp
  then have claim: "claim_token (ro_grace ro) (ro_now ro) i db = (1, ?db1)"
    by (simp add: claim_token_def Let_def)
  have used: "hash_used th ?db1 = hash_used th db" for th
    by (simp add: bex_update_where cong: if_cong)
  show thesis
  proof (cases rule: create_cases [of "ro_hash ro" "ro_now ro" "ro_draw ro" "ro_user ro" "Some (ro_device ro)" "rt_familyId r" ?db1])
    case (taken db2)
    have "rotate_transaction ro i db = (ROTATION_FAILED, db)"
      using r claim taken(1) by (simp add: rotate_transaction_def find Let_def)
    then show thesis using failed taken(2) unfolding used by blast
  next
    case (made dev db2)
    let ?new = "new_token (ro_hash ro) (ro_draw ro) (ro_user ro) (ro_now ro + token_ttl) dev (rt_familyId r) (td_seq db)"
    let ?set = "\<lambda>x. x\<lparr>rt_replacedById := Some (td_seq db)\<rparr>"
    have rot: "rotate_transaction ro i db = (ROTATED (dr_raw (ro_draw ro)) dev,
        db2\<lparr>td_tokens := update_where (\<lambda>x. rt_id x = i) ?set (td_tokens db2)\<rparr>)"
      using r claim made(1) by (simp add: rotate_transaction_def find Let_def)
    have live: "?live x \<longleftrightarrow> rt_id x = i" if "x \<in> set (td_tokens db)" for x
      using distinct_key_eq [OF dist that r(1)] r by auto
    have old: "update_where (\<lambda>x. rt_id x = i) ?set (update_where ?live ?cl (td_tokens db)) =
        update_where (\<lambda>x. rt_id x = i) (retire ro (td_seq db)) (td_tokens db)"
      unfolding update_where_def using live by (auto simp: retire_def)
    have "i < td_seq db" using wf r by (auto simp: token_wf_def)
    then have "update_where (\<lambda>x. rt_id x = i) ?set (td_tokens db2) =
        update_where (\<lambda>x. rt_id x = i) (retire ro (td_seq db)) (td_tokens db) @ [?new]"
      using made(4) old by (simp add: update_where_append) (simp add: update_where_def)
    then show thesis
      using ok [OF rot r] made(2,5) unfolding used by simp
  qed
qed

section \<open>The service as a machine\<close>

datatype token_op =
    CreateToken millis token_draw user_id "device_info option"
  | LogoutToken user_id "string option"

fun token_step :: "(string \<Rightarrow> string) \<Rightarrow> token_op \<Rightarrow> token_db \<Rightarrow> token_db" where
  "token_step h (CreateToken now draw u info) db = snd (createUniqueRefreshToken h now draw u info None db)"
| "token_step h (LogoutToken u raw) db = snd (logout_handler h u raw db)"

text \<open>One rotation, reporting whether it issued a successor.\<close>

definition rotate_once :: "rotation \<Rightarrow> int \<Rightarrow> token_db \<Rightarrow> bool \<times> token_db" where
  "rotate_once ro i db =
     (case rotate_transaction ro i db of (ROTATED token dev, db') \<Rightarrow> (True, db') | (_, db') \<Rightarrow> (False, db'))"

definition token_spent :: "int \<Rightarrow> token_db \<Rightarrow> bool" where
  "token_spent i db \<longleftrightarrow> (\<exists>r \<in> set (td_tokens db). rt_id r = i \<and> rt_revoked r)"

lemma rotate_once_cases:
  assumes "token_wf db"
  obtains (no) "rotate_once ro i db = (False, db)"
  | (yes) r dev db' where "rotate_once ro i db = (True, db')" "r \<in> set (td_tokens db)" "rt_id r = i" "\<not> rt_revoked r"
      "td_tokens db' = update_where (\<lambda>x. rt_id x = i) (retire ro (td_seq db)) (td_tokens db) @
         [new_token (ro_hash ro) (ro_draw ro) (ro_user ro) (ro_now ro + token_ttl) dev (rt_familyId r) (td_seq db)]"
      "td_seq db' = td_seq db + 1"
  using no yes by (cases rule: rotate_cases [OF assms, of ro i]) (simp_all add: rotate_once_def)

lemma rotate_once_wf:
  assumes wf: "token_wf db"
  shows "token_wf (snd (rotate_once ro i db))"
  using wf
proof (cases rule: rotate_once_cases [of db ro i])
  case (yes r dev db')
  let ?db1 = "db\<lparr>td_tokens := update_where (\<lambda>x. rt_id x = i) (retire ro (td_seq db)) (td_tokens db)\<rparr>"
  have "token_wf ?db1" by (rule token_wf_update [OF wf]) simp
  moreover have "td_tokens db' = td_tokens ?db1 @ [new_token (ro_hash ro) (ro_draw ro) (ro_user ro)
      (ro_now ro + token_ttl) dev (rt_familyId r) (td_seq db)]" using yes(5) by simp
  ultimately have "token_wf db'" by (rule token_wf_append) (simp_all add: yes(6))
  then show ?thesis using yes(1) by simp
qed (use wf in simp)

lemma logout_tables:
  "snd (logout_handler h u raw db) = db \<or>
   (\<exists>p. snd (logout_handler h u raw db) = db\<lparr>td_tokens := update_where p (\<lambda>r. r\<lparr>rt_revoked := True\<rparr>) (td_tokens db)\<rparr>)"
  by (auto simp: logout_handler_def)

lemma logout_wf: "token_wf db \<Longrightarrow> token_wf (snd (logout_handler h u raw db))"
  using logout_tables [of h u raw db] token_wf_update [of db "\<lambda>r. r\<lparr>rt_revoked := True\<rparr>"] by auto

lemma create_wf: "token_wf db \<Longrightarrow> token_wf (snd (createUniqueRefreshToken h now draw u info fam db))"
  by (cases rule: create_cases [of h now draw u info fam db])
    (auto simp: token_wf_def intro: token_wf_append)

lemma token_step_wf: "token_wf db \<Longrightarrow> token_wf (token_step h a db)"
  by (cases a) (simp_all add: create_wf logout_wf)

lemma token_spent_append: "token_spent i db \<Longrightarrow> td_tokens db' = td_tokens db @ rs \<Longrightarrow> token_spent i db'"
  by (auto simp: token_spent_def)

lemma token_spent_update:
  assumes "token_spent i db" and "\<And>r. rt_id (f r) = rt_id r" and "\<And>r. rt_revoked (f r)"
  shows "token_spent i (db\<lparr>td_tokens := update_where p f (td_tokens db)\<rparr>)"
proof -
  obtain r where "r \<in> set (td_tokens db)" "rt_id r = i" "rt_revoked r" using assms(1) by (auto simp: token_spent_def)
  then show ?thesis using assms(2,3) by (force simp: token_spent_def bex_update_where)
qed

lemma token_spent_step: "token_spent i db \<Longrightarrow> token_spent i (token_step h a db)"
proof (cases a)
  case (CreateToken now draw u info)
  assume "token_spent i db"
  then show ?thesis
    by (cases rule: create_cases [of h now draw u info None db])
      (simp_all add: CreateToken token_spent_def)
next
  case (LogoutToken u raw)
  assume "token_spent i db"
  then show ?thesis
    using logout_tables [of h u raw db] token_spent_update by (auto simp: LogoutToken)
qed

lemma spent_stops:
  assumes wf: "token_wf db" and "token_spent i db"
  shows "\<not> fst (rotate_once ro i db)"
  using wf
proof (cases rule: rotate_once_cases [of db ro i])
  case (yes r dev db')
  obtain x where x: "x \<in> set (td_tokens db)" "rt_id x = i" "rt_revoked x" using assms(2) by (auto simp: token_spent_def)
  have "x = r"
    using wf distinct_key_eq [of rt_id "td_tokens db" x r] x(1,2) yes(2,3) by (simp add: token_wf_def)
  then show ?thesis using x(3) yes(4) by simp
qed simp

interpretation rot: one_shot rotate_once "token_step h" token_wf token_spent
  for h :: "string \<Rightarrow> string"
proof
  fix d i j and ro :: rotation and a :: token_op
  assume wf: "token_wf d"
  show "token_wf (snd (rotate_once ro i d))" using wf by (rule rotate_once_wf)
  show "token_wf (token_step h a d)" using wf by (rule token_step_wf)
  show "token_spent i (snd (rotate_once ro i d))" if "fst (rotate_once ro i d)"
    using wf
  proof (cases rule: rotate_once_cases [of d ro i])
    case (yes r dev db')
    then have "retire ro (td_seq d) r \<in> set (update_where (\<lambda>x. rt_id x = i) (retire ro (td_seq d)) (td_tokens d))"
      by (intro update_where_hit) simp_all
    then show ?thesis using yes(1,3,5) unfolding token_spent_def
      by (intro bexI [where x = "retire ro (td_seq d) r"]) simp_all
  qed (use that in simp)
  assume spent: "token_spent i d"
  then show "\<not> fst (rotate_once ro i d)"
    by (rule spent_stops [OF wf])
  show "token_spent i (snd (rotate_once ro j d))"
    using wf
  proof (cases rule: rotate_once_cases [of d ro j])
    case (yes r dev db')
    have "token_spent i (d\<lparr>td_tokens := update_where (\<lambda>x. rt_id x = j) (retire ro (td_seq d)) (td_tokens d)\<rparr>)"
      by (rule token_spent_update [OF spent]) simp_all
    then show ?thesis by (rule token_spent_append) (use yes in simp)
  qed (use spent in simp)
  show "token_spent i (token_step h a d)" using spent by (rule token_spent_step)
qed

section \<open>Families\<close>

definition live_in_family :: "refresh_token \<Rightarrow> bool" where
  "live_in_family r \<longleftrightarrow> \<not> rt_revoked r \<and> rt_familyId r \<noteq> None"

abbreviation one_live :: "token_db \<Rightarrow> bool" where
  "one_live db \<equiv> one_open rt_familyId live_in_family (td_tokens db)"

definition family_fresh :: "token_draw \<Rightarrow> token_db \<Rightarrow> bool" where
  "family_fresh draw db \<longleftrightarrow> Some (dr_family draw) \<notin> rt_familyId ` set (td_tokens db)"

text \<open>
  The states reachable by creating tokens, logging out and rotating, in any order, when the
  family identifiers drawn (\<^verbatim>\<open>randomUUID\<close>) are new.
\<close>

inductive token_reach :: "(string \<Rightarrow> string) \<Rightarrow> token_db \<Rightarrow> bool" for h where
  init: "token_reach h \<lparr>td_tokens = [], td_devices = ds, td_seq = n\<rparr>"
| create: "token_reach h db \<Longrightarrow> family_fresh draw db \<Longrightarrow> token_reach h (token_step h (CreateToken now draw u info) db)"
| logout: "token_reach h db \<Longrightarrow> token_reach h (token_step h (LogoutToken u raw) db)"
| rotate: "token_reach h db \<Longrightarrow> family_fresh (ro_draw ro) db \<Longrightarrow> token_reach h (snd (rotate_once ro i db))"

lemma one_live_update:
  assumes one: "one_live db" and f: "\<And>r. rt_familyId (f r) = rt_familyId r" "\<And>r. rt_revoked (f r)"
  shows "one_live (db\<lparr>td_tokens := update_where p f (td_tokens db)\<rparr>)"
  unfolding one_open_def
proof
  fix fam
  let ?q = "\<lambda>r. rt_familyId r = fam \<and> live_in_family r"
  have "length (filter ?q (map (\<lambda>r. if p r then f r else r) (td_tokens db))) \<le> length (filter ?q (td_tokens db))"
    by (rule length_filter_map_le) (use f in \<open>auto simp: live_in_family_def split: if_splits\<close>)
  also have "\<dots> \<le> 1" using one by (simp add: one_open_def)
  finally show "length (filter ?q (td_tokens (db\<lparr>td_tokens := update_where p f (td_tokens db)\<rparr>))) \<le> 1"
    by (simp add: update_where_def)
qed

lemma create_one_live:
  assumes "one_live db" and "family_fresh draw db"
  shows "one_live (snd (createUniqueRefreshToken h now draw u info None db))"
proof (cases rule: create_cases [of h now draw u info None db])
  case (made dev db')
  have "one_open rt_familyId live_in_family
      (td_tokens db @ [new_token h draw u (now + token_ttl) dev None (td_seq db)])"
    by (rule one_open_snoc [OF assms(1)]) (use assms(2) in \<open>force simp: family_fresh_def js_or_def\<close>)
  then show ?thesis using made by simp
qed (use assms(1) in simp)

lemma rotate_one_live:
  assumes wf: "token_wf db" and one: "one_live db" and fresh: "family_fresh (ro_draw ro) db"
  shows "one_live (snd (rotate_once ro i db))"
  using wf
proof (cases rule: rotate_once_cases [of db ro i])
  case (yes r dev db')
  let ?db1 = "db\<lparr>td_tokens := update_where (\<lambda>x. rt_id x = i) (retire ro (td_seq db)) (td_tokens db)\<rparr>"
  let ?new = "new_token (ro_hash ro) (ro_draw ro) (ro_user ro) (ro_now ro + token_ttl) dev (rt_familyId r) (td_seq db)"
  have one1: "one_live ?db1" by (rule one_live_update [OF one]) simp_all
  have "\<not> live_in_family x" if x: "x \<in> set (td_tokens ?db1)" "rt_familyId x = rt_familyId ?new" for x
  proof (rule update_whereE [of x "\<lambda>x. rt_id x = i" "retire ro (td_seq db)" "td_tokens db"])
    show "x \<in> set (update_where (\<lambda>x. rt_id x = i) (retire ro (td_seq db)) (td_tokens db))" using x by simp
  next
    assume kept: "x \<in> set (td_tokens db)" "rt_id x \<noteq> i"
    show ?thesis
    proof
      assume live: "live_in_family x"
      have "rt_familyId x \<noteq> Some (dr_family (ro_draw ro))"
        using fresh kept(1) by (force simp: family_fresh_def)
      then have "rt_familyId x = rt_familyId r"
        using x(2) by (auto simp: js_or_def split: option.splits if_splits)
      then have "x = r" using one_open_eq [OF one yes(2) _ kept(1)] live yes(4) by (simp add: live_in_family_def)
      then show False using kept(2) yes(3) by simp
    qed
  next
    fix r0
    assume "x = retire ro (td_seq db) r0"
    then show ?thesis by (simp add: live_in_family_def)
  qed
  then have "one_open rt_familyId live_in_family (td_tokens ?db1 @ [?new])"
    by (intro one_open_snoc [OF one1]) simp_all
  then show ?thesis using yes by simp
qed (use one in simp)

lemma token_reach_inv: "token_reach h db \<Longrightarrow> token_wf db \<and> one_live db"
proof (induction rule: token_reach.induct)
  case (init ds n)
  show ?case by (simp add: token_wf_def)
next
  case (create db draw now u info)
  then show ?case by (simp add: create_wf create_one_live)
next
  case (logout db u raw)
  then show ?case
    using logout_wf [of db h u raw] logout_tables [of h u raw db]
      one_live_update [of db "\<lambda>r. r\<lparr>rt_revoked := True\<rparr>"] by auto
next
  case (rotate db ro i)
  then show ?case by (simp add: rotate_once_wf rotate_one_live)
qed

section \<open>Properties\<close>

definition demo_token :: refresh_token where
  "demo_token = \<lparr>rt_id = 1, rt_token = ''hraw'', rt_tokenHash = Some ''hraw'', rt_userId = 7,
     rt_deviceSessionId = None, rt_familyId = Some ''fam'', rt_replacedById = None, rt_expiresAt = 1000,
     rt_revoked = False, rt_usedAt = None, rt_graceUntil = None\<rparr>"

definition demo_tokens :: token_db where
  "demo_tokens = \<lparr>td_tokens = [demo_token], td_devices = [], td_seq = 2\<rparr>"

definition demo_hash :: "string \<Rightarrow> string" where
  "demo_hash s = CHR ''h'' # s"

definition demo_draw :: token_draw where
  "demo_draw = \<lparr>dr_raw = ''new'', dr_device = ''d1'', dr_family = ''f2''\<rparr>"

definition demo_rotation :: rotation where
  "demo_rotation = \<lparr>ro_hash = demo_hash, ro_grace = 60000, ro_now = 500, ro_draw = demo_draw, ro_user = 7,
     ro_device = no_device_info\<rparr>"

lemma demo_tokens_wf: "token_wf demo_tokens"
  by (simp add: token_wf_def demo_tokens_def demo_token_def)

lemma demo_no_device: "ensureDeviceSession now i u (Some no_device_info) db = (None, db)"
  by (simp add: ensureDeviceSession_def normalizeDeviceInfo_def no_device_info_def clean_def non_empty_def
      or_empty_def js_trim_def ensure_by_install_def)

lemma demo_rotates:
  "rotate_transaction demo_rotation 1 demo_tokens = (ROTATED ''new'' None, snd (rotate_transaction demo_rotation 1 demo_tokens))"
  by (simp add: rotate_transaction_def demo_rotation_def demo_tokens_def demo_token_def claim_token_def
      count_where_def update_where_def createUniqueRefreshToken_def persistRefreshToken_def demo_no_device
      demo_hash_def demo_draw_def Let_def)

text \<open>
  C1: A refresh token is rotated at most once: of any number of rotations of the same stored token,
  concurrent with each other, with logouts and with new logins in any order, at most one issues a
  successor.
\<close>

theorem token_rotates_once:
  assumes "token_wf db"
  shows "rot.successes h i es db \<le> 1"
  using assms by (rule rot.at_most_once)

theorem token_rotates_once_witness:
  "rot.successes demo_hash 1 [Redeem demo_rotation 1, Redeem demo_rotation 1, Env (LogoutToken 7 (Some ''raw''))] demo_tokens = 1"
proof -
  let ?es = "[Redeem demo_rotation 1, Env (LogoutToken 7 (Some ''raw''))]"
  have "fst (rotate_once demo_rotation 1 demo_tokens)"
    by (subst rotate_once_def, subst demo_rotates) simp
  then have "1 \<le> rot.successes demo_hash 1 (Redeem demo_rotation 1 # ?es) demo_tokens" by simp
  with token_rotates_once [OF demo_tokens_wf, of demo_hash 1 "Redeem demo_rotation 1 # ?es"] show ?thesis by linarith
qed

text \<open>
  C20: In every reachable state a token family has at most one live token: two rows of one family
  that are not revoked are the same row.
\<close>

theorem token_family_single:
  assumes "token_reach h db" and "r \<in> set (td_tokens db)" and "x \<in> set (td_tokens db)"
    and "rt_familyId r = Some f" and "rt_familyId x = Some f" and "\<not> rt_revoked r" and "\<not> rt_revoked x"
  shows "x = r"
proof -
  have "one_live db" using token_reach_inv [OF assms(1)] by simp
  then show ?thesis
    using assms(2-7) one_open_eq [of rt_familyId live_in_family "td_tokens db" r x] by (simp add: live_in_family_def)
qed

theorem token_family_single_witness:
  "{x. x \<in> set (td_tokens (token_step demo_hash (CreateToken 5 demo_draw 7 (Some no_device_info))
       \<lparr>td_tokens = [], td_devices = [], td_seq = 1\<rparr>)) \<and> rt_familyId x = Some ''f2'' \<and> \<not> rt_revoked x}
   = {new_token demo_hash demo_draw 7 (5 + token_ttl) None None 1}"
proof -
  let ?db0 = "\<lparr>td_tokens = [], td_devices = [], td_seq = 1\<rparr>"
  let ?db = "token_step demo_hash (CreateToken 5 demo_draw 7 (Some no_device_info)) ?db0"
  let ?r = "new_token demo_hash demo_draw 7 (5 + token_ttl) None None 1"
  have reach: "token_reach demo_hash ?db"
    by (rule token_reach.create [OF token_reach.init]) (simp add: family_fresh_def)
  have rows: "td_tokens ?db = [?r]"
    by (simp add: createUniqueRefreshToken_def persistRefreshToken_def demo_no_device new_token_def Let_def)
  have "x = ?r" if "x \<in> set (td_tokens ?db)" "rt_familyId x = Some ''f2''" "\<not> rt_revoked x" for x
    by (rule token_family_single [OF reach _ that(1) _ that(2) _ that(3)])
      (simp_all only: rows, simp_all add: demo_draw_def js_or_def)
  moreover have "rt_familyId ?r = Some ''f2''" by (simp add: demo_draw_def js_or_def)
  moreover have "?r \<in> set (td_tokens ?db)" unfolding rows by simp
  moreover have "\<not> rt_revoked ?r" by simp
  ultimately show ?thesis by blast
qed

lemma lookup_never_ok: "token_lookup h verify known now raw db \<noteq> Refused (TOKEN_OK u new dev)"
  by (auto simp: token_lookup_def Let_def split: option.splits)

text \<open>
  C19: A successful refresh found the token stored, live, unexpired and signed for its owner; it
  leaves that row revoked and linked to a successor with the digest of the new token, the same owner
  and the same family, live for thirty days.  Presenting the old token again gives a conflict during
  the grace period and is refused as revoked after it.
\<close>

theorem token_refresh_sound:
  assumes wf: "token_wf db"
    and ok: "token_handler h verify known grace now draw raw body db = (TOKEN_OK u new dev, db')"
  shows "\<exists>r \<in> set (td_tokens db). \<exists>s \<in> set (td_tokens db'). \<exists>r' \<in> set (td_tokens db').
    matches_token h (the raw) r \<and> \<not> rt_revoked r \<and> now \<le> rt_expiresAt r \<and> verify (the raw) = Some u \<and>
    rt_userId r = u \<and> known u \<and>
    rt_id r' = rt_id r \<and> rt_revoked r' \<and> rt_replacedById r' = Some (rt_id s) \<and>
    new = dr_raw draw \<and> rt_tokenHash s = Some (h new) \<and> rt_userId s = u \<and> \<not> rt_revoked s \<and>
    rt_expiresAt s = now + token_ttl \<and> rt_familyId s = js_or (rt_familyId r) (Some (dr_family draw)) \<and>
    fst (token_handler h verify known grace later draw' raw body' db') =
      (if later < now + grace then REFRESH_TOKEN_ROTATED else TOKEN_REVOKED)"
proof -
  obtain i dv where look: "token_lookup h verify known now raw db = Rotate i u dv"
    using ok lookup_never_ok [of h verify known now raw db u new dev]
    by (auto simp: token_handler_def Let_def split: token_check.splits prod.splits rotated.splits)
  obtain r where t: "truthy raw" and find: "List.find (matches_token h (the raw)) (td_tokens db) = Some r"
    and r: "\<not> rt_revoked r" "now \<le> rt_expiresAt r" "verify (the raw) = Some (rt_userId r)" "known (rt_userId r)"
      "rt_id r = i" "rt_userId r = u"
    using look
    by (auto simp: token_lookup_def Let_def split: if_splits option.splits)
  let ?info = "buildDeviceInfoFromRequestBody (Some (body\<lparr>di_deviceSessionId := js_or (di_deviceSessionId body) dv\<rparr>))"
  let ?ro = "\<lparr>ro_hash = h, ro_grace = grace, ro_now = now, ro_draw = draw, ro_user = u, ro_device = ?info\<rparr>"
  have rot: "rotate_transaction ?ro i db = (ROTATED new dev, db')"
    using ok look by (auto simp: token_handler_def Let_def split: prod.splits rotated.splits)
  have mem: "r \<in> set (td_tokens db)" "matches_token h (the raw) r" using find_SomeD [OF find] by simp_all
  show ?thesis
    using wf
  proof (cases rule: rotate_cases [of db ?ro i])
    case (ok r0 dev0 db0)
    let ?s = "new_token h draw u (now + token_ttl) dev0 (rt_familyId r) (td_seq db)"
    let ?r' = "retire ?ro (td_seq db) r"
    have "r0 = r" using wf distinct_key_eq [of rt_id "td_tokens db" r0 r] ok(2,3) mem(1) r(5) by (simp add: token_wf_def)
    then have rows: "td_tokens db' = update_where (\<lambda>x. rt_id x = i) (retire ?ro (td_seq db)) (td_tokens db) @ [?s]"
      and new: "new = dr_raw draw" using rot ok(1,7) by simp_all
    have "?r' \<in> set (update_where (\<lambda>x. rt_id x = i) (retire ?ro (td_seq db)) (td_tokens db))"
      using mem(1) r(5) by (intro update_where_hit) simp_all
    then have r': "?r' \<in> set (td_tokens db')" and s: "?s \<in> set (td_tokens db')" by (simp_all add: rows)
    have "List.find (matches_token h (the raw)) (td_tokens db') = Some ?r'"
      unfolding rows by (rule find_append_Some) (use find r(5) in \<open>simp add: find_update_where\<close>)
    then have "fst (token_handler h verify known grace later draw' raw body' db') =
        (if later < now + grace then REFRESH_TOKEN_ROTATED else TOKEN_REVOKED)"
      using t by (simp add: token_handler_def token_lookup_def Let_def)
    then show ?thesis
      using mem r new by (intro bexI [OF _ mem(1)] bexI [OF _ s] bexI [OF _ r']) simp
  qed (use rot in simp_all)
qed

theorem token_refresh_sound_witness:
  "\<exists>db'. token_handler demo_hash (\<lambda>_. Some 7) (\<lambda>_. True) 60000 500 demo_draw (Some ''raw'') no_device_info demo_tokens =
       (TOKEN_OK 7 ''new'' None, db') \<and>
     fst (token_handler demo_hash (\<lambda>_. Some 7) (\<lambda>_. True) 60000 900 demo_draw (Some ''raw'') no_device_info db') = REFRESH_TOKEN_ROTATED \<and>
     fst (token_handler demo_hash (\<lambda>_. Some 7) (\<lambda>_. True) 60000 60500 demo_draw (Some ''raw'') no_device_info db') = TOKEN_REVOKED"
proof -
  let ?r = "token_handler demo_hash (\<lambda>_. Some 7) (\<lambda>_. True) 60000 500 demo_draw (Some ''raw'') no_device_info demo_tokens"
  have info: "buildDeviceInfoFromRequestBody (Some (no_device_info\<lparr>di_deviceSessionId := js_or (di_deviceSessionId no_device_info) None\<rparr>)) = no_device_info"
    by (simp add: buildDeviceInfoFromRequestBody_def normalizeDeviceInfo_def no_device_info_def clean_def
        non_empty_def or_empty_def js_trim_def js_or_def)
  have look: "token_lookup demo_hash (\<lambda>_. Some 7) (\<lambda>_. True) 500 (Some ''raw'') demo_tokens = Rotate 1 7 None"
    by (simp add: token_lookup_def demo_tokens_def demo_token_def matches_token_def demo_hash_def truthy_def truthy_int_def)
  have "?r = (TOKEN_OK 7 ''new'' None, snd (rotate_transaction demo_rotation 1 demo_tokens))"
    unfolding token_handler_def look token_check.case info Let_def demo_rotation_def [symmetric]
    by (subst demo_rotates) simp
  from this token_refresh_sound [OF demo_tokens_wf this, of 900] token_refresh_sound [OF demo_tokens_wf this, of 60500]
  show ?thesis by (smt (verit, best))
qed

text \<open>
  Refreshing is live: a stored token that is neither revoked nor expired, signed for its owner
  and presented by an existing user, is exchanged for the new token drawn, provided the digest of
  the new token is not in use.
\<close>

theorem token_refresh_complete:
  assumes wf: "token_wf db" and "raw \<noteq> []"
    and find: "List.find (matches_token h raw) (td_tokens db) = Some r"
    and live: "\<not> rt_revoked r" "now \<le> rt_expiresAt r"
    and "verify raw = Some (rt_userId r)" "rt_userId r \<noteq> 0" "known (rt_userId r)"
    and fresh: "\<not> hash_used (h (dr_raw draw)) db"
  shows "\<exists>dev. fst (token_handler h verify known grace now draw (Some raw) body db) = TOKEN_OK (rt_userId r) (dr_raw draw) dev"
proof -
  have mem: "r \<in> set (td_tokens db)" using find_SomeD [OF find] by simp
  have look: "token_lookup h verify known now (Some raw) db = Rotate (rt_id r) (rt_userId r) (rt_deviceSessionId r)"
    using assms by (simp add: token_lookup_def truthy_def truthy_int_def)
  let ?info = "buildDeviceInfoFromRequestBody (Some (body\<lparr>di_deviceSessionId := js_or (di_deviceSessionId body) (rt_deviceSessionId r)\<rparr>))"
  let ?ro = "\<lparr>ro_hash = h, ro_grace = grace, ro_now = now, ro_draw = draw, ro_user = rt_userId r, ro_device = ?info\<rparr>"
  show ?thesis
    using wf
  proof (cases rule: rotate_cases [of db ?ro "rt_id r"])
    case elsewhere
    then show ?thesis using mem live by force
  next
    case failed
    then show ?thesis using fresh by simp
  next
    case (ok r0 dev db')
    then show ?thesis by (simp add: token_handler_def look Let_def)
  qed
qed

theorem token_refresh_complete_witness:
  "\<exists>dev. fst (token_handler demo_hash (\<lambda>_. Some 7) (\<lambda>_. True) 60000 500 demo_draw (Some ''raw'') no_device_info demo_tokens) =
     TOKEN_OK 7 ''new'' dev"
proof -
  have f: "List.find (matches_token demo_hash ''raw'') (td_tokens demo_tokens) = Some demo_token"
    by (simp add: matches_token_def demo_tokens_def demo_token_def demo_hash_def)
  show ?thesis
    using token_refresh_complete [OF demo_tokens_wf _ f, of 500 "\<lambda>_. Some 7" "\<lambda>_. True" demo_draw 60000 no_device_info]
    by (simp add: demo_token_def demo_tokens_def demo_draw_def demo_hash_def)
qed

section \<open>Logging out\<close>

definition user_token_dead :: "(string \<Rightarrow> string) \<Rightarrow> user_id \<Rightarrow> string \<Rightarrow> token_db \<Rightarrow> bool" where
  "user_token_dead h u raw db \<longleftrightarrow>
     (\<forall>r \<in> set (td_tokens db). rt_userId r = u \<and> matches_token h raw r \<longrightarrow> rt_revoked r)"

fun token_event :: "(string \<Rightarrow> string) \<Rightarrow> (rotation, int, token_op) shot \<Rightarrow> token_db \<Rightarrow> token_db" where
  "token_event h (Redeem ro i) db = snd (rotate_once ro i db)"
| "token_event h (Env a) db = token_step h a db"

text \<open>The digest an event may store.\<close>

fun event_digest :: "(string \<Rightarrow> string) \<Rightarrow> (rotation, int, token_op) shot \<Rightarrow> string option" where
  "event_digest h (Redeem ro i) = Some (ro_hash ro (dr_raw (ro_draw ro)))"
| "event_digest h (Env (CreateToken now draw u info)) = Some (h (dr_raw draw))"
| "event_digest h (Env (LogoutToken u raw)) = None"

definition unrelated :: "(string \<Rightarrow> string) \<Rightarrow> string \<Rightarrow> (rotation, int, token_op) shot \<Rightarrow> bool" where
  "unrelated h raw e \<longleftrightarrow> event_digest h e \<noteq> Some raw \<and> event_digest h e \<noteq> Some (h raw)"

lemma matches_new_token:
  "matches_token h raw (new_token h' draw u e dev fam i) \<longleftrightarrow> h' (dr_raw draw) = h raw \<or> h' (dr_raw draw) = raw"
  by (auto simp: matches_token_def new_token_def)

lemma event_wf: "token_wf db \<Longrightarrow> token_wf (token_event h e db)"
  by (cases e) (simp_all add: rotate_once_wf token_step_wf)

lemma dead_rotate:
  assumes wf: "token_wf db" and dead: "user_token_dead h u raw db" and "unrelated h raw (Redeem ro i)"
  shows "user_token_dead h u raw (snd (rotate_once ro i db))"
  using wf
proof (cases rule: rotate_once_cases [of db ro i])
  case (yes r dev db')
  have new: "\<not> matches_token h raw (new_token (ro_hash ro) (ro_draw ro) v e dev fam j)" for v e fam j
    using assms(3) by (simp add: unrelated_def matches_new_token)
  show ?thesis
    using dead new yes(1,5) by (auto simp: user_token_dead_def ball_Un ball_update_where)
qed (use dead in simp)

lemma dead_event:
  assumes "token_wf db" and dead: "user_token_dead h u raw db" and e: "unrelated h raw e"
  shows "user_token_dead h u raw (token_event h e db)"
proof (cases e)
  case (Redeem ro i)
  then show ?thesis using dead_rotate assms by simp
next
  case (Env a)
  show ?thesis
  proof (cases a)
    case (CreateToken now draw v info)
    then show ?thesis
      using dead e
      by (cases rule: create_cases [of h now draw v info None db])
        (auto simp: Env user_token_dead_def unrelated_def matches_new_token)
  next
    case (LogoutToken v raw')
    then show ?thesis
      using dead by (auto simp: Env logout_handler_def user_token_dead_def ball_update_where matches_token_def)
  qed
qed

lemma dead_run:
  "token_wf db \<Longrightarrow> user_token_dead h u raw db \<Longrightarrow> list_all (unrelated h raw) es \<Longrightarrow>
   user_token_dead h u raw (fold (token_event h) es db)"
  by (induction es arbitrary: db) (auto simp: event_wf dead_event)

lemma dead_refused:
  assumes "user_token_dead h u raw db"
  shows "fst (token_handler h verify known grace now draw (Some raw) body db) \<noteq> TOKEN_OK u new dev"
proof
  assume "fst (token_handler h verify known grace now draw (Some raw) body db) = TOKEN_OK u new dev"
  then obtain i dv where "token_lookup h verify known now (Some raw) db = Rotate i u dv"
    using lookup_never_ok [of h verify known now "Some raw" db u new dev]
    by (auto simp: token_handler_def Let_def split: token_check.splits prod.splits rotated.splits)
  then obtain r where "List.find (matches_token h raw) (td_tokens db) = Some r" "\<not> rt_revoked r" "rt_userId r = u"
    by (auto simp: token_lookup_def Let_def split: if_splits option.splits)
  then show False using assms find_SomeD [of "matches_token h raw"] by (auto simp: user_token_dead_def)
qed

text \<open>
  C34: After a user logs out with a refresh token, presenting that token never refreshes that user's
  session again, at any later time, whichever other logins, logouts and rotations run in between,
  as long as none of them stores a row whose digest is that of the token.
\<close>

theorem logout_final:
  assumes "token_wf db" and "raw \<noteq> []" and "list_all (unrelated h raw) es"
  shows "fst (token_handler h verify known grace now draw (Some raw) body
      (fold (token_event h) es (snd (logout_handler h u (Some raw) db)))) \<noteq> TOKEN_OK u new dev"
proof (rule dead_refused, rule dead_run)
  show "token_wf (snd (logout_handler h u (Some raw) db))" using assms(1) by (rule logout_wf)
  show "user_token_dead h u raw (snd (logout_handler h u (Some raw) db))"
    using assms(2) by (auto simp: logout_handler_def truthy_def user_token_dead_def ball_update_where)
qed (rule assms(3))

theorem logout_final_witness:
  "fst (token_handler demo_hash (\<lambda>_. Some 7) (\<lambda>_. True) 60000 500 demo_draw (Some ''raw'') no_device_info
     (fold (token_event demo_hash) [Redeem demo_rotation 1]
       (snd (logout_handler demo_hash 7 (Some ''raw'') demo_tokens)))) \<noteq> TOKEN_OK 7 ''new'' None"
  by (rule logout_final [OF demo_tokens_wf])
    (simp_all add: unrelated_def demo_rotation_def demo_hash_def demo_draw_def)

section \<open>Device sessions\<close>

lemma touch_device_fields [simp]:
  "dv_id (touch_device now info w d) = dv_id d" "dv_userId (touch_device now info w d) = dv_userId d"
  "dv_revokedAt (touch_device now info w d) = dv_revokedAt d"
  by (simp_all add: touch_device_def)

definition owns_device :: "user_id \<Rightarrow> string \<Rightarrow> token_db \<Rightarrow> bool" where
  "owns_device u i db \<longleftrightarrow> (\<exists>d \<in> set (td_devices db). dv_id d = i \<and> dv_userId d = u \<and> dv_revokedAt d = None)"

definition others_kept :: "user_id \<Rightarrow> token_db \<Rightarrow> token_db \<Rightarrow> bool" where
  "others_kept u db db' \<longleftrightarrow>
     filter (\<lambda>d. dv_userId d \<noteq> u) (td_devices db') = filter (\<lambda>d. dv_userId d \<noteq> u) (td_devices db)"

lemma touch_owned:
  assumes dist: "distinct (map dv_id (td_devices db))" and d: "d \<in> set (td_devices db)" "dv_userId d = u" "dv_revokedAt d = None"
  shows "owns_device u (dv_id d) (write_device (dv_id d) (touch_device now info w) db)"
    and "others_kept u db (write_device (dv_id d) (touch_device now info w) db)"
proof -
  show "owns_device u (dv_id d) (write_device (dv_id d) (touch_device now info w) db)"
    using d by (auto simp: owns_device_def bex_update_where)
  have "filter (\<lambda>x. dv_userId x \<noteq> u) (update_where (\<lambda>x. dv_id x = dv_id d) (touch_device now info w) rs) =
      filter (\<lambda>x. dv_userId x \<noteq> u) rs" if "set rs \<subseteq> set (td_devices db)" for rs
    using that
  proof (induction rs)
    case (Cons x rs)
    have "dv_id x = dv_id d \<Longrightarrow> x = d"
      using distinct_key_eq [OF dist, of x d] Cons.prems d(1) by simp
    then show ?case using Cons d(2) by (auto simp: update_where_def)
  qed (simp add: update_where_def)
  then show "others_kept u db (write_device (dv_id d) (touch_device now info w) db)" by (simp add: others_kept_def)
qed

lemma ensure_by_install_sound:
  assumes dist: "distinct (map dv_id (td_devices db))" and r: "ensure_by_install now i u info db = (res, db')"
  shows "others_kept u db db' \<and> (case res of None \<Rightarrow> db' = db | Some k \<Rightarrow> owns_device u k db')"
proof (cases "di_installId info")
  case None
  then show ?thesis using r by (auto simp: ensure_by_install_def others_kept_def)
next
  case (Some inst)
  show ?thesis
  proof (cases "find_latest dv_createdAt (\<lambda>d. dv_userId d = u \<and> dv_installId d = inst \<and> dv_revokedAt d = None) (td_devices db)")
    case None
    then show ?thesis using r Some by (auto simp: ensure_by_install_def others_kept_def owns_device_def)
  next
    case found: (Some d)
    then have d: "d \<in> set (td_devices db)" "dv_userId d = u" "dv_revokedAt d = None"
      using find_latest_SomeD [OF found] by simp_all
    show ?thesis using r Some found touch_owned [OF dist d] by (auto simp: ensure_by_install_def)
  qed
qed

text \<open>
  A device session given to a token is a live one of the same user: the identifier returned
  names a row of that user that is not revoked, whatever identifier the request claimed, and the
  rows of other users are never changed.
\<close>

theorem device_session_owned:
  assumes dist: "distinct (map dv_id (td_devices db))" and r: "ensureDeviceSession now i u info db = (res, db')"
  shows "filter (\<lambda>d. dv_userId d \<noteq> u) (td_devices db') = filter (\<lambda>d. dv_userId d \<noteq> u) (td_devices db) \<and>
    (case res of None \<Rightarrow> db' = db
     | Some k \<Rightarrow> \<exists>d \<in> set (td_devices db'). dv_id d = k \<and> dv_userId d = u \<and> dv_revokedAt d = None)"
proof -
  have "others_kept u db db' \<and> (case res of None \<Rightarrow> db' = db | Some k \<Rightarrow> owns_device u k db')"
  proof (cases "\<exists>k d. di_deviceSessionId (normalizeDeviceInfo info) = Some k \<and>
      List.find (\<lambda>d. dv_id d = k \<and> dv_userId d = u \<and> dv_revokedAt d = None) (td_devices db) = Some d")
    case True
    then obtain k d where k: "di_deviceSessionId (normalizeDeviceInfo info) = Some k"
      and find: "List.find (\<lambda>d. dv_id d = k \<and> dv_userId d = u \<and> dv_revokedAt d = None) (td_devices db) = Some d" by blast
    have d: "d \<in> set (td_devices db)" "dv_userId d = u" "dv_revokedAt d = None" using find_SomeD [OF find] by simp_all
    show ?thesis using r k find touch_owned [OF dist d] by (auto simp: ensureDeviceSession_def Let_def)
  next
    case False
    then have "ensureDeviceSession now i u info db = ensure_by_install now i u (normalizeDeviceInfo info) db"
      by (simp add: ensureDeviceSession_def Let_def split: option.splits)
    with r have "ensure_by_install now i u (normalizeDeviceInfo info) db = (res, db')" by simp
    then show ?thesis by (rule ensure_by_install_sound [OF dist])
  qed
  then show ?thesis by (cases res) (simp_all add: others_kept_def owns_device_def)
qed

theorem device_session_owned_witness:
  "\<exists>db'. ensureDeviceSession 5 ''d1'' 7 (Some (no_device_info\<lparr>di_installId := Some ''inst''\<rparr>)) demo_tokens = (Some ''d1'', db') \<and>
     (\<exists>d \<in> set (td_devices db'). dv_id d = ''d1'' \<and> dv_userId d = 7 \<and> dv_revokedAt d = None)"
proof -
  let ?r = "ensureDeviceSession 5 ''d1'' 7 (Some (no_device_info\<lparr>di_installId := Some ''inst''\<rparr>)) demo_tokens"
  have r: "?r = (Some ''d1'', snd ?r)"
    by (simp add: ensureDeviceSession_def normalizeDeviceInfo_def no_device_info_def clean_def non_empty_def
        or_empty_def js_trim_def js_space_def ensure_by_install_def demo_tokens_def)
  have "distinct (map dv_id (td_devices demo_tokens))" by (simp add: demo_tokens_def)
  from device_session_owned [OF this r] r show ?thesis by auto
qed

end
