(* ===== verification/Local_Auth.thy ===== *)
theory Local_Auth
  imports Refresh_Tokens Regex
begin

text \<open>
  Sign-up and sign-in by e-mail and password in \<^verbatim>\<open>src/src/routes/auth.ts\<close>: the
  handlers \<^verbatim>\<open>/register\<close>, \<^verbatim>\<open>/resend\<close>, \<^verbatim>\<open>/verify\<close> and
  \<^verbatim>\<open>/login\<close>, with the verification codes, the count of failed logins that blocks an
  account, and the refresh token each sign-in stores.

  Parameters: \<open>ci a b\<close> is the database's case-insensitive comparison of the searched address
  \<open>a\<close> with the stored \<open>b\<close>; \<open>bhash\<close> and \<open>bcompare\<close> are bcrypt's \<^verbatim>\<open>hash\<close> and
  \<^verbatim>\<open>compare\<close>; \<open>mailOk\<close> says whether the mail service accepted the message;
  \<open>draw < 900000\<close> is the random part of a code.
\<close>

section \<open>Data\<close>

datatype profile_status = PROFILE_PENDING | PROFILE_ACTIVE | PROFILE_BLOCKED

record account =
  a_id :: user_id
  a_email :: "string option"
  a_passwordHash :: "string option"
  a_isActive :: bool
  a_profileStatus :: profile_status
  a_firstName :: "string option"

record verification =
  vc_id :: int
  vc_userId :: user_id
  vc_code :: string
  vc_expiresAt :: millis
  vc_used :: bool
  vc_attemptsCount :: int
  vc_lastSentAt :: "millis option"
  vc_createdAt :: millis

record reset_code =
  pr_id :: int
  pr_userId :: user_id
  pr_code :: string
  pr_expiresAt :: millis
  pr_used :: bool
  pr_createdAt :: millis

record login_attempt =
  la_userId :: user_id
  la_success :: bool
  la_ip :: "string option"
  la_createdAt :: millis

datatype audit = AUDIT_BLOCKED user_id | AUDIT_LOGIN user_id

datatype mail_kind = VERIFICATION_MAIL | PASSWORD_RESET_MAIL

text \<open>The tables the two modules write; each of the \<open>Seq\<close> fields numbers the rows of a table.\<close>

record auth_db =
  ad_users :: "account list"
  ad_verifications :: "verification list"
  ad_resets :: "reset_code list"
  ad_attempts :: "login_attempt list"
  ad_audit :: "audit list"
  ad_outbox :: "(string \<times> string \<times> mail_kind) list"
  ad_tokens :: token_db
  ad_userSeq :: int
  ad_verSeq :: int
  ad_resetSeq :: int

definition MAX_FAILED_LOGIN_ATTEMPTS :: nat where
  "MAX_FAILED_LOGIN_ATTEMPTS = 19"

definition MAX_VERIFICATION_ATTEMPTS :: int where
  "MAX_VERIFICATION_ATTEMPTS = 5"

definition RESEND_CODE_INTERVAL_MS :: millis where
  "RESEND_CODE_INTERVAL_MS = 25 * 1000"

definition VERIFICATION_CODE_EXPIRATION_MS :: millis where
  "VERIFICATION_CODE_EXPIRATION_MS = 60 * 60 * 1000"

definition normalize_email :: "string \<Rightarrow> string" where
  "normalize_email email = js_lower (js_trim email)"

definition isValidEmail :: "string \<Rightarrow> bool" where
  "isValidEmail email = re_test EMAIL_RE email"

definition generateVerificationCode :: "nat \<Rightarrow> string" where
  "generateVerificationCode draw = show_nat (100000 + draw)"

text \<open>\<^verbatim>\<open>findFirst\<close> on the e-mail column, insensitive to case.\<close>

definition find_account :: "(string \<Rightarrow> string \<Rightarrow> bool) \<Rightarrow> string \<Rightarrow> auth_db \<Rightarrow> account option" where
  "find_account ci email db =
     List.find (\<lambda>a. case a_email a of None \<Rightarrow> False | Some e \<Rightarrow> ci email e) (ad_users db)"

definition write_account :: "user_id \<Rightarrow> (account \<Rightarrow> account) \<Rightarrow> auth_db \<Rightarrow> auth_db" where
  "write_account i f db = db\<lparr>ad_users := update_where (\<lambda>a. a_id a = i) f (ad_users db)\<rparr>"

definition write_verification :: "int \<Rightarrow> (verification \<Rightarrow> verification) \<Rightarrow> auth_db \<Rightarrow> auth_db" where
  "write_verification i f db = db\<lparr>ad_verifications := update_where (\<lambda>v. vc_id v = i) f (ad_verifications db)\<rparr>"

definition latest_verification :: "user_id \<Rightarrow> auth_db \<Rightarrow> verification option" where
  "latest_verification u db =
     find_latest vc_createdAt (\<lambda>v. vc_userId v = u \<and> \<not> vc_used v) (ad_verifications db)"

section \<open>Verification codes\<close>

datatype send_result = CODE_SENT | CODE_SENT_RECENTLY | CODE_SEND_FAILED

definition post :: "bool \<Rightarrow> string \<Rightarrow> string \<Rightarrow> mail_kind \<Rightarrow> auth_db \<Rightarrow> send_result \<times> auth_db" where
  "post mailOk email code kind db =
     (if mailOk then (CODE_SENT, db\<lparr>ad_outbox := ad_outbox db @ [(email, code, kind)]\<rparr>)
      else (CODE_SEND_FAILED, db))"

text \<open>The last part of \<^verbatim>\<open>sendVerificationCodeEmail\<close>: a new code.\<close>

definition send_new_code ::
  "nat \<Rightarrow> bool \<Rightarrow> millis \<Rightarrow> user_id \<Rightarrow> string \<Rightarrow> auth_db \<Rightarrow> send_result \<times> auth_db" where
  "send_new_code draw mailOk now userId email db =
     (let code = generateVerificationCode draw in
      post mailOk email code VERIFICATION_MAIL
        (db\<lparr>ad_verifications := ad_verifications db @
              [\<lparr>vc_id = ad_verSeq db, vc_userId = userId, vc_code = code,
                vc_expiresAt = now + VERIFICATION_CODE_EXPIRATION_MS, vc_used = False,
                vc_attemptsCount = 0, vc_lastSentAt = Some now, vc_createdAt = now\<rparr>],
            ad_verSeq := ad_verSeq db + 1\<rparr>))"

definition sendVerificationCodeEmail ::
  "nat \<Rightarrow> bool \<Rightarrow> millis \<Rightarrow> user_id \<Rightarrow> string \<Rightarrow> auth_db \<Rightarrow> send_result \<times> auth_db" where
  "sendVerificationCodeEmail draw mailOk now userId email db =
     (case latest_verification userId db of
        None \<Rightarrow> send_new_code draw mailOk now userId email db
      | Some v \<Rightarrow>
          if MAX_VERIFICATION_ATTEMPTS \<le> vc_attemptsCount v
          then send_new_code draw mailOk now userId email (write_verification (vc_id v) (\<lambda>x. x\<lparr>vc_used := True\<rparr>) db)
          else if vc_expiresAt v \<le> now
          then send_new_code draw mailOk now userId email (write_verification (vc_id v) (\<lambda>x. x\<lparr>vc_used := True\<rparr>) db)
          else if (case vc_lastSentAt v of None \<Rightarrow> False | Some t \<Rightarrow> now - t < RESEND_CODE_INTERVAL_MS)
          then (CODE_SENT_RECENTLY, db)
          else post mailOk email (vc_code v) VERIFICATION_MAIL
                 (write_verification (vc_id v) (\<lambda>x. x\<lparr>vc_lastSentAt := Some now,
                    vc_expiresAt := now + VERIFICATION_CODE_EXPIRATION_MS\<rparr>) db))"

section \<open>Handlers\<close>

datatype auth_reply =
    EMAIL_AND_PASSWORD_REQUIRED
  | EMAIL_REQUIRED
  | EMAIL_AND_CODE_REQUIRED
  | CODE_REQUIRED
  | INVALID_EMAIL
  | PASSWORD_TOO_SHORT
  | MESSENGER_ACCOUNT
  | CODE_RESENT
  | USER_EXISTS
  | REGISTERED
  | CODE_TOO_RECENT
  | AUTH_FAILED
  | CODE_MAYBE_SENT
  | ALREADY_ACTIVE
  | NO_EMAIL
  | USER_NOT_FOUND
  | CODE_NOT_FOUND
  | CODE_EXPIRED
  | TOO_MANY_CODES
  | WRONG_CODE
  | ACTIVATED user_id string
  | BAD_CREDENTIALS
  | ACCOUNT_BLOCKED
  | ACCOUNT_NOT_ACTIVE
  | NO_PASSWORD
  | TOO_MANY_LOGINS
  | LOGIN_OK user_id string

definition sent_reply :: "auth_reply \<Rightarrow> send_result \<times> auth_db \<Rightarrow> auth_reply \<times> auth_db" where
  "sent_reply ok r =
     (case r of
        (CODE_SENT, db) \<Rightarrow> (ok, db)
      | (CODE_SENT_RECENTLY, db) \<Rightarrow> (CODE_TOO_RECENT, db)
      | (CODE_SEND_FAILED, db) \<Rightarrow> (AUTH_FAILED, db))"

text \<open>\<open>userRole\<close>: the role named \<^verbatim>\<open>user\<close> that a new account is connected to exists.\<close>

definition register_handler ::
  "(string \<Rightarrow> string \<Rightarrow> bool) \<Rightarrow> (string \<Rightarrow> string) \<Rightarrow> bool \<Rightarrow> nat \<Rightarrow> bool \<Rightarrow> millis \<Rightarrow> string option \<Rightarrow> string option \<Rightarrow>
   string option \<Rightarrow> auth_db \<Rightarrow> auth_reply \<times> auth_db" where
  "register_handler ci bhash userRole draw mailOk now email password name db =
     (if \<not> truthy email \<or> \<not> truthy password then (EMAIL_AND_PASSWORD_REQUIRED, db)
      else
        let normalizedEmail = normalize_email (the email) in
        if \<not> isValidEmail normalizedEmail then (INVALID_EMAIL, db)
        else if length (the password) < 6 then (PASSWORD_TOO_SHORT, db)
        else case find_account ci normalizedEmail db of
          Some existing \<Rightarrow>
            if \<not> a_isActive existing
            then (if \<not> truthy (a_email existing) then (MESSENGER_ACCOUNT, db)
                  else sent_reply CODE_RESENT
                         (sendVerificationCodeEmail draw mailOk now (a_id existing) (the (a_email existing)) db))
            else (USER_EXISTS, db)
        | None \<Rightarrow>
            if \<not> userRole \<or> (\<exists>a \<in> set (ad_users db). a_email a = Some normalizedEmail) then (AUTH_FAILED, db)
            else
              let userId = ad_userSeq db;
                  db1 = db\<lparr>ad_users := ad_users db @
                          [\<lparr>a_id = userId, a_email = Some normalizedEmail,
                            a_passwordHash = Some (bhash (the password)), a_isActive = False,
                            a_profileStatus = PROFILE_PENDING, a_firstName = non_empty (js_trim (or_empty name))\<rparr>],
                        ad_userSeq := userId + 1\<rparr>
              in sent_reply REGISTERED (sendVerificationCodeEmail draw mailOk now userId normalizedEmail db1))"

definition resend_handler ::
  "(string \<Rightarrow> string \<Rightarrow> bool) \<Rightarrow> nat \<Rightarrow> bool \<Rightarrow> millis \<Rightarrow> string option \<Rightarrow> auth_db \<Rightarrow> auth_reply \<times> auth_db" where
  "resend_handler ci draw mailOk now email db =
     (if \<not> truthy email then (EMAIL_REQUIRED, db)
      else
        let normalizedEmail = normalize_email (the email) in
        if \<not> isValidEmail normalizedEmail then (INVALID_EMAIL, db)
        else case find_account ci normalizedEmail db of
          None \<Rightarrow> (CODE_MAYBE_SENT, db)
        | Some user \<Rightarrow>
            if a_isActive user then (ALREADY_ACTIVE, db)
            else if \<not> truthy (a_email user) then (NO_EMAIL, db)
            else sent_reply CODE_RESENT (sendVerificationCodeEmail draw mailOk now (a_id user) normalizedEmail db))"

text \<open>A new refresh token for the user, as the last step of a sign-in.\<close>

definition sign_in ::
  "(string \<Rightarrow> string) \<Rightarrow> millis \<Rightarrow> token_draw \<Rightarrow> user_id \<Rightarrow> device_info \<Rightarrow> auth_db \<Rightarrow> string option \<times> auth_db" where
  "sign_in hash now tokenDraw userId body db =
     (case createUniqueRefreshToken hash now tokenDraw userId (Some (buildDeviceInfoFromRequestBody (Some body))) None (ad_tokens db) of
        (None, t) \<Rightarrow> (None, db\<lparr>ad_tokens := t\<rparr>)
      | (Some (raw, dev, i), t) \<Rightarrow> (Some raw, db\<lparr>ad_tokens := t\<rparr>))"

definition verify_handler ::
  "(string \<Rightarrow> string) \<Rightarrow> token_draw \<Rightarrow> millis \<Rightarrow> string option \<Rightarrow> string option \<Rightarrow> device_info \<Rightarrow> auth_db \<Rightarrow> auth_reply \<times> auth_db" where
  "verify_handler hash tokenDraw now email code body db =
     (if \<not> truthy email \<or> \<not> truthy code then (EMAIL_AND_CODE_REQUIRED, db)
      else
        let normalizedEmail = normalize_email (the email); trimmedCode = js_trim (the code) in
        if \<not> isValidEmail normalizedEmail then (INVALID_EMAIL, db)
        else if trimmedCode = [] then (CODE_REQUIRED, db)
        else case List.find (\<lambda>a. a_email a = Some normalizedEmail) (ad_users db) of
          None \<Rightarrow> (USER_NOT_FOUND, db)
        | Some user \<Rightarrow>
            if a_isActive user then (ALREADY_ACTIVE, db)
            else case latest_verification (a_id user) db of
              None \<Rightarrow> (CODE_NOT_FOUND, db)
            | Some v \<Rightarrow>
                if vc_expiresAt v \<le> now
                then (CODE_EXPIRED, write_verification (vc_id v) (\<lambda>x. x\<lparr>vc_used := True\<rparr>) db)
                else if vc_code v \<noteq> trimmedCode
                then
                  let newAttempts = vc_attemptsCount v + 1; tooMany = MAX_VERIFICATION_ATTEMPTS \<le> newAttempts;
                      db1 = write_verification (vc_id v) (\<lambda>x. x\<lparr>vc_attemptsCount := newAttempts,
                              vc_used := (if tooMany then True else vc_used x)\<rparr>) db
                  in (if tooMany then TOO_MANY_CODES else WRONG_CODE, db1)
                else
                  let db1 = write_verification (vc_id v) (\<lambda>x. x\<lparr>vc_used := True\<rparr>) db;
                      db2 = write_account (a_id user)
                              (\<lambda>a. a\<lparr>a_isActive := True, a_profileStatus := PROFILE_ACTIVE\<rparr>) db1
                  in (case sign_in hash now tokenDraw (a_id user) body db2 of
                        (None, db3) \<Rightarrow> (AUTH_FAILED, db3)
                      | (Some raw, db3) \<Rightarrow> (ACTIVATED (a_id user) raw, db3)))"

text \<open>The twenty latest attempts of a user, the newest first.\<close>

definition recent_attempts :: "user_id \<Rightarrow> auth_db \<Rightarrow> login_attempt list" where
  "recent_attempts u db = take 20 (rev (sort_key la_createdAt (filter (\<lambda>a. la_userId a = u) (ad_attempts db))))"

definition add_attempt :: "user_id \<Rightarrow> bool \<Rightarrow> string option \<Rightarrow> millis \<Rightarrow> auth_db \<Rightarrow> auth_db" where
  "add_attempt u ok ip now db =
     db\<lparr>ad_attempts := ad_attempts db @ [\<lparr>la_userId = u, la_success = ok, la_ip = ip, la_createdAt = now\<rparr>]\<rparr>"

definition login_handler ::
  "(string \<Rightarrow> string \<Rightarrow> bool) \<Rightarrow> (string \<Rightarrow> string \<Rightarrow> bool) \<Rightarrow> (string \<Rightarrow> string) \<Rightarrow> token_draw \<Rightarrow> millis \<Rightarrow> string option \<Rightarrow>
   string option \<Rightarrow> string option \<Rightarrow> device_info \<Rightarrow> auth_db \<Rightarrow> auth_reply \<times> auth_db" where
  "login_handler ci bcompare hash tokenDraw now ip email password body db =
     (if \<not> truthy email \<or> \<not> truthy password then (EMAIL_AND_PASSWORD_REQUIRED, db)
      else
        let normalizedEmail = normalize_email (the email) in
        if \<not> isValidEmail normalizedEmail then (INVALID_EMAIL, db)
        else case find_account ci normalizedEmail db of
          None \<Rightarrow> (BAD_CREDENTIALS, db)
        | Some user \<Rightarrow>
            if a_profileStatus user = PROFILE_BLOCKED then (ACCOUNT_BLOCKED, db)
            else if \<not> a_isActive user \<or> a_profileStatus user = PROFILE_PENDING then (ACCOUNT_NOT_ACTIVE, db)
            else if \<not> truthy (a_passwordHash user) then (NO_PASSWORD, db)
            else if \<not> bcompare (the password) (the (a_passwordHash user))
            then
              let db1 = add_attempt (a_id user) False ip now db;
                  failedAttemptsCount = length (filter (\<lambda>a. \<not> la_success a) (recent_attempts (a_id user) db)) + 1
              in if MAX_FAILED_LOGIN_ATTEMPTS \<le> failedAttemptsCount
                 then (TOO_MANY_LOGINS,
                       (write_account (a_id user) (\<lambda>a. a\<lparr>a_profileStatus := PROFILE_BLOCKED\<rparr>) db1)
                         \<lparr>ad_audit := ad_audit db1 @ [AUDIT_BLOCKED (a_id user)]\<rparr>)
                 else (BAD_CREDENTIALS, db1)
            else (case sign_in hash now tokenDraw (a_id user) body db of
                    (None, db1) \<Rightarrow> (AUTH_FAILED, db1)
                  | (Some raw, db1) \<Rightarrow>
                      (LOGIN_OK (a_id user) raw,
                       (add_attempt (a_id user) True ip now db1)
                         \<lparr>ad_audit := ad_audit db1 @ [AUDIT_LOGIN (a_id user)]\<rparr>)))"

section \<open>The handlers as a machine\<close>

text \<open>What the handlers take from other code.\<close>

record auth_env =
  ae_ci :: "string \<Rightarrow> string \<Rightarrow> bool"
  ae_bhash :: "string \<Rightarrow> string"
  ae_bcompare :: "string \<Rightarrow> string \<Rightarrow> bool"
  ae_hash :: "string \<Rightarrow> string"
  ae_userRole :: bool

datatype auth_op =
    RegisterOp nat bool millis "string option" "string option" "string option"
  | ResendOp nat bool millis "string option"
  | VerifyOp token_draw millis "string option" "string option" device_info
  | LoginOp token_draw millis "string option" "string option" "string option" device_info

fun auth_step :: "auth_env \<Rightarrow> auth_op \<Rightarrow> auth_db \<Rightarrow> auth_db" where
  "auth_step ae (RegisterOp draw ok now email pw name) db =
     snd (register_handler (ae_ci ae) (ae_bhash ae) (ae_userRole ae) draw ok now email pw name db)"
| "auth_step ae (ResendOp draw ok now email) db = snd (resend_handler (ae_ci ae) draw ok now email db)"
| "auth_step ae (VerifyOp td now email code body) db = snd (verify_handler (ae_hash ae) td now email code body db)"
| "auth_step ae (LoginOp td now ip email pw body) db =
     snd (login_handler (ae_ci ae) (ae_bcompare ae) (ae_hash ae) td now ip email pw body db)"

section \<open>What the handlers do to the table of codes\<close>

lemma post_tables [simp]:
  "ad_verifications (snd (post ok e c k db)) = ad_verifications db" "ad_verSeq (snd (post ok e c k db)) = ad_verSeq db"
  "ad_users (snd (post ok e c k db)) = ad_users db" "ad_resets (snd (post ok e c k db)) = ad_resets db"
  "ad_resetSeq (snd (post ok e c k db)) = ad_resetSeq db" "ad_attempts (snd (post ok e c k db)) = ad_attempts db"
  "ad_tokens (snd (post ok e c k db)) = ad_tokens db"
  by (simp_all add: post_def)

lemma auth_write_tables [simp]:
  "ad_verifications (write_account i f db) = ad_verifications db" "ad_verSeq (write_account i f db) = ad_verSeq db"
  "ad_users (write_account i f db) = update_where (\<lambda>a. a_id a = i) f (ad_users db)"
  "ad_resets (write_account i f db) = ad_resets db" "ad_resetSeq (write_account i f db) = ad_resetSeq db"
  "ad_tokens (write_account i f db) = ad_tokens db" "ad_attempts (write_account i f db) = ad_attempts db"
  "ad_verifications (write_verification j g db) = update_where (\<lambda>v. vc_id v = j) g (ad_verifications db)"
  "ad_verSeq (write_verification j g db) = ad_verSeq db" "ad_users (write_verification j g db) = ad_users db"
  "ad_resets (write_verification j g db) = ad_resets db" "ad_resetSeq (write_verification j g db) = ad_resetSeq db"
  "ad_tokens (write_verification j g db) = ad_tokens db" "ad_attempts (write_verification j g db) = ad_attempts db"
  by (simp_all add: write_account_def write_verification_def)

lemma sign_in_tables [simp]:
  "ad_verifications (snd (sign_in h now td u body db)) = ad_verifications db"
  "ad_verSeq (snd (sign_in h now td u body db)) = ad_verSeq db"
  "ad_users (snd (sign_in h now td u body db)) = ad_users db"
  "ad_resets (snd (sign_in h now td u body db)) = ad_resets db"
  "ad_resetSeq (snd (sign_in h now td u body db)) = ad_resetSeq db"
  "ad_attempts (snd (sign_in h now td u body db)) = ad_attempts db"
  by (auto simp: sign_in_def split: prod.splits option.splits)

lemma add_attempt_tables [simp]:
  "ad_verifications (add_attempt u ok ip now db) = ad_verifications db"
  "ad_verSeq (add_attempt u ok ip now db) = ad_verSeq db"
  "ad_users (add_attempt u ok ip now db) = ad_users db"
  "ad_resets (add_attempt u ok ip now db) = ad_resets db"
  "ad_resetSeq (add_attempt u ok ip now db) = ad_resetSeq db"
  "ad_attempts (add_attempt u ok ip now db) =
     ad_attempts db @ [\<lparr>la_userId = u, la_success = ok, la_ip = ip, la_createdAt = now\<rparr>]"
  by (simp_all add: add_attempt_def)

lemma sent_reply_snd [simp]: "snd (sent_reply ok r) = snd r"
  by (auto simp: sent_reply_def split: prod.splits send_result.splits)

abbreviation vc_open :: "verification \<Rightarrow> bool" where
  "vc_open v \<equiv> \<not> vc_used v"

abbreviation ver_touches :: "verification list \<Rightarrow> verification list \<Rightarrow> bool" where
  "ver_touches \<equiv> touches vc_id vc_userId vc_open"

definition ver_fresh :: "auth_db \<Rightarrow> bool" where
  "ver_fresh db \<longleftrightarrow> ad_verSeq db \<notin> vc_id ` set (ad_verifications db)"

abbreviation ver_moves :: "auth_db \<Rightarrow> auth_db \<Rightarrow> bool" where
  "ver_moves db db' \<equiv> moves (ver_fresh db) vc_id vc_userId vc_open (ad_verifications db) (ad_verifications db')"

lemma latest_verificationD:
  assumes "latest_verification u db = Some v"
  shows "v \<in> set (ad_verifications db)" "vc_userId v = u" "\<not> vc_used v"
  using find_latest_SomeD [OF assms [unfolded latest_verification_def]] by simp_all

lemma write_latest_touches:
  assumes "distinct (map vc_id (ad_verifications db))" and "latest_verification u db = Some v"
    and "\<And>x. vc_id (f x) = vc_id x" and "\<And>x. vc_userId (f x) = vc_userId x"
  shows "ver_touches (ad_verifications db) (update_where (\<lambda>x. vc_id x = vc_id v) f (ad_verifications db))"
  by (rule touches_write [OF assms(1)]) (use latest_verificationD [OF assms(2)] assms(3,4) in simp_all)

lemma new_code_rows:
  "ad_verifications (snd (send_new_code draw ok now u e db)) = ad_verifications db @
     [\<lparr>vc_id = ad_verSeq db, vc_userId = u, vc_code = generateVerificationCode draw,
       vc_expiresAt = now + VERIFICATION_CODE_EXPIRATION_MS, vc_used = False,
       vc_attemptsCount = 0, vc_lastSentAt = Some now, vc_createdAt = now\<rparr>]"
  by (simp add: send_new_code_def Let_def)

lemma replace_code_moves:
  assumes dist: "distinct (map vc_id (ad_verifications db))" and v: "latest_verification u db = Some v"
  shows "ver_moves db (snd (send_new_code draw ok now u e (write_verification (vc_id v) (\<lambda>x. x\<lparr>vc_used := True\<rparr>) db)))"
proof (rule movesI [OF write_latest_touches [OF dist v]])
  fix x
  assume one: "one_open vc_userId vc_open (ad_verifications db)"
    and x: "x \<in> set (update_where (\<lambda>x. vc_id x = vc_id v) (\<lambda>x. x\<lparr>vc_used := True\<rparr>) (ad_verifications db))"
      "vc_userId x = vc_userId \<lparr>vc_id = ad_verSeq db, vc_userId = u, vc_code = generateVerificationCode draw,
        vc_expiresAt = now + VERIFICATION_CODE_EXPIRATION_MS, vc_used = False,
        vc_attemptsCount = 0, vc_lastSentAt = Some now, vc_createdAt = now\<rparr>"
  show "\<not> vc_open x"
    using x(1)
  proof (cases rule: update_whereE)
    case kept
    show ?thesis
    proof
      assume "vc_open x"
      then have "x = v"
        using one_open_eq [OF one latest_verificationD(1) [OF v] _ kept(1)] latest_verificationD [OF v] x(2) by simp
      then show False using kept(2) by simp
    qed
  qed simp
qed (simp_all add: new_code_rows ver_fresh_def)

lemma send_moves:
  assumes dist: "distinct (map vc_id (ad_verifications db))"
  shows "ver_moves db (snd (sendVerificationCodeEmail draw ok now u e db))"
proof (cases "latest_verification u db")
  case None
  then have none: "\<not> vc_open x" if "x \<in> set (ad_verifications db)" "vc_userId x = u" for x
    using that by (auto simp: latest_verification_def find_latest_None)
  have "ver_moves db (snd (send_new_code draw ok now u e db))"
    by (rule movesI [OF touches_refl new_code_rows]) (use none in \<open>auto simp: ver_fresh_def\<close>)
  then show ?thesis by (simp add: sendVerificationCodeEmail_def None)
next
  case (Some v)
  have "ver_touches (ad_verifications db) (update_where (\<lambda>x. vc_id x = vc_id v)
      (\<lambda>x. x\<lparr>vc_lastSentAt := Some now, vc_expiresAt := now + VERIFICATION_CODE_EXPIRATION_MS\<rparr>) (ad_verifications db))"
    by (rule write_latest_touches [OF dist Some]) simp_all
  then show ?thesis
    using replace_code_moves [OF dist Some] by (simp add: sendVerificationCodeEmail_def Some moves_touch)
qed

lemma register_sends:
  obtains (same) "snd (register_handler ci bh role draw ok now email pw name db) = db"
  | (sent) u e db0 where "snd (register_handler ci bh role draw ok now email pw name db) =
        snd (sendVerificationCodeEmail draw ok now u e db0)"
      "ad_verifications db0 = ad_verifications db" "ad_verSeq db0 = ad_verSeq db"
      "ad_resets db0 = ad_resets db" "ad_resetSeq db0 = ad_resetSeq db"
proof -
  let ?r = "snd (register_handler ci bh role draw ok now email pw name db)"
  have "?r = db \<or> (\<exists>u e db0. ?r = snd (sendVerificationCodeEmail draw ok now u e db0) \<and>
      ad_verifications db0 = ad_verifications db \<and> ad_verSeq db0 = ad_verSeq db \<and>
      ad_resets db0 = ad_resets db \<and> ad_resetSeq db0 = ad_resetSeq db)"
    unfolding register_handler_def Let_def by (simp split: option.split) fastforce
  then show thesis using that by blast
qed

lemma resend_sends:
  obtains (same) "snd (resend_handler ci draw ok now email db) = db"
  | (sent) u e where "snd (resend_handler ci draw ok now email db) = snd (sendVerificationCodeEmail draw ok now u e db)"
proof -
  let ?r = "snd (resend_handler ci draw ok now email db)"
  have "?r = db \<or> (\<exists>u e. ?r = snd (sendVerificationCodeEmail draw ok now u e db))"
    unfolding resend_handler_def Let_def by (simp split: option.split) blast
  then show thesis using that by blast
qed

lemma verify_touches:
  assumes dist: "distinct (map vc_id (ad_verifications db))"
  shows "ver_touches (ad_verifications db) (ad_verifications (snd (verify_handler h td now email code body db)))"
proof (cases "\<exists>user v. List.find (\<lambda>a. a_email a = Some (normalize_email (the email))) (ad_users db) = Some user \<and>
    latest_verification (a_id user) db = Some v")
  case True
  then obtain user v where find: "List.find (\<lambda>a. a_email a = Some (normalize_email (the email))) (ad_users db) = Some user"
    and v: "latest_verification (a_id user) db = Some v" by blast
  have w: "ver_touches (ad_verifications db) (update_where (\<lambda>x. vc_id x = vc_id v) f (ad_verifications db))"
    if "\<And>x. vc_id (f x) = vc_id x" "\<And>x. vc_userId (f x) = vc_userId x" for f
    using write_latest_touches [OF dist v that] .
  show ?thesis
    by (auto simp: verify_handler_def find v Let_def split_beta intro!: w split: option.split)
next
  case False
  then have "snd (verify_handler h td now email code body db) = db"
    by (auto simp: verify_handler_def Let_def split: option.splits)
  then show ?thesis by simp
qed

lemma login_tables:
  "ad_verifications (snd (login_handler ci bc h td now ip email pw body db)) = ad_verifications db"
  "ad_verSeq (snd (login_handler ci bc h td now ip email pw body db)) = ad_verSeq db"
  "ad_resets (snd (login_handler ci bc h td now ip email pw body db)) = ad_resets db"
  "ad_resetSeq (snd (login_handler ci bc h td now ip email pw body db)) = ad_resetSeq db"
  by (auto simp: login_handler_def Let_def split_beta split: option.splits)

lemma auth_step_moves:
  assumes dist: "distinct (map vc_id (ad_verifications db))"
  shows "ver_moves db (auth_step ae a db)"
proof (cases a)
  case (RegisterOp draw ok now email pw name)
  show ?thesis
  proof (cases rule: register_sends [of "ae_ci ae" "ae_bhash ae" "ae_userRole ae" draw ok now email pw name db])
    case same
    then show ?thesis by (simp add: RegisterOp moves_touch)
  next
    case (sent u e db0)
    then show ?thesis using send_moves [of db0 draw ok now u e] dist by (simp add: RegisterOp ver_fresh_def)
  qed
next
  case (ResendOp draw ok now email)
  show ?thesis
  proof (cases rule: resend_sends [of "ae_ci ae" draw ok now email db])
    case same
    then show ?thesis by (simp add: ResendOp moves_touch)
  next
    case (sent u e)
    then show ?thesis using send_moves [OF dist] by (simp add: ResendOp)
  qed
next
  case (VerifyOp td now email code body)
  then show ?thesis using verify_touches [OF dist] by (simp add: moves_touch)
next
  case (LoginOp td now ip email pw body)
  then show ?thesis by (simp add: login_tables moves_touch)
qed

interpretation vm: owned_session_machine ad_verifications vc_id vc_used "auth_step ae" "\<lambda>_. ver_fresh" vc_userId
  for ae :: auth_env
proof unfold_locales
  fix d :: auth_db and a
  assume dist: "distinct (map vc_id (ad_verifications d))"
  show "r \<in> set (ad_verifications (auth_step ae a d))" if "r \<in> set (ad_verifications d)" "vc_used r" for r
    by (rule moves_frozen [OF auth_step_moves [OF dist] that(1)]) (simp add: that(2))
  show "distinct (map vc_id (ad_verifications (auth_step ae a d)))" if "ver_fresh d"
    by (rule moves_distinct [OF auth_step_moves [OF dist] that dist])
  show "one_open vc_userId vc_open (ad_verifications (auth_step ae a d))"
    if "one_open vc_userId vc_open (ad_verifications d)"
    by (rule moves_one_open [OF auth_step_moves [OF dist] that])
qed

section \<open>The sequence and the budget of wrong codes\<close>

definition attempts_within :: "verification \<Rightarrow> bool" where
  "attempts_within v \<longleftrightarrow> 0 \<le> vc_attemptsCount v \<and> vc_attemptsCount v \<le> MAX_VERIFICATION_ATTEMPTS \<and>
     (\<not> vc_used v \<longrightarrow> vc_attemptsCount v < MAX_VERIFICATION_ATTEMPTS)"

definition ver_ok :: "auth_db \<Rightarrow> bool" where
  "ver_ok db \<longleftrightarrow> distinct (map vc_id (ad_verifications db)) \<and> (\<forall>v \<in> set (ad_verifications db). vc_id v < ad_verSeq db \<and> attempts_within v)"

lemma ver_ok_fresh: "ver_ok db \<Longrightarrow> ver_fresh db"
  by (auto simp: ver_ok_def ver_fresh_def)

lemma ver_ok_same:
  "ver_ok db \<Longrightarrow> ad_verifications db' = ad_verifications db \<Longrightarrow> ad_verSeq db' = ad_verSeq db \<Longrightarrow> ver_ok db'"
  by (simp add: ver_ok_def)

lemma ver_ok_write:
  assumes "ver_ok db" and "\<And>x. vc_id (f x) = vc_id x"
    and "\<And>x. x \<in> set (ad_verifications db) \<Longrightarrow> vc_id x = i \<Longrightarrow> attempts_within x \<Longrightarrow> attempts_within (f x)"
  shows "ver_ok (write_verification i f db)"
  using assms by (auto simp: ver_ok_def update_where_key ball_update_where)

lemma ver_ok_new_code: "ver_ok db \<Longrightarrow> ver_ok (snd (send_new_code draw ok now u e db))"
  by (auto simp: ver_ok_def send_new_code_def Let_def attempts_within_def MAX_VERIFICATION_ATTEMPTS_def)

lemma attempts_within_used [simp]: "attempts_within v \<Longrightarrow> attempts_within (v\<lparr>vc_used := True\<rparr>)"
  by (simp add: attempts_within_def)

lemma ver_ok_send: "ver_ok db \<Longrightarrow> ver_ok (snd (sendVerificationCodeEmail draw ok now u e db))"
proof (cases "latest_verification u db")
  case (Some v)
  assume ok: "ver_ok db"
  have used: "ver_ok (write_verification (vc_id v) (\<lambda>x. x\<lparr>vc_used := True\<rparr>) db)"
    by (rule ver_ok_write [OF ok]) simp_all
  have "ver_ok (write_verification (vc_id v) (\<lambda>x. x\<lparr>vc_lastSentAt := Some now,
      vc_expiresAt := now + VERIFICATION_CODE_EXPIRATION_MS\<rparr>) db)"
    by (rule ver_ok_write [OF ok]) (simp_all add: attempts_within_def)
  then have "ver_ok (snd (post ok' e c k (write_verification (vc_id v) (\<lambda>x. x\<lparr>vc_lastSentAt := Some now,
      vc_expiresAt := now + VERIFICATION_CODE_EXPIRATION_MS\<rparr>) db)))" for ok' c k
    by (rule ver_ok_same) simp_all
  then show ?thesis using ok used by (simp add: sendVerificationCodeEmail_def Some ver_ok_new_code)
qed (simp add: sendVerificationCodeEmail_def ver_ok_new_code)

lemma ver_ok_verify:
  assumes ok: "ver_ok db"
  shows "ver_ok (snd (verify_handler h td now email code body db))"
proof (cases "\<exists>user v. List.find (\<lambda>a. a_email a = Some (normalize_email (the email))) (ad_users db) = Some user \<and>
    latest_verification (a_id user) db = Some v")
  case True
  then obtain user v where find: "List.find (\<lambda>a. a_email a = Some (normalize_email (the email))) (ad_users db) = Some user"
    and v: "latest_verification (a_id user) db = Some v" by blast
  have used: "ver_ok (write_verification (vc_id v) (\<lambda>x. x\<lparr>vc_used := True\<rparr>) db)"
    by (rule ver_ok_write [OF ok]) simp_all
  have v_in: "attempts_within v" "vc_attemptsCount v < MAX_VERIFICATION_ATTEMPTS"
    using ok latest_verificationD [OF v] by (auto simp: ver_ok_def attempts_within_def)
  have wrong: "ver_ok (write_verification (vc_id v) (\<lambda>x. x\<lparr>vc_attemptsCount := vc_attemptsCount v + 1,
      vc_used := (if MAX_VERIFICATION_ATTEMPTS \<le> vc_attemptsCount v + 1 then True else vc_used x)\<rparr>) db)"
    by (rule ver_ok_write [OF ok]) (use v_in in \<open>simp_all add: attempts_within_def\<close>)
  have signed: "ver_ok (snd (sign_in h now td u body (write_account i f db0)))" if "ver_ok db0" for u i f db0
    using that by (rule ver_ok_same) simp_all
  show ?thesis
    using ok used wrong signed [OF used]
    by (simp add: verify_handler_def find v Let_def split_beta split: option.split)
next
  case False
  then have "snd (verify_handler h td now email code body db) = db"
    by (auto simp: verify_handler_def Let_def split: option.splits)
  then show ?thesis using ok by simp
qed

lemma ver_ok_step:
  assumes ok: "ver_ok db"
  shows "ver_ok (auth_step ae a db)"
proof (cases a)
  case (RegisterOp draw m now email pw name)
  show ?thesis
  proof (cases rule: register_sends [of "ae_ci ae" "ae_bhash ae" "ae_userRole ae" draw m now email pw name db])
    case (sent u e db0)
    have "ver_ok db0" using ok sent(2,3) by (rule ver_ok_same)
    then show ?thesis using sent(1) by (simp add: RegisterOp ver_ok_send)
  qed (simp add: RegisterOp ok)
next
  case (ResendOp draw m now email)
  show ?thesis
    by (cases rule: resend_sends [of "ae_ci ae" draw m now email db]) (simp_all add: ResendOp ok ver_ok_send)
next
  case (VerifyOp td now email code body)
  then show ?thesis using ver_ok_verify [OF ok] by simp
next
  case (LoginOp td now ip email pw body)
  show ?thesis unfolding LoginOp auth_step.simps by (rule ver_ok_same [OF ok]) (simp_all add: login_tables)
qed

lemma ver_ok_run: "ver_ok db \<Longrightarrow> ver_ok (vm.run ae as db) \<and> vm.fresh_run ae as db"
  by (induction as arbitrary: db) (auto simp: ver_ok_step ver_ok_fresh)

section \<open>Signing in\<close>

lemma sign_in_token:
  assumes "sign_in h now td u body db = (Some raw, db')"
  obtains dev where "raw = dr_raw td"
    "td_tokens (ad_tokens db') = td_tokens (ad_tokens db) @ [new_token h td u (now + token_ttl) dev None (td_seq (ad_tokens db))]"
proof -
  let ?info = "Some (buildDeviceInfoFromRequestBody (Some body))"
  show thesis
  proof (cases rule: create_cases [of h now td u ?info None "ad_tokens db"])
    case (taken t)
    then show thesis using assms by (simp add: sign_in_def)
  next
    case (made dev t)
    then show thesis using assms that [of dev] by (auto simp: sign_in_def)
  qed
qed

lemma find_account_write:
  assumes "find_account ci e db = Some a" and "\<And>x. a_email (f x) = a_email x"
  shows "find_account ci e (write_account (a_id a) f db) = Some (f a)"
  using assms by (simp add: find_account_def find_update_where)

lemma find_account_same: "ad_users db' = ad_users db \<Longrightarrow> find_account ci e db' = find_account ci e db"
  by (simp add: find_account_def)

section \<open>Lockout\<close>

lemma insort_key_snoc: "k x \<le> k a \<Longrightarrow> insort_key k x (ys @ [a]) = insort_key k x ys @ [a]"
  by (induction ys) auto

lemma sort_key_snoc:
  "(\<And>x. x \<in> set xs \<Longrightarrow> k x \<le> k a) \<Longrightarrow> sort_key k (xs @ [a]) = sort_key k xs @ [a]"
  by (induction xs) (simp_all add: insort_key_snoc)

lemma recent_attempts_add:
  assumes "\<And>x. x \<in> set (ad_attempts db) \<Longrightarrow> la_createdAt x \<le> now"
  shows "recent_attempts u (add_attempt u ok ip now db) =
    take 20 (\<lparr>la_userId = u, la_success = ok, la_ip = ip, la_createdAt = now\<rparr> # recent_attempts u db)"
proof -
  have "sort_key la_createdAt (filter (\<lambda>x. la_userId x = u) (ad_attempts db) @ [\<lparr>la_userId = u, la_success = ok, la_ip = ip, la_createdAt = now\<rparr>])
      = sort_key la_createdAt (filter (\<lambda>x. la_userId x = u) (ad_attempts db)) @ [\<lparr>la_userId = u, la_success = ok, la_ip = ip, la_createdAt = now\<rparr>]"
    by (rule sort_key_snoc) (use assms in auto)
  then show ?thesis by (simp add: recent_attempts_def min_def)
qed

lemma recent_attempts_same: "ad_attempts db' = ad_attempts db \<Longrightarrow> recent_attempts u db' = recent_attempts u db"
  by (simp add: recent_attempts_def)

text \<open>The newest \<open>n\<close> attempts of a user all failed.\<close>

definition streak :: "user_id \<Rightarrow> nat \<Rightarrow> auth_db \<Rightarrow> bool" where
  "streak u n db \<longleftrightarrow> n \<le> length (recent_attempts u db) \<and> list_all (\<lambda>a. \<not> la_success a) (take n (recent_attempts u db))"

lemma streak_0 [simp]: "streak u 0 db"
  by (simp add: streak_def)

lemma streak_count:
  assumes "streak u n db"
  shows "n \<le> length (filter (\<lambda>a. \<not> la_success a) (recent_attempts u db))"
proof -
  let ?xs = "recent_attempts u db"
  have "n = length (filter (\<lambda>a. \<not> la_success a) (take n ?xs))"
    using assms by (simp add: streak_def list_all_iff filter_id_conv [THEN iffD2] min_def)
  also have "\<dots> \<le> length (filter (\<lambda>a. \<not> la_success a) (take n ?xs @ drop n ?xs))"
    unfolding filter_append by simp
  finally show ?thesis by simp
qed

lemma streak_add:
  assumes "streak u n db" and "n < 20" and "\<And>x. x \<in> set (ad_attempts db) \<Longrightarrow> la_createdAt x \<le> now"
  shows "streak u (Suc n) (add_attempt u False ip now db)"
proof -
  let ?R = "recent_attempts u db"
  have "recent_attempts u (add_attempt u False ip now db) =
      \<lparr>la_userId = u, la_success = False, la_ip = ip, la_createdAt = now\<rparr> # take 19 ?R"
    using recent_attempts_add [of db now u False ip] assms(3) by (simp add: take_Cons')
  moreover have "n \<le> length (take 19 ?R)" "take n (take 19 ?R) = take n ?R"
    using assms(1,2) by (simp_all add: streak_def)
  ultimately show ?thesis using assms(1) by (simp add: streak_def)
qed

lemma streak_same: "ad_attempts db' = ad_attempts db \<Longrightarrow> streak u n db' = streak u n db"
  by (simp add: streak_def recent_attempts_def)

text \<open>One login of an active account with a wrong password.\<close>

lemma wrong_login:
  assumes email: "truthy email" "isValidEmail (normalize_email (the email))" and pw: "pw \<noteq> []"
    and find: "find_account ci (normalize_email (the email)) db = Some a"
    and a: "a_isActive a" "a_profileStatus a = PROFILE_ACTIVE" "a_passwordHash a = Some hs" "hs \<noteq> []" and wrong: "\<not> bc pw hs"
  shows "snd (login_handler ci bc h td now ip email (Some pw) body db) =
    (if 18 \<le> length (filter (\<lambda>x. \<not> la_success x) (recent_attempts (a_id a) db))
     then (write_account (a_id a) (\<lambda>a. a\<lparr>a_profileStatus := PROFILE_BLOCKED\<rparr>) (add_attempt (a_id a) False ip now db))
            \<lparr>ad_audit := ad_audit db @ [AUDIT_BLOCKED (a_id a)]\<rparr>
     else add_attempt (a_id a) False ip now db)"
proof -
  have "MAX_FAILED_LOGIN_ATTEMPTS \<le> n + 1 \<longleftrightarrow> 18 \<le> n" for n by (auto simp: MAX_FAILED_LOGIN_ATTEMPTS_def)
  moreover have "ad_audit (add_attempt (a_id a) False ip now db) = ad_audit db" by (simp add: add_attempt_def)
  ultimately show ?thesis
    using assms by (simp add: login_handler_def truthy_def Let_def)
qed

lemma blocked_login:
  assumes "truthy email" "isValidEmail (normalize_email (the email))" and "truthy pw"
    and "find_account ci (normalize_email (the email)) db = Some a" and "a_profileStatus a = PROFILE_BLOCKED"
  shows "login_handler ci bc h td now ip email pw body db = (ACCOUNT_BLOCKED, db)"
  using assms by (simp add: login_handler_def Let_def)

text \<open>A sequence of logins with one e-mail: time, address and password of each.\<close>

fun login_run ::
  "(string \<Rightarrow> string \<Rightarrow> bool) \<Rightarrow> (string \<Rightarrow> string \<Rightarrow> bool) \<Rightarrow> (string \<Rightarrow> string) \<Rightarrow> token_draw \<Rightarrow> device_info \<Rightarrow> string option \<Rightarrow>
   (millis \<times> string option \<times> string) list \<Rightarrow> auth_db \<Rightarrow> auth_db" where
  "login_run ci bc h td body email [] db = db"
| "login_run ci bc h td body email ((now, ip, pw) # ws) db =
     login_run ci bc h td body email ws (snd (login_handler ci bc h td now ip email (Some pw) body db))"

lemma blocked_run:
  assumes "truthy email" "isValidEmail (normalize_email (the email))" and "\<forall>(t, ip, pw) \<in> set ws. pw \<noteq> []"
    and "find_account ci (normalize_email (the email)) db = Some a" and "a_profileStatus a = PROFILE_BLOCKED"
  shows "login_run ci bc h td body email ws db = db"
  using assms by (induction ws) (auto simp: blocked_login truthy_def)

lemma wrong_run_blocks:
  assumes email: "truthy email" "isValidEmail (normalize_email (the email))"
    and "\<forall>(t, ip, pw) \<in> set ws. pw \<noteq> [] \<and> \<not> bc pw hs" and "sorted (map fst ws)"
    and "find_account ci (normalize_email (the email)) db = Some a"
    and "a_isActive a" "a_profileStatus a = PROFILE_ACTIVE" "a_passwordHash a = Some hs" "hs \<noteq> []"
    and "\<forall>x \<in> set (ad_attempts db). \<forall>(t, ip, pw) \<in> set ws. la_createdAt x \<le> t"
    and "streak (a_id a) n db" and "n \<le> 18" and "19 \<le> n + length ws"
  shows "find_account ci (normalize_email (the email)) (login_run ci bc h td body email ws db) =
    Some (a\<lparr>a_profileStatus := PROFILE_BLOCKED\<rparr>)"
  using assms(3-)
proof (induction ws arbitrary: db n)
  case Nil
  then show ?case by simp
next
  case (Cons w ws)
  obtain now ip pw where w: "w = (now, ip, pw)" by (cases w)
  have pw: "pw \<noteq> []" "\<not> bc pw hs" using Cons.prems(1) w by auto
  let ?db1 = "snd (login_handler ci bc h td now ip email (Some pw) body db)"
  let ?att = "add_attempt (a_id a) False ip now db"
  have step: "?db1 = (if 18 \<le> length (filter (\<lambda>x. \<not> la_success x) (recent_attempts (a_id a) db))
     then (write_account (a_id a) (\<lambda>a. a\<lparr>a_profileStatus := PROFILE_BLOCKED\<rparr>) ?att)
            \<lparr>ad_audit := ad_audit db @ [AUDIT_BLOCKED (a_id a)]\<rparr>
     else ?att)"
    by (rule wrong_login [where hs = hs]) (use Cons.prems email pw in simp_all)
  have old: "la_createdAt x \<le> now" if "x \<in> set (ad_attempts db)" for x using Cons.prems(8) that by (auto simp: w)
  have later: "now \<le> t" if "(t, ip', pw') \<in> set ws" for t ip' pw' using Cons.prems(2) that by (force simp: w)
  have find: "find_account ci (normalize_email (the email)) ?att = Some a"
    using Cons.prems(3) find_account_same [of ?att db] by simp
  show ?case
  proof (cases "18 \<le> length (filter (\<lambda>x. \<not> la_success x) (recent_attempts (a_id a) db))")
    case True
    then have "find_account ci (normalize_email (the email)) ?db1 = Some (a\<lparr>a_profileStatus := PROFILE_BLOCKED\<rparr>)"
      unfolding step using find_account_write [OF find, of "\<lambda>a. a\<lparr>a_profileStatus := PROFILE_BLOCKED\<rparr>"]
      by (simp add: find_account_def)
    moreover from this have "login_run ci bc h td body email ws ?db1 = ?db1"
      by (rule blocked_run [OF email, rotated]) (use Cons.prems(1) in \<open>auto simp: w\<close>)
    ultimately show ?thesis by (simp add: w)
  next
    case False
    then have small: "n < 18" using streak_count [OF Cons.prems(9)] by simp
    then have str: "streak (a_id a) (Suc n) ?att" using Cons.prems(9) old by (intro streak_add) auto
    have db1: "?db1 = ?att" using step False by simp
    have "find_account ci (normalize_email (the email)) (login_run ci bc h td body email ws ?att) =
        Some (a\<lparr>a_profileStatus := PROFILE_BLOCKED\<rparr>)"
    proof (rule Cons.IH [OF _ _ find _ _ _ _ _ str])
      show "\<forall>x \<in> set (ad_attempts ?att). \<forall>(t, ip, pw) \<in> set ws. la_createdAt x \<le> t"
        using Cons.prems(8) later by (auto simp: w)
    qed (use Cons.prems small in \<open>auto simp: w\<close>)
    then show ?thesis by (simp add: w db1)
  qed
qed

section \<open>Properties\<close>

definition demo_account :: account where
  "demo_account = \<lparr>a_id = 7, a_email = Some ''new@b.ru'', a_passwordHash = Some ''hsecret'', a_isActive = True,
     a_profileStatus = PROFILE_ACTIVE, a_firstName = None\<rparr>"

definition demo_auth :: auth_db where
  "demo_auth = \<lparr>ad_users = [demo_account], ad_verifications = [], ad_resets = [], ad_attempts = [], ad_audit = [],
     ad_outbox = [], ad_tokens = demo_tokens, ad_userSeq = 8, ad_verSeq = 1, ad_resetSeq = 1\<rparr>"

definition demo_compare :: "string \<Rightarrow> string \<Rightarrow> bool" where
  "demo_compare p h \<longleftrightarrow> h = CHR ''h'' # p"

lemma demo_email [simp]: "normalize_email ''new@b.ru'' = ''new@b.ru''" "isValidEmail ''new@b.ru''"
  "normalize_email ''old@b.ru'' = ''old@b.ru''" "isValidEmail ''old@b.ru''"
  using EMAIL_RE_demo
  by (simp_all add: normalize_email_def js_trim_def js_space_def js_lower_def js_lower_char_def isValidEmail_def re_test_denotes)

lemma demo_find: "find_account (=) ''new@b.ru'' demo_auth = Some demo_account"
  by (simp add: find_account_def demo_auth_def demo_account_def)

lemma login_okD:
  assumes "login_handler ci bc h td now ip email pw body db = (LOGIN_OK u raw, db')"
  obtains a db1 where "truthy email" "truthy pw" "find_account ci (normalize_email (the email)) db = Some a" "a_id a = u"
    "a_isActive a" "a_profileStatus a = PROFILE_ACTIVE" "bc (the pw) (the (a_passwordHash a))" "truthy (a_passwordHash a)"
    "sign_in h now td u body db = (Some raw, db1)"
    "db' = (add_attempt u True ip now db1)\<lparr>ad_audit := ad_audit db1 @ [AUDIT_LOGIN u]\<rparr>"
proof -
  obtain a where "truthy email" "truthy pw" and a: "find_account ci (normalize_email (the email)) db = Some a"
    "a_profileStatus a \<noteq> PROFILE_BLOCKED" "a_isActive a" "a_profileStatus a \<noteq> PROFILE_PENDING"
    "truthy (a_passwordHash a)" "bc (the pw) (the (a_passwordHash a))"
    and rest: "(case sign_in h now td (a_id a) body db of (None, db1) \<Rightarrow> (AUTH_FAILED, db1)
       | (Some raw, db1) \<Rightarrow> (LOGIN_OK (a_id a) raw, (add_attempt (a_id a) True ip now db1)
            \<lparr>ad_audit := ad_audit db1 @ [AUDIT_LOGIN (a_id a)]\<rparr>)) = (LOGIN_OK u raw, db')"
    using assms by (auto simp: login_handler_def Let_def split: if_splits option.splits)
  moreover have "a_profileStatus a = PROFILE_ACTIVE" using a(2,4) by (cases "a_profileStatus a") simp_all
  ultimately show thesis
    using that by (auto split: prod.splits option.splits)
qed

text \<open>
  A login succeeds only for the account whose address matches, when it is active, neither pending
  nor blocked, and bcrypt accepts the password; it stores one refresh token, for that account, and
  records the success.
\<close>

theorem login_sound:
  assumes "login_handler ci bc h td now ip email pw body db = (LOGIN_OK u raw, db')"
  shows "\<exists>a. find_account ci (normalize_email (the email)) db = Some a \<and> a_id a = u \<and> a_isActive a \<and>
    a_profileStatus a = PROFILE_ACTIVE \<and> bc (the pw) (the (a_passwordHash a)) \<and>
    (\<exists>r. td_tokens (ad_tokens db') = td_tokens (ad_tokens db) @ [r] \<and> rt_userId r = u \<and>
       rt_tokenHash r = Some (h raw) \<and> \<not> rt_revoked r) \<and>
    ad_attempts db' = ad_attempts db @ [\<lparr>la_userId = u, la_success = True, la_ip = ip, la_createdAt = now\<rparr>]"
proof -
  obtain a db1 where a: "find_account ci (normalize_email (the email)) db = Some a" "a_id a = u"
    "a_isActive a" "a_profileStatus a = PROFILE_ACTIVE" "bc (the pw) (the (a_passwordHash a))"
    and s: "sign_in h now td u body db = (Some raw, db1)"
    and db': "db' = (add_attempt u True ip now db1)\<lparr>ad_audit := ad_audit db1 @ [AUDIT_LOGIN u]\<rparr>"
    by (rule login_okD [OF assms]) blast
  obtain dev where "raw = dr_raw td" and t: "td_tokens (ad_tokens db1) = td_tokens (ad_tokens db) @
      [new_token h td u (now + token_ttl) dev None (td_seq (ad_tokens db))]"
    by (rule sign_in_token [OF s])
  moreover have "ad_attempts db1 = ad_attempts db" using sign_in_tables(6) [of h now td u body db] s by simp
  ultimately show ?thesis using a by (auto simp: db' add_attempt_def)
qed

lemma demo_login:
  "fst (login_handler (=) demo_compare demo_hash demo_draw 500 None (Some ''new@b.ru'') (Some ''secret'') no_device_info demo_auth) =
     LOGIN_OK 7 ''new''"
proof -
  have "buildDeviceInfoFromRequestBody (Some no_device_info) = no_device_info"
    by (simp add: buildDeviceInfoFromRequestBody_def normalizeDeviceInfo_def no_device_info_def clean_def
        non_empty_def or_empty_def js_trim_def)
  then have "fst (sign_in demo_hash 500 demo_draw 7 no_device_info demo_auth) = Some ''new''"
    by (simp add: sign_in_def createUniqueRefreshToken_def persistRefreshToken_def demo_no_device demo_auth_def
        demo_tokens_def demo_token_def demo_hash_def demo_draw_def Let_def)
  then show ?thesis
    by (cases "sign_in demo_hash 500 demo_draw 7 no_device_info demo_auth")
      (simp add: login_handler_def truthy_def demo_find demo_account_def demo_compare_def)
qed

theorem login_sound_witness:
  "\<exists>db' r. login_handler (=) demo_compare demo_hash demo_draw 500 None (Some ''new@b.ru'') (Some ''secret'') no_device_info demo_auth =
     (LOGIN_OK 7 ''new'', db') \<and> td_tokens (ad_tokens db') = [demo_token, r] \<and> rt_userId r = 7"
proof -
  let ?r = "login_handler (=) demo_compare demo_hash demo_draw 500 None (Some ''new@b.ru'') (Some ''secret'') no_device_info demo_auth"
  have r: "?r = (LOGIN_OK 7 ''new'', snd ?r)" using demo_login by (metis prod.collapse)
  have "td_tokens (ad_tokens demo_auth) = [demo_token]" by (simp add: demo_auth_def demo_tokens_def)
  with login_sound [OF r] r show ?thesis by auto
qed

text \<open>
  C18: Guessing is stopped: after nineteen consecutive logins of an active account with wrong
  passwords, whatever its history of attempts before, the account is blocked, and from then on every
  login is refused, with the right password too.
\<close>

theorem login_lockout:
  assumes "truthy email" and "isValidEmail (normalize_email (the email))"
    and "find_account ci (normalize_email (the email)) db = Some a"
    and "a_isActive a" and "a_profileStatus a = PROFILE_ACTIVE" and "a_passwordHash a = Some hs" and "hs \<noteq> []"
    and "19 \<le> length ws" and "sorted (map fst ws)"
    and "\<forall>(t, ip, pw) \<in> set ws. pw \<noteq> [] \<and> \<not> bc pw hs"
    and "\<forall>x \<in> set (ad_attempts db). \<forall>(t, ip, pw) \<in> set ws. la_createdAt x \<le> t"
    and "truthy pw'"
  shows "fst (login_handler ci bc h td' now' ip' email pw' body' (login_run ci bc h td body email ws db)) = ACCOUNT_BLOCKED"
proof -
  have "find_account ci (normalize_email (the email)) (login_run ci bc h td body email ws db) =
      Some (a\<lparr>a_profileStatus := PROFILE_BLOCKED\<rparr>)"
    by (rule wrong_run_blocks [where n = 0 and hs = hs]) (use assms in simp_all)
  then show ?thesis using assms(1,2,12) by (simp add: blocked_login)
qed

theorem login_lockout_witness:
  "fst (login_handler (=) demo_compare demo_hash demo_draw 5000 None (Some ''new@b.ru'') (Some ''secret'') no_device_info
     (login_run (=) demo_compare demo_hash demo_draw no_device_info (Some ''new@b.ru'')
       (replicate 19 (100, None, ''guess1'')) demo_auth)) = ACCOUNT_BLOCKED"
  by (rule login_lockout [where a = demo_account and hs = "''hsecret''"])
    (simp_all add: truthy_def demo_find demo_account_def demo_compare_def, simp_all add: demo_auth_def)

text \<open>
  The verification codes obey their limits: after any sequence of registrations, resends,
  verifications and logins that starts without codes, every code has recorded at most five wrong
  attempts, fewer than five while it can still be used, a user has at most one usable code, and a
  used code is never changed again.
\<close>

theorem verification_codes_disciplined:
  assumes none: "ad_verifications db = []"
    and v: "v \<in> set (ad_verifications (vm.run ae as db))" and x: "x \<in> set (ad_verifications (vm.run ae as db))"
  shows "vc_attemptsCount v \<le> 5 \<and> (\<not> vc_used v \<longrightarrow> vc_attemptsCount v < 5) \<and>
    (vc_userId x = vc_userId v \<and> \<not> vc_used v \<and> \<not> vc_used x \<longrightarrow> x = v) \<and>
    (vc_used v \<longrightarrow> v \<in> set (ad_verifications (vm.run ae bs (vm.run ae as db))))"
proof -
  have ok0: "ver_ok db" using none by (simp add: ver_ok_def)
  have ok: "ver_ok (vm.run ae as db)" and fr: "vm.fresh_run ae as db" using ver_ok_run [OF ok0] by simp_all
  have fr2: "vm.fresh_run ae bs (vm.run ae as db)" using ver_ok_run [OF ok] by simp
  have dist: "distinct (map vc_id (ad_verifications (vm.run ae as db)))" using ok by (simp add: ver_ok_def)
  have "attempts_within v" using ok v by (simp add: ver_ok_def)
  then show ?thesis
    using vm.run_open_unique [OF fr none v x] vm.run_frozen [OF fr2 dist v]
    by (auto simp: attempts_within_def MAX_VERIFICATION_ATTEMPTS_def)
qed

lemma register_okD:
  assumes "register_handler ci bh role draw mailOk now email pw name db = (REGISTERED, db1)"
  shows "truthy email" "truthy pw" "isValidEmail (normalize_email (the email))" "6 \<le> length (the pw)"
    "find_account ci (normalize_email (the email)) db = None"
    "\<forall>a \<in> set (ad_users db). a_email a \<noteq> Some (normalize_email (the email))"
    "sent_reply REGISTERED (sendVerificationCodeEmail draw mailOk now (ad_userSeq db) (normalize_email (the email))
       (db\<lparr>ad_users := ad_users db @ [\<lparr>a_id = ad_userSeq db, a_email = Some (normalize_email (the email)),
          a_passwordHash = Some (bh (the pw)), a_isActive = False, a_profileStatus = PROFILE_PENDING,
          a_firstName = non_empty (js_trim (or_empty name))\<rparr>], ad_userSeq := ad_userSeq db + 1\<rparr>)) = (REGISTERED, db1)"
proof -
  have not: "sent_reply CODE_RESENT r \<noteq> (REGISTERED, d)" for r d
    by (auto simp: sent_reply_def split: prod.splits send_result.splits)
  show "truthy email" "truthy pw" "isValidEmail (normalize_email (the email))" "6 \<le> length (the pw)"
    "find_account ci (normalize_email (the email)) db = None"
    "\<forall>a \<in> set (ad_users db). a_email a \<noteq> Some (normalize_email (the email))"
    "sent_reply REGISTERED (sendVerificationCodeEmail draw mailOk now (ad_userSeq db) (normalize_email (the email))
       (db\<lparr>ad_users := ad_users db @ [\<lparr>a_id = ad_userSeq db, a_email = Some (normalize_email (the email)),
          a_passwordHash = Some (bh (the pw)), a_isActive = False, a_profileStatus = PROFILE_PENDING,
          a_firstName = non_empty (js_trim (or_empty name))\<rparr>], ad_userSeq := ad_userSeq db + 1\<rparr>)) = (REGISTERED, db1)"
    using assms not by (auto simp: register_handler_def Let_def split: if_splits option.splits)
qed

text \<open>What a successful registration leaves, when the identifiers it draws are new.\<close>

lemma register_state:
  assumes reg: "register_handler ci bh role draw mailOk now (Some email) (Some pw) name db = (REGISTERED, db1)"
    and none: "\<forall>v \<in> set (ad_verifications db). vc_userId v \<noteq> ad_userSeq db"
  shows "ad_users db1 = ad_users db @ [\<lparr>a_id = ad_userSeq db, a_email = Some (normalize_email email),
          a_passwordHash = Some (bh pw), a_isActive = False, a_profileStatus = PROFILE_PENDING,
          a_firstName = non_empty (js_trim (or_empty name))\<rparr>]"
    and "ad_verifications db1 = ad_verifications db @ [\<lparr>vc_id = ad_verSeq db, vc_userId = ad_userSeq db,
          vc_code = generateVerificationCode draw, vc_expiresAt = now + VERIFICATION_CODE_EXPIRATION_MS, vc_used = False,
          vc_attemptsCount = 0, vc_lastSentAt = Some now, vc_createdAt = now\<rparr>]"
    and "ad_outbox db1 = ad_outbox db @ [(normalize_email email, generateVerificationCode draw, VERIFICATION_MAIL)]"
    and "ad_tokens db1 = ad_tokens db"
proof -
  let ?db0 = "db\<lparr>ad_users := ad_users db @ [\<lparr>a_id = ad_userSeq db, a_email = Some (normalize_email email),
          a_passwordHash = Some (bh pw), a_isActive = False, a_profileStatus = PROFILE_PENDING,
          a_firstName = non_empty (js_trim (or_empty name))\<rparr>], ad_userSeq := ad_userSeq db + 1\<rparr>"
  have "latest_verification (ad_userSeq db) ?db0 = None"
    using none by (auto simp: latest_verification_def find_latest_None)
  then have "sendVerificationCodeEmail draw mailOk now (ad_userSeq db) (normalize_email email) ?db0 =
      send_new_code draw mailOk now (ad_userSeq db) (normalize_email email) ?db0"
    by (simp add: sendVerificationCodeEmail_def)
  with register_okD(7) [OF reg]
  have r: "sent_reply REGISTERED (send_new_code draw mailOk now (ad_userSeq db) (normalize_email email) ?db0) = (REGISTERED, db1)"
    by simp
  then have mail: "mailOk" by (cases mailOk) (simp_all add: send_new_code_def post_def sent_reply_def Let_def)
  have db1: "db1 = snd (send_new_code draw mailOk now (ad_userSeq db) (normalize_email email) ?db0)"
    using arg_cong [OF r, of snd] by simp
  show "ad_users db1 = ad_users db @ [\<lparr>a_id = ad_userSeq db, a_email = Some (normalize_email email),
          a_passwordHash = Some (bh pw), a_isActive = False, a_profileStatus = PROFILE_PENDING,
          a_firstName = non_empty (js_trim (or_empty name))\<rparr>]"
    "ad_verifications db1 = ad_verifications db @ [\<lparr>vc_id = ad_verSeq db, vc_userId = ad_userSeq db,
          vc_code = generateVerificationCode draw, vc_expiresAt = now + VERIFICATION_CODE_EXPIRATION_MS, vc_used = False,
          vc_attemptsCount = 0, vc_lastSentAt = Some now, vc_createdAt = now\<rparr>]"
    "ad_outbox db1 = ad_outbox db @ [(normalize_email email, generateVerificationCode draw, VERIFICATION_MAIL)]"
    "ad_tokens db1 = ad_tokens db"
    using mail by (simp_all add: db1 send_new_code_def post_def Let_def)
qed

lemma sign_in_fresh:
  assumes "\<not> hash_used (h (dr_raw td)) (ad_tokens db)"
  obtains db' dev where "sign_in h now td u body db = (Some (dr_raw td), db')"
    "td_tokens (ad_tokens db') = td_tokens (ad_tokens db) @ [new_token h td u (now + token_ttl) dev None (td_seq (ad_tokens db))]"
proof -
  let ?info = "Some (buildDeviceInfoFromRequestBody (Some body))"
  show thesis
  proof (cases rule: create_cases [of h now td u ?info None "ad_tokens db"])
    case (taken t)
    then show thesis using assms by simp
  next
    case (made dev t)
    then show thesis using that [of "db\<lparr>ad_tokens := t\<rparr>" dev] by (simp add: sign_in_def)
  qed
qed

lemma code_trim: "js_trim (generateVerificationCode draw) = generateVerificationCode draw" "generateVerificationCode draw \<noteq> []"
proof -
  show "js_trim (generateVerificationCode draw) = generateVerificationCode draw"
    unfolding generateVerificationCode_def by (rule js_trim_digits) (rule show_nat_digits)
  show "generateVerificationCode draw \<noteq> []"
    unfolding generateVerificationCode_def by (subst show_nat.simps) simp
qed

text \<open>Verifying with the code of the newest row activates the account.\<close>

lemma verify_activates:
  assumes "truthy email" "isValidEmail (normalize_email (the email))"
    and code: "truthy code" "js_trim (the code) = vc_code v" "vc_code v \<noteq> []"
    and "List.find (\<lambda>a. a_email a = Some (normalize_email (the email))) (ad_users db) = Some a" "\<not> a_isActive a"
    and "latest_verification (a_id a) db = Some v" "now < vc_expiresAt v"
    and fresh: "\<not> hash_used (h (dr_raw td)) (ad_tokens db)"
  obtains db' dev where "verify_handler h td now email code body db = (ACTIVATED (a_id a) (dr_raw td), db')"
    "ad_users db' = update_where (\<lambda>x. a_id x = a_id a) (\<lambda>a. a\<lparr>a_isActive := True, a_profileStatus := PROFILE_ACTIVE\<rparr>) (ad_users db)"
    "td_tokens (ad_tokens db') = td_tokens (ad_tokens db) @ [new_token h td (a_id a) (now + token_ttl) dev None (td_seq (ad_tokens db))]"
proof -
  let ?db2 = "write_account (a_id a) (\<lambda>a. a\<lparr>a_isActive := True, a_profileStatus := PROFILE_ACTIVE\<rparr>)
      (write_verification (vc_id v) (\<lambda>x. x\<lparr>vc_used := True\<rparr>) db)"
  have "\<not> hash_used (h (dr_raw td)) (ad_tokens ?db2)" using fresh by simp
  then obtain db' dev where s: "sign_in h now td (a_id a) body ?db2 = (Some (dr_raw td), db')"
    "td_tokens (ad_tokens db') = td_tokens (ad_tokens ?db2) @ [new_token h td (a_id a) (now + token_ttl) dev None (td_seq (ad_tokens ?db2))]"
    by (rule sign_in_fresh [where db = ?db2])
  have "verify_handler h td now email code body db = (ACTIVATED (a_id a) (dr_raw td), db')"
    using assms s(1) by (simp add: verify_handler_def Let_def)
  moreover have "ad_users db' = ad_users ?db2" using sign_in_tables(3) [of h now td "a_id a" body ?db2] s(1) by simp
  ultimately show thesis using that s(2) by simp
qed

lemma login_succeeds:
  assumes "truthy email" "isValidEmail (normalize_email (the email))" "truthy pw"
    and "find_account ci (normalize_email (the email)) db = Some a" "a_isActive a" "a_profileStatus a = PROFILE_ACTIVE"
    and "truthy (a_passwordHash a)" "bc (the pw) (the (a_passwordHash a))"
    and fresh: "\<not> hash_used (h (dr_raw td)) (ad_tokens db)"
  shows "fst (login_handler ci bc h td now ip email pw body db) = LOGIN_OK (a_id a) (dr_raw td)"
proof -
  obtain db' where "sign_in h now td (a_id a) body db = (Some (dr_raw td), db')"
    using sign_in_fresh [where h = h and td = td and db = db and now = now and u = "a_id a" and body = body] fresh by blast
  then show ?thesis using assms by (simp add: login_handler_def Let_def)
qed

text \<open>
  C21: Signing up works end to end: after a successful registration the code that was mailed to the
  address activates the account within the hour, and the password given at registration then logs
  in, provided the e-mail comparison accepts an address for itself, bcrypt accepts the password it
  hashed, and the identifiers and tokens drawn are new.
\<close>

theorem onboarding_completes:
  assumes reg: "register_handler ci bh role draw mailOk now (Some email) (Some pw) name db = (REGISTERED, db1)"
    and ci: "\<And>e. ci e e" and bc: "bc pw (bh pw)" "bh pw \<noteq> []"
    and new: "\<forall>v \<in> set (ad_verifications db). vc_userId v \<noteq> ad_userSeq db"
    and tokens: "\<not> hash_used (h (dr_raw td1)) (ad_tokens db)" "\<not> hash_used (h (dr_raw td2)) (ad_tokens db)"
      "h (dr_raw td2) \<noteq> h (dr_raw td1)"
    and time: "t1 < now + 3600000"
    and ver: "verify_handler h td1 t1 (Some email) (Some (generateVerificationCode draw)) body1 db1 = (r1, db2)"
    and log: "login_handler ci bc h td2 t2 ip (Some email) (Some pw) body2 db2 = (r2, db3)"
  shows "last (ad_outbox db1) = (normalize_email email, generateVerificationCode draw, VERIFICATION_MAIL) \<and>
    r1 = ACTIVATED (ad_userSeq db) (dr_raw td1) \<and> r2 = LOGIN_OK (ad_userSeq db) (dr_raw td2)"
proof -
  let ?e = "normalize_email email"
  let ?a = "\<lparr>a_id = ad_userSeq db, a_email = Some ?e, a_passwordHash = Some (bh pw), a_isActive = False,
      a_profileStatus = PROFILE_PENDING, a_firstName = non_empty (js_trim (or_empty name))\<rparr>"
  let ?v = "\<lparr>vc_id = ad_verSeq db, vc_userId = ad_userSeq db, vc_code = generateVerificationCode draw,
      vc_expiresAt = now + VERIFICATION_CODE_EXPIRATION_MS, vc_used = False, vc_attemptsCount = 0,
      vc_lastSentAt = Some now, vc_createdAt = now\<rparr>"
  note st = register_state [OF reg new]
  note ok = register_okD [OF reg, simplified]
  have find: "List.find (\<lambda>a. a_email a = Some ?e) (ad_users db1) = Some ?a"
    unfolding st(1) using ok(6) by (subst find_append_None) auto
  have "find_latest vc_createdAt (\<lambda>v. vc_userId v = ad_userSeq db \<and> \<not> vc_used v) (rs @ [?v]) = Some ?v"
    if "\<And>v. v \<in> set rs \<Longrightarrow> vc_userId v \<noteq> ad_userSeq db" for rs
    using that by (induction rs) auto
  then have latest: "latest_verification (a_id ?a) db1 = Some ?v" using new by (simp add: latest_verification_def st(2))
  have fresh1: "\<not> hash_used (h (dr_raw td1)) (ad_tokens db1)" using tokens(1) by (simp add: st(4))
  obtain db' dev where v: "verify_handler h td1 t1 (Some email) (Some (generateVerificationCode draw)) body1 db1 =
      (ACTIVATED (a_id ?a) (dr_raw td1), db')"
    and users: "ad_users db' = update_where (\<lambda>x. a_id x = a_id ?a) (\<lambda>a. a\<lparr>a_isActive := True, a_profileStatus := PROFILE_ACTIVE\<rparr>) (ad_users db1)"
    and toks: "td_tokens (ad_tokens db') = td_tokens (ad_tokens db1) @ [new_token h td1 (a_id ?a) (t1 + token_ttl) dev None (td_seq (ad_tokens db1))]"
    by (rule verify_activates [where email = "Some email" and code = "Some (generateVerificationCode draw)" and now = t1
          and body = body1 and a = ?a and v = ?v and h = h and td = td1 and db = db1])
      (use ok find code_trim time latest fresh1 in \<open>simp_all add: truthy_def VERIFICATION_CODE_EXPIRATION_MS_def\<close>)
  have db2: "db2 = db'" and r1: "r1 = ACTIVATED (ad_userSeq db) (dr_raw td1)" using v ver by simp_all
  let ?a' = "?a\<lparr>a_isActive := True, a_profileStatus := PROFILE_ACTIVE\<rparr>"
  have "find_account ci ?e db1 = Some ?a"
    using ok(5) ci by (auto simp: find_account_def st(1) find_append_None find_None_iff)
  then have acc: "find_account ci ?e db' = Some ?a'"
    unfolding find_account_def users by (subst find_update_where) simp_all
  have fresh2: "\<not> hash_used (h (dr_raw td2)) (ad_tokens db')"
    using tokens(2,3) by (auto simp: toks st(4) new_token_def)
  have "fst (login_handler ci bc h td2 t2 ip (Some email) (Some pw) body2 db') = LOGIN_OK (a_id ?a') (dr_raw td2)"
    by (rule login_succeeds [where a = ?a']) (use ok acc bc fresh2 in \<open>simp_all add: truthy_def\<close>)
  then show ?thesis using log r1 by (simp add: db2 st(3))
qed

definition demo_empty :: auth_db where
  "demo_empty = demo_auth\<lparr>ad_users := []\<rparr>"

lemma demo_register:
  "register_handler (=) demo_hash True 5 True 100 (Some ''new@b.ru'') (Some ''secret'') None demo_empty =
     (REGISTERED, snd (register_handler (=) demo_hash True 5 True 100 (Some ''new@b.ru'') (Some ''secret'') None demo_empty))"
  by (simp add: register_handler_def demo_empty_def demo_auth_def find_account_def truthy_def Let_def
      sendVerificationCodeEmail_def latest_verification_def send_new_code_def post_def sent_reply_def)

definition demo_env_auth :: auth_env where
  "demo_env_auth = \<lparr>ae_ci = (=), ae_bhash = demo_hash, ae_bcompare = demo_compare, ae_hash = demo_hash, ae_userRole = True\<rparr>"

theorem verification_codes_disciplined_witness:
  "\<exists>v. ad_verifications (vm.run demo_env_auth [RegisterOp 5 True 100 (Some ''new@b.ru'') (Some ''secret'') None] demo_empty) = [v] \<and>
     vc_attemptsCount v \<le> 5 \<and> \<not> vc_used v"
proof -
  let ?as = "[RegisterOp 5 True 100 (Some ''new@b.ru'') (Some ''secret'') None]"
  have none: "ad_verifications demo_empty = []" by (simp add: demo_empty_def demo_auth_def)
  have "\<exists>v. ad_verifications (vm.run demo_env_auth ?as demo_empty) = [v] \<and> \<not> vc_used v"
    using register_state(2) [OF demo_register] none by (simp add: demo_env_auth_def)
  then obtain v where v: "ad_verifications (vm.run demo_env_auth ?as demo_empty) = [v]" "\<not> vc_used v" by blast
  have mem: "v \<in> set (ad_verifications (vm.run demo_env_auth ?as demo_empty))" unfolding v(1) by simp
  show ?thesis using verification_codes_disciplined [OF none mem mem] v by blast
qed

theorem onboarding_completes_witness:
  "\<exists>db1 db2 db3 code. register_handler (=) demo_hash True 5 True 100 (Some ''new@b.ru'') (Some ''secret'') None demo_empty = (REGISTERED, db1) \<and>
     ad_outbox db1 = [(''new@b.ru'', code, VERIFICATION_MAIL)] \<and>
     verify_handler demo_hash demo_draw 200 (Some ''new@b.ru'') (Some code) no_device_info db1 = (ACTIVATED 8 ''new'', db2) \<and>
     login_handler (=) demo_compare demo_hash (demo_draw\<lparr>dr_raw := ''two''\<rparr>) 300 None (Some ''new@b.ru'') (Some ''secret'') no_device_info db2 =
       (LOGIN_OK 8 ''two'', db3)"
proof -
  let ?r = "register_handler (=) demo_hash True 5 True 100 (Some ''new@b.ru'') (Some ''secret'') None demo_empty"
  let ?c = "generateVerificationCode 5"
  obtain r1 db2 where v: "verify_handler demo_hash demo_draw 200 (Some ''new@b.ru'') (Some ?c) no_device_info (snd ?r) = (r1, db2)"
    by fastforce
  obtain r2 db3 where l: "login_handler (=) demo_compare demo_hash (demo_draw\<lparr>dr_raw := ''two''\<rparr>) 300 None (Some ''new@b.ru'')
      (Some ''secret'') no_device_info db2 = (r2, db3)" by fastforce
  have none: "\<forall>v \<in> set (ad_verifications demo_empty). vc_userId v \<noteq> ad_userSeq demo_empty"
    and tok: "td_tokens (ad_tokens demo_empty) = [demo_token]" "ad_userSeq demo_empty = 8" "ad_outbox demo_empty = []"
    by (simp_all add: demo_empty_def demo_auth_def demo_tokens_def)
  have "last (ad_outbox (snd ?r)) = (normalize_email ''new@b.ru'', ?c, VERIFICATION_MAIL) \<and>
      r1 = ACTIVATED (ad_userSeq demo_empty) (dr_raw demo_draw) \<and>
      r2 = LOGIN_OK (ad_userSeq demo_empty) (dr_raw (demo_draw\<lparr>dr_raw := ''two''\<rparr>))"
    by (rule onboarding_completes [OF demo_register _ _ _ none _ _ _ _ v l])
      (simp_all add: tok demo_compare_def demo_hash_def demo_token_def demo_draw_def)
  then have r: "r1 = ACTIVATED 8 ''new''" "r2 = LOGIN_OK 8 ''two''" by (simp_all add: tok demo_draw_def)
  show ?thesis
    by (intro exI conjI) (rule demo_register, use register_state(3) [OF demo_register none] tok v l r in simp_all)
qed

end
