(* ===== verification/Password_Reset.thy ===== *)
theory Password_Reset
  imports Local_Auth
begin

text \<open>
  \<^verbatim>\<open>src/src/routes/passwordReset.ts\<close>: a reset code is requested by e-mail, can be
  checked, and sets a new password.  The handlers work on the tables of \<open>Local_Auth\<close>.
\<close>

section \<open>Handlers\<close>

definition PASSWORD_RESET_CODE_EXPIRATION_MS :: millis where
  "PASSWORD_RESET_CODE_EXPIRATION_MS = 60 * 60 * 1000"

definition RESET_RESEND_INTERVAL_MS :: millis where
  "RESET_RESEND_INTERVAL_MS = 25 * 1000"

datatype reset_reply =
    RESET_FIELDS_REQUIRED
  | RESET_INVALID_EMAIL
  | RESET_CODE_REQUIRED
  | RESET_PASSWORD_TOO_SHORT
  | RESET_TOO_MANY_REQUESTS
  | RESET_BAD_EMAIL_OR_CODE
  | RESET_CODE_STALE
  | RESET_WRONG_CODE
  | RESET_FAILED
  | RESET_OK

definition generateResetCode :: "nat \<Rightarrow> string" where
  "generateResetCode draw = show_nat (100000 + draw)"

definition latest_reset :: "user_id \<Rightarrow> auth_db \<Rightarrow> reset_code option" where
  "latest_reset u db = find_latest pr_createdAt (\<lambda>r. pr_userId r = u \<and> \<not> pr_used r) (ad_resets db)"

definition use_reset :: "int \<Rightarrow> auth_db \<Rightarrow> auth_db" where
  "use_reset i db = db\<lparr>ad_resets := update_where (\<lambda>r. pr_id r = i) (\<lambda>r. r\<lparr>pr_used := True\<rparr>) (ad_resets db)\<rparr>"

text \<open>The last part of \<^verbatim>\<open>/request\<close>: a new code is stored and mailed.\<close>

definition issue_reset :: "nat \<Rightarrow> bool \<Rightarrow> millis \<Rightarrow> user_id \<Rightarrow> string \<Rightarrow> auth_db \<Rightarrow> reset_reply \<times> auth_db" where
  "issue_reset draw mailOk now userId normalizedEmail db =
     (let code = generateResetCode draw;
          db1 = db\<lparr>ad_resets := ad_resets db @
                  [\<lparr>pr_id = ad_resetSeq db, pr_userId = userId, pr_code = code,
                    pr_expiresAt = now + PASSWORD_RESET_CODE_EXPIRATION_MS, pr_used = False, pr_createdAt = now\<rparr>],
                ad_resetSeq := ad_resetSeq db + 1\<rparr>
      in case post mailOk normalizedEmail code PASSWORD_RESET_MAIL db1 of
           (CODE_SENT, db2) \<Rightarrow> (RESET_OK, db2)
         | (_, db2) \<Rightarrow> (RESET_FAILED, db2))"

definition reset_request ::
  "(string \<Rightarrow> string \<Rightarrow> bool) \<Rightarrow> nat \<Rightarrow> bool \<Rightarrow> millis \<Rightarrow> string option \<Rightarrow> auth_db \<Rightarrow> reset_reply \<times> auth_db" where
  "reset_request ci draw mailOk now email db =
     (if \<not> truthy email then (RESET_FIELDS_REQUIRED, db)
      else
        let normalizedEmail = normalize_email (the email) in
        if \<not> isValidEmail normalizedEmail then (RESET_INVALID_EMAIL, db)
        else case find_account ci normalizedEmail db of
          None \<Rightarrow> (RESET_OK, db)
        | Some user \<Rightarrow>
            (case latest_reset (a_id user) db of
               None \<Rightarrow> issue_reset draw mailOk now (a_id user) normalizedEmail db
             | Some existing \<Rightarrow>
                 if pr_expiresAt existing \<le> now
                 then issue_reset draw mailOk now (a_id user) normalizedEmail (use_reset (pr_id existing) db)
                 else if now - pr_createdAt existing < RESET_RESEND_INTERVAL_MS then (RESET_TOO_MANY_REQUESTS, db)
                 else issue_reset draw mailOk now (a_id user) normalizedEmail (use_reset (pr_id existing) db)))"

text \<open>What \<^verbatim>\<open>/verify\<close> and \<^verbatim>\<open>/change\<close> do once the user is found: the row with the code, or a refusal.\<close>

definition check_reset :: "millis \<Rightarrow> user_id \<Rightarrow> string \<Rightarrow> auth_db \<Rightarrow> (reset_reply + reset_code) \<times> auth_db" where
  "check_reset now userId trimmedCode db =
     (case latest_reset userId db of
        None \<Rightarrow> (Inl RESET_CODE_STALE, db)
      | Some r \<Rightarrow>
          if pr_expiresAt r \<le> now then (Inl RESET_CODE_STALE, use_reset (pr_id r) db)
          else if pr_code r \<noteq> trimmedCode then (Inl RESET_WRONG_CODE, db)
          else (Inr r, db))"

definition reset_verify ::
  "(string \<Rightarrow> string \<Rightarrow> bool) \<Rightarrow> millis \<Rightarrow> string option \<Rightarrow> string option \<Rightarrow> auth_db \<Rightarrow> reset_reply \<times> auth_db" where
  "reset_verify ci now email code db =
     (if \<not> truthy email \<or> \<not> truthy code then (RESET_FIELDS_REQUIRED, db)
      else
        let normalizedEmail = normalize_email (the email); trimmedCode = js_trim (the code) in
        if \<not> isValidEmail normalizedEmail then (RESET_INVALID_EMAIL, db)
        else if trimmedCode = [] then (RESET_CODE_REQUIRED, db)
        else case find_account ci normalizedEmail db of
          None \<Rightarrow> (RESET_BAD_EMAIL_OR_CODE, db)
        | Some user \<Rightarrow>
            (case check_reset now (a_id user) trimmedCode db of
               (Inl e, db1) \<Rightarrow> (e, db1)
             | (Inr r, db1) \<Rightarrow> (RESET_OK, db1)))"

definition reset_change ::
  "(string \<Rightarrow> string \<Rightarrow> bool) \<Rightarrow> (string \<Rightarrow> string) \<Rightarrow> millis \<Rightarrow> string option \<Rightarrow> string option \<Rightarrow> string option \<Rightarrow>
   auth_db \<Rightarrow> reset_reply \<times> auth_db" where
  "reset_change ci bhash now email code newPassword db =
     (if \<not> truthy email \<or> \<not> truthy code \<or> \<not> truthy newPassword then (RESET_FIELDS_REQUIRED, db)
      else
        let normalizedEmail = normalize_email (the email); trimmedCode = js_trim (the code) in
        if \<not> isValidEmail normalizedEmail then (RESET_INVALID_EMAIL, db)
        else if trimmedCode = [] then (RESET_CODE_REQUIRED, db)
        else if length (the newPassword) < 6 then (RESET_PASSWORD_TOO_SHORT, db)
        else case find_account ci normalizedEmail db of
          None \<Rightarrow> (RESET_BAD_EMAIL_OR_CODE, db)
        | Some user \<Rightarrow>
            (case check_reset now (a_id user) trimmedCode db of
               (Inl e, db1) \<Rightarrow> (e, db1)
             | (Inr r, db1) \<Rightarrow>
                 (RESET_OK,
                  use_reset (pr_id r)
                    (write_account (a_id user) (\<lambda>a. a\<lparr>a_passwordHash := Some (bhash (the newPassword))\<rparr>) db1))))"

section \<open>The handlers as a machine\<close>

datatype reset_op =
    RequestOp nat bool millis "string option"
  | CheckOp millis "string option" "string option"
  | ChangeOp millis "string option" "string option" "string option"
  | AuthOp auth_op

fun reset_step :: "auth_env \<Rightarrow> reset_op \<Rightarrow> auth_db \<Rightarrow> auth_db" where
  "reset_step ae (RequestOp draw ok now email) db = snd (reset_request (ae_ci ae) draw ok now email db)"
| "reset_step ae (CheckOp now email code) db = snd (reset_verify (ae_ci ae) now email code db)"
| "reset_step ae (ChangeOp now email code pw) db = snd (reset_change (ae_ci ae) (ae_bhash ae) now email code pw db)"
| "reset_step ae (AuthOp a) db = auth_step ae a db"

lemma use_reset_tables [simp]:
  "ad_resets (use_reset i db) = update_where (\<lambda>r. pr_id r = i) (\<lambda>r. r\<lparr>pr_used := True\<rparr>) (ad_resets db)"
  "ad_resetSeq (use_reset i db) = ad_resetSeq db" "ad_users (use_reset i db) = ad_users db"
  "ad_tokens (use_reset i db) = ad_tokens db" "ad_attempts (use_reset i db) = ad_attempts db"
  "ad_outbox (use_reset i db) = ad_outbox db"
  by (simp_all add: use_reset_def)

lemma send_keeps_resets [simp]:
  "ad_resets (snd (sendVerificationCodeEmail draw ok now u e db)) = ad_resets db"
  "ad_resetSeq (snd (sendVerificationCodeEmail draw ok now u e db)) = ad_resetSeq db"
  by (auto simp: sendVerificationCodeEmail_def send_new_code_def Let_def split: option.splits)

lemma verify_keeps_resets:
  "ad_resets (snd (verify_handler h td now email code body db)) = ad_resets db"
  "ad_resetSeq (snd (verify_handler h td now email code body db)) = ad_resetSeq db"
  by (auto simp: verify_handler_def Let_def split_beta split: option.splits)

lemma auth_step_keeps_resets:
  "ad_resets (auth_step ae a db) = ad_resets db \<and> ad_resetSeq (auth_step ae a db) = ad_resetSeq db"
proof (cases a)
  case (RegisterOp draw ok now email pw name)
  show ?thesis
    by (cases rule: register_sends [of "ae_ci ae" "ae_bhash ae" "ae_userRole ae" draw ok now email pw name db])
      (simp_all add: RegisterOp)
next
  case (ResendOp draw ok now email)
  show ?thesis by (cases rule: resend_sends [of "ae_ci ae" draw ok now email db]) (simp_all add: ResendOp)
qed (simp_all add: verify_keeps_resets login_tables)

abbreviation pr_open :: "reset_code \<Rightarrow> bool" where
  "pr_open r \<equiv> \<not> pr_used r"

definition reset_fresh :: "auth_db \<Rightarrow> bool" where
  "reset_fresh db \<longleftrightarrow> ad_resetSeq db \<notin> pr_id ` set (ad_resets db)"

abbreviation reset_moves :: "auth_db \<Rightarrow> auth_db \<Rightarrow> bool" where
  "reset_moves db db' \<equiv> moves (reset_fresh db) pr_id pr_userId pr_open (ad_resets db) (ad_resets db')"

lemma latest_resetD:
  assumes "latest_reset u db = Some r"
  shows "r \<in> set (ad_resets db)" "pr_userId r = u" "\<not> pr_used r"
  using find_latest_SomeD [OF assms [unfolded latest_reset_def]] by simp_all

lemma use_latest_touches:
  assumes "distinct (map pr_id (ad_resets db))" and "latest_reset u db = Some r"
  shows "touches pr_id pr_userId pr_open (ad_resets db) (ad_resets (use_reset (pr_id r) db))"
  unfolding use_reset_tables by (rule touches_write [OF assms(1)]) (use latest_resetD [OF assms(2)] in simp_all)

lemma issue_rows:
  "ad_resets (snd (issue_reset draw ok now u e db)) = ad_resets db @
     [\<lparr>pr_id = ad_resetSeq db, pr_userId = u, pr_code = generateResetCode draw,
       pr_expiresAt = now + PASSWORD_RESET_CODE_EXPIRATION_MS, pr_used = False, pr_createdAt = now\<rparr>]"
  "ad_resetSeq (snd (issue_reset draw ok now u e db)) = ad_resetSeq db + 1"
  "ad_users (snd (issue_reset draw ok now u e db)) = ad_users db"
  "ad_tokens (snd (issue_reset draw ok now u e db)) = ad_tokens db"
  by (simp_all add: issue_reset_def post_def Let_def)

lemma issue_result:
  "fst (issue_reset draw ok now u e db) = (if ok then RESET_OK else RESET_FAILED)"
  "ok \<Longrightarrow> ad_outbox (snd (issue_reset draw ok now u e db)) = ad_outbox db @ [(e, generateResetCode draw, PASSWORD_RESET_MAIL)]"
  by (simp_all add: issue_reset_def post_def Let_def)

lemma issue_moves:
  assumes dist: "distinct (map pr_id (ad_resets db))"
  shows "latest_reset u db = None \<Longrightarrow> reset_moves db (snd (issue_reset draw ok now u e db))"
    and "latest_reset u db = Some r \<Longrightarrow> reset_moves db (snd (issue_reset draw ok now u e (use_reset (pr_id r) db)))"
proof -
  assume none: "latest_reset u db = None"
  have closed: "\<not> pr_open x" if "x \<in> set (ad_resets db)" "pr_userId x = u" for x
    using that none by (auto simp: latest_reset_def find_latest_None)
  show "reset_moves db (snd (issue_reset draw ok now u e db))"
    by (rule movesI [OF touches_refl issue_rows(1)]) (use closed in \<open>auto simp: reset_fresh_def\<close>)
next
  assume r: "latest_reset u db = Some r"
  show "reset_moves db (snd (issue_reset draw ok now u e (use_reset (pr_id r) db)))"
  proof (rule movesI [OF use_latest_touches [OF dist r] issue_rows(1)])
    fix x
    assume one: "one_open pr_userId pr_open (ad_resets db)" and x: "x \<in> set (ad_resets (use_reset (pr_id r) db))"
      and owner: "pr_userId x = pr_userId \<lparr>pr_id = ad_resetSeq (use_reset (pr_id r) db), pr_userId = u,
        pr_code = generateResetCode draw, pr_expiresAt = now + PASSWORD_RESET_CODE_EXPIRATION_MS,
        pr_used = False, pr_createdAt = now\<rparr>"
    have "x \<in> set (update_where (\<lambda>x. pr_id x = pr_id r) (\<lambda>x. x\<lparr>pr_used := True\<rparr>) (ad_resets db))" using x by simp
    then show "\<not> pr_open x"
    proof (cases rule: update_whereE)
      case kept
      show ?thesis
      proof
        assume "pr_open x"
        then have "x = r" using one_open_eq [OF one latest_resetD(1) [OF r] _ kept(1)] latest_resetD [OF r] owner by simp
        then show False using kept(2) by simp
      qed
    qed simp
  qed (simp add: reset_fresh_def)
qed

lemma check_touches:
  assumes "distinct (map pr_id (ad_resets db))"
  shows "touches pr_id pr_userId pr_open (ad_resets db) (ad_resets (snd (check_reset now u code db)))"
  using use_latest_touches [OF assms, of u] by (auto simp: check_reset_def split: option.split)

lemma check_okD:
  assumes "check_reset now u code db = (Inr r, db1)"
  shows "latest_reset u db = Some r" "db1 = db" "now < pr_expiresAt r" "pr_code r = code"
  using assms by (auto simp: check_reset_def split: option.splits if_splits)

lemma reset_step_moves:
  assumes dist: "distinct (map pr_id (ad_resets db))"
  shows "reset_moves db (reset_step ae a db)"
proof (cases a)
  case (RequestOp draw ok now email)
  show ?thesis
  proof (cases "find_account (ae_ci ae) (normalize_email (the email)) db")
    case None
    then show ?thesis by (auto simp: RequestOp reset_request_def Let_def moves_touch)
  next
    case (Some u)
    then show ?thesis
      using issue_moves [OF dist, of "a_id u"]
      by (cases "latest_reset (a_id u) db") (auto simp: RequestOp reset_request_def Let_def moves_touch)
  qed
next
  case (CheckOp now email code)
  have "snd (reset_verify (ae_ci ae) now email code db) = db \<or>
      (\<exists>u. snd (reset_verify (ae_ci ae) now email code db) = snd (check_reset now u (js_trim (the code)) db))"
    by (auto simp: reset_verify_def Let_def split_beta split: option.split sum.split)
  then show ?thesis using check_touches [OF dist] by (auto simp: CheckOp)
next
  case (ChangeOp now email code pw)
  have "reset_moves db (snd (case check_reset now u c db of (Inl e, db1) \<Rightarrow> (e, db1)
      | (Inr r, db1) \<Rightarrow> (RESET_OK, use_reset (pr_id r) (write_account u f db1))))" for u c f
  proof (cases "fst (check_reset now u c db)")
    case (Inl e)
    then show ?thesis using check_touches [OF dist, of now u c] by (auto simp: split_beta)
  next
    case (Inr r)
    then have eq: "check_reset now u c db = (Inr r, snd (check_reset now u c db))" by (metis prod.collapse)
    show ?thesis
      using check_okD(1,2) [OF eq] use_latest_touches [OF dist check_okD(1) [OF eq]]
      by (subst eq) (auto simp: moves_touch)
  qed
  then show ?thesis
    by (cases "find_account (ae_ci ae) (normalize_email (the email)) db")
      (auto simp: ChangeOp reset_change_def Let_def moves_touch)
next
  case (AuthOp b)
  then show ?thesis using auth_step_keeps_resets [of ae b db] by (simp add: moves_touch)
qed

interpretation rm: owned_session_machine ad_resets pr_id pr_used "reset_step ae" "\<lambda>_. reset_fresh" pr_userId
  for ae :: auth_env
proof unfold_locales
  fix d :: auth_db and a
  assume dist: "distinct (map pr_id (ad_resets d))"
  show "r \<in> set (ad_resets (reset_step ae a d))" if "r \<in> set (ad_resets d)" "pr_used r" for r
    by (rule moves_frozen [OF reset_step_moves [OF dist] that(1)]) (simp add: that(2))
  show "distinct (map pr_id (ad_resets (reset_step ae a d)))" if "reset_fresh d"
    by (rule moves_distinct [OF reset_step_moves [OF dist] that dist])
  show "one_open pr_userId pr_open (ad_resets (reset_step ae a d))" if "one_open pr_userId pr_open (ad_resets d)"
    by (rule moves_one_open [OF reset_step_moves [OF dist] that])
qed

text \<open>The sequence stays ahead of the identifiers it has given.\<close>

definition reset_ok :: "auth_db \<Rightarrow> bool" where
  "reset_ok db \<longleftrightarrow> (\<forall>r \<in> set (ad_resets db). pr_id r < ad_resetSeq db)"

lemma reset_ok_fresh: "reset_ok db \<Longrightarrow> reset_fresh db"
  by (auto simp: reset_ok_def reset_fresh_def)

lemma reset_ok_use: "reset_ok db \<Longrightarrow> reset_ok (use_reset i db)"
  by (auto simp: reset_ok_def ball_update_where)

lemma reset_ok_issue: "reset_ok db \<Longrightarrow> reset_ok (snd (issue_reset draw ok now u e db))"
  by (auto simp: reset_ok_def issue_rows)

lemma reset_ok_check: "reset_ok db \<Longrightarrow> reset_ok (snd (check_reset now u c db))"
  by (auto simp: check_reset_def reset_ok_use split: option.split)

lemma reset_ok_write: "reset_ok (write_account u f db) = reset_ok db"
  by (simp add: reset_ok_def)

lemma reset_ok_step:
  assumes ok: "reset_ok db"
  shows "reset_ok (reset_step ae a db)"
proof (cases a)
  case (RequestOp draw m now email)
  then show ?thesis
    using ok by (auto simp: reset_request_def Let_def reset_ok_issue reset_ok_use split: option.split)
next
  case (CheckOp now email code)
  then show ?thesis
    using ok reset_ok_check [OF ok] by (auto simp: reset_verify_def Let_def split_beta split: option.split sum.split)
next
  case (ChangeOp now email code pw)
  then show ?thesis
    using ok reset_ok_check [OF ok]
    by (auto simp: reset_change_def Let_def split_beta reset_ok_use reset_ok_write split: option.split sum.split)
next
  case (AuthOp b)
  then show ?thesis using ok auth_step_keeps_resets [of ae b db] by (simp add: reset_ok_def)
qed

lemma reset_ok_run: "reset_ok db \<Longrightarrow> reset_ok (rm.run ae as db) \<and> rm.fresh_run ae as db"
  by (induction as arbitrary: db) (auto simp: reset_ok_step reset_ok_fresh)

section \<open>Properties\<close>

lemma change_okD:
  assumes "reset_change ci bh now email code pw db = (RESET_OK, db')"
  obtains a r where "truthy email" "truthy code" "truthy pw" "isValidEmail (normalize_email (the email))" "6 \<le> length (the pw)"
    "find_account ci (normalize_email (the email)) db = Some a" "latest_reset (a_id a) db = Some r"
    "now < pr_expiresAt r" "pr_code r = js_trim (the code)"
    "db' = use_reset (pr_id r) (write_account (a_id a) (\<lambda>a. a\<lparr>a_passwordHash := Some (bh (the pw))\<rparr>) db)"
proof -
  have no: "fst (check_reset now u c db) \<noteq> Inl RESET_OK" for u c
    by (auto simp: check_reset_def split: option.splits)
  obtain a where a: "truthy email" "truthy code" "truthy pw" "isValidEmail (normalize_email (the email))" "6 \<le> length (the pw)"
      "find_account ci (normalize_email (the email)) db = Some a"
    and c: "(case check_reset now (a_id a) (js_trim (the code)) db of (Inl e, db1) \<Rightarrow> (e, db1)
       | (Inr r, db1) \<Rightarrow> (RESET_OK, use_reset (pr_id r)
           (write_account (a_id a) (\<lambda>a. a\<lparr>a_passwordHash := Some (bh (the pw))\<rparr>) db1))) = (RESET_OK, db')"
    using assms by (auto simp: reset_change_def Let_def split: if_splits option.splits)
  obtain r db1 where eq: "check_reset now (a_id a) (js_trim (the code)) db = (Inr r, db1)"
    using c no [of "a_id a" "js_trim (the code)"]
    by (cases "check_reset now (a_id a) (js_trim (the code)) db"; cases "fst (check_reset now (a_id a) (js_trim (the code)) db)") auto
  show thesis using that [OF a] check_okD [OF eq] c eq by auto
qed

definition demo_reset_row :: reset_code where
  "demo_reset_row = \<lparr>pr_id = 3, pr_userId = 7, pr_code = ''123456'', pr_expiresAt = 9000, pr_used = False, pr_createdAt = 100\<rparr>"

definition demo_resets :: auth_db where
  "demo_resets = demo_auth\<lparr>ad_resets := [demo_reset_row], ad_resetSeq := 4\<rparr>"

lemma demo_resets_find: "find_account (=) ''new@b.ru'' demo_resets = Some demo_account" "a_id demo_account = 7"
    "latest_reset 7 demo_resets = Some demo_reset_row"
  by (simp_all add: find_account_def demo_resets_def demo_auth_def demo_account_def latest_reset_def demo_reset_row_def)

lemma demo_digits: "js_trim ''123456'' = ''123456''" "js_trim ''999999'' = ''999999''"
  by (simp_all add: js_trim_digits js_digit_def)

lemma demo_change:
  "reset_change (=) demo_hash 500 (Some ''new@b.ru'') (Some ''123456'') (Some ''fresh1'') demo_resets =
     (RESET_OK, use_reset 3 (write_account 7 (\<lambda>a. a\<lparr>a_passwordHash := Some ''hfresh1''\<rparr>) demo_resets))"
  by (simp add: reset_change_def truthy_def demo_digits demo_resets_find check_reset_def Let_def demo_hash_def)
    (simp add: demo_reset_row_def)

text \<open>
  A password is changed only with the newest unused code of the account the address names,
  unexpired and equal to the code presented; exactly that account's password hash changes, and the
  code is used up.
\<close>

theorem reset_change_sound:
  assumes dist: "distinct (map pr_id (ad_resets db))"
    and ok: "reset_change ci bh now email code pw db = (RESET_OK, db')"
  shows "\<exists>a r. find_account ci (normalize_email (the email)) db = Some a \<and> latest_reset (a_id a) db = Some r \<and>
    now < pr_expiresAt r \<and> pr_code r = js_trim (the code) \<and> 6 \<le> length (the pw) \<and>
    ad_users db' = map (\<lambda>x. if a_id x = a_id a then x\<lparr>a_passwordHash := Some (bh (the pw))\<rparr> else x) (ad_users db) \<and>
    {x. x \<in> set (ad_resets db') \<and> pr_id x = pr_id r} = {r\<lparr>pr_used := True\<rparr>} \<and>
    {x. x \<in> set (ad_resets db') \<and> pr_id x \<noteq> pr_id r} = {x. x \<in> set (ad_resets db) \<and> pr_id x \<noteq> pr_id r}"
proof -
  obtain a r where a: "find_account ci (normalize_email (the email)) db = Some a" "6 \<le> length (the pw)"
    and r: "latest_reset (a_id a) db = Some r" "now < pr_expiresAt r" "pr_code r = js_trim (the code)"
    and db': "db' = use_reset (pr_id r) (write_account (a_id a) (\<lambda>a. a\<lparr>a_passwordHash := Some (bh (the pw))\<rparr>) db)"
    by (rule change_okD [OF ok]) blast
  let ?u = "\<lambda>x. x\<lparr>pr_used := True\<rparr>"
  have rows: "ad_resets db' = update_where (\<lambda>x. pr_id x = pr_id r) ?u (ad_resets db)" by (simp add: db')
  have mem: "r \<in> set (ad_resets db)" by (rule latest_resetD [OF r(1)])
  have one: "x = r" if "x \<in> set (ad_resets db)" "pr_id x = pr_id r" for x
    using distinct_key_eq [OF dist that(1) mem that(2)] .
  have "x = ?u r" if x: "x \<in> set (update_where (\<lambda>x. pr_id x = pr_id r) ?u (ad_resets db))" "pr_id x = pr_id r" for x
    using x(1) by (cases rule: update_whereE) (use x(2) one in auto)
  moreover have "?u r \<in> set (update_where (\<lambda>x. pr_id x = pr_id r) ?u (ad_resets db))"
    using mem by (intro update_where_hit) simp_all
  moreover have "pr_id (?u r) = pr_id r" by simp
  ultimately have used: "{x. x \<in> set (ad_resets db') \<and> pr_id x = pr_id r} = {?u r}" unfolding rows by blast
  have "x \<in> set (update_where (\<lambda>x. pr_id x = pr_id r) ?u (ad_resets db)) \<longleftrightarrow> x \<in> set (ad_resets db)"
    if "pr_id x \<noteq> pr_id r" for x
    using that by (auto elim!: update_whereE)
  then have "{x. x \<in> set (ad_resets db') \<and> pr_id x \<noteq> pr_id r} = {x. x \<in> set (ad_resets db) \<and> pr_id x \<noteq> pr_id r}"
    unfolding rows by auto
  moreover have "ad_users db' = map (\<lambda>x. if a_id x = a_id a then x\<lparr>a_passwordHash := Some (bh (the pw))\<rparr> else x) (ad_users db)"
    by (simp add: db' update_where_def)
  ultimately show ?thesis using a r used by blast
qed

theorem reset_change_sound_witness:
  "\<exists>db'. reset_change (=) demo_hash 500 (Some ''new@b.ru'') (Some ''123456'') (Some ''fresh1'') demo_resets = (RESET_OK, db') \<and>
     {x. x \<in> set (ad_resets db') \<and> pr_id x = 3} = {demo_reset_row\<lparr>pr_used := True\<rparr>}"
proof -
  have "distinct (map pr_id (ad_resets demo_resets))" by (simp add: demo_resets_def)
  from reset_change_sound [OF this demo_change] show ?thesis
  proof (elim exE conjE)
    fix a r
    assume a: "find_account (=) (normalize_email (the (Some ''new@b.ru''))) demo_resets = Some a"
      and r: "latest_reset (a_id a) demo_resets = Some r"
      and set: "{x. x \<in> set (ad_resets (use_reset 3 (write_account 7 (\<lambda>a. a\<lparr>a_passwordHash := Some ''hfresh1''\<rparr>) demo_resets))) \<and>
        pr_id x = pr_id r} = {r\<lparr>pr_used := True\<rparr>}"
    have "a = demo_account" using a demo_resets_find(1) by simp
    then have "r = demo_reset_row" using r demo_resets_find(2,3) by simp
    moreover have "pr_id demo_reset_row = 3" by (simp add: demo_reset_row_def)
    ultimately show ?thesis using set demo_change by (intro exI conjI) (assumption, simp)
  qed
qed

text \<open>
  A forgotten password can be recovered: when no unexpired code was issued in the last
  twenty-five seconds, a request mails a code; that code sets a new password within the hour; and
  the new password then logs in to an active account.
\<close>

theorem reset_flow_completes:
  assumes req: "reset_request ci draw True now (Some email) db = (r0, db1)"
    and acc: "email \<noteq> []" "isValidEmail (normalize_email email)" "find_account ci (normalize_email email) db = Some a"
      "a_isActive a" "a_profileStatus a = PROFILE_ACTIVE"
    and quiet: "\<forall>r \<in> set (ad_resets db). pr_userId r = a_id a \<and> \<not> pr_used r \<longrightarrow> pr_createdAt r + 25000 \<le> now"
    and bc: "bc pw (bh pw)" "bh pw \<noteq> []" "6 \<le> length pw" and tok: "\<not> hash_used (h (dr_raw td)) (ad_tokens db)"
    and one: "one_open pr_userId pr_open (ad_resets db)"
    and time: "t1 < now + 3600000"
    and chg: "reset_change ci bh t1 (Some email) (Some (generateResetCode draw)) (Some pw) db1 = (r1, db2)"
    and log: "login_handler ci bc h td t2 ip (Some email) (Some pw) body db2 = (r2, db3)"
  shows "r0 = RESET_OK \<and> last (ad_outbox db1) = (normalize_email email, generateResetCode draw, PASSWORD_RESET_MAIL) \<and>
    r1 = RESET_OK \<and> r2 = LOGIN_OK (a_id a) (dr_raw td)"
proof -
  let ?e = "normalize_email email"
  let ?row = "\<lambda>i. \<lparr>pr_id = i, pr_userId = a_id a, pr_code = generateResetCode draw,
     pr_expiresAt = now + PASSWORD_RESET_CODE_EXPIRATION_MS, pr_used = False, pr_createdAt = now\<rparr>"
  obtain db0 where issue: "reset_request ci draw True now (Some email) db = issue_reset draw True now (a_id a) ?e db0"
    and db0: "ad_users db0 = ad_users db" "ad_tokens db0 = ad_tokens db"
    and closed: "\<And>x. x \<in> set (ad_resets db0) \<Longrightarrow> pr_userId x = a_id a \<Longrightarrow> pr_used x"
  proof (cases "latest_reset (a_id a) db")
    case None
    then have "reset_request ci draw True now (Some email) db = issue_reset draw True now (a_id a) ?e db"
      using acc by (simp add: reset_request_def truthy_def Let_def)
    moreover have "pr_used x" if "x \<in> set (ad_resets db)" "pr_userId x = a_id a" for x
      using that None by (auto simp: latest_reset_def find_latest_None)
    ultimately show thesis using that by blast
  next
    case (Some r)
    note r = latest_resetD [OF Some]
    have "\<not> now - pr_createdAt r < RESET_RESEND_INTERVAL_MS" using quiet r by (auto simp: RESET_RESEND_INTERVAL_MS_def)
    then have "reset_request ci draw True now (Some email) db = issue_reset draw True now (a_id a) ?e (use_reset (pr_id r) db)"
      using acc Some by (simp add: reset_request_def truthy_def Let_def)
    moreover have "pr_used x" if "x \<in> set (update_where (\<lambda>x. pr_id x = pr_id r) (\<lambda>x. x\<lparr>pr_used := True\<rparr>) (ad_resets db))"
      "pr_userId x = a_id a" for x
      using that(1)
    proof (cases rule: update_whereE)
      case kept
      then show ?thesis using one_open_eq [OF one r(1) _ kept(1)] r that(2) by auto
    qed simp
    ultimately show thesis using that [of "use_reset (pr_id r) db"] by simp
  qed
  have db1: "db1 = snd (issue_reset draw True now (a_id a) ?e db0)" and r0: "r0 = RESET_OK"
    using req issue issue_result(1) [of draw True now "a_id a" ?e db0] by auto
  have "find_latest pr_createdAt (\<lambda>x. pr_userId x = a_id a \<and> \<not> pr_used x) (rs @ [?row i]) = Some (?row i)"
    if "\<And>x. x \<in> set rs \<Longrightarrow> pr_userId x = a_id a \<Longrightarrow> pr_used x" for rs i
    using that by (induction rs) auto
  then have latest: "latest_reset (a_id a) db1 = Some (?row (ad_resetSeq db0))"
    using closed by (simp add: latest_reset_def db1 issue_rows)
  have find1: "find_account ci ?e db1 = Some a"
    using acc(3) by (simp add: find_account_def db1 issue_rows db0)
  have code: "js_trim (generateResetCode draw) = generateResetCode draw" "generateResetCode draw \<noteq> []"
    using code_trim [of draw] by (simp_all add: generateResetCode_def generateVerificationCode_def)
  let ?db2 = "use_reset (ad_resetSeq db0) (write_account (a_id a) (\<lambda>a. a\<lparr>a_passwordHash := Some (bh pw)\<rparr>) db1)"
  have "reset_change ci bh t1 (Some email) (Some (generateResetCode draw)) (Some pw) db1 = (RESET_OK, ?db2)"
    using acc bc(3) code latest find1 time
    by (auto simp: reset_change_def truthy_def check_reset_def Let_def PASSWORD_RESET_CODE_EXPIRATION_MS_def)
  then have r1: "r1 = RESET_OK" and db2: "db2 = ?db2" using chg by simp_all
  have find2: "find_account ci ?e ?db2 = Some (a\<lparr>a_passwordHash := Some (bh pw)\<rparr>)"
    using find_account_write [OF find1, of "\<lambda>a. a\<lparr>a_passwordHash := Some (bh pw)\<rparr>"] by (simp add: find_account_def)
  have "fst (login_handler ci bc h td t2 ip (Some email) (Some pw) body ?db2) =
      LOGIN_OK (a_id (a\<lparr>a_passwordHash := Some (bh pw)\<rparr>)) (dr_raw td)"
    by (rule login_succeeds) (use acc find2 bc tok in \<open>auto simp: truthy_def db1 issue_rows db0\<close>)
  then show ?thesis using r0 r1 log db2 issue_result(2) [of True draw now "a_id a" ?e db0] by (simp add: db1)
qed

theorem reset_flow_completes_witness:
  "\<exists>db1 db2 db3 code. reset_request (=) 5 True 60000 (Some ''new@b.ru'') demo_resets = (RESET_OK, db1) \<and>
     last (ad_outbox db1) = (''new@b.ru'', code, PASSWORD_RESET_MAIL) \<and>
     reset_change (=) demo_hash 70000 (Some ''new@b.ru'') (Some code) (Some ''fresh1'') db1 = (RESET_OK, db2) \<and>
     login_handler (=) demo_compare demo_hash demo_draw 80000 None (Some ''new@b.ru'') (Some ''fresh1'') no_device_info db2 =
       (LOGIN_OK 7 ''new'', db3)"
proof -
  obtain r0 db1 where q: "reset_request (=) 5 True 60000 (Some ''new@b.ru'') demo_resets = (r0, db1)" by fastforce
  obtain r1 db2 where c: "reset_change (=) demo_hash 70000 (Some ''new@b.ru'') (Some (generateResetCode 5)) (Some ''fresh1'') db1 = (r1, db2)"
    by fastforce
  obtain r2 db3 where l: "login_handler (=) demo_compare demo_hash demo_draw 80000 None (Some ''new@b.ru'') (Some ''fresh1'')
      no_device_info db2 = (r2, db3)" by fastforce
  have rows: "ad_resets demo_resets = [demo_reset_row]" "td_tokens (ad_tokens demo_resets) = [demo_token]"
    by (simp_all add: demo_resets_def demo_auth_def demo_tokens_def)
  have "r0 = RESET_OK \<and> last (ad_outbox db1) = (normalize_email ''new@b.ru'', generateResetCode 5, PASSWORD_RESET_MAIL) \<and>
      r1 = RESET_OK \<and> r2 = LOGIN_OK (a_id demo_account) (dr_raw demo_draw)"
    by (rule reset_flow_completes [OF q _ _ _ _ _ _ _ _ _ _ _ _ c l])
      (simp_all add: demo_resets_find rows demo_account_def demo_reset_row_def demo_compare_def demo_hash_def
        demo_token_def demo_draw_def one_open_def)
  then show ?thesis using q c l demo_resets_find(2) by (simp add: demo_draw_def)
qed

text \<open>
  A user has at most one usable reset code, and a used code never becomes usable again: after
  any sequence of requests, checks, changes, registrations and logins from an empty table, two
  unused codes of one user are the same row, and a used row is kept unchanged by whatever follows.
\<close>

theorem reset_codes_disciplined:
  assumes none: "ad_resets db = []"
    and r: "r \<in> set (ad_resets (rm.run ae as db))" and x: "x \<in> set (ad_resets (rm.run ae as db))"
  shows "(pr_userId x = pr_userId r \<and> \<not> pr_used r \<and> \<not> pr_used x \<longrightarrow> x = r) \<and>
    (pr_used r \<longrightarrow> r \<in> set (ad_resets (rm.run ae bs (rm.run ae as db))))"
proof -
  have ok0: "reset_ok db" using none by (simp add: reset_ok_def)
  have ok: "reset_ok (rm.run ae as db)" and fr: "rm.fresh_run ae as db" using reset_ok_run [OF ok0] by simp_all
  have fr2: "rm.fresh_run ae bs (rm.run ae as db)" using reset_ok_run [OF ok] by simp
  have dist: "distinct (map pr_id (ad_resets (rm.run ae as db)))"
    using fr by (rule rm.run_distinct) (simp add: none)
  show ?thesis
    using rm.run_open_unique [OF fr none r x] rm.run_frozen [OF fr2 dist r] by blast
qed

theorem reset_codes_disciplined_witness:
  "\<exists>r. ad_resets (rm.run demo_env_auth [RequestOp 5 True 100 (Some ''new@b.ru'')] demo_auth) = [r] \<and> \<not> pr_used r \<and>
     {x. x \<in> set (ad_resets (rm.run demo_env_auth [RequestOp 5 True 100 (Some ''new@b.ru'')] demo_auth)) \<and>
        pr_userId x = pr_userId r \<and> \<not> pr_used x} = {r}"
proof -
  let ?as = "[RequestOp 5 True 100 (Some ''new@b.ru'')]"
  have none: "ad_resets demo_auth = []" by (simp add: demo_auth_def)
  have "ad_resets (reset_step demo_env_auth (hd ?as) demo_auth) =
      ad_resets (snd (issue_reset 5 True 100 7 ''new@b.ru'' demo_auth))"
    using demo_find none
    by (simp add: demo_env_auth_def reset_request_def truthy_def latest_reset_def Let_def demo_account_def)
  then obtain r where r: "ad_resets (rm.run demo_env_auth ?as demo_auth) = [r]" "\<not> pr_used r"
    using none by (simp add: issue_rows)
  have mem: "r \<in> set (ad_resets (rm.run demo_env_auth ?as demo_auth))" unfolding r(1) by simp
  have "x = r" if "x \<in> set (ad_resets (rm.run demo_env_auth ?as demo_auth))" "pr_userId x = pr_userId r" "\<not> pr_used x" for x
    using reset_codes_disciplined [OF none mem that(1)] that(2,3) r(2) by blast
  then show ?thesis using r mem by blast
qed

text \<open>
  Wrong reset codes are not counted: however many codes are tried and refused before it, the
  right code is still accepted, and the state is the one before the first try.  (The code lives an
  hour and has six digits.)
\<close>

theorem reset_guesses_unbounded:
  assumes acc: "find_account ci (normalize_email email) db = Some a" and code: "latest_reset (a_id a) db = Some r"
    and live: "\<forall>(t, g) \<in> set gs. t < pr_expiresAt r \<and> js_trim g \<noteq> pr_code r" "now < pr_expiresAt r"
    and email: "email \<noteq> []" "isValidEmail (normalize_email email)"
    and right: "js_trim right = pr_code r" "pr_code r \<noteq> []" "right \<noteq> []"
  shows "fold (\<lambda>(t, g) d. snd (reset_verify ci t (Some email) (Some g) d)) gs db = db \<and>
    fst (reset_verify ci now (Some email) (Some right)
      (fold (\<lambda>(t, g) d. snd (reset_verify ci t (Some email) (Some g) d)) gs db)) = RESET_OK"
proof -
  have "snd (reset_verify ci t (Some email) (Some g) db) = db" if "t < pr_expiresAt r" "js_trim g \<noteq> pr_code r" for t g
    using that acc code email by (simp add: reset_verify_def check_reset_def Let_def)
  then have "fold (\<lambda>(t, g) d. snd (reset_verify ci t (Some email) (Some g) d)) gs db = db"
    using live(1) by (induction gs) auto
  moreover have "fst (reset_verify ci now (Some email) (Some right) db) = RESET_OK"
    using acc code email right live(2) by (simp add: reset_verify_def check_reset_def truthy_def Let_def)
  ultimately show ?thesis by simp
qed

theorem reset_guesses_unbounded_witness:
  "fst (reset_verify (=) 600 (Some ''new@b.ru'') (Some ''123456'')
     (fold (\<lambda>(t, g) d. snd (reset_verify (=) t (Some ''new@b.ru'') (Some g) d)) (replicate 1000 (500, ''999999'')) demo_resets)) = RESET_OK"
proof (rule conjunct2 [OF reset_guesses_unbounded [where a = demo_account and r = demo_reset_row]])
  show "\<forall>(t, g) \<in> set (replicate 1000 (500, ''999999'')). t < pr_expiresAt demo_reset_row \<and> js_trim g \<noteq> pr_code demo_reset_row"
    unfolding set_replicate_conv_if by (simp add: demo_digits demo_reset_row_def)
qed (simp_all add: demo_resets_find demo_digits, simp_all add: demo_reset_row_def)

text \<open>
  The reply of a repeated request tells whether the address has an account: the second of two
  requests within twenty-five seconds is refused for an existing account and accepted for an
  unknown address.
\<close>

theorem reset_request_reveals:
  assumes "email \<noteq> []" "isValidEmail (normalize_email email)"
    and "unknown \<noteq> []" "isValidEmail (normalize_email unknown)"
    and acc: "find_account ci (normalize_email email) db = Some a" and none: "find_account ci (normalize_email unknown) db = None"
    and open_none: "latest_reset (a_id a) db = None" and "now \<le> now'" "now' < now + 25000"
  shows "fst (reset_request ci d2 True now' (Some email) (snd (reset_request ci d1 True now (Some email) db))) = RESET_TOO_MANY_REQUESTS \<and>
    fst (reset_request ci d2 True now' (Some unknown) (snd (reset_request ci d1 True now (Some unknown) db))) = RESET_OK"
proof
  let ?db1 = "snd (reset_request ci d1 True now (Some email) db)"
  let ?row = "\<lparr>pr_id = ad_resetSeq db, pr_userId = a_id a, pr_code = generateResetCode d1,
     pr_expiresAt = now + PASSWORD_RESET_CODE_EXPIRATION_MS, pr_used = False, pr_createdAt = now\<rparr>"
  have db1: "?db1 = snd (issue_reset d1 True now (a_id a) (normalize_email email) db)"
    using assms(1,2) acc open_none by (simp add: reset_request_def truthy_def Let_def)
  have "find_latest pr_createdAt (\<lambda>x. pr_userId x = a_id a \<and> \<not> pr_used x) (rs @ [?row]) = Some ?row"
    if "\<forall>x \<in> set rs. \<not> (pr_userId x = a_id a \<and> \<not> pr_used x)" for rs
    using that by (induction rs) auto
  then have "latest_reset (a_id a) ?db1 = Some ?row"
    using open_none by (simp add: latest_reset_def db1 issue_rows find_latest_None)
  moreover have "find_account ci (normalize_email email) ?db1 = Some a"
    using acc by (simp add: find_account_def db1 issue_rows)
  ultimately show "fst (reset_request ci d2 True now' (Some email) ?db1) = RESET_TOO_MANY_REQUESTS"
    using assms(1,2,8,9)
    by (simp add: reset_request_def truthy_def Let_def PASSWORD_RESET_CODE_EXPIRATION_MS_def RESET_RESEND_INTERVAL_MS_def)
  show "fst (reset_request ci d2 True now' (Some unknown) (snd (reset_request ci d1 True now (Some unknown) db))) = RESET_OK"
    using assms(3,4) none by (simp add: reset_request_def truthy_def Let_def)
qed

theorem reset_request_reveals_witness:
  "fst (reset_request (=) 6 True 200 (Some ''new@b.ru'') (snd (reset_request (=) 5 True 100 (Some ''new@b.ru'') demo_auth))) =
     RESET_TOO_MANY_REQUESTS \<and>
   fst (reset_request (=) 6 True 200 (Some ''old@b.ru'') (snd (reset_request (=) 5 True 100 (Some ''old@b.ru'') demo_auth))) = RESET_OK"
  by (rule reset_request_reveals [where a = demo_account])
    (simp_all add: demo_find, simp_all add: find_account_def latest_reset_def demo_auth_def demo_account_def)

end
