(* ===== verification/Role_Authorization.thy ===== *)
theory Role_Authorization
  imports Local_Auth
begin

text \<open>
  \<^verbatim>\<open>src/src/middleware/auth.ts\<close> and \<^verbatim>\<open>src/src/middleware/checkUserStatus.ts\<close>:
  authentication of a request by its bearer token, the role hierarchy, the permissions a user
  inherits through it, and the three guards.  The walks up the hierarchy are loops over the role
  table that may contain cycles; they are total functions here, with a termination proof.

  \<open>verify\<close> is \<^verbatim>\<open>jwt.verify\<close> with the access secret.
\<close>

section \<open>Data\<close>

record role =
  rl_id :: int
  rl_name :: string
  rl_parentRoleId :: "int option"

record member =
  mb_id :: user_id
  mb_roleId :: int
  mb_profileStatus :: profile_status
  mb_departmentRoles :: "(int \<times> int) list"

text \<open>A department role is the pair of its role and its department.\<close>

record role_db =
  rd_roles :: "role list"
  rd_members :: "member list"
  rd_rolePermissions :: "(int \<times> string) list"

record jwt_payload =
  jp_userId :: "int option"
  jp_role :: "string option"

datatype jwt_result = JwtOk jwt_payload | JwtExpired | JwtInvalid

datatype auth_failure =
    NO_TOKEN | BAD_AUTH_FORMAT | EMPTY_TOKEN | INVALID_CHARS | INVALID_STRUCTURE | INVALID_PAYLOAD
  | TOKEN_EXPIRED_CODE | INVALID_TOKEN

section \<open>Authentication\<close>

text \<open>\<^verbatim>\<open>/^[A-Za-z0-9-_]+\.[A-Za-z0-9-_]+\.[A-Za-z0-9-_.+/=]*$/\<close>\<close>

definition JWT_RE :: re where
  "JWT_RE = Sq (Plus (Cls token_char)) (Sq (Lit ''.'') (Sq (Plus (Cls token_char)) (Sq (Lit ''.'')
     (Star (Cls (\<lambda>c. token_char c \<or> c \<in> set ''.+/=''))))))"

definition is_ascii :: "string \<Rightarrow> bool" where
  "is_ascii s = list_all (\<lambda>c. (of_char c :: nat) < 128) s"

definition authenticateToken :: "(string \<Rightarrow> jwt_result) \<Rightarrow> string option \<Rightarrow> auth_failure + jwt_payload" where
  "authenticateToken verify authHeader =
     (if \<not> truthy authHeader then Inl NO_TOKEN
      else
        let parts = split_on (CHR '' '') (the authHeader) in
        if length parts \<noteq> 2 \<or> parts ! 0 \<noteq> ''Bearer'' then Inl BAD_AUTH_FORMAT
        else
          let token = js_trim (parts ! 1) in
          if token = [] then Inl EMPTY_TOKEN
          else if \<not> is_ascii token then Inl INVALID_CHARS
          else if \<not> re_test JWT_RE token then Inl INVALID_STRUCTURE
          else case verify token of
            JwtOk decoded \<Rightarrow>
              if \<not> truthy_int (jp_userId decoded) \<or> \<not> truthy (jp_role decoded) then Inl INVALID_PAYLOAD
              else Inr decoded
          | JwtExpired \<Rightarrow> Inl TOKEN_EXPIRED_CODE
          | JwtInvalid \<Rightarrow> Inl INVALID_TOKEN)"

section \<open>Walking up the hierarchy\<close>

text \<open>
  The loop that \<^verbatim>\<open>getRoleHierarchyByName\<close> and \<^verbatim>\<open>collectRoleChain\<close> share:
  \<open>key\<close> and \<open>up\<close> give a row's key and its parent's key, \<open>ok\<close> is the truthiness test of the
  \<^verbatim>\<open>while\<close>, and \<open>seen\<close> the keys collected so far in order.
\<close>

function walk :: "('r \<Rightarrow> 'k) \<Rightarrow> ('r \<Rightarrow> 'k option) \<Rightarrow> ('k \<Rightarrow> bool) \<Rightarrow> 'r list \<Rightarrow> 'k list \<Rightarrow> 'k option \<Rightarrow> 'k list" where
  "walk key up ok rows seen current =
     (case current of
        None \<Rightarrow> seen
      | Some c \<Rightarrow>
          if \<not> ok c then seen
          else if c \<in> set seen then seen
          else walk key up ok rows (seen @ [c])
                 (case List.find (\<lambda>r. key r = c) rows of None \<Rightarrow> None | Some r \<Rightarrow> up r))"
  by pat_completeness auto

text \<open>Each round marks a row as seen, or comes from a key without a row and is the last.\<close>

lemma walk_measure:
  assumes "c \<notin> set seen" and "List.find (\<lambda>r. key r = c) rows = Some r"
  shows "length (filter (\<lambda>x. key x \<notin> set (seen @ [c])) rows) < length (filter (\<lambda>x. key x \<notin> set seen) rows)"
proof -
  have r: "r \<in> set rows" "key r = c" using find_SomeD [OF assms(2)] by simp_all
  have "set (filter (\<lambda>x. key x \<notin> set (seen @ [c])) rows) \<subseteq> set (filter (\<lambda>x. key x \<notin> set seen) rows)" by auto
  have "filter (\<lambda>x. key x \<notin> set (seen @ [c])) rows = filter (\<lambda>x. key x \<noteq> c) (filter (\<lambda>x. key x \<notin> set seen) rows)"
    by (simp add: conj_commute)
  moreover have "length (filter (\<lambda>x. key x \<noteq> c) (filter (\<lambda>x. key x \<notin> set seen) rows)) < length (filter (\<lambda>x. key x \<notin> set seen) rows)"
    by (rule length_filter_less [of r]) (use r assms(1) in simp_all)
  ultimately show ?thesis by simp
qed

termination walk
proof (relation "measures [\<lambda>(key, up, ok, rows, seen, current). length (filter (\<lambda>x. key x \<notin> set seen) rows),
    \<lambda>(key, up, ok, rows, seen, current). if current = None then 0 else 1]", goal_cases)
  case 1
  show ?case by simp
next
  case (2 key up ok rows seen current c)
  show ?case
  proof (cases "List.find (\<lambda>r. key r = c) rows")
    case None
    then have "filter (\<lambda>x. key x \<notin> set (seen @ [c])) rows = filter (\<lambda>x. key x \<notin> set seen) rows"
      by (intro filter_cong) (auto simp: find_None_iff)
    then show ?thesis using None 2 by simp
  next
    case (Some r)
    then show ?thesis using walk_measure [of c seen key rows r] 2 by simp
  qed
qed

declare walk.simps [simp del]

definition getRoleHierarchyByName :: "role list \<Rightarrow> string \<Rightarrow> string list" where
  "getRoleHierarchyByName roles roleName =
     walk rl_name
       (\<lambda>r. case rl_parentRoleId r of
              None \<Rightarrow> None
            | Some p \<Rightarrow> map_option rl_name (List.find (\<lambda>x. rl_id x = p) roles))
       (\<lambda>n. n \<noteq> []) roles [] (Some roleName)"

definition collectRoleChain :: "role list \<Rightarrow> int option \<Rightarrow> int list" where
  "collectRoleChain roles roleId = walk rl_id rl_parentRoleId (\<lambda>i. i \<noteq> 0) roles [] roleId"

section \<open>Permissions and guards\<close>

definition computeUserPermissions :: "user_id \<Rightarrow> role_db \<Rightarrow> string list" where
  "computeUserPermissions userId db =
     (case List.find (\<lambda>m. mb_id m = userId) (rd_members db) of
        None \<Rightarrow> []
      | Some user \<Rightarrow>
          let seedRoleIds = remdups ((if mb_roleId user \<noteq> 0 then [mb_roleId user] else []) @ map fst (mb_departmentRoles user));
              allRoleIds = remdups (concat (map (\<lambda>rid. collectRoleChain (rd_roles db) (Some rid)) seedRoleIds))
          in if allRoleIds = [] then []
             else remdups (map snd (filter (\<lambda>(rid, p). rid \<in> set allRoleIds) (rd_rolePermissions db))))"

datatype guard = NEXT | UNAUTHORIZED | FORBIDDEN | NOT_FOUND | SERVER_ERROR

definition authorizeRoles :: "string list \<Rightarrow> jwt_payload option \<Rightarrow> role_db \<Rightarrow> guard" where
  "authorizeRoles allowedRoles user db =
     (case user of
        None \<Rightarrow> UNAUTHORIZED
      | Some u \<Rightarrow>
          let userRoles = getRoleHierarchyByName (rd_roles db) (or_empty (jp_role u)) in
          if list_ex (\<lambda>r. r \<in> set userRoles) allowedRoles then NEXT else FORBIDDEN)"

datatype mode = MODE_ALL | MODE_ANY

definition authorizePermissions :: "string list \<Rightarrow> mode option \<Rightarrow> jwt_payload option \<Rightarrow> role_db \<Rightarrow> guard" where
  "authorizePermissions requiredPermissions optMode user db =
     (let mode = (case optMode of None \<Rightarrow> MODE_ALL | Some m \<Rightarrow> m) in
      case user of
        None \<Rightarrow> UNAUTHORIZED
      | Some u \<Rightarrow>
          let roleChain = getRoleHierarchyByName (rd_roles db) (or_empty (jp_role u)) in
          if ''admin'' \<in> set roleChain \<or> ''administrator'' \<in> set roleChain then NEXT
          else case jp_userId u of
            None \<Rightarrow> SERVER_ERROR
          | Some userId \<Rightarrow>
              let permSet = computeUserPermissions userId db;
                  hasPermission = (if mode = MODE_ANY then list_ex (\<lambda>p. p \<in> set permSet) requiredPermissions
                                   else list_all (\<lambda>p. p \<in> set permSet) requiredPermissions)
              in if hasPermission then NEXT else FORBIDDEN)"

definition checkUserStatus :: "jwt_payload option \<Rightarrow> role_db \<Rightarrow> guard" where
  "checkUserStatus user db =
     (case user of
        None \<Rightarrow> UNAUTHORIZED
      | Some u \<Rightarrow>
          if \<not> truthy_int (jp_userId u) then UNAUTHORIZED
          else case List.find (\<lambda>m. mb_id m = the (jp_userId u)) (rd_members db) of
            None \<Rightarrow> NOT_FOUND
          | Some m \<Rightarrow> if mb_profileStatus m = PROFILE_BLOCKED then FORBIDDEN else NEXT)"

section \<open>The walk computes the ancestors\<close>

text \<open>The reference: one step up, defined on keys the loop would accept, and its closure.\<close>

definition climb :: "('r \<Rightarrow> 'k) \<Rightarrow> ('r \<Rightarrow> 'k option) \<Rightarrow> ('k \<Rightarrow> bool) \<Rightarrow> 'r list \<Rightarrow> 'k \<Rightarrow> 'k \<Rightarrow> bool" where
  "climb key up ok rows c d \<longleftrightarrow> ok d \<and> (\<exists>r. List.find (\<lambda>r. key r = c) rows = Some r \<and> up r = Some d)"

lemma walk_closure:
  assumes "\<And>v d. v \<in> set seen \<Longrightarrow> climb key up ok rows v d \<Longrightarrow> d \<in> set seen \<or> current = Some d"
  shows "set (walk key up ok rows seen current) =
    set seen \<union> {d. \<exists>c. current = Some c \<and> ok c \<and> (climb key up ok rows)\<^sup>*\<^sup>* c d}"
  using assms
proof (induction key up ok rows seen current rule: walk.induct)
  case (1 key up ok rows seen current)
  let ?C = "climb key up ok rows"
  show ?case
  proof (cases "\<exists>c. current = Some c \<and> ok c \<and> c \<notin> set seen")
    case True
    then obtain c where c: "current = Some c" "ok c" "c \<notin> set seen" by blast
    let ?next = "case List.find (\<lambda>r. key r = c) rows of None \<Rightarrow> None | Some r \<Rightarrow> up r"
    have next_: "?C c d \<longleftrightarrow> ok d \<and> ?next = Some d" for d
      by (cases "List.find (\<lambda>r. key r = c) rows") (auto simp: climb_def)
    have "set (walk key up ok rows (seen @ [c]) ?next) =
        set (seen @ [c]) \<union> {d. \<exists>c'. ?next = Some c' \<and> ok c' \<and> ?C\<^sup>*\<^sup>* c' d}"
    proof (rule 1(1) [OF c(1)])
      fix v d
      assume v: "v \<in> set (seen @ [c])" "?C v d"
      show "d \<in> set (seen @ [c]) \<or> ?next = Some d"
      proof (cases "v = c")
        case True
        then show ?thesis using v(2) next_ by simp
      next
        case False
        then show ?thesis using v 1(2) [of v d] c(1) by auto
      qed
    qed (use c in simp_all)
    moreover have "walk key up ok rows seen current = walk key up ok rows (seen @ [c]) ?next"
      using c by (subst walk.simps) simp
    moreover have "{d. \<exists>c'. ?next = Some c' \<and> ok c' \<and> ?C\<^sup>*\<^sup>* c' d} \<union> {c} = {d. ?C\<^sup>*\<^sup>* c d}"
      using next_ by (auto elim: converse_rtranclpE intro: converse_rtranclp_into_rtranclp)
    ultimately show ?thesis using c by auto
  next
    case False
    have stop: "walk key up ok rows seen current = seen"
      using False by (subst walk.simps) (auto split: option.split)
    have "d \<in> set seen" if "current = Some c" "ok c" "?C\<^sup>*\<^sup>* c d" for c d
      using that(3)
    proof (induction rule: rtranclp_induct)
      case base
      then show ?case using False that by blast
    next
      case (step y z)
      then show ?case using 1(2) [of y z] False that climb_def [of key up ok rows y z] by auto
    qed
    then show ?thesis using stop by auto
  qed
qed

abbreviation role_parent :: "role list \<Rightarrow> int \<Rightarrow> int \<Rightarrow> bool" where
  "role_parent roles \<equiv> climb rl_id rl_parentRoleId (\<lambda>i. i \<noteq> 0) roles"

lemma collectRoleChain_set:
  "set (collectRoleChain roles (Some i)) = (if i = 0 then {} else {j. (role_parent roles)\<^sup>*\<^sup>* i j})"
  unfolding collectRoleChain_def by (subst walk_closure) auto

lemma walk_distinct: "distinct seen \<Longrightarrow> distinct (walk key up ok rows seen current)"
proof (induction key up ok rows seen current rule: walk.induct)
  case (1 key up ok rows seen current)
  then show ?case by (subst walk.simps) (auto split: option.split)
qed

text \<open>
  C33: The role chain is exactly the reflexive and transitive closure of the parent relation, each
  role once, on every role table, cyclic ones included: the loop ends and neither misses an ancestor
  nor invents one.
\<close>

theorem role_chain_exact:
  "set (collectRoleChain roles (Some i)) =
     (if i = 0 then {} else {j. (\<lambda>a b. b \<noteq> 0 \<and> (\<exists>r. List.find (\<lambda>x. rl_id x = a) roles = Some r \<and> rl_parentRoleId r = Some b))\<^sup>*\<^sup>* i j}) \<and>
   distinct (collectRoleChain roles (Some i))"
proof
  show "set (collectRoleChain roles (Some i)) =
     (if i = 0 then {} else {j. (\<lambda>a b. b \<noteq> 0 \<and> (\<exists>r. List.find (\<lambda>x. rl_id x = a) roles = Some r \<and> rl_parentRoleId r = Some b))\<^sup>*\<^sup>* i j})"
    unfolding collectRoleChain_set climb_def ..
  show "distinct (collectRoleChain roles (Some i))"
    unfolding collectRoleChain_def by (rule walk_distinct) simp
qed

lemma permissions_of:
  "p \<in> set (if remdups xs = [] then [] else remdups (map snd (filter (\<lambda>(rid, p). rid \<in> set (remdups xs)) rps))) \<longleftrightarrow>
   (\<exists>r. r \<in> set xs \<and> (r, p) \<in> set rps)"
  by (cases "xs = []") force+

lemma computeUserPermissions_iff:
  "p \<in> set (computeUserPermissions u db) \<longleftrightarrow>
     (\<exists>m seed r. List.find (\<lambda>m. mb_id m = u) (rd_members db) = Some m \<and>
        (seed = mb_roleId m \<or> seed \<in> fst ` set (mb_departmentRoles m)) \<and> seed \<noteq> 0 \<and>
        (role_parent (rd_roles db))\<^sup>*\<^sup>* seed r \<and> (r, p) \<in> set (rd_rolePermissions db))"
proof (cases "List.find (\<lambda>m. mb_id m = u) (rd_members db)")
  case None
  then show ?thesis by (simp add: computeUserPermissions_def)
next
  case (Some m)
  let ?seeds = "(if mb_roleId m \<noteq> 0 then [mb_roleId m] else []) @ map fst (mb_departmentRoles m)"
  let ?all = "concat (map (\<lambda>rid. collectRoleChain (rd_roles db) (Some rid)) (remdups ?seeds))"
  have all: "r \<in> set ?all \<longleftrightarrow> (\<exists>seed. (seed = mb_roleId m \<or> seed \<in> fst ` set (mb_departmentRoles m)) \<and> seed \<noteq> 0 \<and>
      (role_parent (rd_roles db))\<^sup>*\<^sup>* seed r)" for r
    unfolding set_concat set_map set_remdups by (auto simp: collectRoleChain_set split: if_splits)
  have c: "computeUserPermissions u db = (if remdups ?all = [] then []
      else remdups (map snd (filter (\<lambda>(rid, p). rid \<in> set (remdups ?all)) (rd_rolePermissions db))))"
    unfolding computeUserPermissions_def Some option.case Let_def ..
  have "p \<in> set (computeUserPermissions u db) \<longleftrightarrow> (\<exists>r. r \<in> set ?all \<and> (r, p) \<in> set (rd_rolePermissions db))"
    unfolding c by (rule permissions_of)
  then show ?thesis unfolding all Some by simp blast
qed

text \<open>
  The permission guard lets a request through exactly when the role named in the token is, or
  descends from, an administrator role, or the required permissions (all of them, or one in
  \<^verbatim>\<open>any\<close> mode) are attached to ancestors of the user's own role or department roles.
\<close>

theorem authorize_permissions_exact:
  "authorizePermissions required m (Some \<lparr>jp_userId = Some u, jp_role = role\<rparr>) db = NEXT \<longleftrightarrow>
     ''admin'' \<in> set (getRoleHierarchyByName (rd_roles db) (or_empty role)) \<or>
     ''administrator'' \<in> set (getRoleHierarchyByName (rd_roles db) (or_empty role)) \<or>
     (let granted = {p. \<exists>x seed r. List.find (\<lambda>x. mb_id x = u) (rd_members db) = Some x \<and>
            (seed = mb_roleId x \<or> seed \<in> fst ` set (mb_departmentRoles x)) \<and> seed \<noteq> 0 \<and>
            (role_parent (rd_roles db))\<^sup>*\<^sup>* seed r \<and> (r, p) \<in> set (rd_rolePermissions db)}
      in if m = Some MODE_ANY then set required \<inter> granted \<noteq> {} else set required \<subseteq> granted)"
proof -
  let ?P = "set (computeUserPermissions u db)"
  have eq: "{p. \<exists>x seed r. List.find (\<lambda>x. mb_id x = u) (rd_members db) = Some x \<and>
            (seed = mb_roleId x \<or> seed \<in> fst ` set (mb_departmentRoles x)) \<and> seed \<noteq> 0 \<and>
            (role_parent (rd_roles db))\<^sup>*\<^sup>* seed r \<and> (r, p) \<in> set (rd_rolePermissions db)} = ?P"
    using computeUserPermissions_iff [of _ u db] by blast
  have mode: "(case m of None \<Rightarrow> MODE_ALL | Some x \<Rightarrow> x) = MODE_ANY \<longleftrightarrow> m = Some MODE_ANY"
    by (cases m) simp_all
  show ?thesis
    unfolding eq Let_def authorizePermissions_def
    by (auto simp: mode list_ex_iff list_all_iff)
qed

section \<open>The bearer token\<close>

lemma split_on_two: "split_on d s = [a, b] \<longleftrightarrow> s = a @ d # b \<and> d \<notin> set a \<and> d \<notin> set b"
proof
  show "split_on d s = [a, b]" if "s = a @ d # b \<and> d \<notin> set a \<and> d \<notin> set b"
    using that by (simp add: split_on_append split_on_none)
next
  have one: "split_on d s = [b] \<Longrightarrow> s = b \<and> d \<notin> set b" for s b
    by (induction s arbitrary: b) (auto simp: split_on_ne split: if_splits list.splits)
  show "split_on d s = [a, b] \<Longrightarrow> s = a @ d # b \<and> d \<notin> set a \<and> d \<notin> set b"
  proof (induction s arbitrary: a)
    case (Cons c cs)
    show ?case
    proof (cases "c = d")
      case True
      then show ?thesis using Cons.prems one [of cs b] by auto
    next
      case False
      then obtain p where "split_on d cs = [p, b]" "a = c # p"
        using Cons.prems by (auto split: list.splits)
      then show ?thesis using Cons.IH [of p] False by simp
    qed
  qed simp
qed

text \<open>
  A request is authenticated exactly when its header is the word Bearer, one space and a token
  without spaces that is ASCII, has the three-part shape of a JWT, and verifies to a payload with a
  user and a role; every other header is refused.
\<close>

theorem authenticate_exact:
  "authenticateToken verify (Some h) = Inr p \<longleftrightarrow>
     (\<exists>raw. h = ''Bearer'' @ CHR '' '' # raw \<and> CHR '' '' \<notin> set raw \<and> js_trim raw \<noteq> [] \<and> is_ascii (js_trim raw) \<and>
        denotes JWT_RE (js_trim raw) \<and> verify (js_trim raw) = JwtOk p \<and> truthy_int (jp_userId p) \<and> truthy (jp_role p))"
proof -
  let ?parts = "split_on (CHR '' '') h"
  have two: "length ?parts = 2 \<and> ?parts ! 0 = ''Bearer'' \<longleftrightarrow> (\<exists>raw. ?parts = [''Bearer'', raw])"
    by (cases ?parts; cases "tl ?parts") (auto simp: numeral_2_eq_2)
  have sp: "CHR '' '' \<notin> set ''Bearer''" by simp
  show ?thesis
  proof (cases "\<exists>raw. ?parts = [''Bearer'', raw]")
    case True
    then obtain raw where raw: "?parts = [''Bearer'', raw]" by blast
    then have h: "h = ''Bearer'' @ CHR '' '' # raw" "CHR '' '' \<notin> set raw" using split_on_two by blast+
    have "(\<exists>r. h = ''Bearer'' @ CHR '' '' # r \<and> Q r) \<longleftrightarrow> Q raw" for Q using h by auto
    moreover have "truthy (Some h)" using h by (simp add: truthy_def)
    ultimately show ?thesis
      using raw h by (auto simp: authenticateToken_def Let_def re_test_denotes split: jwt_result.splits)
  next
    case False
    then have "authenticateToken verify (Some h) \<noteq> Inr p"
      using two by (auto simp: authenticateToken_def Let_def)
    moreover have "\<not> (\<exists>raw. h = ''Bearer'' @ CHR '' '' # raw \<and> CHR '' '' \<notin> set raw)"
      using False split_on_two [of "CHR '' ''" h "''Bearer''"] sp by blast
    ultimately show ?thesis by blast
  qed
qed

end
