(* ===== verification/Service_Access.thy ===== *)
theory Service_Access
  imports Role_Authorization
begin

text \<open>
  \<^verbatim>\<open>src/src/services/serviceAccess.ts\<close> and \<^verbatim>\<open>src/src/middleware/serviceAccess.ts\<close>:
  which services a user sees and may use.  A user's roles (own and by department, each with its
  distance in the hierarchy) and departments form the access context; rules of four layers (user,
  department and role, department, role) are evaluated on it, the most specific layer first.

  The rows carry the names that the queries join to them.  \<open>contains a b\<close> is the database's
  case-insensitive substring test.
\<close>

section \<open>Data\<close>

datatype profile_type = CLIENT | SUPPLIER | EMPLOYEE

datatype role_source = PRIMARY_ROLE | BY_DEPARTMENT_ROLE

record role_assignment =
  ra_roleId :: int
  ra_roleName :: "string option"
  ra_distance :: nat
  ra_source :: role_source
  ra_sourceDepartmentId :: "int option"

datatype department_source = PRIMARY_DEPARTMENT | ACTIVE_DEPARTMENT | FROM_DEPARTMENT_ROLE

record department_assignment =
  da_departmentId :: int
  da_source :: department_source

record access_context =
  cx_userId :: user_id
  cx_roleName :: "string option"
  cx_currentProfileType :: "profile_type option"
  cx_activeDepartmentId :: "int option"
  cx_roleIds :: "int list"
  cx_roleAssignments :: "role_assignment list"
  cx_roleDistanceById :: "int \<rightharpoonup> nat"
  cx_departmentIds :: "int list"
  cx_departmentAssignments :: "department_assignment list"
  cx_availableDepartmentIds :: "int list"
  cx_isEmployee :: bool
  cx_isAdmin :: bool

datatype rule_field = VISIBLE | ENABLED

record rule =
  ru_id :: int
  ru_visible :: "bool option"
  ru_enabled :: "bool option"

record user_rule = rule +
  ur_userId :: user_id
  ur_userName :: "string option"

record role_rule = rule +
  rr_roleId :: int
  rr_roleName :: "string option"
  rr_roleDisplayName :: "string option"
  rr_distance :: nat

record department_rule = rule +
  dp_departmentId :: int
  dp_departmentName :: "string option"

record department_role_rule = rule +
  dq_departmentId :: int
  dq_departmentName :: "string option"
  dq_roleId :: int
  dq_roleName :: "string option"
  dq_roleDisplayName :: "string option"
  dq_distance :: nat

definition field_of :: "rule_field \<Rightarrow> 'a rule_scheme \<Rightarrow> bool option" where
  "field_of f r = (case f of VISIBLE \<Rightarrow> ru_visible r | ENABLED \<Rightarrow> ru_enabled r)"

datatype origin = BY_DEFAULT | EXPLICIT

record 'r layer_decision =
  ly_value :: bool
  ly_origin :: origin
  ly_matchedRules :: "'r list"

datatype decision_source = SRC_DEFAULT | SRC_ROLE | SRC_DEPARTMENT | SRC_DEPARTMENT_ROLE | SRC_USER

record field_decision =
  fd_value :: bool
  fd_source :: decision_source

record access_decision =
  ac_visible :: bool
  ac_enabled :: bool
  ac_finalVisible :: field_decision
  ac_finalEnabled :: field_decision
  ac_userVisible :: "user_rule layer_decision"
  ac_userEnabled :: "user_rule layer_decision"
  ac_departmentRoleVisible :: "department_role_rule layer_decision"
  ac_departmentRoleEnabled :: "department_role_rule layer_decision"
  ac_roleVisible :: "role_rule layer_decision"
  ac_roleEnabled :: "role_rule layer_decision"
  ac_departmentVisible :: "department_rule layer_decision"
  ac_departmentEnabled :: "department_rule layer_decision"

text \<open>The stored tables: rules as rows of a service, users with their profile and department roles.\<close>

record user_access = rule +
  ua_userId :: user_id
  ua_firstName :: "string option"
  ua_lastName :: "string option"
  ua_email :: "string option"

record role_access = rule +
  rx_roleId :: int
  rx_roleName :: string
  rx_roleDisplayName :: "string option"

record department_access = rule +
  dx_departmentId :: int
  dx_departmentName :: string

record department_role_access = rule +
  dy_departmentId :: int
  dy_departmentName :: "string option"
  dy_roleId :: int
  dy_roleName :: "string option"
  dy_roleDisplayName :: "string option"

datatype service_kind = LOCAL_SERVICE | CLOUD_SERVICE

record service_view =
  sv_id :: int
  sv_key :: string
  sv_name :: string
  sv_kind :: service_kind
  sv_route :: "string option"
  sv_icon :: "string option"
  sv_description :: "string option"
  sv_gradientStart :: "string option"
  sv_gradientEnd :: "string option"

record service = service_view +
  sv_isActive :: bool
  sv_defaultVisible :: bool
  sv_defaultEnabled :: bool
  sv_userAccess :: "user_access list"
  sv_roleAccess :: "role_access list"
  sv_departmentAccess :: "department_access list"
  sv_departmentRoleAccess :: "department_role_access list"

record access_user =
  au_id :: user_id
  au_email :: "string option"
  au_firstName :: "string option"
  au_lastName :: "string option"
  au_roleId :: int
  au_currentProfileType :: "profile_type option"
  au_employee :: "(int option \<times> int option) option"
  au_departmentRoles :: "(int \<times> int) list"

text \<open>
  \<open>au_employee\<close> is the employee profile with its department and its active department; a
  department role is the pair of its role and its department.
\<close>

record access_db =
  xd_roles :: "role list"
  xd_users :: "access_user list"
  xd_services :: "service list"

datatype access_error = USER_NOT_FOUND_ERROR | SERVICE_NOT_FOUND_ERROR

section \<open>The access context\<close>

definition ADMIN_ROLE_NAMES :: "string list" where
  "ADMIN_ROLE_NAMES = [''admin'', ''administrator'']"

text \<open>The chain of the roles of this file, each with its distance.\<close>

definition collect_role_chain :: "role list \<Rightarrow> int option \<Rightarrow> (int \<times> nat) list" where
  "collect_role_chain roles roleId =
     (let chain = collectRoleChain roles roleId in zip chain [0..<length chain])"

definition truthy_id :: "int option \<Rightarrow> int list" where
  "truthy_id i = (case i of None \<Rightarrow> [] | Some k \<Rightarrow> if k = 0 then [] else [k])"

definition set_add :: "'a \<Rightarrow> 'a list \<Rightarrow> 'a list" where
  "set_add x xs = (if x \<in> set xs then xs else xs @ [x])"

definition addDepartmentAssignment ::
  "int option \<Rightarrow> department_source \<Rightarrow> int list \<times> department_assignment list \<Rightarrow> int list \<times> department_assignment list" where
  "addDepartmentAssignment departmentId source st =
     (case departmentId of
        None \<Rightarrow> st
      | Some d \<Rightarrow>
          if d = 0 then st
          else (set_add d (fst st), set_add \<lparr>da_departmentId = d, da_source = source\<rparr> (snd st)))"

definition effective_departments ::
  "int option \<Rightarrow> int option \<Rightarrow> (int \<times> int) list \<Rightarrow> int list \<times> department_assignment list" where
  "effective_departments primaryDepartmentId activeDepartmentId departmentRoles =
     (if truthy_int activeDepartmentId
      then fold (\<lambda>(r, d) st. if Some d = activeDepartmentId then addDepartmentAssignment (Some d) FROM_DEPARTMENT_ROLE st else st)
             departmentRoles
             (addDepartmentAssignment activeDepartmentId
                (if activeDepartmentId = primaryDepartmentId then PRIMARY_DEPARTMENT else ACTIVE_DEPARTMENT) ([], []))
      else fold (\<lambda>(r, d) st. addDepartmentAssignment (Some d) FROM_DEPARTMENT_ROLE st) departmentRoles
             (addDepartmentAssignment primaryDepartmentId PRIMARY_DEPARTMENT ([], [])))"

definition role_assignments ::
  "role list \<Rightarrow> int \<Rightarrow> string option \<Rightarrow> (int \<times> int) list \<Rightarrow> role_assignment list" where
  "role_assignments roles roleId roleName relevantDepartmentRoles =
     (if roleId \<noteq> 0
      then map (\<lambda>(i, n). \<lparr>ra_roleId = i, ra_roleName = roleName, ra_distance = n, ra_source = PRIMARY_ROLE,
                          ra_sourceDepartmentId = None\<rparr>) (collect_role_chain roles (Some roleId))
      else []) @
     concat (map (\<lambda>(r, d). map (\<lambda>(i, n). \<lparr>ra_roleId = i, ra_roleName = None, ra_distance = n,
                     ra_source = BY_DEPARTMENT_ROLE, ra_sourceDepartmentId = Some d\<rparr>) (collect_role_chain roles (Some r)))
       relevantDepartmentRoles)"

definition note_distance :: "role_assignment \<Rightarrow> (int \<rightharpoonup> nat) \<Rightarrow> (int \<rightharpoonup> nat)" where
  "note_distance a m =
     (case m (ra_roleId a) of
        None \<Rightarrow> m(ra_roleId a \<mapsto> ra_distance a)
      | Some prev \<Rightarrow> if ra_distance a < prev then m(ra_roleId a \<mapsto> ra_distance a) else m)"

definition resolveUserAccessContext :: "user_id \<Rightarrow> access_db \<Rightarrow> access_error + access_context" where
  "resolveUserAccessContext userId db =
     (case List.find (\<lambda>u. au_id u = userId) (xd_users db) of
        None \<Rightarrow> Inl USER_NOT_FOUND_ERROR
      | Some user \<Rightarrow>
          let roleName = map_option rl_name (List.find (\<lambda>r. rl_id r = au_roleId user) (xd_roles db));
              roleChain = (if truthy roleName then getRoleHierarchyByName (xd_roles db) (the roleName) else []);
              isAdmin = (truthy roleName \<and> (the roleName \<in> set ADMIN_ROLE_NAMES \<or>
                           ''admin'' \<in> set roleChain \<or> ''administrator'' \<in> set roleChain));
              primaryDepartmentId = (case au_employee user of None \<Rightarrow> None | Some (p, a) \<Rightarrow> p);
              activeDepartmentId = nullish (case au_employee user of None \<Rightarrow> None | Some (p, a) \<Rightarrow> a) primaryDepartmentId;
              availableDepartmentIds = remdups (truthy_id primaryDepartmentId @ truthy_id activeDepartmentId @
                concat (map (\<lambda>(r, d). truthy_id (Some d)) (au_departmentRoles user)));
              (departmentIds, departmentAssignments) =
                effective_departments primaryDepartmentId activeDepartmentId (au_departmentRoles user);
              relevantDepartmentRoles =
                (if truthy_int activeDepartmentId
                 then filter (\<lambda>(r, d). Some d = activeDepartmentId) (au_departmentRoles user)
                 else au_departmentRoles user);
              assignments = role_assignments (xd_roles db) (au_roleId user) roleName relevantDepartmentRoles
          in Inr \<lparr>cx_userId = userId, cx_roleName = roleName, cx_currentProfileType = au_currentProfileType user,
                 cx_activeDepartmentId = activeDepartmentId, cx_roleIds = remdups (map ra_roleId assignments),
                 cx_roleAssignments = assignments, cx_roleDistanceById = fold note_distance assignments Map.empty,
                 cx_departmentIds = departmentIds, cx_departmentAssignments = departmentAssignments,
                 cx_availableDepartmentIds = availableDepartmentIds,
                 cx_isEmployee = (au_currentProfileType user = Some EMPLOYEE), cx_isAdmin = isAdmin\<rparr>)"

section \<open>Evaluation of the layers\<close>

definition MAX_SAFE_INTEGER :: nat where
  "MAX_SAFE_INTEGER = 9007199254740991"

definition explicit_rules :: "rule_field \<Rightarrow> ('a rule_scheme) list \<Rightarrow> ('a rule_scheme) list" where
  "explicit_rules f rules = filter (\<lambda>r. field_of f r \<noteq> None) rules"

text \<open>The last part of each evaluation: a denying rule wins, otherwise the rules allow.\<close>

definition verdict :: "rule_field \<Rightarrow> ('a rule_scheme) list \<Rightarrow> ('a rule_scheme) layer_decision" where
  "verdict f rules =
     (if list_ex (\<lambda>r. field_of f r = Some False) rules
      then \<lparr>ly_value = False, ly_origin = EXPLICIT, ly_matchedRules = filter (\<lambda>r. field_of f r = Some False) rules\<rparr>
      else \<lparr>ly_value = True, ly_origin = EXPLICIT, ly_matchedRules = filter (\<lambda>r. field_of f r = Some True) rules\<rparr>)"

definition evaluateUserField :: "bool \<Rightarrow> user_rule list \<Rightarrow> rule_field \<Rightarrow> user_rule layer_decision" where
  "evaluateUserField base rules f =
     (let explicitRules = explicit_rules f rules in
      if explicitRules = [] then \<lparr>ly_value = base, ly_origin = BY_DEFAULT, ly_matchedRules = []\<rparr>
      else verdict f explicitRules)"

definition evaluateDepartmentField :: "bool \<Rightarrow> department_rule list \<Rightarrow> rule_field \<Rightarrow> department_rule layer_decision" where
  "evaluateDepartmentField base rules f =
     (let explicitRules = explicit_rules f rules in
      if explicitRules = [] then \<lparr>ly_value = base, ly_origin = BY_DEFAULT, ly_matchedRules = []\<rparr>
      else verdict f explicitRules)"

definition evaluateRoleField :: "bool \<Rightarrow> role_rule list \<Rightarrow> rule_field \<Rightarrow> role_rule layer_decision" where
  "evaluateRoleField base rules f =
     (let explicitRules = explicit_rules f rules in
      if explicitRules = [] then \<lparr>ly_value = base, ly_origin = BY_DEFAULT, ly_matchedRules = []\<rparr>
      else
        let minDistance = fold (\<lambda>r v. min v (rr_distance r)) explicitRules MAX_SAFE_INTEGER
        in verdict f (filter (\<lambda>r. rr_distance r = minDistance) explicitRules))"

definition evaluateDepartmentRoleField ::
  "bool \<Rightarrow> department_role_rule list \<Rightarrow> rule_field \<Rightarrow> department_role_rule layer_decision" where
  "evaluateDepartmentRoleField base rules f =
     (let explicitRules = explicit_rules f rules in
      if explicitRules = [] then \<lparr>ly_value = base, ly_origin = BY_DEFAULT, ly_matchedRules = []\<rparr>
      else
        let minDistance = fold (\<lambda>r v. min v (dq_distance r)) explicitRules MAX_SAFE_INTEGER
        in verdict f (filter (\<lambda>r. dq_distance r = minDistance) explicitRules))"

definition resolveFinalField ::
  "bool \<Rightarrow> user_rule layer_decision \<Rightarrow> department_role_rule layer_decision \<Rightarrow> department_rule layer_decision \<Rightarrow>
   role_rule layer_decision \<Rightarrow> field_decision" where
  "resolveFinalField base userDecision departmentRoleDecision departmentDecision roleDecision =
     (if ly_origin userDecision = EXPLICIT then \<lparr>fd_value = ly_value userDecision, fd_source = SRC_USER\<rparr>
      else if ly_origin departmentRoleDecision = EXPLICIT
      then \<lparr>fd_value = ly_value departmentRoleDecision, fd_source = SRC_DEPARTMENT_ROLE\<rparr>
      else if ly_origin departmentDecision = EXPLICIT
      then \<lparr>fd_value = ly_value departmentDecision, fd_source = SRC_DEPARTMENT\<rparr>
      else if ly_origin roleDecision = EXPLICIT then \<lparr>fd_value = ly_value roleDecision, fd_source = SRC_ROLE\<rparr>
      else \<lparr>fd_value = base, fd_source = SRC_DEFAULT\<rparr>)"

definition applyRuleFlags ::
  "bool \<Rightarrow> bool \<Rightarrow> user_rule list \<Rightarrow> department_role_rule list \<Rightarrow> role_rule list \<Rightarrow> department_rule list \<Rightarrow> access_decision" where
  "applyRuleFlags baseVisible baseEnabled userRules departmentRoleRules roleRules departmentRules =
     (let userVisible = evaluateUserField baseVisible userRules VISIBLE;
          userEnabled = evaluateUserField baseEnabled userRules ENABLED;
          departmentRoleVisible = evaluateDepartmentRoleField baseVisible departmentRoleRules VISIBLE;
          departmentRoleEnabled = evaluateDepartmentRoleField baseEnabled departmentRoleRules ENABLED;
          roleVisible = evaluateRoleField baseVisible roleRules VISIBLE;
          roleEnabled = evaluateRoleField baseEnabled roleRules ENABLED;
          departmentVisible = evaluateDepartmentField baseVisible departmentRules VISIBLE;
          departmentEnabled = evaluateDepartmentField baseEnabled departmentRules ENABLED;
          finalVisible = resolveFinalField baseVisible userVisible departmentRoleVisible departmentVisible roleVisible;
          rawEnabled = resolveFinalField baseEnabled userEnabled departmentRoleEnabled departmentEnabled roleEnabled;
          visible = fd_value finalVisible;
          enabled = (if visible then fd_value rawEnabled else False);
          finalEnabled = (if visible then rawEnabled else \<lparr>fd_value = False, fd_source = fd_source rawEnabled\<rparr>)
      in \<lparr>ac_visible = visible, ac_enabled = enabled, ac_finalVisible = finalVisible, ac_finalEnabled = finalEnabled,
          ac_userVisible = userVisible, ac_userEnabled = userEnabled,
          ac_departmentRoleVisible = departmentRoleVisible, ac_departmentRoleEnabled = departmentRoleEnabled,
          ac_roleVisible = roleVisible, ac_roleEnabled = roleEnabled,
          ac_departmentVisible = departmentVisible, ac_departmentEnabled = departmentEnabled\<rparr>)"

definition matching_assignments :: "access_context \<Rightarrow> int \<Rightarrow> int \<Rightarrow> role_assignment list" where
  "matching_assignments ctx departmentId roleId =
     filter (\<lambda>a. ra_roleId a = roleId \<and>
               (if ra_source a = PRIMARY_ROLE then departmentId \<in> set (cx_departmentIds ctx)
                else ra_sourceDepartmentId a = Some departmentId)) (cx_roleAssignments ctx)"

definition mapMatchedDepartmentRoleRules :: "access_context \<Rightarrow> department_role_access list \<Rightarrow> department_role_rule list" where
  "mapMatchedDepartmentRoleRules ctx rules =
     concat (map (\<lambda>r.
       let matching = matching_assignments ctx (dy_departmentId r) (dy_roleId r) in
       if matching = [] then []
       else [\<lparr>ru_id = ru_id r, ru_visible = ru_visible r, ru_enabled = ru_enabled r,
              dq_departmentId = dy_departmentId r, dq_departmentName = dy_departmentName r, dq_roleId = dy_roleId r,
              dq_roleName = dy_roleName r, dq_roleDisplayName = dy_roleDisplayName r,
              dq_distance = fold (\<lambda>a v. min v (ra_distance a)) matching MAX_SAFE_INTEGER\<rparr>]) rules)"

datatype reason = NOT_EMPLOYEE_PROFILE | SERVICE_INACTIVE | SERVICE_HIDDEN | SERVICE_DISABLED

definition buildReasonCodes :: "bool \<Rightarrow> bool \<Rightarrow> bool \<Rightarrow> bool \<Rightarrow> bool \<Rightarrow> reason list" where
  "buildReasonCodes isEmployee isAdmin serviceIsActive visible enabled =
     (if isAdmin then []
      else if \<not> isEmployee then [NOT_EMPLOYEE_PROFILE]
      else (if \<not> serviceIsActive then [SERVICE_INACTIVE] else []) @
           (if \<not> visible then [SERVICE_HIDDEN] else []) @
           (if visible \<and> \<not> enabled then [SERVICE_DISABLED] else []))"

section \<open>Queries\<close>

datatype service_lookup = ById int | ByKey string

definition find_service :: "service_lookup \<Rightarrow> access_db \<Rightarrow> service option" where
  "find_service l db =
     List.find (\<lambda>s. case l of ById i \<Rightarrow> sv_id s = i | ByKey k \<Rightarrow> sv_key s = k) (xd_services db)"

text \<open>\<^verbatim>\<open>[firstName, lastName].filter(Boolean).join(' ').trim() || email || null\<close>\<close>

definition user_name :: "string option \<Rightarrow> string option \<Rightarrow> string option \<Rightarrow> string option" where
  "user_name firstName lastName email =
     js_or (Some (js_trim (case (truthy firstName, truthy lastName) of
                     (True, True) \<Rightarrow> the firstName @ '' '' @ the lastName
                   | (True, False) \<Rightarrow> the firstName
                   | (False, True) \<Rightarrow> the lastName
                   | (False, False) \<Rightarrow> [])))
       (js_or email None)"

text \<open>
  The rules of the four layers for a context, as \<^verbatim>\<open>explainServiceAccessForUser\<close> reads them
  (\<open>named\<close>) and as \<^verbatim>\<open>listServicesForUser\<close> does, without the joined names.
\<close>

definition user_rules :: "bool \<Rightarrow> user_id \<Rightarrow> service \<Rightarrow> user_rule list" where
  "user_rules named userId s =
     map (\<lambda>r. \<lparr>ru_id = ru_id r, ru_visible = ru_visible r, ru_enabled = ru_enabled r, ur_userId = ua_userId r,
               ur_userName = (if named then user_name (ua_firstName r) (ua_lastName r) (ua_email r) else None)\<rparr>)
       (filter (\<lambda>r. ua_userId r = userId) (sv_userAccess s))"

definition role_rules :: "bool \<Rightarrow> access_context \<Rightarrow> service \<Rightarrow> role_rule list" where
  "role_rules named ctx s =
     map (\<lambda>r. \<lparr>ru_id = ru_id r, ru_visible = ru_visible r, ru_enabled = ru_enabled r, rr_roleId = rx_roleId r,
               rr_roleName = (if named then Some (rx_roleName r) else None),
               rr_roleDisplayName = (if named then rx_roleDisplayName r else None),
               rr_distance = (case cx_roleDistanceById ctx (rx_roleId r) of None \<Rightarrow> MAX_SAFE_INTEGER | Some d \<Rightarrow> d)\<rparr>)
       (filter (\<lambda>r. rx_roleId r \<in> set (cx_roleIds ctx)) (sv_roleAccess s))"

definition department_rules :: "bool \<Rightarrow> access_context \<Rightarrow> service \<Rightarrow> department_rule list" where
  "department_rules named ctx s =
     map (\<lambda>r. \<lparr>ru_id = ru_id r, ru_visible = ru_visible r, ru_enabled = ru_enabled r, dp_departmentId = dx_departmentId r,
               dp_departmentName = (if named then Some (dx_departmentName r) else None)\<rparr>)
       (filter (\<lambda>r. dx_departmentId r \<in> set (cx_departmentIds ctx)) (sv_departmentAccess s))"

definition department_role_rules :: "bool \<Rightarrow> access_context \<Rightarrow> service \<Rightarrow> department_role_rule list" where
  "department_role_rules named ctx s =
     mapMatchedDepartmentRoleRules ctx
       (map (\<lambda>r. if named then r else r\<lparr>dy_departmentName := None, dy_roleName := None, dy_roleDisplayName := None\<rparr>)
         (filter (\<lambda>r. dy_departmentId r \<in> set (cx_departmentIds ctx) \<and> dy_roleId r \<in> set (cx_roleIds ctx))
           (sv_departmentRoleAccess s)))"

record service_head =
  sh_id :: int
  sh_key :: string
  sh_name :: string
  sh_isActive :: bool
  sh_defaultVisible :: bool
  sh_defaultEnabled :: bool

record access_summary =
  sm_visible :: bool
  sm_enabled :: bool
  sm_isEmployee :: bool
  sm_isAdmin :: bool
  sm_reasonCodes :: "reason list"

record explanation =
  ex_service :: service_head
  ex_context :: access_context
  ex_access :: access_summary
  ex_baseVisible :: bool
  ex_baseEnabled :: bool
  ex_evaluation :: access_decision

definition head_of :: "service \<Rightarrow> service_head" where
  "head_of s = \<lparr>sh_id = sv_id s, sh_key = sv_key s, sh_name = sv_name s, sh_isActive = sv_isActive s,
     sh_defaultVisible = sv_defaultVisible s, sh_defaultEnabled = sv_defaultEnabled s\<rparr>"

definition open_layer :: "'r layer_decision" where
  "open_layer = \<lparr>ly_value = True, ly_origin = BY_DEFAULT, ly_matchedRules = []\<rparr>"

definition admin_decision :: access_decision where
  "admin_decision =
     \<lparr>ac_visible = True, ac_enabled = True,
      ac_finalVisible = \<lparr>fd_value = True, fd_source = SRC_DEFAULT\<rparr>, ac_finalEnabled = \<lparr>fd_value = True, fd_source = SRC_DEFAULT\<rparr>,
      ac_userVisible = open_layer, ac_userEnabled = open_layer,
      ac_departmentRoleVisible = open_layer, ac_departmentRoleEnabled = open_layer,
      ac_roleVisible = open_layer, ac_roleEnabled = open_layer,
      ac_departmentVisible = open_layer, ac_departmentEnabled = open_layer\<rparr>"

definition explainServiceAccessForUser ::
  "user_id \<Rightarrow> service_lookup \<Rightarrow> access_db \<Rightarrow> access_error + explanation option" where
  "explainServiceAccessForUser userId lookup db =
     (case resolveUserAccessContext userId db of
        Inl e \<Rightarrow> Inl e
      | Inr ctx \<Rightarrow>
          (case find_service lookup db of
             None \<Rightarrow> Inr None
           | Some s \<Rightarrow>
               let baseVisible = (sv_isActive s \<and> sv_defaultVisible s);
                   baseEnabled = (sv_isActive s \<and> sv_defaultEnabled s) in
               if cx_isAdmin ctx
               then Inr (Some \<lparr>ex_service = head_of s, ex_context = ctx\<lparr>cx_isEmployee := True, cx_isAdmin := True\<rparr>,
                      ex_access = \<lparr>sm_visible = True, sm_enabled = True, sm_isEmployee = True, sm_isAdmin = True, sm_reasonCodes = []\<rparr>,
                      ex_baseVisible = baseVisible, ex_baseEnabled = baseEnabled, ex_evaluation = admin_decision\<rparr>)
               else
                 let decision = applyRuleFlags baseVisible baseEnabled (user_rules True userId s)
                       (department_role_rules True ctx s) (role_rules True ctx s) (department_rules True ctx s);
                     visible = (if cx_isEmployee ctx then ac_visible decision else False);
                     enabled = (if cx_isEmployee ctx then ac_enabled decision else False)
                 in Inr (Some \<lparr>ex_service = head_of s, ex_context = ctx\<lparr>cx_isAdmin := False\<rparr>,
                      ex_access = \<lparr>sm_visible = visible, sm_enabled = enabled, sm_isEmployee = cx_isEmployee ctx,
                        sm_isAdmin = False,
                        sm_reasonCodes = buildReasonCodes (cx_isEmployee ctx) False (sv_isActive s) visible enabled\<rparr>,
                      ex_baseVisible = baseVisible, ex_baseEnabled = baseEnabled, ex_evaluation = decision\<rparr>)))"

record service_access =
  sa_service :: service
  sa_visible :: bool
  sa_enabled :: bool
  sa_isEmployee :: bool

definition resolveServiceAccessForUser :: "user_id \<Rightarrow> string \<Rightarrow> access_db \<Rightarrow> access_error + service_access option" where
  "resolveServiceAccessForUser userId serviceKey db =
     (case explainServiceAccessForUser userId (ByKey serviceKey) db of
        Inl e \<Rightarrow> Inl e
      | Inr None \<Rightarrow> Inr None
      | Inr (Some x) \<Rightarrow>
          (case find_service (ByKey serviceKey) db of
             None \<Rightarrow> Inr None
           | Some s \<Rightarrow>
               if sm_isAdmin (ex_access x)
               then Inr (Some \<lparr>sa_service = s, sa_visible = True, sa_enabled = True, sa_isEmployee = True\<rparr>)
               else if \<not> sm_isEmployee (ex_access x)
               then Inr (Some \<lparr>sa_service = s, sa_visible = False, sa_enabled = False, sa_isEmployee = False\<rparr>)
               else Inr (Some \<lparr>sa_service = s, sa_visible = sm_visible (ex_access x), sa_enabled = sm_enabled (ex_access x),
                              sa_isEmployee = True\<rparr>)))"

definition toServiceAccessView :: "service \<Rightarrow> service_view" where
  "toServiceAccessView s = \<lparr>sv_id = sv_id s, sv_key = sv_key s, sv_name = sv_name s, sv_kind = sv_kind s,
     sv_route = sv_route s, sv_icon = sv_icon s, sv_description = sv_description s,
     sv_gradientStart = sv_gradientStart s, sv_gradientEnd = sv_gradientEnd s\<rparr>"

definition listServicesForUser ::
  "user_id \<Rightarrow> access_db \<Rightarrow> access_error + (service_view \<times> bool \<times> bool) list \<times> bool" where
  "listServicesForUser userId db =
     (case resolveUserAccessContext userId db of
        Inl e \<Rightarrow> Inl e
      | Inr ctx \<Rightarrow>
          let services = sort_key sv_id (filter sv_isActive (xd_services db)) in
          if cx_isAdmin ctx then Inr (map (\<lambda>s. (toServiceAccessView s, True, True)) services, True)
          else if \<not> cx_isEmployee ctx then Inr ([], False)
          else Inr (map (\<lambda>s.
                 let baseVisible = (sv_isActive s \<and> sv_defaultVisible s);
                     baseEnabled = (sv_isActive s \<and> sv_defaultEnabled s);
                     decision = applyRuleFlags baseVisible baseEnabled (user_rules False userId s)
                       (department_role_rules False ctx s) (role_rules False ctx s) (department_rules False ctx s)
                 in (toServiceAccessView s, ac_visible decision, ac_enabled decision)) services, True))"

definition listServicesForAdmin :: "access_db \<Rightarrow> service list" where
  "listServicesForAdmin db = sort_key sv_id (xd_services db)"

text \<open>The page of users with their access to one service.\<close>

record matrix_query =
  mx_serviceId :: int
  mx_page :: "int option"
  mx_limit :: "int option"
  mx_search :: "string option"
  mx_roleId :: "int option"
  mx_departmentId :: "int option"

definition number_or :: "int option \<Rightarrow> int \<Rightarrow> int" where
  "number_or n d = (case n of None \<Rightarrow> d | Some k \<Rightarrow> if k = 0 then d else k)"

definition matrix_where :: "(string \<Rightarrow> string \<Rightarrow> bool) \<Rightarrow> matrix_query \<Rightarrow> access_user \<Rightarrow> bool" where
  "matrix_where contains q u \<longleftrightarrow>
     (truthy_int (mx_roleId q) \<longrightarrow>
        au_roleId u = the (mx_roleId q) \<or> the (mx_roleId q) \<in> fst ` set (au_departmentRoles u)) \<and>
     (truthy_int (mx_departmentId q) \<longrightarrow>
        (case au_employee u of None \<Rightarrow> False | Some (p, a) \<Rightarrow> p = mx_departmentId q \<or> a = mx_departmentId q) \<or>
        the (mx_departmentId q) \<in> snd ` set (au_departmentRoles u)) \<and>
     (let search = js_trim (or_empty (mx_search q)) in
      search \<noteq> [] \<longrightarrow> list_ex (\<lambda>c. case c of None \<Rightarrow> False | Some t \<Rightarrow> contains search t)
        [au_email u, au_firstName u, au_lastName u])"

fun explain_all :: "service_lookup \<Rightarrow> access_db \<Rightarrow> access_user list \<Rightarrow> access_error + (access_user \<times> explanation) list" where
  "explain_all l db [] = Inr []"
| "explain_all l db (u # us) =
     (case explainServiceAccessForUser (au_id u) l db of
        Inl e \<Rightarrow> Inl e
      | Inr None \<Rightarrow> Inl SERVICE_NOT_FOUND_ERROR
      | Inr (Some x) \<Rightarrow> (case explain_all l db us of Inl e \<Rightarrow> Inl e | Inr xs \<Rightarrow> Inr ((u, x) # xs)))"

record matrix_page =
  mp_items :: "(access_user \<times> explanation) list"
  mp_total :: nat
  mp_page :: int
  mp_limit :: int

definition listServiceAccessMatrix ::
  "(string \<Rightarrow> string \<Rightarrow> bool) \<Rightarrow> matrix_query \<Rightarrow> access_db \<Rightarrow> access_error + matrix_page" where
  "listServiceAccessMatrix contains q db =
     (let page = max 1 (number_or (mx_page q) 1);
          limit = max 1 (min 100 (number_or (mx_limit q) 25));
          skip = (page - 1) * limit in
      case find_service (ById (mx_serviceId q)) db of
        None \<Rightarrow> Inl SERVICE_NOT_FOUND_ERROR
      | Some s \<Rightarrow>
          let hits = sort_key au_id (filter (matrix_where contains q) (xd_users db));
              users = take (nat limit) (drop (nat skip) hits) in
          (case explain_all (ById (mx_serviceId q)) db users of
             Inl e \<Rightarrow> Inl e
           | Inr items \<Rightarrow> Inr \<lparr>mp_items = items, mp_total = length hits, mp_page = page, mp_limit = limit\<rparr>))"

definition authorizeServiceAccess :: "string \<Rightarrow> jwt_payload option \<Rightarrow> access_db \<Rightarrow> guard" where
  "authorizeServiceAccess serviceKey user db =
     (case user of
        None \<Rightarrow> UNAUTHORIZED
      | Some u \<Rightarrow>
          if \<not> truthy_int (jp_userId u) then UNAUTHORIZED
          else case resolveServiceAccessForUser (the (jp_userId u)) serviceKey db of
            Inl e \<Rightarrow> SERVER_ERROR
          | Inr None \<Rightarrow> NOT_FOUND
          | Inr (Some a) \<Rightarrow>
              if \<not> sa_isEmployee a then FORBIDDEN
              else if \<not> sa_visible a \<or> \<not> sa_enabled a then FORBIDDEN
              else NEXT)"

section \<open>The layers as a decision list\<close>

text \<open>
  The reference: a layer is the list of its flags with their distances; a layer with an explicit flag
  decides, and it allows when no nearest explicit flag denies.
\<close>

type_synonym layer = "(bool option \<times> nat) list"

definition speaks :: "layer \<Rightarrow> bool" where
  "speaks l \<longleftrightarrow> (\<exists>p \<in> set l. fst p \<noteq> None)"

definition allows :: "layer \<Rightarrow> bool" where
  "allows l \<longleftrightarrow> (\<forall>p \<in> set l. fst p = Some False \<longrightarrow> (\<exists>q \<in> set l. fst q \<noteq> None \<and> snd q < snd p))"

fun decide :: "bool \<Rightarrow> layer list \<Rightarrow> bool" where
  "decide base [] = base"
| "decide base (l # ls) = (if speaks l then allows l else decide base ls)"

text \<open>What an evaluation computes, on flags and distances alone.\<close>

definition flat :: "bool \<Rightarrow> layer \<Rightarrow> bool \<times> origin" where
  "flat base l =
     (let e = filter (\<lambda>p. fst p \<noteq> None) l in
      if e = [] then (base, BY_DEFAULT)
      else (\<not> list_ex (\<lambda>p. fst p = Some False) (filter (\<lambda>p. snd p = fold (\<lambda>p v. min v (snd p)) e MAX_SAFE_INTEGER) e), EXPLICIT))"

abbreviation plain :: "rule_field \<Rightarrow> ('a rule_scheme) list \<Rightarrow> layer" where
  "plain f rules \<equiv> map (\<lambda>r. (field_of f r, 0)) rules"

lemma verdict_parts: "ly_value (verdict f rs) = (\<not> list_ex (\<lambda>r. field_of f r = Some False) rs)" "ly_origin (verdict f rs) = EXPLICIT"
  by (simp_all add: verdict_def)

lemma fold_min_le:
  fixes d :: "'r \<Rightarrow> nat"
  shows "fold (\<lambda>r v. min v (d r)) rs m \<le> m" and "r \<in> set rs \<Longrightarrow> fold (\<lambda>r v. min v (d r)) rs m \<le> d r"
proof -
  have le: "fold (\<lambda>r v. min v (d r)) xs k \<le> k" for xs k
  proof (induction xs arbitrary: k)
    case (Cons a xs)
    then show ?case using Cons.IH [of "min k (d a)"] by simp
  qed simp
  show "fold (\<lambda>r v. min v (d r)) rs m \<le> m" by (rule le)
  show "r \<in> set rs \<Longrightarrow> fold (\<lambda>r v. min v (d r)) rs m \<le> d r"
  proof (induction rs arbitrary: m)
    case (Cons a rs)
    then show ?case using le [of rs "min m (d a)"] by auto
  qed simp
qed

lemma fold_min_mem:
  fixes d :: "'r \<Rightarrow> nat"
  shows "fold (\<lambda>r v. min v (d r)) rs m = m \<or> (\<exists>r \<in> set rs. fold (\<lambda>r v. min v (d r)) rs m = d r)"
proof (induction rs arbitrary: m)
  case (Cons a rs)
  then show ?case using Cons.IH [of "min m (d a)"] by (auto simp: min_def split: if_splits)
qed simp

lemma fold_map_snd: "fold (\<lambda>p v. min v (snd p)) (map (\<lambda>r. (g r, d r)) rs) m = fold (\<lambda>r v. min v (d r)) rs m"
  by (simp add: fold_map comp_def)

lemma flat_eval:
  "flat base (map (\<lambda>r. (field_of f r, d r)) rs) =
    (if explicit_rules f rs = [] then (base, BY_DEFAULT)
     else (ly_value (verdict f (filter (\<lambda>r. d r = fold (\<lambda>r v. min v (d r)) (explicit_rules f rs) MAX_SAFE_INTEGER) (explicit_rules f rs))), EXPLICIT))"
proof -
  let ?m = "map (\<lambda>r. (field_of f r, d r))"
  have "filter (\<lambda>p. fst p \<noteq> None) (?m rs) = ?m (explicit_rules f rs)"
    by (simp add: filter_map comp_def explicit_rules_def)
  then show ?thesis
    by (simp add: flat_def Let_def fold_map_snd verdict_parts filter_map comp_def list_ex_iff)
qed

lemma explicit_nearest_0: "fold (\<lambda>r v. 0) rs m = (if rs = [] then m else (0::nat))"
proof (cases rs)
  case (Cons a as)
  have "fold (\<lambda>r v. 0) as (0::nat) = 0" by (induction as) simp_all
  then show ?thesis using Cons by simp
qed simp

lemma layer_flat:
  "(ly_value (evaluateUserField base us f), ly_origin (evaluateUserField base us f)) = flat base (plain f us)"
  "(ly_value (evaluateDepartmentField base ds f), ly_origin (evaluateDepartmentField base ds f)) = flat base (plain f ds)"
  "(ly_value (evaluateRoleField base rs f), ly_origin (evaluateRoleField base rs f)) =
     flat base (map (\<lambda>r. (field_of f r, rr_distance r)) rs)"
  "(ly_value (evaluateDepartmentRoleField base qs f), ly_origin (evaluateDepartmentRoleField base qs f)) =
     flat base (map (\<lambda>r. (field_of f r, dq_distance r)) qs)"
  unfolding flat_eval
  by (simp_all add: evaluateUserField_def evaluateDepartmentField_def evaluateRoleField_def
      evaluateDepartmentRoleField_def Let_def verdict_parts explicit_nearest_0)

lemma flat_decides:
  assumes "\<forall>p \<in> set l. snd p \<le> MAX_SAFE_INTEGER"
  shows "snd (flat base l) = EXPLICIT \<longleftrightarrow> speaks l" and "speaks l \<Longrightarrow> fst (flat base l) = allows l"
proof -
  let ?e = "filter (\<lambda>p. fst p \<noteq> None) l"
  let ?m = "fold (\<lambda>p v. min v (snd p)) ?e MAX_SAFE_INTEGER"
  have sp: "speaks l \<longleftrightarrow> ?e \<noteq> []" by (auto simp: speaks_def filter_empty_conv)
  show "snd (flat base l) = EXPLICIT \<longleftrightarrow> speaks l" unfolding sp by (simp add: flat_def Let_def)
  assume "speaks l"
  then have ne: "?e \<noteq> []" using sp by simp
  have low: "?m \<le> snd p" if "p \<in> set ?e" for p using that by (rule fold_min_le(2))
  have "\<exists>q \<in> set ?e. ?m = snd q"
  proof (cases "?m = MAX_SAFE_INTEGER")
    case True
    have q: "hd ?e \<in> set ?e" using ne by (rule hd_in_set)
    then have "snd (hd ?e) \<le> ?m" using assms True by auto
    then show ?thesis using low [OF q] q by (metis le_antisym)
  next
    case False
    then show ?thesis using fold_min_mem [of snd ?e MAX_SAFE_INTEGER] by blast
  qed
  then obtain q where q: "q \<in> set l" "fst q \<noteq> None" "?m = snd q" by auto
  have near: "(\<exists>x \<in> set l. fst x \<noteq> None \<and> snd x < snd p) \<longleftrightarrow> snd p \<noteq> ?m" if "p \<in> set l" "fst p \<noteq> None" for p
  proof
    show "snd p \<noteq> ?m" if "\<exists>x \<in> set l. fst x \<noteq> None \<and> snd x < snd p" using that low by fastforce
    show "\<exists>x \<in> set l. fst x \<noteq> None \<and> snd x < snd p" if "snd p \<noteq> ?m"
      using that low [of p] q \<open>p \<in> set l\<close> \<open>fst p \<noteq> None\<close> by (intro bexI [of _ q]) auto
  qed
  have "fst (flat base l) \<longleftrightarrow> \<not> (\<exists>p \<in> set l. fst p = Some False \<and> snd p = ?m)"
    using ne by (auto simp: flat_def Let_def list_ex_iff)
  also have "\<dots> \<longleftrightarrow> allows l" unfolding allows_def using near by (metis option.distinct(1))
  finally show "fst (flat base l) = allows l" .
qed

definition visible_layers :: "user_rule list \<Rightarrow> department_role_rule list \<Rightarrow> department_rule list \<Rightarrow> role_rule list \<Rightarrow> rule_field \<Rightarrow> layer list" where
  "visible_layers us qs ds rs f =
     [plain f us, map (\<lambda>r. (field_of f r, dq_distance r)) qs, plain f ds, map (\<lambda>r. (field_of f r, rr_distance r)) rs]"

lemma final_flat:
  "fd_value (resolveFinalField base u q d r) =
     (if ly_origin u = EXPLICIT then ly_value u else if ly_origin q = EXPLICIT then ly_value q
      else if ly_origin d = EXPLICIT then ly_value d else if ly_origin r = EXPLICIT then ly_value r else base)"
  by (simp add: resolveFinalField_def)

lemma final_decides:
  assumes "\<forall>r \<in> set rs. rr_distance r \<le> MAX_SAFE_INTEGER" and "\<forall>q \<in> set qs. dq_distance q \<le> MAX_SAFE_INTEGER"
  shows "fd_value (resolveFinalField base (evaluateUserField base us f) (evaluateDepartmentRoleField base qs f)
      (evaluateDepartmentField base ds f) (evaluateRoleField base rs f)) = decide base (visible_layers us qs ds rs f)"
proof -
  have u: "ly_origin (evaluateUserField base us f) = EXPLICIT \<longleftrightarrow> speaks (plain f us)"
    "speaks (plain f us) \<Longrightarrow> ly_value (evaluateUserField base us f) = allows (plain f us)"
    using flat_decides [of "plain f us" base] layer_flat(1) [of base us f, symmetric] by simp_all
  have d: "ly_origin (evaluateDepartmentField base ds f) = EXPLICIT \<longleftrightarrow> speaks (plain f ds)"
    "speaks (plain f ds) \<Longrightarrow> ly_value (evaluateDepartmentField base ds f) = allows (plain f ds)"
    using flat_decides [of "plain f ds" base] layer_flat(2) [of base ds f, symmetric] by simp_all
  let ?R = "map (\<lambda>r. (field_of f r, rr_distance r)) rs"
  have r: "ly_origin (evaluateRoleField base rs f) = EXPLICIT \<longleftrightarrow> speaks ?R"
    "speaks ?R \<Longrightarrow> ly_value (evaluateRoleField base rs f) = allows ?R"
    using flat_decides [of ?R base] layer_flat(3) [of base rs f, symmetric] assms(1) by simp_all
  let ?Q = "map (\<lambda>r. (field_of f r, dq_distance r)) qs"
  have q: "ly_origin (evaluateDepartmentRoleField base qs f) = EXPLICIT \<longleftrightarrow> speaks ?Q"
    "speaks ?Q \<Longrightarrow> ly_value (evaluateDepartmentRoleField base qs f) = allows ?Q"
    using flat_decides [of ?Q base] layer_flat(4) [of base qs f, symmetric] assms(2) by simp_all
  show ?thesis unfolding final_flat visible_layers_def using u d r q by simp
qed

text \<open>The flags an evaluation reads do not depend on the joined names.\<close>

lemma role_rules_flags: "map (\<lambda>r. (field_of f r, rr_distance r)) (role_rules True ctx s) = map (\<lambda>r. (field_of f r, rr_distance r)) (role_rules False ctx s)"
  by (cases f) (simp_all add: role_rules_def field_of_def comp_def)

lemma user_rules_flags: "plain f (user_rules True u s) = plain f (user_rules False u s)"
  by (cases f) (simp_all add: user_rules_def field_of_def comp_def)

lemma department_rules_flags: "plain f (department_rules True ctx s) = plain f (department_rules False ctx s)"
  by (cases f) (simp_all add: department_rules_def field_of_def comp_def)

lemma department_role_rules_flags:
  "map (\<lambda>r. (field_of f r, dq_distance r)) (department_role_rules True ctx s) =
   map (\<lambda>r. (field_of f r, dq_distance r)) (department_role_rules False ctx s)"
proof -
  have "map (\<lambda>r. (field_of f r, dq_distance r)) (mapMatchedDepartmentRoleRules ctx xs) =
      map (\<lambda>r. (field_of f r, dq_distance r)) (mapMatchedDepartmentRoleRules ctx
        (map (\<lambda>r. r\<lparr>dy_departmentName := None, dy_roleName := None, dy_roleDisplayName := None\<rparr>) xs))" for xs
    by (induction xs) (cases f; simp add: mapMatchedDepartmentRoleRules_def Let_def field_of_def)+
  then show ?thesis by (simp add: department_role_rules_def)
qed

lemma final_names:
  "fd_value (resolveFinalField base (evaluateUserField base (user_rules True u s) f) (evaluateDepartmentRoleField base (department_role_rules True ctx s) f)
      (evaluateDepartmentField base (department_rules True ctx s) f) (evaluateRoleField base (role_rules True ctx s) f)) =
   fd_value (resolveFinalField base (evaluateUserField base (user_rules False u s) f) (evaluateDepartmentRoleField base (department_role_rules False ctx s) f)
      (evaluateDepartmentField base (department_rules False ctx s) f) (evaluateRoleField base (role_rules False ctx s) f))"
proof -
  let ?u = "\<lambda>n. evaluateUserField base (user_rules n u s) f" and ?q = "\<lambda>n. evaluateDepartmentRoleField base (department_role_rules n ctx s) f"
    and ?d = "\<lambda>n. evaluateDepartmentField base (department_rules n ctx s) f" and ?r = "\<lambda>n. evaluateRoleField base (role_rules n ctx s) f"
  have "(ly_value (?u True), ly_origin (?u True)) = (ly_value (?u False), ly_origin (?u False))"
    by (simp only: layer_flat user_rules_flags)
  moreover have "(ly_value (?q True), ly_origin (?q True)) = (ly_value (?q False), ly_origin (?q False))"
    by (simp only: layer_flat department_role_rules_flags)
  moreover have "(ly_value (?d True), ly_origin (?d True)) = (ly_value (?d False), ly_origin (?d False))"
    by (simp only: layer_flat department_rules_flags)
  moreover have "(ly_value (?r True), ly_origin (?r True)) = (ly_value (?r False), ly_origin (?r False))"
    by (simp only: layer_flat role_rules_flags)
  ultimately show ?thesis by (simp add: final_flat)
qed

lemma apply_values:
  "ac_visible (applyRuleFlags bv be us qs rs ds) =
     fd_value (resolveFinalField bv (evaluateUserField bv us VISIBLE) (evaluateDepartmentRoleField bv qs VISIBLE)
       (evaluateDepartmentField bv ds VISIBLE) (evaluateRoleField bv rs VISIBLE))"
  "ac_enabled (applyRuleFlags bv be us qs rs ds) =
     (ac_visible (applyRuleFlags bv be us qs rs ds) \<and>
      fd_value (resolveFinalField be (evaluateUserField be us ENABLED) (evaluateDepartmentRoleField be qs ENABLED)
       (evaluateDepartmentField be ds ENABLED) (evaluateRoleField be rs ENABLED)))"
  by (simp_all add: applyRuleFlags_def Let_def)

lemma apply_names:
  "ac_visible (applyRuleFlags bv be (user_rules True u s) (department_role_rules True ctx s) (role_rules True ctx s) (department_rules True ctx s)) =
   ac_visible (applyRuleFlags bv be (user_rules False u s) (department_role_rules False ctx s) (role_rules False ctx s) (department_rules False ctx s))"
  "ac_enabled (applyRuleFlags bv be (user_rules True u s) (department_role_rules True ctx s) (role_rules True ctx s) (department_rules True ctx s)) =
   ac_enabled (applyRuleFlags bv be (user_rules False u s) (department_role_rules False ctx s) (role_rules False ctx s) (department_rules False ctx s))"
  unfolding apply_values final_names by simp_all

section \<open>Properties\<close>

text \<open>
  C7: The rules form a decision list.  A service is visible exactly as the first layer with an
  explicit flag says, in the order user, department role, department, role, default; within a
  layer the rules nearest in the role hierarchy count and a denial among them wins; and a service
  is enabled only if it is visible and the same holds of the enabled flags.
\<close>

theorem access_precedence:
  assumes "\<forall>r \<in> set rs. rr_distance r \<le> MAX_SAFE_INTEGER" and "\<forall>q \<in> set qs. dq_distance q \<le> MAX_SAFE_INTEGER"
  shows "ac_visible (applyRuleFlags bv be us qs rs ds) = decide bv (visible_layers us qs ds rs VISIBLE) \<and>
    ac_enabled (applyRuleFlags bv be us qs rs ds) =
      (decide bv (visible_layers us qs ds rs VISIBLE) \<and> decide be (visible_layers us qs ds rs ENABLED))"
  unfolding apply_values final_decides [OF assms] by simp

definition demo_role_rule :: "nat \<Rightarrow> bool \<Rightarrow> role_rule" where
  "demo_role_rule d v = \<lparr>ru_id = 1, ru_visible = Some v, ru_enabled = None, rr_roleId = 3, rr_roleName = None,
     rr_roleDisplayName = None, rr_distance = d\<rparr>"

theorem access_precedence_witness:
  "ac_visible (applyRuleFlags True True [] [] [demo_role_rule 1 False, demo_role_rule 0 True] []) \<and>
   \<not> ac_visible (applyRuleFlags True True [] [] [demo_role_rule 0 False, demo_role_rule 0 True] [])"
proof -
  have "\<forall>r \<in> set [demo_role_rule a x, demo_role_rule 0 True]. rr_distance r \<le> MAX_SAFE_INTEGER" if "a \<le> 1" for a x
    using that by (simp add: demo_role_rule_def MAX_SAFE_INTEGER_def)
  from access_precedence [OF this [of 1 False], where qs = "[]" and us = "[]" and ds = "[]" and bv = True and be = True]
    access_precedence [OF this [of 0 False], where qs = "[]" and us = "[]" and ds = "[]" and bv = True and be = True]
  show ?thesis
    by (simp add: visible_layers_def demo_role_rule_def speaks_def allows_def field_of_def ex_bool_eq)
qed

text \<open>
  The list of services a user gets agrees with the guard: each entry of the list is an active
  service, with the visibility and availability that the single-service query reports for its key.
\<close>

theorem list_agrees_with_resolve:
  assumes keys: "distinct (map sv_key (xd_services db))" and s: "s \<in> set (xd_services db)" "sv_isActive s"
    and list: "listServicesForUser u db = Inr (views, True)"
  shows "\<exists>a. resolveServiceAccessForUser u (sv_key s) db = Inr (Some a) \<and> sa_service a = s \<and>
    (toServiceAccessView s, sa_visible a, sa_enabled a) \<in> set views"
proof -
  have find: "find_service (ByKey (sv_key s)) db = Some s"
    using find_by_key [OF keys s(1) refl] by (simp add: find_service_def)
  obtain ctx where ctx: "resolveUserAccessContext u db = Inr ctx"
    using list by (cases "resolveUserAccessContext u db") (simp_all add: listServicesForUser_def)
  let ?bv = "sv_isActive s \<and> sv_defaultVisible s" and ?be = "sv_isActive s \<and> sv_defaultEnabled s"
  let ?d = "\<lambda>n. applyRuleFlags ?bv ?be (user_rules n u s) (department_role_rules n ctx s) (role_rules n ctx s) (department_rules n ctx s)"
  show ?thesis
  proof (cases "cx_isAdmin ctx")
    case True
    then show ?thesis
      using list s by (auto simp: listServicesForUser_def resolveServiceAccessForUser_def explainServiceAccessForUser_def ctx find Let_def)
  next
    case False
    then have emp: "cx_isEmployee ctx" using list by (auto simp: listServicesForUser_def ctx Let_def split: if_splits)
    have views: "views = map (\<lambda>s. (toServiceAccessView s,
        ac_visible (applyRuleFlags (sv_isActive s \<and> sv_defaultVisible s) (sv_isActive s \<and> sv_defaultEnabled s) (user_rules False u s)
          (department_role_rules False ctx s) (role_rules False ctx s) (department_rules False ctx s)),
        ac_enabled (applyRuleFlags (sv_isActive s \<and> sv_defaultVisible s) (sv_isActive s \<and> sv_defaultEnabled s) (user_rules False u s)
          (department_role_rules False ctx s) (role_rules False ctx s) (department_rules False ctx s))))
        (sort_key sv_id (filter sv_isActive (xd_services db)))"
      using list emp False by (simp add: listServicesForUser_def ctx Let_def)
    have "s \<in> set (sort_key sv_id (filter sv_isActive (xd_services db)))" using s by simp
    then have "(toServiceAccessView s, ac_visible (?d False), ac_enabled (?d False)) \<in> set views"
      unfolding views set_map by (rule image_eqI [OF refl])
    moreover have "resolveServiceAccessForUser u (sv_key s) db =
        Inr (Some \<lparr>sa_service = s, sa_visible = ac_visible (?d True), sa_enabled = ac_enabled (?d True), sa_isEmployee = True\<rparr>)"
      using emp False by (simp add: resolveServiceAccessForUser_def explainServiceAccessForUser_def ctx find Let_def)
    ultimately show ?thesis unfolding apply_names by simp
  qed
qed

definition demo_service :: service where
  "demo_service = \<lparr>sv_id = 1, sv_key = ''orders'', sv_name = ''Orders'', sv_kind = CLOUD_SERVICE, sv_route = None,
     sv_icon = None, sv_description = None, sv_gradientStart = None, sv_gradientEnd = None, sv_isActive = True,
     sv_defaultVisible = True, sv_defaultEnabled = False, sv_userAccess = [], sv_roleAccess = [],
     sv_departmentAccess = [], sv_departmentRoleAccess = []\<rparr>"

definition demo_access_user :: access_user where
  "demo_access_user = \<lparr>au_id = 7, au_email = None, au_firstName = None, au_lastName = None, au_roleId = 0,
     au_currentProfileType = Some EMPLOYEE, au_employee = None, au_departmentRoles = []\<rparr>"

definition demo_access :: access_db where
  "demo_access = \<lparr>xd_roles = [], xd_users = [demo_access_user], xd_services = [demo_service]\<rparr>"

definition demo_context :: access_context where
  "demo_context = \<lparr>cx_userId = 7, cx_roleName = None, cx_currentProfileType = Some EMPLOYEE, cx_activeDepartmentId = None,
     cx_roleIds = [], cx_roleAssignments = [], cx_roleDistanceById = Map.empty, cx_departmentIds = [],
     cx_departmentAssignments = [], cx_availableDepartmentIds = [], cx_isEmployee = True, cx_isAdmin = False\<rparr>"

lemma demo_resolve:
  "resolveUserAccessContext 7 (demo_access\<lparr>xd_services := ss\<rparr>) = Inr demo_context" "resolveUserAccessContext 7 demo_access = Inr demo_context"
  by (simp_all add: resolveUserAccessContext_def demo_access_def demo_access_user_def demo_context_def Let_def
      effective_departments_def addDepartmentAssignment_def role_assignments_def truthy_int_def truthy_def nullish_def truthy_id_def)

theorem list_agrees_with_resolve_witness:
  "\<exists>a views. listServicesForUser 7 demo_access = Inr (views, True) \<and>
     resolveServiceAccessForUser 7 ''orders'' demo_access = Inr (Some a) \<and>
     (toServiceAccessView demo_service, sa_visible a, sa_enabled a) \<in> set views"
proof -
  obtain views where v: "listServicesForUser 7 demo_access = Inr (views, True)"
    by (simp add: listServicesForUser_def demo_resolve demo_context_def Let_def)
  have "distinct (map sv_key (xd_services demo_access))" "demo_service \<in> set (xd_services demo_access)"
    "sv_isActive demo_service" "sv_key demo_service = ''orders''"
    by (simp_all add: demo_access_def demo_service_def)
  with list_agrees_with_resolve [OF this(1-3) v] v show ?thesis by auto
qed

text \<open>
  An inactive service is not closed: a user rule that shows and enables it lets an employee pass
  the guard, although the list of services never contains it and the explanation carries the reason
  that it is inactive.
\<close>

theorem inactive_service_reachable:
  assumes keys: "find_service (ByKey k) db = Some s" "\<not> sv_isActive s"
    and ctx: "resolveUserAccessContext u db = Inr ctx" "\<not> cx_isAdmin ctx" "cx_isEmployee ctx" and "u \<noteq> 0"
    and rule: "sv_userAccess s = [r]" "ua_userId r = u" "ru_visible r = Some True" "ru_enabled r = Some True"
  shows "authorizeServiceAccess k (Some \<lparr>jp_userId = Some u, jp_role = role\<rparr>) db = NEXT \<and>
    (\<exists>x. explainServiceAccessForUser u (ByKey k) db = Inr (Some x) \<and> sm_reasonCodes (ex_access x) = [SERVICE_INACTIVE]) \<and>
    (\<exists>views. listServicesForUser u db = Inr (views, True) \<and>
       {sv_id v |v a b. (v, a, b) \<in> set views} \<subseteq> {sv_id x |x. x \<in> set (xd_services db) \<and> sv_isActive x})"
proof -
  let ?d = "applyRuleFlags False False (user_rules True u s) (department_role_rules True ctx s) (role_rules True ctx s) (department_rules True ctx s)"
  have rules: "user_rules True u s = [\<lparr>ru_id = ru_id r, ru_visible = Some True, ru_enabled = Some True, ur_userId = u,
      ur_userName = user_name (ua_firstName r) (ua_lastName r) (ua_email r)\<rparr>]"
    using rule by (simp add: user_rules_def)
  have d: "ac_visible ?d" "ac_enabled ?d"
    unfolding apply_values rules
    by (simp_all add: final_flat evaluateUserField_def explicit_rules_def field_of_def verdict_def ex_bool_eq)
  have ex: "explainServiceAccessForUser u (ByKey k) db = Inr (Some \<lparr>ex_service = head_of s, ex_context = ctx\<lparr>cx_isAdmin := False\<rparr>,
      ex_access = \<lparr>sm_visible = True, sm_enabled = True, sm_isEmployee = True, sm_isAdmin = False, sm_reasonCodes = [SERVICE_INACTIVE]\<rparr>,
      ex_baseVisible = False, ex_baseEnabled = False, ex_evaluation = ?d\<rparr>)"
    using keys ctx d by (simp add: explainServiceAccessForUser_def Let_def buildReasonCodes_def)
  then have "authorizeServiceAccess k (Some \<lparr>jp_userId = Some u, jp_role = role\<rparr>) db = NEXT"
    using keys(1) \<open>u \<noteq> 0\<close> by (simp add: authorizeServiceAccess_def resolveServiceAccessForUser_def truthy_int_def)
  moreover have "\<exists>views. listServicesForUser u db = Inr (views, True) \<and>
       {sv_id v |v a b. (v, a, b) \<in> set views} \<subseteq> {sv_id x |x. x \<in> set (xd_services db) \<and> sv_isActive x}"
    using ctx by (auto simp: listServicesForUser_def Let_def toServiceAccessView_def)
  ultimately show ?thesis using ex by simp
qed

definition demo_grant :: user_access where
  "demo_grant = \<lparr>ru_id = 1, ru_visible = Some True, ru_enabled = Some True, ua_userId = 7, ua_firstName = None,
     ua_lastName = None, ua_email = None\<rparr>"

theorem inactive_service_reachable_witness:
  "authorizeServiceAccess ''orders'' (Some \<lparr>jp_userId = Some 7, jp_role = Some ''user''\<rparr>)
     (demo_access\<lparr>xd_services := [demo_service\<lparr>sv_isActive := False, sv_userAccess := [demo_grant]\<rparr>]\<rparr>) = NEXT"
proof (rule conjunct1 [OF inactive_service_reachable])
  show "resolveUserAccessContext 7 (demo_access\<lparr>xd_services := [demo_service\<lparr>sv_isActive := False, sv_userAccess := [demo_grant]\<rparr>]\<rparr>) =
      Inr demo_context" by (rule demo_resolve)
  show "find_service (ByKey ''orders'') (demo_access\<lparr>xd_services := [demo_service\<lparr>sv_isActive := False, sv_userAccess := [demo_grant]\<rparr>]\<rparr>) =
      Some (demo_service\<lparr>sv_isActive := False, sv_userAccess := [demo_grant]\<rparr>)"
    by (simp add: find_service_def demo_service_def)
  show "sv_userAccess (demo_service\<lparr>sv_isActive := False, sv_userAccess := [demo_grant]\<rparr>) = [demo_grant]" by simp
qed (simp_all add: demo_context_def demo_grant_def)

lemma explain_all_ok:
  "explain_all l db us = Inr xs \<Longrightarrow> map fst xs = us \<and> (\<forall>(u, x) \<in> set xs. explainServiceAccessForUser (au_id u) l db = Inr (Some x))"
  by (induction us arbitrary: xs) (auto split: sum.splits option.splits)

text \<open>
  The access matrix is paged within bounds: whatever page and limit are asked for, the page is at
  least one and the limit between one and a hundred; the items are the slice of the matching users
  in identifier order that the page selects, at most the limit many, each with exactly the
  explanation of that user's access.
\<close>

theorem matrix_page_bounds:
  assumes "listServiceAccessMatrix contains q db = Inr mp"
  shows "1 \<le> mp_page mp \<and> 1 \<le> mp_limit mp \<and> mp_limit mp \<le> 100 \<and> length (mp_items mp) \<le> nat (mp_limit mp) \<and>
    map fst (mp_items mp) = take (nat (mp_limit mp)) (drop (nat ((mp_page mp - 1) * mp_limit mp))
      (sort_key au_id (filter (matrix_where contains q) (xd_users db)))) \<and>
    mp_total mp = length (filter (matrix_where contains q) (xd_users db)) \<and>
    list_all (\<lambda>(u, x). explainServiceAccessForUser (au_id u) (ById (mx_serviceId q)) db = Inr (Some x)) (mp_items mp)"
proof -
  let ?p = "max 1 (number_or (mx_page q) 1)" and ?l = "max 1 (min 100 (number_or (mx_limit q) 25))"
  let ?us = "take (nat ?l) (drop (nat ((?p - 1) * ?l)) (sort_key au_id (filter (matrix_where contains q) (xd_users db))))"
  obtain xs where xs: "explain_all (ById (mx_serviceId q)) db ?us = Inr xs"
    and mp: "mp = \<lparr>mp_items = xs, mp_total = length (sort_key au_id (filter (matrix_where contains q) (xd_users db))),
      mp_page = ?p, mp_limit = ?l\<rparr>"
    using assms by (auto simp: listServiceAccessMatrix_def Let_def split: option.splits sum.splits)
  have fst: "map fst xs = ?us" and ex: "\<forall>(u, x) \<in> set xs. explainServiceAccessForUser (au_id u) (ById (mx_serviceId q)) db = Inr (Some x)"
    using explain_all_ok [OF xs] by simp_all
  have "length (map fst xs) \<le> nat ?l" unfolding fst length_take by (rule min.cobounded2)
  then have len: "length xs \<le> nat ?l" by (simp only: length_map)
  have b: "1 \<le> ?p" "1 \<le> ?l" "?l \<le> 100" by simp_all
  show ?thesis
    unfolding mp matrix_page.simps using fst ex len b unfolding list_all_iff by (intro conjI) (assumption | simp)+
qed

theorem matrix_page_bounds_witness:
  "\<exists>mp. listServiceAccessMatrix (\<lambda>a b. False) \<lparr>mx_serviceId = 1, mx_page = Some (-4), mx_limit = Some 1000, mx_search = None,
       mx_roleId = None, mx_departmentId = None\<rparr> demo_access = Inr mp \<and> mp_page mp \<ge> 1 \<and> mp_limit mp \<le> 100 \<and>
     map fst (mp_items mp) = [demo_access_user]"
proof -
  let ?q = "\<lparr>mx_serviceId = 1, mx_page = Some (-4), mx_limit = Some 1000, mx_search = None, mx_roleId = None, mx_departmentId = None\<rparr>"
  have w: "matrix_where (\<lambda>a b. False) ?q demo_access_user"
    by (simp add: matrix_where_def truthy_int_def or_empty_def js_trim_def)
  have u: "xd_users demo_access = [demo_access_user]" "au_id demo_access_user = 7" "find_service (ById 1) demo_access = Some demo_service"
    by (simp_all add: demo_access_def demo_access_user_def find_service_def demo_service_def)
  have "\<exists>x. explainServiceAccessForUser 7 (ById 1) demo_access = Inr (Some x)"
    by (simp add: explainServiceAccessForUser_def demo_resolve u demo_context_def Let_def)
  then obtain mp where mp: "listServiceAccessMatrix (\<lambda>a b. False) ?q demo_access = Inr mp"
    by (auto simp: listServiceAccessMatrix_def u w Let_def number_or_def)
  from matrix_page_bounds [OF mp] show ?thesis
    using mp by (auto simp: u w Let_def listServiceAccessMatrix_def number_or_def split: sum.splits)
qed

end
