(* ===== verification/Invoice_Data.thy ===== *)
theory Invoice_Data
  imports Accounts Regex Complex_Main
begin

text \<open>
  The data of the invoice pipeline: the tables \<^verbatim>\<open>ClientOrderInvoice\<close> and
  \<^verbatim>\<open>ClientOrderInvoiceDelivery\<close> (\<^verbatim>\<open>src/prisma/schema.onec.prisma\<close>),
  the queue items that 1C announces, and the settings, dates and numbers that
  \<^verbatim>\<open>src/src/services/clientOrderInvoiceWorker.ts\<close> reads.

  Numbers are exact rationals; the rounding of a double is not modelled.  The notes that the code
  stores in \<^verbatim>\<open>lastError\<close> and \<^verbatim>\<open>waitReason\<close> are Russian texts and
  have one constructor each.
\<close>

section \<open>States\<close>

datatype invoice_state =
    I_WAITING | I_QUEUED | I_SENDING | I_AVAILABLE | I_PARTIAL | I_SENT | I_ERROR | I_SUPERSEDED | I_CANCELLED

datatype delivery_state = D_PENDING | D_SENDING | D_SENT | D_ERROR | D_SKIPPED

datatype onec_state =
    O_WAITING | O_READY | O_QUEUED | O_SENDING | O_STORED | O_PARTIAL | O_SENT | O_ERROR | O_CANCELLED

definition ACTIVE_STATES :: "invoice_state list" where
  "ACTIVE_STATES = [I_WAITING, I_QUEUED, I_SENDING, I_AVAILABLE, I_PARTIAL, I_ERROR]"

definition RETRYABLE_STATES :: "invoice_state list" where
  "RETRYABLE_STATES = [I_QUEUED, I_SENDING, I_PARTIAL, I_ERROR]"

definition PROCESSABLE_STATES :: "invoice_state list" where
  "PROCESSABLE_STATES = RETRYABLE_STATES @ [I_AVAILABLE]"

section \<open>Settings\<close>

text \<open>
  \<open>env name\<close> is \<^verbatim>\<open>Number(process.env[name])\<close> where that is finite.
\<close>

type_synonym settings = "string \<Rightarrow> rat option"

definition js_trunc :: "rat \<Rightarrow> int" where
  "js_trunc r = (if r < 0 then \<lceil>r\<rceil> else \<lfloor>r\<rfloor>)"

definition envInt :: "settings \<Rightarrow> string \<Rightarrow> int \<Rightarrow> int \<Rightarrow> int" where
  "envInt env name fallback minimum =
     (case env name of
        None \<Rightarrow> fallback
      | Some raw \<Rightarrow> if of_int minimum \<le> raw then js_trunc raw else fallback)"

definition batchSize :: "settings \<Rightarrow> int" where
  "batchSize env = envInt env ''CLIENT_ORDER_INVOICE_WORKER_BATCH_SIZE'' 10 1"

definition workerConcurrency :: "settings \<Rightarrow> int" where
  "workerConcurrency env = min 8 (envInt env ''CLIENT_ORDER_INVOICE_WORKER_CONCURRENCY'' 2 1)"

definition leaseMs :: "settings \<Rightarrow> int" where
  "leaseMs env = envInt env ''CLIENT_ORDER_INVOICE_WORKER_LEASE_MS'' 120000 10000"

definition stabilityMs :: "settings \<Rightarrow> int" where
  "stabilityMs env = envInt env ''CLIENT_ORDER_INVOICE_STABILITY_MS'' 0 0"

definition backoffMs :: "settings \<Rightarrow> int \<Rightarrow> int" where
  "backoffMs env attempts =
     (let base = envInt env ''CLIENT_ORDER_INVOICE_BACKOFF_BASE_MS'' 15000 1000;
          mx = envInt env ''CLIENT_ORDER_INVOICE_BACKOFF_MAX_MS'' 900000 base
      in min mx (base * 2 ^ nat (max 0 (attempts - 1))))"

section \<open>Numbers and dates\<close>

text \<open>
  \<^verbatim>\<open>Number(text)\<close> where it is finite; a value that rounds to infinity counts as
  not finite.
\<close>

definition finite_double :: "rat \<Rightarrow> rat option" where
  "finite_double v = (if 2 ^ 1024 - 2 ^ 970 \<le> \<bar>v\<bar> then None else Some v)"

definition decimal_exponent :: "string \<Rightarrow> int option" where
  "decimal_exponent s =
     (case s of
        [] \<Rightarrow> None
      | c # r \<Rightarrow>
          if c = CHR ''-'' then map_option uminus (parse_decimal r)
          else if c = CHR ''+'' then parse_decimal r
          else parse_decimal s)"

definition decimal_number :: "string \<Rightarrow> rat option" where
  "decimal_number s =
     (let ip = takeWhile js_digit s; r1 = dropWhile js_digit s;
          fp = (if r1 \<noteq> [] \<and> hd r1 = CHR ''.'' then takeWhile js_digit (tl r1) else []);
          r2 = (if r1 \<noteq> [] \<and> hd r1 = CHR ''.'' then dropWhile js_digit (tl r1) else r1);
          mantissa = of_nat (nat_of_digits (ip @ fp)) / 10 ^ length fp
      in if ip = [] \<and> fp = [] then None
         else if r2 = [] then Some mantissa
         else if hd r2 = CHR ''e'' \<or> hd r2 = CHR ''E''
         then map_option (\<lambda>e. if 0 \<le> e then mantissa * 10 ^ nat e else mantissa / 10 ^ nat (- e)) (decimal_exponent (tl r2))
         else None)"

definition js_number :: "string \<Rightarrow> rat option" where
  "js_number s =
     (let t = js_trim s in
      if t = [] then Some 0
      else if starts_with ''0x'' t \<or> starts_with ''0X'' t then map_option of_int (parse_radix 16 (drop 2 t))
      else if starts_with ''0o'' t \<or> starts_with ''0O'' t then map_option of_int (parse_radix 8 (drop 2 t))
      else if starts_with ''0b'' t \<or> starts_with ''0B'' t then map_option of_int (parse_radix 2 (drop 2 t))
      else Option.bind
        (if hd t = CHR ''-'' then map_option uminus (decimal_number (tl t))
         else if hd t = CHR ''+'' then decimal_number (tl t)
         else decimal_number t) finite_double)"

datatype amount = NO_AMOUNT | NUMBER rat | TEXT_AMOUNT string

definition invoiceAmount :: "amount \<Rightarrow> rat option" where
  "invoiceAmount v =
     (case v of
        NO_AMOUNT \<Rightarrow> None
      | NUMBER r \<Rightarrow> Some r
      | TEXT_AMOUNT s \<Rightarrow> if s = [] then None else js_number s)"

definition optionalText :: "string option \<Rightarrow> string option" where
  "optionalText v = non_empty (js_trim (or_empty v))"

text \<open>\<^verbatim>\<open>Date.UTC\<close> on fields in any range, after the definitions of the language standard.\<close>

definition leap :: "int \<Rightarrow> bool" where
  "leap y \<longleftrightarrow> 4 dvd y \<and> (\<not> 100 dvd y \<or> 400 dvd y)"

definition day_of_year :: "int \<Rightarrow> int" where
  "day_of_year y = 365 * (y - 1970) + (y - 1969) div 4 - (y - 1901) div 100 + (y - 1601) div 400"

definition day_of_month :: "int \<Rightarrow> int \<Rightarrow> int" where
  "day_of_month y m =
     [0, 31, 59, 90, 120, 151, 181, 212, 243, 273, 304, 334] ! nat m + (if leap y \<and> 2 \<le> m then 1 else 0)"

definition js_utc :: "int \<Rightarrow> int \<Rightarrow> int \<Rightarrow> int \<Rightarrow> int \<Rightarrow> int \<Rightarrow> int \<Rightarrow> millis" where
  "js_utc year month day h mi s ms =
     (let y = (if 0 \<le> year \<and> year \<le> 99 then 1900 + year else year);
          ym = y + month div 12; mn = month mod 12
      in (day_of_year ym + day_of_month ym mn + day - 1) * 86400000 + h * 3600000 + mi * 60000 + s * 1000 + ms)"

abbreviation digits_re :: "nat \<Rightarrow> re" where
  "digits_re n \<equiv> Rep n (Cls js_digit)"

text \<open>\<^verbatim>\<open>/(?:Z|[+-]\d{2}:?\d{2})$/i\<close>\<close>

definition OFFSET_RE :: re where
  "OFFSET_RE =
     Sq (Star (Cls (\<lambda>_. True)))
        (Alt (Cls (\<lambda>c. c = CHR ''Z'' \<or> c = CHR ''z''))
             (Sq (Cls (\<lambda>c. c = CHR ''+'' \<or> c = CHR ''-'')) (Sq (digits_re 2) (Sq (Alt Eps (Lit '':'')) (digits_re 2)))))"

text \<open>\<^verbatim>\<open>/^(\d{4})-(\d{2})-(\d{2})[T ](\d{2}):(\d{2}):(\d{2})(?:\.(\d{1,3}))?$/\<close>\<close>

definition LOCAL_TIME_RE :: re where
  "LOCAL_TIME_RE =
     Sq (digits_re 4) (Sq (Lit ''-'') (Sq (digits_re 2) (Sq (Lit ''-'') (Sq (digits_re 2)
       (Sq (Cls (\<lambda>c. c = CHR ''T'' \<or> c = CHR '' '')) (Sq (digits_re 2) (Sq (Lit '':'') (Sq (digits_re 2)
       (Sq (Lit '':'') (Sq (digits_re 2)
       (Alt Eps (Sq (Lit ''.'') (Alt (digits_re 1) (Alt (digits_re 2) (digits_re 3)))))))))))))))"

text \<open>
  \<^verbatim>\<open>parseDate\<close>: a time without an offset is local time of the 1C server.  Other
  texts go to the date parser of the host, \<open>host_date\<close>.
\<close>

definition parseDate :: "settings \<Rightarrow> (string \<Rightarrow> millis option) \<Rightarrow> string option \<Rightarrow> millis option" where
  "parseDate env host_date value =
     (if \<not> truthy value then None
      else
        let normalized = js_trim (the value);
            num = (\<lambda>a b. int (nat_of_digits (slice a b normalized)))
        in if \<not> re_test OFFSET_RE normalized \<and> re_test LOCAL_TIME_RE normalized
           then let offsetMinutes = envInt env ''ONEC_LP_APP_TIMEZONE_OFFSET_MINUTES'' 180 (-840);
                    fraction = drop 20 normalized;
                    milliseconds = int (nat_of_digits (fraction @ replicate (3 - length fraction) (CHR ''0'')))
                in Some (js_utc (num 0 4) (num 5 7 - 1) (num 8 10) (num 11 13) (num 14 16) (num 17 19) milliseconds
                         - offsetMinutes * 60000)
           else host_date normalized)"

section \<open>Rows\<close>

datatype skip_reason = TELEGRAM_OFF | TELEGRAM_NOT_LINKED | MAX_OFF | MAX_NOT_LINKED

text \<open>What a call to 1C, the object store or a bot can throw, and what the worker throws itself.\<close>

datatype fault =
    INVOICE_SUPERSEDED | INVALID_PDF | PDF_NOT_PERSISTED | NO_MANAGER | BOT_NOT_CONFIGURED messenger | EXTERNAL string

datatype remark =
    ONEC_REASON string
  | REPLACED_BY_NEWER_VERSION
  | STALE_BEFORE_SENDING
  | FAULT fault
  | NOT_DELIVERED "skip_reason list" bool
  | SKIPPED_BECAUSE skip_reason

record invoice_info =
  ii_realizationNumber :: "string option"
  ii_realizationDate :: "millis option"
  ii_paymentDueDate :: "millis option"
  ii_invoiceAmount :: "rat option"
  ii_currency :: "string option"
  ii_counterpartyName :: "string option"
  ii_organizationName :: "string option"
  ii_orderNumber :: "string option"

text \<open>
  The file name is the Russian phrase built from the cleaned document number, the date and, from the
  second on, the version.
\<close>

datatype file_name = InvoiceFile string "millis option" "int option"

record invoice =
  iv_id :: string
  iv_orderId :: string
  iv_realizationGuid :: string
  iv_token :: string
  iv_info :: invoice_info
  iv_businessHash :: "string option"
  iv_version :: int
  iv_state :: invoice_state
  iv_waitReason :: "remark option"
  iv_readyAt :: "millis option"
  iv_s3Key :: "string option"
  iv_fileName :: "file_name option"
  iv_contentType :: "string option"
  iv_fileSize :: "nat option"
  iv_attempts :: int
  iv_nextAttemptAt :: "millis option"
  iv_leaseUntil :: "millis option"
  iv_lastError :: "remark option"
  iv_sentAt :: "millis option"
  iv_supersededAt :: "millis option"
  iv_onecUpdatedAt :: "millis option"
  iv_updatedAt :: millis

record delivery =
  dl_id :: string
  dl_invoiceId :: string
  dl_channel :: messenger
  dl_state :: delivery_state
  dl_attempts :: int
  dl_nextAttemptAt :: "millis option"
  dl_lastError :: "remark option"
  dl_sentAt :: "millis option"

record queue_item =
  qi_appOrderGuid :: string
  qi_realizationGuid :: string
  qi_realizationNumber :: "string option"
  qi_realizationDate :: "string option"
  qi_paymentDueDate :: "string option"
  qi_invoiceAmount :: amount
  qi_currency :: "string option"
  qi_counterpartyName :: "string option"
  qi_organizationName :: "string option"
  qi_orderNumber :: "string option"
  qi_state :: onec_state
  qi_waitReason :: "string option"
  qi_businessHash :: "string option"
  qi_version :: int
  qi_token :: string
  qi_readyAt :: "string option"
  qi_updatedAt :: "string option"

text \<open>
  The identifying fields of the last 1C snapshot of an order, at its root and under
  \<^verbatim>\<open>item\<close>; a field that is missing or not a string is \<open>None\<close>.
\<close>

record snapshot_fields =
  sf_appGuid :: "string option"
  sf_documentGuid :: "string option"
  sf_guid :: "string option"
  sf_managerGuid :: "string option"
  sf_number1c :: "string option"

record snapshot =
  sn_root :: "snapshot_fields option"
  sn_item :: "snapshot_fields option"

text \<open>The columns of an order that the invoice code writes and does not read.\<close>

record order_columns =
  oc_date1c :: "millis option"
  oc_source :: string
  oc_revision :: int
  oc_syncState :: string
  oc_status :: string
  oc_counterpartyId :: string
  oc_organizationId :: "string option"
  oc_comment :: "string option"
  oc_deliveryDate :: "millis option"
  oc_paymentForm :: "string option"
  oc_deliveryMethod :: "string option"
  oc_totalAmount :: "rat option"
  oc_currency :: string
  oc_sentTo1cAt :: "millis option"
  oc_lastStatusSyncAt :: "millis option"
  oc_isPostedIn1c :: bool
  oc_hasRealization :: bool
  oc_realizationDetectedAt :: "millis option"
  oc_sourceUpdatedAt :: "millis option"
  oc_lastSyncedAt :: "millis option"

record order =
  od_id :: string
  od_guid :: "string option"
  od_number1c :: "string option"
  od_createdBy :: "user_id option"
  od_invoiceRequested :: bool
  od_snapshot :: snapshot
  od_columns :: order_columns

text \<open>The messenger accounts and notification settings of a manager.\<close>

record manager =
  mg_id :: user_id
  mg_telegramId :: "int option"
  mg_maxId :: "int option"
  mg_settings :: "(bool \<times> bool) option"

datatype ack_state = ACK_STORED | ACK_SENT | ACK_PARTIAL | ACK_ERROR

text \<open>The tables, and what the outside world has accepted so far.\<close>

record invoice_db =
  nv_orders :: "order list"
  nv_invoices :: "invoice list"
  nv_deliveries :: "delivery list"
  nv_managers :: "manager list"
  nv_documents :: "(string \<times> messenger) list"
  nv_notes :: "(string \<times> messenger) list"
  nv_acks :: "(string \<times> ack_state) list"

section \<open>Bounds of the settings\<close>

lemma js_trunc_ge: "of_int m \<le> r \<Longrightarrow> m \<le> js_trunc r"
  unfolding js_trunc_def by (simp add: le_floor_iff le_ceiling_iff)

lemma envInt_ge: "m \<le> fallback \<Longrightarrow> m \<le> envInt env name fallback m"
  by (auto simp: envInt_def js_trunc_ge split: option.splits)

lemma leaseMs_pos: "10000 \<le> leaseMs env"
  unfolding leaseMs_def by (rule envInt_ge) simp

lemma backoff_mono_aux: "(a :: int) \<le> b \<Longrightarrow> 0 \<le> (base :: int) \<Longrightarrow> min mx (base * 2 ^ nat a) \<le> min mx (base * 2 ^ nat b)"
proof -
  assume ab: "a \<le> b" and base: "0 \<le> base"
  have "(2 :: int) ^ nat a \<le> 2 ^ nat b" by (rule power_increasing) (use ab in \<open>auto intro: nat_mono\<close>)
  then have "base * 2 ^ nat a \<le> base * 2 ^ nat b" using base by (simp add: mult_left_mono)
  then show ?thesis by linarith
qed

end
