(* ===== verification/Task_Pool.thy ===== *)
theory Task_Pool
  imports Prelude "HOL-Library.Multiset"
begin

text \<open>
  The bounded pool \<^verbatim>\<open>forEachConcurrent\<close> of
  \<^verbatim>\<open>src/src/services/clientOrderInvoiceWorker.ts\<close> as a step relation.  The workers
  share a cursor into the list of items; between two \<^verbatim>\<open>await\<close>s a worker either takes
  the item under the cursor, or ends because the cursor is past the list, or sees its task settle.
  Any worker may move next, so the relation contains every interleaving of the event loop.
\<close>

datatype 'a slot = Free | Busy 'a | Stopped

record ('a, 'e) pool =
  po_items :: "'a list"
  po_cursor :: nat
  po_slots :: "'a slot list"
  po_done :: "'a list"
  po_errors :: "'e list"

definition pool_size :: "int \<Rightarrow> 'a list \<Rightarrow> nat" where
  "pool_size concurrency items = nat (min (max 1 concurrency) (int (length items)))"

definition pool_start :: "'a list \<Rightarrow> int \<Rightarrow> ('a, 'e) pool" where
  "pool_start items concurrency =
     \<lparr>po_items = items, po_cursor = 0, po_slots = replicate (pool_size concurrency items) Free, po_done = [], po_errors = []\<rparr>"

text \<open>A task that rejects is settled with an error, which is collected.\<close>

inductive pool_step :: "('a, 'e) pool \<Rightarrow> ('a, 'e) pool \<Rightarrow> bool" where
  take_item: "i < length (po_slots p) \<Longrightarrow> po_slots p ! i = Free \<Longrightarrow> po_cursor p < length (po_items p) \<Longrightarrow>
     pool_step p (p\<lparr>po_cursor := Suc (po_cursor p), po_slots := (po_slots p)[i := Busy (po_items p ! po_cursor p)]\<rparr>)"
| stop: "i < length (po_slots p) \<Longrightarrow> po_slots p ! i = Free \<Longrightarrow> \<not> po_cursor p < length (po_items p) \<Longrightarrow>
     pool_step p (p\<lparr>po_slots := (po_slots p)[i := Stopped]\<rparr>)"
| settle: "i < length (po_slots p) \<Longrightarrow> po_slots p ! i = Busy x \<Longrightarrow>
     pool_step p (p\<lparr>po_slots := (po_slots p)[i := Free], po_done := po_done p @ [x],
                    po_errors := po_errors p @ (case e of None \<Rightarrow> [] | Some err \<Rightarrow> [err])\<rparr>)"

lemma pool_stepE:
  assumes "pool_step p q"
  obtains (took) i where "i < length (po_slots p)" "po_slots p ! i = Free" "po_cursor p < length (po_items p)"
      "q = p\<lparr>po_cursor := Suc (po_cursor p), po_slots := (po_slots p)[i := Busy (po_items p ! po_cursor p)]\<rparr>"
  | (stopped) i where "i < length (po_slots p)" "po_slots p ! i = Free" "\<not> po_cursor p < length (po_items p)"
      "q = p\<lparr>po_slots := (po_slots p)[i := Stopped]\<rparr>"
  | (settled) i x e where "i < length (po_slots p)" "po_slots p ! i = Busy x"
      "q = p\<lparr>po_slots := (po_slots p)[i := Free], po_done := po_done p @ [x],
             po_errors := po_errors p @ (case e of None \<Rightarrow> [] | Some err \<Rightarrow> [err])\<rparr>"
  using assms by (rule pool_step.cases) blast+

text \<open>The whole call ends when every worker ended, and then throws the first error, if any.\<close>

definition pool_finished :: "('a, 'e) pool \<Rightarrow> bool" where
  "pool_finished p = list_all (\<lambda>s. s = Stopped) (po_slots p)"

definition pool_result :: "('a, 'e) pool \<Rightarrow> 'e + unit" where
  "pool_result p = (case po_errors p of [] \<Rightarrow> Inr () | e # _ \<Rightarrow> Inl e)"

section \<open>Counting\<close>

fun busy_items :: "'a slot list \<Rightarrow> 'a multiset" where
  "busy_items [] = {#}"
| "busy_items (Busy x # ss) = add_mset x (busy_items ss)"
| "busy_items (s # ss) = busy_items ss"

fun slot_weight :: "'a slot \<Rightarrow> nat" where
  "slot_weight Free = 1"
| "slot_weight (Busy x) = 2"
| "slot_weight Stopped = 0"

definition pool_weight :: "('a, 'e) pool \<Rightarrow> nat" where
  "pool_weight p = 2 * (length (po_items p) - po_cursor p) + sum_list (map slot_weight (po_slots p))"

definition pool_inv :: "'a list \<Rightarrow> int \<Rightarrow> ('a, 'e) pool \<Rightarrow> bool" where
  "pool_inv items concurrency p \<longleftrightarrow>
     po_items p = items \<and> po_cursor p \<le> length items \<and> length (po_slots p) = pool_size concurrency items \<and>
     mset (po_done p) + busy_items (po_slots p) = mset (take (po_cursor p) items) \<and>
     (Stopped \<in> set (po_slots p) \<longrightarrow> po_cursor p = length items) \<and>
     length (po_errors p) \<le> length (po_done p)"

lemma busy_items_append: "busy_items (ss @ ts) = busy_items ss + busy_items ts"
  by (induction ss rule: busy_items.induct) simp_all

lemma slot_split: "i < length ss \<Longrightarrow> ss = take i ss @ ss ! i # drop (Suc i) ss"
  by (rule id_take_nth_drop)

lemma busy_items_update:
  assumes "i < length ss"
  shows "busy_items (ss[i := s]) + busy_items [ss ! i] = busy_items ss + busy_items [s]"
proof -
  have "busy_items ss = busy_items (take i ss) + (busy_items [ss ! i] + busy_items (drop (Suc i) ss))"
    using busy_items_append [of "take i ss" "[ss ! i] @ drop (Suc i) ss"]
      busy_items_append [of "[ss ! i]" "drop (Suc i) ss"] slot_split [OF assms] by simp
  moreover have "busy_items (ss[i := s]) = busy_items (take i ss) + (busy_items [s] + busy_items (drop (Suc i) ss))"
    using busy_items_append [of "take i ss" "[s] @ drop (Suc i) ss"]
      busy_items_append [of "[s]" "drop (Suc i) ss"] upd_conv_take_nth_drop [OF assms, of s] by simp
  ultimately show ?thesis by (simp add: ac_simps)
qed

lemma weight_update:
  assumes "i < length ss"
  shows "sum_list (map slot_weight (ss[i := s])) + slot_weight (ss ! i) = sum_list (map slot_weight ss) + slot_weight s"
proof -
  have "sum_list (map slot_weight ss) =
      sum_list (map slot_weight (take i ss)) + (slot_weight (ss ! i) + sum_list (map slot_weight (drop (Suc i) ss)))"
    by (metis slot_split [OF assms] map_append sum_list.append list.map(2) sum_list.Cons)
  then show ?thesis by (simp add: upd_conv_take_nth_drop [OF assms])
qed

lemma pool_inv_start: "pool_inv items concurrency (pool_start items concurrency)"
proof -
  have "busy_items (replicate n Free) = {#}" for n by (induction n) simp_all
  then show ?thesis
    by (auto simp: pool_inv_def pool_start_def pool_size_def in_set_replicate)
qed

lemma pool_inv_step:
  assumes "pool_step p q" and inv: "pool_inv items n p"
  shows "pool_inv items n q"
  using assms(1)
proof (cases rule: pool_stepE)
  case (took i)
  have "busy_items (po_slots q) = add_mset (items ! po_cursor p) (busy_items (po_slots p))"
    using busy_items_update [of i "po_slots p" "Busy (items ! po_cursor p)"] took inv by (simp add: pool_inv_def)
  moreover have "Stopped \<notin> set (po_slots p)" using inv took by (auto simp: pool_inv_def)
  then have "Stopped \<notin> set (po_slots q)" using took by (auto dest: set_update_subset_insert [THEN subsetD])
  ultimately show ?thesis
    using inv took by (auto simp: pool_inv_def take_Suc_conv_app_nth)
next
  case (stopped i)
  have "busy_items (po_slots q) = busy_items (po_slots p)"
    using busy_items_update [of i "po_slots p" Stopped] stopped by simp
  then show ?thesis using inv stopped by (simp add: pool_inv_def)
next
  case (settled i x e)
  have "busy_items (po_slots p) = add_mset x (busy_items (po_slots q))"
    using busy_items_update [of i "po_slots p" Free] settled by simp
  then have "mset (po_done q) + busy_items (po_slots q) = mset (po_done p) + busy_items (po_slots p)"
    using settled by simp
  moreover have "Stopped \<in> set (po_slots q) \<Longrightarrow> Stopped \<in> set (po_slots p)"
    using settled by (auto dest: set_update_subset_insert [THEN subsetD])
  ultimately show ?thesis
    using inv settled(3) unfolding pool_inv_def by (cases e) simp_all
qed

lemma pool_weight_step:
  assumes "pool_step p q"
  shows "pool_weight p = Suc (pool_weight q)"
  using assms
proof (cases rule: pool_stepE)
  case (took i)
  then show ?thesis
    using weight_update [of i "po_slots p" "Busy (po_items p ! po_cursor p)"] by (simp add: pool_weight_def)
next
  case (stopped i)
  then show ?thesis
    using weight_update [of i "po_slots p" Stopped] by (simp add: pool_weight_def)
next
  case (settled i x e)
  then show ?thesis
    using weight_update [of i "po_slots p" Free] by (simp add: pool_weight_def)
qed

lemma pool_run:
  "(pool_step ^^ k) p q \<Longrightarrow> pool_inv items n p \<Longrightarrow> pool_inv items n q \<and> pool_weight p = k + pool_weight q"
proof (induction k arbitrary: q)
  case 0
  then show ?case by simp
next
  case (Suc k)
  then obtain r where r: "(pool_step ^^ k) p r" "pool_step r q" by auto
  then show ?case
    using Suc.IH [OF r(1) Suc.prems(2)] pool_inv_step [OF r(2)] pool_weight_step [OF r(2)] by simp
qed

text \<open>A pool in which some worker has not ended can move.\<close>

lemma pool_progress:
  assumes "\<not> pool_finished p"
  shows "\<exists>q. pool_step p q"
proof -
  from assms obtain i where i: "i < length (po_slots p)" "po_slots p ! i \<noteq> Stopped"
    by (auto simp: pool_finished_def list_all_length)
  then show ?thesis
    using pool_step.take_item [OF i(1)] pool_step.stop [OF i(1)] pool_step.settle [OF i(1)]
    by (cases "po_slots p ! i"; cases "po_cursor p < length (po_items p)") blast+
qed

lemma stopped_no_busy: "list_all (\<lambda>s. s = Stopped) ss \<Longrightarrow> busy_items ss = {#}"
  by (induction ss) auto

lemma pool_finished_all:
  assumes inv: "pool_inv items n p" and fin: "pool_finished p"
  shows "mset (po_done p) = mset items"
proof -
  have "po_cursor p = length items"
  proof (cases "po_slots p")
    case Nil
    then have "pool_size n items = 0" using inv by (simp add: pool_inv_def)
    then have "items = []" by (simp add: pool_size_def min_le_iff_disj)
    then show ?thesis using inv by (simp add: pool_inv_def)
  next
    case (Cons s ss)
    then have "Stopped \<in> set (po_slots p)" using fin by (simp add: pool_finished_def)
    then show ?thesis using inv by (simp add: pool_inv_def)
  qed
  moreover have "busy_items (po_slots p) = {#}"
    using fin unfolding pool_finished_def by (rule stopped_no_busy)
  ultimately show ?thesis using inv by (simp add: pool_inv_def)
qed

lemma size_busy: "size (busy_items ss) \<le> length ss"
  by (induction ss rule: busy_items.induct) simp_all

section \<open>Every item is handled exactly once\<close>

lemma pool_exactly_once_parts:
  assumes run: "(pool_step ^^ k) (pool_start items concurrency) p"
  shows "int (size (busy_items (po_slots p))) \<le> max 1 concurrency"
    and "mset (po_done p) + busy_items (po_slots p) \<subseteq># mset items"
    and "k \<le> 2 * length items + pool_size concurrency items"
    and "pool_finished p \<or> (\<exists>q. pool_step p q)"
    and "pool_finished p \<longrightarrow> mset (po_done p) = mset items"
proof -
  have inv: "pool_inv items concurrency p"
    and w: "pool_weight (pool_start items concurrency :: ('a, 'b) pool) = k + pool_weight p"
    using pool_run [OF run pool_inv_start] by simp_all
  show "int (size (busy_items (po_slots p))) \<le> max 1 concurrency"
    using size_busy [of "po_slots p"] inv by (simp add: pool_inv_def pool_size_def)
  have "mset (take (po_cursor p) items) \<subseteq># mset items"
    by (metis append_take_drop_id mset_append mset_subset_eq_add_left)
  then show "mset (po_done p) + busy_items (po_slots p) \<subseteq># mset items"
    using inv by (simp add: pool_inv_def)
  have "pool_weight (pool_start items concurrency :: ('a, 'b) pool) = 2 * length items + pool_size concurrency items"
    by (simp add: pool_weight_def pool_start_def sum_list_replicate)
  then show "k \<le> 2 * length items + pool_size concurrency items" using w by simp
  show "pool_finished p \<or> (\<exists>q. pool_step p q)" using pool_progress by blast
  show "pool_finished p \<longrightarrow> mset (po_done p) = mset items" using pool_finished_all [OF inv] by blast
qed

text \<open>
  C25: whatever the interleaving, at most \<open>max 1 concurrency\<close> tasks run at a time, no item is
  taken twice or out of the list, the number of steps is bounded by twice the number of items plus
  the number of workers, and a pool that can make no further step has run every item exactly
  once, so the call returns.
\<close>

theorem pool_exactly_once:
  assumes "(pool_step ^^ k) (pool_start items concurrency) p"
  shows "int (size (busy_items (po_slots p))) \<le> max 1 concurrency \<and>
    mset (po_done p) + busy_items (po_slots p) \<subseteq># mset items \<and>
    k \<le> 2 * length items + pool_size concurrency items \<and>
    (pool_finished p \<or> (\<exists>q. pool_step p q)) \<and>
    (pool_finished p \<longrightarrow> mset (po_done p) = mset items)"
  using pool_exactly_once_parts [OF assms] by simp


definition demo_pool :: "(nat, string) pool" where
  "demo_pool = \<lparr>po_items = [7], po_cursor = 1, po_slots = [Stopped], po_done = [7], po_errors = [''timeout'']\<rparr>"

lemma demo_pool_run: "(pool_step ^^ 3) (pool_start [7] 2) demo_pool"
proof -
  let ?a = "pool_start [7] 2 :: (nat, string) pool"
  let ?b = "?a\<lparr>po_cursor := 1, po_slots := [Busy 7]\<rparr>"
  let ?c = "?b\<lparr>po_slots := [Free], po_done := [7], po_errors := [''timeout'']\<rparr>"
  have "pool_step ?a ?b" using pool_step.take_item [of 0 ?a] by (simp add: pool_start_def pool_size_def)
  moreover have "pool_step ?b ?c"
    using pool_step.settle [of 0 ?b 7 "Some ''timeout''"] by (simp add: pool_start_def)
  moreover have "pool_step ?c demo_pool"
    using pool_step.stop [of 0 ?c] by (simp add: pool_start_def demo_pool_def)
  ultimately show ?thesis by (auto simp: numeral_3_eq_3)
qed

theorem pool_exactly_once_witness:
  "pool_finished demo_pool \<and> mset (po_done demo_pool) = mset [7] \<and> pool_result demo_pool = Inl ''timeout''"
  using pool_exactly_once [OF demo_pool_run] by (simp add: pool_finished_def demo_pool_def pool_result_def)

end
