(* ===== verification/Invoice_Worker.thy ===== *)
theory Invoice_Worker
  imports Invoice_Data Contracts Task_Pool "HOL-Library.AList"
begin

text \<open>
  The invoice pipeline of \<^verbatim>\<open>src/src/services/clientOrderInvoiceWorker.ts\<close>: the
  synchronisation of 1C queue items into the invoice table, the processing of one invoice from its
  lease to the acknowledgement, and the periodic tick.

  Calls to 1C, the object store and the bots can fail or answer anything; the answers that one
  processing run receives are a \<open>world\<close>.  The texts of the messages are not modelled.  The
  phases of \<^verbatim>\<open>processInvoice\<close> are definitions of their own, so that a theorem can
  place other steps between them.
\<close>

section \<open>Answers of 1C\<close>

definition mapOnecState :: "queue_item \<Rightarrow> invoice_state" where
  "mapOnecState item =
     (if qi_state item = O_CANCELLED \<or> qi_waitReason item = Some ''REALIZATION_DELETED'' then I_CANCELLED
      else case qi_state item of
        O_READY \<Rightarrow> I_QUEUED
      | O_STORED \<Rightarrow> I_AVAILABLE
      | O_WAITING \<Rightarrow> I_WAITING
      | O_QUEUED \<Rightarrow> I_QUEUED
      | O_SENDING \<Rightarrow> I_SENDING
      | O_PARTIAL \<Rightarrow> I_PARTIAL
      | O_SENT \<Rightarrow> I_SENT
      | O_ERROR \<Rightarrow> I_ERROR
      | O_CANCELLED \<Rightarrow> I_CANCELLED)"

text \<open>
  A response object with the properties \<^verbatim>\<open>unwrapValidation\<close> looks at.  A wrapper
  comes with its own \<^verbatim>\<open>item\<close>, if any, and with its reading as an item.
\<close>

record validation =
  va_item :: "queue_item option"
  va_body :: "(queue_item option \<times> queue_item) option"
  va_data :: "(queue_item option \<times> queue_item) option"
  va_self :: queue_item

definition unwrapValidation :: "validation option \<Rightarrow> queue_item option" where
  "unwrapValidation v =
     (case v of
        None \<Rightarrow> None
      | Some r \<Rightarrow>
          let inner = (\<lambda>w. case w of None \<Rightarrow> None | Some (it, self) \<Rightarrow> nullish it (Some self))
          in nullish (va_item r) (nullish (inner (va_body r)) (nullish (inner (va_data r)) (Some (va_self r)))))"

definition sameCandidate :: "string \<Rightarrow> string option \<Rightarrow> queue_item option \<Rightarrow> bool" where
  "sameCandidate token businessHash actual =
     (case actual of
        None \<Rightarrow> False
      | Some a \<Rightarrow> qi_token a = token \<and> qi_businessHash a = businessHash \<and>
          qi_state a \<in> set [O_READY, O_QUEUED, O_PARTIAL, O_SENDING, O_STORED])"

section \<open>Synchronisation\<close>

definition item_info :: "settings \<Rightarrow> (string \<Rightarrow> millis option) \<Rightarrow> queue_item \<Rightarrow> invoice_info" where
  "item_info env host_date item =
     \<lparr>ii_realizationNumber = qi_realizationNumber item,
      ii_realizationDate = parseDate env host_date (qi_realizationDate item),
      ii_paymentDueDate = parseDate env host_date (qi_paymentDueDate item),
      ii_invoiceAmount = invoiceAmount (qi_invoiceAmount item),
      ii_currency = optionalText (qi_currency item),
      ii_counterpartyName = optionalText (qi_counterpartyName item),
      ii_organizationName = optionalText (qi_organizationName item),
      ii_orderNumber = optionalText (qi_orderNumber item)\<rparr>"

definition effective_ready :: "settings \<Rightarrow> (string \<Rightarrow> millis option) \<Rightarrow> millis \<Rightarrow> bool \<Rightarrow> queue_item \<Rightarrow> millis option" where
  "effective_ready env host_date now immediate item =
     (let incomingReadyAt = parseDate env host_date (qi_readyAt item) in
      if mapOnecState item = I_QUEUED \<and> immediate
      then Some (min (case incomingReadyAt of None \<Rightarrow> now | Some t \<Rightarrow> t) now)
      else incomingReadyAt)"

definition new_invoice ::
  "settings \<Rightarrow> (string \<Rightarrow> millis option) \<Rightarrow> millis \<Rightarrow> string \<Rightarrow> bool \<Rightarrow> string \<Rightarrow> queue_item \<Rightarrow> invoice" where
  "new_invoice env host_date now newId immediate orderId item =
     (let onecState = mapOnecState item in
      \<lparr>iv_id = newId, iv_orderId = orderId, iv_realizationGuid = qi_realizationGuid item, iv_token = qi_token item,
       iv_info = item_info env host_date item, iv_businessHash = qi_businessHash item,
       iv_version = max 0 (qi_version item), iv_state = onecState,
       iv_waitReason = map_option ONEC_REASON (qi_waitReason item),
       iv_readyAt = nullish (effective_ready env host_date now immediate item)
         (if onecState = I_QUEUED then Some (now + stabilityMs env) else None),
       iv_s3Key = None, iv_fileName = None, iv_contentType = None, iv_fileSize = None, iv_attempts = 0,
       iv_nextAttemptAt = (if onecState = I_QUEUED then Some now else None),
       iv_leaseUntil = None, iv_lastError = None, iv_sentAt = None, iv_supersededAt = None,
       iv_onecUpdatedAt = parseDate env host_date (qi_updatedAt item), iv_updatedAt = now\<rparr>)"

definition lease_live :: "millis \<Rightarrow> invoice \<Rightarrow> bool" where
  "lease_live now r = (case iv_leaseUntil r of None \<Rightarrow> False | Some t \<Rightarrow> now < t)"

definition refresh_invoice ::
  "settings \<Rightarrow> (string \<Rightarrow> millis option) \<Rightarrow> millis \<Rightarrow> bool \<Rightarrow> queue_item \<Rightarrow> invoice \<Rightarrow> invoice" where
  "refresh_invoice env host_date now immediate item r =
     (let onecState = mapOnecState item;
          r1 = r\<lparr>iv_info := item_info env host_date item, iv_businessHash := qi_businessHash item,
                 iv_version := max 0 (qi_version item),
                 iv_waitReason := map_option ONEC_REASON (qi_waitReason item),
                 iv_readyAt :=
                   (case effective_ready env host_date now immediate item of
                      Some t \<Rightarrow> Some t
                    | None \<Rightarrow> if onecState = I_QUEUED \<and> iv_state r = I_WAITING then Some (now + stabilityMs env)
                             else iv_readyAt r),
                 iv_onecUpdatedAt := parseDate env host_date (qi_updatedAt item), iv_updatedAt := now\<rparr>
      in if onecState = I_CANCELLED
         then r1\<lparr>iv_state := I_CANCELLED, iv_supersededAt := nullish (iv_supersededAt r) (Some now),
                 iv_leaseUntil := None, iv_nextAttemptAt := None\<rparr>
         else if iv_state r = I_SENT then r1
         else if iv_state r = I_SENDING \<and> lease_live now r then r1
         else r1\<lparr>iv_state := onecState\<rparr>)"

definition supersede :: "millis \<Rightarrow> remark \<Rightarrow> invoice \<Rightarrow> invoice" where
  "supersede now why r =
     r\<lparr>iv_state := I_SUPERSEDED, iv_supersededAt := Some now, iv_leaseUntil := None,
       iv_lastError := Some why, iv_updatedAt := now\<rparr>"

definition syncQueueItem ::
  "settings \<Rightarrow> (string \<Rightarrow> millis option) \<Rightarrow> millis \<Rightarrow> string \<Rightarrow> bool \<Rightarrow> queue_item \<Rightarrow> invoice_db \<Rightarrow> invoice_db" where
  "syncQueueItem env host_date now newId immediate item db =
     (if qi_appOrderGuid item = [] \<or> qi_realizationGuid item = [] \<or> qi_token item = [] then db
      else case List.find (\<lambda>o'. od_guid o' = Some (qi_appOrderGuid item)) (nv_orders db) of
        None \<Rightarrow> db
      | Some order \<Rightarrow>
          (case List.find (\<lambda>r. iv_token r = qi_token item) (nv_invoices db) of
             None \<Rightarrow>
               db\<lparr>nv_invoices :=
                    update_where
                      (\<lambda>r. iv_orderId r = od_id order \<and> iv_realizationGuid r = qi_realizationGuid item \<and>
                            iv_token r \<noteq> qi_token item \<and> iv_state r \<in> set ACTIVE_STATES)
                      (supersede now REPLACED_BY_NEWER_VERSION) (nv_invoices db)
                    @ [new_invoice env host_date now newId immediate (od_id order) item]\<rparr>
           | Some current \<Rightarrow>
               db\<lparr>nv_invoices := update_where (\<lambda>r. iv_token r = qi_token item)
                    (refresh_invoice env host_date now immediate item) (nv_invoices db)\<rparr>))"

section \<open>Processing one invoice\<close>

type_synonym 'a call = "string + 'a"

record world =
  wo_validateStored :: "validation option call"
  wo_validateBefore :: "validation option call"
  wo_pdf :: "(string \<times> string option) call"
  wo_validateAfter :: "validation option call"
  wo_upload :: "unit call"
  wo_download :: "unit call"
  wo_validateChannel :: "messenger \<Rightarrow> validation option call"
  wo_document :: "messenger \<Rightarrow> bool call"
  wo_message :: "messenger \<Rightarrow> bool call"
  wo_ack :: "unit call"
  wo_ackError :: "unit call"
  wo_deliveryId :: "messenger \<Rightarrow> string"
  wo_storagePrefix :: string

definition write_invoice :: "string \<Rightarrow> (invoice \<Rightarrow> invoice) \<Rightarrow> invoice_db \<Rightarrow> invoice_db" where
  "write_invoice i f db = db\<lparr>nv_invoices := update_where (\<lambda>r. iv_id r = i) f (nv_invoices db)\<rparr>"

definition find_invoice :: "string \<Rightarrow> invoice_db \<Rightarrow> invoice option" where
  "find_invoice i db = List.find (\<lambda>r. iv_id r = i) (nv_invoices db)"

definition markSuperseded :: "millis \<Rightarrow> string \<Rightarrow> invoice_db \<Rightarrow> invoice_db" where
  "markSuperseded now invoiceId db = write_invoice invoiceId (supersede now STALE_BEFORE_SENDING) db"

definition validateCandidate ::
  "validation option call \<Rightarrow> millis \<Rightarrow> string \<Rightarrow> string \<Rightarrow> string option \<Rightarrow> invoice_db \<Rightarrow> (fault + bool) \<times> invoice_db" where
  "validateCandidate response now i token businessHash db =
     (case response of
        Inl e \<Rightarrow> (Inl (EXTERNAL e), db)
      | Inr v \<Rightarrow>
          if sameCandidate token businessHash (unwrapValidation v) then (Inr True, db)
          else (Inr False, markSuperseded now i db))"

text \<open>
  \<^verbatim>\<open>safeDocumentPart\<close>: runs of characters that are neither letters nor numbers nor
  one of \<^verbatim>\<open>._-\<close> become one underscore.
\<close>

definition document_char :: "char \<Rightarrow> bool" where
  "document_char c =
     (let n = (of_char c :: nat) in
      (48 \<le> n \<and> n \<le> 57) \<or> (65 \<le> n \<and> n \<le> 90) \<or> (97 \<le> n \<and> n \<le> 122) \<or>
      n = 170 \<or> n = 178 \<or> n = 179 \<or> n = 181 \<or> n = 185 \<or> n = 186 \<or> (188 \<le> n \<and> n \<le> 190) \<or>
      (192 \<le> n \<and> n \<noteq> 215 \<and> n \<noteq> 247) \<or> n = 46 \<or> n = 95 \<or> n = 45)"

fun collapse :: "bool \<Rightarrow> string \<Rightarrow> string" where
  "collapse run [] = []"
| "collapse run (c # s) =
     (if document_char c then c # collapse False s
      else if run then collapse True s else CHR ''_'' # collapse True s)"

definition safeDocumentPart :: "string option \<Rightarrow> string" where
  "safeDocumentPart value =
     (let t = take 80 (collapse False (the (js_or value (Some ''realization''))))
      in if t = [] then ''realization'' else t)"

definition buildInvoiceFileName :: "invoice \<Rightarrow> file_name" where
  "buildInvoiceFileName r =
     (let number = safeDocumentPart (js_or (ii_realizationNumber (iv_info r)) (Some (iv_realizationGuid r)));
          version = max 1 (iv_version r)
      in InvoiceFile number (ii_realizationDate (iv_info r)) (if 1 < version then Some version else None))"

definition ensurePdf :: "world \<Rightarrow> millis \<Rightarrow> invoice \<Rightarrow> invoice_db \<Rightarrow> (fault + unit) \<times> invoice_db" where
  "ensurePdf w now r db =
     (if truthy (iv_s3Key r) then (Inr (), db)
      else case validateCandidate (wo_validateBefore w) now (iv_id r) (iv_token r) (iv_businessHash r) db of
        (Inl e, db1) \<Rightarrow> (Inl e, db1)
      | (Inr False, db1) \<Rightarrow> (Inl INVOICE_SUPERSEDED, db1)
      | (Inr True, db1) \<Rightarrow>
          (case wo_pdf w of
             Inl e \<Rightarrow> (Inl (EXTERNAL e), db1)
           | Inr (body, contentType) \<Rightarrow>
               if length body < 5 \<or> take 5 body \<noteq> ''%PDF-'' then (Inl INVALID_PDF, db1)
               else case validateCandidate (wo_validateAfter w) now (iv_id r) (iv_token r) (iv_businessHash r) db1 of
                 (Inl e, db2) \<Rightarrow> (Inl e, db2)
               | (Inr False, db2) \<Rightarrow> (Inl INVOICE_SUPERSEDED, db2)
               | (Inr True, db2) \<Rightarrow>
                   (case wo_upload w of
                      Inl e \<Rightarrow> (Inl (EXTERNAL e), db2)
                    | Inr _ \<Rightarrow>
                        (Inr (),
                         write_invoice (iv_id r)
                           (\<lambda>x. x\<lparr>iv_s3Key := Some (wo_storagePrefix w @ ''/'' @ iv_id r @ ''/'' @
                                     safeDocumentPart (iv_businessHash r) @ ''.pdf''),
                                  iv_fileName := Some (buildInvoiceFileName r),
                                  iv_contentType := js_or contentType (Some ''application/pdf''),
                                  iv_fileSize := Some (length body), iv_updatedAt := now\<rparr>) db2))))"

subsection \<open>Delivery over one channel\<close>

record delivery_context =
  dc_channel :: messenger
  dc_enabled :: bool
  dc_recipient :: "int option"
  dc_disabledReason :: skip_reason

datatype delivery_result = R_SENT | R_SKIPPED | R_ERROR | R_SUPERSEDED

definition write_delivery :: "string \<Rightarrow> (delivery \<Rightarrow> delivery) \<Rightarrow> invoice_db \<Rightarrow> invoice_db" where
  "write_delivery i f db = db\<lparr>nv_deliveries := update_where (\<lambda>d. dl_id d = i) f (nv_deliveries db)\<rparr>"

definition upsert_delivery :: "string \<Rightarrow> string \<Rightarrow> messenger \<Rightarrow> invoice_db \<Rightarrow> delivery \<times> invoice_db" where
  "upsert_delivery newId invoiceId ch db =
     (case List.find (\<lambda>d. dl_invoiceId d = invoiceId \<and> dl_channel d = ch) (nv_deliveries db) of
        Some d \<Rightarrow> (d, db)
      | None \<Rightarrow>
          let d = \<lparr>dl_id = newId, dl_invoiceId = invoiceId, dl_channel = ch, dl_state = D_PENDING, dl_attempts = 0,
                   dl_nextAttemptAt = None, dl_lastError = None, dl_sentAt = None\<rparr>
          in (d, db\<lparr>nv_deliveries := nv_deliveries db @ [d]\<rparr>))"

text \<open>The document unless it was accepted before, then the message.\<close>

definition send_document :: "world \<Rightarrow> millis \<Rightarrow> delivery \<Rightarrow> invoice_db \<Rightarrow> (fault + unit) \<times> invoice_db" where
  "send_document w now existing db =
     (if dl_sentAt existing \<noteq> None then (Inr (), db)
      else case wo_document w (dl_channel existing) of
        Inl e \<Rightarrow> (Inl (EXTERNAL e), db)
      | Inr False \<Rightarrow> (Inl (BOT_NOT_CONFIGURED (dl_channel existing)), db)
      | Inr True \<Rightarrow>
          (Inr (),
           write_delivery (dl_id existing)
             (\<lambda>d. d\<lparr>dl_sentAt := Some now, dl_nextAttemptAt := None, dl_lastError := None\<rparr>)
             (db\<lparr>nv_documents := nv_documents db @ [(dl_invoiceId existing, dl_channel existing)]\<rparr>)))"

definition send_message :: "world \<Rightarrow> millis \<Rightarrow> delivery \<Rightarrow> invoice_db \<Rightarrow> (fault + unit) \<times> invoice_db" where
  "send_message w now existing db =
     (case wo_message w (dl_channel existing) of
        Inl e \<Rightarrow> (Inl (EXTERNAL e), db)
      | Inr False \<Rightarrow> (Inl (BOT_NOT_CONFIGURED (dl_channel existing)), db)
      | Inr True \<Rightarrow>
          (Inr (),
           write_delivery (dl_id existing)
             (\<lambda>d. d\<lparr>dl_state := D_SENT, dl_sentAt := Some now, dl_nextAttemptAt := None, dl_lastError := None\<rparr>)
             (db\<lparr>nv_notes := nv_notes db @ [(dl_invoiceId existing, dl_channel existing)]\<rparr>)))"

text \<open>The \<^verbatim>\<open>try\<close> block with its \<^verbatim>\<open>catch\<close>.\<close>

definition attempt ::
  "settings \<Rightarrow> world \<Rightarrow> millis \<Rightarrow> delivery \<Rightarrow> invoice_db \<Rightarrow> (fault + delivery_result) \<times> invoice_db" where
  "attempt env w now existing db1 =
     (let db2 = write_delivery (dl_id existing)
            (\<lambda>d. d\<lparr>dl_state := D_SENDING, dl_attempts := dl_attempts d + 1, dl_lastError := None\<rparr>) db1;
          fail = (\<lambda>e db'. (Inr R_ERROR,
            write_delivery (dl_id existing)
              (\<lambda>d. d\<lparr>dl_state := D_ERROR, dl_lastError := Some (FAULT e),
                     dl_nextAttemptAt := Some (now + backoffMs env (dl_attempts existing + 1))\<rparr>) db'))
      in (case send_document w now existing db2 of
            (Inl e, db3) \<Rightarrow> fail e db3
          | (Inr _, db3) \<Rightarrow>
              (case send_message w now existing db3 of
                 (Inl e, db4) \<Rightarrow> fail e db4
               | (Inr _, db4) \<Rightarrow> (Inr R_SENT, db4))))"

definition deliverChannel ::
  "settings \<Rightarrow> world \<Rightarrow> millis \<Rightarrow> string \<Rightarrow> delivery_context \<Rightarrow> invoice_db \<Rightarrow> (fault + delivery_result) \<times> invoice_db" where
  "deliverChannel env w now invoiceId c db =
     (let (existing, db0) = upsert_delivery (wo_deliveryId w (dc_channel c)) invoiceId (dc_channel c) db in
      if dl_state existing = D_SENT then (Inr R_SENT, db0)
      else if \<not> dc_enabled c \<or> dc_recipient c = None
      then (Inr R_SKIPPED,
            write_delivery (dl_id existing)
              (\<lambda>d. d\<lparr>dl_state := D_SKIPPED, dl_lastError := Some (SKIPPED_BECAUSE (dc_disabledReason c))\<rparr>) db0)
      else if (case dl_nextAttemptAt existing of None \<Rightarrow> False | Some t \<Rightarrow> now < t) then (Inr R_ERROR, db0)
      else case find_invoice invoiceId db0 of
        None \<Rightarrow> (Inr R_SUPERSEDED, db0)
      | Some cur \<Rightarrow>
          (case validateCandidate (wo_validateChannel w (dc_channel c)) now (iv_id cur) (iv_token cur) (iv_businessHash cur) db0 of
             (Inl e, db1) \<Rightarrow> (Inl e, db1)
           | (Inr False, db1) \<Rightarrow> (Inr R_SUPERSEDED, db1)
           | (Inr True, db1) \<Rightarrow>
               attempt env w now existing db1))"

text \<open>The loop over the channels stops after the one that found the invoice superseded.\<close>

fun deliver_all ::
  "settings \<Rightarrow> world \<Rightarrow> millis \<Rightarrow> string \<Rightarrow> delivery_context list \<Rightarrow> invoice_db \<Rightarrow>
   (fault + delivery_result list) \<times> invoice_db" where
  "deliver_all env w now i [] db = (Inr [], db)"
| "deliver_all env w now i (c # cs) db =
     (case deliverChannel env w now i c db of
        (Inl e, db1) \<Rightarrow> (Inl e, db1)
      | (Inr R_SUPERSEDED, db1) \<Rightarrow> (Inr [R_SUPERSEDED], db1)
      | (Inr r, db1) \<Rightarrow>
          (case deliver_all env w now i cs db1 of
             (Inl e, db2) \<Rightarrow> (Inl e, db2)
           | (Inr rs, db2) \<Rightarrow> (Inr (r # rs), db2)))"

definition delivery_channels :: "manager \<Rightarrow> delivery_context list" where
  "delivery_channels m =
     [\<lparr>dc_channel = TELEGRAM,
       dc_enabled = (case mg_settings m of None \<Rightarrow> True | Some (tg, mx) \<Rightarrow> tg),
       dc_recipient = mg_telegramId m,
       dc_disabledReason = (if truthy_int (mg_telegramId m) then TELEGRAM_OFF else TELEGRAM_NOT_LINKED)\<rparr>,
      \<lparr>dc_channel = MAX_BOT,
       dc_enabled = (case mg_settings m of None \<Rightarrow> True | Some (tg, mx) \<Rightarrow> mx),
       dc_recipient = mg_maxId m,
       dc_disabledReason = (if truthy_int (mg_maxId m) then MAX_OFF else MAX_NOT_LINKED)\<rparr>]"

subsection \<open>The verdict\<close>

definition eligible :: "delivery_context \<Rightarrow> bool" where
  "eligible c \<longleftrightarrow> dc_enabled c \<and> dc_recipient c \<noteq> None"

definition final_state :: "delivery_context list \<Rightarrow> delivery_result list \<Rightarrow> invoice_state" where
  "final_state channels results =
     (let eligibleCount = length (filter eligible channels);
          eligibleResults = map snd (filter (\<lambda>(c, r). eligible c) (zip channels results));
          sentCount = length (filter (\<lambda>r. r = R_SENT) eligibleResults);
          failedCount = length (filter (\<lambda>r. r = R_ERROR) eligibleResults)
      in if eligibleCount = 0 then (if R_SENT \<in> set results then I_SENT else I_ERROR)
         else if failedCount = 0 \<and> sentCount = eligibleCount then I_SENT
         else if 0 < sentCount then I_PARTIAL
         else I_ERROR)"

definition final_error :: "delivery_context list \<Rightarrow> delivery_result list \<Rightarrow> remark option" where
  "final_error channels results =
     (if final_state channels results = I_SENT then None
      else Some (NOT_DELIVERED
        (map (\<lambda>(c, r). dc_disabledReason c) (filter (\<lambda>(c, r). r = R_SKIPPED) (zip channels results)))
        (R_ERROR \<in> set (map snd (filter (\<lambda>(c, r). eligible c) (zip channels results))))))"

definition finish_invoice ::
  "settings \<Rightarrow> millis \<Rightarrow> invoice \<Rightarrow> delivery_context list \<Rightarrow> delivery_result list \<Rightarrow> invoice_db \<Rightarrow> invoice_db" where
  "finish_invoice env now r channels results db =
     (let st = final_state channels results; err = final_error channels results in
      write_invoice (iv_id r)
        (\<lambda>x. x\<lparr>iv_state := st, iv_waitReason := err, iv_lastError := err,
               iv_sentAt := (if st = I_SENT then Some now else None), iv_leaseUntil := None,
               iv_nextAttemptAt := (if st = I_SENT then None else Some (now + backoffMs env (iv_attempts r + 1))),
               iv_updatedAt := now\<rparr>) db)"

definition ack :: "unit call \<Rightarrow> string \<Rightarrow> ack_state \<Rightarrow> invoice_db \<Rightarrow> (fault + unit) \<times> invoice_db" where
  "ack response token st db =
     (case response of
        Inl e \<Rightarrow> (Inl (EXTERNAL e), db)
      | Inr _ \<Rightarrow> (Inr (), db\<lparr>nv_acks := nv_acks db @ [(token, st)]\<rparr>))"

definition ack_of :: "invoice_state \<Rightarrow> ack_state" where
  "ack_of st = (if st = I_SENT then ACK_SENT else if st = I_PARTIAL then ACK_PARTIAL else ACK_ERROR)"

subsection \<open>The whole run\<close>

definition claim_invoice :: "settings \<Rightarrow> millis \<Rightarrow> string \<Rightarrow> invoice_db \<Rightarrow> bool \<times> invoice_db" where
  "claim_invoice env now i db =
     (let hit = (\<lambda>r. iv_id r = i \<and> iv_state r \<in> set PROCESSABLE_STATES \<and> \<not> lease_live now r) in
      (0 < count_where hit (nv_invoices db),
       db\<lparr>nv_invoices := update_where hit
            (\<lambda>r. r\<lparr>iv_state := I_SENDING, iv_leaseUntil := Some (now + leaseMs env), iv_attempts := iv_attempts r + 1,
                   iv_lastError := None, iv_updatedAt := now\<rparr>) (nv_invoices db)\<rparr>))"

datatype run_result = RUN_SUPERSEDED | RUN_STORED | RUN_DELIVERED invoice_state

definition store_only :: "world \<Rightarrow> millis \<Rightarrow> invoice \<Rightarrow> invoice_db \<Rightarrow> (fault + run_result) \<times> invoice_db" where
  "store_only w now r db =
     (let db1 = write_invoice (iv_id r)
            (\<lambda>x. x\<lparr>iv_state := I_AVAILABLE, iv_waitReason := None, iv_lastError := None, iv_leaseUntil := None,
                   iv_nextAttemptAt := None, iv_updatedAt := now\<rparr>) db
      in case ack (wo_ack w) (iv_token r) ACK_STORED db1 of
           (Inl e, db2) \<Rightarrow> (Inl e, db2)
         | (Inr _, db2) \<Rightarrow> (Inr RUN_STORED, db2))"

definition deliver_invoice ::
  "settings \<Rightarrow> world \<Rightarrow> millis \<Rightarrow> invoice \<Rightarrow> manager option \<Rightarrow> invoice_db \<Rightarrow> (fault + run_result) \<times> invoice_db" where
  "deliver_invoice env w now r user db =
     (case wo_download w of
        Inl e \<Rightarrow> (Inl (EXTERNAL e), db)
      | Inr _ \<Rightarrow>
          (case user of
             None \<Rightarrow> (Inl NO_MANAGER, db)
           | Some m \<Rightarrow>
               (case deliver_all env w now (iv_id r) (delivery_channels m) db of
                  (Inl e, db1) \<Rightarrow> (Inl e, db1)
                | (Inr results, db1) \<Rightarrow>
                    if R_SUPERSEDED \<in> set results then (Inr RUN_SUPERSEDED, db1)
                    else
                      let st = final_state (delivery_channels m) results
                      in (case ack (wo_ack w) (iv_token r) (ack_of st) (finish_invoice env now r (delivery_channels m) results db1) of
                            (Inl e, db2) \<Rightarrow> (Inl e, db2)
                          | (Inr _, db2) \<Rightarrow> (Inr (RUN_DELIVERED st), db2)))))"

definition deliver_or_store ::
  "settings \<Rightarrow> world \<Rightarrow> millis \<Rightarrow> invoice \<Rightarrow> order \<Rightarrow> manager option \<Rightarrow> invoice_db \<Rightarrow> (fault + run_result) \<times> invoice_db" where
  "deliver_or_store env w now r order user db =
     (case find_invoice (iv_id r) db of
        None \<Rightarrow> (Inl PDF_NOT_PERSISTED, db)
      | Some refreshed \<Rightarrow>
          if \<not> truthy (iv_s3Key refreshed) \<or> iv_fileName refreshed = None then (Inl PDF_NOT_PERSISTED, db)
          else if \<not> od_invoiceRequested order then store_only w now r db
          else deliver_invoice env w now r user db)"

definition process_body ::
  "settings \<Rightarrow> world \<Rightarrow> millis \<Rightarrow> invoice \<Rightarrow> order \<Rightarrow> manager option \<Rightarrow> invoice_db \<Rightarrow> (fault + run_result) \<times> invoice_db" where
  "process_body env w now r order user db =
     (let (checked, db1) =
        (if truthy (iv_s3Key r)
         then validateCandidate (wo_validateStored w) now (iv_id r) (iv_token r) (iv_businessHash r) db
         else (Inr True, db))
      in case checked of
           Inl e \<Rightarrow> (Inl e, db1)
         | Inr False \<Rightarrow> (Inr RUN_SUPERSEDED, db1)
         | Inr True \<Rightarrow>
             (case ensurePdf w now r db1 of
                (Inl e, db2) \<Rightarrow> (Inl e, db2)
              | (Inr _, db2) \<Rightarrow> deliver_or_store env w now r order user db2))"

definition fail_invoice :: "settings \<Rightarrow> world \<Rightarrow> millis \<Rightarrow> invoice \<Rightarrow> fault \<Rightarrow> invoice_db \<Rightarrow> invoice_db" where
  "fail_invoice env w now r e db =
     (if e = INVOICE_SUPERSEDED \<or> e = EXTERNAL ''INVOICE_SUPERSEDED'' then db
      else snd (ack (wo_ackError w) (iv_token r) ACK_ERROR
        (db\<lparr>nv_invoices := update_where (\<lambda>x. iv_id x = iv_id r \<and> iv_state x \<noteq> I_SUPERSEDED)
             (\<lambda>x. x\<lparr>iv_state := I_ERROR, iv_lastError := Some (FAULT e), iv_leaseUntil := None,
                    iv_nextAttemptAt := Some (now + backoffMs env (iv_attempts r + 1)), iv_updatedAt := now\<rparr>)
             (nv_invoices db)\<rparr>)))"

definition processInvoice :: "settings \<Rightarrow> world \<Rightarrow> millis \<Rightarrow> string \<Rightarrow> invoice_db \<Rightarrow> invoice_db" where
  "processInvoice env w now invoiceId db =
     (let (claimed, db1) = claim_invoice env now invoiceId db in
      if \<not> claimed then db1
      else case find_invoice invoiceId db1 of
        None \<Rightarrow> db1
      | Some r \<Rightarrow>
          (case List.find (\<lambda>o'. od_id o' = iv_orderId r) (nv_orders db1) of
             None \<Rightarrow> db1
           | Some order \<Rightarrow>
               let user = (case od_createdBy order of None \<Rightarrow> None
                           | Some u \<Rightarrow> List.find (\<lambda>m. mg_id m = u) (nv_managers db1))
               in (case process_body env w now r order user db1 of
                     (Inl e, db2) \<Rightarrow> fail_invoice env w now r e db2
                   | (Inr _, db2) \<Rightarrow> db2)))"

section \<open>The periodic tick\<close>

text \<open>The module's variables: the cursor into the 1C queue and the time of the last full read.\<close>

record worker_memory =
  wm_cursor :: "millis option"
  wm_lastFull :: millis

definition ONEC_QUEUE_CURSOR_OVERLAP_MS :: int where
  "ONEC_QUEUE_CURSOR_OVERLAP_MS = 10000"

definition ONEC_QUEUE_FULL_SYNC_INTERVAL_MS :: int where
  "ONEC_QUEUE_FULL_SYNC_INTERVAL_MS = 600000"

text \<open>
  A queue response: the lists found under \<^verbatim>\<open>items\<close>, \<^verbatim>\<open>body.items\<close> and
  \<^verbatim>\<open>data.items\<close>, and the server times at the same places.
\<close>

record queue_response =
  qr_items :: "queue_item list option"
  qr_bodyItems :: "queue_item list option"
  qr_dataItems :: "queue_item list option"
  qr_serverTime :: "string option"
  qr_bodyTime :: "string option"
  qr_dataTime :: "string option"

definition response_items :: "queue_response \<Rightarrow> queue_item list" where
  "response_items r =
     (case nullish (qr_items r) (nullish (qr_bodyItems r) (qr_dataItems r)) of None \<Rightarrow> [] | Some is \<Rightarrow> is)"

definition item_key :: "queue_item \<Rightarrow> string" where
  "item_key item = js_lower (qi_appOrderGuid item @ '':'' @ qi_realizationGuid item)"

definition item_time :: "settings \<Rightarrow> (string \<Rightarrow> millis option) \<Rightarrow> queue_item \<Rightarrow> millis" where
  "item_time env host_date item = (case parseDate env host_date (qi_updatedAt item) of None \<Rightarrow> 0 | Some t \<Rightarrow> t)"

definition newer :: "settings \<Rightarrow> (string \<Rightarrow> millis option) \<Rightarrow> queue_item \<Rightarrow> queue_item \<Rightarrow> bool" where
  "newer env host_date item previous \<longleftrightarrow>
     item_time env host_date previous < item_time env host_date item \<or>
     (item_time env host_date item = item_time env host_date previous \<and> qi_version previous \<le> qi_version item)"

definition note_item ::
  "settings \<Rightarrow> (string \<Rightarrow> millis option) \<Rightarrow> queue_item \<Rightarrow> (string \<times> queue_item) list \<Rightarrow> (string \<times> queue_item) list" where
  "note_item env host_date item latest =
     (case map_of latest (item_key item) of
        None \<Rightarrow> AList.update (item_key item) item latest
      | Some previous \<Rightarrow>
          if newer env host_date item previous then AList.update (item_key item) item latest else latest)"

definition latestByRealization ::
  "settings \<Rightarrow> (string \<Rightarrow> millis option) \<Rightarrow> queue_item list \<Rightarrow> (string \<times> queue_item) list" where
  "latestByRealization env host_date items = fold (note_item env host_date) items []"

text \<open>
  \<open>fetch limit since\<close> is the call to 1C; \<open>newId\<close> gives the identifier the database
  generates for the row of a token.  The pool runs the items' transactions one after another
  (\<^verbatim>\<open>Task_Pool\<close> shows that each is run once).
\<close>

definition syncOnecQueue ::
  "settings \<Rightarrow> (string \<Rightarrow> millis option) \<Rightarrow> millis \<Rightarrow> (string \<Rightarrow> string) \<Rightarrow> (int \<Rightarrow> millis option \<Rightarrow> queue_response call) \<Rightarrow>
   worker_memory \<Rightarrow> invoice_db \<Rightarrow> (fault + unit) \<times> worker_memory \<times> invoice_db" where
  "syncOnecQueue env host_date now newId fetch mem db =
     (let fullSync = (wm_cursor mem = None \<or> ONEC_QUEUE_FULL_SYNC_INTERVAL_MS \<le> now - wm_lastFull mem);
          updatedSince = (if fullSync then None
                          else map_option (\<lambda>c. c - ONEC_QUEUE_CURSOR_OVERLAP_MS) (wm_cursor mem))
      in case fetch (envInt env ''CLIENT_ORDER_INVOICE_WORKER_QUEUE_LIMIT'' 100 1) updatedSince of
           Inl e \<Rightarrow> (Inl (EXTERNAL e), mem, db)
         | Inr response \<Rightarrow>
             let chosen = map snd (latestByRealization env host_date (response_items response));
                 db1 = fold (\<lambda>item. syncQueueItem env host_date now (newId (qi_token item)) False item) chosen db;
                 serverCursor = nullish (parseDate env host_date (qr_serverTime response))
                   (nullish (parseDate env host_date (qr_bodyTime response))
                   (nullish (parseDate env host_date (qr_dataTime response)) (Some now)))
             in (Inr (), mem\<lparr>wm_cursor := serverCursor, wm_lastFull := (if fullSync then now else wm_lastFull mem)\<rparr>, db1))"

definition due :: "millis \<Rightarrow> millis option \<Rightarrow> bool" where
  "due now t = (case t of None \<Rightarrow> True | Some u \<Rightarrow> u \<le> now)"

definition is_candidate :: "millis \<Rightarrow> invoice_db \<Rightarrow> invoice \<Rightarrow> bool" where
  "is_candidate now db r \<longleftrightarrow>
     (iv_state r \<in> set RETRYABLE_STATES \<or>
      (iv_state r = I_AVAILABLE \<and> (\<exists>o' \<in> set (nv_orders db). od_id o' = iv_orderId r \<and> od_invoiceRequested o'))) \<and>
     due now (iv_readyAt r) \<and> due now (iv_nextAttemptAt r) \<and> due now (iv_leaseUntil r)"

text \<open>Ordered by \<^verbatim>\<open>readyAt\<close>, rows without one last, then by \<^verbatim>\<open>updatedAt\<close>.\<close>

definition worker_candidates :: "settings \<Rightarrow> millis \<Rightarrow> invoice_db \<Rightarrow> string list" where
  "worker_candidates env now db =
     (let rows = sort_key iv_updatedAt (filter (is_candidate now db) (nv_invoices db));
          ordered = sort_key (\<lambda>r. the (iv_readyAt r)) (filter (\<lambda>r. iv_readyAt r \<noteq> None) rows)
                    @ filter (\<lambda>r. iv_readyAt r = None) rows
      in map iv_id (take (nat (batchSize env)) ordered))"

definition runOnce ::
  "settings \<Rightarrow> (string \<Rightarrow> millis option) \<Rightarrow> millis \<Rightarrow> (string \<Rightarrow> string) \<Rightarrow> (int \<Rightarrow> millis option \<Rightarrow> queue_response call) \<Rightarrow>
   (string \<Rightarrow> world) \<Rightarrow> bool \<Rightarrow> worker_memory \<Rightarrow> invoice_db \<Rightarrow> worker_memory \<times> invoice_db" where
  "runOnce env host_date now newId fetch worlds locked mem db =
     (if \<not> locked then (mem, db)
      else
        let (_, mem1, db1) = syncOnecQueue env host_date now newId fetch mem db
        in (mem1, fold (\<lambda>i. processInvoice env (worlds i) now i) (worker_candidates env now db1) db1))"

section \<open>The lock of the tick\<close>

text \<open>
  \<open>reachable\<close> says that Redis is open and answers; otherwise the flag of the process guards.
  The Redis key carries the owner's random value and an expiry.
\<close>

record lock_state =
  lk_key :: "(string \<times> millis) option"
  lk_memory :: bool

datatype lock = REDIS_LOCK string | MEMORY_LOCK

definition redis_get :: "millis \<Rightarrow> lock_state \<Rightarrow> string option" where
  "redis_get now s = (case lk_key s of None \<Rightarrow> None | Some (v, t) \<Rightarrow> if now < t then Some v else None)"

definition acquireLock :: "settings \<Rightarrow> bool \<Rightarrow> millis \<Rightarrow> string \<Rightarrow> lock_state \<Rightarrow> lock option \<times> lock_state" where
  "acquireLock env reachable now lockId s =
     (if reachable
      then (if redis_get now s = None
            then (Some (REDIS_LOCK lockId), s\<lparr>lk_key := Some (lockId, now + leaseMs env)\<rparr>)
            else (None, s))
      else if lk_memory s then (None, s)
      else (Some MEMORY_LOCK, s\<lparr>lk_memory := True\<rparr>))"

definition heartbeat :: "settings \<Rightarrow> millis \<Rightarrow> string \<Rightarrow> lock_state \<Rightarrow> lock_state" where
  "heartbeat env now lockId s =
     (if redis_get now s = Some lockId then s\<lparr>lk_key := Some (lockId, now + leaseMs env)\<rparr> else s)"

definition releaseLock :: "millis \<Rightarrow> lock \<Rightarrow> lock_state \<Rightarrow> lock_state" where
  "releaseLock now l s =
     (case l of
        MEMORY_LOCK \<Rightarrow> s\<lparr>lk_memory := False\<rparr>
      | REDIS_LOCK lockId \<Rightarrow> if redis_get now s = Some lockId then s\<lparr>lk_key := None\<rparr> else s)"

end
