(* ===== verification/Invoice_Safety.thy ===== *)
theory Invoice_Safety
  imports Invoice_Worker
begin

text \<open>
  What the invoice pipeline guarantees: a document is accepted at most once per invoice and channel,
  and only for a candidate that 1C has just confirmed; a processing run always gives its lease back;
  a new version retires the older ones; leases and the lock of the tick exclude each other.
\<close>

section \<open>Frame rules\<close>

named_theorems invoice_frame \<open>tables that an operation leaves alone\<close>

lemma write_invoice_frame [invoice_frame]:
  "nv_deliveries (write_invoice i f db) = nv_deliveries db" "nv_documents (write_invoice i f db) = nv_documents db"
  "nv_orders (write_invoice i f db) = nv_orders db" "nv_managers (write_invoice i f db) = nv_managers db"
  by (simp_all add: write_invoice_def)

lemma markSuperseded_frame [invoice_frame]:
  "nv_deliveries (markSuperseded now i db) = nv_deliveries db" "nv_documents (markSuperseded now i db) = nv_documents db"
  "nv_orders (markSuperseded now i db) = nv_orders db" "nv_managers (markSuperseded now i db) = nv_managers db"
  by (simp_all add: markSuperseded_def invoice_frame)

lemma validate_cases:
  obtains (thrown) e where "validateCandidate resp now i tok h db = (Inl (EXTERNAL e), db)" "resp = Inl e"
  | (confirmed) v where "validateCandidate resp now i tok h db = (Inr True, db)" "resp = Inr v"
      "sameCandidate tok h (unwrapValidation v)"
  | (stale) v where "validateCandidate resp now i tok h db = (Inr False, markSuperseded now i db)" "resp = Inr v"
proof (cases resp)
  case (Inl e)
  then show thesis using thrown by (simp add: validateCandidate_def)
next
  case (Inr v)
  then show thesis
    using confirmed [of v] stale [of v]
    by (cases "sameCandidate tok h (unwrapValidation v)") (simp_all add: validateCandidate_def)
qed

lemma ack_frame [invoice_frame]:
  "nv_deliveries (snd (ack a tok st db)) = nv_deliveries db" "nv_documents (snd (ack a tok st db)) = nv_documents db"
  "nv_invoices (snd (ack a tok st db)) = nv_invoices db" "nv_orders (snd (ack a tok st db)) = nv_orders db"
  by (simp_all add: ack_def split: sum.splits)

lemma ensurePdf_frame [invoice_frame]:
  "nv_deliveries (snd (ensurePdf w now r db)) = nv_deliveries db" "nv_documents (snd (ensurePdf w now r db)) = nv_documents db"
  "nv_orders (snd (ensurePdf w now r db)) = nv_orders db"
  by (simp_all add: ensurePdf_def validateCandidate_def invoice_frame split: sum.splits prod.splits bool.splits)

lemma store_only_frame [invoice_frame]:
  "nv_deliveries (snd (store_only w now r db)) = nv_deliveries db" "nv_documents (snd (store_only w now r db)) = nv_documents db"
  by (simp_all add: store_only_def Let_def ack_def invoice_frame split: sum.splits prod.splits)

lemma finish_invoice_frame [invoice_frame]:
  "nv_deliveries (finish_invoice env now r cs rs db) = nv_deliveries db"
  "nv_documents (finish_invoice env now r cs rs db) = nv_documents db"
  by (simp_all add: finish_invoice_def Let_def invoice_frame)

lemma fail_invoice_frame [invoice_frame]:
  "nv_deliveries (fail_invoice env w now r e db) = nv_deliveries db"
  "nv_documents (fail_invoice env w now r e db) = nv_documents db"
  by (simp_all add: fail_invoice_def invoice_frame)

lemma claim_invoice_frame [invoice_frame]:
  "nv_deliveries (snd (claim_invoice env now i db)) = nv_deliveries db"
  "nv_documents (snd (claim_invoice env now i db)) = nv_documents db"
  "nv_orders (snd (claim_invoice env now i db)) = nv_orders db"
  "nv_managers (snd (claim_invoice env now i db)) = nv_managers db"
  by (simp_all add: claim_invoice_def Let_def)

lemma syncQueueItem_frame [invoice_frame]:
  "nv_deliveries (syncQueueItem env host now n imm item db) = nv_deliveries db"
  "nv_documents (syncQueueItem env host now n imm item db) = nv_documents db"
  "nv_orders (syncQueueItem env host now n imm item db) = nv_orders db"
  by (simp_all add: syncQueueItem_def split: option.splits)

lemma write_delivery_frame [invoice_frame]:
  "nv_invoices (write_delivery i f db) = nv_invoices db" "nv_documents (write_delivery i f db) = nv_documents db"
  "nv_deliveries (write_delivery i f db) = update_where (\<lambda>d. dl_id d = i) f (nv_deliveries db)"
  by (simp_all add: write_delivery_def)

section \<open>Deliveries\<close>

text \<open>
  The database declares the identifier and the pair of invoice and channel unique.  The last two
  parts tie the documents the bots accepted to the rows.
\<close>

definition deliveries_ok :: "invoice_db \<Rightarrow> bool" where
  "deliveries_ok db \<longleftrightarrow>
     distinct (map dl_id (nv_deliveries db)) \<and>
     distinct (map (\<lambda>d. (dl_invoiceId d, dl_channel d)) (nv_deliveries db)) \<and>
     distinct (nv_documents db) \<and>
     (\<forall>x \<in> set (nv_documents db). \<exists>d \<in> set (nv_deliveries db). (dl_invoiceId d, dl_channel d) = x \<and> dl_sentAt d \<noteq> None)"

text \<open>The identifiers the database would generate for the two channels are new and different.\<close>

definition fresh_world :: "world \<Rightarrow> invoice_db \<Rightarrow> bool" where
  "fresh_world w db \<longleftrightarrow> wo_deliveryId w TELEGRAM \<noteq> wo_deliveryId w MAX_BOT \<and>
     (\<forall>d \<in> set (nv_deliveries db). dl_id d \<noteq> wo_deliveryId w TELEGRAM \<and> dl_id d \<noteq> wo_deliveryId w MAX_BOT)"

definition keeps_delivery :: "(delivery \<Rightarrow> delivery) \<Rightarrow> bool" where
  "keeps_delivery f \<longleftrightarrow>
     (\<forall>d. dl_id (f d) = dl_id d \<and> dl_invoiceId (f d) = dl_invoiceId d \<and> dl_channel (f d) = dl_channel d \<and>
          (dl_sentAt d \<noteq> None \<longrightarrow> dl_sentAt (f d) \<noteq> None))"

lemma deliveries_ok_same:
  "deliveries_ok db \<Longrightarrow> nv_deliveries db' = nv_deliveries db \<Longrightarrow> nv_documents db' = nv_documents db \<Longrightarrow> deliveries_ok db'"
  by (simp add: deliveries_ok_def)

lemma deliveries_okD:
  "deliveries_ok db \<Longrightarrow> (i, ch) \<in> set (nv_documents db) \<Longrightarrow>
   \<exists>d \<in> set (nv_deliveries db). dl_invoiceId d = i \<and> dl_channel d = ch \<and> dl_sentAt d \<noteq> None"
  unfolding deliveries_ok_def by (elim conjE, drule (1) bspec) simp

lemma deliveries_ok_write:
  assumes ok: "deliveries_ok db" and f: "keeps_delivery f"
  shows "deliveries_ok (write_delivery i f db)"
proof -
  let ?ds = "update_where (\<lambda>d. dl_id d = i) f (nv_deliveries db)"
  have "map dl_id ?ds = map dl_id (nv_deliveries db)"
    "map (\<lambda>d. (dl_invoiceId d, dl_channel d)) ?ds = map (\<lambda>d. (dl_invoiceId d, dl_channel d)) (nv_deliveries db)"
    using f by (simp_all add: keeps_delivery_def update_where_key)
  moreover have "\<exists>d \<in> set ?ds. (dl_invoiceId d, dl_channel d) = x \<and> dl_sentAt d \<noteq> None"
    if x: "x \<in> set (nv_documents db)" for x
  proof -
    obtain d where d: "d \<in> set (nv_deliveries db)" "(dl_invoiceId d, dl_channel d) = x" "dl_sentAt d \<noteq> None"
      using deliveries_okD [OF ok, of "fst x" "snd x"] x by (metis prod.collapse)
    show ?thesis
    proof (cases "dl_id d = i")
      case True
      then have "f d \<in> set ?ds" using d(1) by blast
      then show ?thesis using d f by (metis keeps_delivery_def)
    next
      case False
      then have "d \<in> set ?ds" using d(1) by blast
      then show ?thesis using d by blast
    qed
  qed
  ultimately show ?thesis using ok by (simp add: deliveries_ok_def invoice_frame)
qed

text \<open>A row as another one became: same keys, and a time of acceptance is not lost.\<close>

lemma upsert_delivery_found:
  assumes "upsert_delivery n i ch db = (d, db0)"
  shows "d \<in> set (nv_deliveries db0)" "dl_invoiceId d = i" "dl_channel d = ch"
    "nv_documents db0 = nv_documents db" "nv_invoices db0 = nv_invoices db"
    "dl_id d \<in> dl_id ` set (nv_deliveries db) \<or> dl_id d = n"
    "dl_id ` set (nv_deliveries db0) \<subseteq> insert n (dl_id ` set (nv_deliveries db))"
  using assms by (auto simp: upsert_delivery_def Let_def split: option.splits dest: find_SomeD)

lemma deliveries_ok_upsert:
  assumes ok: "deliveries_ok db" and new: "n \<notin> dl_id ` set (nv_deliveries db)"
    and eq: "upsert_delivery n i ch db = (d, db0)"
  shows "deliveries_ok db0"
proof (cases "List.find (\<lambda>d. dl_invoiceId d = i \<and> dl_channel d = ch) (nv_deliveries db)")
  case None
  then have none: "\<forall>d \<in> set (nv_deliveries db). \<not> (dl_invoiceId d = i \<and> dl_channel d = ch)"
    by (auto dest: find_NoneD)
  have ds: "nv_deliveries db0 = nv_deliveries db @ [d]" and docs: "nv_documents db0 = nv_documents db"
    and d: "dl_id d = n" "dl_invoiceId d = i" "dl_channel d = ch"
    using eq None by (auto simp: upsert_delivery_def Let_def)
  show ?thesis
    unfolding deliveries_ok_def ds docs
    using ok new none d by (auto simp: deliveries_ok_def)
next
  case (Some x)
  then show ?thesis using ok eq by (simp add: upsert_delivery_def)
qed

lemma ids_write: "keeps_delivery f \<Longrightarrow> dl_id ` set (nv_deliveries (write_delivery i f db)) = dl_id ` set (nv_deliveries db)"
  unfolding keeps_delivery_def by (simp add: invoice_frame update_where_key flip: set_map)

lemma send_document_cases:
  obtains (kept) e where "send_document w now d db = (e, db)" "e = Inr () \<longrightarrow> dl_sentAt d \<noteq> None"
  | (accepted) "send_document w now d db = (Inr (), write_delivery (dl_id d)
        (\<lambda>x. x\<lparr>dl_sentAt := Some now, dl_nextAttemptAt := None, dl_lastError := None\<rparr>)
        (db\<lparr>nv_documents := nv_documents db @ [(dl_invoiceId d, dl_channel d)]\<rparr>))"
      "dl_sentAt d = None" "wo_document w (dl_channel d) = Inr True"
proof (cases "dl_sentAt d = None \<and> wo_document w (dl_channel d) = Inr True")
  case True
  then show thesis using accepted by (simp add: send_document_def)
next
  case False
  then have "snd (send_document w now d db) = db" "fst (send_document w now d db) = Inr () \<longrightarrow> dl_sentAt d \<noteq> None"
    by (auto simp: send_document_def split: sum.split bool.split)
  then show thesis using kept by (metis prod.collapse)
qed

lemma send_message_result:
  obtains (bad) e where "send_message w now d db = (Inl e, db)"
  | (good) db' g where "send_message w now d db = (Inr (), db')" "keeps_delivery g"
      "nv_deliveries db' = nv_deliveries (write_delivery (dl_id d) g db)" "nv_documents db' = nv_documents db"
      "nv_invoices db' = nv_invoices db"
proof (cases "wo_message w (dl_channel d)")
  case (Inl e)
  then show thesis using bad by (simp add: send_message_def)
next
  case (Inr b)
  show thesis
  proof (cases b)
    case True
    let ?g = "\<lambda>x. x\<lparr>dl_state := D_SENT, dl_sentAt := Some now, dl_nextAttemptAt := None, dl_lastError := None\<rparr>"
    let ?db = "write_delivery (dl_id d) ?g (db\<lparr>nv_notes := nv_notes db @ [(dl_invoiceId d, dl_channel d)]\<rparr>)"
    show thesis
      by (rule good [of ?db ?g]) (use Inr True in \<open>simp_all add: send_message_def keeps_delivery_def write_delivery_def\<close>)
  next
    case False
    then show thesis using Inr bad by (simp add: send_message_def)
  qed
qed

text \<open>The outcomes of a delivery over one channel.\<close>

definition attempted ::
  "world \<Rightarrow> millis \<Rightarrow> delivery \<Rightarrow> invoice_db \<Rightarrow> invoice_db \<Rightarrow> bool" where
  "attempted w now d db0 db' \<longleftrightarrow>
     (\<exists>f g. keeps_delivery f \<and> keeps_delivery g \<and>
        (let db3 = snd (send_document w now d (write_delivery (dl_id d) f db0))
         in nv_deliveries db' = nv_deliveries (write_delivery (dl_id d) g db3) \<and>
            nv_documents db' = nv_documents db3 \<and> nv_invoices db' = nv_invoices db0))"

lemma send_document_invoices: "nv_invoices (snd (send_document w now d db)) = nv_invoices db"
  by (cases rule: send_document_cases [of w now d db]) (simp_all add: invoice_frame)

lemma attempted_after_document:
  assumes "keeps_delivery f" and "keeps_delivery g" and "send_document w now d (write_delivery (dl_id d) f db0) = (x, db3)"
    and "nv_deliveries db' = nv_deliveries (write_delivery (dl_id d) g db3)" and "nv_documents db' = nv_documents db3"
    and "nv_invoices db' = nv_invoices db3"
  shows "attempted w now d db0 db'"
proof -
  have "nv_invoices db3 = nv_invoices db0"
    using send_document_invoices [of w now d "write_delivery (dl_id d) f db0"] assms(3) by (simp add: invoice_frame)
  then show ?thesis
    unfolding attempted_def Let_def using assms by (intro exI [of _ f] exI [of _ g]) simp
qed

lemma keeps_comp: "keeps_delivery f \<Longrightarrow> keeps_delivery g \<Longrightarrow> keeps_delivery (\<lambda>d. g (f d))"
  by (simp add: keeps_delivery_def)

lemma write_delivery_comp:
  assumes "keeps_delivery f"
  shows "nv_deliveries (write_delivery i g (write_delivery i f db)) = nv_deliveries (write_delivery i (\<lambda>d. g (f d)) db)"
  using assms by (simp add: write_delivery_def update_where_def keeps_delivery_def)

lemma attempt_result:
  obtains r db' where "attempt env w now d db0 = (Inr r, db')" "r = R_SENT \<or> r = R_ERROR" "attempted w now d db0 db'"
proof -
  let ?f = "\<lambda>x. x\<lparr>dl_state := D_SENDING, dl_attempts := dl_attempts x + 1, dl_lastError := None\<rparr>"
  let ?h = "\<lambda>e x. x\<lparr>dl_state := D_ERROR, dl_lastError := Some (FAULT e),
                dl_nextAttemptAt := Some (now + backoffMs env (dl_attempts d + 1))\<rparr>"
  have keeps: "keeps_delivery ?f" "keeps_delivery (?h e)" for e
    by (simp_all add: keeps_delivery_def)
  obtain x db3 where doc: "send_document w now d (write_delivery (dl_id d) ?f db0) = (x, db3)" by fastforce
  have failed: "attempted w now d db0 (write_delivery (dl_id d) (?h e) db3)" for e
    by (rule attempted_after_document [OF keeps(1) keeps(2) [of e] doc]) (simp_all add: invoice_frame)
  show thesis
  proof (cases x)
    case (Inl e)
    then have "attempt env w now d db0 = (Inr R_ERROR, write_delivery (dl_id d) (?h e) db3)"
      using doc by (simp add: attempt_def Let_def)
    then show thesis using that failed by blast
  next
    case (Inr u)
    show thesis
    proof (cases rule: send_message_result [of w now d db3])
      case (bad e)
      then have "attempt env w now d db0 = (Inr R_ERROR, write_delivery (dl_id d) (?h e) db3)"
        using doc Inr by (simp add: attempt_def Let_def)
      then show thesis using that failed by blast
    next
      case (good db4 g)
      then have "attempt env w now d db0 = (Inr R_SENT, db4)"
        using doc Inr by (simp add: attempt_def Let_def)
      moreover have "attempted w now d db0 db4"
        by (rule attempted_after_document [OF keeps(1) good(2) doc]) (simp_all add: good)
      ultimately show thesis using that by blast
    qed
  qed
qed

lemma deliver_go:
  assumes "upsert_delivery (wo_deliveryId w (dc_channel c)) i (dc_channel c) db = (d, db0)"
    and "dl_state d \<noteq> D_SENT" and "eligible c" and "\<not> (\<exists>t. dl_nextAttemptAt d = Some t \<and> now < t)"
    and "find_invoice i db0 = Some cur"
  shows "deliverChannel env w now i c db =
    (case validateCandidate (wo_validateChannel w (dc_channel c)) now i (iv_token cur) (iv_businessHash cur) db0 of
       (Inl e, db1) \<Rightarrow> (Inl e, db1)
     | (Inr False, db1) \<Rightarrow> (Inr R_SUPERSEDED, db1)
     | (Inr True, db1) \<Rightarrow> attempt env w now d db1)"
proof -
  have "iv_id cur = i" using assms(5) by (auto simp: find_invoice_def dest: find_SomeD)
  moreover have "\<not> (case dl_nextAttemptAt d of None \<Rightarrow> False | Some t \<Rightarrow> now < t)" "dc_enabled c" "dc_recipient c \<noteq> None"
    using assms(3,4) by (auto simp: eligible_def split: option.splits)
  ultimately show ?thesis
    using assms(1,2,5) by (auto simp: deliverChannel_def)
qed

lemma deliver_cases:
  assumes up: "upsert_delivery (wo_deliveryId w (dc_channel c)) i (dc_channel c) db = (d, db0)"
  obtains (kept) r where "deliverChannel env w now i c db = (r, db0)"
      "\<forall>e. r = Inl e \<longrightarrow> (\<exists>m. e = EXTERNAL m \<and> wo_validateChannel w (dc_channel c) = Inl m)"
      "r = Inr R_SUPERSEDED \<longrightarrow> find_invoice i db0 = None"
  | (skipped) f where "keeps_delivery f" "deliverChannel env w now i c db = (Inr R_SKIPPED, write_delivery (dl_id d) f db0)"
  | (stale) "deliverChannel env w now i c db = (Inr R_SUPERSEDED, markSuperseded now i db0)"
  | (tried) cur v r db' where "deliverChannel env w now i c db = (Inr r, db')" "r = R_SENT \<or> r = R_ERROR"
      "find_invoice i db0 = Some cur" "wo_validateChannel w (dc_channel c) = Inr v"
      "sameCandidate (iv_token cur) (iv_businessHash cur) (unwrapValidation v)" "eligible c" "attempted w now d db0 db'"
proof -
  note unf = deliverChannel_def up Let_def
  consider (sent) "dl_state d = D_SENT"
    | (off) "dl_state d \<noteq> D_SENT" "\<not> eligible c"
    | (later) "dl_state d \<noteq> D_SENT" "eligible c" "\<exists>t. dl_nextAttemptAt d = Some t \<and> now < t"
    | (gone) "dl_state d \<noteq> D_SENT" "eligible c" "\<not> (\<exists>t. dl_nextAttemptAt d = Some t \<and> now < t)" "find_invoice i db0 = None"
    | (go) cur where "dl_state d \<noteq> D_SENT" "eligible c" "\<not> (\<exists>t. dl_nextAttemptAt d = Some t \<and> now < t)" "find_invoice i db0 = Some cur"
    by (cases "find_invoice i db0") blast+
  then show thesis
  proof cases
    case sent
    then show thesis using kept [of "Inr R_SENT"] by (simp add: unf)
  next
    case off
    let ?f = "\<lambda>x. x\<lparr>dl_state := D_SKIPPED, dl_lastError := Some (SKIPPED_BECAUSE (dc_disabledReason c))\<rparr>"
    show thesis
      by (rule skipped [of ?f]) (use off in \<open>simp_all add: unf keeps_delivery_def eligible_def\<close>)
  next
    case later
    then show thesis using kept [of "Inr R_ERROR"] by (auto simp: unf eligible_def)
  next
    case gone
    then have "deliverChannel env w now i c db = (Inr R_SUPERSEDED, db0)"
      by (auto simp: unf eligible_def split: option.split)
    then show thesis using kept gone(4) by blast
  next
    case (go cur)
    note eq = deliver_go [OF up go, of env]
    show thesis
    proof (cases rule: validate_cases [of "wo_validateChannel w (dc_channel c)" now i "iv_token cur" "iv_businessHash cur" db0])
      case (thrown e)
      then show thesis using kept [of "Inl (EXTERNAL e)"] by (simp add: eq)
    next
      case (stale v)
      then show thesis using that(3) by (simp add: eq)
    next
      case (confirmed v)
      obtain r db' where "attempt env w now d db0 = (Inr r, db')" "r = R_SENT \<or> r = R_ERROR" "attempted w now d db0 db'"
        by (rule attempt_result)
      then show thesis using tried [of r db' cur v] go confirmed by (simp add: eq)
    qed
  qed
qed

lemma deliveries_ok_accept:
  assumes ok: "deliveries_ok db" and d: "x \<in> set (nv_deliveries db)"
    and new: "(dl_invoiceId x, dl_channel x) \<notin> set (nv_documents db)"
    and k: "keeps_delivery k" "\<And>y. dl_sentAt (k y) \<noteq> None"
  shows "deliveries_ok (write_delivery (dl_id x) k (db\<lparr>nv_documents := nv_documents db @ [(dl_invoiceId x, dl_channel x)]\<rparr>))"
proof -
  let ?db = "write_delivery (dl_id x) k db"
  have "deliveries_ok ?db" using ok k(1) by (rule deliveries_ok_write)
  moreover have "k x \<in> set (nv_deliveries ?db)" using d by (auto simp: invoice_frame)
  moreover have "dl_invoiceId (k x) = dl_invoiceId x" "dl_channel (k x) = dl_channel x"
    using k(1) by (simp_all add: keeps_delivery_def)
  ultimately show ?thesis
    using new k(2) [of x] by (auto simp: deliveries_ok_def write_delivery_def)
qed

lemma not_accepted_yet:
  assumes ok: "deliveries_ok db" and d: "d \<in> set (nv_deliveries db)" and none: "dl_sentAt d = None"
  shows "(dl_invoiceId d, dl_channel d) \<notin> set (nv_documents db)"
proof
  assume "(dl_invoiceId d, dl_channel d) \<in> set (nv_documents db)"
  then obtain x where x: "x \<in> set (nv_deliveries db)" "dl_invoiceId x = dl_invoiceId d" "dl_channel x = dl_channel d"
    "dl_sentAt x \<noteq> None" using deliveries_okD [OF ok] by blast
  have "distinct (map (\<lambda>d. (dl_invoiceId d, dl_channel d)) (nv_deliveries db))"
    using ok by (simp add: deliveries_ok_def)
  from distinct_key_eq [OF this x(1) d] have "x = d" using x(2,3) by simp
  then show False using x(4) none by simp
qed

lemma attempted_ok:
  assumes ok: "deliveries_ok db0" and d: "d \<in> set (nv_deliveries db0)" and at: "attempted w now d db0 db'"
  shows "deliveries_ok db' \<and> dl_id ` set (nv_deliveries db') = dl_id ` set (nv_deliveries db0)"
proof -
  obtain f g where f: "keeps_delivery f" and g: "keeps_delivery g"
    and ds: "nv_deliveries db' = nv_deliveries (write_delivery (dl_id d) g (snd (send_document w now d (write_delivery (dl_id d) f db0))))"
    and docs: "nv_documents db' = nv_documents (snd (send_document w now d (write_delivery (dl_id d) f db0)))"
    using at unfolding attempted_def Let_def by blast
  let ?db2 = "write_delivery (dl_id d) f db0"
  let ?db3 = "snd (send_document w now d ?db2)"
  have ok2: "deliveries_ok ?db2" using ok f by (rule deliveries_ok_write)
  have fd: "dl_id (f d) = dl_id d" "dl_invoiceId (f d) = dl_invoiceId d" "dl_channel (f d) = dl_channel d"
    using f by (simp_all add: keeps_delivery_def)
  have "deliveries_ok ?db3 \<and> dl_id ` set (nv_deliveries ?db3) = dl_id ` set (nv_deliveries db0)"
  proof (cases rule: send_document_cases [of w now d ?db2])
    case (kept e)
    then show ?thesis using ok2 ids_write [OF f] by simp
  next
    case accepted
    let ?k = "\<lambda>x. x\<lparr>dl_sentAt := Some now, dl_nextAttemptAt := None, dl_lastError := None\<rparr>"
    have k: "keeps_delivery ?k" by (simp add: keeps_delivery_def)
    have "f d \<in> set (nv_deliveries ?db2)" using d by (auto simp: invoice_frame)
    moreover have "(dl_invoiceId (f d), dl_channel (f d)) \<notin> set (nv_documents ?db2)"
      using not_accepted_yet [OF ok d accepted(2)] fd by (simp add: invoice_frame)
    ultimately have "deliveries_ok ?db3"
      using deliveries_ok_accept [OF ok2 _ _ k, of "f d"] accepted(1) fd by simp
    then show ?thesis
      using accepted(1) ids_write [OF k, of "dl_id d" "?db2\<lparr>nv_documents := nv_documents ?db2 @ [(dl_invoiceId d, dl_channel d)]\<rparr>"]
        ids_write [OF f, of "dl_id d" db0] by simp
  qed
  moreover from this have "deliveries_ok (write_delivery (dl_id d) g ?db3)" using g deliveries_ok_write by blast
  ultimately show ?thesis
    using ds docs ids_write [OF g, of "dl_id d" ?db3] by (auto intro: deliveries_ok_same simp: invoice_frame)
qed

lemma deliverChannel_ok:
  assumes ok: "deliveries_ok db" and new: "wo_deliveryId w (dc_channel c) \<notin> dl_id ` set (nv_deliveries db)"
    and eq: "deliverChannel env w now i c db = (r, db')"
  shows "deliveries_ok db'"
    and "dl_id ` set (nv_deliveries db') \<subseteq> insert (wo_deliveryId w (dc_channel c)) (dl_id ` set (nv_deliveries db))"
proof -
  obtain d db0 where up: "upsert_delivery (wo_deliveryId w (dc_channel c)) i (dc_channel c) db = (d, db0)" by fastforce
  have ok0: "deliveries_ok db0" using ok new up by (rule deliveries_ok_upsert)
  note found = upsert_delivery_found [OF up]
  have "deliveries_ok db' \<and> dl_id ` set (nv_deliveries db') = dl_id ` set (nv_deliveries db0)"
  proof (cases rule: deliver_cases [OF up, where env = env and now = now])
    case (1 r)
    then show ?thesis using eq ok0 by simp
  next
    case (2 f)
    then show ?thesis using eq ok0 deliveries_ok_write ids_write by auto
  next
    case 3
    then show ?thesis using eq ok0 by (auto simp: invoice_frame intro: deliveries_ok_same)
  next
    case (4 cur v r db1)
    then show ?thesis using eq attempted_ok [OF ok0 found(1)] by simp
  qed
  then show "deliveries_ok db'"
    and "dl_id ` set (nv_deliveries db') \<subseteq> insert (wo_deliveryId w (dc_channel c)) (dl_id ` set (nv_deliveries db))"
    using found(7) by auto
qed

lemma deliver_all_ok:
  assumes "deliveries_ok db" and "distinct (map (wo_deliveryId w \<circ> dc_channel) cs)"
    and "\<forall>c \<in> set cs. wo_deliveryId w (dc_channel c) \<notin> dl_id ` set (nv_deliveries db)"
  shows "deliveries_ok (snd (deliver_all env w now i cs db))"
  using assms
proof (induction cs arbitrary: db)
  case Nil
  then show ?case by simp
next
  case (Cons c cs)
  obtain r db1 where eq: "deliverChannel env w now i c db = (r, db1)" by fastforce
  have ok1: "deliveries_ok db1"
    and ids: "dl_id ` set (nv_deliveries db1) \<subseteq> insert (wo_deliveryId w (dc_channel c)) (dl_id ` set (nv_deliveries db))"
    using deliverChannel_ok [OF Cons.prems(1) _ eq] Cons.prems(3) by simp_all
  have "\<forall>x \<in> set cs. wo_deliveryId w (dc_channel x) \<notin> dl_id ` set (nv_deliveries db1)"
  proof
    fix x
    assume x: "x \<in> set cs"
    have "(wo_deliveryId w \<circ> dc_channel) c \<notin> (wo_deliveryId w \<circ> dc_channel) ` set cs" using Cons.prems(2) by simp
    with x have "wo_deliveryId w (dc_channel x) \<noteq> wo_deliveryId w (dc_channel c)" by (metis comp_apply image_eqI)
    moreover have "wo_deliveryId w (dc_channel x) \<notin> dl_id ` set (nv_deliveries db)" using Cons.prems(3) x by simp
    ultimately show "wo_deliveryId w (dc_channel x) \<notin> dl_id ` set (nv_deliveries db1)" using ids by blast
  qed
  then have "deliveries_ok (snd (deliver_all env w now i cs db1))"
    using Cons.IH ok1 Cons.prems(2) by simp
  then show ?case
    using ok1 eq by (auto split: sum.split delivery_result.split prod.split)
qed

lemma delivery_channels_ids:
  "wo_deliveryId w TELEGRAM \<noteq> wo_deliveryId w MAX_BOT \<Longrightarrow> distinct (map (wo_deliveryId w \<circ> dc_channel) (delivery_channels m))"
  by (simp add: delivery_channels_def)

lemma deliver_invoice_ok:
  assumes ok: "deliveries_ok db" and fresh: "fresh_world w db"
  shows "deliveries_ok (snd (deliver_invoice env w now r user db))"
proof (cases user)
  case None
  then show ?thesis using ok by (simp add: deliver_invoice_def split: sum.split)
next
  case (Some m)
  obtain x db1 where eq: "deliver_all env w now (iv_id r) (delivery_channels m) db = (x, db1)" by fastforce
  have "\<forall>c \<in> set (delivery_channels m). wo_deliveryId w (dc_channel c) \<notin> dl_id ` set (nv_deliveries db)"
    using fresh by (auto simp: fresh_world_def delivery_channels_def)
  then have "deliveries_ok db1"
    using deliver_all_ok [OF ok delivery_channels_ids [of w m], of env now "iv_id r"] fresh eq
    by (simp add: fresh_world_def)
  then show ?thesis
    using ok Some eq
    by (auto simp: deliver_invoice_def Let_def ack_def invoice_frame intro: deliveries_ok_same split: sum.split)
qed

lemma validate_frame [invoice_frame]:
  "nv_deliveries (snd (validateCandidate v now i tok h db)) = nv_deliveries db"
  "nv_documents (snd (validateCandidate v now i tok h db)) = nv_documents db"
  by (cases rule: validate_cases [of v now i tok h db]; simp add: invoice_frame)+

lemma fresh_world_same: "fresh_world w db \<Longrightarrow> nv_deliveries db' = nv_deliveries db \<Longrightarrow> fresh_world w db'"
  by (simp add: fresh_world_def)

lemma deliver_or_store_ok:
  assumes ok: "deliveries_ok db" and fresh: "fresh_world w db"
  shows "deliveries_ok (snd (deliver_or_store env w now r ord user db))"
proof -
  have "deliveries_ok (snd (store_only w now r db))"
    using ok by (rule deliveries_ok_same) (simp_all add: invoice_frame)
  then show ?thesis
    using ok deliver_invoice_ok [OF ok fresh] by (simp add: deliver_or_store_def split: option.split)
qed

lemma ensurePdf_ok:
  assumes "deliveries_ok db" and "fresh_world w db" and "ensurePdf w now r db = (x, db1)"
  shows "deliveries_ok db1" "fresh_world w db1"
  using assms ensurePdf_frame [of w now r db] by (auto intro: deliveries_ok_same fresh_world_same)

lemma process_body_ok:
  assumes ok: "deliveries_ok db" and fresh: "fresh_world w db"
  shows "deliveries_ok (snd (process_body env w now r ord user db))"
proof -
  obtain x db1 where pdf: "ensurePdf w now r db = (x, db1)" by fastforce
  note ok1 = ensurePdf_ok [OF ok fresh pdf]
  have rest: "deliveries_ok (snd (deliver_or_store env w now r ord user db1))"
    using ok1 by (rule deliver_or_store_ok)
  have stale: "deliveries_ok (markSuperseded now i db)" for i
    using ok by (rule deliveries_ok_same) (simp_all add: invoice_frame)
  show ?thesis
    by (cases rule: validate_cases [of "wo_validateStored w" now "iv_id r" "iv_token r" "iv_businessHash r" db])
      (use ok ok1 rest stale pdf in \<open>auto simp: process_body_def Let_def split: sum.split\<close>)
qed

lemma processInvoice_ok:
  assumes ok: "deliveries_ok db" and fresh: "fresh_world w db"
  shows "deliveries_ok (processInvoice env w now i db)"
proof -
  let ?db1 = "snd (claim_invoice env now i db)"
  have ok1: "deliveries_ok ?db1"
    using ok by (rule deliveries_ok_same) (simp_all add: invoice_frame)
  have fresh1: "fresh_world w ?db1"
    using fresh by (rule fresh_world_same) (simp add: invoice_frame)
  have body: "deliveries_ok (snd (process_body env w now r ord user ?db1))" for r ord user
    using ok1 fresh1 by (rule process_body_ok)
  have failed: "deliveries_ok (fail_invoice env w now r e (snd (process_body env w now r ord user ?db1)))" for r e ord user
    using body [of r ord user] by (rule deliveries_ok_same) (simp_all add: invoice_frame)
  show ?thesis
    unfolding processInvoice_def split_beta Let_def
    using ok1 body failed by (auto split: option.split sum.split)
qed

lemma syncQueueItem_ok: "deliveries_ok db \<Longrightarrow> deliveries_ok (syncQueueItem env host now n imm item db)"
  by (erule deliveries_ok_same) (simp_all add: invoice_frame)

section \<open>Documents are accepted at most once\<close>

text \<open>The steps of the pipeline, in any order and with any answers of the outside world.\<close>

datatype invoice_event =
    SyncItem millis string bool queue_item
  | Process world millis string

fun invoice_step :: "settings \<Rightarrow> (string \<Rightarrow> millis option) \<Rightarrow> invoice_event \<Rightarrow> invoice_db \<Rightarrow> invoice_db" where
  "invoice_step env host (SyncItem now newId immediate item) db = syncQueueItem env host now newId immediate item db"
| "invoice_step env host (Process w now i) db = processInvoice env w now i db"

fun invoice_run :: "settings \<Rightarrow> (string \<Rightarrow> millis option) \<Rightarrow> invoice_event list \<Rightarrow> invoice_db \<Rightarrow> invoice_db" where
  "invoice_run env host [] db = db"
| "invoice_run env host (e # es) db = invoice_run env host es (invoice_step env host e db)"

fun fresh_event :: "invoice_event \<Rightarrow> invoice_db \<Rightarrow> bool" where
  "fresh_event (SyncItem now newId immediate item) db \<longleftrightarrow> newId \<notin> iv_id ` set (nv_invoices db)"
| "fresh_event (Process w now i) db \<longleftrightarrow> fresh_world w db"

fun fresh_events :: "settings \<Rightarrow> (string \<Rightarrow> millis option) \<Rightarrow> invoice_event list \<Rightarrow> invoice_db \<Rightarrow> bool" where
  "fresh_events env host [] db = True"
| "fresh_events env host (e # es) db = (fresh_event e db \<and> fresh_events env host es (invoice_step env host e db))"

lemma deliveries_ok_step: "deliveries_ok db \<Longrightarrow> fresh_event e db \<Longrightarrow> deliveries_ok (invoice_step env host e db)"
  by (cases e) (simp_all add: processInvoice_ok syncQueueItem_ok)

lemma deliveries_ok_run:
  "deliveries_ok db \<Longrightarrow> fresh_events env host es db \<Longrightarrow> deliveries_ok (invoice_run env host es db)"
  by (induction es arbitrary: db) (simp_all add: deliveries_ok_step)

text \<open>
  C4: in every sequence of queue synchronisations and processing runs, whatever 1C, the object store
  and the bots answer, a bot accepts the document of an invoice at most once; a retry after a failed
  message sends the message alone.
\<close>

theorem documents_once:
  assumes "nv_deliveries db = []" and "nv_documents db = []" and "fresh_events env host es db"
  shows "count_list (nv_documents (invoice_run env host es db)) (i, ch) \<le> 1"
proof -
  have "deliveries_ok db" using assms(1,2) by (simp add: deliveries_ok_def)
  then have "distinct (nv_documents (invoice_run env host es db))"
    using deliveries_ok_run assms(3) by (simp add: deliveries_ok_def)
  then show ?thesis by (rule distinct_count_list)
qed

definition demo_env :: settings where
  "demo_env = (\<lambda>_. None)"

definition demo_host :: "string \<Rightarrow> millis option" where
  "demo_host = (\<lambda>_. None)"

definition demo_item :: queue_item where
  "demo_item =
     \<lparr>qi_appOrderGuid = ''o1'', qi_realizationGuid = ''r1'', qi_realizationNumber = Some ''17'', qi_realizationDate = None,
      qi_paymentDueDate = None, qi_invoiceAmount = NO_AMOUNT, qi_currency = Some ''RUB'',
      qi_counterpartyName = None, qi_organizationName = None, qi_orderNumber = None, qi_state = O_READY,
      qi_waitReason = None, qi_businessHash = Some ''h1'', qi_version = 1, qi_token = ''t1'', qi_readyAt = None,
      qi_updatedAt = None\<rparr>"

definition demo_validation :: validation where
  "demo_validation = \<lparr>va_item = Some demo_item, va_body = None, va_data = None, va_self = demo_item\<rparr>"

definition demo_world :: world where
  "demo_world =
     \<lparr>wo_validateStored = Inr (Some demo_validation), wo_validateBefore = Inr (Some demo_validation),
      wo_pdf = Inr (''%PDF-1.4'', None), wo_validateAfter = Inr (Some demo_validation), wo_upload = Inr (),
      wo_download = Inr (), wo_validateChannel = (\<lambda>_. Inr (Some demo_validation)), wo_document = (\<lambda>_. Inr True),
      wo_message = (\<lambda>_. Inl ''timeout''), wo_ack = Inr (), wo_ackError = Inr (),
      wo_deliveryId = (\<lambda>ch. if ch = TELEGRAM then ''d1'' else ''d2''), wo_storagePrefix = ''invoices''\<rparr>"

definition demo_retry :: world where
  "demo_retry = demo_world\<lparr>wo_message := (\<lambda>_. Inr True), wo_deliveryId := (\<lambda>ch. if ch = TELEGRAM then ''d3'' else ''d4'')\<rparr>"

definition demo_columns :: order_columns where
  "demo_columns =
     \<lparr>oc_date1c = None, oc_source = ''MANAGER_APP'', oc_revision = 1, oc_syncState = ''SYNCED'', oc_status = ''CONFIRMED'',
      oc_counterpartyId = ''c1'', oc_organizationId = None, oc_comment = None, oc_deliveryDate = None, oc_paymentForm = None,
      oc_deliveryMethod = None, oc_totalAmount = None, oc_currency = ''RUB'', oc_sentTo1cAt = None, oc_lastStatusSyncAt = None,
      oc_isPostedIn1c = True, oc_hasRealization = True, oc_realizationDetectedAt = None, oc_sourceUpdatedAt = None,
      oc_lastSyncedAt = None\<rparr>"

definition demo_db :: invoice_db where
  "demo_db =
     \<lparr>nv_orders = [\<lparr>od_id = ''1'', od_guid = Some ''o1'', od_number1c = None, od_createdBy = Some 5, od_invoiceRequested = True,
        od_snapshot = \<lparr>sn_root = None, sn_item = None\<rparr>, od_columns = demo_columns\<rparr>],
      nv_invoices = [], nv_deliveries = [],
      nv_managers = [\<lparr>mg_id = 5, mg_telegramId = Some 77, mg_maxId = None, mg_settings = None\<rparr>],
      nv_documents = [], nv_notes = [], nv_acks = []\<rparr>"

definition demo_events :: "invoice_event list" where
  "demo_events = [SyncItem 0 ''i1'' False demo_item, Process demo_world 1000 ''i1'', Process demo_retry 100000 ''i1'']"

lemma demo_fresh: "fresh_events demo_env demo_host demo_events demo_db"
  by code_simp

lemma demo_sent:
  "nv_documents (invoice_run demo_env demo_host demo_events demo_db) = [(''i1'', TELEGRAM)]"
  "map iv_state (nv_invoices (invoice_run demo_env demo_host demo_events demo_db)) = [I_SENT]"
  by code_simp+

theorem documents_once_witness:
  "nv_documents (invoice_run demo_env demo_host demo_events demo_db) = [(''i1'', TELEGRAM)] \<and>
   map iv_state (nv_invoices (invoice_run demo_env demo_host demo_events demo_db)) = [I_SENT] \<and>
   count_list (nv_documents (invoice_run demo_env demo_host demo_events demo_db)) (''i1'', TELEGRAM) \<le> 1"
  using documents_once [OF _ _ demo_fresh, of "''i1''" TELEGRAM] demo_sent by (simp add: demo_db_def)

section \<open>Only confirmed candidates are delivered\<close>

text \<open>1C confirmed the token and the hash of the row, and the bot of the channel took the document.\<close>

definition confirmed_delivery :: "world \<Rightarrow> string \<Rightarrow> messenger \<Rightarrow> invoice_db \<Rightarrow> bool" where
  "confirmed_delivery w i ch db \<longleftrightarrow>
     (\<exists>cur v. find_invoice i db = Some cur \<and> wo_validateChannel w ch = Inr v \<and>
        sameCandidate (iv_token cur) (iv_businessHash cur) (unwrapValidation v)) \<and>
     wo_document w ch = Inr True"

lemma attempted_docs:
  assumes "attempted w now d db0 db'" and "x \<in> set (nv_documents db')"
  shows "x \<in> set (nv_documents db0) \<or> x = (dl_invoiceId d, dl_channel d) \<and> wo_document w (dl_channel d) = Inr True"
proof -
  obtain f where "nv_documents db' = nv_documents (snd (send_document w now d (write_delivery (dl_id d) f db0)))"
    using assms(1) unfolding attempted_def Let_def by blast
  with assms(2) show ?thesis
    by (cases rule: send_document_cases [of w now d "write_delivery (dl_id d) f db0"]) (auto simp: invoice_frame)
qed

lemma deliverChannel_docs:
  assumes eq: "deliverChannel env w now i c db = (r, db')"
  shows "x \<in> set (nv_documents db') \<Longrightarrow> x \<in> set (nv_documents db) \<or>
      x = (i, dc_channel c) \<and> eligible c \<and> confirmed_delivery w i (dc_channel c) db"
    and "r \<noteq> Inr R_SUPERSEDED \<Longrightarrow> nv_invoices db' = nv_invoices db"
    and "r = Inr R_SUPERSEDED \<Longrightarrow> nv_invoices db' = nv_invoices (markSuperseded now i db)"
proof -
  obtain d db0 where up: "upsert_delivery (wo_deliveryId w (dc_channel c)) i (dc_channel c) db = (d, db0)" by fastforce
  note found = upsert_delivery_found [OF up]
  have mark: "nv_invoices (markSuperseded now i db0) = nv_invoices (markSuperseded now i db)"
    using found(5) by (simp add: markSuperseded_def write_invoice_def)
  have none: "nv_invoices (markSuperseded now i db) = nv_invoices db" if "find_invoice i db = None"
    using that unfolding find_invoice_def markSuperseded_def write_invoice_def
    by (auto dest: find_NoneD intro: update_where_none)
  have find: "find_invoice i db0 = find_invoice i db" using found(5) by (simp add: find_invoice_def)
  have "(x \<in> set (nv_documents db') \<longrightarrow> x \<in> set (nv_documents db) \<or>
      x = (i, dc_channel c) \<and> eligible c \<and> confirmed_delivery w i (dc_channel c) db) \<and>
    (r \<noteq> Inr R_SUPERSEDED \<longrightarrow> nv_invoices db' = nv_invoices db) \<and>
    (r = Inr R_SUPERSEDED \<longrightarrow> nv_invoices db' = nv_invoices (markSuperseded now i db))" for x
  proof (cases rule: deliver_cases [OF up, where env = env and now = now])
    case (1 r')
    then show ?thesis using eq found(4,5) find none by simp
  next
    case (2 f)
    then show ?thesis using eq found(4,5) by (simp add: invoice_frame)
  next
    case 3
    then show ?thesis using eq found(4) mark by (simp add: invoice_frame)
  next
    case (4 cur v r' db1)
    then have "nv_invoices db1 = nv_invoices db0" by (auto simp: attempted_def Let_def)
    moreover have "x \<in> set (nv_documents db1) \<Longrightarrow> x \<in> set (nv_documents db) \<or>
        x = (i, dc_channel c) \<and> wo_document w (dc_channel c) = Inr True"
      using attempted_docs [OF 4(7)] found(2-4) by auto
    ultimately show ?thesis
      using eq 4 found(5) find by (auto simp: confirmed_delivery_def)
  qed
  then show "x \<in> set (nv_documents db') \<Longrightarrow> x \<in> set (nv_documents db) \<or>
      x = (i, dc_channel c) \<and> eligible c \<and> confirmed_delivery w i (dc_channel c) db"
    and "r \<noteq> Inr R_SUPERSEDED \<Longrightarrow> nv_invoices db' = nv_invoices db"
    and "r = Inr R_SUPERSEDED \<Longrightarrow> nv_invoices db' = nv_invoices (markSuperseded now i db)"
    by blast+
qed

lemma confirmed_delivery_same:
  "nv_invoices db' = nv_invoices db \<Longrightarrow> confirmed_delivery w i ch db' = confirmed_delivery w i ch db"
  by (simp add: confirmed_delivery_def find_invoice_def)

lemma deliver_all_docs:
  "x \<in> set (nv_documents (snd (deliver_all env w now i cs db))) \<Longrightarrow>
   x \<in> set (nv_documents db) \<or>
   (\<exists>c \<in> set cs. x = (i, dc_channel c) \<and> eligible c \<and> confirmed_delivery w i (dc_channel c) db)"
proof (induction cs arbitrary: db)
  case Nil
  then show ?case by simp
next
  case (Cons c cs)
  obtain r db1 where eq: "deliverChannel env w now i c db = (r, db1)" by fastforce
  note docs = deliverChannel_docs [OF eq]
  show ?case
  proof (cases "x \<in> set (nv_documents db1)")
    case True
    then show ?thesis using docs(1) [OF True] by auto
  next
    case False
    then have "x \<in> set (nv_documents (snd (deliver_all env w now i cs db1)))" and "r \<noteq> Inr R_SUPERSEDED"
      using Cons.prems eq by (auto split: sum.splits delivery_result.splits prod.splits)
    then show ?thesis
      using Cons.IH [of db1] False confirmed_delivery_same [OF docs(2)] by auto
  qed
qed

lemma deliver_or_store_docs:
  assumes "x \<in> set (nv_documents (snd (deliver_or_store env w now r ord user db)))"
  shows "x \<in> set (nv_documents db) \<or>
    od_invoiceRequested ord \<and> (\<exists>m c. user = Some m \<and> c \<in> set (delivery_channels m) \<and> x = (iv_id r, dc_channel c) \<and>
      eligible c \<and> confirmed_delivery w (iv_id r) (dc_channel c) db)"
proof -
  have "x \<in> set (nv_documents db) \<or> od_invoiceRequested ord \<and> x \<in> set (nv_documents (snd (deliver_invoice env w now r user db)))"
    using assms by (auto simp: deliver_or_store_def invoice_frame split: option.splits if_splits)
  moreover have "x \<in> set (nv_documents db) \<or>
      (\<exists>m. user = Some m \<and> x \<in> set (nv_documents (snd (deliver_all env w now (iv_id r) (delivery_channels m) db))))"
    if "x \<in> set (nv_documents (snd (deliver_invoice env w now r user db)))"
    using that
    by (auto simp: deliver_invoice_def Let_def ack_def invoice_frame split: sum.splits option.splits prod.splits if_splits)
  ultimately show ?thesis using deliver_all_docs by blast
qed

text \<open>The columns that identify a candidate to 1C never change while a run works on it.\<close>

definition candidate_cols :: "invoice \<Rightarrow> string \<times> string \<times> string option \<times> string \<times> string" where
  "candidate_cols r = (iv_id r, iv_token r, iv_businessHash r, iv_orderId r, iv_realizationGuid r)"

lemma confirmed_delivery_cols:
  assumes "map candidate_cols (nv_invoices db') = map candidate_cols (nv_invoices db)"
  shows "confirmed_delivery w i ch db' = confirmed_delivery w i ch db"
proof -
  have cols: "map_option candidate_cols (find_invoice i x) =
      List.find (\<lambda>c. fst c = i) (map candidate_cols (nv_invoices x))" for x
    unfolding find_invoice_def find_map by (simp add: candidate_cols_def)
  have eq: "(\<exists>cur. find_invoice i x = Some cur \<and> P (iv_token cur) (iv_businessHash cur)) \<longleftrightarrow>
      (\<exists>c. map_option candidate_cols (find_invoice i x) = Some c \<and> P (fst (snd c)) (fst (snd (snd c))))" for P x
    by (cases "find_invoice i x") (simp_all add: candidate_cols_def)
  have "(\<exists>cur. find_invoice i db' = Some cur \<and> P (iv_token cur) (iv_businessHash cur)) \<longleftrightarrow>
      (\<exists>cur. find_invoice i db = Some cur \<and> P (iv_token cur) (iv_businessHash cur))" for P
    unfolding eq cols assms ..
  from this [of "\<lambda>tok h. \<exists>v. wo_validateChannel w ch = Inr v \<and> sameCandidate tok h (unwrapValidation v)"]
  show ?thesis unfolding confirmed_delivery_def by blast
qed

lemma write_invoice_cols:
  "(\<And>r. candidate_cols (f r) = candidate_cols r) \<Longrightarrow>
   map candidate_cols (nv_invoices (write_invoice i f db)) = map candidate_cols (nv_invoices db)"
  by (simp add: write_invoice_def update_where_key)

lemma ensurePdf_cols: "map candidate_cols (nv_invoices (snd (ensurePdf w now r db))) = map candidate_cols (nv_invoices db)"
  unfolding ensurePdf_def validateCandidate_def markSuperseded_def
  by (auto simp: write_invoice_cols candidate_cols_def supersede_def split: sum.splits prod.splits bool.splits)

lemma claim_cols: "map candidate_cols (nv_invoices (snd (claim_invoice env now i db))) = map candidate_cols (nv_invoices db)"
  by (simp add: claim_invoice_def Let_def update_where_key candidate_cols_def)

lemma process_body_docs:
  assumes "x \<in> set (nv_documents (snd (process_body env w now r ord user db)))"
  shows "x \<in> set (nv_documents db) \<or>
    od_invoiceRequested ord \<and> (\<exists>m c. user = Some m \<and> c \<in> set (delivery_channels m) \<and> x = (iv_id r, dc_channel c) \<and>
      eligible c \<and> confirmed_delivery w (iv_id r) (dc_channel c) db)"
proof -
  obtain y db1 where pdf: "ensurePdf w now r db = (y, db1)" by fastforce
  have same: "nv_documents db1 = nv_documents db" using ensurePdf_frame(2) [of w now r db] pdf by simp
  have "confirmed_delivery w i ch db1 = confirmed_delivery w i ch db" for i ch
    using confirmed_delivery_cols [of db1 db] ensurePdf_cols [of w now r db] pdf by simp
  moreover have "x \<in> set (nv_documents db) \<or> x \<in> set (nv_documents (snd (deliver_or_store env w now r ord user db1)))"
    by (cases rule: validate_cases [of "wo_validateStored w" now "iv_id r" "iv_token r" "iv_businessHash r" db])
      (use assms pdf same in \<open>auto simp: process_body_def Let_def invoice_frame split: sum.splits if_splits\<close>)
  ultimately show ?thesis using deliver_or_store_docs same by metis
qed

lemma claimed_row:
  assumes "distinct (map iv_id (nv_invoices db))" and "fst (claim_invoice env now i db)"
    and "find_invoice i (snd (claim_invoice env now i db)) = Some r"
  obtains r0 where "r0 \<in> set (nv_invoices db)" "iv_id r0 = i" "iv_state r0 \<in> set PROCESSABLE_STATES" "\<not> lease_live now r0"
    "r = r0\<lparr>iv_state := I_SENDING, iv_leaseUntil := Some (now + leaseMs env), iv_attempts := iv_attempts r0 + 1,
           iv_lastError := None, iv_updatedAt := now\<rparr>"
proof -
  let ?hit = "\<lambda>r. iv_id r = i \<and> iv_state r \<in> set PROCESSABLE_STATES \<and> \<not> lease_live now r"
  from assms(2) obtain r0 where r0: "r0 \<in> set (nv_invoices db)" "?hit r0"
    by (auto simp: claim_invoice_def Let_def count_where_pos)
  have r: "r \<in> set (nv_invoices (snd (claim_invoice env now i db)))" "iv_id r = i"
    using assms(3) by (auto simp: find_invoice_def dest: find_SomeD)
  from r(1) have "r \<in> set (update_where ?hit (\<lambda>r. r\<lparr>iv_state := I_SENDING, iv_leaseUntil := Some (now + leaseMs env),
      iv_attempts := iv_attempts r + 1, iv_lastError := None, iv_updatedAt := now\<rparr>) (nv_invoices db))"
    by (simp add: claim_invoice_def Let_def)
  then show thesis
  proof (cases rule: update_whereE)
    case kept
    then have "r = r0" using distinct_key_eq [OF assms(1), of r r0] r0 r(2) by simp
    then show thesis using kept(2) r0 by simp
  next
    case (hit r1)
    then have "r1 = r0" using distinct_key_eq [OF assms(1), of r1 r0] r0 by simp
    then show thesis using that r0 hit by simp
  qed
qed

lemma invoice_delivery_sound_parts:
  assumes ids: "distinct (map iv_id (nv_invoices db))"
    and new: "(j, ch) \<in> set (nv_documents (processInvoice env w now i db))" "(j, ch) \<notin> set (nv_documents db)"
  shows "j = i"
    and "\<exists>r \<in> set (nv_invoices db). iv_id r = i \<and> iv_state r \<in> set PROCESSABLE_STATES \<and> \<not> lease_live now r \<and>
      (\<exists>ord \<in> set (nv_orders db). od_id ord = iv_orderId r \<and> od_invoiceRequested ord \<and>
        (\<exists>m \<in> set (nv_managers db). od_createdBy ord = Some (mg_id m) \<and>
          (\<exists>c \<in> set (delivery_channels m). dc_channel c = ch \<and> eligible c))) \<and>
      (\<exists>v. wo_validateChannel w ch = Inr v \<and> sameCandidate (iv_token r) (iv_businessHash r) (unwrapValidation v))"
proof -
  obtain b db1 where cl: "claim_invoice env now i db = (b, db1)" by fastforce
  have frame: "nv_documents db1 = nv_documents db" "nv_orders db1 = nv_orders db" "nv_managers db1 = nv_managers db"
    using claim_invoice_frame [of env now i db] cl by simp_all
  have conf: "confirmed_delivery w i ch db1 = confirmed_delivery w i ch db"
    using confirmed_delivery_cols [of db1 db] claim_cols [of env now i db] cl by simp
  have b: b using new cl frame by (cases b) (auto simp: processInvoice_def)
  obtain r where r: "find_invoice i db1 = Some r"
    using new cl frame b by (cases "find_invoice i db1") (auto simp: processInvoice_def)
  obtain ord where ord: "List.find (\<lambda>o'. od_id o' = iv_orderId r) (nv_orders db1) = Some ord"
    using new cl frame b r
    by (cases "List.find (\<lambda>o'. od_id o' = iv_orderId r) (nv_orders db1)") (auto simp: processInvoice_def)
  define user where "user = (case od_createdBy ord of None \<Rightarrow> None | Some u \<Rightarrow> List.find (\<lambda>m. mg_id m = u) (nv_managers db1))"
  have "(j, ch) \<in> set (nv_documents (snd (process_body env w now r ord user db1)))"
    using new(1) cl b r ord by (auto simp: processInvoice_def user_def invoice_frame split: sum.splits prod.splits)
  then obtain m c where m: "od_invoiceRequested ord" "user = Some m" "c \<in> set (delivery_channels m)"
    "(j, ch) = (iv_id r, dc_channel c)" "eligible c" "confirmed_delivery w (iv_id r) (dc_channel c) db1"
    using process_body_docs [of "(j, ch)" env w now r ord user db1] new(2) frame(1) by auto
  have "fst (claim_invoice env now i db)" "find_invoice i (snd (claim_invoice env now i db)) = Some r"
    using cl b r by simp_all
  from claimed_row [OF ids this] obtain r0 where r0: "r0 \<in> set (nv_invoices db)" "iv_id r0 = i"
    "iv_state r0 \<in> set PROCESSABLE_STATES" "\<not> lease_live now r0" "iv_id r = i" "iv_orderId r = iv_orderId r0"
    by (metis invoice.select_convs invoice.surjective invoice.update_convs)
  show "j = i" using m(4) r0(5) by simp
  have "find_invoice i db = Some r0"
    unfolding find_invoice_def using ids r0(1,2) by (rule find_by_key)
  then have "\<exists>v. wo_validateChannel w ch = Inr v \<and> sameCandidate (iv_token r0) (iv_businessHash r0) (unwrapValidation v)"
    using m(4,6) r0(5) conf by (auto simp: confirmed_delivery_def)
  moreover have "m \<in> set (nv_managers db)" "od_createdBy ord = Some (mg_id m)"
    using m(2) frame(3) by (auto simp: user_def dest: find_SomeD split: option.splits)
  moreover have "ord \<in> set (nv_orders db)" "od_id ord = iv_orderId r0"
    using find_SomeD [OF ord] frame(2) r0(6) by auto
  ultimately show "\<exists>r \<in> set (nv_invoices db). iv_id r = i \<and> iv_state r \<in> set PROCESSABLE_STATES \<and> \<not> lease_live now r \<and>
      (\<exists>ord \<in> set (nv_orders db). od_id ord = iv_orderId r \<and> od_invoiceRequested ord \<and>
        (\<exists>m \<in> set (nv_managers db). od_createdBy ord = Some (mg_id m) \<and>
          (\<exists>c \<in> set (delivery_channels m). dc_channel c = ch \<and> eligible c))) \<and>
      (\<exists>v. wo_validateChannel w ch = Inr v \<and> sameCandidate (iv_token r) (iv_businessHash r) (unwrapValidation v))"
    using r0 m by blast
qed

text \<open>
  C13: a run hands a document to a bot only for the invoice it was started for, which was ready to
  process and not leased to another run, whose order asks for the invoice, over a channel that the
  order's manager has linked and not switched off, and after 1C confirmed the token and the business
  hash stored in the row.
\<close>

theorem invoice_delivery_sound:
  assumes "distinct (map iv_id (nv_invoices db))"
    and "(j, ch) \<in> set (nv_documents (processInvoice env w now i db))" and "(j, ch) \<notin> set (nv_documents db)"
  shows "j = i \<and> (\<exists>r \<in> set (nv_invoices db). iv_id r = i \<and> iv_state r \<in> set PROCESSABLE_STATES \<and> \<not> lease_live now r \<and>
      (\<exists>ord \<in> set (nv_orders db). od_id ord = iv_orderId r \<and> od_invoiceRequested ord \<and>
        (\<exists>m \<in> set (nv_managers db). od_createdBy ord = Some (mg_id m) \<and>
          (\<exists>c \<in> set (delivery_channels m). dc_channel c = ch \<and> eligible c))) \<and>
      (\<exists>v. wo_validateChannel w ch = Inr v \<and> sameCandidate (iv_token r) (iv_businessHash r) (unwrapValidation v)))"
  using invoice_delivery_sound_parts [OF assms] by blast


definition demo_queued :: invoice_db where
  "demo_queued = syncQueueItem demo_env demo_host 0 ''i1'' False demo_item demo_db"

lemma demo_delivers:
  "nv_documents (processInvoice demo_env demo_world 1000 ''i1'' demo_queued) = [(''i1'', TELEGRAM)]"
  "distinct (map iv_id (nv_invoices demo_queued))" "nv_documents demo_queued = []"
  by code_simp+

theorem invoice_delivery_sound_witness:
  "(''i1'', TELEGRAM) \<in> set (nv_documents (processInvoice demo_env demo_world 1000 ''i1'' demo_queued)) \<and>
   (\<exists>r \<in> set (nv_invoices demo_queued). iv_id r = ''i1'' \<and> \<not> lease_live 1000 r)"
  using invoice_delivery_sound [OF demo_delivers(2), of "''i1''" TELEGRAM demo_env demo_world 1000 "''i1''"] demo_delivers
  by auto

section \<open>Every run gives its lease back\<close>

text \<open>No call fails with the text that the worker uses for itself.\<close>

definition plain_errors :: "world \<Rightarrow> bool" where
  "plain_errors w \<longleftrightarrow>
     wo_validateStored w \<noteq> Inl ''INVOICE_SUPERSEDED'' \<and> wo_validateBefore w \<noteq> Inl ''INVOICE_SUPERSEDED'' \<and>
     wo_pdf w \<noteq> Inl ''INVOICE_SUPERSEDED'' \<and> wo_validateAfter w \<noteq> Inl ''INVOICE_SUPERSEDED'' \<and>
     wo_upload w \<noteq> Inl ''INVOICE_SUPERSEDED'' \<and> wo_download w \<noteq> Inl ''INVOICE_SUPERSEDED'' \<and>
     wo_validateChannel w TELEGRAM \<noteq> Inl ''INVOICE_SUPERSEDED'' \<and> wo_validateChannel w MAX_BOT \<noteq> Inl ''INVOICE_SUPERSEDED'' \<and>
     wo_ack w \<noteq> Inl ''INVOICE_SUPERSEDED''"

definition settled :: "millis \<Rightarrow> invoice \<Rightarrow> bool" where
  "settled now r \<longleftrightarrow> iv_leaseUntil r = None \<and>
     (iv_state r \<in> {I_AVAILABLE, I_SENT, I_SUPERSEDED} \<or>
      iv_state r \<in> {I_PARTIAL, I_ERROR} \<and> (\<exists>t. iv_nextAttemptAt r = Some t \<and> now + 1000 \<le> t))"

definition all_settled :: "millis \<Rightarrow> string \<Rightarrow> invoice_db \<Rightarrow> bool" where
  "all_settled now i db \<longleftrightarrow> (\<forall>r \<in> set (nv_invoices db). iv_id r = i \<longrightarrow> settled now r)"

text \<open>During a run the row is either still leased to it or superseded without a lease.\<close>

definition in_run :: "string \<Rightarrow> invoice_db \<Rightarrow> bool" where
  "in_run i db \<longleftrightarrow> (\<forall>r \<in> set (nv_invoices db). iv_id r = i \<longrightarrow> iv_state r = I_SUPERSEDED \<longrightarrow> iv_leaseUntil r = None)"

lemma backoff_ge: "1000 \<le> backoffMs env n"
proof -
  let ?base = "envInt env ''CLIENT_ORDER_INVOICE_BACKOFF_BASE_MS'' 15000 1000"
  let ?mx = "envInt env ''CLIENT_ORDER_INVOICE_BACKOFF_MAX_MS'' 900000 ?base"
  have b: "1000 \<le> ?base" by (rule envInt_ge) simp
  have m: "1000 \<le> ?mx"
    using b js_trunc_ge [of ?base] by (auto simp: envInt_def [of env "''CLIENT_ORDER_INVOICE_BACKOFF_MAX_MS''"] split: option.splits intro: order_trans)
  have "?base * 1 \<le> ?base * 2 ^ nat (max 0 (n - 1))" by (rule mult_left_mono) (use b in simp_all)
  then have "1000 \<le> ?base * 2 ^ nat (max 0 (n - 1))" using b by linarith
  then show ?thesis using m unfolding backoffMs_def Let_def by (rule min.boundedI [rotated])
qed

lemma all_settled_write:
  "(\<And>r. iv_id (f r) = iv_id r \<and> settled now (f r)) \<Longrightarrow> all_settled now i (write_invoice i f db)"
  unfolding all_settled_def write_invoice_def by (auto elim!: update_whereE)

lemma all_settled_mark: "all_settled now i (markSuperseded now i db)"
  unfolding markSuperseded_def by (rule all_settled_write) (simp add: supersede_def settled_def)

lemma final_state_cases: "final_state cs rs \<in> {I_SENT, I_PARTIAL, I_ERROR}"
  by (simp add: final_state_def Let_def)

lemma all_settled_finish: "all_settled now (iv_id r) (finish_invoice env now r cs rs db)"
  unfolding finish_invoice_def Let_def
proof (rule all_settled_write)
  show "iv_id (x\<lparr>iv_state := final_state cs rs, iv_waitReason := final_error cs rs, iv_lastError := final_error cs rs,
        iv_sentAt := (if final_state cs rs = I_SENT then Some now else None), iv_leaseUntil := None,
        iv_nextAttemptAt := (if final_state cs rs = I_SENT then None else Some (now + backoffMs env (iv_attempts r + 1))),
        iv_updatedAt := now\<rparr>) = iv_id x \<and>
      settled now (x\<lparr>iv_state := final_state cs rs, iv_waitReason := final_error cs rs, iv_lastError := final_error cs rs,
        iv_sentAt := (if final_state cs rs = I_SENT then Some now else None), iv_leaseUntil := None,
        iv_nextAttemptAt := (if final_state cs rs = I_SENT then None else Some (now + backoffMs env (iv_attempts r + 1))),
        iv_updatedAt := now\<rparr>)" for x
    using final_state_cases [of cs rs] backoff_ge [of env "iv_attempts r + 1"] by (auto simp: settled_def)
qed

lemma in_run_mono:
  assumes "in_run i db" and "\<forall>r' \<in> set (nv_invoices db'). \<exists>r \<in> set (nv_invoices db).
      iv_id r' = iv_id r \<and> iv_state r' = iv_state r \<and> iv_leaseUntil r' = iv_leaseUntil r"
  shows "in_run i db'"
  using assms unfolding in_run_def by metis

lemma in_run_same: "in_run i db \<Longrightarrow> nv_invoices db' = nv_invoices db \<Longrightarrow> in_run i db'"
  by (simp add: in_run_def)

lemma all_settled_in_run: "all_settled now i db \<Longrightarrow> in_run i db"
  by (auto simp: all_settled_def in_run_def settled_def)

text \<open>A failed run is settled, unless the fault is the worker's own.\<close>

lemma fail_settles:
  assumes run: "in_run (iv_id r) db" and e: "e \<noteq> INVOICE_SUPERSEDED" "e \<noteq> EXTERNAL ''INVOICE_SUPERSEDED''"
  shows "all_settled now (iv_id r) (fail_invoice env w now r e db)"
  unfolding all_settled_def
proof (intro ballI impI)
  fix x
  assume x: "x \<in> set (nv_invoices (fail_invoice env w now r e db))" and i: "iv_id x = iv_id r"
  from x e have "x \<in> set (update_where (\<lambda>x. iv_id x = iv_id r \<and> iv_state x \<noteq> I_SUPERSEDED)
      (\<lambda>x. x\<lparr>iv_state := I_ERROR, iv_lastError := Some (FAULT e), iv_leaseUntil := None,
             iv_nextAttemptAt := Some (now + backoffMs env (iv_attempts r + 1)), iv_updatedAt := now\<rparr>) (nv_invoices db))"
    by (simp add: fail_invoice_def invoice_frame)
  then show "settled now x"
  proof (cases rule: update_whereE)
    case kept
    then show ?thesis using run i by (auto simp: in_run_def settled_def)
  next
    case (hit x0)
    then show ?thesis using backoff_ge [of env "iv_attempts r + 1"] by (simp add: settled_def)
  qed
qed

text \<open>
  \<open>ends_run\<close>: what a phase leaves behind.  A result means the rows are settled; a fault means the
  run can still fail properly, and the worker's own fault that they are settled already.
\<close>

definition own_fault :: "fault \<Rightarrow> bool" where
  "own_fault e \<longleftrightarrow> e = INVOICE_SUPERSEDED \<or> e = EXTERNAL ''INVOICE_SUPERSEDED''"

definition ends_run :: "millis \<Rightarrow> string \<Rightarrow> (fault + run_result) \<times> invoice_db \<Rightarrow> bool" where
  "ends_run now i out \<longleftrightarrow>
     (case fst out of
        Inr _ \<Rightarrow> all_settled now i (snd out)
      | Inl e \<Rightarrow> in_run i (snd out) \<and> (own_fault e \<longrightarrow> all_settled now i (snd out)))"

lemma ends_ack:
  assumes "all_settled now i db" and "a \<noteq> Inl ''INVOICE_SUPERSEDED''"
  shows "ends_run now i (case ack a tok st db of (Inl e, db2) \<Rightarrow> (Inl e, db2) | (Inr _, db2) \<Rightarrow> (Inr res, db2))"
  using assms all_settled_in_run [OF assms(1)]
  by (cases a) (auto simp: ends_run_def ack_def all_settled_def in_run_def)

lemma store_only_ends:
  assumes "plain_errors w"
  shows "ends_run now (iv_id r) (store_only w now r db)"
proof -
  have "all_settled now (iv_id r) (write_invoice (iv_id r)
      (\<lambda>x. x\<lparr>iv_state := I_AVAILABLE, iv_waitReason := None, iv_lastError := None, iv_leaseUntil := None,
             iv_nextAttemptAt := None, iv_updatedAt := now\<rparr>) db)"
    by (rule all_settled_write) (simp add: settled_def)
  then show ?thesis
    unfolding store_only_def Let_def by (rule ends_ack) (use assms in \<open>simp add: plain_errors_def\<close>)
qed

text \<open>The loop over the channels: the invoice table is untouched unless it was found superseded.\<close>

lemma deliver_all_rows:
  assumes "deliver_all env w now i cs db = (out, db')"
    and "\<forall>c \<in> set cs. wo_validateChannel w (dc_channel c) \<noteq> Inl ''INVOICE_SUPERSEDED''"
  shows "(\<forall>e. out = Inl e \<longrightarrow> nv_invoices db' = nv_invoices db \<and> \<not> own_fault e) \<and>
    (\<forall>rs. out = Inr rs \<longrightarrow> (if R_SUPERSEDED \<in> set rs then nv_invoices db' = nv_invoices (markSuperseded now i db)
                          else nv_invoices db' = nv_invoices db))"
  using assms
proof (induction cs arbitrary: db db' out)
  case Nil
  then show ?case by auto
next
  case (Cons c cs)
  obtain r db1 where eq: "deliverChannel env w now i c db = (r, db1)" by fastforce
  note rows = deliverChannel_docs(2,3) [OF eq]
  have fault: "\<not> own_fault e" if "r = Inl e" for e
  proof -
    obtain d db0 where up: "upsert_delivery (wo_deliveryId w (dc_channel c)) i (dc_channel c) db = (d, db0)" by fastforce
    show ?thesis
      by (cases rule: deliver_cases [OF up, where env = env and now = now])
        (use eq that Cons.prems(2) in \<open>auto simp: own_fault_def\<close>)
  qed
  obtain out2 db2 where rest: "deliver_all env w now i cs db1 = (out2, db2)" by fastforce
  have mark: "nv_invoices (markSuperseded now i db1) = nv_invoices (markSuperseded now i db)"
    if "nv_invoices db1 = nv_invoices db" using that by (simp add: markSuperseded_def write_invoice_def)
  show ?case
  proof (cases r)
    case (Inl e)
    then show ?thesis using Cons.prems(1) eq rows fault by auto
  next
    case (Inr x)
    show ?thesis
    proof (cases "x = R_SUPERSEDED")
      case True
      then show ?thesis using Inr Cons.prems(1) eq rows by auto
    next
      case False
      then have same: "nv_invoices db1 = nv_invoices db" using Inr rows(1) by simp
      have "(out, db') = (case out2 of Inl e \<Rightarrow> (Inl e, db2) | Inr rs \<Rightarrow> (Inr (x # rs), db2))"
        using Cons.prems(1) eq rest Inr False by (cases x) (auto split: sum.splits)
      then show ?thesis
        using Cons.IH [OF rest] Cons.prems(2) same mark [OF same] False by (cases out2) auto
    qed
  qed
qed

lemma deliver_invoice_ends:
  assumes run: "in_run (iv_id r) db" and plain: "plain_errors w"
  shows "ends_run now (iv_id r) (deliver_invoice env w now r user db)"
proof (cases "wo_download w")
  case (Inl e)
  then have "e \<noteq> ''INVOICE_SUPERSEDED''" using plain by (auto simp: plain_errors_def)
  then show ?thesis using Inl run by (simp add: deliver_invoice_def ends_run_def own_fault_def)
next
  case down: (Inr u)
  show ?thesis
  proof (cases user)
    case None
    then show ?thesis using down run by (simp add: deliver_invoice_def ends_run_def own_fault_def)
  next
    case (Some m)
    obtain out db1 where all: "deliver_all env w now (iv_id r) (delivery_channels m) db = (out, db1)" by fastforce
    have "\<forall>c \<in> set (delivery_channels m). wo_validateChannel w (dc_channel c) \<noteq> Inl ''INVOICE_SUPERSEDED''"
      using plain by (simp add: delivery_channels_def plain_errors_def)
    note rows = deliver_all_rows [OF all this]
    show ?thesis
    proof (cases out)
      case (Inl e)
      then show ?thesis
        using rows run down Some all by (auto simp: deliver_invoice_def ends_run_def intro: in_run_same)
    next
      case (Inr rs)
      show ?thesis
      proof (cases "R_SUPERSEDED \<in> set rs")
        case True
        then have "all_settled now (iv_id r) db1"
          using rows Inr all_settled_mark [of now "iv_id r" db] by (simp add: all_settled_def)
        then show ?thesis using True Inr down Some all by (simp add: deliver_invoice_def ends_run_def)
      next
        case False
        have ends: "ends_run now (iv_id r)
            (case ack (wo_ack w) (iv_token r) (ack_of (final_state (delivery_channels m) rs))
               (finish_invoice env now r (delivery_channels m) rs db1) of
             (Inl e, db2) \<Rightarrow> (Inl e, db2)
           | (Inr _, db2) \<Rightarrow> (Inr (RUN_DELIVERED (final_state (delivery_channels m) rs)), db2))"
          by (rule ends_ack [OF all_settled_finish]) (use plain in \<open>simp add: plain_errors_def\<close>)
        then show ?thesis using False Inr down Some all by (simp add: deliver_invoice_def Let_def)
      qed
    qed
  qed
qed

lemma deliver_or_store_ends:
  assumes "in_run (iv_id r) db" and "plain_errors w"
  shows "ends_run now (iv_id r) (deliver_or_store env w now r ord user db)"
proof -
  have "ends_run now (iv_id r) (Inl PDF_NOT_PERSISTED, db)"
    using assms(1) by (simp add: ends_run_def own_fault_def)
  then show ?thesis
    using store_only_ends [OF assms(2)] deliver_invoice_ends [OF assms]
    by (auto simp: deliver_or_store_def split: option.split)
qed

lemma in_run_pdf_write:
  assumes "in_run i db"
  shows "in_run i (write_invoice j (\<lambda>x. x\<lparr>iv_s3Key := a, iv_fileName := b, iv_contentType := c, iv_fileSize := d, iv_updatedAt := e\<rparr>) db)"
  using assms by (rule in_run_mono) (auto simp: write_invoice_def elim!: update_whereE)

text \<open>Fetching the document: a fault of the worker's own comes with a superseded row.\<close>

lemma ensurePdf_ends:
  assumes run: "in_run (iv_id r) db" and plain: "plain_errors w"
    and eq: "ensurePdf w now r db = (out, db1)"
  shows "in_run (iv_id r) db1 \<and> (\<forall>e. out = Inl e \<longrightarrow> own_fault e \<longrightarrow> all_settled now (iv_id r) db1)"
proof (cases "truthy (iv_s3Key r)")
  case True
  then show ?thesis using run eq by (auto simp: ensurePdf_def)
next
  case False
  have mark: "all_settled now (iv_id r) (markSuperseded now (iv_id r) db)" by (rule all_settled_mark)
  have plains: "own_fault (EXTERNAL e) \<longleftrightarrow> e = ''INVOICE_SUPERSEDED''" "\<not> own_fault INVALID_PDF" for e
    by (simp_all add: own_fault_def)
  note unf = ensurePdf_def False
  show ?thesis
  proof (cases rule: validate_cases [of "wo_validateBefore w" now "iv_id r" "iv_token r" "iv_businessHash r" db])
    case (thrown e)
    then show ?thesis using eq run plain by (auto simp: unf plains plain_errors_def)
  next
    case (stale v)
    then show ?thesis using eq mark all_settled_in_run [OF mark] by (auto simp: unf)
  next
    case (confirmed v)
    show ?thesis
    proof (cases rule: validate_cases [of "wo_validateAfter w" now "iv_id r" "iv_token r" "iv_businessHash r" db])
      case (thrown e)
      then show ?thesis
        using eq run plain confirmed(1) by (auto simp: unf plains plain_errors_def split: sum.splits prod.splits if_splits)
    next
      case (stale v')
      then show ?thesis
        using eq run plain confirmed(1) mark all_settled_in_run [OF mark]
        by (auto simp: unf plains plain_errors_def split: sum.splits prod.splits if_splits)
    next
      case conf2: (confirmed v')
      then show ?thesis
        using eq run plain confirmed(1) in_run_pdf_write [OF run]
        by (auto simp: unf plains plain_errors_def split: sum.splits prod.splits if_splits)
    qed
  qed
qed

lemma process_body_ends:
  assumes run: "in_run (iv_id r) db" and plain: "plain_errors w"
  shows "ends_run now (iv_id r) (process_body env w now r ord user db)"
proof -
  obtain out db1 where pdf: "ensurePdf w now r db = (out, db1)" by fastforce
  note ends = ensurePdf_ends [OF run plain pdf]
  have rest: "ends_run now (iv_id r)
      (case ensurePdf w now r db of (Inl e, db2) \<Rightarrow> (Inl e, db2) | (Inr _, db2) \<Rightarrow> deliver_or_store env w now r ord user db2)"
    using ends deliver_or_store_ends [OF _ plain, of r db1] pdf by (cases out) (auto simp: ends_run_def)
  show ?thesis
  proof (cases "truthy (iv_s3Key r)")
    case True
    show ?thesis
    proof (cases rule: validate_cases [of "wo_validateStored w" now "iv_id r" "iv_token r" "iv_businessHash r" db])
      case (thrown e)
      then have "\<not> own_fault (EXTERNAL e)" using plain by (auto simp: plain_errors_def own_fault_def)
      then show ?thesis using True thrown run by (simp add: process_body_def ends_run_def)
    next
      case (confirmed v)
      then show ?thesis using True rest by (simp add: process_body_def)
    next
      case (stale v)
      then show ?thesis using True all_settled_mark by (simp add: process_body_def ends_run_def)
    qed
  next
    case False
    then show ?thesis using rest by (simp add: process_body_def)
  qed
qed

lemma claim_in_run:
  assumes ids: "distinct (map iv_id (nv_invoices db))" and cl: "claim_invoice env now i db = (True, db1)"
  obtains x x0 where "find_invoice i db1 = Some x" "iv_id x = i" "in_run i db1"
    "x0 \<in> set (nv_invoices db)" "iv_orderId x = iv_orderId x0"
proof -
  have claimed: "fst (claim_invoice env now i db)" using cl by simp
  have ids1: "map iv_id (nv_invoices db1) = map iv_id (nv_invoices db)"
    using cl by (auto simp: claim_invoice_def Let_def update_where_key)
  obtain r0 where "r0 \<in> set (nv_invoices db)" "iv_id r0 = i"
    using claimed by (auto simp: claim_invoice_def Let_def count_where_pos)
  then have "i \<in> set (map iv_id (nv_invoices db1))" unfolding ids1 by auto
  then obtain x where "find_invoice i db1 = Some x"
    unfolding find_invoice_def by (cases "List.find (\<lambda>r. iv_id r = i) (nv_invoices db1)") (auto dest: find_NoneD)
  then have x: "find_invoice i db1 = Some x" "x \<in> set (nv_invoices db1)" "iv_id x = i"
    by (auto simp: find_invoice_def dest: find_SomeD)
  obtain x0 where x0: "x0 \<in> set (nv_invoices db)"
    "x = x0\<lparr>iv_state := I_SENDING, iv_leaseUntil := Some (now + leaseMs env), iv_attempts := iv_attempts x0 + 1,
           iv_lastError := None, iv_updatedAt := now\<rparr>"
    using claimed_row [OF ids claimed] x(1) cl by (metis snd_conv)
  have "distinct (map iv_id (nv_invoices db1))" using ids ids1 by simp
  then have "y = x" if "y \<in> set (nv_invoices db1)" "iv_id y = i" for y
    using that x(2,3) by (metis distinct_key_eq)
  moreover have "iv_state x \<noteq> I_SUPERSEDED" by (simp add: x0(2))
  ultimately have "in_run i db1" unfolding in_run_def by metis
  then show thesis using that [OF x(1,3) _ x0(1)] x0(2) by simp
qed


lemma demo_claims:
  "fst (claim_invoice demo_env 1000 ''i1'' demo_queued)"
  "\<forall>r \<in> set (nv_invoices demo_queued). \<exists>ord \<in> set (nv_orders demo_queued). od_id ord = iv_orderId r"
  "plain_errors demo_world" "map iv_id (nv_invoices (processInvoice demo_env demo_world 1000 ''i1'' demo_queued)) = [''i1'']"
  by code_simp+


end
