(* ===== verification/Invoice_Sync.thy ===== *)
theory Invoice_Sync
  imports Invoice_Safety
begin

text \<open>
  The invoice table under synchronisation and concurrent runs: leases, the choice of the newest
  announcement, the retirement of older versions, and the two ways in which a withdrawn invoice comes
  back.
\<close>

section \<open>Runs on other invoices\<close>

definition others :: "string \<Rightarrow> invoice_db \<Rightarrow> invoice list" where
  "others j db = filter (\<lambda>r. iv_id r \<noteq> j) (nv_invoices db)"

lemma filter_update_where:
  "(\<And>r. p r \<Longrightarrow> \<not> q r) \<Longrightarrow> (\<And>r. p r \<Longrightarrow> \<not> q (f r)) \<Longrightarrow> filter q (update_where p f rs) = filter q rs"
  by (induction rs) (auto simp: update_where_def)

lemma others_write: "(\<And>r. iv_id (f r) = iv_id r) \<Longrightarrow> others j (write_invoice j f db) = others j db"
  unfolding others_def write_invoice_def by (simp add: filter_update_where)

lemma others_same: "nv_invoices db' = nv_invoices db \<Longrightarrow> others j db' = others j db"
  by (simp add: others_def)

lemma others_mark: "others j (markSuperseded now j db) = others j db"
  unfolding markSuperseded_def by (rule others_write) (simp add: supersede_def)

lemma others_validate: "others j (snd (validateCandidate v now j tok h db)) = others j db"
  by (cases rule: validate_cases [of v now j tok h db]) (simp_all add: others_mark)

lemma others_ack: "others j (snd (ack a tok st db)) = others j db"
  by (rule others_same) (simp add: invoice_frame)

lemma others_ensurePdf: "others (iv_id r) (snd (ensurePdf w now r db)) = others (iv_id r) db"
  unfolding ensurePdf_def validateCandidate_def
  by (auto simp: others_mark others_write split: sum.splits prod.splits bool.splits)

lemma others_store: "others (iv_id r) (snd (store_only w now r db)) = others (iv_id r) db"
  unfolding store_only_def Let_def ack_def
  by (auto simp: others_write others_def write_invoice_def filter_update_where split: sum.splits)

lemma others_deliver_all: "others i (snd (deliver_all env w now i cs db)) = others i db"
proof (induction cs arbitrary: db)
  case Nil
  then show ?case by simp
next
  case (Cons c cs)
  obtain r db1 where eq: "deliverChannel env w now i c db = (r, db1)" by fastforce
  have "nv_invoices db1 = nv_invoices db \<or> nv_invoices db1 = nv_invoices (markSuperseded now i db)"
    using deliverChannel_docs(2,3) [OF eq] by blast
  then have "others i db1 = others i db" using others_mark [of i now db] by (auto simp: others_def)
  then show ?case
    using Cons.IH [of db1] eq by (auto split: sum.split delivery_result.split prod.split)
qed

lemma others_deliver: "others (iv_id r) (snd (deliver_invoice env w now r user db)) = others (iv_id r) db"
proof -
  have fin: "others (iv_id r) (finish_invoice env now r cs rs d) = others (iv_id r) d" for cs rs d
    unfolding finish_invoice_def Let_def by (rule others_write) simp
  have ackd: "others (iv_id r) (d\<lparr>nv_acks := a\<rparr>) = others (iv_id r) d" for d a by (simp add: others_def)
  have all: "others (iv_id r) d = others (iv_id r) db" if "deliver_all env w now (iv_id r) cs db = (x, d)" for cs x d
    using others_deliver_all [of "iv_id r" env w now cs db] that by simp
  show ?thesis
    unfolding deliver_invoice_def Let_def ack_def
    by (auto simp: fin ackd all split: sum.split option.split prod.split)
qed

lemma others_process_body: "others (iv_id r) (snd (process_body env w now r ord user db)) = others (iv_id r) db"
proof -
  have rest: "others (iv_id r) (snd (deliver_or_store env w now r ord user d)) = others (iv_id r) d" for d
    by (simp add: deliver_or_store_def others_store others_deliver split: option.split)
  obtain x db1 where pdf: "ensurePdf w now r db = (x, db1)" by fastforce
  have "others (iv_id r) db1 = others (iv_id r) db" using others_ensurePdf [of r w now db] pdf by simp
  then have tail: "others (iv_id r) (snd (case ensurePdf w now r db of (Inl e, db2) \<Rightarrow> (Inl e, db2)
      | (Inr _, db2) \<Rightarrow> deliver_or_store env w now r ord user db2)) = others (iv_id r) db"
    using rest pdf by (cases x) simp_all
  show ?thesis
    by (cases rule: validate_cases [of "wo_validateStored w" now "iv_id r" "iv_token r" "iv_businessHash r" db])
      (use tail in \<open>auto simp: process_body_def others_mark\<close>)
qed

lemma others_fail: "others (iv_id r) (fail_invoice env w now r e db) = others (iv_id r) db"
  unfolding fail_invoice_def by (auto simp: others_def invoice_frame intro!: filter_update_where)

lemma others_claim: "others j (snd (claim_invoice env now j db)) = others j db"
  unfolding claim_invoice_def Let_def others_def by (auto intro!: filter_update_where)

lemma find_invoice_id: "find_invoice j db = Some r \<Longrightarrow> iv_id r = j"
  by (auto simp: find_invoice_def dest: find_SomeD)

lemma others_processInvoice: "others j (processInvoice env w now j db) = others j db"
proof -
  obtain b db1 where cl: "claim_invoice env now j db = (b, db1)" by fastforce
  have db1: "others j db1 = others j db" using others_claim [of j env now db] cl by simp
  have body: "others j d = others j db"
    if "process_body env w now r ord user db1 = (x, d)" "find_invoice j db1 = Some r" for r ord user x d
    using others_process_body [of r env w now ord user db1] that find_invoice_id [OF that(2)] db1 by simp
  have failed: "others j (fail_invoice env w now r e d) = others j d" if "find_invoice j db1 = Some r" for r e d
    using others_fail [of r] find_invoice_id [OF that] by simp
  show ?thesis
    unfolding processInvoice_def cl Let_def
    using db1 body failed by (auto split: option.split sum.split prod.split)
qed

section \<open>Leases\<close>

text \<open>
  The claim on an invoice as an instance of the lease contract.  The other steps are runs on any
  invoice and synchronisations; a synchronisation is quiet for an invoice unless it withdraws it or
  announces a newer version of it.
\<close>

definition invoice_held :: "string \<Rightarrow> millis \<Rightarrow> invoice_db \<Rightarrow> bool" where
  "invoice_held i u db \<longleftrightarrow> (\<forall>r \<in> set (nv_invoices db). iv_id r = i \<longrightarrow> iv_state r = I_SENDING \<and> lease_live u r)"

fun event_quiet :: "string \<Rightarrow> millis \<Rightarrow> invoice_event \<Rightarrow> invoice_db \<Rightarrow> bool" where
  "event_quiet i u (Process w now j) db = (now \<le> u)"
| "event_quiet i u (SyncItem now newId immediate item) db =
     (now \<le> u \<and> newId \<noteq> i \<and>
      (\<forall>r \<in> set (nv_invoices db). iv_id r = i \<longrightarrow>
         (if iv_token r = qi_token item then mapOnecState item \<noteq> I_CANCELLED
          else iv_realizationGuid r \<noteq> qi_realizationGuid item \<or> (\<exists>x \<in> set (nv_invoices db). iv_token x = qi_token item))))"

lemma lease_live_mono: "lease_live u r \<Longrightarrow> now \<le> u \<Longrightarrow> lease_live now r"
  by (auto simp: lease_live_def split: option.splits)

lemma held_no_claim:
  assumes "invoice_held i u db" and "now \<le> u"
  shows "claim_invoice env now i db = (False, db)"
proof -
  have no: "\<not> (iv_id r = i \<and> iv_state r \<in> set PROCESSABLE_STATES \<and> \<not> lease_live now r)" if "r \<in> set (nv_invoices db)" for r
    using assms that lease_live_mono by (auto simp: invoice_held_def)
  have "update_where (\<lambda>r. iv_id r = i \<and> iv_state r \<in> set PROCESSABLE_STATES \<and> \<not> lease_live now r) f (nv_invoices db) = nv_invoices db" for f
    using no by (intro update_where_none) blast
  moreover have "count_where (\<lambda>r. iv_id r = i \<and> iv_state r \<in> set PROCESSABLE_STATES \<and> \<not> lease_live now r) (nv_invoices db) = 0"
    using no by (simp add: count_where_zero)
  ultimately show ?thesis by (simp add: claim_invoice_def)
qed

lemma held_no_run: "invoice_held i u db \<Longrightarrow> now \<le> u \<Longrightarrow> processInvoice env w now i db = db"
  by (simp add: processInvoice_def held_no_claim)

lemma claim_holds:
  assumes ids: "distinct (map iv_id (nv_invoices db))" and cl: "fst (claim_invoice env now i db)" and u: "u < now + leaseMs env"
  shows "invoice_held i u (snd (claim_invoice env now i db))"
  unfolding invoice_held_def
proof (intro ballI impI)
  fix r
  assume r: "r \<in> set (nv_invoices (snd (claim_invoice env now i db)))" "iv_id r = i"
  have "map iv_id (nv_invoices (snd (claim_invoice env now i db))) = map iv_id (nv_invoices db)"
    by (simp add: claim_invoice_def Let_def update_where_key)
  then have "find_invoice i (snd (claim_invoice env now i db)) = Some r"
    unfolding find_invoice_def using ids r by (intro find_by_key) simp_all
  then show "iv_state r = I_SENDING \<and> lease_live u r"
    by (rule claimed_row [OF ids cl]) (use u in \<open>simp add: lease_live_def\<close>)
qed

lemma refresh_keeps_lease:
  assumes "iv_state r = I_SENDING" and "lease_live u r" and "now \<le> u" and "mapOnecState item \<noteq> I_CANCELLED"
  shows "iv_state (refresh_invoice env host now imm item r) = I_SENDING \<and> lease_live u (refresh_invoice env host now imm item r)"
  using assms lease_live_mono [OF assms(2,3)] by (simp add: refresh_invoice_def Let_def lease_live_def)

lemma refresh_id: "iv_id (refresh_invoice env host now imm item r) = iv_id r"
  by (simp add: refresh_invoice_def Let_def)

lemma sync_cases:
  obtains (ignored) "syncQueueItem env host now n imm item db = db"
  | (announced) ord where "ord \<in> set (nv_orders db)" "od_guid ord = Some (qi_appOrderGuid item)"
      "\<forall>r \<in> set (nv_invoices db). iv_token r \<noteq> qi_token item"
      "nv_invoices (syncQueueItem env host now n imm item db) =
         update_where (\<lambda>r. iv_orderId r = od_id ord \<and> iv_realizationGuid r = qi_realizationGuid item \<and>
             iv_token r \<noteq> qi_token item \<and> iv_state r \<in> set ACTIVE_STATES)
           (supersede now REPLACED_BY_NEWER_VERSION) (nv_invoices db)
         @ [new_invoice env host now n imm (od_id ord) item]"
  | (refreshed) "\<exists>r \<in> set (nv_invoices db). iv_token r = qi_token item"
      "nv_invoices (syncQueueItem env host now n imm item db) =
         update_where (\<lambda>r. iv_token r = qi_token item) (refresh_invoice env host now imm item) (nv_invoices db)"
proof -
  let ?find_order = "List.find (\<lambda>o'. od_guid o' = Some (qi_appOrderGuid item)) (nv_orders db)"
  let ?find_row = "List.find (\<lambda>r. iv_token r = qi_token item) (nv_invoices db)"
  show thesis
  proof (cases "qi_appOrderGuid item = [] \<or> qi_realizationGuid item = [] \<or> qi_token item = [] \<or> ?find_order = None")
    case True
    then show thesis using ignored by (auto simp: syncQueueItem_def)
  next
    case False
    then obtain ord where ord: "?find_order = Some ord" by auto
    show thesis
    proof (cases ?find_row)
      case None
      then show thesis
        using announced [of ord] find_SomeD [OF ord] False ord find_NoneD [OF None] by (simp add: syncQueueItem_def)
    next
      case (Some r)
      then show thesis
        using refreshed find_SomeD [OF Some] False ord by (auto simp: syncQueueItem_def)
    qed
  qed
qed

lemma sync_keeps_lease:
  assumes held: "invoice_held i u db" and quiet: "event_quiet i u (SyncItem now n imm item) db"
  shows "invoice_held i u (syncQueueItem env host now n imm item db)"
  unfolding invoice_held_def
proof (intro ballI impI)
  fix r
  assume r: "r \<in> set (nv_invoices (syncQueueItem env host now n imm item db))" and i: "iv_id r = i"
  have old: "iv_state x = I_SENDING \<and> lease_live u x" if "x \<in> set (nv_invoices db)" "iv_id x = i" for x
    using held that by (simp add: invoice_held_def)
  show "iv_state r = I_SENDING \<and> lease_live u r"
  proof (cases rule: sync_cases [of env host now n imm item db])
    case ignored
    then show ?thesis using r i old by simp
  next
    case (announced ord)
    have "iv_id (new_invoice env host now n imm (od_id ord) item) = n" by (simp add: new_invoice_def Let_def)
    then have "r \<in> set (update_where (\<lambda>r. iv_orderId r = od_id ord \<and> iv_realizationGuid r = qi_realizationGuid item \<and>
        iv_token r \<noteq> qi_token item \<and> iv_state r \<in> set ACTIVE_STATES) (supersede now REPLACED_BY_NEWER_VERSION) (nv_invoices db))"
      using r announced(4) quiet i by auto
    then show ?thesis
      by (cases rule: update_whereE) (use old i quiet announced(3) in \<open>auto simp: supersede_def\<close>)
  next
    case refreshed
    from r [unfolded refreshed(2)] show ?thesis
      by (cases rule: update_whereE)
        (use old i quiet refresh_keeps_lease [of _ u now item env host imm] in \<open>auto simp: refresh_id\<close>)
  qed
qed

lemma process_keeps_lease:
  assumes held: "invoice_held i u db" and now: "now \<le> u"
  shows "invoice_held i u (processInvoice env w now j db)"
proof (cases "j = i")
  case True
  then show ?thesis using held held_no_run [OF held now] by simp
next
  case False
  have iff: "x \<in> set (nv_invoices d) \<and> iv_id x = i \<longleftrightarrow> x \<in> set (others j d) \<and> iv_id x = i" for x d
    using False by (auto simp: others_def)
  show ?thesis
    using held unfolding invoice_held_def by (metis iff others_processInvoice)
qed

interpretation invoice_lease: lease "\<lambda>env now i db. claim_invoice env now i db" leaseMs "(=)"
  "\<lambda>db. distinct (map iv_id (nv_invoices db))" invoice_held "invoice_step env host" event_quiet
  for env host
proof (unfold_locales, goal_cases)
  case (1 d t now k u)
  then show ?case by (rule claim_holds)
next
  case (2 k u d now k' t)
  then show ?case using held_no_claim by simp
next
  case (3 k u d e)
  then show ?case by (cases e) (simp_all add: process_keeps_lease sync_keeps_lease del: event_quiet.simps(2))
qed

text \<open>
  C23: once a run has obtained the lease of an invoice, every other run started on that invoice before
  the lease expires leaves all tables as they are, whatever happens in between short of 1C
  withdrawing the invoice or announcing a newer version of it.
\<close>

theorem invoice_lease_exclusive:
  assumes "distinct (map iv_id (nv_invoices db))" and "claim_invoice env now i db = (True, db1)"
    and "u < now + leaseMs env" and "invoice_lease.quiet_run env host i u es db1" and "now' \<le> u"
  shows "processInvoice env w now' i (invoice_run env host es db1) = invoice_run env host es db1"
proof -
  have "invoice_held i u db1"
    using invoice_lease.acquire_holds [of db env now i u] assms(1-3) by simp
  then have "invoice_held i u (invoice_lease.lease_run env host es db1)"
    using assms(4) by (rule invoice_lease.run_held)
  moreover have "invoice_lease.lease_run env host es db1 = invoice_run env host es db1"
    by (induction es arbitrary: db1) simp_all
  ultimately show ?thesis using held_no_run assms(5) by simp
qed

definition demo_leased :: invoice_db where
  "demo_leased = snd (claim_invoice demo_env 1000 ''i1'' demo_queued)"

lemma demo_leased_claim: "claim_invoice demo_env 1000 ''i1'' demo_queued = (True, demo_leased)"
  unfolding demo_leased_def using demo_claims(1) by (metis (full_types) prod.collapse)

lemma demo_lease_len: "leaseMs demo_env = 120000"
  by code_simp

lemma demo_leased_quiet: "event_quiet ''i1'' 100000 (SyncItem 2000 ''i2'' False demo_item) demo_leased"
  by code_simp

theorem invoice_lease_exclusive_witness:
  "processInvoice demo_env demo_retry 100000 ''i1''
     (invoice_run demo_env demo_host [SyncItem 2000 ''i2'' False demo_item] demo_leased) =
   invoice_run demo_env demo_host [SyncItem 2000 ''i2'' False demo_item] demo_leased"
  by (rule invoice_lease_exclusive [OF demo_delivers(2) demo_leased_claim, where u = 100000])
    (simp_all add: demo_lease_len demo_leased_quiet del: event_quiet.simps)

section \<open>The lock of the tick\<close>

datatype lock_event = Acquire settings bool millis string | Heartbeat settings millis string | Release millis lock

fun lock_step :: "lock_event \<Rightarrow> lock_state \<Rightarrow> lock_state" where
  "lock_step (Acquire env reachable now lockId) s = snd (acquireLock env reachable now lockId s)"
| "lock_step (Heartbeat env now lockId) s = heartbeat env now lockId s"
| "lock_step (Release now l) s = releaseLock now l s"

definition lock_held :: "string \<Rightarrow> millis \<Rightarrow> lock_state \<Rightarrow> bool" where
  "lock_held lockId u s \<longleftrightarrow> (\<exists>t. lk_key s = Some (lockId, t) \<and> u < t)"

fun lock_quiet :: "string \<Rightarrow> millis \<Rightarrow> lock_event \<Rightarrow> lock_state \<Rightarrow> bool" where
  "lock_quiet lockId u (Acquire env reachable now other) s = (now \<le> u)"
| "lock_quiet lockId u (Heartbeat env now other) s = (now \<le> u \<and> (other = lockId \<longrightarrow> u < now + leaseMs env))"
| "lock_quiet lockId u (Release now l) s = (now \<le> u \<and> l \<noteq> REDIS_LOCK lockId)"

lemma held_get: "lock_held lockId u s \<Longrightarrow> now \<le> u \<Longrightarrow> redis_get now s = Some lockId"
  by (auto simp: lock_held_def redis_get_def)

interpretation tick_lock: lease "\<lambda>env now lockId s. (fst (acquireLock env True now lockId s) \<noteq> None, snd (acquireLock env True now lockId s))"
  leaseMs "\<lambda>_ _. True" "\<lambda>_. True" lock_held lock_step lock_quiet
proof (unfold_locales, goal_cases)
  case (1 d t now k u)
  then show ?case by (auto simp: acquireLock_def lock_held_def split: if_splits)
next
  case (2 k u d now k' t)
  then show ?case by (simp add: acquireLock_def held_get)
next
  case (3 k u d e)
  then show ?case
  proof (cases e)
    case (Acquire env reachable now other)
    then show ?thesis using 3 held_get [OF 3(1), of now] by (simp add: acquireLock_def lock_held_def)
  next
    case (Heartbeat env now other)
    then show ?thesis using 3 held_get [OF 3(1), of now] by (auto simp: heartbeat_def lock_held_def)
  next
    case (Release now l)
    then show ?thesis using 3 held_get [OF 3(1), of now] by (cases l) (auto simp: releaseLock_def lock_held_def)
  qed
qed

text \<open>
  While the Redis key is alive no other process obtains the lock, in spite of heartbeats and releases
  by processes whose own lock has expired.
\<close>

lemma tick_lock_exclusive:
  assumes "fst (acquireLock env True now lockId s) \<noteq> None" and "u < now + leaseMs env"
    and "tick_lock.quiet_run lockId u es (snd (acquireLock env True now lockId s))" and "now' \<le> u"
  shows "fst (acquireLock env' True now' other (tick_lock.lease_run es (snd (acquireLock env True now lockId s)))) = None"
  using tick_lock.exclusive [where d = s and t = env and now = now and k = lockId and u = u and es = es and now' = now'
    and k' = other and t' = env'] assms by simp

section \<open>The newest announcement\<close>

lemma newer_refl: "newer env host x x"
  by (simp add: newer_def)

lemma newer_total: "\<not> newer env host x y \<Longrightarrow> newer env host y x"
  by (auto simp: newer_def)

lemma newer_trans: "newer env host x y \<Longrightarrow> newer env host y z \<Longrightarrow> newer env host x z"
  by (auto simp: newer_def)

definition latest_ok :: "settings \<Rightarrow> (string \<Rightarrow> millis option) \<Rightarrow> queue_item list \<Rightarrow> (string \<times> queue_item) list \<Rightarrow> bool" where
  "latest_ok env host items latest \<longleftrightarrow>
     distinct (map fst latest) \<and>
     (\<forall>x \<in> set items. \<exists>c. map_of latest (item_key x) = Some c \<and> newer env host c x) \<and>
     (\<forall>k c. map_of latest k = Some c \<longrightarrow> c \<in> set items \<and> item_key c = k)"

lemma latest_ok_note:
  assumes ok: "latest_ok env host items latest"
  shows "latest_ok env host (items @ [x]) (note_item env host x latest)"
proof -
  let ?k = "item_key x"
  have keys: "distinct (map fst (AList.update ?k x latest))" using ok by (simp add: latest_ok_def distinct_update)
  have upd: "map_of (AList.update ?k x latest) = (map_of latest)(?k \<mapsto> x)" by (rule update_conv')
  have old: "\<exists>c. map_of latest (item_key y) = Some c \<and> newer env host c y" if "y \<in> set items" for y
    using ok that unfolding latest_ok_def by blast
  have src: "c \<in> set items \<and> item_key c = k" if "map_of latest k = Some c" for k c
    using ok that unfolding latest_ok_def by blast
  consider (fresh) "note_item env host x latest = AList.update ?k x latest"
      "\<And>p. map_of latest ?k = Some p \<Longrightarrow> newer env host x p"
    | (kept) p where "note_item env host x latest = latest" "map_of latest ?k = Some p" "newer env host p x"
  proof (cases "map_of latest ?k")
    case None
    then show thesis using that(1) by (simp add: note_item_def)
  next
    case (Some p)
    then show thesis
      using that(1) that(2) [of p] newer_total [of env host x p]
      by (cases "newer env host x p") (simp_all add: note_item_def)
  qed
  then show ?thesis
  proof cases
    case fresh
    have "\<exists>c. ((map_of latest)(?k \<mapsto> x)) (item_key y) = Some c \<and> newer env host c y" if "y \<in> set (items @ [x])" for y
    proof (cases "item_key y = ?k")
      case True
      show ?thesis
      proof (cases "y = x")
        case False
        then have "y \<in> set items" using that by simp
        then obtain c where "map_of latest ?k = Some c" "newer env host c y" using old True by metis
        then show ?thesis using True fresh(2) newer_trans by auto
      qed (simp add: newer_refl)
    next
      case False
      then have "y \<in> set items" using that by auto
      then show ?thesis using old False by simp
    qed
    moreover have "c \<in> set (items @ [x]) \<and> item_key c = k" if "((map_of latest)(?k \<mapsto> x)) k = Some c" for k c
      using that src by (auto split: if_splits)
    ultimately show ?thesis unfolding latest_ok_def fresh(1) upd using keys by blast
  next
    case (kept p)
    then show ?thesis using ok unfolding latest_ok_def by auto
  qed
qed

lemma latest_ok_fold: "latest_ok env host items (latestByRealization env host items)"
proof (induction items rule: rev_induct)
  case Nil
  then show ?case by (simp add: latest_ok_def latestByRealization_def)
next
  case (snoc x items)
  then show ?case using latest_ok_note by (simp add: latestByRealization_def)
qed

lemma latest_is_newest_parts:
  assumes "x \<in> set items"
  shows "distinct (map fst (latestByRealization env host items))"
    and "\<exists>c. map_of (latestByRealization env host items) (item_key x) = Some c \<and> c \<in> set items \<and>
      item_key c = item_key x \<and>
      (item_time env host x, qi_version x) \<in>
        {(t, v). t < item_time env host c \<or> (t = item_time env host c \<and> v \<le> qi_version c)}"
proof -
  note ok = latest_ok_fold [of env host items]
  show "distinct (map fst (latestByRealization env host items))" using ok by (simp add: latest_ok_def)
  obtain c where "map_of (latestByRealization env host items) (item_key x) = Some c" "newer env host c x"
    using ok assms unfolding latest_ok_def by blast
  moreover from this have "c \<in> set items" "item_key c = item_key x" using ok unfolding latest_ok_def by blast+
  ultimately show "\<exists>c. map_of (latestByRealization env host items) (item_key x) = Some c \<and> c \<in> set items \<and>
      item_key c = item_key x \<and>
      (item_time env host x, qi_version x) \<in>
        {(t, v). t < item_time env host c \<or> (t = item_time env host c \<and> v \<le> qi_version c)}"
    by (auto simp: newer_def)
qed

text \<open>
  The synchronisation keeps exactly one announcement per order and realization, compared without
  regard to case, and it is one that was received and that no other announcement of that realization
  surpasses in update time or, at equal times, in version.
\<close>

theorem latest_is_newest:
  assumes "x \<in> set items"
  shows "distinct (map fst (latestByRealization env host items)) \<and>
    (\<exists>c. map_of (latestByRealization env host items) (item_key x) = Some c \<and> c \<in> set items \<and>
      item_key c = item_key x \<and>
      (item_time env host x < item_time env host c \<or>
       item_time env host x = item_time env host c \<and> qi_version x \<le> qi_version c))"
  using latest_is_newest_parts [OF assms] by simp


theorem latest_is_newest_witness:
  "\<exists>c. map_of (latestByRealization demo_env demo_host [demo_item\<lparr>qi_version := 2, qi_token := ''t2''\<rparr>, demo_item])
      (item_key demo_item) = Some c \<and> qi_version demo_item \<le> qi_version c"
  using latest_is_newest [of demo_item "[demo_item\<lparr>qi_version := 2, qi_token := ''t2''\<rparr>, demo_item]" demo_env demo_host]
  by (auto simp: item_time_def parseDate_def demo_item_def truthy_def)

section \<open>One active version per realization\<close>

lemma cols_mark: "map candidate_cols (nv_invoices (markSuperseded now i db)) = map candidate_cols (nv_invoices db)"
  unfolding markSuperseded_def by (rule write_invoice_cols) (simp add: candidate_cols_def supersede_def)

lemma cols_deliver_all: "map candidate_cols (nv_invoices (snd (deliver_all env w now i cs db))) = map candidate_cols (nv_invoices db)"
proof (induction cs arbitrary: db)
  case Nil
  then show ?case by simp
next
  case (Cons c cs)
  obtain r db1 where eq: "deliverChannel env w now i c db = (r, db1)" by fastforce
  have "nv_invoices db1 = nv_invoices db \<or> nv_invoices db1 = nv_invoices (markSuperseded now i db)"
    using deliverChannel_docs(2,3) [OF eq] by blast
  then have "map candidate_cols (nv_invoices db1) = map candidate_cols (nv_invoices db)" using cols_mark by metis
  then show ?case
    using Cons.IH [of db1] eq by (auto split: sum.split delivery_result.split prod.split)
qed

lemma cols_deliver: "map candidate_cols (nv_invoices (snd (deliver_or_store env w now r ord user db))) = map candidate_cols (nv_invoices db)"
proof -
  have fin: "map candidate_cols (nv_invoices (finish_invoice env now r cs rs d)) = map candidate_cols (nv_invoices d)" for cs rs d
    unfolding finish_invoice_def Let_def by (rule write_invoice_cols) (simp add: candidate_cols_def)
  have all: "map candidate_cols (nv_invoices d) = map candidate_cols (nv_invoices db)"
    if "deliver_all env w now (iv_id r) cs db = (x, d)" for cs x d
    using cols_deliver_all [of env w now "iv_id r" cs db] that by simp
  have "map candidate_cols (nv_invoices (snd (deliver_invoice env w now r user db))) = map candidate_cols (nv_invoices db)"
    unfolding deliver_invoice_def Let_def ack_def by (auto simp: fin all split: sum.split option.split prod.split)
  moreover have "map candidate_cols (nv_invoices (snd (store_only w now r db))) = map candidate_cols (nv_invoices db)"
    unfolding store_only_def Let_def ack_def
    by (auto simp: write_invoice_cols candidate_cols_def split: sum.split)
  ultimately show ?thesis by (simp add: deliver_or_store_def split: option.split)
qed

lemma cols_process_body: "map candidate_cols (nv_invoices (snd (process_body env w now r ord user db))) = map candidate_cols (nv_invoices db)"
proof -
  obtain x db1 where pdf: "ensurePdf w now r db = (x, db1)" by fastforce
  have "map candidate_cols (nv_invoices db1) = map candidate_cols (nv_invoices db)" using ensurePdf_cols [of w now r db] pdf by simp
  then have tail: "map candidate_cols (nv_invoices (snd (case ensurePdf w now r db of (Inl e, db2) \<Rightarrow> (Inl e, db2)
      | (Inr _, db2) \<Rightarrow> deliver_or_store env w now r ord user db2))) = map candidate_cols (nv_invoices db)"
    using cols_deliver pdf by (cases x) simp_all
  show ?thesis
    by (cases rule: validate_cases [of "wo_validateStored w" now "iv_id r" "iv_token r" "iv_businessHash r" db])
      (use tail in \<open>auto simp: process_body_def cols_mark\<close>)
qed

lemma cols_fail: "map candidate_cols (nv_invoices (fail_invoice env w now r e db)) = map candidate_cols (nv_invoices db)"
  unfolding fail_invoice_def by (simp add: invoice_frame update_where_key candidate_cols_def)

lemma cols_processInvoice: "map candidate_cols (nv_invoices (processInvoice env w now i db)) = map candidate_cols (nv_invoices db)"
proof -
  obtain b db1 where cl: "claim_invoice env now i db = (b, db1)" by fastforce
  have db1: "map candidate_cols (nv_invoices db1) = map candidate_cols (nv_invoices db)" using claim_cols [of env now i db] cl by simp
  have body: "map candidate_cols (nv_invoices d) = map candidate_cols (nv_invoices db)"
    if "process_body env w now r ord user db1 = (x, d)" for r ord user x d
    using cols_process_body [of env w now r ord user db1] that db1 by simp
  show ?thesis
    unfolding processInvoice_def cl Let_def
    using db1 body by (auto simp: cols_fail split: option.split sum.split prod.split)
qed

definition is_active :: "invoice \<Rightarrow> bool" where
  "is_active r \<longleftrightarrow> iv_state r \<in> set ACTIVE_STATES"

lemma processable_active: "iv_state r \<in> set PROCESSABLE_STATES \<Longrightarrow> is_active r"
  by (auto simp: PROCESSABLE_STATES_def RETRYABLE_STATES_def ACTIVE_STATES_def is_active_def)

lemma map_eq_member: "map f xs = map f ys \<Longrightarrow> x \<in> set xs \<Longrightarrow> \<exists>y \<in> set ys. f x = f y"
  by (metis imageE list.set_map rev_image_eqI)

text \<open>A run changes only rows that were active.\<close>

lemma process_rows:
  assumes ids: "distinct (map iv_id (nv_invoices db))" and r': "r' \<in> set (nv_invoices (processInvoice env w now i db))"
  shows "\<exists>r \<in> set (nv_invoices db). candidate_cols r' = candidate_cols r \<and> (r' = r \<or> is_active r)"
proof -
  obtain r where r: "r \<in> set (nv_invoices db)" "candidate_cols r' = candidate_cols r"
    using map_eq_member [OF cols_processInvoice r'] by blast
  show ?thesis
  proof (cases "iv_id r' = i")
    case False
    then have "r' \<in> set (others i (processInvoice env w now i db))" using r' by (simp add: others_def)
    then have "r' \<in> set (nv_invoices db)" unfolding others_processInvoice by (simp add: others_def)
    then show ?thesis by blast
  next
    case True
    show ?thesis
    proof (cases "fst (claim_invoice env now i db)")
      case claimed: True
      then obtain r0 where r0: "r0 \<in> set (nv_invoices db)" "iv_id r0 = i" "iv_state r0 \<in> set PROCESSABLE_STATES"
        by (auto simp: claim_invoice_def Let_def count_where_pos)
      have "iv_id r = i" using r(2) True by (simp add: candidate_cols_def)
      then have "r = r0" using distinct_key_eq [OF ids r(1) r0(1)] r0(2) by simp
      then show ?thesis using r r0(3) processable_active by blast
    next
      case False
      then have "processInvoice env w now i db = snd (claim_invoice env now i db)" by (simp add: processInvoice_def split_beta)
      moreover have "nv_invoices (snd (claim_invoice env now i db)) = nv_invoices db"
        using False by (auto simp: claim_invoice_def Let_def count_where_pos intro!: update_where_none)
      ultimately show ?thesis using r' by auto
    qed
  qed
qed

text \<open>
  \<open>R\<close> holds the tokens of versions that were retired and brought back.
\<close>

definition versions_ok :: "string set \<Rightarrow> invoice_db \<Rightarrow> bool" where
  "versions_ok R db \<longleftrightarrow>
     distinct (map iv_id (nv_invoices db)) \<and> distinct (map iv_token (nv_invoices db)) \<and>
     (\<forall>r \<in> set (nv_invoices db). \<forall>x \<in> set (nv_invoices db).
        is_active r \<and> is_active x \<and> iv_orderId r = iv_orderId x \<and> iv_realizationGuid r = iv_realizationGuid x \<longrightarrow>
        r = x \<or> iv_token r \<in> R \<or> iv_token x \<in> R)"

text \<open>
  The events: a synchronisation, a whole run, and the writes by which a run that is still working changes
  the state of an invoice, on the row \<open>q\<close> it read when it began.  Its other writes leave the states alone.
\<close>

datatype version_event =
    Turn invoice_event
  | Claim millis string
  | Retire millis string
  | Store world millis invoice
  | Finish millis invoice "delivery_context list" "delivery_result list"
  | Fail world millis invoice fault

fun version_step :: "settings \<Rightarrow> (string \<Rightarrow> millis option) \<Rightarrow> version_event \<Rightarrow> invoice_db \<Rightarrow> invoice_db" where
  "version_step env host (Turn e) db = invoice_step env host e db"
| "version_step env host (Claim now i) db = snd (claim_invoice env now i db)"
| "version_step env host (Retire now i) db = markSuperseded now i db"
| "version_step env host (Store w now q) db = snd (store_only w now q db)"
| "version_step env host (Finish now q cs rs) db = finish_invoice env now q cs rs db"
| "version_step env host (Fail w now q e) db = fail_invoice env w now q e db"

fun version_run :: "settings \<Rightarrow> (string \<Rightarrow> millis option) \<Rightarrow> version_event list \<Rightarrow> invoice_db \<Rightarrow> invoice_db" where
  "version_run env host [] db = db"
| "version_run env host (e # es) db = version_run env host es (version_step env host e db)"

text \<open>The database generates a new identifier for an announced version.\<close>

fun new_ids :: "settings \<Rightarrow> (string \<Rightarrow> millis option) \<Rightarrow> version_event list \<Rightarrow> invoice_db \<Rightarrow> bool" where
  "new_ids env host [] db = True"
| "new_ids env host (e # es) db =
     ((case e of Turn (SyncItem now newId immediate item) \<Rightarrow> newId \<notin> iv_id ` set (nv_invoices db) | _ \<Rightarrow> True) \<and>
      new_ids env host es (version_step env host e db))"

text \<open>
  How a version that is no longer active comes back: 1C announces it again as live after it was
  superseded or withdrawn, or a run that still works on it writes its result.
\<close>

definition retired :: "string \<Rightarrow> string \<Rightarrow> invoice_db \<Rightarrow> bool" where
  "retired tok i db \<longleftrightarrow> (\<exists>r \<in> set (nv_invoices db). iv_token r = tok \<and> iv_id r = i \<and> \<not> is_active r)"

fun reopens :: "string \<Rightarrow> version_event \<Rightarrow> invoice_db \<Rightarrow> bool" where
  "reopens tok (Turn (SyncItem now newId immediate item)) db =
     (qi_token item = tok \<and> mapOnecState item \<in> set ACTIVE_STATES \<and>
      (\<exists>r \<in> set (nv_invoices db). iv_token r = tok \<and> iv_state r \<in> {I_SUPERSEDED, I_CANCELLED}))"
| "reopens tok (Store w now q) db = retired tok (iv_id q) db"
| "reopens tok (Finish now q cs rs) db = (final_state cs rs \<noteq> I_SENT \<and> retired tok (iv_id q) db)"
| "reopens tok (Fail w now q e) db = (\<not> own_fault e \<and> retired tok (iv_id q) db)"
| "reopens tok _ db = False"

fun reopened :: "settings \<Rightarrow> (string \<Rightarrow> millis option) \<Rightarrow> version_event list \<Rightarrow> invoice_db \<Rightarrow> string \<Rightarrow> bool" where
  "reopened env host [] db tok = False"
| "reopened env host (e # es) db tok = (reopens tok e db \<or> reopened env host es (version_step env host e db) tok)"

text \<open>
  It is enough that every active row of the new table stems from a row with the same identifying columns
  that was active, unless the step brought it back.
\<close>

lemma versions_ok_stems:
  assumes ok: "versions_ok R db" and ids: "map iv_id (nv_invoices db') = map iv_id (nv_invoices db)"
    and tokens: "map iv_token (nv_invoices db') = map iv_token (nv_invoices db)" and sub: "R \<subseteq> R'"
    and stems: "\<And>r'. r' \<in> set (nv_invoices db') \<Longrightarrow> is_active r' \<Longrightarrow> iv_token r' \<notin> R' \<Longrightarrow> \<exists>r \<in> set (nv_invoices db).
      is_active r \<and> iv_id r' = iv_id r \<and> iv_token r' = iv_token r \<and> iv_orderId r' = iv_orderId r \<and>
      iv_realizationGuid r' = iv_realizationGuid r"
  shows "versions_ok R' db'"
  unfolding versions_ok_def
proof (intro conjI ballI impI)
  show ids': "distinct (map iv_id (nv_invoices db'))" and "distinct (map iv_token (nv_invoices db'))"
    using ok by (simp_all add: ids tokens versions_ok_def)
  fix r' x'
  assume m: "r' \<in> set (nv_invoices db')" "x' \<in> set (nv_invoices db')"
    and same: "is_active r' \<and> is_active x' \<and> iv_orderId r' = iv_orderId x' \<and> iv_realizationGuid r' = iv_realizationGuid x'"
  show "r' = x' \<or> iv_token r' \<in> R' \<or> iv_token x' \<in> R'"
  proof (rule ccontr)
    assume n: "\<not> ?thesis"
    obtain r where r: "r \<in> set (nv_invoices db)" "is_active r" "iv_id r' = iv_id r" "iv_token r' = iv_token r"
      "iv_orderId r' = iv_orderId r" "iv_realizationGuid r' = iv_realizationGuid r" using stems m(1) same n by blast
    obtain x where x: "x \<in> set (nv_invoices db)" "is_active x" "iv_id x' = iv_id x" "iv_token x' = iv_token x"
      "iv_orderId x' = iv_orderId x" "iv_realizationGuid x' = iv_realizationGuid x" using stems m(2) same n by blast
    have "r = x" using ok r x same n sub unfolding versions_ok_def by (metis subsetD)
    then have "iv_id r' = iv_id x'" using r x by simp
    then show False using distinct_key_eq [OF ids' m] n by simp
  qed
qed

lemma versions_ok_update:
  assumes ok: "versions_ok R db" and sub: "R \<subseteq> R'" and rows: "nv_invoices db' = update_where p f (nv_invoices db)"
    and cols: "\<And>r. iv_id (f r) = iv_id r \<and> iv_token (f r) = iv_token r \<and> iv_orderId (f r) = iv_orderId r \<and>
      iv_realizationGuid (f r) = iv_realizationGuid r"
    and act: "\<And>r. r \<in> set (nv_invoices db) \<Longrightarrow> p r \<Longrightarrow> is_active (f r) \<Longrightarrow> is_active r \<or> iv_token r \<in> R'"
  shows "versions_ok R' db'"
proof (rule versions_ok_stems [OF ok _ _ sub])
  show "map iv_id (nv_invoices db') = map iv_id (nv_invoices db)" "map iv_token (nv_invoices db') = map iv_token (nv_invoices db)"
    unfolding rows by (simp_all add: update_where_key cols)
  fix r' assume r': "r' \<in> set (nv_invoices db')" "is_active r'" "iv_token r' \<notin> R'"
  from r'(1) [unfolded rows] show "\<exists>r \<in> set (nv_invoices db). is_active r \<and> iv_id r' = iv_id r \<and> iv_token r' = iv_token r \<and>
      iv_orderId r' = iv_orderId r \<and> iv_realizationGuid r' = iv_realizationGuid r"
    by (cases rule: update_whereE) (use r'(2,3) act cols in auto)
qed

lemma versions_ok_process:
  assumes ok: "versions_ok R db"
  shows "versions_ok R (processInvoice env w now i db)"
proof (rule versions_ok_stems [OF ok _ _ subset_refl])
  have ids: "distinct (map iv_id (nv_invoices db))" using ok by (simp add: versions_ok_def)
  have proj: "map f (nv_invoices (processInvoice env w now i db)) = map f (nv_invoices db)" if "f = g \<circ> candidate_cols" for f :: "invoice \<Rightarrow> string" and g
    using that cols_processInvoice [of env w now i db] by (simp flip: map_map)
  show "map iv_id (nv_invoices (processInvoice env w now i db)) = map iv_id (nv_invoices db)"
    using proj [of iv_id fst] by (simp add: candidate_cols_def comp_def)
  show "map iv_token (nv_invoices (processInvoice env w now i db)) = map iv_token (nv_invoices db)"
    using proj [of iv_token "fst \<circ> snd"] by (simp add: candidate_cols_def comp_def)
  fix r'
  assume "r' \<in> set (nv_invoices (processInvoice env w now i db))" "is_active r'"
  then show "\<exists>r \<in> set (nv_invoices db). is_active r \<and> iv_id r' = iv_id r \<and> iv_token r' = iv_token r \<and> iv_orderId r' = iv_orderId r \<and>
      iv_realizationGuid r' = iv_realizationGuid r"
    using process_rows [OF ids, of r' env w now i] by (auto simp: candidate_cols_def)
qed

lemma refresh_cols:
  "iv_token (refresh_invoice env host now imm item r) = iv_token r"
  "iv_orderId (refresh_invoice env host now imm item r) = iv_orderId r"
  "iv_realizationGuid (refresh_invoice env host now imm item r) = iv_realizationGuid r"
  by (simp_all add: refresh_invoice_def Let_def)

lemma refresh_active:
  assumes "is_active (refresh_invoice env host now imm item r)"
    and "iv_state r \<in> {I_SUPERSEDED, I_CANCELLED} \<longrightarrow> mapOnecState item \<notin> set ACTIVE_STATES"
  shows "is_active r"
proof -
  have "iv_state r \<in> set ACTIVE_STATES \<or> iv_state r = I_SENT \<or> iv_state r \<in> {I_SUPERSEDED, I_CANCELLED}"
    by (cases "iv_state r") (simp_all add: ACTIVE_STATES_def)
  moreover have "\<not> is_active (refresh_invoice env host now imm item r)" if "iv_state r = I_SENT"
    using that by (simp add: is_active_def refresh_invoice_def Let_def ACTIVE_STATES_def)
  moreover have "\<not> is_active (refresh_invoice env host now imm item r)" if "iv_state r \<in> {I_SUPERSEDED, I_CANCELLED}"
    using that assms(2) by (auto simp: is_active_def refresh_invoice_def Let_def)
  ultimately show ?thesis using assms(1) by (auto simp: is_active_def)
qed

lemma supersede_cols:
  "iv_id (supersede now why r) = iv_id r" "iv_token (supersede now why r) = iv_token r" "\<not> is_active (supersede now why r)"
  by (simp_all add: supersede_def is_active_def ACTIVE_STATES_def)

lemma new_invoice_cols:
  "iv_id (new_invoice env host now n imm oid item) = n" "iv_token (new_invoice env host now n imm oid item) = qi_token item"
  "iv_orderId (new_invoice env host now n imm oid item) = oid"
  "iv_realizationGuid (new_invoice env host now n imm oid item) = qi_realizationGuid item"
  by (simp_all add: new_invoice_def Let_def)

lemma versions_ok_announce:
  assumes ok: "versions_ok R db" and new: "n \<notin> iv_id ` set (nv_invoices db)"
    and tok: "\<forall>r \<in> set (nv_invoices db). iv_token r \<noteq> qi_token item"
    and rows: "nv_invoices db' =
      update_where (\<lambda>r. iv_orderId r = oid \<and> iv_realizationGuid r = qi_realizationGuid item \<and>
          iv_token r \<noteq> qi_token item \<and> iv_state r \<in> set ACTIVE_STATES) (supersede now why) (nv_invoices db)
      @ [new_invoice env host now n imm oid item]"
  shows "versions_ok R db'"
proof -
  let ?mid = "update_where (\<lambda>r. iv_orderId r = oid \<and> iv_realizationGuid r = qi_realizationGuid item \<and>
      iv_token r \<noteq> qi_token item \<and> iv_state r \<in> set ACTIVE_STATES) (supersede now why) (nv_invoices db)"
  have keys: "map iv_id ?mid = map iv_id (nv_invoices db)" "map iv_token ?mid = map iv_token (nv_invoices db)"
    by (simp_all add: update_where_key supersede_cols)
  moreover have "qi_token item \<notin> set (map iv_token (nv_invoices db))" using tok by auto
  ultimately have ids: "distinct (map iv_id (nv_invoices db'))" and tokens: "distinct (map iv_token (nv_invoices db'))"
    using ok new tok unfolding rows versions_ok_def by (auto simp: new_invoice_cols simp flip: set_map)
  have old: "r \<in> set (nv_invoices db) \<and> \<not> (iv_orderId r = oid \<and> iv_realizationGuid r = qi_realizationGuid item)"
    if "r \<in> set ?mid" "is_active r" for r
    using that(1)
  proof (cases rule: update_whereE)
    case kept
    then show ?thesis using that(2) tok by (auto simp: is_active_def)
  next
    case (hit r0)
    then show ?thesis using that(2) supersede_cols(3) by simp
  qed
  show ?thesis
    unfolding versions_ok_def
  proof (intro conjI ballI impI ids tokens)
    fix r x
    assume "r \<in> set (nv_invoices db')" "x \<in> set (nv_invoices db')"
      "is_active r \<and> is_active x \<and> iv_orderId r = iv_orderId x \<and> iv_realizationGuid r = iv_realizationGuid x"
    moreover have "r = x \<or> iv_token r \<in> R \<or> iv_token x \<in> R" if "r \<in> set (nv_invoices db)" "x \<in> set (nv_invoices db)" 
      "is_active r \<and> is_active x \<and> iv_orderId r = iv_orderId x \<and> iv_realizationGuid r = iv_realizationGuid x"
      using ok that unfolding versions_ok_def by blast
    ultimately show "r = x \<or> iv_token r \<in> R \<or> iv_token x \<in> R"
      using old [of r] old [of x] unfolding rows by (auto simp: new_invoice_cols)
  qed
qed

lemma versions_ok_mono: "versions_ok R db \<Longrightarrow> R \<subseteq> R' \<Longrightarrow> versions_ok R' db"
  unfolding versions_ok_def by blast

lemma versions_ok_sync:
  assumes ok: "versions_ok R db" and fresh: "n \<notin> iv_id ` set (nv_invoices db)" and sub: "R \<subseteq> R'"
    and reop: "\<And>tok. reopens tok (Turn (SyncItem now n imm item)) db \<Longrightarrow> tok \<in> R'"
  shows "versions_ok R' (syncQueueItem env host now n imm item db)"
proof (cases rule: sync_cases [of env host now n imm item db])
  case ignored
  then show ?thesis using versions_ok_mono [OF ok sub] by simp
next
  case (announced ord)
  show ?thesis using versions_ok_mono [OF ok sub] fresh announced(3,4) by (rule versions_ok_announce)
next
  case refreshed
  show ?thesis
    using ok sub refreshed(2)
  proof (rule versions_ok_update)
    fix r
    assume "r \<in> set (nv_invoices db)" "iv_token r = qi_token item" "is_active (refresh_invoice env host now imm item r)"
    then show "is_active r \<or> iv_token r \<in> R'" using refresh_active [of env host now imm item r] reop [of "iv_token r"] by auto
  qed (simp add: refresh_id refresh_cols)
qed

lemma versions_ok_write:
  assumes ok: "versions_ok R db" and sub: "R \<subseteq> R'" and rows: "nv_invoices db' = update_where (\<lambda>r. iv_id r = i \<and> p r) f (nv_invoices db)"
    and cols: "\<And>r. iv_id (f r) = iv_id r \<and> iv_token (f r) = iv_token r \<and> iv_orderId (f r) = iv_orderId r \<and>
      iv_realizationGuid (f r) = iv_realizationGuid r"
    and reop: "\<And>tok r. is_active (f r) \<Longrightarrow> retired tok i db \<Longrightarrow> tok \<in> R'"
  shows "versions_ok R' db'"
  using ok sub rows cols by (rule versions_ok_update) (use reop in \<open>auto simp: retired_def\<close>)

lemma versions_ok_step:
  assumes ok: "versions_ok R db" and fresh: "new_ids env host (e # es) db"
  shows "versions_ok (R \<union> {tok. reopens tok e db}) (version_step env host e db)"
proof (cases e)
  case (Turn ev)
  show ?thesis
  proof (cases ev)
    case (SyncItem now n imm item)
    show ?thesis unfolding Turn SyncItem version_step.simps invoice_step.simps
      by (rule versions_ok_sync [OF ok]) (use fresh Turn SyncItem in auto)
  qed (use Turn ok in \<open>simp add: versions_ok_process\<close>)
next
  case (Claim now i)
  have "versions_ok R (version_step env host e db)" unfolding Claim version_step.simps
    by (rule versions_ok_update [OF ok subset_refl, where p = "\<lambda>r. iv_id r = i \<and> iv_state r \<in> set PROCESSABLE_STATES \<and> \<not> lease_live now r"
        and f = "\<lambda>r. r\<lparr>iv_state := I_SENDING, iv_leaseUntil := Some (now + leaseMs env), iv_attempts := iv_attempts r + 1,
          iv_lastError := None, iv_updatedAt := now\<rparr>"])
      (auto simp: claim_invoice_def Let_def processable_active)
  then show ?thesis by (rule versions_ok_mono) simp
next
  case (Retire now i)
  have "versions_ok R (version_step env host e db)" unfolding Retire version_step.simps
    by (rule versions_ok_update [OF ok subset_refl, where p = "\<lambda>r. iv_id r = i" and f = "supersede now STALE_BEFORE_SENDING"])
      (auto simp: markSuperseded_def write_invoice_def supersede_def is_active_def ACTIVE_STATES_def)
  then show ?thesis by (rule versions_ok_mono) simp
next
  case (Store w now q)
  show ?thesis unfolding Store version_step.simps
    by (rule versions_ok_write [OF ok, where i = "iv_id q" and p = "\<lambda>_. True" and f = "\<lambda>x. x\<lparr>iv_state := I_AVAILABLE,
        iv_waitReason := None, iv_lastError := None, iv_leaseUntil := None, iv_nextAttemptAt := None, iv_updatedAt := now\<rparr>"])
      (auto simp: store_only_def Let_def ack_def write_invoice_def split: sum.split)
next
  case (Finish now q cs rs)
  show ?thesis unfolding Finish version_step.simps
    by (rule versions_ok_write [OF ok, where i = "iv_id q" and p = "\<lambda>_. True" and f = "\<lambda>x. x\<lparr>iv_state := final_state cs rs,
        iv_waitReason := final_error cs rs, iv_lastError := final_error cs rs,
        iv_sentAt := (if final_state cs rs = I_SENT then Some now else None), iv_leaseUntil := None,
        iv_nextAttemptAt := (if final_state cs rs = I_SENT then None else Some (now + backoffMs env (iv_attempts q + 1))),
        iv_updatedAt := now\<rparr>"])
      (auto simp: finish_invoice_def Let_def write_invoice_def is_active_def ACTIVE_STATES_def)
next
  case (Fail w now q x)
  show ?thesis
  proof (cases "own_fault x")
    case True
    then show ?thesis using versions_ok_mono [OF ok] unfolding Fail by (simp add: fail_invoice_def own_fault_def)
  next
    case False
    show ?thesis unfolding Fail version_step.simps
      by (rule versions_ok_write [OF ok, where i = "iv_id q" and p = "\<lambda>r. iv_state r \<noteq> I_SUPERSEDED" and f = "\<lambda>r. r\<lparr>iv_state := I_ERROR,
        iv_lastError := Some (FAULT x), iv_leaseUntil := None, iv_nextAttemptAt := Some (now + backoffMs env (iv_attempts q + 1)),
        iv_updatedAt := now\<rparr>"])
        (use False in \<open>auto simp: fail_invoice_def own_fault_def invoice_frame\<close>)
  qed
qed

lemma versions_ok_run:
  "versions_ok R db \<Longrightarrow> new_ids env host es db \<Longrightarrow> versions_ok (R \<union> {tok. reopened env host es db tok}) (version_run env host es db)"
proof (induction es arbitrary: R db)
  case Nil
  then show ?case by simp
next
  case (Cons e es)
  have "versions_ok (R \<union> {tok. reopens tok e db}) (version_step env host e db)" using Cons.prems by (rule versions_ok_step)
  then have "versions_ok (R \<union> {tok. reopens tok e db} \<union> {tok. reopened env host es (version_step env host e db) tok})
      (version_run env host es (version_step env host e db))"
    using Cons.prems(2) by (intro Cons.IH) simp_all
  then show ?case unfolding version_run.simps by (rule versions_ok_mono) auto
qed


definition demo_versions :: "version_event list" where
  "demo_versions = [Turn (SyncItem 0 ''i1'' False demo_item), Claim 200 ''i1'',
     Turn (SyncItem 500 ''i2'' False (demo_item\<lparr>qi_version := 2, qi_token := ''t2'', qi_businessHash := Some ''h2''\<rparr>))]"

lemma demo_versions_ok:
  "new_ids demo_env demo_host demo_versions demo_db"
  "map iv_state (nv_invoices (version_run demo_env demo_host demo_versions demo_db)) = [I_SUPERSEDED, I_QUEUED]"
  "map iv_token (nv_invoices (version_run demo_env demo_host demo_versions demo_db)) = [''t1'', ''t2'']"
  "reopened demo_env demo_host demo_versions demo_db ''t2'' = False"
  by code_simp+


section \<open>How a withdrawn invoice comes back\<close>

lemma fail_invoice_rows:
  "\<not> own_fault e \<Longrightarrow> nv_invoices (fail_invoice env w now r e db) =
     update_where (\<lambda>x. iv_id x = iv_id r \<and> iv_state x \<noteq> I_SUPERSEDED)
       (\<lambda>x. x\<lparr>iv_state := I_ERROR, iv_lastError := Some (FAULT e), iv_leaseUntil := None,
              iv_nextAttemptAt := Some (now + backoffMs env (iv_attempts r + 1)), iv_updatedAt := now\<rparr>) (nv_invoices db)"
  by (simp add: fail_invoice_def own_fault_def invoice_frame)

lemma fail_reopens:
  assumes "y \<in> set (nv_invoices db)" and "iv_id y = iv_id r" and "iv_state y \<noteq> I_SUPERSEDED" and "\<not> own_fault e"
  shows "\<exists>x \<in> set (nv_invoices (fail_invoice env w now r e db)).
    iv_id x = iv_id r \<and> iv_state x = I_ERROR \<and> iv_state x \<in> set RETRYABLE_STATES \<and> iv_nextAttemptAt x \<noteq> None"
  unfolding fail_invoice_rows [OF assms(4)]
  by (rule bexI [OF _ update_where_hit [OF assms(1)]]) (simp_all add: assms(2,3) RETRYABLE_STATES_def)

lemma withdrawn_invoice_returns_parts:
  assumes ids: "distinct (map iv_id (nv_invoices db))" "distinct (map iv_token (nv_invoices db))"
    and r: "r \<in> set (nv_invoices db)" and item: "qi_token item = iv_token r" "mapOnecState item = I_CANCELLED"
    and known: "qi_appOrderGuid item \<noteq> []" "qi_realizationGuid item \<noteq> []" "qi_token item \<noteq> []"
      "ord \<in> set (nv_orders db)" "od_guid ord = Some (qi_appOrderGuid item)"
    and fault: "\<not> own_fault e"
  shows "\<exists>x \<in> set (nv_invoices (syncQueueItem env host now n imm item db)). iv_id x = iv_id r \<and> iv_state x = I_CANCELLED"
    and "\<exists>x \<in> set (nv_invoices (fail_invoice env w now' r e (syncQueueItem env host now n imm item db))).
      iv_id x = iv_id r \<and> iv_state x = I_ERROR \<and> iv_state x \<in> set RETRYABLE_STATES \<and> iv_nextAttemptAt x \<noteq> None"
proof -
  let ?db = "syncQueueItem env host now n imm item db"
  let ?y = "refresh_invoice env host now imm item r"
  obtain o' where "List.find (\<lambda>o'. od_guid o' = Some (qi_appOrderGuid item)) (nv_orders db) = Some o'"
    using known(4,5) by (cases "List.find (\<lambda>o'. od_guid o' = Some (qi_appOrderGuid item)) (nv_orders db)") (auto dest: find_NoneD)
  moreover have "List.find (\<lambda>r. iv_token r = qi_token item) (nv_invoices db) = Some r"
    using ids(2) r item(1) by (intro find_by_key) simp_all
  ultimately have rows: "nv_invoices ?db = update_where (\<lambda>r. iv_token r = qi_token item)
      (refresh_invoice env host now imm item) (nv_invoices db)"
    using known by (simp add: syncQueueItem_def)
  have y: "?y \<in> set (nv_invoices ?db)" unfolding rows by (rule update_where_hit [OF r]) (simp add: item(1))
  have st: "iv_id ?y = iv_id r" "iv_state ?y = I_CANCELLED"
    using item(2) by (simp_all add: refresh_invoice_def Let_def)
  show "\<exists>x \<in> set (nv_invoices ?db). iv_id x = iv_id r \<and> iv_state x = I_CANCELLED" using y st by blast
  show "\<exists>x \<in> set (nv_invoices (fail_invoice env w now' r e ?db)).
      iv_id x = iv_id r \<and> iv_state x = I_ERROR \<and> iv_state x \<in> set RETRYABLE_STATES \<and> iv_nextAttemptAt x \<noteq> None"
    using y st(1) _ fault by (rule fail_reopens) (simp add: st(2))
qed

text \<open>
  1C withdraws an invoice while a run works on it; the table then says so.  When the run fails
  afterwards, its error path takes the invoice out of the withdrawn state again and schedules another
  attempt, because it only spares superseded rows.
\<close>

theorem withdrawn_invoice_returns:
  assumes "distinct (map iv_id (nv_invoices db))" and "distinct (map iv_token (nv_invoices db))"
    and "r \<in> set (nv_invoices db)" and "qi_token item = iv_token r" and "mapOnecState item = I_CANCELLED"
    and "qi_appOrderGuid item \<noteq> []" and "qi_realizationGuid item \<noteq> []" and "qi_token item \<noteq> []"
    and "ord \<in> set (nv_orders db)" and "od_guid ord = Some (qi_appOrderGuid item)" and "\<not> own_fault e"
  shows "(\<exists>x \<in> set (nv_invoices (syncQueueItem env host now n imm item db)). iv_id x = iv_id r \<and> iv_state x = I_CANCELLED) \<and>
    (\<exists>x \<in> set (nv_invoices (fail_invoice env w now' r e (syncQueueItem env host now n imm item db))).
      iv_id x = iv_id r \<and> iv_state x = I_ERROR \<and> iv_state x \<in> set RETRYABLE_STATES \<and> iv_nextAttemptAt x \<noteq> None)"
  by (intro conjI withdrawn_invoice_returns_parts) (fact assms)+


definition demo_withdrawal :: queue_item where
  "demo_withdrawal = demo_item\<lparr>qi_state := O_WAITING, qi_waitReason := Some ''REALIZATION_DELETED''\<rparr>"

lemma demo_withdrawal_state: "mapOnecState demo_withdrawal = I_CANCELLED"
  by code_simp

lemma demo_leased_row:
  "\<exists>r. nv_invoices demo_leased = [r] \<and> iv_token r = ''t1'' \<and> iv_id r = ''i1''"
  "map iv_token (nv_invoices demo_leased) = [''t1'']" "map iv_id (nv_invoices demo_leased) = [''i1'']"
  "nv_orders demo_leased = nv_orders demo_db"
proof -
  show tok: "map iv_token (nv_invoices demo_leased) = [''t1'']" and ids: "map iv_id (nv_invoices demo_leased) = [''i1'']"
    by code_simp+
  then show "\<exists>r. nv_invoices demo_leased = [r] \<and> iv_token r = ''t1'' \<and> iv_id r = ''i1''"
    by (cases "nv_invoices demo_leased") auto
  show "nv_orders demo_leased = nv_orders demo_db"
    by (simp add: demo_leased_def demo_queued_def invoice_frame)
qed

theorem withdrawn_invoice_returns_witness:
  "\<exists>r. nv_invoices demo_leased = [r] \<and>
     (\<exists>x \<in> set (nv_invoices (fail_invoice demo_env demo_world 3000 r (EXTERNAL ''timeout'')
        (syncQueueItem demo_env demo_host 2000 ''i2'' False demo_withdrawal demo_leased))).
      iv_id x = iv_id r \<and> iv_state x = I_ERROR)"
proof -
  obtain r where r: "nv_invoices demo_leased = [r]" "iv_token r = ''t1''" "iv_id r = ''i1''"
    using demo_leased_row(1) by blast
  have "\<exists>x \<in> set (nv_invoices (fail_invoice demo_env demo_world 3000 r (EXTERNAL ''timeout'')
        (syncQueueItem demo_env demo_host 2000 ''i2'' False demo_withdrawal demo_leased))).
      iv_id x = iv_id r \<and> iv_state x = I_ERROR \<and> iv_state x \<in> set RETRYABLE_STATES \<and> iv_nextAttemptAt x \<noteq> None"
    by (rule withdrawn_invoice_returns [where ord = "hd (nv_orders demo_db)", THEN conjunct2])
      (simp_all add: r demo_withdrawal_state demo_leased_row(4) own_fault_def,
       simp_all add: demo_withdrawal_def demo_item_def demo_db_def)
  then show ?thesis using r(1) by auto
qed

end
