(* ===== verification/Invoice_Access.thy ===== *)
theory Invoice_Access
  imports Invoice_Sync
begin

text \<open>
  The invoice endpoints of \<^verbatim>\<open>src/src/modules/clientOrders/clientOrderInvoices.service.ts\<close>:
  which order a user may look at, the lists of its invoices, the manual request and the download.

  Reads from the live 1C system (\<^verbatim>\<open>clientOrders.onecLive.ts\<close>) are a parameter, given
  as the records that module returns; the search among a returned page is modelled.
\<close>

section \<open>Identities\<close>

definition normalizedString :: "string option \<Rightarrow> string" where
  "normalizedString value = (case value of None \<Rightarrow> [] | Some s \<Rightarrow> js_lower (js_trim s))"

record identity =
  id_appGuid :: string
  id_documentGuid :: string
  id_managerGuid :: string
  id_number1c :: string

definition or_text :: "string \<Rightarrow> string \<Rightarrow> string" where
  "or_text a b = (if a = [] then b else a)"

definition snapshotIdentity :: "snapshot \<Rightarrow> identity" where
  "snapshotIdentity s =
     (let item = nullish (sn_item s) (sn_root s);
          field = (\<lambda>f. normalizedString (Option.bind item f))
      in \<lparr>id_appGuid = field sf_appGuid, id_documentGuid = or_text (field sf_documentGuid) (field sf_guid),
          id_managerGuid = field sf_managerGuid, id_number1c = field sf_number1c\<rparr>)"

definition findOrderByInvoiceIdentifier :: "string \<Rightarrow> order list \<Rightarrow> order option" where
  "findOrderByInvoiceIdentifier identifier orders =
     (let normalizedIdentifier = js_lower (js_trim identifier);
          field = (\<lambda>level f o'. Option.bind (level (od_snapshot o')) f = Some normalizedIdentifier)
      in case List.find (\<lambda>o'. od_guid o' = Some normalizedIdentifier) orders of
           Some direct \<Rightarrow> Some direct
         | None \<Rightarrow> List.find (\<lambda>o'. field sn_item sf_appGuid o' \<or> field sn_item sf_documentGuid o' \<or> field sn_item sf_guid o' \<or>
                     field sn_root sf_appGuid o' \<or> field sn_root sf_documentGuid o' \<or> field sn_root sf_guid o') orders)"

section \<open>Live reads\<close>

record live_party =
  lp_guid :: string
  lp_name :: "string option"
  lp_fullName :: "string option"
  lp_inn :: "string option"
  lp_kpp :: "string option"

record live_organization =
  lo_guid :: "string option"
  lo_name :: "string option"
  lo_code :: "string option"
  lo_isActive :: "bool option"

record live_order =
  lv_guid :: "string option"
  lv_appGuid :: "string option"
  lv_documentGuid :: "string option"
  lv_managerGuid :: "string option"
  lv_number1c :: "string option"
  lv_counterparty :: "live_party option"
  lv_organization :: "live_organization option"
  lv_date1c :: "string option"
  lv_revision :: "int option"
  lv_status :: string
  lv_comment :: "string option"
  lv_deliveryDate :: "string option"
  lv_paymentForm :: "string option"
  lv_deliveryMethod :: "string option"
  lv_totalAmount :: "rat option"
  lv_currency :: string
  lv_sentTo1cAt :: "string option"
  lv_lastStatusSyncAt :: "string option"
  lv_isPostedIn1c :: bool
  lv_hasRealization :: bool

text \<open>
  What 1C answers: a page of orders for a manager and the two search keys, and the detail of a
  document for a manager; both can fail.
\<close>

record live =
  li_page :: "string \<Rightarrow> string option \<Rightarrow> string option \<Rightarrow> live_order list call"
  li_detail :: "string \<Rightarrow> string \<Rightarrow> live_order call"

definition findLiveClientOrder :: "live \<Rightarrow> string \<Rightarrow> string option \<Rightarrow> string option \<Rightarrow> live_order option call" where
  "findLiveClientOrder li managerGuid appGuid number1c =
     (case li_page li managerGuid appGuid number1c of
        Inl e \<Rightarrow> Inl e
      | Inr page \<Rightarrow>
          let same = (\<lambda>wanted f item. truthy wanted \<and> map_option js_lower (f item) = map_option js_lower wanted)
          in Inr (nullish (List.find (same appGuid lv_appGuid) page) (List.find (same number1c lv_number1c) page)))"

section \<open>Orders created for 1C documents\<close>

record counterparty =
  cp_id :: string
  cp_guid :: string
  cp_name :: string
  cp_fullName :: "string option"
  cp_inn :: "string option"
  cp_kpp :: "string option"
  cp_isActive :: bool
  cp_sourceUpdatedAt :: "millis option"
  cp_lastSyncedAt :: "millis option"

record organization =
  og_id :: string
  og_guid :: string
  og_name :: string
  og_code :: "string option"
  og_isActive :: bool
  og_sourceUpdatedAt :: "millis option"
  og_lastSyncedAt :: "millis option"

record access_state =
  as_db :: invoice_db
  as_counterparties :: "counterparty list"
  as_organizations :: "organization list"
  as_managerGuid :: "user_id \<Rightarrow> string option"

text \<open>Identifiers the database generates, and whether the transaction fails.\<close>

record draw =
  dw_orderId :: string
  dw_counterpartyId :: string
  dw_organizationId :: string
  dw_fails :: bool

definition dateOrNull :: "(string \<Rightarrow> millis option) \<Rightarrow> string option \<Rightarrow> millis option" where
  "dateOrNull host_date value = (if \<not> truthy value then None else host_date (the value))"

definition shadowOrderStatus :: "string \<Rightarrow> string" where
  "shadowOrderStatus status =
     (if status \<in> set [''DRAFT'', ''QUEUED'', ''SENT_TO_1C'', ''CONFIRMED'', ''PARTIAL'', ''REJECTED'', ''CANCELLED''] then status
      else ''CONFIRMED'')"

definition upsert_counterparty :: "string \<Rightarrow> live_party \<Rightarrow> millis \<Rightarrow> counterparty list \<Rightarrow> string \<times> counterparty list" where
  "upsert_counterparty newId p stamp rows =
     (let name = the (js_or (lp_name p) (Some (lp_guid p))) in
      case List.find (\<lambda>c. cp_guid c = lp_guid p) rows of
        Some c \<Rightarrow>
          (cp_id c,
           update_where (\<lambda>c. cp_guid c = lp_guid p)
             (\<lambda>c. c\<lparr>cp_name := name, cp_fullName := lp_fullName p, cp_inn := lp_inn p, cp_kpp := lp_kpp p,
                    cp_sourceUpdatedAt := Some stamp, cp_lastSyncedAt := Some stamp\<rparr>) rows)
      | None \<Rightarrow>
          (newId,
           rows @ [\<lparr>cp_id = newId, cp_guid = lp_guid p, cp_name = name, cp_fullName = lp_fullName p, cp_inn = lp_inn p,
                    cp_kpp = lp_kpp p, cp_isActive = True, cp_sourceUpdatedAt = Some stamp, cp_lastSyncedAt = Some stamp\<rparr>]))"

definition upsert_organization ::
  "string \<Rightarrow> live_organization option \<Rightarrow> millis \<Rightarrow> organization list \<Rightarrow> string option \<times> organization list" where
  "upsert_organization newId org stamp rows =
     (case org of
        None \<Rightarrow> (None, rows)
      | Some p \<Rightarrow>
          if \<not> truthy (lo_guid p) then (None, rows)
          else
            let guid = the (lo_guid p); name = the (js_or (lo_name p) (Some guid));
                active = (case lo_isActive p of None \<Rightarrow> True | Some b \<Rightarrow> b)
            in case List.find (\<lambda>g. og_guid g = guid) rows of
                 Some g \<Rightarrow>
                   (Some (og_id g),
                    update_where (\<lambda>g. og_guid g = guid)
                      (\<lambda>g. g\<lparr>og_name := name, og_code := lo_code p, og_isActive := active,
                             og_sourceUpdatedAt := Some stamp, og_lastSyncedAt := Some stamp\<rparr>) rows)
               | None \<Rightarrow>
                   (Some newId,
                    rows @ [\<lparr>og_id = newId, og_guid = guid, og_name = name, og_code = lo_code p, og_isActive = active,
                             og_sourceUpdatedAt = Some stamp, og_lastSyncedAt = Some stamp\<rparr>]))"

definition live_identity :: "live_order \<Rightarrow> snapshot_fields" where
  "live_identity d =
     \<lparr>sf_appGuid = lv_appGuid d, sf_documentGuid = lv_documentGuid d, sf_guid = lv_guid d,
      sf_managerGuid = lv_managerGuid d, sf_number1c = lv_number1c d\<rparr>"

definition shadow_columns ::
  "(string \<Rightarrow> millis option) \<Rightarrow> live_order \<Rightarrow> string \<Rightarrow> string option \<Rightarrow> millis \<Rightarrow> order_columns" where
  "shadow_columns host_date d counterpartyId organizationId stamp =
     \<lparr>oc_date1c = dateOrNull host_date (lv_date1c d), oc_source = ''MANAGER_APP'',
      oc_revision = max 1 (if truthy_int (lv_revision d) then the (lv_revision d) else 1), oc_syncState = ''SYNCED'',
      oc_status = shadowOrderStatus (lv_status d), oc_counterpartyId = counterpartyId, oc_organizationId = organizationId,
      oc_comment = lv_comment d, oc_deliveryDate = dateOrNull host_date (lv_deliveryDate d), oc_paymentForm = lv_paymentForm d,
      oc_deliveryMethod = lv_deliveryMethod d, oc_totalAmount = lv_totalAmount d, oc_currency = lv_currency d,
      oc_sentTo1cAt = dateOrNull host_date (lv_sentTo1cAt d), oc_lastStatusSyncAt = Some stamp,
      oc_isPostedIn1c = lv_isPostedIn1c d, oc_hasRealization = lv_hasRealization d,
      oc_realizationDetectedAt = (if lv_hasRealization d then Some stamp else None),
      oc_sourceUpdatedAt = Some stamp, oc_lastSyncedAt = Some stamp\<rparr>"

definition createInvoiceShadowOrder ::
  "(string \<Rightarrow> millis option) \<Rightarrow> millis \<Rightarrow> draw \<Rightarrow> live_order \<Rightarrow> user_id \<Rightarrow> access_state \<Rightarrow> order option \<times> access_state" where
  "createInvoiceShadowOrder host_date now dw detail userId s =
     (let orderGuid = or_text (normalizedString (lv_appGuid detail))
            (or_text (normalizedString (lv_documentGuid detail)) (normalizedString (lv_guid detail)));
          guid = (case lv_counterparty detail of None \<Rightarrow> [] | Some p \<Rightarrow> lp_guid p);
          stamp = (case dateOrNull host_date (lv_lastStatusSyncAt detail) of None \<Rightarrow> now | Some t \<Rightarrow> t);
          existing = List.find (\<lambda>o'. od_guid o' = Some orderGuid \<or>
              (truthy (lv_number1c detail) \<and> od_number1c o' = lv_number1c detail)) (nv_orders (as_db s))
      in if orderGuid = [] \<or> guid = [] then (None, s)
         else if existing \<noteq> None \<or> dw_fails dw then (existing, s)
         else
           let (counterpartyId, cs) = upsert_counterparty (dw_counterpartyId dw) (the (lv_counterparty detail)) stamp (as_counterparties s);
               (organizationId, os) = upsert_organization (dw_organizationId dw) (lv_organization detail) stamp (as_organizations s);
               order = \<lparr>od_id = dw_orderId dw, od_guid = Some orderGuid, od_number1c = lv_number1c detail,
                 od_createdBy = Some userId, od_invoiceRequested = False,
                 od_snapshot = \<lparr>sn_root = Some \<lparr>sf_appGuid = None, sf_documentGuid = None, sf_guid = None,
                                 sf_managerGuid = None, sf_number1c = None\<rparr>,
                               sn_item = Some (live_identity detail)\<rparr>,
                 od_columns = shadow_columns host_date detail counterpartyId organizationId stamp\<rparr>
           in (Some order,
               s\<lparr>as_db := (as_db s)\<lparr>nv_orders := nv_orders (as_db s) @ [order]\<rparr>, as_counterparties := cs,
                 as_organizations := os\<rparr>))"

section \<open>Which order a user may see\<close>

definition managerGuidForUser :: "user_id \<Rightarrow> access_state \<Rightarrow> string" where
  "managerGuidForUser userId s = normalizedString (as_managerGuid s userId)"

definition isOrderVisibleToManager :: "live \<Rightarrow> order \<Rightarrow> string \<Rightarrow> bool" where
  "isOrderVisibleToManager li order managerGuid =
     (let snap = snapshotIdentity (od_snapshot order) in
      (id_managerGuid snap \<noteq> [] \<and> id_managerGuid snap = managerGuid) \<or>
      (case findLiveClientOrder li managerGuid
              (js_or (od_guid order) (non_empty (id_appGuid snap)))
              (js_or (od_number1c order) (non_empty (id_number1c snap))) of
         Inl _ \<Rightarrow> False
       | Inr found \<Rightarrow> found \<noteq> None))"

definition findOrderThroughLiveDocument ::
  "(string \<Rightarrow> millis option) \<Rightarrow> live \<Rightarrow> millis \<Rightarrow> draw \<Rightarrow> string \<Rightarrow> string \<Rightarrow> user_id \<Rightarrow> access_state \<Rightarrow> order option \<times> access_state" where
  "findOrderThroughLiveDocument host_date li now dw identifier managerGuid userId s =
     (case li_detail li identifier managerGuid of
        Inl _ \<Rightarrow> (None, s)
      | Inr detail \<Rightarrow>
          if normalizedString (lv_managerGuid detail) \<noteq> managerGuid then (None, s)
          else case List.find (\<lambda>o'. (truthy (lv_appGuid detail) \<and> od_guid o' = lv_appGuid detail) \<or>
                 (truthy (lv_documentGuid detail) \<and> od_guid o' = lv_documentGuid detail) \<or>
                 (truthy (lv_number1c detail) \<and> od_number1c o' = lv_number1c detail)) (nv_orders (as_db s)) of
            Some existing \<Rightarrow> (Some existing, s)
          | None \<Rightarrow> createInvoiceShadowOrder host_date now dw detail userId s)"

definition resolveAccessibleOrder ::
  "(string \<Rightarrow> millis option) \<Rightarrow> live \<Rightarrow> millis \<Rightarrow> draw \<Rightarrow> string \<Rightarrow> user_id \<Rightarrow> access_state \<Rightarrow> order option \<times> access_state" where
  "resolveAccessibleOrder host_date li now dw identifier userId s =
     (let managerGuid = managerGuidForUser userId s in
      case findOrderByInvoiceIdentifier identifier (nv_orders (as_db s)) of
        Some order \<Rightarrow>
          if od_createdBy order = Some userId then (Some order, s)
          else if managerGuid = [] then (None, s)
          else if isOrderVisibleToManager li order managerGuid then (Some order, s)
          else (None, s)
      | None \<Rightarrow>
          if managerGuid = [] then (None, s)
          else (case findOrderThroughLiveDocument host_date li now dw identifier managerGuid userId s of
                  (None, s1) \<Rightarrow> (None, s1)
                | (Some order, s1) \<Rightarrow>
                    if od_createdBy order = Some userId \<or> isOrderVisibleToManager li order managerGuid
                    then (Some order, s1) else (None, s1)))"

section \<open>Endpoints\<close>

record invoice_view =
  vw_id :: string
  vw_realizationGuid :: string
  vw_realizationNumber :: "string option"
  vw_realizationDate :: "millis option"
  vw_version :: int
  vw_state :: invoice_state
  vw_waitReason :: "remark option"
  vw_downloadAvailable :: bool
  vw_fileName :: "file_name option"
  vw_sentAt :: "millis option"

definition mapInvoice :: "invoice \<Rightarrow> invoice_view" where
  "mapInvoice r =
     \<lparr>vw_id = iv_id r, vw_realizationGuid = iv_realizationGuid r,
      vw_realizationNumber = ii_realizationNumber (iv_info r), vw_realizationDate = ii_realizationDate (iv_info r), vw_version = iv_version r, vw_state = iv_state r,
      vw_waitReason = nullish (iv_waitReason r) (iv_lastError r),
      vw_downloadAvailable = truthy (iv_s3Key r), vw_fileName = iv_fileName r, vw_sentAt = iv_sentAt r\<rparr>"

text \<open>Shown invoices: neither superseded nor withdrawn, by realization, newest version and update first.\<close>

definition shown_invoices :: "(string \<Rightarrow> int) \<Rightarrow> string \<Rightarrow> invoice_db \<Rightarrow> invoice list" where
  "shown_invoices collate orderId db =
     sort_key (\<lambda>r. collate (iv_realizationGuid r)) (sort_key (\<lambda>r. - iv_version r) (sort_key (\<lambda>r. - iv_updatedAt r)
       (filter (\<lambda>r. iv_orderId r = orderId \<and> iv_state r \<notin> {I_SUPERSEDED, I_CANCELLED}) (nv_invoices db))))"

text \<open>\<open>RELISTING_FAILED\<close> is the list's own error, reported as a failed request.\<close>

datatype service_error =
    ORDER_NOT_FOUND | INVOICE_NOT_READY | REQUEST_CONFLICT string | REQUEST_FAILED string | RELISTING_FAILED

definition listClientOrderInvoices ::
  "(string \<Rightarrow> millis option) \<Rightarrow> (string \<Rightarrow> int) \<Rightarrow> live \<Rightarrow> millis \<Rightarrow> draw \<Rightarrow> string \<Rightarrow> user_id \<Rightarrow> access_state \<Rightarrow>
   (service_error + invoice_view list) \<times> access_state" where
  "listClientOrderInvoices host_date collate li now dw guid userId s =
     (case resolveAccessibleOrder host_date li now dw guid userId s of
        (None, s1) \<Rightarrow> (Inl ORDER_NOT_FOUND, s1)
      | (Some order, s1) \<Rightarrow> (Inr (map mapInvoice (shown_invoices collate (od_id order) (as_db s1))), s1))"

text \<open>
  The polling projection.  The map from identifiers to orders is filled in the order the rows come; a
  later row replaces an earlier one.
\<close>

definition order_keys :: "order \<Rightarrow> string list" where
  "order_keys order =
     (let snap = snapshotIdentity (od_snapshot order) in
      filter (\<lambda>k. k \<noteq> [])
        (map normalizedString [od_guid order, od_number1c order, Some (id_appGuid snap), Some (id_documentGuid snap),
           Some (id_number1c snap)]))"

definition addOrderIdentifiers :: "order \<Rightarrow> (string \<rightharpoonup> order) \<Rightarrow> (string \<rightharpoonup> order)" where
  "addOrderIdentifiers order m = fold (\<lambda>k m. m(k \<mapsto> order)) (order_keys order) m"

definition identityFilter :: "string list \<Rightarrow> order \<Rightarrow> bool" where
  "identityFilter values order \<longleftrightarrow>
     (\<exists>v \<in> set values. od_guid order = Some v) \<or> (\<exists>v \<in> set values. od_number1c order = Some v)"

definition snapshot_manager :: "string \<Rightarrow> order \<Rightarrow> bool" where
  "snapshot_manager managerGuid order \<longleftrightarrow>
     Option.bind (sn_item (od_snapshot order)) sf_managerGuid = Some managerGuid \<or>
     Option.bind (sn_root (od_snapshot order)) sf_managerGuid = Some managerGuid"

definition first_occurrences :: "'a list \<Rightarrow> 'a list" where
  "first_occurrences xs = fold (\<lambda>x seen. if x \<in> set seen then seen else seen @ [x]) xs []"

definition listClientOrderInvoiceStatuses ::
  "(string \<Rightarrow> int) \<Rightarrow> string list \<Rightarrow> user_id \<Rightarrow> access_state \<Rightarrow> (string \<times> invoice_view list) list" where
  "listClientOrderInvoiceStatuses collate identifiers userId s =
     (let normalizedIdentifiers =
            take 100 (first_occurrences (filter (\<lambda>v. v \<noteq> []) (map (\<lambda>v. normalizedString (Some v)) identifiers)));
          orders = nv_orders (as_db s);
          ownedOrders = filter (\<lambda>o'. identityFilter normalizedIdentifiers o' \<and> od_createdBy o' = Some userId) orders;
          byOwner = fold addOrderIdentifiers ownedOrders (\<lambda>_. None);
          unresolved = filter (\<lambda>v. byOwner v = None) normalizedIdentifiers;
          managerGuid = managerGuidForUser userId s;
          visibleOrders = (if unresolved = [] \<or> managerGuid = [] then []
             else filter (\<lambda>o'. identityFilter unresolved o' \<and> snapshot_manager managerGuid o') orders);
          byIdentifier = fold addOrderIdentifiers visibleOrders byOwner
      in map (\<lambda>v. (v, case byIdentifier v of
                        None \<Rightarrow> []
                      | Some order \<Rightarrow> map mapInvoice (shown_invoices collate (od_id order) (as_db s)))) normalizedIdentifiers)"

text \<open>What 1C answers to a manual request; a failure carries the upstream status, if any.\<close>

record request_answer =
  ra_requested :: "bool option"
  ra_message :: "string option"
  ra_protocolVersion :: "string option"
  ra_items :: "queue_item list option"

record request_view =
  rv_requested :: bool
  rv_message :: "string option"
  rv_invoices :: "invoice_view list"
  rv_started :: "string list"

definition requestClientOrderInvoice ::
  "settings \<Rightarrow> (string \<Rightarrow> millis option) \<Rightarrow> (string \<Rightarrow> int) \<Rightarrow> live \<Rightarrow> millis \<Rightarrow> draw \<Rightarrow> (string \<Rightarrow> string) \<Rightarrow>
   (string \<Rightarrow> (int option \<times> string) + request_answer) \<Rightarrow> string \<Rightarrow> user_id \<Rightarrow> access_state \<Rightarrow>
   (service_error + request_view) \<times> access_state" where
  "requestClientOrderInvoice env host_date collate li now dw newId request guid userId s =
     (case resolveAccessibleOrder host_date li now dw guid userId s of
        (None, s1) \<Rightarrow> (Inl ORDER_NOT_FOUND, s1)
      | (Some order, s1) \<Rightarrow>
          if \<not> truthy (od_guid order) then (Inl ORDER_NOT_FOUND, s1)
          else case request (the (od_guid order)) of
            Inl (status, msg) \<Rightarrow> (Inl (if status = Some 409 then REQUEST_CONFLICT msg else REQUEST_FAILED msg), s1)
          | Inr answer \<Rightarrow>
              let queueItems = (case ra_items answer of None \<Rightarrow> [] | Some is \<Rightarrow> is);
                  immediate = (ra_protocolVersion answer = Some ''2026-08-05-immediate-invoice-v2'');
                  db1 = fold (\<lambda>item. syncQueueItem env host_date now (newId (qi_token item)) immediate item) queueItems (as_db s1);
                  s2 = s1\<lparr>as_db := db1\<rparr>;
                  tokens = filter (\<lambda>t. t \<noteq> []) (map qi_token queueItems);
                  candidates = filter (\<lambda>r. iv_orderId r = od_id order \<and> iv_token r \<in> set tokens \<and> iv_state r = I_QUEUED \<and>
                    (immediate \<or> due now (iv_readyAt r))) (nv_invoices db1)
              in (case listClientOrderInvoices host_date collate li now dw guid userId s2 of
                    (Inl e, s3) \<Rightarrow> (Inl RELISTING_FAILED, s3)
                  | (Inr items, s3) \<Rightarrow>
                      (Inr \<lparr>rv_requested = (ra_requested answer \<noteq> Some False), rv_message = ra_message answer,
                            rv_invoices = items, rv_started = map iv_id candidates\<rparr>, s3)))"

record download =
  do_body :: string
  do_contentType :: string
  do_fileName :: "file_name option"

text \<open>\<open>fetch\<close> reads the object store; without a stored name the file is called after the invoice.\<close>

definition downloadClientOrderInvoice ::
  "(string \<Rightarrow> millis option) \<Rightarrow> live \<Rightarrow> millis \<Rightarrow> draw \<Rightarrow> (string \<Rightarrow> string \<times> string option) \<Rightarrow> string \<Rightarrow> string \<Rightarrow> user_id \<Rightarrow>
   access_state \<Rightarrow> (service_error + download) \<times> access_state" where
  "downloadClientOrderInvoice host_date li now dw fetch guid invoiceId userId s =
     (case resolveAccessibleOrder host_date li now dw guid userId s of
        (None, s1) \<Rightarrow> (Inl ORDER_NOT_FOUND, s1)
      | (Some order, s1) \<Rightarrow>
          (case List.find (\<lambda>r. iv_id r = invoiceId \<and> iv_orderId r = od_id order \<and> iv_s3Key r \<noteq> None) (nv_invoices (as_db s1)) of
             None \<Rightarrow> (Inl INVOICE_NOT_READY, s1)
           | Some r \<Rightarrow>
               if \<not> truthy (iv_s3Key r) then (Inl INVOICE_NOT_READY, s1)
               else
                 let (body, contentType) = fetch (the (iv_s3Key r))
                 in (Inr \<lparr>do_body = body,
                          do_contentType = the (js_or (iv_contentType r) (js_or contentType (Some ''application/pdf''))),
                          do_fileName = iv_fileName r\<rparr>, s1)))"

section \<open>Access is limited to the user's own and the manager's orders\<close>

text \<open>
  Who may see an order, in terms of the stored data and of what 1C answers: its creator, for an order
  that existed before the request; and the manager whom its stored 1C snapshot names, or for whom
  1C lists a document with its guid or its number.  An order that the request itself creates counts by its
  snapshot only.
\<close>

definition names_manager :: "string \<Rightarrow> order \<Rightarrow> bool" where
  "names_manager m ord \<longleftrightarrow>
     (\<exists>name. Option.bind (nullish (sn_item (od_snapshot ord)) (sn_root (od_snapshot ord))) sf_managerGuid = Some name \<and>
        js_lower (js_trim name) = m)"

definition listed_for :: "live \<Rightarrow> string \<Rightarrow> order \<Rightarrow> bool" where
  "listed_for li m ord \<longleftrightarrow>
     (\<exists>a n page d g. li_page li m a n = Inr page \<and> d \<in> set page \<and> g \<noteq> [] \<and>
        ((od_guid ord = Some g \<or> id_appGuid (snapshotIdentity (od_snapshot ord)) = g) \<and>
            map_option js_lower (lv_appGuid d) = Some (js_lower g) \<or>
         (od_number1c ord = Some g \<or> id_number1c (snapshotIdentity (od_snapshot ord)) = g) \<and>
            map_option js_lower (lv_number1c d) = Some (js_lower g)))"

definition may_see :: "live \<Rightarrow> user_id \<Rightarrow> access_state \<Rightarrow> order \<Rightarrow> bool" where
  "may_see li userId s ord \<longleftrightarrow>
     ord \<in> set (nv_orders (as_db s)) \<and> od_createdBy ord = Some userId \<or>
     (\<exists>raw m. as_managerGuid s userId = Some raw \<and> m = js_lower (js_trim raw) \<and> m \<noteq> [] \<and>
        (names_manager m ord \<or> listed_for li m ord))"

lemma normalized_ne: "normalizedString v = m \<Longrightarrow> m \<noteq> [] \<Longrightarrow> \<exists>raw. v = Some raw \<and> m = js_lower (js_trim raw)"
  by (auto simp: normalizedString_def split: option.splits)

lemma search_key: "truthy (js_or a (non_empty b)) \<Longrightarrow> \<exists>g. js_or a (non_empty b) = Some g \<and> g \<noteq> [] \<and> (a = Some g \<or> b = g)"
  by (auto simp: js_or_def truthy_def non_empty_def split: if_splits option.splits)

lemma manager_ne:
  "managerGuidForUser u s \<noteq> [] \<Longrightarrow> \<exists>raw. as_managerGuid s u = Some raw \<and> managerGuidForUser u s = js_lower (js_trim raw)"
  by (auto simp: managerGuidForUser_def normalizedString_def split: option.splits)

lemma manager_may_see:
  assumes "managerGuidForUser u s \<noteq> []" and "names_manager (managerGuidForUser u s) ord \<or> listed_for li (managerGuidForUser u s) ord"
  shows "may_see li u s ord"
  using manager_ne [OF assms(1)] assms unfolding may_see_def by blast

lemma found_live:
  assumes "findLiveClientOrder li m a n = Inr found" and "found \<noteq> None"
  shows "\<exists>page d. li_page li m a n = Inr page \<and> d \<in> set page \<and>
    (truthy a \<and> map_option js_lower (lv_appGuid d) = map_option js_lower a \<or>
     truthy n \<and> map_option js_lower (lv_number1c d) = map_option js_lower n)"
proof -
  obtain page where page: "li_page li m a n = Inr page" using assms(1) by (auto simp: findLiveClientOrder_def split: sum.splits)
  let ?same = "\<lambda>wanted f item. truthy wanted \<and> map_option js_lower (f item) = map_option js_lower wanted"
  have "nullish (List.find (?same a lv_appGuid) page) (List.find (?same n lv_number1c) page) \<noteq> None"
    using assms page by (simp add: findLiveClientOrder_def)
  then obtain d where "List.find (?same a lv_appGuid) page = Some d \<or> List.find (?same n lv_number1c) page = Some d"
    by (auto simp: nullish_def split: option.splits)
  then show ?thesis using page by (metis (mono_tags, lifting) find_SomeD)
qed

lemma visible_means:
  assumes "isOrderVisibleToManager li ord m" and "m \<noteq> []"
  shows "names_manager m ord \<or> listed_for li m ord"
proof (cases "id_managerGuid (snapshotIdentity (od_snapshot ord)) = m")
  case True
  then have "normalizedString (Option.bind (nullish (sn_item (od_snapshot ord)) (sn_root (od_snapshot ord))) sf_managerGuid) = m"
    by (simp add: snapshotIdentity_def Let_def)
  then show ?thesis using normalized_ne assms(2) unfolding names_manager_def by metis
next
  case False
  let ?snap = "snapshotIdentity (od_snapshot ord)"
  let ?a = "js_or (od_guid ord) (non_empty (id_appGuid ?snap))" and ?n = "js_or (od_number1c ord) (non_empty (id_number1c ?snap))"
  obtain found where "findLiveClientOrder li m ?a ?n = Inr found" "found \<noteq> None"
    using assms(1) False by (auto simp: isOrderVisibleToManager_def Let_def split: sum.splits)
  then obtain page d where page: "li_page li m ?a ?n = Inr page" "d \<in> set page"
    and hit: "truthy ?a \<and> map_option js_lower (lv_appGuid d) = map_option js_lower ?a \<or>
      truthy ?n \<and> map_option js_lower (lv_number1c d) = map_option js_lower ?n" using found_live by blast
  from hit have "listed_for li m ord"
  proof
    assume h: "truthy ?a \<and> map_option js_lower (lv_appGuid d) = map_option js_lower ?a"
    then obtain g where "?a = Some g" "g \<noteq> []" "od_guid ord = Some g \<or> id_appGuid ?snap = g" using search_key by blast
    then show ?thesis unfolding listed_for_def using page h by (metis option.map(2))
  next
    assume h: "truthy ?n \<and> map_option js_lower (lv_number1c d) = map_option js_lower ?n"
    then obtain g where "?n = Some g" "g \<noteq> []" "od_number1c ord = Some g \<or> id_number1c ?snap = g" using search_key by blast
    then show ?thesis unfolding listed_for_def using page h by (metis option.map(2))
  qed
  then show ?thesis by simp
qed

lemma visible_may_see:
  assumes "isOrderVisibleToManager li ord (managerGuidForUser u s)" and "managerGuidForUser u s \<noteq> []"
  shows "may_see li u s ord"
  by (rule manager_may_see [OF assms(2) visible_means [OF assms]])

text \<open>An order created for a live document carries the identity of that document.\<close>

lemma shadow_snapshot:
  assumes "createInvoiceShadowOrder host now dw detail u s = (Some ord, s1)"
  shows "ord \<in> set (nv_orders (as_db s)) \<or> sn_item (od_snapshot ord) = Some (live_identity detail)"
  using assms by (auto simp: createInvoiceShadowOrder_def Let_def dest: find_SomeD split: if_splits prod.splits)

lemma shadow_names:
  assumes "createInvoiceShadowOrder host now dw detail u s = (Some ord, s1)" and "normalizedString (lv_managerGuid detail) = m" and "m \<noteq> []"
  shows "ord \<in> set (nv_orders (as_db s)) \<or> names_manager m ord"
  using shadow_snapshot [OF assms(1)]
proof
  assume item: "sn_item (od_snapshot ord) = Some (live_identity detail)"
  obtain raw where raw: "lv_managerGuid detail = Some raw" "m = js_lower (js_trim raw)" using normalized_ne [OF assms(2,3)] by blast
  have "Option.bind (nullish (sn_item (od_snapshot ord)) (sn_root (od_snapshot ord))) sf_managerGuid = Some raw"
    unfolding item by (simp add: nullish_def live_identity_def raw(1))
  then show ?thesis using raw(2) unfolding names_manager_def by blast
qed simp

lemma live_document_names:
  assumes "findOrderThroughLiveDocument host li now dw i m u s = (Some ord, s1)" and "m \<noteq> []"
  shows "ord \<in> set (nv_orders (as_db s)) \<or> names_manager m ord"
  using assms
  by (auto simp: findOrderThroughLiveDocument_def dest: find_SomeD shadow_names split: sum.splits if_splits option.splits)

lemma shadow_result:
  assumes "createInvoiceShadowOrder host now dw detail u s = (Some ord, s1)"
  shows "ord \<in> set (nv_orders (as_db s1)) \<and> nv_invoices (as_db s1) = nv_invoices (as_db s)"
  using assms by (auto simp: createInvoiceShadowOrder_def Let_def dest: find_SomeD split: if_splits prod.splits)

lemma live_document_result:
  assumes "findOrderThroughLiveDocument host li now dw i mg u s = (Some ord, s1)"
  shows "ord \<in> set (nv_orders (as_db s1)) \<and> nv_invoices (as_db s1) = nv_invoices (as_db s)"
  using assms
  by (auto simp: findOrderThroughLiveDocument_def dest: find_SomeD shadow_result split: sum.splits if_splits option.splits)

lemma identifier_result: "findOrderByInvoiceIdentifier i os = Some ord \<Longrightarrow> ord \<in> set os"
  by (auto simp: findOrderByInvoiceIdentifier_def Let_def dest: find_SomeD split: option.splits)

lemma resolve_sound:
  assumes "resolveAccessibleOrder host li now dw i u s = (Some ord, s1)"
  shows "may_see li u s ord" and "ord \<in> set (nv_orders (as_db s1))" and "nv_invoices (as_db s1) = nv_invoices (as_db s)"
proof -
  have "may_see li u s ord \<and> ord \<in> set (nv_orders (as_db s1)) \<and> nv_invoices (as_db s1) = nv_invoices (as_db s)"
  proof (cases "findOrderByInvoiceIdentifier i (nv_orders (as_db s))")
    case None
    then have m: "managerGuidForUser u s \<noteq> []"
      and live: "findOrderThroughLiveDocument host li now dw i (managerGuidForUser u s) u s = (Some ord, s1)"
      and seen: "od_createdBy ord = Some u \<or> isOrderVisibleToManager li ord (managerGuidForUser u s)"
      using assms by (auto simp: resolveAccessibleOrder_def Let_def split: if_splits prod.splits option.splits)
    have "may_see li u s ord"
    proof (cases "ord \<in> set (nv_orders (as_db s))")
      case True
      then show ?thesis using seen visible_may_see [OF _ m] by (auto simp: may_see_def)
    next
      case False
      then have "names_manager (managerGuidForUser u s) ord" using live_document_names [OF live m] by simp
      then show ?thesis using manager_may_see [OF m] by blast
    qed
    then show ?thesis using live_document_result [OF live] by simp
  next
    case (Some o')
    then have "ord = o'" "s1 = s" and seen: "od_createdBy o' = Some u \<or>
        managerGuidForUser u s \<noteq> [] \<and> isOrderVisibleToManager li o' (managerGuidForUser u s)"
      using assms by (auto simp: resolveAccessibleOrder_def Let_def split: if_splits)
    moreover have "o' \<in> set (nv_orders (as_db s))" using Some by (rule identifier_result)
    ultimately show ?thesis using visible_may_see [of li o' u s] by (auto simp: may_see_def)
  qed
  then show "may_see li u s ord" "ord \<in> set (nv_orders (as_db s1))" "nv_invoices (as_db s1) = nv_invoices (as_db s)"
    by simp_all
qed

lemma shown_set:
  "set (shown_invoices collate oid db) =
     {r \<in> set (nv_invoices db). iv_orderId r = oid \<and> iv_state r \<notin> {I_SUPERSEDED, I_CANCELLED}}"
  by (auto simp: shown_invoices_def)

lemma invoice_access_sound_parts:
  shows "listClientOrderInvoices host collate li now dw guid u s = (Inr views, s1) \<Longrightarrow>
      \<exists>ord \<in> set (nv_orders (as_db s1)). may_see li u s ord \<and>
        set views = mapInvoice ` {r \<in> set (nv_invoices (as_db s)). iv_orderId r = od_id ord \<and>
          iv_state r \<notin> {I_SUPERSEDED, I_CANCELLED}}"
    and "downloadClientOrderInvoice host li now dw fetch guid invoiceId u s = (Inr file, s2) \<Longrightarrow>
      \<exists>ord \<in> set (nv_orders (as_db s2)). may_see li u s ord \<and>
        (\<exists>r \<in> set (nv_invoices (as_db s)). iv_id r = invoiceId \<and> iv_orderId r = od_id ord \<and>
          (\<exists>key. iv_s3Key r = Some key \<and> do_body file = fst (fetch key)))"
proof -
  assume "listClientOrderInvoices host collate li now dw guid u s = (Inr views, s1)"
  then obtain ord where "resolveAccessibleOrder host li now dw guid u s = (Some ord, s1)"
    and "views = map mapInvoice (shown_invoices collate (od_id ord) (as_db s1))"
    by (auto simp: listClientOrderInvoices_def split: prod.splits option.splits)
  then show "\<exists>ord \<in> set (nv_orders (as_db s1)). may_see li u s ord \<and>
        set views = mapInvoice ` {r \<in> set (nv_invoices (as_db s)). iv_orderId r = od_id ord \<and>
          iv_state r \<notin> {I_SUPERSEDED, I_CANCELLED}}"
    using resolve_sound [of host li now dw guid u s ord s1] by (auto simp: shown_set)
next
  assume "downloadClientOrderInvoice host li now dw fetch guid invoiceId u s = (Inr file, s2)"
  then obtain ord r where res: "resolveAccessibleOrder host li now dw guid u s = (Some ord, s2)"
    and r: "List.find (\<lambda>r. iv_id r = invoiceId \<and> iv_orderId r = od_id ord \<and> iv_s3Key r \<noteq> None) (nv_invoices (as_db s2)) = Some r"
    and bd: "do_body file = fst (fetch (the (iv_s3Key r)))"
    by (auto simp: downloadClientOrderInvoice_def Let_def split: prod.splits option.splits if_splits)
  note rs = resolve_sound [OF res]
  have "r \<in> set (nv_invoices (as_db s))" "iv_id r = invoiceId" "iv_orderId r = od_id ord" "iv_s3Key r \<noteq> None"
    using find_SomeD [OF r] rs(3) by simp_all
  then show "\<exists>ord \<in> set (nv_orders (as_db s2)). may_see li u s ord \<and>
        (\<exists>r \<in> set (nv_invoices (as_db s)). iv_id r = invoiceId \<and> iv_orderId r = od_id ord \<and>
          (\<exists>key. iv_s3Key r = Some key \<and> do_body file = fst (fetch key)))"
    using rs(1,2) bd by (metis option.exhaust_sel)
qed

text \<open>
  C26: the invoice list shows exactly the invoices of one order, none superseded or withdrawn, and a
  download returns the stored document of an invoice of one order; in both cases the order is one
  that the user had created before, or the user has a 1C manager identity and the stored snapshot of the order names it,
  or 1C lists for it a document with the guid or the number of the order.  A failed read of 1C grants nothing,
  and an order that the request creates for a document of 1C is shown only if that document names the user's manager
  identity.
\<close>

theorem invoice_access_sound:
  "(listClientOrderInvoices host collate li now dw guid u s = (Inr views, s1) \<longrightarrow>
      (\<exists>ord \<in> set (nv_orders (as_db s1)). may_see li u s ord \<and>
        set views = mapInvoice ` {r \<in> set (nv_invoices (as_db s)). iv_orderId r = od_id ord \<and>
          iv_state r \<notin> {I_SUPERSEDED, I_CANCELLED}})) \<and>
   (downloadClientOrderInvoice host li now dw fetch guid invoiceId u s = (Inr file, s2) \<longrightarrow>
      (\<exists>ord \<in> set (nv_orders (as_db s2)). may_see li u s ord \<and>
        (\<exists>r \<in> set (nv_invoices (as_db s)). iv_id r = invoiceId \<and> iv_orderId r = od_id ord \<and>
          (\<exists>key. iv_s3Key r = Some key \<and> do_body file = fst (fetch key)))))"
  by (intro conjI impI invoice_access_sound_parts)


section \<open>The polling projection\<close>

lemma add_identifiers_source:
  "addOrderIdentifiers ord m k = Some x \<Longrightarrow> m k = Some x \<or> (x = ord \<and> k \<in> set (order_keys ord))"
proof -
  have "fold (\<lambda>k m. m(k \<mapsto> ord)) ks m k = Some x \<Longrightarrow> m k = Some x \<or> (x = ord \<and> k \<in> set ks)" for ks m
    by (induction ks arbitrary: m) (simp, fastforce split: if_splits)
  then show "addOrderIdentifiers ord m k = Some x \<Longrightarrow> m k = Some x \<or> (x = ord \<and> k \<in> set (order_keys ord))"
    by (auto simp: addOrderIdentifiers_def)
qed

lemma fold_identifiers_source:
  "fold addOrderIdentifiers os m k = Some x \<Longrightarrow> m k = Some x \<or> (x \<in> set os \<and> k \<in> set (order_keys x))"
proof (induction os arbitrary: m)
  case Nil
  then show ?case by simp
next
  case (Cons o' os)
  then show ?case using add_identifiers_source [of o' m k x] by auto
qed

lemma first_occurrences_set: "set (first_occurrences xs) = set xs \<and> distinct (first_occurrences xs)"
proof -
  have "set (fold (\<lambda>x seen. if x \<in> set seen then seen else seen @ [x]) xs acc) = set acc \<union> set xs \<and>
      (distinct acc \<longrightarrow> distinct (fold (\<lambda>x seen. if x \<in> set seen then seen else seen @ [x]) xs acc))" for acc
    by (induction xs arbitrary: acc) auto
  from this [of "[]"] show ?thesis by (simp add: first_occurrences_def)
qed

lemma statuses_isolated_parts:
  shows "length (listClientOrderInvoiceStatuses collate identifiers u s) \<le> 100"
    and "distinct (map fst (listClientOrderInvoiceStatuses collate identifiers u s))"
    and "(v, views) \<in> set (listClientOrderInvoiceStatuses collate identifiers u s) \<Longrightarrow> view \<in> set views \<Longrightarrow>
      \<exists>ord \<in> set (nv_orders (as_db s)). v \<in> set (order_keys ord) \<and>
        (od_createdBy ord = Some u \<or> managerGuidForUser u s \<noteq> [] \<and> snapshot_manager (managerGuidForUser u s) ord) \<and>
        (\<exists>r \<in> set (nv_invoices (as_db s)). iv_orderId r = od_id ord \<and> view = mapInvoice r)"
proof -
  let ?ids = "take 100 (first_occurrences (filter (\<lambda>v. v \<noteq> []) (map (\<lambda>v. normalizedString (Some v)) identifiers)))"
  let ?owned = "filter (\<lambda>o'. identityFilter ?ids o' \<and> od_createdBy o' = Some u) (nv_orders (as_db s))"
  let ?by = "fold addOrderIdentifiers ?owned (\<lambda>_. None)"
  let ?un = "filter (\<lambda>v. ?by v = None) ?ids"
  let ?visible = "if ?un = [] \<or> managerGuidForUser u s = [] then []
      else filter (\<lambda>o'. identityFilter ?un o' \<and> snapshot_manager (managerGuidForUser u s) o') (nv_orders (as_db s))"
  let ?all = "fold addOrderIdentifiers ?visible ?by"
  have def': "listClientOrderInvoiceStatuses collate identifiers u s =
      map (\<lambda>v. (v, case ?all v of None \<Rightarrow> [] | Some order \<Rightarrow> map mapInvoice (shown_invoices collate (od_id order) (as_db s)))) ?ids"
    by (simp only: listClientOrderInvoiceStatuses_def Let_def)
  show "length (listClientOrderInvoiceStatuses collate identifiers u s) \<le> 100" unfolding def' by simp
  show "distinct (map fst (listClientOrderInvoiceStatuses collate identifiers u s))"
    unfolding def' by (simp add: comp_def distinct_take first_occurrences_set)
  assume "(v, views) \<in> set (listClientOrderInvoiceStatuses collate identifiers u s)" and "view \<in> set views"
  then obtain ord where all: "?all v = Some ord" and view: "view \<in> mapInvoice ` set (shown_invoices collate (od_id ord) (as_db s))"
    unfolding def' by (auto split: option.splits)
  have "ord \<in> set (nv_orders (as_db s)) \<and> v \<in> set (order_keys ord) \<and>
      (od_createdBy ord = Some u \<or> managerGuidForUser u s \<noteq> [] \<and> snapshot_manager (managerGuidForUser u s) ord)"
    using fold_identifiers_source [OF all] fold_identifiers_source [of ?owned "\<lambda>_. None" v ord]
    by (auto split: if_splits)
  then show "\<exists>ord \<in> set (nv_orders (as_db s)). v \<in> set (order_keys ord) \<and>
        (od_createdBy ord = Some u \<or> managerGuidForUser u s \<noteq> [] \<and> snapshot_manager (managerGuidForUser u s) ord) \<and>
        (\<exists>r \<in> set (nv_invoices (as_db s)). iv_orderId r = od_id ord \<and> view = mapInvoice r)"
    using view by (auto simp: shown_set)
qed

text \<open>
  The polling endpoint answers each of the first hundred different identifiers once, and every
  invoice it shows belongs to an order which carries that identifier and which the user created, or
  whose last 1C snapshot names the user's manager identity.
\<close>

theorem statuses_isolated:
  "length (listClientOrderInvoiceStatuses collate identifiers u s) \<le> 100 \<and>
   distinct (map fst (listClientOrderInvoiceStatuses collate identifiers u s)) \<and>
   (\<forall>(v, views) \<in> set (listClientOrderInvoiceStatuses collate identifiers u s). \<forall>view \<in> set views.
      \<exists>ord \<in> set (nv_orders (as_db s)). v \<in> set (order_keys ord) \<and>
        (od_createdBy ord = Some u \<or> managerGuidForUser u s \<noteq> [] \<and> snapshot_manager (managerGuidForUser u s) ord) \<and>
        (\<exists>r \<in> set (nv_invoices (as_db s)). iv_orderId r = od_id ord \<and> view = mapInvoice r))"
  using statuses_isolated_parts [where collate = collate and identifiers = identifiers and u = u and s = s] by blast


section \<open>Examples\<close>

definition demo_live :: live where
  "demo_live = \<lparr>li_page = (\<lambda>_ _ _. Inl ''offline''), li_detail = (\<lambda>_ _. Inl ''offline'')\<rparr>"

definition demo_draw :: draw where
  "demo_draw = \<lparr>dw_orderId = ''2'', dw_counterpartyId = ''c2'', dw_organizationId = ''g2'', dw_fails = False\<rparr>"

definition demo_state :: access_state where
  "demo_state =
     \<lparr>as_db = processInvoice demo_env demo_world 1000 ''i1'' demo_queued, as_counterparties = [], as_organizations = [],
      as_managerGuid = (\<lambda>_. None)\<rparr>"

definition demo_fetch :: "string \<Rightarrow> string \<times> string option" where
  "demo_fetch key = (''%PDF-1.4'', None)"

definition demo_download :: "(service_error + download) \<times> access_state" where
  "demo_download = downloadClientOrderInvoice demo_host demo_live 0 demo_draw demo_fetch '' O1 '' ''i1'' 5 demo_state"

lemma demo_download_ok: "\<exists>d s. demo_download = (Inr d, s)"
proof -
  have "(case fst demo_download of Inl _ \<Rightarrow> False | Inr _ \<Rightarrow> True)" by code_simp
  then show ?thesis by (cases "fst demo_download") (auto simp: prod_eq_iff)
qed

theorem invoice_access_sound_witness:
  "\<exists>d s. demo_download = (Inr d, s) \<and> (\<exists>ord \<in> set (nv_orders (as_db s)). may_see demo_live 5 demo_state ord)"
proof -
  obtain d s where ds: "demo_download = (Inr d, s)" using demo_download_ok by blast
  then have "downloadClientOrderInvoice demo_host demo_live 0 demo_draw demo_fetch '' O1 '' ''i1'' 5 demo_state = (Inr d, s)"
    by (simp only: demo_download_def)
  from invoice_access_sound [THEN conjunct2, rule_format, OF this] show ?thesis using ds by auto
qed

definition demo_statuses :: "(string \<times> invoice_view list) list" where
  "demo_statuses = listClientOrderInvoiceStatuses (\<lambda>_. 0) [''O1'', ''o1 '', ''zz''] 5 demo_state"

lemma demo_statuses_eq: "map (\<lambda>(v, views). (v, map vw_id views)) demo_statuses = [(''o1'', [''i1'']), (''zz'', [])]"
  by code_simp

theorem statuses_isolated_witness:
  "\<exists>views view. (''o1'', views) \<in> set demo_statuses \<and> view \<in> set views \<and> vw_id view = ''i1'' \<and>
     (\<exists>ord \<in> set (nv_orders (as_db demo_state)). ''o1'' \<in> set (order_keys ord) \<and>
        (\<exists>r \<in> set (nv_invoices (as_db demo_state)). iv_orderId r = od_id ord \<and> view = mapInvoice r))"
proof -
  obtain view rest where st: "demo_statuses = (''o1'', [view]) # rest" "vw_id view = ''i1''"
    using demo_statuses_eq by (cases demo_statuses) (auto simp: map_eq_Cons_conv)
  then have mem: "(''o1'', [view]) \<in> set demo_statuses" by (metis list.set_intros(1))
  have view: "view \<in> set [view]" by simp
  from statuses_isolated [THEN conjunct2, THEN conjunct2, THEN bspec, OF mem [unfolded demo_statuses_def]] view
  have "\<exists>ord \<in> set (nv_orders (as_db demo_state)). ''o1'' \<in> set (order_keys ord) \<and>
        (\<exists>r \<in> set (nv_invoices (as_db demo_state)). iv_orderId r = od_id ord \<and> view = mapInvoice r)" by blast
  then show ?thesis using mem view st(2) by blast
qed

section \<open>Document numbers with capital letters are not found\<close>

text \<open>
  The polling endpoint lowers the case of the identifiers and then compares them with the stored
  document numbers as they are.  An order whose number has a capital letter, and whose other keys are
  not asked for, is not found by its number, not even by its creator.
\<close>

theorem status_by_number_missed:
  assumes orders: "nv_orders (as_db s) = [ord]" and num: "od_number1c ord = Some n" "js_lower (js_trim n) \<noteq> n"
    and guid: "od_guid ord \<noteq> Some (js_lower (js_trim n))" and ne: "js_lower (js_trim n) \<noteq> []"
  shows "listClientOrderInvoiceStatuses collate [n] u s = [(js_lower (js_trim n), [])]"
proof -
  have "\<not> identityFilter [js_lower (js_trim n)] ord" using num guid by (simp add: identityFilter_def)
  then show ?thesis
    using ne by (simp add: listClientOrderInvoiceStatuses_def Let_def first_occurrences_def normalizedString_def orders)
qed

end
