(* ===== verification/Order_Data.thy ===== *)
theory Order_Data
  imports Invoice_Data
begin

text \<open>
  The data of the client orders: the tables \<^verbatim>\<open>Order\<close>, \<^verbatim>\<open>OrderItem\<close>,
  \<^verbatim>\<open>OrderEvent\<close> and the reference tables an order points to
  (\<^verbatim>\<open>src/prisma/schema.onec.prisma\<close>), the request bodies of
  \<^verbatim>\<open>src/src/modules/clientOrders/clientOrders.schemas.ts\<close> and the errors of
  \<^verbatim>\<open>clientOrders.service.ts\<close>.

  Identifiers are strings as elsewhere.  The texts that people read are mostly Russian; they are lists
  of Unicode code points (\<open>utext\<close>).  A \<^verbatim>\<open>Decimal\<close> is a rational.  The columns of an
  order are grouped: \<open>content\<close> holds what a manager edits, \<open>onec\<close> what 1C reported.
  The items of an order are kept with the order.
\<close>

section \<open>Texts\<close>

type_synonym utext = "nat list"

definition latin :: "string \<Rightarrow> utext" where
  "latin s = map of_char s"

definition u_space :: "nat \<Rightarrow> bool" where
  "u_space n \<longleftrightarrow> (9 \<le> n \<and> n \<le> 13) \<or> n = 32 \<or> n = 160 \<or> n = 5760 \<or> (8192 \<le> n \<and> n \<le> 8202) \<or>
     n = 8232 \<or> n = 8233 \<or> n = 8239 \<or> n = 8287 \<or> n = 12288 \<or> n = 65279"

definition u_trim :: "utext \<Rightarrow> utext" where
  "u_trim s = rev (dropWhile u_space (rev (dropWhile u_space s)))"

text \<open>Case mapping on Latin-1 and on the Russian letters; other scripts are left alone.\<close>

definition u_lower :: "utext \<Rightarrow> utext" where
  "u_lower = map (\<lambda>n. if (65 \<le> n \<and> n \<le> 90) \<or> (192 \<le> n \<and> n \<le> 222 \<and> n \<noteq> 215) \<or> (1040 \<le> n \<and> n \<le> 1071) then n + 32
                  else if 1024 \<le> n \<and> n \<le> 1039 then n + 80 else n)"

definition u_upper :: "utext \<Rightarrow> utext" where
  "u_upper s = concat (map (\<lambda>n.
     if (97 \<le> n \<and> n \<le> 122) \<or> (224 \<le> n \<and> n \<le> 254 \<and> n \<noteq> 247) \<or> (1072 \<le> n \<and> n \<le> 1103) then [n - 32]
     else if 1104 \<le> n \<and> n \<le> 1119 then [n - 80]
     else if n = 223 then [83, 83] else if n = 255 then [376] else if n = 181 then [924] else [n]) s)"

fun u_prefix :: "utext \<Rightarrow> utext \<Rightarrow> bool" where
  "u_prefix [] s = True"
| "u_prefix (a # p) [] = False"
| "u_prefix (a # p) (b # s) = (a = b \<and> u_prefix p s)"

fun u_includes :: "utext \<Rightarrow> utext \<Rightarrow> bool" where
  "u_includes p [] = (p = [])"
| "u_includes p (b # s) = (u_prefix p (b # s) \<or> u_includes p s)"

section \<open>States and errors\<close>

datatype order_status =
    ST_DRAFT | ST_QUEUED | ST_SENT_TO_1C | ST_CONFIRMED | ST_PARTIAL | ST_REJECTED | ST_CANCELLED

datatype sync_state = SY_DRAFT | SY_QUEUED | SY_SYNCED | SY_CONFLICT | SY_ERROR | SY_CANCEL_REQUESTED

datatype order_source = MARKETPLACE_CLIENT | MANAGER_APP

datatype event_source =
    APP_MANAGER | APP_CANCEL_REQUEST | ONEC_ACK | ONEC_IMPORT | ONEC_EDIT | ONEC_POST | SYSTEM_EVENT

text \<open>
  \<^verbatim>\<open>ClientOrdersError\<close> by its code, with the reason its message gives; other exceptions
  of the database or of 1C end the request with a server error.
\<close>

datatype order_error =
    OrderNotFound | OrderConflict | OrderInvalid string | ReferenceMissing string | LiveUnavailable | ServerError

text \<open>The notes an order keeps about its exchange with 1C.\<close>

datatype transport_error = OnecHttp int | OnecNetwork | OnecConfig | OtherError string

datatype export_error =
    NotReady "string list" | ShortOfStock "(string \<times> rat \<times> rat) list" | LostItems nat | Transport transport_error

datatype order_note =
    Failed export_error | NotPosted | Says utext | RevisionConflict int int | EmptySnapshot nat | SnapshotFailed string | Deferred

section \<open>Orders\<close>

record order_item =
  it_lineGuid :: string
  it_productId :: string
  it_packageId :: "string option"
  it_unitId :: "string option"
  it_priceTypeId :: "string option"
  it_quantity :: rat
  it_quantityBase :: "rat option"
  it_basePrice :: "rat option"
  it_price :: rat
  it_isManualPrice :: bool
  it_manualPrice :: "rat option"
  it_priceSource :: "utext option"
  it_isCancelled :: bool
  it_cancelReasonGuid :: "string option"
  it_cancelReasonName :: "utext option"
  it_cancelReason :: "utext option"
  it_cancelledAmount :: "rat option"
  it_discountPercent :: "rat option"
  it_appliedDiscountPercent :: "rat option"
  it_lineAmount :: "rat option"
  it_comment :: "utext option"
  it_sourceUpdatedAt :: "millis option"

record order_content =
  ct_organizationId :: "string option"
  ct_counterpartyId :: string
  ct_agreementId :: "string option"
  ct_contractId :: "string option"
  ct_warehouseId :: "string option"
  ct_deliveryAddressId :: "string option"
  ct_priceTypeId :: "string option"
  ct_comment :: "utext option"
  ct_deliveryDate :: "millis option"
  ct_paymentForm :: "utext option"
  ct_deliveryMethod :: "utext option"
  ct_invoiceRequested :: bool
  ct_currency :: "utext option"
  ct_totalAmount :: "rat option"
  ct_generalDiscountPercent :: "rat option"
  ct_generalDiscountAmount :: "rat option"
  ct_items :: "order_item list"

text \<open>
  JSON values, and what \<^verbatim>\<open>last1cSnapshot\<close> holds: the answer to a push, or a snapshot
  item, here by its place in the batches received.
\<close>

datatype json = JNull | JBool bool | JNum rat | JStr utext | JArr "json list" | JObj "(utext \<times> json) list"

datatype onec_document = PushAnswer json | SnapshotItem nat

record onec_part =
  on_number1c :: "utext option"
  on_date1c :: "millis option"
  on_isPostedIn1c :: bool
  on_postedAt1c :: "millis option"
  on_hasRealization :: bool
  on_realizationDetectedAt :: "millis option"
  on_last1cError :: "order_note option"
  on_last1cSnapshot :: "onec_document option"
  on_lastStatusSyncAt :: "millis option"
  on_lastSyncedAt :: "millis option"

text \<open>Routes and their points, and the position that is stored with an order.\<close>

record user_route =
  ur_id :: int
  ur_userId :: user_id
  ur_active :: bool
  ur_startedAt :: millis

record route_point =
  rp_id :: int
  rp_userId :: user_id
  rp_routeId :: int
  rp_latitude :: rat
  rp_longitude :: rat
  rp_recordedAt :: millis
  rp_recordedTimeZone :: "string option"
  rp_recordedTimezoneOffsetMinutes :: "int option"
  rp_eventType :: string
  rp_accuracy :: "rat option"
  rp_speed :: "rat option"
  rp_heading :: "rat option"
  rp_sequence :: "int option"

record tracking =
  tk_routeId :: int
  tk_routeStartedAt :: millis
  tk_point :: route_point
  tk_capturedAt :: millis

record client_order =
  co_id :: string
  co_guid :: "string option"
  co_clientOrderId :: "string option"
  co_clientRevision :: "int option"
  co_clientPayloadHash :: "string option"
  co_submitRequestedAt :: "millis option"
  co_source :: order_source
  co_revision :: int
  co_syncState :: sync_state
  co_status :: order_status
  co_createdByUserId :: "user_id option"
  co_trackingRoutePointId :: "int option"
  co_trackingSnapshot :: "tracking option"
  co_content :: order_content
  co_queuedAt :: "millis option"
  co_sentTo1cAt :: "millis option"
  co_exportAttempts :: int
  co_lastExportError :: "order_note option"
  co_cancelRequestedAt :: "millis option"
  co_cancelReason :: "utext option"
  co_onec :: onec_part
  co_sourceUpdatedAt :: "millis option"
  co_createdAt :: millis
  co_updatedAt :: millis

text \<open>An event; of its payload the fields that theorems speak about are kept.\<close>

record order_event =
  ev_orderId :: string
  ev_revision :: int
  ev_source :: event_source
  ev_type :: string
  ev_actor :: "user_id option"

section \<open>Reference tables\<close>

text \<open>The columns of the reference tables that the order code reads or writes.\<close>

record org_row =
  og_id :: string
  og_guid :: string
  og_name :: utext
  og_code :: "utext option"
  og_isActive :: bool
  og_sourceUpdatedAt :: "millis option"

record party_row =
  pa_id :: string
  pa_guid :: string
  pa_name :: utext
  pa_fullName :: "utext option"
  pa_inn :: "utext option"
  pa_kpp :: "utext option"
  pa_phone :: "utext option"
  pa_email :: "utext option"
  pa_isActive :: bool
  pa_sourceUpdatedAt :: "millis option"

record warehouse_row =
  wh_id :: string
  wh_guid :: string
  wh_name :: utext
  wh_code :: "utext option"
  wh_address :: "utext option"
  wh_isDefault :: bool
  wh_isPickup :: bool
  wh_isActive :: bool
  wh_sourceUpdatedAt :: "millis option"

record price_type_row =
  py_id :: string
  py_guid :: string
  py_name :: utext
  py_code :: "utext option"
  py_isActive :: bool
  py_sourceUpdatedAt :: "millis option"

record contract_row =
  cn_id :: string
  cn_guid :: string
  cn_counterpartyId :: string
  cn_organizationId :: "string option"
  cn_name :: "utext option"
  cn_number :: utext
  cn_date :: millis
  cn_validFrom :: "millis option"
  cn_validTo :: "millis option"
  cn_currency :: "utext option"
  cn_status :: "utext option"
  cn_purpose :: "utext option"
  cn_isActive :: bool
  cn_sourceUpdatedAt :: "millis option"

record agreement_row =
  ag_id :: string
  ag_guid :: string
  ag_name :: utext
  ag_number :: "utext option"
  ag_date :: "millis option"
  ag_counterpartyId :: "string option"
  ag_organizationId :: "string option"
  ag_contractId :: "string option"
  ag_warehouseId :: "string option"
  ag_priceTypeId :: "string option"
  ag_currency :: "utext option"
  ag_status :: "utext option"
  ag_isActive :: bool
  ag_sourceUpdatedAt :: "millis option"

record address_row =
  ad_id :: string
  ad_guid :: "string option"
  ad_counterpartyId :: string
  ad_name :: "utext option"
  ad_fullAddress :: utext
  ad_isDefault :: bool
  ad_isActive :: bool
  ad_sourceUpdatedAt :: "millis option"

record unit_row =
  un_id :: string
  un_guid :: "string option"
  un_name :: utext
  un_code :: "utext option"
  un_symbol :: "utext option"
  un_sourceUpdatedAt :: "millis option"

record product_row =
  pr_id :: string
  pr_guid :: string
  pr_name :: utext
  pr_code :: "utext option"
  pr_article :: "utext option"
  pr_sku :: "utext option"
  pr_isWeight :: bool
  pr_isActive :: bool
  pr_baseUnitId :: "string option"
  pr_sourceUpdatedAt :: "millis option"

record package_row =
  pk_id :: string
  pk_guid :: "string option"
  pk_productId :: string
  pk_unitId :: string
  pk_name :: utext
  pk_multiplier :: rat
  pk_isDefault :: bool
  pk_sourceUpdatedAt :: "millis option"

record price_row =
  pc_id :: string
  pc_productId :: string
  pc_priceTypeId :: "string option"
  pc_price :: rat
  pc_currency :: "utext option"
  pc_startDate :: "millis option"
  pc_endDate :: "millis option"
  pc_minQty :: "rat option"
  pc_isActive :: bool
  pc_sourceUpdatedAt :: "millis option"
  pc_createdAt :: millis

record stock_row =
  sb_id :: string
  sb_syncKey :: string
  sb_productId :: string
  sb_warehouseId :: string
  sb_quantity :: rat
  sb_reserved :: "rat option"
  sb_available :: "rat option"
  sb_updatedAt :: millis
  sb_sourceUpdatedAt :: "millis option"

text \<open>\<open>rf_next\<close> counts the identifiers that the database has generated so far.\<close>

record references =
  rf_organizations :: "org_row list"
  rf_counterparties :: "party_row list"
  rf_warehouses :: "warehouse_row list"
  rf_priceTypes :: "price_type_row list"
  rf_contracts :: "contract_row list"
  rf_agreements :: "agreement_row list"
  rf_addresses :: "address_row list"
  rf_units :: "unit_row list"
  rf_products :: "product_row list"
  rf_packages :: "package_row list"
  rf_prices :: "price_row list"
  rf_stock :: "stock_row list"
  rf_next :: nat

section \<open>The database of the order code\<close>

record preference =
  pf_userId :: user_id
  pf_counterpartyId :: string
  pf_invoiceRequested :: bool

record remembered =
  rm_userId :: user_id
  rm_organizationId :: string
  rm_counterpartyId :: string
  rm_agreementId :: "string option"
  rm_contractId :: "string option"
  rm_warehouseId :: "string option"
  rm_deliveryAddressId :: "string option"
  rm_lastUsedAt :: millis

text \<open>Users with their employee profile, as far as the exchange with 1C names them.\<close>

record staff_row =
  sx_userId :: user_id
  sx_firstName :: "utext option"
  sx_lastName :: "utext option"
  sx_middleName :: "utext option"
  sx_email :: "utext option"
  sx_onecUserGuid :: "string option"
  sx_onecPhysicalPersonGuid :: "string option"

record order_db =
  ob_orders :: "client_order list"
  ob_events :: "order_event list"
  ob_preferences :: "preference list"
  ob_remembered :: "remembered list"
  ob_routes :: "user_route list"
  ob_points :: "route_point list"
  ob_references :: references
  ob_staff :: "staff_row list"

section \<open>Request bodies\<close>

record item_body =
  ib_lineGuid :: "string option"
  ib_productGuid :: string
  ib_packageGuid :: "string option"
  ib_priceTypeGuid :: "string option"
  ib_quantity :: rat
  ib_basePrice :: "rat option"
  ib_manualPrice :: "rat option"
  ib_discountPercent :: "rat option"
  ib_comment :: "utext option"
  ib_isCancelled :: "bool option"
  ib_cancelReasonGuid :: "string option"
  ib_cancelReasonName :: "utext option"
  ib_cancelReason :: "utext option"
  ib_cancelledAmount :: "rat option"

datatype save_reason = MANUAL | AUTOSAVE

record order_body =
  bd_organizationGuid :: string
  bd_counterpartyGuid :: string
  bd_agreementGuid :: "string option"
  bd_contractGuid :: "string option"
  bd_warehouseGuid :: "string option"
  bd_deliveryAddressGuid :: "string option"
  bd_priceTypeGuid :: "string option"
  bd_deliveryDate :: "millis option"
  bd_paymentForm :: "utext option"
  bd_deliveryMethod :: "utext option"
  bd_invoiceRequested :: bool
  bd_comment :: "utext option"
  bd_saveReason :: save_reason
  bd_generalDiscountPercent :: "rat option"
  bd_items :: "item_body list"

end
