(* ===== verification/Order_References.thy ===== *)
theory Order_References
  imports Order_Data
begin

text \<open>
  The references of a client order, from \<^verbatim>\<open>src/src/modules/clientOrders/clientOrders.service.ts\<close>:
  what 1C answers about them (\<^verbatim>\<open>loadLiveOrderMaterialization\<close>), how the answers are written
  into the local tables (\<^verbatim>\<open>materializeLiveOrderReferences\<close> and its upserts), and how an order
  resolves the guids of its body against these tables (\<^verbatim>\<open>resolveManagerOrderContext\<close>).

  What a read of 1C, through the cache or not, returned or raised is part of the input
  (\<open>live_reads\<close>), and so are the local time zone (\<open>clock\<close>), the date parser of the
  host and the generated identifiers (\<open>gen\<close>).  \<open>col s\<close> is what the database stores for a
  number in a \<^verbatim>\<open>Decimal\<close> column with \<open>s\<close> fractional digits.
\<close>

section \<open>Answers of 1C\<close>

datatype live_date = NoDate | TextDate string | DateValue millis

record live_unit =
  lu_guid :: "string option"
  lu_name :: "utext option"
  lu_symbol :: "utext option"

record live_org =
  lo_guid :: string
  lo_name :: utext
  lo_code :: "utext option"
  lo_isActive :: bool
  lo_isSelectable :: "bool option"

record live_counterparty =
  lc_guid :: string
  lc_name :: utext
  lc_fullName :: "utext option"
  lc_inn :: "utext option"
  lc_kpp :: "utext option"
  lc_phone :: "utext option"
  lc_email :: "utext option"
  lc_isActive :: bool

record live_warehouse =
  lw_guid :: string
  lw_name :: utext
  lw_code :: "utext option"
  lw_address :: "utext option"
  lw_isDefault :: bool
  lw_isPickup :: bool
  lw_isActive :: bool
  lw_isSelectable :: "bool option"

record live_price_type =
  lt_guid :: string
  lt_name :: utext
  lt_code :: "utext option"
  lt_isActive :: "bool option"

record live_contract =
  ln_guid :: string
  ln_number :: utext
  ln_name :: "utext option"
  ln_date :: live_date
  ln_validFrom :: live_date
  ln_validTo :: live_date
  ln_status :: "utext option"
  ln_purpose :: "utext option"
  ln_currency :: "utext option"
  ln_isActive :: bool

record live_agreement =
  la_guid :: string
  la_name :: utext
  la_number :: "utext option"
  la_date :: live_date
  la_organizationGuid :: "string option"
  la_organization :: "(string \<times> utext \<times> utext option) option"
  la_warehouseGuid :: "string option"
  la_currency :: "utext option"
  la_status :: "utext option"
  la_isActive :: bool
  la_warehouse :: "(string \<times> utext) option"
  la_priceType :: "(string \<times> utext) option"

record live_address =
  ld_guid :: "string option"
  ld_name :: "utext option"
  ld_fullAddress :: utext
  ld_isDefault :: bool
  ld_isActive :: bool

record live_package =
  lk_guid :: string
  lk_name :: utext
  lk_multiplier :: "rat option"
  lk_isDefault :: bool
  lk_unit :: "live_unit option"

record live_stock =
  ls_quantity :: "rat option"
  ls_reserved :: "rat option"
  ls_available :: "rat option"
  ls_freeAvailable :: "rat option"

record live_product =
  lp_guid :: string
  lp_name :: utext
  lp_code :: "utext option"
  lp_article :: "utext option"
  lp_sku :: "utext option"
  lp_isWeight :: bool
  lp_isActive :: bool
  lp_baseUnit :: "live_unit option"
  lp_packages :: "live_package list"
  lp_basePrice :: "rat option"
  lp_receiptPrice :: "rat option"
  lp_currency :: "utext option"
  lp_priceType :: "(string \<times> utext) option"
  lp_stock :: "live_stock option"

datatype products_source = LIVE_PRODUCTS | LOCAL_FALLBACK

record materialization =
  lm_organization :: "live_org option"
  lm_counterparty :: "live_counterparty option"
  lm_agreement :: "live_agreement option"
  lm_contract :: "live_contract option"
  lm_warehouse :: "live_warehouse option"
  lm_deliveryAddress :: "live_address option"
  lm_explicitPriceTypes :: "live_price_type list"
  lm_products :: "live_product list"
  lm_productsSource :: products_source

record clock =
  ck_startOfDay :: "millis \<Rightarrow> millis"
  ck_endOfDay :: "millis \<Rightarrow> millis"
  ck_nextDay :: "millis \<Rightarrow> millis"

section \<open>Names, dates and units\<close>

definition DEFAULT_ORDER_CURRENCY :: utext where
  "DEFAULT_ORDER_CURRENCY = latin ''RUB''"

text \<open>The Russian words the code compares with, in lower case.\<close>

definition ru_active :: utext where
  "ru_active = [1076, 1077, 1081, 1089, 1090, 1074, 1091, 1077, 1090]"

definition ru_closed :: utext where
  "ru_closed = [1079, 1072, 1082, 1088, 1099, 1090]"

definition ru_realization :: utext where
  "ru_realization = [1088, 1077, 1072, 1083, 1080, 1079, 1072, 1094, 1080, 1103]"

definition ru_with_buyer :: utext where
  "ru_with_buyer = [1089, 1087, 1086, 1082, 1091, 1087, 1072, 1090, 1077, 1083, 1077, 1084]"

definition ru_receipt_price :: utext where
  "ru_receipt_price = [1062, 1077, 1085, 1072, 1055, 1086, 1089, 1090, 1091, 1087, 1083, 1077, 1085, 1080, 1103]"

definition ru_piece :: utext where
  "ru_piece = [1096, 1090]"

definition normalizedRu :: "utext option \<Rightarrow> utext" where
  "normalizedRu v = (case v of None \<Rightarrow> [] | Some s \<Rightarrow> u_lower (u_trim s))"

definition isActiveAgreementStatus :: "utext option \<Rightarrow> bool" where
  "isActiveAgreementStatus s \<longleftrightarrow> normalizedRu s = ru_active"

definition isClosedContractStatus :: "utext option \<Rightarrow> bool" where
  "isClosedContractStatus s \<longleftrightarrow> normalizedRu s = ru_closed"

definition isActiveContractStatus :: "utext option \<Rightarrow> bool" where
  "isActiveContractStatus s \<longleftrightarrow> normalizedRu s = ru_active"

definition isRealizationContractPurpose :: "utext option \<Rightarrow> bool" where
  "isRealizationContractPurpose p \<longleftrightarrow> normalizedRu p = ru_realization \<or> normalizedRu p = ru_with_buyer"

definition isContractDateRangeActive :: "clock \<Rightarrow> millis option \<Rightarrow> millis option \<Rightarrow> millis \<Rightarrow> bool" where
  "isContractDateRangeActive ck validFrom validTo now =
     ((case validFrom of None \<Rightarrow> True | Some d \<Rightarrow> \<not> ck_endOfDay ck now < d) \<and>
      (case validTo of None \<Rightarrow> True | Some d \<Rightarrow> \<not> d < ck_startOfDay ck now))"

definition parseLiveDate :: "(string \<Rightarrow> millis option) \<Rightarrow> live_date \<Rightarrow> millis option \<Rightarrow> millis option" where
  "parseLiveDate host v fallback =
     (case v of
        NoDate \<Rightarrow> fallback
      | DateValue d \<Rightarrow> Some d
      | TextDate s \<Rightarrow> if s = [] then fallback else nullish (host s) fallback)"

definition isSelectableContract :: "clock \<Rightarrow> (string \<Rightarrow> millis option) \<Rightarrow> millis \<Rightarrow> live_contract \<Rightarrow> bool" where
  "isSelectableContract ck host now c \<longleftrightarrow>
     ln_isActive c \<and> isActiveContractStatus (ln_status c) \<and> isRealizationContractPurpose (ln_purpose c) \<and>
     isContractDateRangeActive ck (parseLiveDate host (ln_validFrom c) None) (parseLiveDate host (ln_validTo c) None) now"

definition safeLiveName :: "utext option \<Rightarrow> utext \<Rightarrow> utext" where
  "safeLiveName v fallback =
     (let prepared = (case v of None \<Rightarrow> [] | Some s \<Rightarrow> u_trim s) in if prepared = [] then fallback else prepared)"

definition normalizeLiveUnitToken :: "utext \<Rightarrow> utext" where
  "normalizeLiveUnitToken v =
     (let token = filter (\<lambda>n. \<not> u_space n) (filter (\<lambda>n. n \<notin> {40, 41, 46}) (u_lower (u_trim v))) in
      if token = [] then []
      else if token \<in> set [latin ''pce'', latin ''pc'', latin ''pcs'', latin ''piece'', latin ''pieces'', ru_piece,
                [1096, 1090, 1091, 1082, 1072], [1096, 1090, 1091, 1082, 1080], [1096, 1090, 1091, 1082]]
      then latin ''piece''
      else if token \<in> set [latin ''kg'', latin ''kgs'', [1082, 1075],
                [1082, 1080, 1083, 1086, 1075, 1088, 1072, 1084, 1084],
                [1082, 1080, 1083, 1086, 1075, 1088, 1072, 1084, 1084, 1072],
                [1082, 1080, 1083, 1086, 1075, 1088, 1072, 1084, 1084, 1099]]
      then latin ''kg''
      else token)"

definition u_or_empty :: "utext option \<Rightarrow> utext" where
  "u_or_empty v = (case v of None \<Rightarrow> [] | Some s \<Rightarrow> s)"

definition liveUnitLabelIdentities :: "live_unit \<Rightarrow> utext list" where
  "liveUnitLabelIdentities u =
     filter (\<lambda>l. l \<noteq> [])
       [normalizeLiveUnitToken (u_or_empty (lu_symbol u)), normalizeLiveUnitToken (u_or_empty (lu_name u)),
        normalizeLiveUnitToken (u_or_empty (lu_symbol u) @ u_or_empty (lu_name u))]"

definition sameLiveUnitIdentity :: "live_unit \<Rightarrow> live_unit \<Rightarrow> bool" where
  "sameLiveUnitIdentity l r \<longleftrightarrow>
     (let lg = js_lower (js_trim (or_empty (lu_guid l))); rg = js_lower (js_trim (or_empty (lu_guid r))) in
      (lg \<noteq> [] \<and> rg \<noteq> [] \<and> lg = rg) \<or>
      (\<exists>x \<in> set (liveUnitLabelIdentities l). x \<in> set (liveUnitLabelIdentities r)))"

definition isLiveBaseUnitPackage :: "live_package \<Rightarrow> live_unit option \<Rightarrow> bool" where
  "isLiveBaseUnitPackage p baseUnit =
     (case baseUnit of
        None \<Rightarrow> False
      | Some b \<Rightarrow>
          let m = (case lk_multiplier p of None \<Rightarrow> 1 | Some q \<Rightarrow> q)
          in (m \<le> 0 \<or> \<bar>m - 1\<bar> < 1 / 1000000) \<and>
             (case lk_unit p of None \<Rightarrow> True | Some u \<Rightarrow> sameLiveUnitIdentity u b))"

section \<open>Upserts\<close>

text \<open>
  \<^verbatim>\<open>upsert\<close> by a unique key: \<open>fill\<close> sets the columns of the row that was found, or
  of a new row that so far has its identifier, its key and the defaults of the table.
\<close>

definition upsert_row ::
  "('r \<Rightarrow> bool) \<Rightarrow> ('r \<Rightarrow> 'r) \<Rightarrow> (string \<Rightarrow> 'r) \<Rightarrow> (nat \<Rightarrow> string) \<Rightarrow> nat \<Rightarrow> 'r list \<Rightarrow> 'r \<times> 'r list \<times> nat" where
  "upsert_row hit fill blank gen n rs =
     (case List.find hit rs of
        Some r \<Rightarrow> (fill r, update_where hit fill rs, n)
      | None \<Rightarrow> (fill (blank (gen n)), rs @ [fill (blank (gen n))], Suc n))"

definition upsertLiveOrganization ::
  "(nat \<Rightarrow> string) \<Rightarrow> millis \<Rightarrow> live_org option \<Rightarrow> references \<Rightarrow> org_row option \<times> references" where
  "upsertLiveOrganization gen at' item rf =
     (case item of
        None \<Rightarrow> (None, rf)
      | Some o' \<Rightarrow>
          let (r, rs, n) = upsert_row (\<lambda>r. og_guid r = lo_guid o')
                (\<lambda>r. r\<lparr>og_name := safeLiveName (Some (lo_name o')) (latin (lo_guid o')), og_code := lo_code o',
                       og_isActive := lo_isActive o', og_sourceUpdatedAt := Some at'\<rparr>)
                (\<lambda>i. \<lparr>og_id = i, og_guid = lo_guid o', og_name = [], og_code = None, og_isActive = True,
                      og_sourceUpdatedAt = None\<rparr>)
                gen (rf_next rf) (rf_organizations rf)
          in (Some r, rf\<lparr>rf_organizations := rs, rf_next := n\<rparr>))"

definition upsertLiveCounterparty ::
  "(nat \<Rightarrow> string) \<Rightarrow> millis \<Rightarrow> live_counterparty option \<Rightarrow> references \<Rightarrow> party_row option \<times> references" where
  "upsertLiveCounterparty gen at' item rf =
     (case item of
        None \<Rightarrow> (None, rf)
      | Some c \<Rightarrow>
          let (r, rs, n) = upsert_row (\<lambda>r. pa_guid r = lc_guid c)
                (\<lambda>r. r\<lparr>pa_name := safeLiveName (Some (lc_name c)) (latin (lc_guid c)), pa_fullName := lc_fullName c,
                       pa_inn := lc_inn c, pa_kpp := lc_kpp c, pa_phone := lc_phone c, pa_email := lc_email c,
                       pa_isActive := lc_isActive c, pa_sourceUpdatedAt := Some at'\<rparr>)
                (\<lambda>i. \<lparr>pa_id = i, pa_guid = lc_guid c, pa_name = [], pa_fullName = None, pa_inn = None, pa_kpp = None,
                      pa_phone = None, pa_email = None, pa_isActive = True, pa_sourceUpdatedAt = None\<rparr>)
                gen (rf_next rf) (rf_counterparties rf)
          in (Some r, rf\<lparr>rf_counterparties := rs, rf_next := n\<rparr>))"

definition upsertLiveWarehouse ::
  "(nat \<Rightarrow> string) \<Rightarrow> millis \<Rightarrow> live_warehouse option \<Rightarrow> references \<Rightarrow> warehouse_row option \<times> references" where
  "upsertLiveWarehouse gen at' item rf =
     (case item of
        None \<Rightarrow> (None, rf)
      | Some w \<Rightarrow>
          let (r, rs, n) = upsert_row (\<lambda>r. wh_guid r = lw_guid w)
                (\<lambda>r. r\<lparr>wh_name := safeLiveName (Some (lw_name w)) (latin (lw_guid w)), wh_code := lw_code w,
                       wh_address := lw_address w, wh_isDefault := lw_isDefault w, wh_isPickup := lw_isPickup w,
                       wh_isActive := lw_isActive w, wh_sourceUpdatedAt := Some at'\<rparr>)
                (\<lambda>i. \<lparr>wh_id = i, wh_guid = lw_guid w, wh_name = [], wh_code = None, wh_address = None,
                      wh_isDefault = False, wh_isPickup = False, wh_isActive = True, wh_sourceUpdatedAt = None\<rparr>)
                gen (rf_next rf) (rf_warehouses rf)
          in (Some r, rf\<lparr>rf_warehouses := rs, rf_next := n\<rparr>))"

definition upsertLivePriceType ::
  "(nat \<Rightarrow> string) \<Rightarrow> millis \<Rightarrow> live_price_type option \<Rightarrow> references \<Rightarrow> price_type_row option \<times> references" where
  "upsertLivePriceType gen at' item rf =
     (case item of
        None \<Rightarrow> (None, rf)
      | Some p \<Rightarrow>
          if lt_guid p = [] then (None, rf)
          else
          let (r, rs, n) = upsert_row (\<lambda>r. py_guid r = lt_guid p)
                (\<lambda>r. r\<lparr>py_name := safeLiveName (Some (lt_name p)) (latin (lt_guid p)), py_code := lt_code p,
                       py_isActive := (case lt_isActive p of None \<Rightarrow> True | Some b \<Rightarrow> b), py_sourceUpdatedAt := Some at'\<rparr>)
                (\<lambda>i. \<lparr>py_id = i, py_guid = lt_guid p, py_name = [], py_code = None, py_isActive = True,
                      py_sourceUpdatedAt = None\<rparr>)
                gen (rf_next rf) (rf_priceTypes rf)
          in (Some r, rf\<lparr>rf_priceTypes := rs, rf_next := n\<rparr>))"

definition upsertLiveContract ::
  "clock \<Rightarrow> (string \<Rightarrow> millis option) \<Rightarrow> (nat \<Rightarrow> string) \<Rightarrow> millis \<Rightarrow> millis \<Rightarrow> live_contract option \<Rightarrow>
   string option \<Rightarrow> string option \<Rightarrow> references \<Rightarrow> contract_row option \<times> references" where
  "upsertLiveContract ck host gen now at' item counterpartyId organizationId rf =
     (case (item, counterpartyId) of
        (Some c, Some cp) \<Rightarrow>
          if cp = [] then (None, rf)
          else
          let (r, rs, n) = upsert_row (\<lambda>r. cn_guid r = ln_guid c)
                (\<lambda>r. r\<lparr>cn_counterpartyId := cp, cn_organizationId := organizationId,
                       cn_name := nullish (ln_name c) (Some (ln_number c)),
                       cn_number := safeLiveName (Some (ln_number c)) (latin (ln_guid c)),
                       cn_date := (case parseLiveDate host (ln_date c) (Some at') of None \<Rightarrow> at' | Some d \<Rightarrow> d),
                       cn_validFrom := parseLiveDate host (ln_validFrom c) None,
                       cn_validTo := parseLiveDate host (ln_validTo c) None,
                       cn_currency := ln_currency c, cn_status := ln_status c, cn_purpose := ln_purpose c,
                       cn_isActive := isSelectableContract ck host now c, cn_sourceUpdatedAt := Some at'\<rparr>)
                (\<lambda>i. \<lparr>cn_id = i, cn_guid = ln_guid c, cn_counterpartyId = cp, cn_organizationId = None, cn_name = None,
                      cn_number = [], cn_date = at', cn_validFrom = None, cn_validTo = None, cn_currency = None,
                      cn_status = None, cn_purpose = None, cn_isActive = True, cn_sourceUpdatedAt = None\<rparr>)
                gen (rf_next rf) (rf_contracts rf)
          in (Some r, rf\<lparr>rf_contracts := rs, rf_next := n\<rparr>)
      | _ \<Rightarrow> (None, rf))"

definition upsertLiveAgreement ::
  "(string \<Rightarrow> millis option) \<Rightarrow> (nat \<Rightarrow> string) \<Rightarrow> millis \<Rightarrow> live_agreement option \<Rightarrow> string option \<Rightarrow> string option \<Rightarrow>
   string option \<Rightarrow> string option \<Rightarrow> string option \<Rightarrow> references \<Rightarrow> agreement_row option \<times> references" where
  "upsertLiveAgreement host gen at' item counterpartyId organizationId contractId warehouseId priceTypeId rf =
     (case item of
        None \<Rightarrow> (None, rf)
      | Some a \<Rightarrow>
          let (r, rs, n) = upsert_row (\<lambda>r. ag_guid r = la_guid a)
                (\<lambda>r. r\<lparr>ag_name := safeLiveName (Some (la_name a)) (latin (la_guid a)), ag_number := la_number a,
                       ag_date := parseLiveDate host (la_date a) None, ag_counterpartyId := counterpartyId,
                       ag_organizationId := organizationId, ag_contractId := contractId, ag_warehouseId := warehouseId,
                       ag_priceTypeId := priceTypeId, ag_currency := nullish (la_currency a) (Some DEFAULT_ORDER_CURRENCY),
                       ag_status := la_status a, ag_isActive := la_isActive a \<and> isActiveAgreementStatus (la_status a),
                       ag_sourceUpdatedAt := Some at'\<rparr>)
                (\<lambda>i. \<lparr>ag_id = i, ag_guid = la_guid a, ag_name = [], ag_number = None, ag_date = None,
                      ag_counterpartyId = None, ag_organizationId = None, ag_contractId = None, ag_warehouseId = None,
                      ag_priceTypeId = None, ag_currency = None, ag_status = None, ag_isActive = True,
                      ag_sourceUpdatedAt = None\<rparr>)
                gen (rf_next rf) (rf_agreements rf)
          in (Some r, rf\<lparr>rf_agreements := rs, rf_next := n\<rparr>))"

definition upsertLiveDeliveryAddress ::
  "(nat \<Rightarrow> string) \<Rightarrow> millis \<Rightarrow> live_address option \<Rightarrow> string option \<Rightarrow> references \<Rightarrow> address_row option \<times> references" where
  "upsertLiveDeliveryAddress gen at' item counterpartyId rf =
     (case (item, counterpartyId) of
        (Some a, Some cp) \<Rightarrow>
          if \<not> truthy (ld_guid a) \<or> cp = [] then (None, rf)
          else
          let (r, rs, n) = upsert_row (\<lambda>r. ad_guid r = ld_guid a)
                (\<lambda>r. r\<lparr>ad_counterpartyId := cp, ad_name := ld_name a,
                       ad_fullAddress := safeLiveName (Some (ld_fullAddress a)) (latin (or_empty (ld_guid a))),
                       ad_isDefault := ld_isDefault a, ad_isActive := ld_isActive a, ad_sourceUpdatedAt := Some at'\<rparr>)
                (\<lambda>i. \<lparr>ad_id = i, ad_guid = ld_guid a, ad_counterpartyId = cp, ad_name = None, ad_fullAddress = [],
                      ad_isDefault = False, ad_isActive = True, ad_sourceUpdatedAt = None\<rparr>)
                gen (rf_next rf) (rf_addresses rf)
          in (Some r, rf\<lparr>rf_addresses := rs, rf_next := n\<rparr>)
      | _ \<Rightarrow> (None, rf))"

definition u_first :: "utext option \<Rightarrow> utext \<Rightarrow> utext" where
  "u_first v fallback = (if u_or_empty v = [] then fallback else u_or_empty v)"

definition upsertLiveUnit ::
  "(nat \<Rightarrow> string) \<Rightarrow> millis \<Rightarrow> live_unit option \<Rightarrow> string \<Rightarrow> references \<Rightarrow> unit_row \<times> references" where
  "upsertLiveUnit gen at' u fallbackGuid rf =
     (let symbol = Option.bind u lu_symbol;
          given = js_trim (or_empty (Option.bind u lu_guid));
          guid = (if given = [] then fallbackGuid else given);
          name = safeLiveName (Option.bind u lu_name) (u_first symbol ru_piece);
          (r, rs, n) = upsert_row (\<lambda>r. un_guid r = Some guid)
            (\<lambda>r. r\<lparr>un_name := name, un_code := symbol, un_symbol := nullish symbol (Some name), un_sourceUpdatedAt := Some at'\<rparr>)
            (\<lambda>i. \<lparr>un_id = i, un_guid = Some guid, un_name = [], un_code = None, un_symbol = None, un_sourceUpdatedAt = None\<rparr>)
            gen (rf_next rf) (rf_units rf)
      in (r, rf\<lparr>rf_units := rs, rf_next := n\<rparr>))"

definition upsertLiveProductPrice ::
  "(nat \<Rightarrow> rat \<Rightarrow> rat) \<Rightarrow> (nat \<Rightarrow> string) \<Rightarrow> millis \<Rightarrow> string \<Rightarrow> live_price_type option \<Rightarrow> rat option \<Rightarrow> utext option \<Rightarrow> references \<Rightarrow> references" where
  "upsertLiveProductPrice col gen at' productId priceType price currency rf =
     (case (priceType, price) of
        (Some pt, Some p) \<Rightarrow>
          (case upsertLivePriceType gen at' (Some pt) rf of
             (None, rf1) \<Rightarrow> rf1
           | (Some row, rf1) \<Rightarrow>
               let (_, rs, n) = upsert_row
                     (\<lambda>r. pc_productId r = productId \<and> pc_priceTypeId r = Some (py_id row) \<and> pc_startDate r = Some 0)
                     (\<lambda>r. r\<lparr>pc_price := col 4 p, pc_currency := nullish currency (Some DEFAULT_ORDER_CURRENCY), pc_minQty := Some (col 3 1),
                            pc_isActive := True, pc_sourceUpdatedAt := Some at'\<rparr>)
                     (\<lambda>i. \<lparr>pc_id = i, pc_productId = productId, pc_priceTypeId = Some (py_id row), pc_price = 0,
                           pc_currency = None, pc_startDate = Some 0, pc_endDate = None, pc_minQty = None,
                           pc_isActive = True, pc_sourceUpdatedAt = None, pc_createdAt = at'\<rparr>)
                     gen (rf_next rf1) (rf_prices rf1)
               in rf1\<lparr>rf_prices := rs, rf_next := n\<rparr>)
      | _ \<Rightarrow> rf)"

text \<open>One round of the loop over the packages of a product.\<close>

definition upsertLivePackage ::
  "(nat \<Rightarrow> rat \<Rightarrow> rat) \<Rightarrow> (nat \<Rightarrow> string) \<Rightarrow> millis \<Rightarrow> live_product \<Rightarrow> string \<Rightarrow> live_package \<Rightarrow> references \<Rightarrow> references" where
  "upsertLivePackage col gen at' item productId pack rf =
     (if lk_guid pack = [] then rf
      else if isLiveBaseUnitPackage pack (lp_baseUnit item)
      then rf\<lparr>rf_packages := filter (\<lambda>r. \<not> (pk_productId r = productId \<and> pk_guid r = Some (lk_guid pack))) (rf_packages rf)\<rparr>
      else
        let (u, rf1) = upsertLiveUnit gen at' (nullish (lk_unit pack) (lp_baseUnit item)) (''default-unit-'' @ lp_guid item) rf;
            (_, rs, n) = upsert_row (\<lambda>r. pk_guid r = Some (lk_guid pack))
              (\<lambda>r. r\<lparr>pk_productId := productId, pk_unitId := un_id u,
                     pk_name := safeLiveName (Some (lk_name pack)) (latin (lk_guid pack)),
                     pk_multiplier := col 4 (case lk_multiplier pack of None \<Rightarrow> 1 | Some m \<Rightarrow> m),
                     pk_isDefault := lk_isDefault pack, pk_sourceUpdatedAt := Some at'\<rparr>)
              (\<lambda>i. \<lparr>pk_id = i, pk_guid = Some (lk_guid pack), pk_productId = productId, pk_unitId = un_id u, pk_name = [],
                    pk_multiplier = 1, pk_isDefault = False, pk_sourceUpdatedAt = None\<rparr>)
              gen (rf_next rf1) (rf_packages rf1)
        in rf1\<lparr>rf_packages := rs, rf_next := n\<rparr>)"

definition upsertLiveStock ::
  "(nat \<Rightarrow> rat \<Rightarrow> rat) \<Rightarrow> (nat \<Rightarrow> string) \<Rightarrow> millis \<Rightarrow> live_product \<Rightarrow> string \<Rightarrow> string option \<Rightarrow> references \<Rightarrow> references" where
  "upsertLiveStock col gen at' item productId warehouseId rf =
     (case (warehouseId, lp_stock item) of
        (Some w, Some s) \<Rightarrow>
          if w = [] then rf
          else
          let sharedAvailable = nullish (ls_freeAvailable s) (ls_available s);
              sharedQuantity = (case nullish (ls_quantity s) sharedAvailable of None \<Rightarrow> 0 | Some q \<Rightarrow> q);
              key = w @ ''|'' @ productId;
              (_, rs, n) = upsert_row (\<lambda>r. sb_syncKey r = key)
                (\<lambda>r. r\<lparr>sb_quantity := col 3 sharedQuantity, sb_reserved := map_option (col 3) (ls_reserved s),
                       sb_available := map_option (col 3) sharedAvailable,
                       sb_updatedAt := at', sb_sourceUpdatedAt := Some at'\<rparr>)
                (\<lambda>i. \<lparr>sb_id = i, sb_syncKey = key, sb_productId = productId, sb_warehouseId = w, sb_quantity = 0,
                      sb_reserved = None, sb_available = None, sb_updatedAt = at', sb_sourceUpdatedAt = None\<rparr>)
                gen (rf_next rf) (rf_stock rf)
          in rf\<lparr>rf_stock := rs, rf_next := n\<rparr>
      | _ \<Rightarrow> rf)"

definition live_price_of :: "(string \<times> utext) option \<Rightarrow> live_price_type option" where
  "live_price_of v = map_option (\<lambda>(g, nm). \<lparr>lt_guid = g, lt_name = nm, lt_code = None, lt_isActive = None\<rparr>) v"

definition upsertLiveProduct ::
  "(nat \<Rightarrow> rat \<Rightarrow> rat) \<Rightarrow> (nat \<Rightarrow> string) \<Rightarrow> millis \<Rightarrow> string option \<Rightarrow> live_product \<Rightarrow> references \<Rightarrow> references" where
  "upsertLiveProduct col gen at' warehouseId item rf =
     (let (baseUnit, rf1) = upsertLiveUnit gen at' (lp_baseUnit item) (''default-unit-'' @ lp_guid item) rf;
          (product, rs, n) = upsert_row (\<lambda>r. pr_guid r = lp_guid item)
            (\<lambda>r. r\<lparr>pr_name := safeLiveName (Some (lp_name item)) (latin (lp_guid item)), pr_code := lp_code item,
                   pr_article := lp_article item, pr_sku := lp_sku item, pr_isWeight := lp_isWeight item,
                   pr_isActive := lp_isActive item, pr_baseUnitId := Some (un_id baseUnit), pr_sourceUpdatedAt := Some at'\<rparr>)
            (\<lambda>i. \<lparr>pr_id = i, pr_guid = lp_guid item, pr_name = [], pr_code = None, pr_article = None, pr_sku = None,
                  pr_isWeight = False, pr_isActive = True, pr_baseUnitId = None, pr_sourceUpdatedAt = None\<rparr>)
            gen (rf_next rf1) (rf_products rf1);
          rf2 = rf1\<lparr>rf_products := rs, rf_next := n\<rparr>;
          rf3 = fold (upsertLivePackage col gen at' item (pr_id product)) (lp_packages item) rf2;
          receipt = \<lparr>lt_guid = ''receipt-price-type'', lt_name = ru_receipt_price, lt_code = Some ru_receipt_price, lt_isActive = None\<rparr>;
          rf4 = upsertLiveProductPrice col gen at' (pr_id product) (live_price_of (lp_priceType item)) (lp_basePrice item) (lp_currency item) rf3;
          rf5 = upsertLiveProductPrice col gen at' (pr_id product) (Some receipt) (lp_receiptPrice item) (lp_currency item) rf4
      in upsertLiveStock col gen at' item (pr_id product) warehouseId rf5)"

section \<open>Materialization\<close>

text \<open>The first occurrence of every guid, in order.\<close>

fun first_by :: "('a \<Rightarrow> 'k) \<Rightarrow> 'k set \<Rightarrow> 'a list \<Rightarrow> 'a list" where
  "first_by key seen [] = []"
| "first_by key seen (x # xs) = (if key x \<in> seen then first_by key seen xs else x # first_by key (insert (key x) seen) xs)"

definition materializeLiveOrderReferences ::
  "(nat \<Rightarrow> rat \<Rightarrow> rat) \<Rightarrow> clock \<Rightarrow> (string \<Rightarrow> millis option) \<Rightarrow> (nat \<Rightarrow> string) \<Rightarrow> millis \<Rightarrow> millis \<Rightarrow> materialization \<Rightarrow> order_body \<Rightarrow> references \<Rightarrow>
   order_error + references" where
  "materializeLiveOrderReferences col ck host gen now at' lm body rf =
     (let (organization, rf1) = upsertLiveOrganization gen at' (lm_organization lm) rf;
          (counterparty, rf2) = upsertLiveCounterparty gen at' (lm_counterparty lm) rf1;
          (warehouse, rf3) = upsertLiveWarehouse gen at' (lm_warehouse lm) rf2;
          agreementOrg = Option.bind (lm_agreement lm) la_organization;
          (agreementOrganization, rf4) = upsertLiveOrganization gen at'
            (map_option (\<lambda>(g, nm, c). \<lparr>lo_guid = g, lo_name = nm, lo_code = c, lo_isActive = True, lo_isSelectable = None\<rparr>) agreementOrg) rf3;
          listed = lm_explicitPriceTypes lm @ List.map_filter (\<lambda>p. live_price_of (lp_priceType p)) (lm_products lm);
          rf5 = fold (\<lambda>p r. snd (upsertLivePriceType gen at' (Some p) r)) (first_by lt_guid {} listed) rf4;
          (agreementPriceType, rf6) = upsertLivePriceType gen at' (live_price_of (Option.bind (lm_agreement lm) la_priceType)) rf5;
          (agreementWarehouse, rf7) =
            (if warehouse = None \<and> truthy (Option.bind (lm_agreement lm) la_warehouseGuid)
             then upsertLiveWarehouse gen at'
                    (map_option (\<lambda>(g, nm). \<lparr>lw_guid = g, lw_name = nm, lw_code = None, lw_address = None, lw_isDefault = False,
                                   lw_isPickup = False, lw_isActive = True, lw_isSelectable = None\<rparr>)
                       (Option.bind (lm_agreement lm) la_warehouse)) rf6
             else (warehouse, rf6));
          (contract, rf8) = upsertLiveContract ck host gen now at' (lm_contract lm) (map_option pa_id counterparty)
            (map_option og_id organization) rf7;
          (_, rf9) = upsertLiveAgreement host gen at' (lm_agreement lm) (map_option pa_id counterparty)
            (nullish (map_option og_id agreementOrganization)
               (if truthy (Option.bind (lm_agreement lm) la_organizationGuid) then None else map_option og_id organization))
            (map_option cn_id contract)
            (nullish (map_option wh_id agreementWarehouse) (map_option wh_id warehouse))
            (map_option py_id agreementPriceType) rf8;
          (_, rf10) = upsertLiveDeliveryAddress gen at' (lm_deliveryAddress lm) (map_option pa_id counterparty) rf9;
          effective = map_option wh_id (nullish warehouse agreementWarehouse);
          rf11 = fold (upsertLiveProduct col gen at' effective) (lm_products lm) rf10
      in if lm_productsSource lm = LIVE_PRODUCTS \<and>
            (\<exists>i \<in> set (bd_items body). \<not> (\<exists>p \<in> set (lm_products lm). lp_guid p = ib_productGuid i))
         then Inl (ReferenceMissing ''product'') else Inr rf11)"

section \<open>Reading 1C\<close>

datatype live_fault = CircuitOpen | OnecFault | OtherFault

type_synonym 'a live_call = "live_fault + 'a"

record live_reads =
  lr_organization :: "live_org option live_call"
  lr_counterparty :: "live_counterparty option live_call"
  lr_agreement :: "live_agreement option live_call"
  lr_contract :: "live_contract option live_call"
  lr_warehouse :: "live_warehouse option live_call"
  lr_deliveryAddress :: "live_address option live_call"
  lr_priceType :: "string \<Rightarrow> live_price_type option live_call"
  lr_products :: "live_product list live_call"

definition loadLiveReferenceWithCache :: "'a option live_call \<Rightarrow> 'a option \<Rightarrow> order_error + 'a option" where
  "loadLiveReferenceWithCache read_live fallback =
     (case read_live of
        Inr (Some v) \<Rightarrow> Inr (Some v)
      | Inr None \<Rightarrow> Inr fallback
      | Inl CircuitOpen \<Rightarrow> Inr fallback
      | Inl OtherFault \<Rightarrow> Inl ServerError
      | Inl OnecFault \<Rightarrow> (case fallback of Some v \<Rightarrow> Inr (Some v) | None \<Rightarrow> Inl LiveUnavailable))"

definition findCachedOrganization :: "string \<Rightarrow> references \<Rightarrow> live_org option" where
  "findCachedOrganization guid rf =
     map_option (\<lambda>r. \<lparr>lo_guid = og_guid r, lo_name = og_name r, lo_code = og_code r, lo_isActive = og_isActive r,
                      lo_isSelectable = None\<rparr>)
       (List.find (\<lambda>r. og_guid r = guid) (rf_organizations rf))"

definition findCachedCounterparty :: "string \<Rightarrow> references \<Rightarrow> live_counterparty option" where
  "findCachedCounterparty guid rf =
     map_option (\<lambda>r. \<lparr>lc_guid = pa_guid r, lc_name = pa_name r, lc_fullName = pa_fullName r, lc_inn = pa_inn r,
                      lc_kpp = pa_kpp r, lc_phone = pa_phone r, lc_email = pa_email r, lc_isActive = pa_isActive r\<rparr>)
       (List.find (\<lambda>r. pa_guid r = guid) (rf_counterparties rf))"

definition findCachedWarehouse :: "string \<Rightarrow> references \<Rightarrow> live_warehouse option" where
  "findCachedWarehouse guid rf =
     map_option (\<lambda>r. \<lparr>lw_guid = wh_guid r, lw_name = wh_name r, lw_code = wh_code r, lw_address = wh_address r,
                      lw_isDefault = wh_isDefault r, lw_isPickup = wh_isPickup r, lw_isActive = wh_isActive r,
                      lw_isSelectable = None\<rparr>)
       (List.find (\<lambda>r. wh_guid r = guid) (rf_warehouses rf))"

definition findCachedPriceType :: "string \<Rightarrow> references \<Rightarrow> live_price_type option" where
  "findCachedPriceType guid rf =
     map_option (\<lambda>r. \<lparr>lt_guid = py_guid r, lt_name = py_name r, lt_code = py_code r, lt_isActive = Some (py_isActive r)\<rparr>)
       (List.find (\<lambda>r. py_guid r = guid) (rf_priceTypes rf))"

definition findCachedContract :: "string \<Rightarrow> references \<Rightarrow> live_contract option" where
  "findCachedContract guid rf =
     map_option (\<lambda>r. \<lparr>ln_guid = cn_guid r, ln_number = cn_number r, ln_name = cn_name r, ln_date = DateValue (cn_date r),
                      ln_validFrom = (case cn_validFrom r of None \<Rightarrow> NoDate | Some d \<Rightarrow> DateValue d),
                      ln_validTo = (case cn_validTo r of None \<Rightarrow> NoDate | Some d \<Rightarrow> DateValue d),
                      ln_status = cn_status r, ln_purpose = cn_purpose r, ln_currency = cn_currency r,
                      ln_isActive = cn_isActive r\<rparr>)
       (List.find (\<lambda>r. cn_guid r = guid) (rf_contracts rf))"

definition findCachedDeliveryAddress :: "string \<Rightarrow> references \<Rightarrow> live_address option" where
  "findCachedDeliveryAddress guid rf =
     map_option (\<lambda>r. \<lparr>ld_guid = ad_guid r, ld_name = ad_name r, ld_fullAddress = ad_fullAddress r,
                      ld_isDefault = ad_isDefault r, ld_isActive = ad_isActive r\<rparr>)
       (List.find (\<lambda>r. ad_guid r = Some guid) (rf_addresses rf))"

definition loadLiveDeliveryAddressForOrderMaterialization ::
  "live_address option live_call \<Rightarrow> string \<Rightarrow> references \<Rightarrow> order_error + live_address option" where
  "loadLiveDeliveryAddressForOrderMaterialization read_live guid rf =
     (case read_live of
        Inr (Some v) \<Rightarrow> Inr (Some v)
      | Inr None \<Rightarrow> Inl (OrderInvalid ''delivery-address'')
      | Inl CircuitOpen \<Rightarrow> Inr (findCachedDeliveryAddress guid rf)
      | Inl OtherFault \<Rightarrow> Inl ServerError
      | Inl OnecFault \<Rightarrow>
          (case findCachedDeliveryAddress guid rf of Some v \<Rightarrow> Inr (Some v) | None \<Rightarrow> Inl LiveUnavailable))"

definition loadLiveProductsForOrderMaterialization ::
  "live_product list live_call \<Rightarrow> order_error + live_product list \<times> products_source" where
  "loadLiveProductsForOrderMaterialization read_live =
     (case read_live of
        Inr ps \<Rightarrow> Inr (ps, LIVE_PRODUCTS)
      | Inl OtherFault \<Rightarrow> Inl ServerError
      | Inl _ \<Rightarrow> Inr ([], LOCAL_FALLBACK))"

definition loadCurrentLiveAgreementForOrder :: "live_agreement option live_call \<Rightarrow> order_error + live_agreement" where
  "loadCurrentLiveAgreementForOrder read_live =
     (case read_live of
        Inr None \<Rightarrow> Inl (OrderInvalid ''agreement'')
      | Inr (Some a) \<Rightarrow>
          if la_isActive a \<and> isActiveAgreementStatus (la_status a) then Inr a else Inl (OrderInvalid ''agreement'')
      | Inl OnecFault \<Rightarrow> Inl LiveUnavailable
      | Inl _ \<Rightarrow> Inl ServerError)"

text \<open>Sequencing of calls that may raise.\<close>

definition bind_sum :: "'e + 'a \<Rightarrow> ('a \<Rightarrow> 'e + 'b) \<Rightarrow> 'e + 'b" where
  "bind_sum m k = (case m of Inl e \<Rightarrow> Inl e | Inr v \<Rightarrow> k v)"

definition when_given :: "'a option \<Rightarrow> ('a \<Rightarrow> 'e + 'b option) \<Rightarrow> 'e + 'b option" where
  "when_given v k = (case v of None \<Rightarrow> Inr None | Some x \<Rightarrow> k x)"

fun all_sums :: "('e + 'a) list \<Rightarrow> 'e + 'a list" where
  "all_sums [] = Inr []"
| "all_sums (x # xs) = bind_sum x (\<lambda>v. bind_sum (all_sums xs) (\<lambda>vs. Inr (v # vs)))"

text \<open>
  The calls run at the same time and the first failure is the one reported; where several fail, the
  model reports the first in the order of the source.
\<close>

definition loadLiveOrderMaterialization ::
  "live_reads \<Rightarrow> order_body \<Rightarrow> references \<Rightarrow> order_error + materialization" where
  "loadLiveOrderMaterialization lr body rf =
     bind_sum (loadLiveReferenceWithCache (lr_organization lr) (findCachedOrganization (bd_organizationGuid body) rf)) (\<lambda>organization.
     bind_sum (loadLiveReferenceWithCache (lr_counterparty lr) (findCachedCounterparty (bd_counterpartyGuid body) rf)) (\<lambda>counterparty.
     bind_sum (when_given (bd_agreementGuid body)
       (\<lambda>g. bind_sum (loadCurrentLiveAgreementForOrder (lr_agreement lr)) (\<lambda>a. Inr (Some a)))) (\<lambda>agreement.
     bind_sum (when_given (bd_contractGuid body)
       (\<lambda>g. loadLiveReferenceWithCache (lr_contract lr) (findCachedContract g rf))) (\<lambda>contract.
     bind_sum (when_given (bd_warehouseGuid body)
       (\<lambda>g. loadLiveReferenceWithCache (lr_warehouse lr) (findCachedWarehouse g rf))) (\<lambda>warehouse.
     bind_sum (when_given (bd_deliveryAddressGuid body)
       (\<lambda>g. loadLiveDeliveryAddressForOrderMaterialization (lr_deliveryAddress lr) g rf)) (\<lambda>deliveryAddress.
     bind_sum (all_sums (map (\<lambda>g. loadLiveReferenceWithCache (lr_priceType lr g) (findCachedPriceType g rf))
       (first_by id {} (List.map_filter id (bd_priceTypeGuid body # map ib_priceTypeGuid (bd_items body)))))) (\<lambda>priceTypes.
     bind_sum (loadLiveProductsForOrderMaterialization (lr_products lr)) (\<lambda>(products, source).
       if Option.bind organization lo_isSelectable = Some False then Inl (OrderInvalid ''organization'')
       else if Option.bind warehouse lw_isSelectable = Some False then Inl (OrderInvalid ''warehouse'')
       else Inr \<lparr>lm_organization = organization, lm_counterparty = counterparty, lm_agreement = agreement,
                 lm_contract = contract, lm_warehouse = warehouse, lm_deliveryAddress = deliveryAddress,
                 lm_explicitPriceTypes = List.map_filter id priceTypes, lm_products = products,
                 lm_productsSource = source\<rparr>))))))))"

section \<open>The context of an order\<close>

record order_context =
  cx_organization :: org_row
  cx_counterparty :: party_row
  cx_agreement :: "agreement_row option"
  cx_contract :: "contract_row option"
  cx_warehouse :: "warehouse_row option"
  cx_deliveryAddress :: "address_row option"
  cx_priceType :: "price_type_row option"

definition load_active :: "string \<Rightarrow> ('r \<Rightarrow> bool) \<Rightarrow> 'r option \<Rightarrow> order_error + 'r" where
  "load_active what active found =
     (case found of
        None \<Rightarrow> Inl (ReferenceMissing what)
      | Some r \<Rightarrow> if active r then Inr r else Inl (OrderInvalid what))"

definition loadOrganizationByGuid :: "string \<Rightarrow> references \<Rightarrow> order_error + org_row" where
  "loadOrganizationByGuid guid rf =
     load_active ''organization'' og_isActive (List.find (\<lambda>r. og_guid r = guid) (rf_organizations rf))"

definition loadCounterpartyByGuid :: "string \<Rightarrow> references \<Rightarrow> order_error + party_row" where
  "loadCounterpartyByGuid guid rf =
     load_active ''counterparty'' pa_isActive (List.find (\<lambda>r. pa_guid r = guid) (rf_counterparties rf))"

definition loadAgreementByGuid :: "string \<Rightarrow> references \<Rightarrow> order_error + agreement_row" where
  "loadAgreementByGuid guid rf =
     load_active ''agreement'' (\<lambda>r. ag_isActive r \<and> isActiveAgreementStatus (ag_status r))
       (List.find (\<lambda>r. ag_guid r = guid) (rf_agreements rf))"

definition loadContractByGuid :: "clock \<Rightarrow> millis \<Rightarrow> string \<Rightarrow> references \<Rightarrow> order_error + contract_row" where
  "loadContractByGuid ck now guid rf =
     load_active ''contract''
       (\<lambda>r. cn_isActive r \<and> \<not> isClosedContractStatus (cn_status r) \<and> isActiveContractStatus (cn_status r) \<and>
            isRealizationContractPurpose (cn_purpose r) \<and> isContractDateRangeActive ck (cn_validFrom r) (cn_validTo r) now)
       (List.find (\<lambda>r. cn_guid r = guid) (rf_contracts rf))"

definition loadWarehouseByGuid :: "string \<Rightarrow> references \<Rightarrow> order_error + warehouse_row" where
  "loadWarehouseByGuid guid rf =
     load_active ''warehouse'' wh_isActive (List.find (\<lambda>r. wh_guid r = guid) (rf_warehouses rf))"

definition loadDeliveryAddressByGuid :: "string \<Rightarrow> references \<Rightarrow> order_error + address_row" where
  "loadDeliveryAddressByGuid guid rf =
     load_active ''delivery-address'' ad_isActive
       (List.find (\<lambda>r. ad_guid r = Some guid \<or> ad_id r = guid) (rf_addresses rf))"

definition loadPriceTypeById :: "string \<Rightarrow> references \<Rightarrow> order_error + price_type_row" where
  "loadPriceTypeById i rf = load_active ''price-type'' py_isActive (List.find (\<lambda>r. py_id r = i) (rf_priceTypes rf))"

definition loadPriceTypeByGuid :: "string \<Rightarrow> references \<Rightarrow> order_error + price_type_row" where
  "loadPriceTypeByGuid guid rf =
     load_active ''price-type'' py_isActive (List.find (\<lambda>r. py_guid r = guid) (rf_priceTypes rf))"

definition load_given :: "'k option \<Rightarrow> ('k \<Rightarrow> 'e + 'b) \<Rightarrow> 'e + 'b option" where
  "load_given v k = when_given v (\<lambda>x. bind_sum (k x) (\<lambda>r. Inr (Some r)))"

text \<open>The checks between the loaded rows; the word names the offending reference.\<close>

definition context_mismatch ::
  "org_row \<Rightarrow> party_row \<Rightarrow> agreement_row option \<Rightarrow> contract_row option \<Rightarrow> warehouse_row option \<Rightarrow> address_row option \<Rightarrow> string option" where
  "context_mismatch organization counterparty agreement contract warehouse deliveryAddress =
     (if (case agreement of None \<Rightarrow> False | Some a \<Rightarrow> truthy (ag_counterpartyId a) \<and> ag_counterpartyId a \<noteq> Some (pa_id counterparty))
      then Some ''agreement''
      else if (case agreement of None \<Rightarrow> False | Some a \<Rightarrow> ag_organizationId a \<noteq> Some (og_id organization))
      then Some ''agreement''
      else if (case contract of None \<Rightarrow> False | Some c \<Rightarrow> cn_counterpartyId c \<noteq> pa_id counterparty)
      then Some ''contract''
      else if (case (agreement, contract) of (Some a, Some c) \<Rightarrow> truthy (ag_contractId a) \<and> ag_contractId a \<noteq> Some (cn_id c) | _ \<Rightarrow> False)
      then Some ''contract''
      else if (case (agreement, warehouse) of (Some a, Some w) \<Rightarrow> truthy (ag_warehouseId a) \<and> ag_warehouseId a \<noteq> Some (wh_id w) | _ \<Rightarrow> False)
      then Some ''warehouse''
      else if (case deliveryAddress of None \<Rightarrow> False | Some d \<Rightarrow> ad_counterpartyId d \<noteq> pa_id counterparty)
      then Some ''delivery-address'' else None)"

definition resolveManagerOrderContext ::
  "clock \<Rightarrow> millis \<Rightarrow> order_body \<Rightarrow> references \<Rightarrow> order_error + order_context" where
  "resolveManagerOrderContext ck now body rf =
     bind_sum (loadOrganizationByGuid (bd_organizationGuid body) rf) (\<lambda>organization.
     bind_sum (loadCounterpartyByGuid (bd_counterpartyGuid body) rf) (\<lambda>counterparty.
     bind_sum (load_given (bd_agreementGuid body) (\<lambda>g. loadAgreementByGuid g rf)) (\<lambda>agreement.
     bind_sum (load_given (bd_contractGuid body) (\<lambda>g. loadContractByGuid ck now g rf)) (\<lambda>contract.
     bind_sum (load_given (bd_warehouseGuid body) (\<lambda>g. loadWarehouseByGuid g rf)) (\<lambda>warehouse.
     bind_sum (load_given (bd_deliveryAddressGuid body) (\<lambda>g. loadDeliveryAddressByGuid g rf)) (\<lambda>deliveryAddress.
     bind_sum (load_given (bd_priceTypeGuid body) (\<lambda>g. loadPriceTypeByGuid g rf)) (\<lambda>explicitPriceType.
     case context_mismatch organization counterparty agreement contract warehouse deliveryAddress of
       Some what \<Rightarrow> Inl (OrderInvalid what)
     | None \<Rightarrow>
         bind_sum (load_given (case Option.bind agreement ag_priceTypeId of None \<Rightarrow> None | Some i \<Rightarrow> non_empty i)
           (\<lambda>i. loadPriceTypeById i rf)) (\<lambda>agreementPriceType.
         Inr \<lparr>cx_organization = organization, cx_counterparty = counterparty, cx_agreement = agreement,
              cx_contract = contract, cx_warehouse = warehouse, cx_deliveryAddress = deliveryAddress,
              cx_priceType = nullish explicitPriceType agreementPriceType\<rparr>))))))))"

end
