(* ===== verification/Order_Pricing.thy ===== *)
theory Order_Pricing
  imports Order_References
begin

text \<open>
  The lines of an order: \<^verbatim>\<open>prepareOrderItems\<close> of
  \<^verbatim>\<open>src/src/modules/clientOrders/clientOrders.service.ts\<close>, which resolves products, packages
  and price types, computes prices, discounts and totals, and refuses duplicate lines.

  \<^verbatim>\<open>Prisma.Decimal\<close> rounds the result of an operation to a fixed number of significant
  digits; \<open>dec\<close> is that rounding, applied where the code computes.  A JavaScript number is the
  rational that its shortest decimal notation denotes, which is what \<^verbatim>\<open>Prisma.Decimal\<close> reads
  of it: a number of the request is one, and \<open>num\<close> is the way of a stored decimal through
  \<^verbatim>\<open>decimalToNumber\<close>.
\<close>

section \<open>Product prices\<close>

text \<open>Descending order of nullable columns, which puts nulls first.\<close>

definition desc_before :: "millis option \<Rightarrow> millis option \<Rightarrow> bool" where
  "desc_before a b = (case (a, b) of (None, Some _) \<Rightarrow> True | (Some x, Some y) \<Rightarrow> y < x | _ \<Rightarrow> False)"

definition price_before :: "price_row \<Rightarrow> price_row \<Rightarrow> bool" where
  "price_before a b \<longleftrightarrow>
     desc_before (pc_startDate a) (pc_startDate b) \<or>
     pc_startDate a = pc_startDate b \<and>
       (desc_before (pc_sourceUpdatedAt a) (pc_sourceUpdatedAt b) \<or>
        pc_sourceUpdatedAt a = pc_sourceUpdatedAt b \<and> pc_createdAt b < pc_createdAt a)"

definition best_price :: "price_row list \<Rightarrow> price_row option" where
  "best_price rs = fold (\<lambda>r b. case b of None \<Rightarrow> Some r | Some x \<Rightarrow> if price_before r x then Some r else Some x) rs None"

definition price_applies :: "millis \<Rightarrow> string \<Rightarrow> string \<Rightarrow> price_row \<Rightarrow> bool" where
  "price_applies now productId priceTypeId r \<longleftrightarrow>
     pc_isActive r \<and> pc_productId r = productId \<and> pc_priceTypeId r = Some priceTypeId \<and>
     (case pc_startDate r of None \<Rightarrow> True | Some d \<Rightarrow> d \<le> now) \<and> (case pc_endDate r of None \<Rightarrow> True | Some d \<Rightarrow> now \<le> d)"

text \<open>\<^verbatim>\<open>loadProductPriceInfoByProductAndPriceTypeId\<close> at one product and price type.\<close>

definition product_price :: "millis \<Rightarrow> references \<Rightarrow> string \<Rightarrow> string \<Rightarrow> price_row option" where
  "product_price now rf productId priceTypeId =
     best_price (filter (price_applies now productId priceTypeId) (rf_prices rf))"

section \<open>One line\<close>

record line_price =
  pl_quantityBase :: rat
  pl_basePrice :: rat
  pl_applied :: "rat option"
  pl_price :: rat
  pl_generalDiscount :: rat
  pl_amount :: rat

text \<open>The arithmetic of a line: the applied percentage, the final price, and the part of the general discount.\<close>

definition price_line :: "(rat \<Rightarrow> rat) \<Rightarrow> rat option \<Rightarrow> bool \<Rightarrow> rat option \<Rightarrow> rat \<Rightarrow> rat \<Rightarrow> line_price" where
  "price_line dec general manual lineDiscount basePrice quantityBase =
     (let canApplyGeneral = (\<not> manual \<and> lineDiscount = None);
          applied = nullish lineDiscount (if canApplyGeneral then general else None);
          finalPrice = (case applied of None \<Rightarrow> basePrice
                        | Some d \<Rightarrow> dec (basePrice * dec (dec (100 - d) / 100)));
          part = (if applied \<noteq> None \<and> canApplyGeneral \<and> general \<noteq> None
                  then dec (dec (basePrice - finalPrice) * quantityBase) else 0)
      in \<lparr>pl_quantityBase = quantityBase, pl_basePrice = basePrice, pl_applied = applied, pl_price = finalPrice,
          pl_generalDiscount = part, pl_amount = dec (quantityBase * finalPrice)\<rparr>)"

definition u_source :: "string \<Rightarrow> price_type_row option \<Rightarrow> utext" where
  "u_source prefix pt = latin prefix @ (case pt of None \<Rightarrow> latin ''price-type'' | Some p \<Rightarrow> py_name p)"

definition normalizeLineGuid :: "string option \<Rightarrow> string option" where
  "normalizeLineGuid v = non_empty (js_trim (or_empty v))"

definition ensureLineGuid :: "string \<Rightarrow> string option \<Rightarrow> string" where
  "ensureLineGuid uuid v = (case normalizeLineGuid v of None \<Rightarrow> uuid | Some g \<Rightarrow> g)"

text \<open>
  A line without its check for duplicates.  \<open>ctxType\<close> is the price type of the order; a price
  type given on the line itself has to be active.
\<close>

definition prepare_line ::
  "(rat \<Rightarrow> rat) \<Rightarrow> (rat \<Rightarrow> rat) \<Rightarrow> millis \<Rightarrow> references \<Rightarrow> rat option \<Rightarrow> price_type_row option \<Rightarrow> string \<Rightarrow> item_body \<Rightarrow>
   order_error + order_item \<times> rat \<times> rat" where
  "prepare_line dec num now rf general ctxType uuid item =
     (case List.find (\<lambda>p. pr_guid p = ib_productGuid item) (rf_products rf) of
        None \<Rightarrow> Inl (ReferenceMissing ''product'')
      | Some product \<Rightarrow>
      if \<not> pr_isActive product then Inl (OrderInvalid ''product'')
      else
      let package = (case ib_packageGuid item of None \<Rightarrow> None
                     | Some g \<Rightarrow> List.find (\<lambda>k. pk_productId k = pr_id product \<and> pk_guid k = Some g) (rf_packages rf));
          manual = (ib_manualPrice item \<noteq> None);
          cancelled = (ib_isCancelled item = Some True);
          own = Option.bind (ib_priceTypeGuid item) (\<lambda>g. List.find (\<lambda>p. py_guid p = g) (rf_priceTypes rf));
          lineType = (if ib_priceTypeGuid item \<noteq> None then own else if manual then None else ctxType)
      in
      if ib_packageGuid item \<noteq> None \<and> package = None then Inl (ReferenceMissing ''package'')
      else if ib_priceTypeGuid item \<noteq> None \<and> lineType = None then Inl (ReferenceMissing ''price-type'')
      else if (case own of None \<Rightarrow> False | Some p \<Rightarrow> \<not> py_isActive p) then Inl (OrderInvalid ''price-type'')
      else if \<not> manual \<and> lineType = None \<and> \<not> cancelled then Inl (OrderInvalid ''no-price-type'')
      else
      let listed = (if manual then None else Option.bind lineType (\<lambda>p. product_price now rf (pr_id product) (py_id p)));
          basePriceValue = (if manual then ib_manualPrice item
            else nullish (ib_basePrice item) (nullish (map_option (\<lambda>r. num (pc_price r)) listed) (if cancelled then Some 0 else None)));
          quantityBase = dec (ib_quantity item * (case package of None \<Rightarrow> 1 | Some k \<Rightarrow> pk_multiplier k));
          minQty = (if pr_isWeight product then Some (1 / 1000) else map_option num (Option.bind listed pc_minQty));
          quantityBaseValue = num quantityBase
      in
      case basePriceValue of
        None \<Rightarrow> Inl (OrderInvalid ''no-price'')
      | Some basePrice \<Rightarrow>
      if \<not> cancelled \<and> 0 < quantityBaseValue \<and> (case minQty of None \<Rightarrow> False | Some m \<Rightarrow> quantityBaseValue < m)
      then Inl (OrderInvalid ''quantity'')
      else
      let pl = price_line dec general manual (ib_discountPercent item) basePrice quantityBase
      in Inr (\<lparr>it_lineGuid = ensureLineGuid uuid (ib_lineGuid item),
               it_productId = pr_id product,
               it_packageId = map_option pk_id package,
               it_unitId = nullish (map_option pk_unitId package) (pr_baseUnitId product),
               it_priceTypeId = map_option py_id lineType,
               it_quantity = ib_quantity item,
               it_quantityBase = Some quantityBase,
               it_basePrice = Some basePrice,
               it_price = pl_price pl,
               it_isManualPrice = manual,
               it_manualPrice = ib_manualPrice item,
               it_priceSource = Some (if manual then latin ''manual''
                 else if listed \<noteq> None then u_source ''product-prices:'' lineType else u_source ''client-fixed:'' lineType),
               it_isCancelled = cancelled,
               it_cancelReasonGuid = ib_cancelReasonGuid item,
               it_cancelReasonName = ib_cancelReasonName item,
               it_cancelReason = ib_cancelReason item,
               it_cancelledAmount = nullish (ib_cancelledAmount item) (if cancelled then Some (pl_amount pl) else None),
               it_discountPercent = ib_discountPercent item,
               it_appliedDiscountPercent = pl_applied pl,
               it_lineAmount = Some (pl_amount pl),
               it_comment = ib_comment item,
               it_sourceUpdatedAt = Some now\<rparr>,
              pl_amount pl, pl_generalDiscount pl))"

section \<open>All lines\<close>

text \<open>The general discount counts for a line that has neither a manual price nor a discount of its own.\<close>

definition general_applies :: "rat option \<Rightarrow> item_body \<Rightarrow> bool" where
  "general_applies general item \<longleftrightarrow> ib_manualPrice item = None \<and> ib_discountPercent item = None \<and> general \<noteq> None"

record prepared =
  pp_items :: "order_item list"
  pp_totalAmount :: rat
  pp_generalDiscountAmount :: rat

text \<open>The loop: \<open>k\<close> is the position of the line, \<open>used\<close> the line guids seen, in lower case.\<close>

fun prepare_lines ::
  "(rat \<Rightarrow> rat) \<Rightarrow> (rat \<Rightarrow> rat) \<Rightarrow> millis \<Rightarrow> references \<Rightarrow> rat option \<Rightarrow> price_type_row option \<Rightarrow> (nat \<Rightarrow> string) \<Rightarrow> nat \<Rightarrow> string set \<Rightarrow>
   prepared \<Rightarrow> item_body list \<Rightarrow> order_error + prepared" where
  "prepare_lines dec num now rf general ctxType uuid k used acc [] = Inr acc"
| "prepare_lines dec num now rf general ctxType uuid k used acc (item # items) =
     (case prepare_line dec num now rf general ctxType (uuid k) item of
        Inl e \<Rightarrow> Inl e
      | Inr (row, amount, part) \<Rightarrow>
          if js_lower (it_lineGuid row) \<in> used then Inl (OrderInvalid ''line-guid'')
          else prepare_lines dec num now rf general ctxType uuid (Suc k) (insert (js_lower (it_lineGuid row)) used)
                 \<lparr>pp_items = pp_items acc @ [row],
                  pp_totalAmount = (if it_isCancelled row then pp_totalAmount acc else dec (pp_totalAmount acc + amount)),
                  pp_generalDiscountAmount =
                    (if general_applies general item then dec (pp_generalDiscountAmount acc + part)
                     else pp_generalDiscountAmount acc)\<rparr> items)"

definition prepareOrderItems ::
  "(rat \<Rightarrow> rat) \<Rightarrow> (rat \<Rightarrow> rat) \<Rightarrow> (nat \<Rightarrow> string) \<Rightarrow> millis \<Rightarrow> order_body \<Rightarrow> order_context \<Rightarrow> references \<Rightarrow> order_error + prepared" where
  "prepareOrderItems dec num uuid now body cx rf =
     prepare_lines dec num now rf (bd_generalDiscountPercent body) (cx_priceType cx) uuid 0 {}
       \<lparr>pp_items = [], pp_totalAmount = 0, pp_generalDiscountAmount = 0\<rparr> (bd_items body)"

end
