(* ===== verification/Order_Commands.thy ===== *)
theory Order_Commands
  imports Order_Pricing
begin

text \<open>
  The operations of the order service on the table of orders, from
  \<^verbatim>\<open>src/src/modules/clientOrders/clientOrders.service.ts\<close>: create, update, submit, unqueue,
  retry, delete, restore, cancel, copy, and the idempotent \<^verbatim>\<open>putClientOrderByClientId\<close>.

  A handler maps its input and the tables to its answer and the new tables.  The answer of a successful
  command is the guid of the order that the response then shows.  The clock is read once per request.
  \<open>order_env\<close> holds the arithmetic of the database, of \<^verbatim>\<open>Prisma.Decimal\<close> and of JavaScript numbers, the
  local calendar, the generated identifiers and the digest of a request body; \<open>order_draw\<close> holds
  the identifiers drawn for one request.
\<close>

record order_env =
  oe_dec :: "rat \<Rightarrow> rat"
  oe_num :: "rat \<Rightarrow> rat"
  oe_col :: "nat \<Rightarrow> rat \<Rightarrow> rat"
  oe_clock :: clock
  oe_host :: "string \<Rightarrow> millis option"
  oe_gen :: "nat \<Rightarrow> string"
  oe_hash :: "order_body \<Rightarrow> string"

record order_draw =
  dr_orderId :: string
  dr_guid :: string
  dr_line :: "nat \<Rightarrow> string"

section \<open>Shared parts\<close>

definition isOrderQueued :: "client_order \<Rightarrow> bool" where
  "isOrderQueued o' \<longleftrightarrow> co_syncState o' = SY_QUEUED \<or> co_syncState o' = SY_CANCEL_REQUESTED"

definition ensureEditable :: "client_order \<Rightarrow> order_error option" where
  "ensureEditable o' =
     (if co_source o' \<noteq> MANAGER_APP then Some OrderNotFound
      else if on_hasRealization (co_onec o') then Some OrderConflict else None)"

definition assertRevision :: "int \<Rightarrow> int \<Rightarrow> order_error option" where
  "assertRevision current expected = (if current \<noteq> expected then Some OrderConflict else None)"

definition find_own :: "string \<Rightarrow> user_id \<Rightarrow> order_db \<Rightarrow> client_order option" where
  "find_own guid userId db =
     List.find (\<lambda>o'. co_guid o' = Some guid \<and> co_source o' = MANAGER_APP \<and> co_createdByUserId o' = Some userId) (ob_orders db)"

text \<open>\<^verbatim>\<open>tx.order.update\<close> by primary key; the database sets \<^verbatim>\<open>updatedAt\<close>.\<close>

definition write_order :: "millis \<Rightarrow> string \<Rightarrow> (client_order \<Rightarrow> client_order) \<Rightarrow> order_db \<Rightarrow> order_db" where
  "write_order now i f db =
     db\<lparr>ob_orders := update_where (\<lambda>o'. co_id o' = i) (\<lambda>o'. (f o')\<lparr>co_updatedAt := now\<rparr>) (ob_orders db)\<rparr>"

definition appendOrderEvent :: "string \<Rightarrow> int \<Rightarrow> event_source \<Rightarrow> string \<Rightarrow> user_id option \<Rightarrow> order_db \<Rightarrow> order_db" where
  "appendOrderEvent orderId revision source eventType actor db =
     db\<lparr>ob_events := ob_events db @
          [\<lparr>ev_orderId = orderId, ev_revision = revision, ev_source = source, ev_type = eventType, ev_actor = actor\<rparr>]\<rparr>"

definition resolveActiveTrackingOrderSnapshot :: "millis \<Rightarrow> user_id \<Rightarrow> order_db \<Rightarrow> tracking option" where
  "resolveActiveTrackingOrderSnapshot now userId db =
     (case find_latest ur_startedAt (\<lambda>r. ur_userId r = userId \<and> ur_active r) (ob_routes db) of
        None \<Rightarrow> None
      | Some route \<Rightarrow>
          (case find_latest rp_recordedAt (\<lambda>p. rp_userId p = userId \<and> rp_routeId p = ur_id route) (ob_points db) of
             None \<Rightarrow> None
           | Some point \<Rightarrow> Some \<lparr>tk_routeId = ur_id route, tk_routeStartedAt = ur_startedAt route, tk_point = point,
                                 tk_capturedAt = now\<rparr>))"

definition with_tracking :: "tracking option \<Rightarrow> client_order \<Rightarrow> client_order" where
  "with_tracking tk o' =
     (case tk of None \<Rightarrow> o'
      | Some t \<Rightarrow> o'\<lparr>co_trackingRoutePointId := Some (rp_id (tk_point t)), co_trackingSnapshot := Some t\<rparr>)"

definition clear_errors :: "client_order \<Rightarrow> client_order" where
  "clear_errors o' = o'\<lparr>co_lastExportError := None, co_onec := (co_onec o')\<lparr>on_last1cError := None\<rparr>\<rparr>"

definition saveInvoicePreference :: "user_id \<Rightarrow> string \<Rightarrow> bool \<Rightarrow> order_db \<Rightarrow> order_db" where
  "saveInvoicePreference userId counterpartyId invoiceRequested db =
     (let hit = (\<lambda>p. pf_userId p = userId \<and> pf_counterpartyId p = counterpartyId) in
      if \<exists>p \<in> set (ob_preferences db). hit p
      then db\<lparr>ob_preferences := update_where hit (\<lambda>p. p\<lparr>pf_invoiceRequested := invoiceRequested\<rparr>) (ob_preferences db)\<rparr>
      else db\<lparr>ob_preferences := ob_preferences db @
                [\<lparr>pf_userId = userId, pf_counterpartyId = counterpartyId, pf_invoiceRequested = invoiceRequested\<rparr>]\<rparr>)"

definition saveUserCounterpartyDefaults :: "millis \<Rightarrow> user_id \<Rightarrow> string \<Rightarrow> order_db \<Rightarrow> order_db" where
  "saveUserCounterpartyDefaults now userId guid db =
     (case find_own guid userId db of
        None \<Rightarrow> db
      | Some o' \<Rightarrow>
          let c = co_content o'; org = or_empty (ct_organizationId c); cp = ct_counterpartyId c in
          if org = [] \<or> cp = [] then db
          else
          let hit = (\<lambda>m. rm_userId m = userId \<and> rm_organizationId m = org \<and> rm_counterpartyId m = cp);
              fill = (\<lambda>m. m\<lparr>rm_agreementId := ct_agreementId c, rm_contractId := ct_contractId c,
                            rm_warehouseId := ct_warehouseId c, rm_deliveryAddressId := ct_deliveryAddressId c,
                            rm_lastUsedAt := now\<rparr>)
          in if \<exists>m \<in> set (ob_remembered db). hit m
             then db\<lparr>ob_remembered := update_where hit fill (ob_remembered db)\<rparr>
             else db\<lparr>ob_remembered := ob_remembered db @
                       [fill \<lparr>rm_userId = userId, rm_organizationId = org, rm_counterpartyId = cp, rm_agreementId = None,
                              rm_contractId = None, rm_warehouseId = None, rm_deliveryAddressId = None, rm_lastUsedAt = now\<rparr>]\<rparr>)"

section \<open>Commands on a stored order\<close>

text \<open>\<^verbatim>\<open>item.quantity.lte(0) || item.basePrice === null || item.basePrice.lte(0)\<close>\<close>

definition line_unpriced :: "order_item \<Rightarrow> bool" where
  "line_unpriced i \<longleftrightarrow> it_quantity i \<le> 0 \<or> (case it_basePrice i of None \<Rightarrow> True | Some p \<Rightarrow> p \<le> 0)"

definition lines_unpriced :: "order_item list \<Rightarrow> bool" where
  "lines_unpriced items \<longleftrightarrow>
     (let active = filter (\<lambda>i. \<not> it_isCancelled i) items in active = [] \<or> (\<exists>i \<in> set active. line_unpriced i))"

definition missing_fields :: "order_content \<Rightarrow> string list" where
  "missing_fields c =
     (if truthy (ct_organizationId c) then [] else [''organization'']) @
     (if truthy (ct_agreementId c) then [] else [''agreement'']) @
     (if truthy (ct_contractId c) then [] else [''contract'']) @
     (if truthy (ct_warehouseId c) then [] else [''warehouse'']) @
     (if truthy (ct_deliveryAddressId c) then [] else [''delivery-address'']) @
     (if ct_deliveryDate c \<noteq> None then [] else [''delivery-date''])"

definition assertClientOrderCanBeSubmitted :: "order_content \<Rightarrow> order_error option" where
  "assertClientOrderCanBeSubmitted c =
     (if missing_fields c \<noteq> [] then Some (OrderInvalid ''missing-fields'')
      else if lines_unpriced (ct_items c) then Some (OrderInvalid ''lines'') else None)"

definition submitted :: "millis \<Rightarrow> tracking option \<Rightarrow> client_order \<Rightarrow> client_order" where
  "submitted now tk o' =
     clear_errors (with_tracking tk
       (o'\<lparr>co_revision := co_revision o' + 1, co_status := ST_QUEUED, co_syncState := SY_QUEUED, co_queuedAt := Some now,
           co_submitRequestedAt := Some now, co_exportAttempts := 0, co_sourceUpdatedAt := Some now\<rparr>))"

definition submitClientOrder :: "millis \<Rightarrow> string \<Rightarrow> user_id \<Rightarrow> int \<Rightarrow> order_db \<Rightarrow> (order_error + string) \<times> order_db" where
  "submitClientOrder now guid userId revision db =
     (case find_own guid userId db of
        None \<Rightarrow> (Inl OrderNotFound, db)
      | Some o' \<Rightarrow>
      case ensureEditable o' of Some e \<Rightarrow> (Inl e, db) | None \<Rightarrow>
      case assertRevision (co_revision o') revision of Some e \<Rightarrow> (Inl e, db) | None \<Rightarrow>
      if co_status o' = ST_CANCELLED then (Inl OrderConflict, db)
      else case assertClientOrderCanBeSubmitted (co_content o') of Some e \<Rightarrow> (Inl e, db) | None \<Rightarrow>
      let db1 = write_order now (co_id o')
            (\<lambda>r. (submitted now (resolveActiveTrackingOrderSnapshot now userId db) r)\<lparr>co_cancelRequestedAt := None, co_cancelReason := None\<rparr>) db;
          db2 = appendOrderEvent (co_id o') (co_revision o' + 1) APP_MANAGER ''CLIENT_ORDER_SUBMITTED'' (Some userId) db1
      in (Inr guid, saveUserCounterpartyDefaults now userId guid db2))"

definition unqueueClientOrderInTransaction :: "millis \<Rightarrow> client_order \<Rightarrow> user_id \<Rightarrow> order_db \<Rightarrow> order_db" where
  "unqueueClientOrderInTransaction now o' userId db =
     appendOrderEvent (co_id o') (co_revision o' + 1) APP_MANAGER ''CLIENT_ORDER_UNQUEUED'' (Some userId)
       (write_order now (co_id o')
          (\<lambda>r. clear_errors (r\<lparr>co_revision := co_revision o' + 1, co_status := ST_DRAFT, co_syncState := SY_DRAFT, co_queuedAt := None,
                 co_submitRequestedAt := None, co_cancelRequestedAt := None, co_cancelReason := None,
                 co_sourceUpdatedAt := Some now\<rparr>)) db)"

definition unqueueClientOrder :: "millis \<Rightarrow> string \<Rightarrow> user_id \<Rightarrow> int \<Rightarrow> order_db \<Rightarrow> (order_error + string) \<times> order_db" where
  "unqueueClientOrder now guid userId revision db =
     (case find_own guid userId db of
        None \<Rightarrow> (Inl OrderNotFound, db)
      | Some o' \<Rightarrow>
      if on_hasRealization (co_onec o') then (Inl OrderConflict, db)
      else if \<not> isOrderQueued o' then (Inl OrderConflict, db)
      else case assertRevision (co_revision o') revision of Some e \<Rightarrow> (Inl e, db) | None \<Rightarrow>
      (Inr guid, unqueueClientOrderInTransaction now o' userId db))"

definition retryClientOrderExport :: "millis \<Rightarrow> string \<Rightarrow> user_id \<Rightarrow> int \<Rightarrow> order_db \<Rightarrow> (order_error + string) \<times> order_db" where
  "retryClientOrderExport now guid userId revision db =
     (case find_own guid userId db of
        None \<Rightarrow> (Inl OrderNotFound, db)
      | Some o' \<Rightarrow>
      case ensureEditable o' of Some e \<Rightarrow> (Inl e, db) | None \<Rightarrow>
      case assertRevision (co_revision o') revision of Some e \<Rightarrow> (Inl e, db) | None \<Rightarrow>
      if lines_unpriced (ct_items (co_content o')) then (Inl (OrderInvalid ''lines''), db)
      else
      (Inr guid,
       appendOrderEvent (co_id o') (co_revision o' + 1) APP_MANAGER ''CLIENT_ORDER_EXPORT_RETRY_QUEUED'' (Some userId)
         (write_order now (co_id o')
            (\<lambda>r. clear_errors (r\<lparr>co_revision := co_revision o' + 1, co_status := ST_QUEUED, co_syncState := SY_QUEUED,
                   co_queuedAt := Some now, co_sentTo1cAt := None, co_exportAttempts := 0, co_sourceUpdatedAt := Some now\<rparr>)) db)))"

definition deleteDraftClientOrder :: "string \<Rightarrow> user_id \<Rightarrow> order_db \<Rightarrow> (order_error + string) \<times> order_db" where
  "deleteDraftClientOrder guid userId db =
     (case find_own guid userId db of
        None \<Rightarrow> (Inl OrderNotFound, db)
      | Some o' \<Rightarrow>
      if co_status o' \<in> {ST_DRAFT, ST_QUEUED, ST_CANCELLED} \<and> \<not> on_isPostedIn1c (co_onec o') \<and>
         u_or_empty (on_number1c (co_onec o')) = [] \<and> co_sentTo1cAt o' = None
      then (Inr guid, db\<lparr>ob_orders := filter (\<lambda>r. co_id r \<noteq> co_id o') (ob_orders db),
                         ob_events := filter (\<lambda>e. ev_orderId e \<noteq> co_id o') (ob_events db)\<rparr>)
      else (Inl OrderConflict, db))"

definition restoreClientOrder :: "millis \<Rightarrow> string \<Rightarrow> user_id \<Rightarrow> int \<Rightarrow> order_db \<Rightarrow> (order_error + string) \<times> order_db" where
  "restoreClientOrder now guid userId revision db =
     (case find_own guid userId db of
        None \<Rightarrow> (Inl OrderNotFound, db)
      | Some o' \<Rightarrow>
      if co_status o' \<noteq> ST_CANCELLED then (Inl OrderConflict, db)
      else if on_isPostedIn1c (co_onec o') \<or> u_or_empty (on_number1c (co_onec o')) \<noteq> [] \<or> co_sentTo1cAt o' \<noteq> None
      then (Inl OrderConflict, db)
      else case assertRevision (co_revision o') revision of Some e \<Rightarrow> (Inl e, db) | None \<Rightarrow>
      (Inr guid,
       appendOrderEvent (co_id o') (co_revision o' + 1) APP_MANAGER ''CLIENT_ORDER_RESTORED'' (Some userId)
         (write_order now (co_id o')
            (\<lambda>r. clear_errors (r\<lparr>co_revision := co_revision o' + 1, co_status := ST_DRAFT, co_syncState := SY_DRAFT,
                   co_queuedAt := None, co_cancelRequestedAt := None, co_cancelReason := None,
                   co_sourceUpdatedAt := Some now\<rparr>)) db)))"

definition cancelClientOrder ::
  "millis \<Rightarrow> string \<Rightarrow> user_id \<Rightarrow> int \<Rightarrow> utext option \<Rightarrow> order_db \<Rightarrow> (order_error + string) \<times> order_db" where
  "cancelClientOrder now guid userId revision reason db =
     (case find_own guid userId db of
        None \<Rightarrow> (Inl OrderNotFound, db)
      | Some o' \<Rightarrow>
      if co_status o' = ST_CANCELLED then (Inr guid, db)
      else case assertRevision (co_revision o') revision of Some e \<Rightarrow> (Inl e, db) | None \<Rightarrow>
      if isOrderQueued o' then (Inr guid, unqueueClientOrderInTransaction now o' userId db)
      else case ensureEditable o' of Some e \<Rightarrow> (Inl e, db) | None \<Rightarrow>
      let requiresOnecCancel = (co_status o' \<noteq> ST_DRAFT) in
      (Inr guid,
       appendOrderEvent (co_id o') (co_revision o' + 1) APP_CANCEL_REQUEST ''CLIENT_ORDER_CANCELLED'' (Some userId)
         (write_order now (co_id o')
            (\<lambda>r. r\<lparr>co_revision := co_revision o' + 1, co_status := ST_CANCELLED,
                   co_syncState := (if requiresOnecCancel then SY_CANCEL_REQUESTED else SY_SYNCED),
                   co_cancelRequestedAt := (if requiresOnecCancel then Some now else None),
                   co_cancelReason := reason, co_sourceUpdatedAt := Some now\<rparr>) db)))"

section \<open>Creating and editing\<close>

text \<open>What the database stores of the numbers of a line and of an order.\<close>

definition store_item :: "(nat \<Rightarrow> rat \<Rightarrow> rat) \<Rightarrow> order_item \<Rightarrow> order_item" where
  "store_item col i =
     i\<lparr>it_quantity := col 3 (it_quantity i), it_quantityBase := map_option (col 3) (it_quantityBase i),
       it_basePrice := map_option (col 4) (it_basePrice i), it_price := col 4 (it_price i),
       it_manualPrice := map_option (col 4) (it_manualPrice i), it_cancelledAmount := map_option (col 2) (it_cancelledAmount i),
       it_discountPercent := map_option (col 2) (it_discountPercent i),
       it_appliedDiscountPercent := map_option (col 2) (it_appliedDiscountPercent i),
       it_lineAmount := map_option (col 2) (it_lineAmount i)\<rparr>"

definition store_content :: "(nat \<Rightarrow> rat \<Rightarrow> rat) \<Rightarrow> order_content \<Rightarrow> order_content" where
  "store_content col c =
     c\<lparr>ct_totalAmount := map_option (col 2) (ct_totalAmount c),
       ct_generalDiscountPercent := map_option (col 2) (ct_generalDiscountPercent c),
       ct_generalDiscountAmount := map_option (col 2) (ct_generalDiscountAmount c),
       ct_items := map (store_item col) (ct_items c)\<rparr>"

definition defaultDeliveryDate :: "clock \<Rightarrow> millis \<Rightarrow> millis" where
  "defaultDeliveryDate ck now = ck_startOfDay ck (ck_nextDay ck (ck_startOfDay ck now))"

definition body_content :: "clock \<Rightarrow> millis \<Rightarrow> order_body \<Rightarrow> order_context \<Rightarrow> prepared \<Rightarrow> order_content" where
  "body_content ck now body cx pp =
     \<lparr>ct_organizationId = Some (og_id (cx_organization cx)),
      ct_counterpartyId = pa_id (cx_counterparty cx),
      ct_agreementId = map_option ag_id (cx_agreement cx),
      ct_contractId = nullish (map_option cn_id (cx_contract cx)) (Option.bind (cx_agreement cx) ag_contractId),
      ct_warehouseId = nullish (map_option wh_id (cx_warehouse cx)) (Option.bind (cx_agreement cx) ag_warehouseId),
      ct_deliveryAddressId = map_option ad_id (cx_deliveryAddress cx),
      ct_priceTypeId = map_option py_id (cx_priceType cx),
      ct_comment = bd_comment body,
      ct_deliveryDate = nullish (bd_deliveryDate body) (Some (defaultDeliveryDate ck now)),
      ct_paymentForm = bd_paymentForm body,
      ct_deliveryMethod = bd_deliveryMethod body,
      ct_invoiceRequested = bd_invoiceRequested body,
      ct_currency = Some DEFAULT_ORDER_CURRENCY,
      ct_totalAmount = Some (pp_totalAmount pp),
      ct_generalDiscountPercent = bd_generalDiscountPercent body,
      ct_generalDiscountAmount = Some (pp_generalDiscountAmount pp),
      ct_items = pp_items pp\<rparr>"

text \<open>
  The part of a transaction that writes the references and computes the content.  Deleting a package
  clears the column of the lines that pointed to it.
\<close>

definition detach_package :: "string list \<Rightarrow> client_order \<Rightarrow> client_order" where
  "detach_package gone o' =
     o'\<lparr>co_content := (co_content o')\<lparr>ct_items :=
        map (\<lambda>i. if (case it_packageId i of None \<Rightarrow> False | Some k \<Rightarrow> k \<in> set gone) then i\<lparr>it_packageId := None\<rparr> else i)
          (ct_items (co_content o'))\<rparr>\<rparr>"

definition detach_packages :: "references \<Rightarrow> references \<Rightarrow> client_order list \<Rightarrow> client_order list" where
  "detach_packages before after os =
     map (detach_package (filter (\<lambda>i. i \<notin> set (map pk_id (rf_packages after))) (map pk_id (rf_packages before)))) os"

definition compose_order ::
  "order_env \<Rightarrow> millis \<Rightarrow> order_draw \<Rightarrow> materialization \<Rightarrow> order_body \<Rightarrow> order_db \<Rightarrow>
   order_error + (order_context \<times> order_content \<times> order_db)" where
  "compose_order env now dw lm body db =
     bind_sum (materializeLiveOrderReferences (oe_col env) (oe_clock env) (oe_host env) (oe_gen env) now now lm body (ob_references db)) (\<lambda>rf.
     bind_sum (resolveManagerOrderContext (oe_clock env) now body rf) (\<lambda>cx.
     bind_sum (prepareOrderItems (oe_dec env) (oe_num env) (dr_line dw) now body cx rf) (\<lambda>pp.
     Inr (cx, body_content (oe_clock env) now body cx pp,
          db\<lparr>ob_references := rf, ob_orders := detach_packages (ob_references db) rf (ob_orders db)\<rparr>))))"

definition new_order :: "millis \<Rightarrow> order_draw \<Rightarrow> user_id \<Rightarrow> tracking option \<Rightarrow> order_content \<Rightarrow> client_order" where
  "new_order now dw userId tk content =
     with_tracking tk
     \<lparr>co_id = dr_orderId dw, co_guid = Some (dr_guid dw), co_clientOrderId = None, co_clientRevision = None,
      co_clientPayloadHash = None, co_submitRequestedAt = None, co_source = MANAGER_APP, co_revision = 1,
      co_syncState = SY_DRAFT, co_status = ST_DRAFT, co_createdByUserId = Some userId,
      co_trackingRoutePointId = None, co_trackingSnapshot = None, co_content = content, co_queuedAt = None,
      co_sentTo1cAt = None, co_exportAttempts = 0, co_lastExportError = None, co_cancelRequestedAt = None,
      co_cancelReason = None,
      co_onec = \<lparr>on_number1c = None, on_date1c = None, on_isPostedIn1c = False, on_postedAt1c = None,
                 on_hasRealization = False, on_realizationDetectedAt = None, on_last1cError = None,
                 on_last1cSnapshot = None, on_lastStatusSyncAt = None, on_lastSyncedAt = None\<rparr>,
      co_sourceUpdatedAt = Some now, co_createdAt = now, co_updatedAt = now\<rparr>"

definition insert_order :: "client_order \<Rightarrow> order_db \<Rightarrow> order_db" where
  "insert_order o' db = db\<lparr>ob_orders := ob_orders db @ [o']\<rparr>"

definition createClientOrder ::
  "order_env \<Rightarrow> live_reads \<Rightarrow> millis \<Rightarrow> order_draw \<Rightarrow> user_id \<Rightarrow> order_body \<Rightarrow> order_db \<Rightarrow> (order_error + string) \<times> order_db" where
  "createClientOrder env lr now dw userId body db =
     (case bind_sum (loadLiveOrderMaterialization lr body (ob_references db)) (\<lambda>lm. compose_order env now dw lm body db) of
        Inl e \<Rightarrow> (Inl e, db)
      | Inr (cx, content, db1) \<Rightarrow>
          let o' = new_order now dw userId (resolveActiveTrackingOrderSnapshot now userId db) (store_content (oe_col env) content);
              db2 = appendOrderEvent (co_id o') 1 APP_MANAGER ''CLIENT_ORDER_CREATED'' (Some userId) (insert_order o' db1)
          in (Inr (dr_guid dw), saveInvoicePreference userId (pa_id (cx_counterparty cx)) (bd_invoiceRequested body) db2))"

definition resolveUpdatedOrderQueueState :: "order_status \<Rightarrow> bool \<times> order_status \<times> sync_state" where
  "resolveUpdatedOrderQueueState current =
     (let shouldQueue = (current = ST_SENT_TO_1C \<or> current = ST_QUEUED) in
      (shouldQueue, if shouldQueue then ST_QUEUED else ST_DRAFT, if shouldQueue then SY_QUEUED else SY_DRAFT))"

definition updateClientOrder ::
  "order_env \<Rightarrow> live_reads \<Rightarrow> millis \<Rightarrow> order_draw \<Rightarrow> string \<Rightarrow> user_id \<Rightarrow> int \<Rightarrow> order_body \<Rightarrow> order_db \<Rightarrow>
   (order_error + string) \<times> order_db" where
  "updateClientOrder env lr now dw guid userId revision body db =
     (case loadLiveOrderMaterialization lr body (ob_references db) of
        Inl e \<Rightarrow> (Inl e, db)
      | Inr lm \<Rightarrow>
      case find_own guid userId db of
        None \<Rightarrow> (Inl OrderNotFound, db)
      | Some o' \<Rightarrow>
      case ensureEditable o' of Some e \<Rightarrow> (Inl e, db) | None \<Rightarrow>
      case assertRevision (co_revision o') revision of Some e \<Rightarrow> (Inl e, db) | None \<Rightarrow>
      case compose_order env now dw lm body db of
        Inl e \<Rightarrow> (Inl e, db)
      | Inr (cx, content, db1) \<Rightarrow>
          let (shouldQueue, status, syncState) = resolveUpdatedOrderQueueState (co_status o');
              db2 = write_order now (co_id o')
                (\<lambda>r. clear_errors (with_tracking (resolveActiveTrackingOrderSnapshot now userId db)
                   (r\<lparr>co_revision := co_revision o' + 1, co_status := status, co_syncState := syncState,
                      co_queuedAt := (if shouldQueue then Some now else None),
                      co_exportAttempts := (if shouldQueue then 0 else co_exportAttempts r),
                      co_content := store_content (oe_col env) content, co_sourceUpdatedAt := Some now\<rparr>))) db1;
              db3 = (if bd_saveReason body = AUTOSAVE then db2
                     else appendOrderEvent (co_id o') (co_revision o' + 1) APP_MANAGER ''CLIENT_ORDER_UPDATED'' (Some userId) db2)
          in (Inr guid, saveInvoicePreference userId (pa_id (cx_counterparty cx)) (bd_invoiceRequested body) db3))"

section \<open>The idempotent mutation\<close>

datatype intent = SAVE | SUBMIT

definition find_client :: "user_id \<Rightarrow> string \<Rightarrow> order_db \<Rightarrow> client_order option" where
  "find_client userId clientOrderId db =
     List.find (\<lambda>o'. co_createdByUserId o' = Some userId \<and> co_clientOrderId o' = Some clientOrderId) (ob_orders db)"

definition committed_revision :: "client_order \<Rightarrow> int" where
  "committed_revision o' = (case co_clientRevision o' of None \<Rightarrow> 0 | Some n \<Rightarrow> n)"

text \<open>
  The decision on a stored order, made before the references are loaded and again inside the
  transaction: \<open>Some\<close> ends the request without a change.
\<close>

definition put_settled :: "order_env \<Rightarrow> int \<Rightarrow> intent \<Rightarrow> order_body \<Rightarrow> client_order \<Rightarrow> (order_error + string) option" where
  "put_settled env clientRevision it body o' =
     (if clientRevision < committed_revision o' then Some (Inr (or_empty (co_guid o')))
      else if clientRevision = committed_revision o' then
        (if truthy (co_clientPayloadHash o') \<and> co_clientPayloadHash o' \<noteq> Some (oe_hash env body) then Some (Inl OrderConflict)
         else if it = SAVE \<or> isOrderQueued o' \<or> co_submitRequestedAt o' \<noteq> None then Some (Inr (or_empty (co_guid o')))
         else None)
      else None)"

text \<open>\<^verbatim>\<open>SAVE\<close> was stored before, and the same version is now submitted.\<close>

definition put_escalate ::
  "millis \<Rightarrow> user_id \<Rightarrow> client_order \<Rightarrow> order_db \<Rightarrow> (order_error + string) \<times> order_db" where
  "put_escalate now userId o' db =
     (case ensureEditable o' of Some e \<Rightarrow> (Inl e, db) | None \<Rightarrow>
      case assertClientOrderCanBeSubmitted (co_content o') of Some e \<Rightarrow> (Inl e, db) | None \<Rightarrow>
      let db1 = write_order now (co_id o') (submitted now (resolveActiveTrackingOrderSnapshot now userId db)) db;
          db2 = appendOrderEvent (co_id o') (co_revision o' + 1) APP_MANAGER ''CLIENT_ORDER_SUBMITTED'' (Some userId) db1
      in (Inr (or_empty (co_guid o')), saveUserCounterpartyDefaults now userId (or_empty (co_guid o')) db2))"

text \<open>The columns that a mutation writes to a new or to an existing order.\<close>

definition put_columns ::
  "order_env \<Rightarrow> millis \<Rightarrow> int \<Rightarrow> order_body \<Rightarrow> bool \<Rightarrow> millis option \<Rightarrow> tracking option \<Rightarrow> order_content \<Rightarrow> client_order \<Rightarrow> client_order" where
  "put_columns env now clientRevision body shouldQueue requestedAt tk content o' =
     clear_errors
     (o'\<lparr>co_clientRevision := Some clientRevision, co_clientPayloadHash := Some (oe_hash env body),
         co_status := (if shouldQueue then ST_QUEUED else ST_DRAFT),
         co_syncState := (if shouldQueue then SY_QUEUED else SY_DRAFT),
         co_queuedAt := (if shouldQueue then Some now else None),
         co_submitRequestedAt := (if shouldQueue then nullish requestedAt (Some now) else None),
         co_content := store_content (oe_col env) content,
         co_trackingRoutePointId := map_option (\<lambda>t. rp_id (tk_point t)) tk,
         co_trackingSnapshot := nullish tk (co_trackingSnapshot o'),
         co_exportAttempts := (if shouldQueue then 0 else co_exportAttempts o'),
         co_sourceUpdatedAt := Some now\<rparr>)"

text \<open>After the content is known: create the order or replace the stored version.\<close>

definition put_write ::
  "order_env \<Rightarrow> millis \<Rightarrow> order_draw \<Rightarrow> user_id \<Rightarrow> string \<Rightarrow> int \<Rightarrow> intent \<Rightarrow> order_body \<Rightarrow> client_order option \<Rightarrow> bool \<Rightarrow>
   order_content \<Rightarrow> order_db \<Rightarrow> (order_error + string \<times> string \<times> int) \<times> order_db" where
  "put_write env now dw userId clientOrderId clientRevision it body existing shouldQueue content db =
     (let tk = resolveActiveTrackingOrderSnapshot now userId db in
      case existing of
        None \<Rightarrow>
          let o' = put_columns env now clientRevision body shouldQueue None tk content
                ((new_order now dw userId None content)\<lparr>co_clientOrderId := Some clientOrderId\<rparr>)
          in (Inr (co_id o', dr_guid dw, 1),
              appendOrderEvent (co_id o') 1 APP_MANAGER ''CLIENT_ORDER_CREATED'' (Some userId) (insert_order o' db))
      | Some o' \<Rightarrow>
          (case ensureEditable o' of Some e \<Rightarrow> (Inl e, db) | None \<Rightarrow>
           let db1 = write_order now (co_id o')
                 (\<lambda>r. (put_columns env now clientRevision body shouldQueue (co_submitRequestedAt o') tk content r)
                        \<lparr>co_revision := co_revision o' + 1\<rparr>) db
           in (Inr (co_id o', or_empty (co_guid o'), co_revision o' + 1),
               if bd_saveReason body = AUTOSAVE then db1
               else appendOrderEvent (co_id o') (co_revision o' + 1) APP_MANAGER ''CLIENT_ORDER_UPDATED'' (Some userId) db1)))"

definition put_should_queue :: "intent \<Rightarrow> client_order option \<Rightarrow> bool" where
  "put_should_queue it existing \<longleftrightarrow>
     it = SUBMIT \<or>
     (case existing of None \<Rightarrow> False
      | Some o' \<Rightarrow> co_submitRequestedAt o' \<noteq> None \<or> co_status o' = ST_QUEUED \<or> co_status o' = ST_SENT_TO_1C)"

definition put_replace ::
  "order_env \<Rightarrow> materialization \<Rightarrow> millis \<Rightarrow> order_draw \<Rightarrow> user_id \<Rightarrow> string \<Rightarrow> int \<Rightarrow> intent \<Rightarrow> order_body \<Rightarrow> order_db \<Rightarrow>
   (order_error + string) \<times> order_db" where
  "put_replace env lm now dw userId clientOrderId clientRevision it body db =
     (let existing = find_client userId clientOrderId db; shouldQueue = put_should_queue it existing in
      case compose_order env now dw lm body db of
        Inl e \<Rightarrow> (Inl e, db)
      | Inr (cx, content, db1) \<Rightarrow>
      case (if shouldQueue then assertClientOrderCanBeSubmitted content else None) of
        Some e \<Rightarrow> (Inl e, db)
      | None \<Rightarrow>
      case put_write env now dw userId clientOrderId clientRevision it body existing shouldQueue content db1 of
        (Inl e, _) \<Rightarrow> (Inl e, db)
      | (Inr (orderId, guid, revision), db2) \<Rightarrow>
          let db3 = (if it = SUBMIT
                     then saveUserCounterpartyDefaults now userId guid
                            (appendOrderEvent orderId revision APP_MANAGER ''CLIENT_ORDER_SUBMITTED'' (Some userId) db2)
                     else db2)
          in (Inr guid, saveInvoicePreference userId (pa_id (cx_counterparty cx)) (bd_invoiceRequested body) db3))"

definition put_transaction ::
  "order_env \<Rightarrow> materialization \<Rightarrow> millis \<Rightarrow> order_draw \<Rightarrow> user_id \<Rightarrow> string \<Rightarrow> int \<Rightarrow> intent \<Rightarrow> order_body \<Rightarrow> order_db \<Rightarrow>
   (order_error + string) \<times> order_db" where
  "put_transaction env lm now dw userId clientOrderId clientRevision it body db =
     (case find_client userId clientOrderId db of
        None \<Rightarrow> put_replace env lm now dw userId clientOrderId clientRevision it body db
      | Some o' \<Rightarrow>
          (case put_settled env clientRevision it body o' of
             Some answer \<Rightarrow> (answer, db)
           | None \<Rightarrow>
               if clientRevision = committed_revision o' then put_escalate now userId o' db
               else put_replace env lm now dw userId clientOrderId clientRevision it body db))"

definition putClientOrderByClientId ::
  "order_env \<Rightarrow> live_reads \<Rightarrow> millis \<Rightarrow> order_draw \<Rightarrow> user_id \<Rightarrow> string \<Rightarrow> int \<Rightarrow> intent \<Rightarrow> order_body \<Rightarrow> order_db \<Rightarrow>
   (order_error + string) \<times> order_db" where
  "putClientOrderByClientId env lr now dw userId clientOrderId clientRevision it body db =
     (case Option.bind (find_client userId clientOrderId db) (put_settled env clientRevision it body) of
        Some answer \<Rightarrow> (answer, db)
      | None \<Rightarrow>
          (case loadLiveOrderMaterialization lr body (ob_references db) of
             Inl e \<Rightarrow> (Inl e, db)
           | Inr lm \<Rightarrow> put_transaction env lm now dw userId clientOrderId clientRevision it body db))"

section \<open>Copying\<close>

definition buildStoredClientOrderCopyItemData :: "millis \<Rightarrow> string \<Rightarrow> order_item \<Rightarrow> order_item" where
  "buildStoredClientOrderCopyItemData now uuid i =
     (let keeps = (it_isManualPrice i \<and> it_manualPrice i \<noteq> None) in
      \<lparr>it_lineGuid = uuid, it_productId = it_productId i, it_packageId = it_packageId i, it_unitId = it_unitId i,
       it_priceTypeId = (if keeps then None else it_priceTypeId i),
       it_quantity = it_quantity i, it_quantityBase = it_quantityBase i,
       it_basePrice = (if keeps then nullish (it_basePrice i) (it_manualPrice i) else None),
       it_price = (if keeps then it_price i else 0),
       it_isManualPrice = keeps,
       it_manualPrice = (if keeps then it_manualPrice i else None),
       it_priceSource = (if keeps then nullish (it_priceSource i) (Some (latin ''manual'')) else None),
       it_isCancelled = False, it_cancelReasonGuid = None, it_cancelReasonName = None, it_cancelReason = None,
       it_cancelledAmount = None, it_discountPercent = it_discountPercent i,
       it_appliedDiscountPercent = (if keeps then it_appliedDiscountPercent i else None),
       it_lineAmount = (if keeps then it_lineAmount i else Some 0),
       it_comment = it_comment i, it_sourceUpdatedAt = Some now\<rparr>)"

definition copied_content :: "millis \<Rightarrow> order_draw \<Rightarrow> order_content \<Rightarrow> order_content" where
  "copied_content now dw c =
     c\<lparr>ct_currency := nullish (ct_currency c) (Some DEFAULT_ORDER_CURRENCY), ct_totalAmount := Some 0,
       ct_generalDiscountAmount := Some 0,
       ct_items := map (\<lambda>(k, i). buildStoredClientOrderCopyItemData now (dr_line dw k) i) (enumerate 0 (ct_items c))\<rparr>"

definition copyStoredClientOrder ::
  "millis \<Rightarrow> order_draw \<Rightarrow> string \<Rightarrow> user_id \<Rightarrow> order_db \<Rightarrow> string option \<times> order_db" where
  "copyStoredClientOrder now dw guid userId db =
     (case find_own guid userId db of
        None \<Rightarrow> (None, db)
      | Some source \<Rightarrow>
          let c = co_content source;
              o' = new_order now dw userId (resolveActiveTrackingOrderSnapshot now userId db) (copied_content now dw c);
              db1 = appendOrderEvent (co_id o') 1 APP_MANAGER ''CLIENT_ORDER_COPIED'' (Some userId) (insert_order o' db)
          in (Some (dr_guid dw), saveInvoicePreference userId (ct_counterpartyId c) (ct_invoiceRequested c) db1))"

end
