(* ===== verification/Order_Export.thy ===== *)
theory Order_Export
  imports Order_Commands
begin

text \<open>
  The worker that pushes queued orders to 1C
  (\<^verbatim>\<open>src/src/services/clientOrdersExportWorker.ts\<close>) and the payload it sends
  (\<^verbatim>\<open>src/src/modules/onec/onec.orderQueuePayload.ts\<close>).

  What 1C answers to the calls of one push is part of the input (\<open>push_world\<close>).  An order is
  read once, with the rows it refers to (\<open>queued_order\<close>); the marks that a push leaves are written
  to the table as it is by then, so that changes made in between can be stated.
\<close>

section \<open>The queued order\<close>

record queued_order =
  qo_row :: client_order
  qo_organization :: "org_row option"
  qo_counterparty :: "party_row option"
  qo_agreement :: "agreement_row option"
  qo_contract :: "contract_row option"
  qo_warehouse :: "warehouse_row option"
  qo_deliveryAddress :: "address_row option"
  qo_manager :: "staff_row option"
  qo_items :: "(order_item \<times> product_row option) list"

definition by_id :: "('r \<Rightarrow> string) \<Rightarrow> string option \<Rightarrow> 'r list \<Rightarrow> 'r option" where
  "by_id key i rs = Option.bind i (\<lambda>k. List.find (\<lambda>r. key r = k) rs)"

definition queued_select :: "order_db \<Rightarrow> client_order \<Rightarrow> queued_order" where
  "queued_select db o' =
     (let c = co_content o'; rf = ob_references db in
      \<lparr>qo_row = o',
       qo_organization = by_id og_id (ct_organizationId c) (rf_organizations rf),
       qo_counterparty = by_id pa_id (Some (ct_counterpartyId c)) (rf_counterparties rf),
       qo_agreement = by_id ag_id (ct_agreementId c) (rf_agreements rf),
       qo_contract = by_id cn_id (ct_contractId c) (rf_contracts rf),
       qo_warehouse = by_id wh_id (ct_warehouseId c) (rf_warehouses rf),
       qo_deliveryAddress = by_id ad_id (ct_deliveryAddressId c) (rf_addresses rf),
       qo_manager = Option.bind (co_createdByUserId o') (\<lambda>u. List.find (\<lambda>s. sx_userId s = u) (ob_staff db)),
       qo_items = map (\<lambda>i. (i, by_id pr_id (Some (it_productId i)) (rf_products rf))) (ct_items c)\<rparr>)"

section \<open>The payload\<close>

definition ru_cash :: utext where
  "ru_cash = [1085, 1072, 1083, 1080, 1095, 1085, 1072, 1103]"

definition ru_pickup :: utext where
  "ru_pickup = [1089, 1072, 1084, 1086, 1074, 1099, 1074, 1086, 1079]"

definition CASH_COMMENT_MARKER :: utext where
  "CASH_COMMENT_MARKER = [1053, 1040, 1051, 1048, 1063, 1050, 1040]"

definition PICKUP_COMMENT_MARKER :: utext where
  "PICKUP_COMMENT_MARKER = [1057, 1040, 1052, 1054, 1042, 1067, 1042, 1054, 1047]"

definition normalizeEnumValue :: "utext option \<Rightarrow> utext" where
  "normalizeEnumValue v = filter (\<lambda>n. \<not> u_space n) (u_lower (u_trim (u_or_empty v)))"

definition isCashPaymentForm :: "utext option \<Rightarrow> bool" where
  "isCashPaymentForm v \<longleftrightarrow>
     normalizeEnumValue v \<in> set [ru_cash, [1085, 1072, 1083, 1080, 1095, 1082, 1072], [1085, 1072, 1083, 1080, 1095, 1085, 1099, 1077]]"

definition isPickupDeliveryMethod :: "utext option \<Rightarrow> bool" where
  "isPickupDeliveryMethod v \<longleftrightarrow>
     normalizeEnumValue v \<in> set [ru_pickup,
       ru_pickup @ [1089, 1085, 1072, 1096, 1077, 1075, 1086, 1089, 1082, 1083, 1072, 1076, 1072]]"

definition appendCommentMarker :: "utext \<Rightarrow> utext \<Rightarrow> utext" where
  "appendCommentMarker comment marker =
     (if u_includes marker (u_upper comment) then comment
      else if comment \<noteq> [] then comment @ [10] @ marker else marker)"

definition buildOrderCommentForOnec :: "order_content \<Rightarrow> utext option" where
  "buildOrderCommentForOnec c =
     (let c0 = u_trim (u_or_empty (ct_comment c));
          c1 = (if isCashPaymentForm (ct_paymentForm c) then appendCommentMarker c0 CASH_COMMENT_MARKER else c0);
          c2 = (if isPickupDeliveryMethod (ct_deliveryMethod c) then appendCommentMarker c1 PICKUP_COMMENT_MARKER else c1)
      in if c2 = [] then None else Some c2)"

definition compactFullName :: "utext option list \<Rightarrow> utext option" where
  "compactFullName parts =
     (let ps = filter (\<lambda>p. p \<noteq> []) (map (\<lambda>p. u_trim (u_or_empty p)) parts);
          v = u_trim (concat (map (\<lambda>(k, p). (if k = 0 then [] else [32]) @ p) (enumerate 0 ps)))
      in if v = [] then None else Some v)"

record payload_manager =
  pm_userId :: user_id
  pm_guid :: "string option"
  pm_physicalPersonGuid :: "string option"
  pm_name :: "utext option"
  pm_email :: "utext option"

record queue_payload =
  qp_guid :: string
  qp_order :: queued_order
  qp_comment :: "utext option"
  qp_manager :: "payload_manager option"

definition buildQueuedOrderPayload :: "queued_order \<Rightarrow> queue_payload" where
  "buildQueuedOrderPayload q =
     \<lparr>qp_guid = (case co_guid (qo_row q) of None \<Rightarrow> co_id (qo_row q) | Some g \<Rightarrow> g),
      qp_order = q,
      qp_comment = buildOrderCommentForOnec (co_content (qo_row q)),
      qp_manager = map_option (\<lambda>s. \<lparr>pm_userId = sx_userId s, pm_guid = sx_onecUserGuid s,
                     pm_physicalPersonGuid = sx_onecPhysicalPersonGuid s,
                     pm_name = compactFullName [sx_lastName s, sx_firstName s, sx_middleName s], pm_email = sx_email s\<rparr>)
                   (qo_manager q)\<rparr>"

section \<open>Settings\<close>

definition getBatchSize :: "settings \<Rightarrow> int" where
  "getBatchSize env = envInt env ''CLIENT_ORDERS_EXPORT_BATCH_SIZE'' 5 1"

definition getBackoffMs :: "settings \<Rightarrow> int \<Rightarrow> int" where
  "getBackoffMs env attempts =
     (if attempts \<le> 0 then 0
      else let base = envInt env ''CLIENT_ORDERS_EXPORT_BACKOFF_BASE_MS'' 10000 1000;
               mx = envInt env ''CLIENT_ORDERS_EXPORT_BACKOFF_MAX_MS'' 300000 base
           in min mx (base * 2 ^ nat (max 0 (attempts - 1))))"

text \<open>\<^verbatim>\<open>order.sourceUpdatedAt ?? order.updatedAt ?? ...\<close>; the column \<^verbatim>\<open>updatedAt\<close> is never null.\<close>

definition last_attempt_at :: "client_order \<Rightarrow> millis" where
  "last_attempt_at o' = (case co_sourceUpdatedAt o' of None \<Rightarrow> co_updatedAt o' | Some t \<Rightarrow> t)"

definition shouldAttempt :: "settings \<Rightarrow> millis \<Rightarrow> client_order \<Rightarrow> bool" where
  "shouldAttempt env now o' \<longleftrightarrow>
     co_exportAttempts o' \<le> 0 \<or> getBackoffMs env (co_exportAttempts o') \<le> now - last_attempt_at o'"

section \<open>Checks before a push\<close>

definition isCancelExportOrder :: "client_order \<Rightarrow> bool" where
  "isCancelExportOrder o' \<longleftrightarrow> co_status o' = ST_CANCELLED \<or> co_syncState o' = SY_CANCEL_REQUESTED"

definition no_guid :: "('r \<Rightarrow> string) \<Rightarrow> 'r option \<Rightarrow> bool" where
  "no_guid key v = (case v of None \<Rightarrow> True | Some r \<Rightarrow> key r = [])"

definition active_items :: "queued_order \<Rightarrow> (order_item \<times> product_row option) list" where
  "active_items q = filter (\<lambda>(i, _). \<not> it_isCancelled i) (qo_items q)"

definition line_defects :: "order_item \<times> product_row option \<Rightarrow> string list" where
  "line_defects l =
     (if no_guid pr_guid (snd l) then [''product''] else []) @
     (if it_quantity (fst l) \<le> 0 then [''quantity''] else []) @
     (if (case it_basePrice (fst l) of None \<Rightarrow> True | Some p \<Rightarrow> p \<le> 0) then [''price''] else [])"

definition export_defects :: "queued_order \<Rightarrow> string list" where
  "export_defects q =
     (if no_guid og_guid (qo_organization q) then [''organization''] else []) @
     (if no_guid pa_guid (qo_counterparty q) then [''counterparty''] else []) @
     (if no_guid ag_guid (qo_agreement q) then [''agreement''] else []) @
     (if no_guid cn_guid (qo_contract q) then [''contract''] else []) @
     (if no_guid wh_guid (qo_warehouse q) then [''warehouse''] else []) @
     (if no_guid (\<lambda>a. or_empty (ad_guid a)) (qo_deliveryAddress q) then [''delivery-address''] else []) @
     (if ct_deliveryDate (co_content (qo_row q)) = None then [''delivery-date''] else []) @
     (if active_items q = [] then [''items''] else []) @
     concat (map line_defects (active_items q))"

definition validateOrderReadyForExport :: "queued_order \<Rightarrow> export_error + unit" where
  "validateOrderReadyForExport q =
     (if isCancelExportOrder (qo_row q) then Inr ()
      else if export_defects q \<noteq> [] then Inl (NotReady (export_defects q)) else Inr ())"

text \<open>\<^verbatim>\<open>numberOrZero(quantityBase) || numberOrZero(quantity)\<close>\<close>

definition line_required :: "order_item \<Rightarrow> rat" where
  "line_required i =
     (let b = (case it_quantityBase i of None \<Rightarrow> 0 | Some x \<Rightarrow> x) in if b = 0 then it_quantity i else b)"

definition stocked_items :: "queued_order \<Rightarrow> (order_item \<times> product_row) list" where
  "stocked_items q =
     List.map_filter (\<lambda>(i, p). case p of None \<Rightarrow> None | Some r \<Rightarrow> if it_isCancelled i \<or> pr_guid r = [] then None else Some (i, r)) (qo_items q)"

definition required_of :: "(order_item \<times> product_row) list \<Rightarrow> string \<Rightarrow> rat" where
  "required_of ls g = sum_list (map (\<lambda>(i, p). line_required i) (filter (\<lambda>(i, p). pr_guid p = g) ls))"

text \<open>The last of the live products with a guid counts; the stock of 1C may be unknown.\<close>

definition live_available :: "(string \<times> rat option) list \<Rightarrow> string \<Rightarrow> rat option" where
  "live_available products g =
     Option.bind (List.find (\<lambda>(h, _). js_lower h = js_lower g) (rev products)) snd"

definition stock_deficits :: "(string \<times> rat option) list \<Rightarrow> (order_item \<times> product_row) list \<Rightarrow> (string \<times> rat \<times> rat) list" where
  "stock_deficits products ls =
     List.map_filter (\<lambda>g. case live_available products g of None \<Rightarrow> None
        | Some a \<Rightarrow> if a + 1 / 1000000 < required_of ls g then Some (g, required_of ls g, a) else None)
       (first_by id {} (map (\<lambda>(i, p). pr_guid p) ls))"

definition validateOrderStockBeforeExport ::
  "bool \<Rightarrow> (transport_error + (string \<times> rat option) list) \<Rightarrow> queued_order \<Rightarrow> export_error + unit" where
  "validateOrderStockBeforeExport disabled products q =
     (if isCancelExportOrder (qo_row q) \<or> disabled \<or> no_guid wh_guid (qo_warehouse q) \<or> stocked_items q = [] then Inr ()
      else case products of
        Inl e \<Rightarrow> Inl (Transport e)
      | Inr ps \<Rightarrow>
          if stock_deficits ps (stocked_items q) \<noteq> [] then Inl (ShortOfStock (stock_deficits ps (stocked_items q))) else Inr ())"

section \<open>The answer of 1C\<close>

text \<open>
  Property access on a record of JSON: the last entry of a name counts, a missing one is
  \<^verbatim>\<open>undefined\<close> (\<open>None\<close>).  \<open>date\<close> parses a text as \<^verbatim>\<open>new Date\<close> does.
\<close>

type_synonym jrecord = "(utext \<times> json) list"

definition asRecord :: "json option \<Rightarrow> jrecord option" where
  "asRecord v = (case v of Some (JObj m) \<Rightarrow> Some m | _ \<Rightarrow> None)"

definition jget :: "utext \<Rightarrow> jrecord option \<Rightarrow> json option" where
  "jget k m = Option.bind m (\<lambda>r. map_of (rev r) k)"

fun readString :: "jrecord option \<Rightarrow> utext list \<Rightarrow> utext option" where
  "readString m [] = None"
| "readString m (k # ks) =
     (case jget k m of Some (JStr s) \<Rightarrow> if u_trim s \<noteq> [] then Some (u_trim s) else readString m ks | _ \<Rightarrow> readString m ks)"

definition readDate :: "(utext \<Rightarrow> millis option) \<Rightarrow> jrecord option \<Rightarrow> utext list \<Rightarrow> millis option" where
  "readDate date m ks = Option.bind (readString m ks) date"

definition true_words :: "utext list" where
  "true_words = [latin ''true'', latin ''1'', latin ''yes'', latin ''y'', [1076, 1072], [1080, 1089, 1090, 1080, 1085, 1072]]"

definition false_words :: "utext list" where
  "false_words = [latin ''false'', latin ''0'', latin ''no'', latin ''n'', [1085, 1077, 1090], [1083, 1086, 1078, 1100]]"

fun readBoolean :: "jrecord option \<Rightarrow> utext list \<Rightarrow> bool option" where
  "readBoolean m [] = None"
| "readBoolean m (k # ks) =
     (case jget k m of
        Some (JBool b) \<Rightarrow> Some b
      | Some (JStr s) \<Rightarrow>
          if u_lower (u_trim s) \<in> set true_words then Some True
          else if u_lower (u_trim s) \<in> set false_words then Some False else readBoolean m ks
      | _ \<Rightarrow> readBoolean m ks)"

record saved_order =
  sv_number1c :: "utext option"
  sv_date1c :: "millis option"
  sv_isPostedIn1c :: "bool option"
  sv_postedAt1c :: "millis option"
  sv_last1cError :: "utext option"
  sv_lastExportError :: "utext option"

definition answer_item :: "json \<Rightarrow> jrecord option" where
  "answer_item j = (let root = asRecord (Some j) in nullish (asRecord (jget (latin ''item'') root)) root)"

definition extractSavedOrder :: "(utext \<Rightarrow> millis option) \<Rightarrow> json \<Rightarrow> saved_order" where
  "extractSavedOrder date j =
     (let item = answer_item j in
      \<lparr>sv_number1c = readString item [latin ''number1c'', latin ''number'', [1053, 1086, 1084, 1077, 1088]],
       sv_date1c = readDate date item [latin ''date1c'', latin ''date'', [1044, 1072, 1090, 1072]],
       sv_isPostedIn1c = readBoolean item [latin ''isPostedIn1c'', latin ''isPosted'', latin ''posted'',
                           [1055, 1088, 1086, 1074, 1077, 1076, 1077, 1085]],
       sv_postedAt1c = readDate date item [latin ''postedAt1c'', latin ''postedAt''],
       sv_last1cError = readString item [latin ''last1cError'', latin ''lastError''],
       sv_lastExportError = readString item [latin ''lastExportError'']\<rparr>)"

definition as_array :: "json option \<Rightarrow> json list option" where
  "as_array v = (case v of Some (JArr xs) \<Rightarrow> Some xs | _ \<Rightarrow> None)"

definition extractSavedOrderItems :: "json \<Rightarrow> json list option" where
  "extractSavedOrderItems j =
     (let root = asRecord (Some j);
          data = asRecord (jget (latin ''data'') root);
          order = nullish (asRecord (jget (latin ''order'') data)) (asRecord (jget (latin ''order'') root));
          items = (\<lambda>m. as_array (jget (latin ''items'') m))
      in nullish (items (answer_item j)) (nullish (items data) (items order)))"

definition assertSavedOrderDidNotLoseItems :: "queued_order \<Rightarrow> json \<Rightarrow> export_error option" where
  "assertSavedOrderDidNotLoseItems q j =
     (if 0 < length (qo_items q) \<and> extractSavedOrderItems j = Some [] then Some (LostItems (length (qo_items q))) else None)"

section \<open>Marks on the order\<close>

text \<open>The order is still in the state in which the worker read it: queued, or waiting to be cancelled.\<close>

definition still_exporting :: "client_order \<Rightarrow> client_order \<Rightarrow> bool" where
  "still_exporting seen r \<longleftrightarrow>
     co_id r = co_id seen \<and>
     (if isCancelExportOrder seen then co_status r = ST_CANCELLED \<and> co_syncState r = SY_CANCEL_REQUESTED
      else co_status r = ST_QUEUED \<and> co_syncState r = SY_QUEUED)"

definition posting_error :: "bool \<Rightarrow> saved_order \<Rightarrow> order_note option" where
  "posting_error cancel saved =
     (if \<not> cancel \<and> sv_isPostedIn1c saved \<noteq> Some True
      then Some (case nullish (sv_last1cError saved) (sv_lastExportError saved) of None \<Rightarrow> NotPosted | Some s \<Rightarrow> Says s)
      else None)"

definition exported :: "millis \<Rightarrow> bool \<Rightarrow> saved_order \<Rightarrow> json \<Rightarrow> int \<Rightarrow> client_order \<Rightarrow> client_order" where
  "exported now cancel saved j revision r =
     r\<lparr>co_revision := revision + 1,
       co_status := (if cancel then ST_CANCELLED else ST_SENT_TO_1C),
       co_syncState := SY_SYNCED,
       co_sentTo1cAt := Some now,
       co_cancelRequestedAt := (if cancel then None else co_cancelRequestedAt r),
       co_sourceUpdatedAt := Some now,
       co_lastExportError := None,
       co_exportAttempts := co_exportAttempts r + 1,
       co_onec := (co_onec r)\<lparr>
         on_number1c := nullish (sv_number1c saved) (on_number1c (co_onec r)),
         on_date1c := nullish (sv_date1c saved) (on_date1c (co_onec r)),
         on_lastStatusSyncAt := Some now, on_lastSyncedAt := Some now,
         on_last1cError := posting_error cancel saved,
         on_isPostedIn1c := (if cancel then on_isPostedIn1c (co_onec r) else sv_isPostedIn1c saved = Some True),
         on_postedAt1c := (if cancel then on_postedAt1c (co_onec r)
           else if sv_isPostedIn1c saved = Some True then nullish (sv_postedAt1c saved) (Some now) else None),
         on_last1cSnapshot := (if asRecord (Some j) \<noteq> None then Some (PushAnswer j) else on_last1cSnapshot (co_onec r))\<rparr>\<rparr>"

definition markOrderExportSuccess ::
  "(utext \<Rightarrow> millis option) \<Rightarrow> millis \<Rightarrow> queued_order \<Rightarrow> json \<Rightarrow> order_db \<Rightarrow> export_error option \<times> order_db" where
  "markOrderExportSuccess date now q j db =
     (case assertSavedOrderDidNotLoseItems q j of Some e \<Rightarrow> (Some e, db) | None \<Rightarrow>
      let seen = qo_row q; cancel = isCancelExportOrder seen; saved = extractSavedOrder date j in
      case List.find (still_exporting seen) (ob_orders db) of
        None \<Rightarrow> (None, db)
      | Some current \<Rightarrow>
          (None,
           appendOrderEvent (co_id seen) (co_revision current + 1) ONEC_ACK
             (if cancel then ''ONEC_ORDER_CANCEL_PUSH_OK''
              else if posting_error cancel saved \<noteq> None then ''ONEC_ORDER_PUSH_SAVED_NOT_POSTED'' else ''ONEC_ORDER_PUSH_OK'') None
             (write_order now (co_id seen) (exported now cancel saved j (co_revision current)) db)))"

definition is_validation_error :: "export_error \<Rightarrow> bool" where
  "is_validation_error e = (case e of NotReady _ \<Rightarrow> True | ShortOfStock _ \<Rightarrow> True | _ \<Rightarrow> False)"

definition markOrderExportFailure :: "millis \<Rightarrow> queued_order \<Rightarrow> export_error \<Rightarrow> order_db \<Rightarrow> order_db" where
  "markOrderExportFailure now q e db =
     (let seen = qo_row q in
      case List.find (still_exporting seen) (ob_orders db) of
        None \<Rightarrow> db
      | Some current \<Rightarrow>
          appendOrderEvent (co_id seen) (co_revision current) SYSTEM_EVENT ''ONEC_ORDER_PUSH_ERROR'' None
            (write_order now (co_id seen)
               (\<lambda>r. r\<lparr>co_syncState := (if is_validation_error e then SY_ERROR
                        else if isCancelExportOrder seen then SY_CANCEL_REQUESTED else SY_QUEUED),
                      co_exportAttempts := co_exportAttempts seen + 1,
                      co_lastExportError := Some (Failed e), co_sourceUpdatedAt := Some now,
                      co_onec := (co_onec r)\<lparr>on_last1cError := Some (Failed e)\<rparr>\<rparr>) db))"

section \<open>One push\<close>

record push_world =
  pw_lock :: bool
  pw_stockDisabled :: bool
  pw_products :: "transport_error + (string \<times> rat option) list"
  pw_post :: "transport_error + json"
  pw_put :: "transport_error + json"

definition send_payload :: "push_world \<Rightarrow> transport_error + json" where
  "send_payload w =
     (case pw_post w of
        Inl (OnecHttp s) \<Rightarrow> if s = 404 \<or> s = 405 then pw_put w else Inl (OnecHttp s)
      | r \<Rightarrow> r)"

definition push_checks :: "push_world \<Rightarrow> queued_order \<Rightarrow> export_error + unit" where
  "push_checks w q =
     bind_sum (validateOrderReadyForExport q) (\<lambda>_. validateOrderStockBeforeExport (pw_stockDisabled w) (pw_products w) q)"

text \<open>
  What a push sends, and how it ends: \<open>None\<close> means that the lock of the order was taken.  The
  payload goes out when both checks passed.
\<close>

definition pushed_payload :: "push_world \<Rightarrow> queued_order \<Rightarrow> queue_payload option" where
  "pushed_payload w q = (if pw_lock w \<and> push_checks w q = Inr () then Some (buildQueuedOrderPayload q) else None)"

definition exportOrder ::
  "(utext \<Rightarrow> millis option) \<Rightarrow> millis \<Rightarrow> push_world \<Rightarrow> queued_order \<Rightarrow> order_db \<Rightarrow> export_error option \<times> order_db" where
  "exportOrder date now w q db =
     (if \<not> pw_lock w then (None, db)
      else case push_checks w q of
        Inl e \<Rightarrow> (Some e, db)
      | Inr _ \<Rightarrow>
          (case send_payload w of
             Inl e \<Rightarrow> (Some (Transport e), db)
           | Inr j \<Rightarrow> markOrderExportSuccess date now q j db))"

section \<open>A run of the worker\<close>

definition pauseDirectPush :: "millis \<Rightarrow> int \<Rightarrow> millis \<Rightarrow> millis" where
  "pauseDirectPush now ms pausedUntil = max pausedUntil (now + ms)"

definition pauseDirectPushIfNeeded :: "settings \<Rightarrow> millis \<Rightarrow> export_error \<Rightarrow> millis \<Rightarrow> bool \<times> millis" where
  "pauseDirectPushIfNeeded env now e pausedUntil =
     (case e of
        Transport (OnecHttp s) \<Rightarrow>
          if s = 404 \<or> s = 405
          then (True, pauseDirectPush now (envInt env ''CLIENT_ORDERS_EXPORT_UNSUPPORTED_PAUSE_MS'' 300000 10000) pausedUntil)
          else (False, pausedUntil)
      | Transport OnecConfig \<Rightarrow> (True, pauseDirectPush now (envInt env ''CLIENT_ORDERS_EXPORT_CONFIG_ERROR_PAUSE_MS'' 60000 10000) pausedUntil)
      | _ \<Rightarrow> (False, pausedUntil))"

definition exportable :: "client_order \<Rightarrow> bool" where
  "exportable o' \<longleftrightarrow>
     co_source o' = MANAGER_APP \<and> co_guid o' \<noteq> None \<and>
     (co_status o' = ST_QUEUED \<and> co_syncState o' = SY_QUEUED \<or> co_status o' = ST_CANCELLED \<and> co_syncState o' = SY_CANCEL_REQUESTED)"

text \<open>Ascending order by \<^verbatim>\<open>queuedAt\<close>, nulls last, then by creation.\<close>

definition queue_before :: "client_order \<Rightarrow> client_order \<Rightarrow> bool" where
  "queue_before a b \<longleftrightarrow>
     (case (co_queuedAt a, co_queuedAt b) of
        (Some x, Some y) \<Rightarrow> x < y \<or> x = y \<and> co_createdAt a \<le> co_createdAt b
      | (Some _, None) \<Rightarrow> True | (None, Some _) \<Rightarrow> False
      | (None, None) \<Rightarrow> co_createdAt a \<le> co_createdAt b)"

fun queue_insert :: "client_order \<Rightarrow> client_order list \<Rightarrow> client_order list" where
  "queue_insert a [] = [a]"
| "queue_insert a (b # bs) = (if queue_before a b then a # b # bs else b # queue_insert a bs)"

definition queue_sort :: "client_order list \<Rightarrow> client_order list" where
  "queue_sort os = foldr queue_insert os []"

definition loadExportCandidates :: "settings \<Rightarrow> millis \<Rightarrow> order_db \<Rightarrow> queued_order list" where
  "loadExportCandidates env now db =
     map (queued_select db)
       (take (nat (getBatchSize env))
          (filter (shouldAttempt env now)
             (take (nat (max (getBatchSize env * 3) (getBatchSize env))) (queue_sort (filter exportable (ob_orders db))))))"

fun export_all ::
  "settings \<Rightarrow> (utext \<Rightarrow> millis option) \<Rightarrow> millis \<Rightarrow> (string \<Rightarrow> push_world) \<Rightarrow> queued_order list \<Rightarrow> millis \<times> order_db \<Rightarrow> millis \<times> order_db" where
  "export_all env date now worlds [] s = s"
| "export_all env date now worlds (q # qs) (pausedUntil, db) =
     (case exportOrder date now (worlds (co_id (qo_row q))) q db of
        (None, db1) \<Rightarrow> export_all env date now worlds qs (pausedUntil, db1)
      | (Some e, db1) \<Rightarrow>
          let db2 = markOrderExportFailure now q e db1; (stop, paused) = pauseDirectPushIfNeeded env now e pausedUntil
          in if stop then (paused, db2) else export_all env date now worlds qs (paused, db2))"

text \<open>\<^verbatim>\<open>runOnce\<close> once the lock of the worker was obtained.\<close>

definition export_run ::
  "settings \<Rightarrow> (utext \<Rightarrow> millis option) \<Rightarrow> millis \<Rightarrow> (string \<Rightarrow> push_world) \<Rightarrow> millis \<times> order_db \<Rightarrow> millis \<times> order_db" where
  "export_run env date now worlds s =
     (if now < fst s then s else export_all env date now worlds (loadExportCandidates env now (snd s)) s)"

end
