(* ===== verification/Order_Exchange.thy ===== *)
theory Order_Exchange
  imports Order_Export
begin

text \<open>
  The pull channel and the reports of 1C about orders, from
  \<^verbatim>\<open>src/src/modules/onec/onec.controllers.ts\<close>: the queue 1C reads, the acknowledgement of
  an order, the batch of statuses and the batch of snapshots; and
  \<^verbatim>\<open>reconcilePostedLiveOrdersInBackground\<close> of \<^verbatim>\<open>clientOrders.service.ts\<close>.  The journal
  of synchronisation runs is not modelled.
\<close>

section \<open>Locks of orders\<close>

text \<open>The Redis keys of the orders that are being pushed; \<open>reachable\<close> says that Redis answers.\<close>

type_synonym order_locks = "string \<Rightarrow> (string \<times> millis) option"

definition order_lock_ttl :: "settings \<Rightarrow> int" where
  "order_lock_ttl env = envInt env ''CLIENT_ORDERS_EXPORT_ORDER_LOCK_TTL_MS'' 60000 5000"

definition lock_value :: "millis \<Rightarrow> string \<Rightarrow> order_locks \<Rightarrow> string option" where
  "lock_value now guid ls = (case ls guid of None \<Rightarrow> None | Some (v, t) \<Rightarrow> if now < t then Some v else None)"

definition acquireOrderLock :: "settings \<Rightarrow> bool \<Rightarrow> millis \<Rightarrow> string \<Rightarrow> string \<Rightarrow> order_locks \<Rightarrow> bool \<times> order_locks" where
  "acquireOrderLock env reachable now guid lockId ls =
     (if \<not> reachable then (True, ls)
      else if lock_value now guid ls = None then (True, ls(guid \<mapsto> (lockId, now + order_lock_ttl env)))
      else (False, ls))"

definition releaseOrderLock :: "millis \<Rightarrow> string \<Rightarrow> string \<Rightarrow> order_locks \<Rightarrow> order_locks" where
  "releaseOrderLock now guid lockId ls = (if lock_value now guid ls = Some lockId then ls(guid := None) else ls)"

definition export_key :: "client_order \<Rightarrow> string" where
  "export_key o' = (case co_guid o' of None \<Rightarrow> co_id o' | Some g \<Rightarrow> g)"

definition filterDirectPushLockedOrders :: "bool \<Rightarrow> millis \<Rightarrow> order_locks \<Rightarrow> client_order list \<Rightarrow> client_order list" where
  "filterDirectPushLockedOrders reachable now ls os =
     (if reachable then filter (\<lambda>o'. lock_value now (export_key o') ls = None) os else os)"

section \<open>The queue\<close>

definition queue_limit :: "rat option \<Rightarrow> int" where
  "queue_limit requested = (case requested of None \<Rightarrow> 50 | Some r \<Rightarrow> min (max (js_trunc r) 1) 200)"

definition handleOrdersQueued ::
  "bool \<Rightarrow> millis \<Rightarrow> order_locks \<Rightarrow> bool \<Rightarrow> rat option \<Rightarrow> order_db \<Rightarrow> queue_payload list" where
  "handleOrdersQueued reachable now ls includeSent limit db =
     (let statuses = (if includeSent then {ST_QUEUED, ST_SENT_TO_1C, ST_CANCELLED} else {ST_QUEUED, ST_CANCELLED});
          states = (if includeSent then {SY_QUEUED, SY_CANCEL_REQUESTED, SY_SYNCED} else {SY_QUEUED, SY_CANCEL_REQUESTED});
          found = take (nat (queue_limit limit))
            (queue_sort (filter (\<lambda>o'. co_status o' \<in> statuses \<and> co_syncState o' \<in> states) (ob_orders db)))
      in map (\<lambda>o'. buildQueuedOrderPayload (queued_select db o')) (filterDirectPushLockedOrders reachable now ls found))"

section \<open>Acknowledgements\<close>

record ack_body =
  ak_error :: utext
  ak_cancelled :: "bool option"
  ak_number1c :: "utext option"
  ak_date1c :: "millis option"
  ak_sentTo1cAt :: "millis option"
  ak_sourceUpdatedAt :: "millis option"
  ak_isPostedIn1c :: "bool option"
  ak_postedAt1c :: "millis option"
  ak_last1cError :: "utext option"

text \<open>The acknowledged status, if given, is \<^verbatim>\<open>SENT_TO_1C\<close> or \<^verbatim>\<open>CANCELLED\<close> (\<open>ak_cancelled\<close>).\<close>

definition ack_status :: "ack_body \<Rightarrow> order_status" where
  "ack_status b = (if ak_cancelled b = Some True then ST_CANCELLED else ST_SENT_TO_1C)"

definition ack_failed :: "millis \<Rightarrow> ack_body \<Rightarrow> client_order \<Rightarrow> client_order" where
  "ack_failed now b r =
     r\<lparr>co_revision := co_revision r + 1, co_status := ST_QUEUED, co_syncState := SY_ERROR,
       co_exportAttempts := co_exportAttempts r + 1, co_lastExportError := Some (Says (ak_error b)), co_sentTo1cAt := None,
       co_sourceUpdatedAt := nullish (ak_sourceUpdatedAt b) (Some now),
       co_onec := (co_onec r)\<lparr>on_last1cError := Some (Says (ak_error b)), on_lastSyncedAt := Some now\<rparr>\<rparr>"

definition ack_posting_error :: "ack_body \<Rightarrow> order_note option" where
  "ack_posting_error b =
     (if ak_isPostedIn1c b = Some False
      then Some (let s = u_trim (u_or_empty (ak_last1cError b)) in if s = [] then NotPosted else Says s) else None)"

definition ack_saved :: "millis \<Rightarrow> ack_body \<Rightarrow> client_order \<Rightarrow> client_order" where
  "ack_saved now b r =
     r\<lparr>co_revision := co_revision r + 1, co_status := ack_status b, co_syncState := SY_SYNCED,
       co_sentTo1cAt := nullish (ak_sentTo1cAt b) (Some now), co_exportAttempts := co_exportAttempts r + 1,
       co_lastExportError := None, co_sourceUpdatedAt := nullish (ak_sourceUpdatedAt b) (Some now),
       co_onec := (co_onec r)\<lparr>
         on_number1c := nullish (ak_number1c b) (on_number1c (co_onec r)),
         on_date1c := nullish (ak_date1c b) (on_date1c (co_onec r)),
         on_lastStatusSyncAt := Some now, on_lastSyncedAt := Some now, on_last1cError := ack_posting_error b,
         on_isPostedIn1c := (case ak_isPostedIn1c b of None \<Rightarrow> on_isPostedIn1c (co_onec r) | Some p \<Rightarrow> p),
         on_postedAt1c := (case ak_isPostedIn1c b of
             Some True \<Rightarrow> nullish (ak_postedAt1c b) (Some now) | Some False \<Rightarrow> None | None \<Rightarrow> on_postedAt1c (co_onec r))\<rparr>\<rparr>"

definition find_guid :: "string \<Rightarrow> order_db \<Rightarrow> client_order option" where
  "find_guid guid db = List.find (\<lambda>o'. co_guid o' = Some guid) (ob_orders db)"

definition handleOrderAck :: "millis \<Rightarrow> string \<Rightarrow> ack_body \<Rightarrow> order_db \<Rightarrow> (order_error + unit) \<times> order_db" where
  "handleOrderAck now guid b db =
     (if guid = [] then (Inl (OrderInvalid ''guid''), db)
      else case find_guid guid db of
        None \<Rightarrow> (Inl OrderNotFound, db)
      | Some o' \<Rightarrow>
          if ak_error b \<noteq> []
          then (Inr (), appendOrderEvent (co_id o') (co_revision o' + 1) ONEC_ACK ''ONEC_ORDER_ACK_ERROR'' None
                  (write_order now (co_id o') (ack_failed now b) db))
          else (Inr (), appendOrderEvent (co_id o') (co_revision o' + 1) ONEC_ACK
                  (if ack_posting_error b \<noteq> None then ''ONEC_ORDER_ACK_SAVED_NOT_POSTED'' else ''ONEC_ORDER_ACK_OK'') None
                  (write_order now (co_id o') (ack_saved now b) db)))"

section \<open>Statuses\<close>

record status_item =
  si_guid :: string
  si_status :: order_status
  si_number1c :: "utext option"
  si_date1c :: "millis option"
  si_comment :: "utext option option"
  si_totalAmount :: "rat option"
  si_currency :: "utext option"
  si_sourceUpdatedAt :: "millis option"

definition status_applied :: "(nat \<Rightarrow> rat \<Rightarrow> rat) \<Rightarrow> millis \<Rightarrow> status_item \<Rightarrow> client_order \<Rightarrow> client_order" where
  "status_applied col now s r =
     (let confirmed = (si_status s = ST_CONFIRMED) in
      r\<lparr>co_revision := co_revision r + 1, co_status := si_status s, co_syncState := SY_SYNCED,
        co_sourceUpdatedAt := nullish (si_sourceUpdatedAt s) (Some now),
        co_content := (co_content r)\<lparr>
          ct_comment := (case si_comment s of None \<Rightarrow> ct_comment (co_content r) | Some c \<Rightarrow> c),
          ct_totalAmount := (case si_totalAmount s of None \<Rightarrow> ct_totalAmount (co_content r) | Some a \<Rightarrow> Some (col 2 a)),
          ct_currency := nullish (si_currency s) (ct_currency (co_content r))\<rparr>,
        co_onec := (co_onec r)\<lparr>
          on_number1c := nullish (si_number1c s) (on_number1c (co_onec r)),
          on_date1c := nullish (si_date1c s) (on_date1c (co_onec r)),
          on_isPostedIn1c := (confirmed \<or> on_isPostedIn1c (co_onec r)),
          on_postedAt1c := (if confirmed then Some now else on_postedAt1c (co_onec r)),
          on_lastStatusSyncAt := Some now, on_lastSyncedAt := Some now\<rparr>\<rparr>)"

definition apply_status :: "(nat \<Rightarrow> rat \<Rightarrow> rat) \<Rightarrow> millis \<Rightarrow> status_item \<Rightarrow> order_db \<Rightarrow> order_db" where
  "apply_status col now s db =
     (case find_guid (si_guid s) db of
        None \<Rightarrow> db
      | Some o' \<Rightarrow>
          appendOrderEvent (co_id o') (co_revision o' + 1) (if si_status s = ST_CONFIRMED then ONEC_POST else ONEC_EDIT)
            ''ONEC_ORDER_STATUS_SYNC'' None
            (write_order now (co_id o') (status_applied col now s) db))"

definition handleOrdersStatusBatch :: "(nat \<Rightarrow> rat \<Rightarrow> rat) \<Rightarrow> millis \<Rightarrow> status_item list \<Rightarrow> order_db \<Rightarrow> order_db" where
  "handleOrdersStatusBatch col now items db = fold (apply_status col now) items db"

section \<open>Snapshots\<close>

record snapshot_line =
  sl_lineGuid :: "string option"
  sl_appLineGuid :: "string option"
  sl_productGuid :: string
  sl_packageGuid :: "string option"
  sl_unitGuid :: "string option"
  sl_priceTypeGuid :: "string option"
  sl_quantity :: rat
  sl_quantityBase :: "rat option"
  sl_basePrice :: "rat option"
  sl_price :: "rat option"
  sl_isManualPrice :: "bool option"
  sl_manualPrice :: "rat option"
  sl_priceSource :: "utext option"
  sl_discountPercent :: "rat option"
  sl_appliedDiscountPercent :: "rat option"
  sl_lineAmount :: "rat option"
  sl_comment :: "utext option"
  sl_isCancelled :: "bool option"
  sl_cancelReasonGuid :: "string option"
  sl_cancelReasonName :: "utext option"
  sl_cancelReason :: "utext option"
  sl_cancelledAmount :: "rat option"

record order_snapshot =
  os_guid :: string
  os_number :: nat
  os_baseRevision :: int
  os_revision :: "int option"
  os_status :: order_status
  os_syncState :: "sync_state option"
  os_number1c :: "utext option"
  os_date1c :: "millis option"
  os_isPostedIn1c :: "bool option"
  os_postedAt1c :: "millis option"
  os_hasRealization :: "bool option"
  os_organization :: "(string \<times> utext \<times> utext option) option"
  os_comment :: "utext option"
  os_deliveryDate :: "millis option"
  os_paymentForm :: "utext option"
  os_deliveryMethod :: "utext option"
  os_currency :: "utext option"
  os_totalAmount :: "rat option"
  os_generalDiscountPercent :: "rat option"
  os_generalDiscountAmount :: "rat option"
  os_cancelReason :: "utext option"
  os_last1cError :: "utext option"
  os_sourceUpdatedAt :: "millis option"
  os_lines :: "snapshot_line list"

definition upsertSnapshotOrganization ::
  "(nat \<Rightarrow> string) \<Rightarrow> millis \<Rightarrow> (string \<times> utext \<times> utext option) option \<Rightarrow> references \<Rightarrow> string option \<times> references" where
  "upsertSnapshotOrganization gen now organization rf =
     (case organization of
        None \<Rightarrow> (None, rf)
      | Some (guid, name, code) \<Rightarrow>
          let (r, rs, n) = upsert_row (\<lambda>r. og_guid r = guid)
                (\<lambda>r. r\<lparr>og_name := name, og_code := nullish code (og_code r), og_isActive := True, og_sourceUpdatedAt := Some now\<rparr>)
                (\<lambda>i. \<lparr>og_id = i, og_guid = guid, og_name = [], og_code = None, og_isActive = True, og_sourceUpdatedAt = None\<rparr>)
                gen (rf_next rf) (rf_organizations rf)
          in (Some (og_id r), rf\<lparr>rf_organizations := rs, rf_next := n\<rparr>))"

text \<open>\<^verbatim>\<open>item.lineGuid?.trim() || item.appLineGuid?.trim() || randomUUID()\<close>\<close>

definition snapshot_line_guid :: "string \<Rightarrow> snapshot_line \<Rightarrow> string" where
  "snapshot_line_guid uuid l =
     (let a = js_trim (or_empty (sl_lineGuid l)); b = js_trim (or_empty (sl_appLineGuid l))
      in if a \<noteq> [] then a else if b \<noteq> [] then b else uuid)"

definition snapshot_item ::
  "(rat \<Rightarrow> rat) \<Rightarrow> millis \<Rightarrow> references \<Rightarrow> string \<Rightarrow> snapshot_line \<Rightarrow> product_row \<Rightarrow> order_item" where
  "snapshot_item dec now rf uuid l product =
     (let found = Option.bind (sl_packageGuid l) (\<lambda>g.
            List.find (\<lambda>k. pk_guid k = Some g \<and> pk_productId k = pr_id product) (rf_packages rf));
          package = (case found of None \<Rightarrow> None | Some k \<Rightarrow> if \<bar>pk_multiplier k - 1\<bar> < 1 / 1000000 then None else Some k);
          unit = Option.bind (sl_unitGuid l) (\<lambda>g. List.find (\<lambda>u. un_guid u = Some g) (rf_units rf));
          quantityBase = (case sl_quantityBase l of Some b \<Rightarrow> b
             | None \<Rightarrow> (case package of Some k \<Rightarrow> dec (sl_quantity l * pk_multiplier k) | None \<Rightarrow> sl_quantity l));
          price = (case nullish (sl_price l) (sl_basePrice l) of None \<Rightarrow> 0 | Some p \<Rightarrow> p);
          lineAmount = (case sl_lineAmount l of Some a \<Rightarrow> a | None \<Rightarrow> dec (quantityBase * price));
          cancelled = (sl_isCancelled l = Some True)
      in \<lparr>it_lineGuid = snapshot_line_guid uuid l, it_productId = pr_id product, it_packageId = map_option pk_id package,
          it_unitId = nullish (map_option un_id unit) (nullish (map_option pk_unitId package) (pr_baseUnitId product)),
          it_priceTypeId = map_option py_id (Option.bind (sl_priceTypeGuid l) (\<lambda>g. List.find (\<lambda>p. py_guid p = g) (rf_priceTypes rf))),
          it_quantity = sl_quantity l, it_quantityBase = Some quantityBase, it_basePrice = sl_basePrice l, it_price = price,
          it_isManualPrice = (sl_isManualPrice l = Some True), it_manualPrice = sl_manualPrice l,
          it_priceSource = sl_priceSource l, it_isCancelled = cancelled, it_cancelReasonGuid = sl_cancelReasonGuid l,
          it_cancelReasonName = sl_cancelReasonName l, it_cancelReason = sl_cancelReason l,
          it_cancelledAmount = nullish (sl_cancelledAmount l) (if cancelled then Some lineAmount else None),
          it_discountPercent = sl_discountPercent l, it_appliedDiscountPercent = sl_appliedDiscountPercent l,
          it_lineAmount = Some lineAmount, it_comment = sl_comment l, it_sourceUpdatedAt = Some now\<rparr>)"

text \<open>
  The second loop of \<^verbatim>\<open>replaceOrderItemsFromSnapshot\<close> writes line after line.  The result says
  whether it reached the end, and holds the lines written, as the database keeps them, and the total.
\<close>

fun write_snapshot_lines ::
  "(nat \<Rightarrow> rat \<Rightarrow> rat) \<Rightarrow> (rat \<Rightarrow> rat) \<Rightarrow> millis \<Rightarrow> references \<Rightarrow> (nat \<Rightarrow> string) \<Rightarrow> nat \<Rightarrow> snapshot_line list \<Rightarrow> order_item list \<times> rat \<Rightarrow>
   (string + rat) \<times> order_item list" where
  "write_snapshot_lines col dec now rf uuid k [] (written, amountSoFar) = (Inr amountSoFar, written)"
| "write_snapshot_lines col dec now rf uuid k (l # ls) (written, amountSoFar) =
     (case List.find (\<lambda>p. pr_guid p = sl_productGuid l) (rf_products rf) of
        None \<Rightarrow> (Inl ''product-not-found'', written)
      | Some product \<Rightarrow>
          let i = snapshot_item dec now rf (uuid k) l product;
              amount = (case it_lineAmount i of None \<Rightarrow> 0 | Some a \<Rightarrow> a)
          in write_snapshot_lines col dec now rf uuid (Suc k) ls
               (written @ [store_item col i], if it_isCancelled i then amountSoFar else dec (amountSoFar + amount)))"

text \<open>\<open>old\<close> are the lines that the order has; a duplicate is found before they are deleted.\<close>

definition replaceOrderItemsFromSnapshot ::
  "(nat \<Rightarrow> rat \<Rightarrow> rat) \<Rightarrow> (rat \<Rightarrow> rat) \<Rightarrow> millis \<Rightarrow> references \<Rightarrow> (nat \<Rightarrow> string) \<Rightarrow> snapshot_line list \<Rightarrow> order_item list \<Rightarrow> (string + rat) \<times> order_item list" where
  "replaceOrderItemsFromSnapshot col dec now rf uuid ls old =
     (if \<not> distinct (map (\<lambda>(k, l). js_lower (snapshot_line_guid (uuid k) l)) (enumerate 0 ls))
      then (Inl ''duplicate-line'', old)
      else write_snapshot_lines col dec now rf uuid 0 ls ([], 0))"

definition isAckAlignedSnapshot :: "order_snapshot \<Rightarrow> client_order \<Rightarrow> bool" where
  "isAckAlignedSnapshot s o' \<longleftrightarrow>
     co_source o' = MANAGER_APP \<and> co_syncState o' = SY_SYNCED \<and>
     co_status o' \<in> {ST_SENT_TO_1C, ST_CONFIRMED, ST_CANCELLED} \<and>
     os_revision s = Some (co_revision o') \<and> os_baseRevision s + 1 = co_revision o'"

datatype snapshot_result = SnapOk | SnapMissing | SnapConflict | SnapEmpty | SnapError string

definition note_snapshot :: "millis \<Rightarrow> order_snapshot \<Rightarrow> sync_state option \<Rightarrow> order_note option \<Rightarrow> client_order \<Rightarrow> client_order" where
  "note_snapshot now s sync err r =
     r\<lparr>co_syncState := (case sync of None \<Rightarrow> co_syncState r | Some x \<Rightarrow> x),
       co_onec := (co_onec r)\<lparr>on_last1cError := nullish err (on_last1cError (co_onec r)),
                    on_last1cSnapshot := Some (SnapshotItem (os_number s)), on_lastSyncedAt := Some now\<rparr>\<rparr>"

definition snapshot_applied ::
  "(nat \<Rightarrow> rat \<Rightarrow> rat) \<Rightarrow> millis \<Rightarrow> order_snapshot \<Rightarrow> string option \<Rightarrow> rat \<Rightarrow> int \<Rightarrow> order_item list \<Rightarrow> client_order \<Rightarrow> client_order" where
  "snapshot_applied col now s organizationId computedTotal nextRevision items r =
     r\<lparr>co_revision := nextRevision, co_status := os_status s,
       co_syncState := (case os_syncState s of None \<Rightarrow> SY_SYNCED | Some x \<Rightarrow> x),
       co_cancelReason := os_cancelReason s,
       co_sourceUpdatedAt := nullish (os_sourceUpdatedAt s) (Some now),
       co_content := (co_content r)\<lparr>
         ct_organizationId := nullish organizationId (ct_organizationId (co_content r)),
         ct_comment := os_comment s, ct_deliveryDate := os_deliveryDate s, ct_paymentForm := os_paymentForm s,
         ct_deliveryMethod := os_deliveryMethod s,
         ct_currency := nullish (os_currency s) (ct_currency (co_content r)),
         ct_totalAmount := Some (col 2 (case os_totalAmount s of None \<Rightarrow> computedTotal | Some t \<Rightarrow> t)),
         ct_generalDiscountPercent := map_option (col 2) (os_generalDiscountPercent s),
         ct_generalDiscountAmount := map_option (col 2) (os_generalDiscountAmount s),
         ct_items := items\<rparr>,
       co_onec := (co_onec r)\<lparr>
         on_number1c := nullish (os_number1c s) (on_number1c (co_onec r)),
         on_date1c := nullish (os_date1c s) (on_date1c (co_onec r)),
         on_isPostedIn1c := (os_isPostedIn1c s = Some True),
         on_postedAt1c := nullish (os_postedAt1c s) (on_postedAt1c (co_onec r)),
         on_hasRealization := (os_hasRealization s = Some True),
         on_realizationDetectedAt := (if os_hasRealization s = Some True then Some now else None),
         on_last1cError := (if os_isPostedIn1c s = Some True then None
            else let m = u_trim (u_or_empty (os_last1cError s)) in if m = [] then None else Some (Says m)),
         on_last1cSnapshot := Some (SnapshotItem (os_number s)),
         on_lastStatusSyncAt := Some now, on_lastSyncedAt := Some now\<rparr>\<rparr>"

definition with_items :: "order_item list \<Rightarrow> client_order \<Rightarrow> client_order" where
  "with_items items r = r\<lparr>co_content := (co_content r)\<lparr>ct_items := items\<rparr>\<rparr>"

text \<open>One item of the batch; \<open>uuid\<close> are the random line guids of this item.\<close>

definition apply_snapshot ::
  "order_env \<Rightarrow> millis \<Rightarrow> (nat \<Rightarrow> string) \<Rightarrow> order_snapshot \<Rightarrow> order_db \<Rightarrow> snapshot_result \<times> order_db" where
  "apply_snapshot env now uuid s db =
     (case find_guid (os_guid s) db of
        None \<Rightarrow> (SnapMissing, db)
      | Some o' \<Rightarrow>
      let event = (\<lambda>rev source kind. appendOrderEvent (co_id o') rev source kind None) in
      if os_baseRevision s \<noteq> co_revision o' \<and> \<not> isAckAlignedSnapshot s o'
      then (SnapConflict, event (co_revision o') ONEC_EDIT ''ONEC_ORDER_SNAPSHOT_CONFLICT''
              (write_order now (co_id o')
                 (note_snapshot now s (Some SY_CONFLICT) (Some (RevisionConflict (co_revision o') (os_baseRevision s)))) db))
      else if co_status o' = ST_QUEUED \<or> co_syncState o' \<in> {SY_QUEUED, SY_ERROR, SY_CONFLICT}
      then (SnapOk, event (co_revision o') ONEC_IMPORT ''ONEC_ORDER_SNAPSHOT_DEFERRED''
              (write_order now (co_id o')
                 (\<lambda>r. (note_snapshot now s None None r)\<lparr>co_onec := (co_onec (note_snapshot now s None None r))\<lparr>on_lastStatusSyncAt := Some now\<rparr>\<rparr>) db))
      else if ct_items (co_content o') \<noteq> [] \<and> os_lines s = []
      then (SnapEmpty, event (co_revision o') ONEC_IMPORT ''ONEC_ORDER_SNAPSHOT_REJECTED_EMPTY_ITEMS''
              (write_order now (co_id o')
                 (note_snapshot now s (Some SY_ERROR) (Some (EmptySnapshot (length (ct_items (co_content o')))))) db))
      else
      let (organizationId, rf) = upsertSnapshotOrganization (oe_gen env) now (os_organization s) (ob_references db);
          db1 = db\<lparr>ob_references := rf\<rparr>
      in case replaceOrderItemsFromSnapshot (oe_col env) (oe_dec env) now rf uuid (os_lines s) (ct_items (co_content o')) of
           (Inl message, items) \<Rightarrow>
             (SnapError message, event (co_revision o') ONEC_IMPORT ''ONEC_ORDER_SNAPSHOT_ERROR''
                (write_order now (co_id o')
                   (\<lambda>r. note_snapshot now s (Some SY_ERROR) (Some (SnapshotFailed message)) (with_items items r)) db1))
         | (Inr computedTotal, items) \<Rightarrow>
             let nextRevision = (case os_revision s of None \<Rightarrow> co_revision o' + 1 | Some n \<Rightarrow> n) in
             (SnapOk, event nextRevision (if os_isPostedIn1c s = Some True then ONEC_POST else ONEC_EDIT) ''ONEC_ORDER_SNAPSHOT_APPLIED''
                (write_order now (co_id o') (snapshot_applied (oe_col env) now s organizationId computedTotal nextRevision items) db1)))"

fun handleOrdersSnapshotBatch ::
  "order_env \<Rightarrow> millis \<Rightarrow> (nat \<Rightarrow> nat \<Rightarrow> string) \<Rightarrow> nat \<Rightarrow> order_snapshot list \<Rightarrow> order_db \<Rightarrow> snapshot_result list \<times> order_db" where
  "handleOrdersSnapshotBatch env now uuid k [] db = ([], db)"
| "handleOrdersSnapshotBatch env now uuid k (s # ss) db =
     (let (r, db1) = apply_snapshot env now (uuid k) s db; (rs, db2) = handleOrdersSnapshotBatch env now uuid (Suc k) ss db1
      in (r # rs, db2))"

section \<open>Posted orders seen in the live list\<close>

text \<open>The orders whose ids were collected from the live list, and that do not yet say that they are posted.\<close>

definition reconcilePostedLiveOrders :: "millis \<Rightarrow> string list \<Rightarrow> order_db \<Rightarrow> order_db" where
  "reconcilePostedLiveOrders now ids db =
     db\<lparr>ob_orders := update_where
          (\<lambda>r. co_id r \<in> set ids \<and> co_source r = MANAGER_APP \<and>
               (\<not> on_isPostedIn1c (co_onec r) \<or> co_status r \<noteq> ST_CONFIRMED \<or> co_syncState r \<noteq> SY_SYNCED \<or>
                on_last1cError (co_onec r) \<noteq> None \<or> co_lastExportError r \<noteq> None))
          (\<lambda>r. r\<lparr>co_status := ST_CONFIRMED, co_syncState := SY_SYNCED, co_lastExportError := None, co_updatedAt := now,
                 co_onec := (co_onec r)\<lparr>on_isPostedIn1c := True, on_last1cError := None,
                              on_lastStatusSyncAt := Some now, on_lastSyncedAt := Some now\<rparr>\<rparr>) (ob_orders db)\<rparr>"

end
