(* ===== verification/Order_Lifecycle.thy ===== *)
theory Order_Lifecycle
  imports Order_Exchange Contracts
begin

text \<open>
  Laws of the table of orders over every operation of \<open>Order_Commands\<close>, \<open>Order_Export\<close> and
  \<open>Order_Exchange\<close>: how a row may change (\<open>order_succ\<close>, \<open>evolves\<close>), that edits based on
  one revision take effect at most once, that late retries of a mutation change nothing, and which pairs
  of states occur.
\<close>

section \<open>How a row changes\<close>

text \<open>
  What becomes of a row: the keys stay, the mutation it holds is not replaced by an earlier one, and
  the revision does not fall, which only a snapshot of 1C can break (\<open>up\<close>).
\<close>

definition order_succ :: "bool \<Rightarrow> client_order \<Rightarrow> client_order \<Rightarrow> bool" where
  "order_succ up a b \<longleftrightarrow>
     co_id b = co_id a \<and> co_guid b = co_guid a \<and> co_source b = co_source a \<and>
     co_createdByUserId b = co_createdByUserId a \<and> co_clientOrderId b = co_clientOrderId a \<and>
     (up \<longrightarrow> co_revision a \<le> co_revision b) \<and> committed_revision a \<le> committed_revision b \<and>
     (committed_revision a = committed_revision b \<longrightarrow> co_clientPayloadHash b = co_clientPayloadHash a)"

lemma order_succ_refl [simp]: "order_succ up a a"
  by (simp add: order_succ_def)

lemma order_succ_up: "order_succ True a b \<Longrightarrow> order_succ up a b"
  by (simp add: order_succ_def)

lemma order_succ_trans: "order_succ up a b \<Longrightarrow> order_succ up b c \<Longrightarrow> order_succ up a c"
  unfolding order_succ_def by auto

definition client_key :: "client_order \<Rightarrow> user_id option \<times> string option" where
  "client_key a = (co_createdByUserId a, co_clientOrderId a)"

lemma succ_keys: "order_succ up a b \<Longrightarrow> co_id b = co_id a \<and> co_guid b = co_guid a \<and> client_key b = client_key a"
  by (simp add: order_succ_def client_key_def)

text \<open>The unique columns of the table.\<close>

definition orders_wf :: "client_order list \<Rightarrow> bool" where
  "orders_wf os \<longleftrightarrow>
     distinct (map co_id os) \<and>
     (\<forall>a \<in> set os. \<forall>b \<in> set os. co_guid a = co_guid b \<and> co_guid a \<noteq> None \<longrightarrow> co_id a = co_id b) \<and>
     (\<forall>a \<in> set os. \<forall>b \<in> set os. client_key a = client_key b \<and> co_clientOrderId a \<noteq> None \<longrightarrow> co_id a = co_id b)"

lemma wf_id: "orders_wf os \<Longrightarrow> a \<in> set os \<Longrightarrow> b \<in> set os \<Longrightarrow> co_id a = co_id b \<Longrightarrow> a = b"
  unfolding orders_wf_def using distinct_key_eq by metis

lemma wf_guid: "orders_wf os \<Longrightarrow> a \<in> set os \<Longrightarrow> b \<in> set os \<Longrightarrow> co_guid a = Some g \<Longrightarrow> co_guid b = Some g \<Longrightarrow> a = b"
  using wf_id unfolding orders_wf_def by (metis option.distinct(1))

lemma wf_client:
  "orders_wf os \<Longrightarrow> a \<in> set os \<Longrightarrow> b \<in> set os \<Longrightarrow> client_key a = client_key b \<Longrightarrow> co_clientOrderId a \<noteq> None \<Longrightarrow> a = b"
  using wf_id unfolding orders_wf_def by metis

text \<open>
  One step keeps rows in place, drops some, and appends at most one, which carries the drawn identifiers
  and a client key of its own.
\<close>

definition newcomer :: "order_draw \<Rightarrow> client_order list \<Rightarrow> client_order \<Rightarrow> bool" where
  "newcomer dw os n \<longleftrightarrow>
     co_id n = dr_orderId dw \<and> co_guid n = Some (dr_guid dw) \<and>
     (co_clientOrderId n = None \<or> client_key n \<notin> client_key ` set os)"

definition evolves :: "bool \<Rightarrow> order_draw \<Rightarrow> client_order list \<Rightarrow> client_order list \<Rightarrow> bool" where
  "evolves up dw os os' \<longleftrightarrow>
     (\<exists>f p news. os' = map f (filter p os) @ news \<and> (\<forall>a \<in> set os. order_succ up a (f a)) \<and>
        (news = [] \<or> (\<exists>n. news = [n] \<and> newcomer dw os n)))"

lemma evolvesI:
  assumes "os' = map f (filter p os)" and "\<And>a. a \<in> set os \<Longrightarrow> order_succ up a (f a)"
  shows "evolves up dw os os'"
  unfolding evolves_def using assms by (intro exI [of _ f] exI [of _ p] exI [of _ "[]"]) auto

lemma evolves_refl [simp]: "evolves up dw os os"
  by (rule evolvesI [where f = id and p = "\<lambda>_. True"]) simp_all

lemma evolves_map: "(\<And>a. a \<in> set os \<Longrightarrow> order_succ up a (f a)) \<Longrightarrow> evolves up dw os (map f os)"
  by (rule evolvesI [where f = f and p = "\<lambda>_. True"]) simp_all

lemma evolves_drop: "evolves up dw os (filter p os)"
  by (rule evolvesI [where f = id and p = p]) simp_all

lemma evolves_new: "newcomer dw os n \<Longrightarrow> evolves up dw os (os @ [n])"
  unfolding evolves_def by (intro exI [of _ id] exI [of _ "\<lambda>_. True"] exI [of _ "[n]"]) simp

lemma evolves_update:
  assumes "orders_wf os" and "a \<in> set os" and "order_succ up a (f a)"
  shows "evolves up dw os (update_where (\<lambda>r. co_id r = co_id a) f os)"
  unfolding update_where_def
proof (rule evolves_map)
  fix b assume "b \<in> set os"
  then show "order_succ up b (if co_id b = co_id a then f b else b)"
    using wf_id [OF assms(1) _ assms(2)] assms(3) by auto
qed

lemma evolves_updates:
  assumes "\<And>a. a \<in> set os \<Longrightarrow> p a \<Longrightarrow> order_succ up a (f a)"
  shows "evolves up dw os (update_where p f os)"
  unfolding update_where_def by (rule evolves_map) (use assms in auto)

lemma evolves_after_map:
  assumes "evolves up dw (map g os) os'" and g: "\<And>a. order_succ up a (g a)"
  shows "evolves up dw os os'"
proof -
  from assms(1) obtain f p news where 1: "os' = map f (filter p (map g os)) @ news"
    "\<forall>a \<in> set (map g os). order_succ up a (f a)" "news = [] \<or> (\<exists>n. news = [n] \<and> newcomer dw (map g os) n)"
    unfolding evolves_def by blast
  have "client_key (g a) = client_key a" for a using succ_keys [OF g] by blast
  then have "client_key ` set (map g os) = client_key ` set os" by (simp add: image_image)
  then have "newcomer dw (map g os) n = newcomer dw os n" for n by (simp add: newcomer_def)
  moreover have "os' = map (f \<circ> g) (filter (p \<circ> g) os) @ news" using 1(1) by (simp add: filter_map)
  moreover have "\<forall>a \<in> set os. order_succ up a ((f \<circ> g) a)"
    using 1(2) order_succ_trans [OF g] by simp
  ultimately show ?thesis unfolding evolves_def using 1(3) by metis
qed

lemma evolves_member:
  assumes "evolves up dw os os'" and "b \<in> set os'"
  obtains (old) a where "a \<in> set os" "order_succ up a b" | (new) "newcomer dw os b"
  using assms unfolding evolves_def by auto

lemma evolves_wf:
  assumes ev: "evolves up dw os os'" and wf: "orders_wf os"
    and fresh: "dr_orderId dw \<notin> co_id ` set os" "Some (dr_guid dw) \<notin> co_guid ` set os"
  shows "orders_wf os'"
proof -
  from ev obtain f p news where 1: "os' = map f (filter p os) @ news" "\<forall>a \<in> set os. order_succ up a (f a)"
    "news = [] \<or> (\<exists>n. news = [n] \<and> newcomer dw os n)"
    unfolding evolves_def by blast
  have keys: "co_id (f a) = co_id a" "co_guid (f a) = co_guid a" "client_key (f a) = client_key a" if "a \<in> set os" for a
    using 1(2) succ_keys that by blast+
  have ids: "map co_id (map f (filter p os)) = map co_id (filter p os)" using keys by simp
  have d: "distinct (map co_id (filter p os))" using wf by (simp add: orders_wf_def distinct_map_filter)
  have "distinct (map co_id os')"
    using 1(3)
  proof
    assume "news = []"
    then show ?thesis using 1(1) ids d by (simp only: append_Nil2)
  next
    assume "\<exists>n. news = [n] \<and> newcomer dw os n"
    then obtain n where n: "news = [n]" "newcomer dw os n" by blast
    have "co_id n \<notin> set (map co_id (filter p os))" using n(2) fresh(1) by (auto simp: newcomer_def)
    then show ?thesis using 1(1) n(1) ids d by (simp only: map_append distinct_append) simp
  qed
  moreover have origin: "(\<exists>a \<in> set os. co_id b = co_id a \<and> co_guid b = co_guid a \<and> client_key b = client_key a) \<or> newcomer dw os b \<and> news = [b]"
    if "b \<in> set os'" for b
    using that 1(1,3) keys by fastforce
  have cid: "co_clientOrderId b \<noteq> None \<longleftrightarrow> snd (client_key b) \<noteq> None" for b by (simp add: client_key_def)
  have "co_id b = co_id c" if bc: "b \<in> set os'" "c \<in> set os'" "co_guid b = co_guid c" "co_guid b \<noteq> None" for b c
  proof -
    consider "\<exists>a \<in> set os. co_id b = co_id a \<and> co_guid b = co_guid a" "\<exists>a \<in> set os. co_id c = co_id a \<and> co_guid c = co_guid a"
      | "news = [b]" "news = [c]" | "co_guid b = Some (dr_guid dw)" "\<exists>a \<in> set os. co_guid c = co_guid a"
      | "co_guid c = Some (dr_guid dw)" "\<exists>a \<in> set os. co_guid b = co_guid a"
      using origin [OF bc(1)] origin [OF bc(2)] by (auto simp: newcomer_def)
    then show ?thesis
    proof cases
      case 1
      then show ?thesis using wf bc(3,4) unfolding orders_wf_def by metis
    next
      case 2
      then show ?thesis by simp
    next
      case 3
      then show ?thesis using fresh(2) bc(3) by force
    next
      case 4
      then show ?thesis using fresh(2) bc(3) by force
    qed
  qed
  moreover have "co_id b = co_id c" if bc: "b \<in> set os'" "c \<in> set os'" "client_key b = client_key c" "co_clientOrderId b \<noteq> None" for b c
  proof -
    have nb: "co_clientOrderId c \<noteq> None" using bc(3,4) by (simp add: client_key_def)
    consider "\<exists>a \<in> set os. co_id b = co_id a \<and> client_key b = client_key a" "\<exists>a \<in> set os. co_id c = co_id a \<and> client_key c = client_key a"
      | "news = [b]" "news = [c]" | "client_key b \<notin> client_key ` set os" "\<exists>a \<in> set os. client_key c = client_key a"
      | "client_key c \<notin> client_key ` set os" "\<exists>a \<in> set os. client_key b = client_key a"
      using origin [OF bc(1)] origin [OF bc(2)] bc(4) nb by (auto simp: newcomer_def)
    then show ?thesis
    proof cases
      case 1
      then show ?thesis using wf bc(3,4) unfolding orders_wf_def by (metis client_key_def prod.inject)
    next
      case 2
      then show ?thesis by simp
    next
      case 3
      then show ?thesis using bc(3) by (metis imageI)
    next
      case 4
      then show ?thesis using bc(3) by (metis imageI)
    qed
  qed
  ultimately show ?thesis unfolding orders_wf_def by blast
qed

section \<open>Reads and writes of the table\<close>

named_theorems order_simps \<open>the table of orders after the writes of the handlers\<close>

lemma orders_event [order_simps]: "ob_orders (appendOrderEvent i r s k a db) = ob_orders db"
  by (simp add: appendOrderEvent_def)

lemma orders_preference [order_simps]: "ob_orders (saveInvoicePreference u c b db) = ob_orders db"
  by (simp add: saveInvoicePreference_def Let_def)

lemma orders_remembered [order_simps]: "ob_orders (saveUserCounterpartyDefaults now u g db) = ob_orders db"
  by (simp add: saveUserCounterpartyDefaults_def Let_def split: option.splits)

lemma orders_write [order_simps]:
  "ob_orders (write_order now i f db) = update_where (\<lambda>r. co_id r = i) (\<lambda>r. (f r)\<lparr>co_updatedAt := now\<rparr>) (ob_orders db)"
  by (simp add: write_order_def)

lemma orders_insert [order_simps]: "ob_orders (insert_order n db) = ob_orders db @ [n]"
  by (simp add: insert_order_def)

lemma find_ownD:
  "find_own guid u db = Some a \<Longrightarrow>
   a \<in> set (ob_orders db) \<and> co_guid a = Some guid \<and> co_source a = MANAGER_APP \<and> co_createdByUserId a = Some u"
  unfolding find_own_def by (drule find_SomeD) simp

lemma find_guidD: "find_guid guid db = Some a \<Longrightarrow> a \<in> set (ob_orders db) \<and> co_guid a = Some guid"
  unfolding find_guid_def by (drule find_SomeD) simp

lemma find_clientD:
  "find_client u c db = Some a \<Longrightarrow> a \<in> set (ob_orders db) \<and> co_createdByUserId a = Some u \<and> co_clientOrderId a = Some c"
  unfolding find_client_def by (drule find_SomeD) simp

lemma find_client_None:
  "find_client u c db = None \<Longrightarrow> (Some u, Some c) \<notin> client_key ` set (ob_orders db)"
  unfolding find_client_def by (auto simp: client_key_def find_None_iff)

text \<open>Columns that the building blocks of the handlers leave alone.\<close>

lemma clear_errors_cols [simp]:
  "co_id (clear_errors r) = co_id r" "co_guid (clear_errors r) = co_guid r" "co_source (clear_errors r) = co_source r"
  "co_createdByUserId (clear_errors r) = co_createdByUserId r" "co_clientOrderId (clear_errors r) = co_clientOrderId r"
  "co_revision (clear_errors r) = co_revision r" "co_clientRevision (clear_errors r) = co_clientRevision r"
  "co_clientPayloadHash (clear_errors r) = co_clientPayloadHash r" "co_status (clear_errors r) = co_status r"
  "co_syncState (clear_errors r) = co_syncState r" "co_content (clear_errors r) = co_content r"
  "co_submitRequestedAt (clear_errors r) = co_submitRequestedAt r"
  by (simp_all add: clear_errors_def)

lemma with_tracking_cols [simp]:
  "co_id (with_tracking tk r) = co_id r" "co_guid (with_tracking tk r) = co_guid r" "co_source (with_tracking tk r) = co_source r"
  "co_createdByUserId (with_tracking tk r) = co_createdByUserId r" "co_clientOrderId (with_tracking tk r) = co_clientOrderId r"
  "co_revision (with_tracking tk r) = co_revision r" "co_clientRevision (with_tracking tk r) = co_clientRevision r"
  "co_clientPayloadHash (with_tracking tk r) = co_clientPayloadHash r" "co_status (with_tracking tk r) = co_status r"
  "co_syncState (with_tracking tk r) = co_syncState r" "co_content (with_tracking tk r) = co_content r"
  "co_submitRequestedAt (with_tracking tk r) = co_submitRequestedAt r"
  by (simp_all add: with_tracking_def split: option.splits)

lemma committed_revision_cols:
  "co_clientRevision a = co_clientRevision b \<Longrightarrow> committed_revision a = committed_revision b"
  by (simp add: committed_revision_def)

lemma committed_clear [simp]: "committed_revision (clear_errors r) = committed_revision r"
  and committed_tracking [simp]: "committed_revision (with_tracking tk r) = committed_revision r"
  by (rule committed_revision_cols; simp)+

text \<open>A write that raises the revision and leaves the keys and the client revision alone.\<close>

lemma order_succI:
  assumes "co_id b = co_id a" "co_guid b = co_guid a" "co_source b = co_source a"
    "co_createdByUserId b = co_createdByUserId a" "co_clientOrderId b = co_clientOrderId a"
    "co_revision a \<le> co_revision b" "co_clientRevision b = co_clientRevision a"
    "co_clientPayloadHash b = co_clientPayloadHash a"
  shows "order_succ up a b"
  using assms committed_revision_cols [OF assms(7)] by (simp add: order_succ_def)

lemma detach_cols [simp]:
  "co_id (detach_package gone r) = co_id r" "co_guid (detach_package gone r) = co_guid r"
  "co_source (detach_package gone r) = co_source r" "co_createdByUserId (detach_package gone r) = co_createdByUserId r"
  "co_clientOrderId (detach_package gone r) = co_clientOrderId r" "co_revision (detach_package gone r) = co_revision r"
  "co_clientRevision (detach_package gone r) = co_clientRevision r" "co_status (detach_package gone r) = co_status r"
  "co_clientPayloadHash (detach_package gone r) = co_clientPayloadHash r" "co_syncState (detach_package gone r) = co_syncState r"
  "co_submitRequestedAt (detach_package gone r) = co_submitRequestedAt r" "co_onec (detach_package gone r) = co_onec r"
  by (simp_all add: detach_package_def)

lemma detach_succ: "order_succ up a (detach_package gone a)"
  by (rule order_succI) simp_all

lemma compose_orders:
  assumes "compose_order env now dw lm body db = Inr (cx, content, db1)"
  obtains gone where "ob_orders db1 = map (detach_package gone) (ob_orders db)"
proof -
  obtain rf where "ob_orders db1 = detach_packages (ob_references db) rf (ob_orders db)"
    using assms by (auto simp: compose_order_def bind_sum_def split: sum.splits)
  then show thesis using that unfolding detach_packages_def by blast
qed

section \<open>Edits based on a revision\<close>

datatype edit =
    E_SUBMIT millis user_id | E_UNQUEUE millis user_id | E_RETRY millis user_id | E_RESTORE millis user_id
  | E_CANCEL millis user_id "utext option" | E_UPDATE live_reads millis order_draw user_id order_body

fun edit_run :: "order_env \<Rightarrow> edit \<Rightarrow> string \<Rightarrow> int \<Rightarrow> order_db \<Rightarrow> (order_error + string) \<times> order_db" where
  "edit_run env (E_SUBMIT now u) guid v db = submitClientOrder now guid u v db"
| "edit_run env (E_UNQUEUE now u) guid v db = unqueueClientOrder now guid u v db"
| "edit_run env (E_RETRY now u) guid v db = retryClientOrderExport now guid u v db"
| "edit_run env (E_RESTORE now u) guid v db = restoreClientOrder now guid u v db"
| "edit_run env (E_CANCEL now u reason) guid v db = cancelClientOrder now guid u v reason db"
| "edit_run env (E_UPDATE lr now dw u body) guid v db = updateClientOrder env lr now dw guid u v body db"

text \<open>An edit found the order at revision \<open>v\<close> and left it at \<open>v + 1\<close>.\<close>

definition edited :: "string \<Rightarrow> int \<Rightarrow> client_order list \<Rightarrow> client_order list \<Rightarrow> bool" where
  "edited guid v os os' \<longleftrightarrow>
     (\<exists>a gone f. a \<in> set os \<and> co_guid a = Some guid \<and> co_revision a = v \<and>
        os' = update_where (\<lambda>r. co_id r = co_id a) f (map (detach_package gone) os) \<and>
        order_succ True (detach_package gone a) (f (detach_package gone a)) \<and> co_revision (f (detach_package gone a)) = v + 1)"

lemma detach_none: "detach_package [] a = a"
proof -
  have "map (\<lambda>i. if case it_packageId i of None \<Rightarrow> False | Some k \<Rightarrow> k \<in> set [] then i\<lparr>it_packageId := None\<rparr> else i)
      (ct_items (co_content a)) = ct_items (co_content a)"
    by (rule map_idI) (simp split: option.splits)
  then show ?thesis unfolding detach_package_def by simp
qed

lemma detach_nothing: "map (detach_package []) os = os"
  by (induction os) (simp_all add: detach_none)

lemma editedI:
  assumes "a \<in> set os" "co_guid a = Some guid" "co_revision a = v" "os' = update_where (\<lambda>r. co_id r = co_id a) f os"
    "order_succ True a (f a)" "co_revision (f a) = v + 1"
  shows "edited guid v os os'"
  unfolding edited_def using assms
  by (intro exI [of _ a] exI [of _ "[]"] exI [of _ f]) (simp add: detach_none detach_nothing)

lemmas assert_splits = if_splits option.splits

lemma submit_edited:
  assumes "submitClientOrder now guid u v db = (x, db')"
  shows "db' = db \<or> edited guid v (ob_orders db) (ob_orders db')"
proof (cases "db' = db")
  case False
  then obtain a where a: "find_own guid u db = Some a" "co_revision a = v"
    and db': "ob_orders db' = update_where (\<lambda>r. co_id r = co_id a)
      (\<lambda>r. ((submitted now (resolveActiveTrackingOrderSnapshot now u db) r)\<lparr>co_cancelRequestedAt := None, co_cancelReason := None\<rparr>)
         \<lparr>co_updatedAt := now\<rparr>) (ob_orders db)"
    using assms by (auto simp: submitClientOrder_def Let_def assertRevision_def order_simps split: assert_splits)
  have "edited guid v (ob_orders db) (ob_orders db')"
    by (rule editedI [OF _ _ _ db']) (use find_ownD [OF a(1)] a(2) in \<open>auto simp: submitted_def intro: order_succI\<close>)
  then show ?thesis by simp
qed simp

lemma unqueue_tx_orders:
  "ob_orders (unqueueClientOrderInTransaction now a u db) =
     update_where (\<lambda>r. co_id r = co_id a)
       (\<lambda>r. (clear_errors (r\<lparr>co_revision := co_revision a + 1, co_status := ST_DRAFT, co_syncState := SY_DRAFT,
          co_queuedAt := None, co_submitRequestedAt := None, co_cancelRequestedAt := None, co_cancelReason := None,
          co_sourceUpdatedAt := Some now\<rparr>))\<lparr>co_updatedAt := now\<rparr>) (ob_orders db)"
  by (simp add: unqueueClientOrderInTransaction_def order_simps)

lemma unqueue_tx_edited:
  assumes "find_own guid u db = Some a" and "co_revision a = v"
  shows "edited guid v (ob_orders db) (ob_orders (unqueueClientOrderInTransaction now a u db))"
  by (rule editedI [OF _ _ _ unqueue_tx_orders]) (use find_ownD [OF assms(1)] assms(2) in \<open>auto intro: order_succI\<close>)

lemma unqueue_edited:
  assumes "unqueueClientOrder now guid u v db = (x, db')"
  shows "db' = db \<or> edited guid v (ob_orders db) (ob_orders db')"
  using assms unqueue_tx_edited [of guid u db _ v now]
  by (auto simp: unqueueClientOrder_def assertRevision_def split: assert_splits)

lemma retry_edited:
  assumes "retryClientOrderExport now guid u v db = (x, db')"
  shows "db' = db \<or> edited guid v (ob_orders db) (ob_orders db')"
proof (cases "db' = db")
  case False
  then obtain a where a: "find_own guid u db = Some a" "co_revision a = v"
    and db': "ob_orders db' = update_where (\<lambda>r. co_id r = co_id a)
      (\<lambda>r. (clear_errors (r\<lparr>co_revision := co_revision a + 1, co_status := ST_QUEUED, co_syncState := SY_QUEUED,
          co_queuedAt := Some now, co_sentTo1cAt := None, co_exportAttempts := 0, co_sourceUpdatedAt := Some now\<rparr>))
         \<lparr>co_updatedAt := now\<rparr>) (ob_orders db)"
    using assms by (auto simp: retryClientOrderExport_def assertRevision_def order_simps split: assert_splits)
  have "edited guid v (ob_orders db) (ob_orders db')"
    by (rule editedI [OF _ _ _ db']) (use find_ownD [OF a(1)] a(2) in \<open>auto intro: order_succI\<close>)
  then show ?thesis by simp
qed simp

lemma restore_edited:
  assumes "restoreClientOrder now guid u v db = (x, db')"
  shows "db' = db \<or> edited guid v (ob_orders db) (ob_orders db')"
proof (cases "db' = db")
  case False
  then obtain a where a: "find_own guid u db = Some a" "co_revision a = v"
    and db': "ob_orders db' = update_where (\<lambda>r. co_id r = co_id a)
      (\<lambda>r. (clear_errors (r\<lparr>co_revision := co_revision a + 1, co_status := ST_DRAFT, co_syncState := SY_DRAFT,
          co_queuedAt := None, co_cancelRequestedAt := None, co_cancelReason := None, co_sourceUpdatedAt := Some now\<rparr>))
         \<lparr>co_updatedAt := now\<rparr>) (ob_orders db)"
    using assms by (auto simp: restoreClientOrder_def assertRevision_def order_simps split: assert_splits)
  have "edited guid v (ob_orders db) (ob_orders db')"
    by (rule editedI [OF _ _ _ db']) (use find_ownD [OF a(1)] a(2) in \<open>auto intro: order_succI\<close>)
  then show ?thesis by simp
qed simp

definition cancelled :: "millis \<Rightarrow> utext option \<Rightarrow> client_order \<Rightarrow> client_order \<Rightarrow> client_order" where
  "cancelled now reason a r =
     r\<lparr>co_revision := co_revision a + 1, co_status := ST_CANCELLED,
       co_syncState := (if co_status a \<noteq> ST_DRAFT then SY_CANCEL_REQUESTED else SY_SYNCED),
       co_cancelRequestedAt := (if co_status a \<noteq> ST_DRAFT then Some now else None),
       co_cancelReason := reason, co_sourceUpdatedAt := Some now\<rparr>"

lemma cancel_cases:
  assumes "cancelClientOrder now guid u v reason db = (x, db')"
  obtains "db' = db"
  | a where "find_own guid u db = Some a" "co_revision a = v" "db' = unqueueClientOrderInTransaction now a u db"
  | a where "find_own guid u db = Some a" "co_revision a = v" "\<not> isOrderQueued a"
      "ob_orders db' = update_where (\<lambda>r. co_id r = co_id a) (\<lambda>r. (cancelled now reason a r)\<lparr>co_updatedAt := now\<rparr>) (ob_orders db)"
proof (cases "find_own guid u db")
  case None
  then show thesis using assms that(1) by (simp add: cancelClientOrder_def)
next
  case (Some a)
  show thesis
  proof (cases "co_status a \<noteq> ST_CANCELLED \<and> co_revision a = v")
    case False
    then show thesis using assms that(1) Some by (auto simp: cancelClientOrder_def assertRevision_def split: if_splits)
  next
    case True
    show thesis
    proof (cases "isOrderQueued a")
      case queued: True
      have "db' = unqueueClientOrderInTransaction now a u db"
        using assms Some True queued by (simp add: cancelClientOrder_def assertRevision_def)
      then show thesis using that(2) Some True by blast
    next
      case False
      then show thesis
        using assms that(1) that(3) [OF Some _ False] True Some unfolding cancelled_def
        by (cases "ensureEditable a") (auto simp: cancelClientOrder_def assertRevision_def order_simps Let_def)
    qed
  qed
qed

lemma cancel_edited:
  assumes "cancelClientOrder now guid u v reason db = (x, db')"
  shows "db' = db \<or> edited guid v (ob_orders db) (ob_orders db')"
  using assms
proof (cases rule: cancel_cases)
  case (2 a)
  then show ?thesis using unqueue_tx_edited [OF 2(1,2), of now] by simp
next
  case (3 a)
  have "edited guid v (ob_orders db) (ob_orders db')"
    by (rule editedI [OF _ _ _ 3(4)]) (use find_ownD [OF 3(1)] 3(2) in \<open>auto simp: cancelled_def intro: order_succI\<close>)
  then show ?thesis by simp
qed simp

text \<open>What an update writes to the row.\<close>

definition updated :: "order_env \<Rightarrow> millis \<Rightarrow> tracking option \<Rightarrow> order_content \<Rightarrow> client_order \<Rightarrow> client_order \<Rightarrow> client_order" where
  "updated env now tk content a r =
     (let (shouldQueue, status, syncState) = resolveUpdatedOrderQueueState (co_status a) in
      clear_errors (with_tracking tk
        (r\<lparr>co_revision := co_revision a + 1, co_status := status, co_syncState := syncState,
           co_queuedAt := (if shouldQueue then Some now else None),
           co_exportAttempts := (if shouldQueue then 0 else co_exportAttempts r),
           co_content := store_content (oe_col env) content, co_sourceUpdatedAt := Some now\<rparr>)))"

lemma updated_cols [simp]:
  "co_id (updated env now tk content a r) = co_id r" "co_guid (updated env now tk content a r) = co_guid r"
  "co_source (updated env now tk content a r) = co_source r"
  "co_createdByUserId (updated env now tk content a r) = co_createdByUserId r"
  "co_clientOrderId (updated env now tk content a r) = co_clientOrderId r"
  "co_revision (updated env now tk content a r) = co_revision a + 1"
  "co_clientRevision (updated env now tk content a r) = co_clientRevision r"
  "co_clientPayloadHash (updated env now tk content a r) = co_clientPayloadHash r"
  "co_content (updated env now tk content a r) = store_content (oe_col env) content"
  "co_status (updated env now tk content a r) = (if co_status a \<in> {ST_SENT_TO_1C, ST_QUEUED} then ST_QUEUED else ST_DRAFT)"
  "co_syncState (updated env now tk content a r) = (if co_status a \<in> {ST_SENT_TO_1C, ST_QUEUED} then SY_QUEUED else SY_DRAFT)"
  by (simp_all add: updated_def resolveUpdatedOrderQueueState_def Let_def)

lemma update_cases:
  assumes "updateClientOrder env lr now dw guid u v body db = (x, db')"
  obtains (refused) "db' = db" "\<exists>e. x = Inl e"
  | (written) a lm cx content db1 gone tk where "x = Inr guid" "find_own guid u db = Some a" "co_revision a = v"
      "\<not> on_hasRealization (co_onec a)"
      "compose_order env now dw lm body db = Inr (cx, content, db1)" "ob_orders db1 = map (detach_package gone) (ob_orders db)"
      "ob_orders db' = update_where (\<lambda>r. co_id r = co_id a) (\<lambda>r. (updated env now tk content a r)\<lparr>co_updatedAt := now\<rparr>)
         (map (detach_package gone) (ob_orders db))"
proof (cases "\<exists>e. x = Inl e")
  case True
  then show thesis using assms that(1)
    by (auto simp: updateClientOrder_def Let_def split: assert_splits sum.splits prod.splits)
next
  case False
  then obtain a lm cx content db1 where a: "find_own guid u db = Some a" "co_revision a = v" "x = Inr guid"
      "\<not> on_hasRealization (co_onec a)"
      "compose_order env now dw lm body db = Inr (cx, content, db1)"
    and db': "ob_orders db' = update_where (\<lambda>r. co_id r = co_id a)
         (\<lambda>r. (updated env now (resolveActiveTrackingOrderSnapshot now u db) content a r)\<lparr>co_updatedAt := now\<rparr>) (ob_orders db1)"
    using assms unfolding updated_def
    by (auto simp: updateClientOrder_def assertRevision_def ensureEditable_def Let_def order_simps
        split: assert_splits sum.splits prod.splits)
  obtain gone where gone: "ob_orders db1 = map (detach_package gone) (ob_orders db)" using compose_orders [OF a(5)] .
  show thesis by (rule that(2) [OF a(3,1,2,4,5) gone db' [unfolded gone]])
qed

lemma update_edited:
  assumes "updateClientOrder env lr now dw guid u v body db = (x, db')"
  shows "db' = db \<or> edited guid v (ob_orders db) (ob_orders db')"
  using assms
proof (cases rule: update_cases)
  case (written a lm cx content db1 gone tk)
  have "edited guid v (ob_orders db) (ob_orders db')"
    unfolding edited_def written(7)
    by (intro exI [of _ a] exI [of _ gone] exI conjI, rule find_ownD [OF written(2), THEN conjunct1])
      (use find_ownD [OF written(2)] written(3) in \<open>auto intro: order_succI\<close>)
  then show ?thesis by simp
qed simp

lemma edit_edited:
  "snd (edit_run env e guid v db) = db \<or> edited guid v (ob_orders db) (ob_orders (snd (edit_run env e guid v db)))"
proof (cases e)
  case (E_SUBMIT now u)
  then show ?thesis using submit_edited [of now guid u v db] by (metis edit_run.simps(1) prod.collapse)
next
  case (E_UNQUEUE now u)
  then show ?thesis using unqueue_edited [of now guid u v db] by (metis edit_run.simps(2) prod.collapse)
next
  case (E_RETRY now u)
  then show ?thesis using retry_edited [of now guid u v db] by (metis edit_run.simps(3) prod.collapse)
next
  case (E_RESTORE now u)
  then show ?thesis using restore_edited [of now guid u v db] by (metis edit_run.simps(4) prod.collapse)
next
  case (E_CANCEL now u reason)
  then show ?thesis using cancel_edited [of now guid u v reason db] by (metis edit_run.simps(5) prod.collapse)
next
  case (E_UPDATE lr now dw u body)
  then show ?thesis using update_edited [of env lr now dw guid u v body db] by (metis edit_run.simps(6) prod.collapse)
qed

lemma edited_evolves:
  assumes "edited guid v os os'" and wf: "orders_wf os"
  shows "evolves up dw os os'"
proof -
  from assms(1) obtain a gone f where a: "a \<in> set os"
    "os' = update_where (\<lambda>r. co_id r = co_id a) f (map (detach_package gone) os)"
    "order_succ True (detach_package gone a) (f (detach_package gone a))"
    unfolding edited_def by blast
  have "evolves up dw (map (detach_package gone) os) os'"
    unfolding a(2)
  proof (rule evolves_updates)
    fix b assume "b \<in> set (map (detach_package gone) os)" "co_id b = co_id a"
    then obtain c where "c \<in> set os" "b = detach_package gone c" "co_id c = co_id a" by auto
    then have "b = detach_package gone a" using wf_id [OF wf _ a(1), of c] by simp
    then show "order_succ up b (f b)" using order_succ_up [OF a(3)] by simp
  qed
  then show ?thesis by (rule evolves_after_map) (rule detach_succ)
qed

lemma edited_spends:
  assumes "edited guid v os os'" and wf: "orders_wf os" and b: "b \<in> set os'" "co_guid b = Some guid"
  shows "co_revision b = v + 1"
proof -
  from assms(1) obtain a gone f where a: "a \<in> set os" "co_guid a = Some guid"
    "os' = update_where (\<lambda>r. co_id r = co_id a) f (map (detach_package gone) os)"
    "co_revision (f (detach_package gone a)) = v + 1"
    unfolding edited_def by blast
  from b(1) [unfolded a(3)] show ?thesis
  proof (cases rule: update_whereE)
    case kept
    then obtain c where "c \<in> set os" "b = detach_package gone c" "co_id c \<noteq> co_id a" by auto
    then show ?thesis using wf_guid [OF wf _ a(1) _ a(2), of c] b(2) by simp
  next
    case (hit c)
    then obtain d where "d \<in> set os" "c = detach_package gone d" "co_id d = co_id a" by auto
    then show ?thesis using wf_id [OF wf _ a(1), of d] a(4) hit(3) by simp
  qed
qed

section \<open>The mutation by client id\<close>

lemma put_columns_cols [simp]:
  "co_id (put_columns env now cr body q req tk content r) = co_id r"
  "co_guid (put_columns env now cr body q req tk content r) = co_guid r"
  "co_source (put_columns env now cr body q req tk content r) = co_source r"
  "co_createdByUserId (put_columns env now cr body q req tk content r) = co_createdByUserId r"
  "co_clientOrderId (put_columns env now cr body q req tk content r) = co_clientOrderId r"
  "co_revision (put_columns env now cr body q req tk content r) = co_revision r"
  "co_clientRevision (put_columns env now cr body q req tk content r) = Some cr"
  "co_clientPayloadHash (put_columns env now cr body q req tk content r) = Some (oe_hash env body)"
  "co_status (put_columns env now cr body q req tk content r) = (if q then ST_QUEUED else ST_DRAFT)"
  "co_syncState (put_columns env now cr body q req tk content r) = (if q then SY_QUEUED else SY_DRAFT)"
  "co_content (put_columns env now cr body q req tk content r) = store_content (oe_col env) content"
  by (simp_all add: put_columns_def)

lemma new_order_cols [simp]:
  "co_id (new_order now dw u tk content) = dr_orderId dw" "co_guid (new_order now dw u tk content) = Some (dr_guid dw)"
  "co_source (new_order now dw u tk content) = MANAGER_APP" "co_createdByUserId (new_order now dw u tk content) = Some u"
  "co_clientOrderId (new_order now dw u tk content) = None" "co_status (new_order now dw u tk content) = ST_DRAFT"
  "co_syncState (new_order now dw u tk content) = SY_DRAFT" "co_content (new_order now dw u tk content) = content"
  "co_revision (new_order now dw u tk content) = 1"
  by (simp_all add: new_order_def)

lemma submitted_cols [simp]:
  "co_id (submitted now tk r) = co_id r" "co_guid (submitted now tk r) = co_guid r" "co_source (submitted now tk r) = co_source r"
  "co_createdByUserId (submitted now tk r) = co_createdByUserId r" "co_clientOrderId (submitted now tk r) = co_clientOrderId r"
  "co_revision (submitted now tk r) = co_revision r + 1" "co_clientRevision (submitted now tk r) = co_clientRevision r"
  "co_clientPayloadHash (submitted now tk r) = co_clientPayloadHash r" "co_status (submitted now tk r) = ST_QUEUED"
  "co_syncState (submitted now tk r) = SY_QUEUED" "co_content (submitted now tk r) = co_content r"
  by (simp_all add: submitted_def)

lemma committed_Some: "co_clientRevision r = Some n \<Longrightarrow> committed_revision r = n"
  by (simp add: committed_revision_def)

lemma put_columns_succ:
  assumes "committed_revision a < cr"
  shows "order_succ up (detach_package gone a)
    (put_columns env now cr body q req tk content (detach_package gone a)\<lparr>co_revision := co_revision a + 1, co_updatedAt := t\<rparr>)"
proof -
  have "committed_revision (detach_package gone a) = committed_revision a" by (rule committed_revision_cols) simp
  moreover have "committed_revision (put_columns env now cr body q req tk content (detach_package gone a)
      \<lparr>co_revision := co_revision a + 1, co_updatedAt := t\<rparr>) = cr"
    by (rule committed_Some) simp
  ultimately show ?thesis using assms by (simp add: order_succ_def)
qed

text \<open>What one transaction of a mutation does to the table.\<close>

lemma put_replace_cases:
  assumes "put_replace env lm now dw u c cr it body db = (x, db')"
  obtains (refused) e where "x = Inl e" "db' = db"
  | (created) gone n where "find_client u c db = None" "x = Inr (dr_guid dw)"
      "ob_orders db' = map (detach_package gone) (ob_orders db) @ [n]"
      "co_id n = dr_orderId dw" "co_guid n = Some (dr_guid dw)" "client_key n = (Some u, Some c)"
      "co_clientRevision n = Some cr" "co_clientPayloadHash n = Some (oe_hash env body)"
      "co_status n = (if it = SUBMIT then ST_QUEUED else ST_DRAFT)" "co_syncState n = (if it = SUBMIT then SY_QUEUED else SY_DRAFT)"
  | (replaced) gone a q req tk content where "find_client u c db = Some a" "x = Inr (or_empty (co_guid a))"
      "ob_orders db' = update_where (\<lambda>r. co_id r = co_id a)
         (\<lambda>r. ((put_columns env now cr body q req tk content r)\<lparr>co_revision := co_revision a + 1\<rparr>)\<lparr>co_updatedAt := now\<rparr>)
         (map (detach_package gone) (ob_orders db))"
proof (cases x)
  case (Inl e)
  then show thesis using assms refused
    by (auto simp: put_replace_def Let_def split: sum.splits prod.splits option.splits if_splits)
next
  case (Inr g)
  then obtain cx content db1 oid rev db2 where co: "compose_order env now dw lm body db = Inr (cx, content, db1)"
    and pw: "put_write env now dw u c cr it body (find_client u c db) (put_should_queue it (find_client u c db)) content db1 =
        (Inr (oid, g, rev), db2)"
    and db': "ob_orders db' = ob_orders db2"
    using assms by (auto simp: put_replace_def Let_def order_simps split: sum.splits prod.splits option.splits if_splits)
  obtain gone where gone: "ob_orders db1 = map (detach_package gone) (ob_orders db)" using compose_orders [OF co] .
  show thesis
  proof (cases "find_client u c db")
    case None
    then show thesis
      using pw Inr by (intro created [where gone = gone]) (auto simp: put_write_def Let_def order_simps db' gone client_key_def put_should_queue_def)
  next
    case (Some a)
    then have w: "g = or_empty (co_guid a)" "ob_orders db2 = update_where (\<lambda>r. co_id r = co_id a)
         (\<lambda>r. ((put_columns env now cr body (put_should_queue it (Some a)) (co_submitRequestedAt a)
                  (resolveActiveTrackingOrderSnapshot now u db1) content r)\<lparr>co_revision := co_revision a + 1\<rparr>)\<lparr>co_updatedAt := now\<rparr>)
         (ob_orders db1)"
      using pw by (auto simp: put_write_def Let_def order_simps split: option.splits if_splits)
    show thesis
      by (rule replaced [OF Some]) (simp add: Inr w(1), simp add: db' w(2) gone)
  qed
qed

lemma put_cases:
  assumes "put_transaction env lm now dw u c cr it body db = (x, db')"
  obtains (refused) e where "x = Inl e" "db' = db"
  | (settled) a where "find_client u c db = Some a" "put_settled env cr it body a = Some x" "db' = db"
  | (escalated) a tk where "find_client u c db = Some a" "cr = committed_revision a" "put_settled env cr it body a = None"
      "x = Inr (or_empty (co_guid a))"
      "ob_orders db' = update_where (\<lambda>r. co_id r = co_id a) (\<lambda>r. (submitted now tk r)\<lparr>co_updatedAt := now\<rparr>) (ob_orders db)"
  | (created) gone n where "find_client u c db = None" "x = Inr (dr_guid dw)"
      "ob_orders db' = map (detach_package gone) (ob_orders db) @ [n]"
      "co_id n = dr_orderId dw" "co_guid n = Some (dr_guid dw)" "client_key n = (Some u, Some c)"
      "co_clientRevision n = Some cr" "co_clientPayloadHash n = Some (oe_hash env body)"
      "co_status n = (if it = SUBMIT then ST_QUEUED else ST_DRAFT)" "co_syncState n = (if it = SUBMIT then SY_QUEUED else SY_DRAFT)"
  | (replaced) gone a q req tk content where "find_client u c db = Some a" "committed_revision a < cr" "x = Inr (or_empty (co_guid a))"
      "ob_orders db' = update_where (\<lambda>r. co_id r = co_id a)
         (\<lambda>r. ((put_columns env now cr body q req tk content r)\<lparr>co_revision := co_revision a + 1\<rparr>)\<lparr>co_updatedAt := now\<rparr>)
         (map (detach_package gone) (ob_orders db))"
proof (cases "find_client u c db")
  case None
  then have "put_replace env lm now dw u c cr it body db = (x, db')" using assms by (simp add: put_transaction_def)
  then show thesis
  proof (cases rule: put_replace_cases)
    case (replaced gone a q req tk content)
    then show thesis using None by simp
  qed (use refused created in blast)+
next
  case (Some a)
  show thesis
  proof (cases "put_settled env cr it body a")
    case s: (Some y)
    then show thesis using assms Some settled [OF Some] by (simp add: put_transaction_def)
  next
    case s: None
    show thesis
    proof (cases "cr = committed_revision a")
      case True
      then have pe: "put_escalate now u a db = (x, db')" using assms Some s by (simp add: put_transaction_def)
      show thesis
      proof (cases "ensureEditable a = None \<and> assertClientOrderCanBeSubmitted (co_content a) = None")
        case False
        then have "\<exists>e. x = Inl e \<and> db' = db"
          using pe by (cases "ensureEditable a"; cases "assertClientOrderCanBeSubmitted (co_content a)") (auto simp: put_escalate_def)
        then show thesis using refused by blast
      next
        case w: True
        show thesis
          by (rule escalated [OF Some True s])
            (use pe w in \<open>auto simp: put_escalate_def Let_def order_simps\<close>)
      qed
    next
      case False
      then have lt: "committed_revision a < cr" using s by (auto simp: put_settled_def split: if_splits)
      have "put_replace env lm now dw u c cr it body db = (x, db')" using assms Some s False by (simp add: put_transaction_def)
      then show thesis
      proof (cases rule: put_replace_cases)
        case (created gone n)
        then show thesis using Some by simp
      next
        case r: (replaced gone b q req tk content)
        then have [simp]: "b = a" using Some by simp
        show thesis by (rule replaced [OF Some lt]) (use r in simp_all)
      qed (use refused in blast)
    qed
  qed
qed

lemma put_transaction_evolves:
  assumes "put_transaction env lm now dw u c cr it body db = (x, db')" and wf: "orders_wf (ob_orders db)"
  shows "evolves up dw (ob_orders db) (ob_orders db')"
  using assms(1)
proof (cases rule: put_cases)
  case (escalated a tk)
  show ?thesis
    unfolding escalated(5)
    by (rule evolves_update [OF wf find_clientD [OF escalated(1), THEN conjunct1]]) (auto intro: order_succI)
next
  case (created gone n)
  have keys: "client_key ` set (map (detach_package gone) (ob_orders db)) = client_key ` set (ob_orders db)"
    by (simp add: image_image client_key_def)
  have "newcomer dw (map (detach_package gone) (ob_orders db)) n"
    using created(4-6) find_client_None [OF created(1)] by (simp only: newcomer_def keys) simp
  then have "evolves up dw (map (detach_package gone) (ob_orders db)) (ob_orders db')"
    unfolding created(3) by (rule evolves_new)
  then show ?thesis by (rule evolves_after_map) (rule detach_succ)
next
  case (replaced gone a q req tk content)
  have a: "a \<in> set (ob_orders db)" using find_clientD [OF replaced(1)] by simp
  have "evolves up dw (map (detach_package gone) (ob_orders db)) (ob_orders db')"
    unfolding replaced(4)
  proof (rule evolves_updates)
    fix b assume "b \<in> set (map (detach_package gone) (ob_orders db))" "co_id b = co_id a"
    then obtain d where "d \<in> set (ob_orders db)" "b = detach_package gone d" "co_id d = co_id a" by auto
    then have b: "b = detach_package gone a" using wf_id [OF wf _ a, of d] by simp
    show "order_succ up b (put_columns env now cr body q req tk content b\<lparr>co_revision := co_revision a + 1, co_updatedAt := now\<rparr>)"
      unfolding b by (rule put_columns_succ [OF replaced(2)])
  qed
  then show ?thesis by (rule evolves_after_map) (rule detach_succ)
qed simp_all

end
