(* ===== verification/Order_Steps.thy ===== *)
theory Order_Steps
  imports Order_Lifecycle
begin

text \<open>
  Runs of the order service: every request, every push of the worker and every report of 1C as one step
  on the tables, in any order.  Shown for whole runs: edits based on one revision take effect at most
  once, late retries of a mutation change nothing, and the pair of states of an order is one the worker
  can act on.
\<close>

section \<open>The steps\<close>

text \<open>
  \<open>PutOrder\<close> is a mutation that runs undisturbed; \<open>PutLate\<close> is the transaction of one whose
  references were read in an earlier state.  \<open>PushOrder\<close> works on an order read in an earlier state.
\<close>

datatype order_op =
    CreateOrder live_reads millis order_draw user_id order_body
  | PutOrder live_reads millis order_draw user_id string int intent order_body
  | PutLate materialization millis order_draw user_id string int intent order_body
  | CopyOrder millis order_draw string user_id
  | EditOrder edit string int
  | DeleteDraft string user_id
  | PushOrder millis push_world queued_order
  | AckOrder millis string ack_body
  | ReportStatus millis status_item
  | ReportSnapshot millis "nat \<Rightarrow> string" order_snapshot
  | ReconcilePosted millis "string list"

definition push_order :: "(utext \<Rightarrow> millis option) \<Rightarrow> millis \<Rightarrow> push_world \<Rightarrow> queued_order \<Rightarrow> order_db \<Rightarrow> order_db" where
  "push_order date now w q db =
     (case exportOrder date now w q db of
        (None, db1) \<Rightarrow> db1 | (Some e, db1) \<Rightarrow> markOrderExportFailure now q e db1)"

fun order_step :: "order_env \<Rightarrow> (utext \<Rightarrow> millis option) \<Rightarrow> order_op \<Rightarrow> order_db \<Rightarrow> order_db" where
  "order_step env date (CreateOrder lr now dw u body) db = snd (createClientOrder env lr now dw u body db)"
| "order_step env date (PutOrder lr now dw u c cr it body) db = snd (putClientOrderByClientId env lr now dw u c cr it body db)"
| "order_step env date (PutLate lm now dw u c cr it body) db = snd (put_transaction env lm now dw u c cr it body db)"
| "order_step env date (CopyOrder now dw guid u) db = snd (copyStoredClientOrder now dw guid u db)"
| "order_step env date (EditOrder e guid v) db = snd (edit_run env e guid v db)"
| "order_step env date (DeleteDraft guid u) db = snd (deleteDraftClientOrder guid u db)"
| "order_step env date (PushOrder now w q) db = push_order date now w q db"
| "order_step env date (AckOrder now guid b) db = snd (handleOrderAck now guid b db)"
| "order_step env date (ReportStatus now s) db = apply_status (oe_col env) now s db"
| "order_step env date (ReportSnapshot now uuid s) db = snd (apply_snapshot env now uuid s db)"
| "order_step env date (ReconcilePosted now ids) db = reconcilePostedLiveOrders now ids db"

fun draw_of :: "order_draw \<Rightarrow> order_op \<Rightarrow> order_draw" where
  "draw_of d (CreateOrder lr now dw u body) = dw"
| "draw_of d (PutOrder lr now dw u c cr it body) = dw"
| "draw_of d (PutLate lm now dw u c cr it body) = dw"
| "draw_of d (CopyOrder now dw guid u) = dw"
| "draw_of d _ = d"

section \<open>Every step evolves the table\<close>

lemma create_order_cases:
  obtains (refused) "snd (createClientOrder env lr now dw u body db) = db"
  | (created) gone tk content where "ob_orders (snd (createClientOrder env lr now dw u body db)) =
      map (detach_package gone) (ob_orders db) @ [new_order now dw u tk (store_content (oe_col env) content)]"
proof (cases "\<exists>e. fst (createClientOrder env lr now dw u body db) = Inl e")
  case True
  then show thesis using refused by (auto simp: createClientOrder_def Let_def split: sum.splits prod.splits)
next
  case False
  then obtain lm cx content db1 where co: "compose_order env now dw lm body db = Inr (cx, content, db1)"
    and db': "ob_orders (snd (createClientOrder env lr now dw u body db)) =
      ob_orders db1 @ [new_order now dw u (resolveActiveTrackingOrderSnapshot now u db) (store_content (oe_col env) content)]"
    by (auto simp: createClientOrder_def bind_sum_def Let_def order_simps split: sum.splits prod.splits)
  obtain gone where gone: "ob_orders db1 = map (detach_package gone) (ob_orders db)" using compose_orders [OF co] .
  show thesis using db' unfolding gone by (rule created)
qed

lemma create_evolves:
  "evolves up dw (ob_orders db) (ob_orders (snd (createClientOrder env lr now dw u body db)))"
proof (cases rule: create_order_cases [of env lr now dw u body db])
  case (created gone tk content)
  have "evolves up dw (map (detach_package gone) (ob_orders db)) (ob_orders (snd (createClientOrder env lr now dw u body db)))"
    unfolding created by (rule evolves_new) (simp add: newcomer_def)
  then show ?thesis by (rule evolves_after_map) (rule detach_succ)
qed simp

lemma copy_evolves: "evolves up dw (ob_orders db) (ob_orders (snd (copyStoredClientOrder now dw guid u db)))"
  by (cases "find_own guid u db")
    (auto simp: copyStoredClientOrder_def Let_def order_simps newcomer_def intro!: evolves_new)

lemma put_evolves:
  assumes "orders_wf (ob_orders db)"
  shows "evolves up dw (ob_orders db) (ob_orders (snd (putClientOrderByClientId env lr now dw u c cr it body db)))"
proof -
  have "evolves up dw (ob_orders db) (ob_orders (snd (put_transaction env lm now dw u c cr it body db)))" for lm
    using put_transaction_evolves [OF _ assms] by (metis prod.collapse)
  then show ?thesis by (auto simp: putClientOrderByClientId_def split: option.splits sum.splits)
qed

lemma delete_orders:
  "ob_orders (snd (deleteDraftClientOrder guid u db)) = ob_orders db \<or>
   (\<exists>p. ob_orders (snd (deleteDraftClientOrder guid u db)) = filter p (ob_orders db))"
  by (auto simp: deleteDraftClientOrder_def split: option.splits)

text \<open>A write to one row, found by its identifier.\<close>

lemma evolves_write:
  assumes wf: "orders_wf (ob_orders db)" and a: "a \<in> set (ob_orders db)" and i: "i = co_id a" and s: "order_succ up a (f a)"
  shows "evolves up dw (ob_orders db) (ob_orders (write_order now i f db))"
  unfolding orders_write i
proof (rule evolves_update [OF wf a])
  show "order_succ up a ((f a)\<lparr>co_updatedAt := now\<rparr>)"
    using s committed_revision_cols [of "(f a)\<lparr>co_updatedAt := now\<rparr>" "f a"] by (simp add: order_succ_def)
qed

lemma still_findD:
  assumes "List.find (still_exporting seen) (ob_orders db) = Some current"
  shows "current \<in> set (ob_orders db)" "co_id current = co_id seen" "still_exporting seen current"
  using find_SomeD [OF assms] by (auto simp: still_exporting_def)

lemma mark_success_evolves:
  assumes wf: "orders_wf (ob_orders db)"
  shows "evolves up dw (ob_orders db) (ob_orders (snd (markOrderExportSuccess date now q j db)))"
proof (cases "assertSavedOrderDidNotLoseItems q j = None \<and> List.find (still_exporting (qo_row q)) (ob_orders db) \<noteq> None")
  case True
  then obtain current where c: "List.find (still_exporting (qo_row q)) (ob_orders db) = Some current" by auto
  have db': "ob_orders (snd (markOrderExportSuccess date now q j db)) = ob_orders (write_order now (co_id (qo_row q))
      (exported now (isCancelExportOrder (qo_row q)) (extractSavedOrder date j) j (co_revision current)) db)"
    using True c by (simp add: markOrderExportSuccess_def Let_def orders_event)
  show ?thesis
    unfolding db' by (rule evolves_write [OF wf still_findD(1) [OF c] still_findD(2) [OF c, symmetric]])
      (use still_findD [OF c] in \<open>auto simp: exported_def intro: order_succI\<close>)
qed (auto simp: markOrderExportSuccess_def Let_def split: option.splits)

lemma mark_failure_orders:
  "markOrderExportFailure now q e db = db \<or>
   (\<exists>current f. List.find (still_exporting (qo_row q)) (ob_orders db) = Some current \<and>
      ob_orders (markOrderExportFailure now q e db) = ob_orders (write_order now (co_id (qo_row q)) f db) \<and>
      f = (\<lambda>r. r\<lparr>co_syncState := (if is_validation_error e then SY_ERROR
                  else if isCancelExportOrder (qo_row q) then SY_CANCEL_REQUESTED else SY_QUEUED),
                co_exportAttempts := co_exportAttempts (qo_row q) + 1,
                co_lastExportError := Some (Failed e), co_sourceUpdatedAt := Some now,
                co_onec := (co_onec r)\<lparr>on_last1cError := Some (Failed e)\<rparr>\<rparr>))"
  by (cases "List.find (still_exporting (qo_row q)) (ob_orders db)")
    (simp_all add: markOrderExportFailure_def Let_def orders_event)

lemma mark_failure_evolves:
  assumes wf: "orders_wf (ob_orders db)"
  shows "evolves up dw (ob_orders db) (ob_orders (markOrderExportFailure now q e db))"
  using mark_failure_orders [of now q e db]
proof (elim disjE exE conjE)
  fix current f
  assume c: "List.find (still_exporting (qo_row q)) (ob_orders db) = Some current"
    and db': "ob_orders (markOrderExportFailure now q e db) = ob_orders (write_order now (co_id (qo_row q)) f db)"
    and f: "f = (\<lambda>r. r\<lparr>co_syncState := (if is_validation_error e then SY_ERROR
                  else if isCancelExportOrder (qo_row q) then SY_CANCEL_REQUESTED else SY_QUEUED),
                co_exportAttempts := co_exportAttempts (qo_row q) + 1,
                co_lastExportError := Some (Failed e), co_sourceUpdatedAt := Some now,
                co_onec := (co_onec r)\<lparr>on_last1cError := Some (Failed e)\<rparr>\<rparr>)"
  show ?thesis
    unfolding db' by (rule evolves_write [OF wf still_findD(1) [OF c] still_findD(2) [OF c, symmetric]])
      (simp add: f order_succI)
qed simp

text \<open>A failed push leaves the table as it was before the failure is noted.\<close>

lemma export_failed_same: "exportOrder date now w q db = (Some e, db1) \<Longrightarrow> db1 = db"
  by (auto simp: exportOrder_def markOrderExportSuccess_def Let_def split: if_splits sum.splits option.splits)

lemma push_cases:
  obtains "push_order date now w q db = db"
  | j where "push_order date now w q db = snd (markOrderExportSuccess date now q j db)"
  | e where "push_order date now w q db = markOrderExportFailure now q e db"
proof (cases "exportOrder date now w q db")
  case (Pair r db1)
  show thesis
  proof (cases r)
    case (Some e)
    then show thesis using Pair export_failed_same [of date now w q db e db1] that(3) by (simp add: push_order_def)
  next
    case None
    then have "db1 = db \<or> (\<exists>j. db1 = snd (markOrderExportSuccess date now q j db))"
      using Pair None by (auto simp: exportOrder_def split: if_splits sum.splits) (metis snd_conv)
    then show thesis using None Pair that(1,2) by (auto simp: push_order_def)
  qed
qed

lemma push_evolves:
  assumes "orders_wf (ob_orders db)"
  shows "evolves up dw (ob_orders db) (ob_orders (push_order date now w q db))"
  by (cases rule: push_cases [of date now w q db])
    (simp_all add: mark_success_evolves mark_failure_evolves assms)

lemma ack_evolves:
  assumes wf: "orders_wf (ob_orders db)"
  shows "evolves up dw (ob_orders db) (ob_orders (snd (handleOrderAck now guid b db)))"
proof (cases "find_guid guid db")
  case (Some a)
  then have a: "a \<in> set (ob_orders db)" using find_guidD by blast
  have "ob_orders (snd (handleOrderAck now guid b db)) = ob_orders db \<or>
    (\<exists>f. ob_orders (snd (handleOrderAck now guid b db)) = ob_orders (write_order now (co_id a) f db) \<and> f \<in> {ack_failed now b, ack_saved now b})"
    using Some by (auto simp: handleOrderAck_def orders_event)
  then show ?thesis
    by (auto simp: ack_failed_def ack_saved_def intro!: evolves_write [OF wf a] order_succI)
qed (simp add: handleOrderAck_def)

lemma status_evolves:
  assumes wf: "orders_wf (ob_orders db)"
  shows "evolves up dw (ob_orders db) (ob_orders (apply_status col now s db))"
proof (cases "find_guid (si_guid s) db")
  case (Some a)
  then have a: "a \<in> set (ob_orders db)" using find_guidD by blast
  show ?thesis
    using Some by (auto simp: apply_status_def orders_event status_applied_def Let_def intro!: evolves_write [OF wf a] order_succI)
qed (simp add: apply_status_def)

lemma reconcile_evolves: "evolves up dw (ob_orders db) (ob_orders (reconcilePostedLiveOrders now ids db))"
  unfolding reconcilePostedLiveOrders_def by (simp, rule evolves_updates) (simp add: order_succI)

text \<open>What a snapshot does to the order it names.\<close>

lemma note_snapshot_cols [simp]:
  "co_status (note_snapshot now s sync err r) = co_status r"
  "co_revision (note_snapshot now s sync err r) = co_revision r"
  "co_content (note_snapshot now s sync err r) = co_content r"
  "co_source (note_snapshot now s sync err r) = co_source r"
  "co_guid (note_snapshot now s sync err r) = co_guid r"
  "co_id (note_snapshot now s sync err r) = co_id r"
  "co_syncState (note_snapshot now s sync err r) = (case sync of None \<Rightarrow> co_syncState r | Some x \<Rightarrow> x)"
  by (simp_all add: note_snapshot_def)

lemma note_snapshot_succ: "order_succ up r (note_snapshot now s sync err r)"
  by (rule order_succI) (simp_all add: note_snapshot_def)

lemma with_items_cols [simp]:
  "co_status (with_items items r) = co_status r" "co_syncState (with_items items r) = co_syncState r"
  "co_revision (with_items items r) = co_revision r" "co_source (with_items items r) = co_source r"
  "co_id (with_items items r) = co_id r" "co_guid (with_items items r) = co_guid r"
  "ct_items (co_content (with_items items r)) = items"
  by (simp_all add: with_items_def)

lemma with_items_succ: "order_succ up r (with_items items r)"
  by (rule order_succI) (simp_all add: with_items_def)

definition marks :: "(client_order \<Rightarrow> client_order) \<Rightarrow> bool" where
  "marks f \<longleftrightarrow> (\<forall>r. order_succ True r (f r) \<and> co_status (f r) = co_status r \<and> co_syncState (f r) \<in> {co_syncState r, SY_CONFLICT, SY_ERROR})"

lemma marks_note: "sync \<in> {None, Some SY_CONFLICT, Some SY_ERROR} \<Longrightarrow> marks (note_snapshot now s sync err)"
  by (auto simp: marks_def note_snapshot_succ)

lemma marks_deferred:
  "marks (\<lambda>r. (note_snapshot now s None None r)\<lparr>co_onec := (co_onec (note_snapshot now s None None r))\<lparr>on_lastStatusSyncAt := Some now\<rparr>\<rparr>)"
  by (auto simp: marks_def note_snapshot_def intro: order_succI)

lemma marks_error: "marks (\<lambda>r. note_snapshot now s (Some SY_ERROR) err (with_items items r))"
  by (auto simp: marks_def note_snapshot_def with_items_def intro: order_succI)

definition snapshot_stale :: "order_snapshot \<Rightarrow> client_order \<Rightarrow> bool" where
  "snapshot_stale s a \<longleftrightarrow> os_baseRevision s \<noteq> co_revision a \<and> \<not> isAckAlignedSnapshot s a"

definition snapshot_busy :: "client_order \<Rightarrow> bool" where
  "snapshot_busy a \<longleftrightarrow> co_status a = ST_QUEUED \<or> co_syncState a \<in> {SY_QUEUED, SY_ERROR, SY_CONFLICT}"

text \<open>The branches of a snapshot on a stored order.\<close>

lemma snapshot_when_stale:
  assumes "find_guid (os_guid s) db = Some a" and "snapshot_stale s a"
  shows "apply_snapshot env now uuid s db =
    (SnapConflict, appendOrderEvent (co_id a) (co_revision a) ONEC_EDIT ''ONEC_ORDER_SNAPSHOT_CONFLICT'' None
       (write_order now (co_id a)
          (note_snapshot now s (Some SY_CONFLICT) (Some (RevisionConflict (co_revision a) (os_baseRevision s)))) db))"
  using assms by (simp add: apply_snapshot_def snapshot_stale_def Let_def)

lemma snapshot_when_busy:
  assumes "find_guid (os_guid s) db = Some a" and "\<not> snapshot_stale s a" and "snapshot_busy a"
  shows "apply_snapshot env now uuid s db =
    (SnapOk, appendOrderEvent (co_id a) (co_revision a) ONEC_IMPORT ''ONEC_ORDER_SNAPSHOT_DEFERRED'' None
       (write_order now (co_id a)
          (\<lambda>r. (note_snapshot now s None None r)\<lparr>co_onec := (co_onec (note_snapshot now s None None r))\<lparr>on_lastStatusSyncAt := Some now\<rparr>\<rparr>) db))"
proof -
  have 1: "\<not> (os_baseRevision s \<noteq> co_revision a \<and> \<not> isAckAlignedSnapshot s a)" using assms(2) by (simp add: snapshot_stale_def)
  have 2: "co_status a = ST_QUEUED \<or> co_syncState a \<in> {SY_QUEUED, SY_ERROR, SY_CONFLICT}" using assms(3) unfolding snapshot_busy_def .
  show ?thesis unfolding apply_snapshot_def assms(1) option.case Let_def if_not_P [OF 1] if_P [OF 2] ..
qed

lemma snapshot_when_empty:
  assumes "find_guid (os_guid s) db = Some a" and "\<not> snapshot_stale s a" and "\<not> snapshot_busy a"
    and "ct_items (co_content a) \<noteq> [] \<and> os_lines s = []"
  shows "apply_snapshot env now uuid s db =
    (SnapEmpty, appendOrderEvent (co_id a) (co_revision a) ONEC_IMPORT ''ONEC_ORDER_SNAPSHOT_REJECTED_EMPTY_ITEMS'' None
       (write_order now (co_id a)
          (note_snapshot now s (Some SY_ERROR) (Some (EmptySnapshot (length (ct_items (co_content a)))))) db))"
  using assms by (simp add: apply_snapshot_def snapshot_stale_def snapshot_busy_def Let_def)

lemma snapshot_when_lines:
  assumes "find_guid (os_guid s) db = Some a" and "\<not> snapshot_stale s a" and "\<not> snapshot_busy a"
    and "\<not> (ct_items (co_content a) \<noteq> [] \<and> os_lines s = [])"
    and u: "upsertSnapshotOrganization (oe_gen env) now (os_organization s) (ob_references db) = (org, rf)"
  shows "apply_snapshot env now uuid s db =
    (case replaceOrderItemsFromSnapshot (oe_col env) (oe_dec env) now rf uuid (os_lines s) (ct_items (co_content a)) of
       (Inl message, items) \<Rightarrow>
         (SnapError message, appendOrderEvent (co_id a) (co_revision a) ONEC_IMPORT ''ONEC_ORDER_SNAPSHOT_ERROR'' None
            (write_order now (co_id a)
               (\<lambda>r. note_snapshot now s (Some SY_ERROR) (Some (SnapshotFailed message)) (with_items items r)) (db\<lparr>ob_references := rf\<rparr>)))
     | (Inr computedTotal, items) \<Rightarrow>
         let nextRevision = (case os_revision s of None \<Rightarrow> co_revision a + 1 | Some n \<Rightarrow> n) in
         (SnapOk, appendOrderEvent (co_id a) nextRevision (if os_isPostedIn1c s = Some True then ONEC_POST else ONEC_EDIT)
            ''ONEC_ORDER_SNAPSHOT_APPLIED'' None
            (write_order now (co_id a) (snapshot_applied (oe_col env) now s org computedTotal nextRevision items) (db\<lparr>ob_references := rf\<rparr>))))"
proof -
  have 1: "\<not> (os_baseRevision s \<noteq> co_revision a \<and> \<not> isAckAlignedSnapshot s a)" using assms(2) by (simp add: snapshot_stale_def)
  have 2: "\<not> (co_status a = ST_QUEUED \<or> co_syncState a \<in> {SY_QUEUED, SY_ERROR, SY_CONFLICT})" using assms(3) unfolding snapshot_busy_def .
  show ?thesis
    unfolding apply_snapshot_def assms(1) option.case Let_def if_not_P [OF 1] if_not_P [OF 2] if_not_P [OF assms(4)] u split ..
qed

lemma orders_write_references [simp]: "ob_orders (write_order now i f (db\<lparr>ob_references := rf\<rparr>)) = ob_orders (write_order now i f db)"
  by (simp add: write_order_def)

lemma snapshot_cases:
  assumes "apply_snapshot env now uuid s db = (x, db')"
  obtains (missing) "x = SnapMissing" "db' = db" "find_guid (os_guid s) db = None"
  | (noted) a f where "find_guid (os_guid s) db = Some a" "marks f" "ob_orders db' = ob_orders (write_order now (co_id a) f db)"
  | (applied) a org t items where "find_guid (os_guid s) db = Some a" "x = SnapOk"
      "ob_orders db' = ob_orders (write_order now (co_id a)
        (snapshot_applied (oe_col env) now s org t (case os_revision s of None \<Rightarrow> co_revision a + 1 | Some n \<Rightarrow> n) items) db)"
      "\<not> snapshot_stale s a" "\<not> snapshot_busy a"
proof (cases "find_guid (os_guid s) db")
  case None
  then show thesis using assms missing by (simp add: apply_snapshot_def)
next
  case (Some a)
  consider (conflict) "snapshot_stale s a"
    | (late) "\<not> snapshot_stale s a" "snapshot_busy a"
    | (empty) "\<not> snapshot_stale s a" "\<not> snapshot_busy a" "ct_items (co_content a) \<noteq> [] \<and> os_lines s = []"
    | (lines) "\<not> snapshot_stale s a" "\<not> snapshot_busy a" "\<not> (ct_items (co_content a) \<noteq> [] \<and> os_lines s = [])"
    by blast
  then show thesis
  proof cases
    case conflict
    show thesis
      by (rule noted [OF Some marks_note [where sync = "Some SY_CONFLICT"]])
        (simp, use assms snapshot_when_stale [OF Some conflict] orders_event in fastforce)
  next
    case late
    show thesis
      by (rule noted [OF Some marks_deferred]) (use assms snapshot_when_busy [OF Some late] orders_event in fastforce)
  next
    case empty
    show thesis
      by (rule noted [OF Some marks_note [where sync = "Some SY_ERROR"]])
        (simp, use assms snapshot_when_empty [OF Some empty] orders_event in fastforce)
  next
    case lines
    obtain org rf where u: "upsertSnapshotOrganization (oe_gen env) now (os_organization s) (ob_references db) = (org, rf)" by fastforce
    obtain r items where rp: "replaceOrderItemsFromSnapshot (oe_col env) (oe_dec env) now rf uuid (os_lines s) (ct_items (co_content a)) = (r, items)"
      by fastforce
    note eq = assms [unfolded snapshot_when_lines [OF Some lines u] rp split]
    show thesis
    proof (cases r)
      case (Inl m)
      show thesis
        by (rule noted [OF Some marks_error [where items = items]]) (use eq Inl in \<open>auto simp: orders_event\<close>)
    next
      case (Inr t)
      show thesis
        by (rule applied [OF Some _ _ lines(1,2)]) (use eq Inr in \<open>auto simp: orders_event Let_def\<close>)
    qed
  qed
qed

lemma snapshot_evolves:
  assumes wf: "orders_wf (ob_orders db)"
  shows "evolves False dw (ob_orders db) (ob_orders (snd (apply_snapshot env now uuid s db)))"
proof (cases "apply_snapshot env now uuid s db")
  case (Pair x db')
  then show ?thesis
  proof (cases rule: snapshot_cases)
    case (noted a f)
    then have "order_succ False a (f a)" by (simp add: marks_def order_succ_up)
    from evolves_write [where i = "co_id a" and f = f and a = a, OF wf _ refl this] show ?thesis using find_guidD [OF noted(1)] noted(3) Pair by simp
  next
    case (applied a org t items)
    have "order_succ False a (snapshot_applied (oe_col env) now s org t (case os_revision s of None \<Rightarrow> co_revision a + 1 | Some n \<Rightarrow> n) items a)"
      by (simp add: snapshot_applied_def order_succ_def committed_revision_def)
    from evolves_write [where i = "co_id a" and a = a and f = "snapshot_applied _ _ _ _ _ _ _", OF wf _ refl this] show ?thesis using find_guidD [OF applied(1)] applied(3) Pair by simp
  qed (simp add: Pair)
qed

text \<open>Everything but a snapshot leaves the revisions where they are or raises them.\<close>

fun snapshot_op :: "order_op \<Rightarrow> bool" where
  "snapshot_op (ReportSnapshot now uuid s) = True"
| "snapshot_op _ = False"

lemma order_step_evolves:
  assumes wf: "orders_wf (ob_orders db)"
  shows "evolves (\<not> snapshot_op op) (draw_of d op) (ob_orders db) (ob_orders (order_step env date op db))"
proof (cases op)
  case (PutLate lm now dw u c cr it body)
  then show ?thesis using put_transaction_evolves [OF _ wf] by (metis draw_of.simps(3) order_step.simps(3) prod.collapse)
next
  case (EditOrder e guid v)
  then show ?thesis using edit_edited [of env e guid v db] edited_evolves [OF _ wf] by auto
next
  case (DeleteDraft guid u)
  then show ?thesis using delete_orders [of guid u db] evolves_drop by auto
qed (simp_all add: create_evolves put_evolves copy_evolves push_evolves ack_evolves status_evolves snapshot_evolves reconcile_evolves wf)

section \<open>Runs\<close>

text \<open>
  A ledger is the database with the guids ever given out.  Generated identifiers are new: a step that
  draws one in use does not occur.  1C may report anything, also a revision below the stored one.
\<close>

type_synonym ledger = "order_db \<times> string set"

fun draws :: "order_op \<Rightarrow> bool" where
  "draws (CreateOrder lr now dw u body) = True"
| "draws (PutOrder lr now dw u c cr it body) = True"
| "draws (PutLate lm now dw u c cr it body) = True"
| "draws (CopyOrder now dw guid u) = True"
| "draws _ = False"

definition no_draw :: order_draw where
  "no_draw = \<lparr>dr_orderId = [], dr_guid = [], dr_line = (\<lambda>_. [])\<rparr>"

definition fair :: "order_op \<Rightarrow> ledger \<Rightarrow> bool" where
  "fair op s \<longleftrightarrow>
     (draws op \<longrightarrow> dr_orderId (draw_of no_draw op) \<notin> co_id ` set (ob_orders (fst s)) \<and> dr_guid (draw_of no_draw op) \<notin> snd s)"

definition ledger_step :: "order_env \<Rightarrow> (utext \<Rightarrow> millis option) \<Rightarrow> order_op \<Rightarrow> ledger \<Rightarrow> ledger" where
  "ledger_step env date op s =
     (if fair op s
      then (order_step env date op (fst s), if draws op then insert (dr_guid (draw_of no_draw op)) (snd s) else snd s)
      else s)"

definition ledger_wf :: "ledger \<Rightarrow> bool" where
  "ledger_wf s \<longleftrightarrow>
     orders_wf (ob_orders (fst s)) \<and>
     (\<forall>a \<in> set (ob_orders (fst s)). case co_guid a of None \<Rightarrow> co_clientOrderId a = None | Some g \<Rightarrow> g \<in> snd s)"

definition ledger_run :: "order_env \<Rightarrow> (utext \<Rightarrow> millis option) \<Rightarrow> order_op list \<Rightarrow> ledger \<Rightarrow> ledger" where
  "ledger_run env date ops s = fold (ledger_step env date) ops s"

text \<open>An operation that draws nothing adds nothing: a draw different from any given one explains it.\<close>

lemma evolves_members:
  assumes "\<And>d. evolves up d os os'" and "b \<in> set os'"
  obtains a where "a \<in> set os" "order_succ up a b"
proof -
  let ?d = "no_draw\<lparr>dr_guid := ''x''\<rparr>"
  show thesis
  proof (cases rule: evolves_member [OF assms(1) [of no_draw] assms(2)])
    case 1
    then show thesis using that by blast
  next
    case one: 2
    show thesis
    proof (cases rule: evolves_member [OF assms(1) [of ?d] assms(2)])
      case 1
      then show thesis using that by blast
    next
      case 2
      then show thesis using one by (simp add: newcomer_def no_draw_def)
    qed
  qed
qed

lemma draw_of_draws: "draws op \<Longrightarrow> draw_of d op = draw_of no_draw op"
  by (cases op) simp_all

lemma draw_of_other: "\<not> draws op \<Longrightarrow> draw_of d op = d"
  by (cases op) simp_all

lemma ledger_step_member:
  assumes wf: "ledger_wf s" and b: "b \<in> set (ob_orders (fst (ledger_step env date op s)))"
  obtains (old) a where "a \<in> set (ob_orders (fst s))" "order_succ (\<not> snapshot_op op) a b"
  | (new) "co_guid b = Some (dr_guid (draw_of no_draw op))" "dr_guid (draw_of no_draw op) \<notin> snd s" "fair op s" "draws op"
proof (cases "fair op s")
  case False
  then show thesis using b old [of b] by (simp add: ledger_step_def)
next
  case f: True
  have ev: "evolves (\<not> snapshot_op op) (draw_of d op) (ob_orders (fst s)) (ob_orders (order_step env date op (fst s)))" for d
    by (rule order_step_evolves) (use wf in \<open>simp add: ledger_wf_def\<close>)
  have b': "b \<in> set (ob_orders (order_step env date op (fst s)))" using b f by (simp add: ledger_step_def)
  show thesis
  proof (cases "draws op")
    case False
    then have "\<And>d. evolves (\<not> snapshot_op op) d (ob_orders (fst s)) (ob_orders (order_step env date op (fst s)))" using ev by (simp add: draw_of_other)
    then show thesis using evolves_members b' old by metis
  next
    case d: True
    show thesis
    proof (cases rule: evolves_member [OF ev [of no_draw] b'])
      case 1
      then show thesis using old by blast
    next
      case 2
      then show thesis using new f d by (simp add: newcomer_def fair_def)
    qed
  qed
qed

lemma ledger_step_wf:
  assumes wf: "ledger_wf s"
  shows "ledger_wf (ledger_step env date op s)"
proof (cases "fair op s")
  case f: True
  let ?os = "ob_orders (fst s)"
  obtain d where d: "dr_orderId (draw_of d op) \<notin> co_id ` set ?os" "Some (dr_guid (draw_of d op)) \<notin> co_guid ` set ?os"
  proof (cases "draws op")
    case True
    then have i: "dr_orderId (draw_of no_draw op) \<notin> co_id ` set ?os" and g: "dr_guid (draw_of no_draw op) \<notin> snd s"
      using f by (simp_all add: fair_def)
    have "Some (dr_guid (draw_of no_draw op)) \<notin> co_guid ` set ?os"
    proof
      assume "Some (dr_guid (draw_of no_draw op)) \<in> co_guid ` set ?os"
      then obtain a where "a \<in> set ?os" "co_guid a = Some (dr_guid (draw_of no_draw op))" by auto
      then show False using wf g by (force simp: ledger_wf_def)
    qed
    then show thesis using that i by blast
  next
    case False
    obtain i where i: "i \<notin> co_id ` set ?os" using ex_new_if_finite [OF infinite_UNIV_listI, of "co_id ` set ?os"] by auto
    obtain g where g: "g \<notin> (\<lambda>a. or_empty (co_guid a)) ` set ?os"
      using ex_new_if_finite [OF infinite_UNIV_listI, of "(\<lambda>a. or_empty (co_guid a)) ` set ?os"] by auto
    have "Some g \<notin> co_guid ` set ?os"
    proof
      assume "Some g \<in> co_guid ` set ?os"
      then obtain a where "a \<in> set ?os" "co_guid a = Some g" by auto
      moreover from this have "or_empty (co_guid a) = g" by (simp add: or_empty_def)
      ultimately show False using g by blast
    qed
    then show thesis
      using that [of "no_draw\<lparr>dr_orderId := i, dr_guid := g\<rparr>"] i by (simp add: draw_of_other [OF False])
  qed
  have o: "orders_wf ?os" using wf by (simp add: ledger_wf_def)
  have "orders_wf (ob_orders (fst (ledger_step env date op s)))"
    using evolves_wf [OF order_step_evolves [OF o] o d] f by (simp add: ledger_step_def)
  moreover have "case co_guid b of None \<Rightarrow> co_clientOrderId b = None | Some g \<Rightarrow> g \<in> snd (ledger_step env date op s)"
    if b: "b \<in> set (ob_orders (fst (ledger_step env date op s)))" for b
    using wf b
  proof (cases rule: ledger_step_member)
    case (old a)
    then have "co_guid b = co_guid a" "co_clientOrderId b = co_clientOrderId a" by (simp_all add: order_succ_def)
    then show ?thesis using wf old(1) by (auto simp: ledger_wf_def ledger_step_def split: option.splits)
  next
    case new
    then show ?thesis by (simp add: ledger_step_def)
  qed
  ultimately show ?thesis by (simp add: ledger_wf_def)
qed (simp add: ledger_step_def wf)

lemma ledger_run_wf: "ledger_wf s \<Longrightarrow> ledger_wf (ledger_run env date ops s)"
  unfolding ledger_run_def by (induction ops arbitrary: s) (simp_all add: ledger_step_wf)

lemma ledger_step_used: "g \<in> snd s \<Longrightarrow> g \<in> snd (ledger_step env date op s)"
  by (simp add: ledger_step_def)

text \<open>
  What holds of every row with a used guid, and passes from a row to what it becomes, holds after every
  step, and after every run when it does not rest on the revision.
\<close>

lemma ledger_step_keeps:
  assumes "ledger_wf s" and "g \<in> snd s" and "\<And>a b. order_succ (\<not> snapshot_op op) a b \<Longrightarrow> P a \<Longrightarrow> P b"
    and "\<forall>a \<in> set (ob_orders (fst s)). co_guid a = Some g \<longrightarrow> P a"
  shows "\<forall>b \<in> set (ob_orders (fst (ledger_step env date op s))). co_guid b = Some g \<longrightarrow> P b"
proof (intro ballI impI)
  fix b assume b: "b \<in> set (ob_orders (fst (ledger_step env date op s)))" "co_guid b = Some g"
  from assms(1) b(1) show "P b"
  proof (cases rule: ledger_step_member)
    case (old a)
    then show ?thesis using assms(3,4) b(2) by (metis order_succ_def)
  next
    case new
    then show ?thesis using assms(2) b(2) by simp
  qed
qed

lemma ledger_run_keeps:
  assumes "ledger_wf s" and "g \<in> snd s" and "\<And>up a b. order_succ up a b \<Longrightarrow> P a \<Longrightarrow> P b"
    and "\<forall>a \<in> set (ob_orders (fst s)). co_guid a = Some g \<longrightarrow> P a"
  shows "\<forall>b \<in> set (ob_orders (fst (ledger_run env date ops s))). co_guid b = Some g \<longrightarrow> P b"
  using assms unfolding ledger_run_def
proof (induction ops arbitrary: s)
  case (Cons op ops)
  show ?case
    unfolding fold_Cons comp_apply
    by (rule Cons.IH [OF ledger_step_wf ledger_step_used _ ledger_step_keeps]) (use Cons.prems in blast)+
qed simp

section \<open>Edits take effect once per revision\<close>

definition commit_edit :: "order_env \<Rightarrow> edit \<Rightarrow> string \<times> int \<Rightarrow> ledger \<Rightarrow> bool \<times> ledger" where
  "commit_edit env e k s =
     (let db' = snd (edit_run env e (fst k) (snd k) (fst s)) in (db' \<noteq> fst s, (db', snd s)))"

definition revision_spent :: "string \<times> int \<Rightarrow> ledger \<Rightarrow> bool" where
  "revision_spent k s \<longleftrightarrow> fst k \<in> snd s \<and> (\<forall>a \<in> set (ob_orders (fst s)). co_guid a = Some (fst k) \<longrightarrow> snd k < co_revision a)"

lemma commit_is_step: "snd (commit_edit env e k s) = ledger_step env date (EditOrder e (fst k) (snd k)) s"
  by (simp add: commit_edit_def ledger_step_def fair_def Let_def)

text \<open>
  A snapshot that is applied to the order takes its revision from above \<open>snd k\<close> back to
  \<open>snd k\<close> or below.
\<close>

fun takes_back :: "string \<times> int \<Rightarrow> order_op \<Rightarrow> ledger \<Rightarrow> bool" where
  "takes_back k (ReportSnapshot now uuid sn) s =
     (os_guid sn = fst k \<and>
      (case (os_revision sn, find_guid (os_guid sn) (fst s)) of
         (Some n, Some a) \<Rightarrow> n \<le> snd k \<and> snd k < co_revision a \<and> \<not> snapshot_stale sn a \<and> \<not> snapshot_busy a
       | _ \<Rightarrow> False))"
| "takes_back k _ s = False"

lemma spent_snapshot:
  assumes wf: "ledger_wf s" and sp: "revision_spent k s" and tb: "\<not> takes_back k (ReportSnapshot now uuid sn) s"
  shows "revision_spent k (ledger_step env date (ReportSnapshot now uuid sn) s)"
proof -
  obtain x db' where eq: "apply_snapshot env now uuid sn (fst s) = (x, db')" by fastforce
  have o: "orders_wf (ob_orders (fst s))" using wf by (simp add: ledger_wf_def)
  have low: "snd k < co_revision b" if "b \<in> set (ob_orders (fst s))" "co_guid b = Some (fst k)" for b
    using sp that by (simp add: revision_spent_def)
  have rows: "\<forall>b \<in> set (ob_orders (write_order now (co_id a) f (fst s))). co_guid b = Some (fst k) \<longrightarrow> snd k < co_revision b"
    if a: "find_guid (os_guid sn) (fst s) = Some a" and f: "co_guid (f a) = co_guid a"
      "co_guid a = Some (fst k) \<Longrightarrow> snd k < co_revision (f a)" for a f
  proof (intro ballI impI)
    fix b assume b: "b \<in> set (ob_orders (write_order now (co_id a) f (fst s)))" "co_guid b = Some (fst k)"
    from b(1) [unfolded orders_write] show "snd k < co_revision b"
    proof (cases rule: update_whereE)
      case kept
      then show ?thesis using low b(2) by blast
    next
      case (hit c)
      then have "c = a" using wf_id [OF o] find_guidD [OF a] by blast
      then show ?thesis using f hit(3) b(2) by simp
    qed
  qed
  have "\<forall>b \<in> set (ob_orders db'). co_guid b = Some (fst k) \<longrightarrow> snd k < co_revision b"
    using eq
  proof (cases rule: snapshot_cases)
    case missing
    then show ?thesis using low by blast
  next
    case (noted a f)
    have "order_succ True a (f a)" using noted(2) by (simp add: marks_def)
    then show ?thesis unfolding noted(3)
      by (intro rows [OF noted(1)]) (use low find_guidD [OF noted(1)] in \<open>force simp: order_succ_def\<close>)+
  next
    case (applied a org t items)
    let ?n = "case os_revision sn of None \<Rightarrow> co_revision a + 1 | Some n \<Rightarrow> n"
    have "snd k < ?n" if g: "co_guid a = Some (fst k)"
    proof -
      have "snd k < co_revision a" "os_guid sn = fst k" using low find_guidD [OF applied(1)] g by auto
      then show ?thesis using tb applied(1,4,5) by (auto split: option.splits)
    qed
    then show ?thesis unfolding applied(3) by (intro rows [OF applied(1)]) (simp_all add: snapshot_applied_def)
  qed
  then show ?thesis using sp eq by (simp add: revision_spent_def ledger_step_def fair_def)
qed

lemma spent_step:
  assumes "ledger_wf s" and "revision_spent k s" and "\<not> takes_back k op s"
  shows "revision_spent k (ledger_step env date op s)"
proof (cases "snapshot_op op")
  case True
  then obtain now uuid sn where "op = ReportSnapshot now uuid sn" by (cases op) simp_all
  then show ?thesis using spent_snapshot assms by blast
next
  case False
  then show ?thesis using assms unfolding revision_spent_def
    by (intro conjI ledger_step_used ledger_step_keeps) (auto simp: order_succ_def)
qed

interpretation oc: rearmable_shot "commit_edit env" "ledger_step env date" ledger_wf revision_spent takes_back
  for env :: order_env and date :: "utext \<Rightarrow> millis option"
proof
  fix s :: ledger and k k' :: "string \<times> int" and e :: edit and op :: order_op
  assume wf: "ledger_wf s"
  then have o: "orders_wf (ob_orders (fst s))" by (simp add: ledger_wf_def)
  let ?db = "snd (edit_run env e (fst k) (snd k) (fst s))"
  have edits: "?db = fst s \<or> edited (fst k) (snd k) (ob_orders (fst s)) (ob_orders ?db)" by (rule edit_edited)
  show "revision_spent k (snd (commit_edit env e k s))" if "fst (commit_edit env e k s)"
  proof -
    have ed: "edited (fst k) (snd k) (ob_orders (fst s)) (ob_orders ?db)" using edits that by (auto simp: commit_edit_def Let_def)
    then obtain a where "a \<in> set (ob_orders (fst s))" "co_guid a = Some (fst k)" unfolding edited_def by blast
    then have "fst k \<in> snd s" using wf by (force simp: ledger_wf_def)
    then show ?thesis using edited_spends [OF ed o] by (auto simp: revision_spent_def commit_edit_def Let_def)
  qed
  show "\<not> fst (commit_edit env e k s)" if "revision_spent k s"
    using edits that by (auto simp: commit_edit_def Let_def revision_spent_def edited_def)
  show "revision_spent k (snd (commit_edit env e k' s))" if "revision_spent k s"
    unfolding commit_is_step [where date = date] by (rule spent_step [OF wf that]) simp
  show "revision_spent k (ledger_step env date op s)" if "revision_spent k s" and "\<not> takes_back k op s" using spent_step [OF wf that] .
  show "ledger_wf (snd (commit_edit env e k s))" unfolding commit_is_step [where date = date] by (rule ledger_step_wf [OF wf])
  show "ledger_wf (ledger_step env date op s)" using ledger_step_wf [OF wf] .
qed

section \<open>Late retries\<close>

text \<open>The mutation \<open>r\<close> with digest \<open>h\<close> is part of what the order holds.\<close>

definition committed :: "user_id \<Rightarrow> string \<Rightarrow> int \<Rightarrow> string \<Rightarrow> client_order \<Rightarrow> bool" where
  "committed u c r h a \<longleftrightarrow>
     (client_key a = (Some u, Some c) \<longrightarrow>
        r < committed_revision a \<or>
        r = committed_revision a \<and> (truthy (co_clientPayloadHash a) \<longrightarrow> co_clientPayloadHash a = Some h))"

lemma committed_succ: "order_succ up a b \<Longrightarrow> committed u c r h a \<Longrightarrow> committed u c r h b"
  unfolding committed_def order_succ_def client_key_def by auto

lemma settled_committed:
  "put_settled env r it body a = Some (Inr g) \<Longrightarrow> committed u c r (oe_hash env body) a \<and> g = or_empty (co_guid a)"
  by (auto simp: put_settled_def committed_def split: if_splits)

lemma find_client_key: "find_client u c db = Some a \<Longrightarrow> a \<in> set (ob_orders db) \<and> client_key a = (Some u, Some c)"
  using find_clientD [of u c db a] by (simp add: client_key_def)

lemma put_transaction_commits:
  assumes "put_transaction env lm now dw u c r it body db = (Inr g, db')" and wf: "orders_wf (ob_orders db)"
  shows "(\<forall>b \<in> set (ob_orders db'). committed u c r (oe_hash env body) b) \<and>
    (g = dr_guid dw \<or> (\<exists>a. find_client u c db = Some a \<and> g = or_empty (co_guid a)))"
  using assms(1)
proof (cases rule: put_cases)
  case (settled a)
  have a: "a \<in> set (ob_orders db)" "client_key a = (Some u, Some c)" using find_client_key [OF settled(1)] by simp_all
  have s: "committed u c r (oe_hash env body) a" "g = or_empty (co_guid a)" using settled_committed [OF settled(2)] by simp_all
  have "committed u c r (oe_hash env body) b" if "b \<in> set (ob_orders db')" for b
    using wf_client [OF wf _ a(1), of b] a(2) s(1) that settled(3) by (cases "client_key b = client_key a") (auto simp: committed_def client_key_def)
  then show ?thesis using s(2) settled(1) by blast
next
  case (escalated a tk)
  have a: "a \<in> set (ob_orders db)" "client_key a = (Some u, Some c)" using find_client_key [OF escalated(1)] by simp_all
  have h: "truthy (co_clientPayloadHash a) \<longrightarrow> co_clientPayloadHash a = Some (oe_hash env body)"
    using escalated(2,3) by (auto simp: put_settled_def split: if_splits)
  have "committed u c r (oe_hash env body) b" if "b \<in> set (ob_orders db')" for b
    using that unfolding escalated(5)
  proof (cases rule: update_whereE)
    case kept
    then have "client_key b \<noteq> (Some u, Some c)" using wf_client [OF wf kept(1) a(1)] a(2) by (auto simp: client_key_def)
    then show ?thesis by (simp add: committed_def)
  next
    case (hit d)
    then have "d = a" using wf_id [OF wf _ a(1)] by blast
    moreover have "committed_revision b = committed_revision d" unfolding hit(3) by (rule committed_revision_cols) simp
    ultimately show ?thesis using escalated(2) h hit(3) by (simp add: committed_def)
  qed
  then show ?thesis using escalated(1,4) by blast
next
  case (created gone n)
  have "committed u c r (oe_hash env body) b" if b: "b \<in> set (ob_orders db')" for b
  proof (cases "b = n")
    case True
    then show ?thesis using created committed_Some [OF created(7)] by (simp add: committed_def)
  next
    case False
    then obtain d where "d \<in> set (ob_orders db)" "b = detach_package gone d" using b created(3) by auto
    then have "client_key b \<noteq> (Some u, Some c)" using find_client_None [OF created(1)] by (force simp: client_key_def)
    then show ?thesis by (simp add: committed_def)
  qed
  then show ?thesis using created(2) by simp
next
  case (replaced gone a q req tk content)
  have a: "a \<in> set (ob_orders db)" "client_key a = (Some u, Some c)" using find_client_key [OF replaced(1)] by simp_all
  have "committed u c r (oe_hash env body) b" if "b \<in> set (ob_orders db')" for b
    using that unfolding replaced(4)
  proof (cases rule: update_whereE)
    case kept
    then obtain d where d: "d \<in> set (ob_orders db)" "b = detach_package gone d" "co_id d \<noteq> co_id a" by auto
    then have "client_key b \<noteq> (Some u, Some c)" using wf_client [OF wf d(1) a(1)] a(2) by (auto simp: client_key_def)
    then show ?thesis by (simp add: committed_def)
  next
    case (hit d)
    have "committed_revision b = r" by (rule committed_Some) (simp add: hit(3))
    then show ?thesis using hit(3) by (simp add: committed_def)
  qed
  then show ?thesis using replaced(1,3) by auto
qed simp_all

lemma put_commits:
  assumes "putClientOrderByClientId env lr now dw u c r it body db = (Inr g, db')" and wf: "orders_wf (ob_orders db)"
  shows "(\<forall>b \<in> set (ob_orders db'). committed u c r (oe_hash env body) b) \<and>
    (g = dr_guid dw \<or> (\<exists>a. find_client u c db = Some a \<and> g = or_empty (co_guid a)))"
proof (cases "Option.bind (find_client u c db) (put_settled env r it body)")
  case None
  then obtain lm where "put_transaction env lm now dw u c r it body db = (Inr g, db')"
    using assms(1) by (auto simp: putClientOrderByClientId_def split: sum.splits)
  then show ?thesis using wf by (rule put_transaction_commits)
next
  case (Some y)
  then obtain a where a: "find_client u c db = Some a" "put_settled env r it body a = Some (Inr g)" "db' = db"
    using assms(1) by (auto simp: putClientOrderByClientId_def bind_eq_Some_conv)
  then have "put_transaction env lm now dw u c r it body db = (Inr g, db')" for lm by (simp add: put_transaction_def)
  then show ?thesis using wf by (rule put_transaction_commits)
qed

text \<open>A mutation that is already part of what the order holds changes nothing.\<close>

lemma committed_put_same:
  assumes "find_client u c db = Some a" and "committed u c r (oe_hash env body) a"
    and "r' < r \<or> r' = r \<and> oe_hash env body' = oe_hash env body \<and> (it' = SAVE \<or> isOrderQueued a \<or> co_submitRequestedAt a \<noteq> None)"
  shows "putClientOrderByClientId env lr now dw u c r' it' body' db = (Inr (or_empty (co_guid a)), db)"
proof -
  have "put_settled env r' it' body' a = Some (Inr (or_empty (co_guid a)))"
    using assms(2,3) find_client_key [OF assms(1)] by (auto simp: put_settled_def committed_def)
  then show ?thesis using assms(1) by (simp add: putClientOrderByClientId_def)
qed

lemma put_retry_run:
  assumes wf: "ledger_wf s" and f: "fair (PutOrder lr now dw u c r it body) s"
    and put: "fst (putClientOrderByClientId env lr now dw u c r it body (fst s)) = Inr g"
    and a: "a \<in> set (ob_orders (fst (ledger_run env date ops (ledger_step env date (PutOrder lr now dw u c r it body) s))))"
      "co_guid a = Some g"
  shows "committed u c r (oe_hash env body) a"
proof -
  let ?s = "ledger_step env date (PutOrder lr now dw u c r it body) s"
  have o: "orders_wf (ob_orders (fst s))" using wf by (simp add: ledger_wf_def)
  obtain db' where p: "putClientOrderByClientId env lr now dw u c r it body (fst s) = (Inr g, db')" using put by (metis prod.collapse)
  have s: "?s = (db', insert (dr_guid dw) (snd s))" using f p by (simp add: ledger_step_def)
  have "g \<in> insert (dr_guid dw) (snd s)"
  proof (cases "g = dr_guid dw")
    case False
    then obtain d where d: "find_client u c (fst s) = Some d" "g = or_empty (co_guid d)" using put_commits [OF p o] by blast
    then have "d \<in> set (ob_orders (fst s))" "co_clientOrderId d = Some c" using find_clientD by blast+
    then show ?thesis using wf d(2) by (force simp: ledger_wf_def or_empty_def split: option.splits)
  qed simp
  then have used: "g \<in> snd ?s" by (simp add: s)
  have start: "\<forall>b \<in> set (ob_orders (fst ?s)). co_guid b = Some g \<longrightarrow> committed u c r (oe_hash env body) b"
    using put_commits [OF p o] by (simp add: s)
  have "\<forall>b \<in> set (ob_orders (fst (ledger_run env date ops ?s))). co_guid b = Some g \<longrightarrow> committed u c r (oe_hash env body) b"
    by (rule ledger_run_keeps [OF ledger_step_wf [OF wf] used _ start]) (rule committed_succ)
  then show ?thesis using a by blast
qed

section \<open>The pair of states\<close>

text \<open>
  A draft is not with 1C, a queued order waits for the worker, a requested cancellation belongs to a
  cancelled order.  A snapshot of 1C may carry any pair of states, which is stored as it is.
\<close>

definition states_fit :: "order_status \<Rightarrow> sync_state \<Rightarrow> bool" where
  "states_fit status sync \<longleftrightarrow>
     (sync = SY_DRAFT \<longrightarrow> status = ST_DRAFT) \<and>
     (sync = SY_QUEUED \<longrightarrow> status = ST_QUEUED) \<and>
     (sync = SY_CANCEL_REQUESTED \<longrightarrow> status = ST_CANCELLED)"

definition states_typed :: "client_order \<Rightarrow> bool" where
  "states_typed a \<longleftrightarrow> states_fit (co_status a) (co_syncState a)"

fun misreports :: "string option \<Rightarrow> order_op \<Rightarrow> bool" where
  "misreports g (ReportSnapshot now uuid s) =
     (g = Some (os_guid s) \<and> \<not> states_fit (os_status s) (case os_syncState s of None \<Rightarrow> SY_SYNCED | Some x \<Rightarrow> x))"
| "misreports g _ = False"

definition typed_at :: "string option \<Rightarrow> order_db \<Rightarrow> bool" where
  "typed_at g db \<longleftrightarrow> (\<forall>a \<in> set (ob_orders db). co_guid a = g \<longrightarrow> states_typed a)"

lemmas typed_defs = states_typed_def states_fit_def

lemma typed_update:
  assumes "\<forall>a \<in> set os. co_guid a = g \<longrightarrow> states_typed a"
    and "\<And>a. a \<in> set os \<Longrightarrow> p a \<Longrightarrow> co_guid (f a) = g \<Longrightarrow> co_guid a = g"
    and "\<And>a. a \<in> set os \<Longrightarrow> p a \<Longrightarrow> co_guid a = g \<Longrightarrow> states_typed a \<Longrightarrow> states_typed (f a)"
  shows "\<forall>a \<in> set (update_where p f os). co_guid a = g \<longrightarrow> states_typed a"
  using assms by (auto simp: ball_update_where)

lemma typed_orders: "ob_orders db' = ob_orders db \<Longrightarrow> typed_at g db \<Longrightarrow> typed_at g db'"
  by (simp add: typed_at_def)

lemma typed_pair [simp]:
  "states_typed (r\<lparr>co_updatedAt := t\<rparr>) = states_typed r" "states_typed (detach_package gone r) = states_typed r"
  by (simp_all add: typed_defs)

lemma typed_detached: "typed_at g db \<Longrightarrow> ob_orders db1 = map (detach_package gone) (ob_orders db) \<Longrightarrow> typed_at g db1"
  by (simp add: typed_at_def)

lemma typed_at_update:
  assumes "ob_orders db' = update_where p f os" and "\<forall>a \<in> set os. co_guid a = g \<longrightarrow> states_typed a"
    and "\<And>a. co_guid (f a) = co_guid a" and "\<And>a. a \<in> set os \<Longrightarrow> p a \<Longrightarrow> states_typed (f a)"
  shows "typed_at g db'"
  unfolding typed_at_def assms(1) by (rule typed_update) (use assms in auto)

lemma submit_typed: "typed_at g db \<Longrightarrow> typed_at g (snd (submitClientOrder now guid u v db))"
  by (auto simp: submitClientOrder_def Let_def typed_at_def order_simps ball_update_where typed_defs split: assert_splits)

lemma unqueue_tx_typed: "typed_at g db \<Longrightarrow> typed_at g (unqueueClientOrderInTransaction now a u db)"
  by (rule typed_at_update [OF unqueue_tx_orders]) (simp_all add: typed_at_def typed_defs)

lemma unqueue_typed: "typed_at g db \<Longrightarrow> typed_at g (snd (unqueueClientOrder now guid u v db))"
  by (auto simp: unqueueClientOrder_def unqueue_tx_typed split: assert_splits)

lemma retry_typed: "typed_at g db \<Longrightarrow> typed_at g (snd (retryClientOrderExport now guid u v db))"
  by (auto simp: retryClientOrderExport_def typed_at_def order_simps ball_update_where typed_defs split: assert_splits)

lemma restore_typed: "typed_at g db \<Longrightarrow> typed_at g (snd (restoreClientOrder now guid u v db))"
  by (auto simp: restoreClientOrder_def typed_at_def order_simps ball_update_where typed_defs split: assert_splits)

lemma cancel_typed: "typed_at g db \<Longrightarrow> typed_at g (snd (cancelClientOrder now guid u v reason db))"
proof (cases "cancelClientOrder now guid u v reason db")
  case (Pair x db')
  assume t: "typed_at g db"
  from Pair show ?thesis
  proof (cases rule: cancel_cases)
    case (3 a)
    have "typed_at g db'" by (rule typed_at_update [OF 3(4)]) (use t in \<open>auto simp: typed_at_def typed_defs cancelled_def\<close>)
    then show ?thesis using Pair by simp
  qed (use Pair t unqueue_tx_typed in simp_all)
qed

lemma update_typed: "typed_at g db \<Longrightarrow> typed_at g (snd (updateClientOrder env lr now dw guid u v body db))"
proof (cases "updateClientOrder env lr now dw guid u v body db")
  case (Pair x db')
  assume t: "typed_at g db"
  from Pair show ?thesis
  proof (cases rule: update_cases)
    case (written a lm cx content db1 gone tk)
    have "typed_at g db'" by (rule typed_at_update [OF written(7)]) (use t in \<open>auto simp: typed_at_def typed_defs\<close>)
    then show ?thesis using Pair by simp
  qed (use Pair t in simp)
qed

lemma edit_typed: "typed_at g db \<Longrightarrow> typed_at g (snd (edit_run env e guid v db))"
  by (cases e) (simp_all add: submit_typed unqueue_typed retry_typed restore_typed cancel_typed update_typed)

lemma create_typed:
  assumes "typed_at g db"
  shows "typed_at g (snd (createClientOrder env lr now dw u body db))"
  by (cases rule: create_order_cases [of env lr now dw u body db]) (use assms in \<open>auto simp: typed_at_def typed_defs\<close>)

lemma put_tx_typed:
  assumes t: "typed_at g db"
  shows "typed_at g (snd (put_transaction env lm now dw u c cr it body db))"
proof (cases "put_transaction env lm now dw u c cr it body db")
  case (Pair x db')
  then have "typed_at g db'"
  proof (cases rule: put_cases)
    case (escalated a tk)
    show ?thesis by (rule typed_at_update [OF escalated(5)]) (use t in \<open>auto simp: typed_at_def typed_defs\<close>)
  next
    case (created gone n)
    show ?thesis using t created(9,10) unfolding typed_at_def created(3) by (auto simp: typed_defs split: if_splits)
  next
    case (replaced gone a q req tk content)
    show ?thesis by (rule typed_at_update [OF replaced(4)]) (use t in \<open>auto simp: typed_at_def typed_defs\<close>)
  qed (use t in simp_all)
  then show ?thesis using Pair by simp
qed

lemma put_typed: "typed_at g db \<Longrightarrow> typed_at g (snd (putClientOrderByClientId env lr now dw u c cr it body db))"
  by (auto simp: putClientOrderByClientId_def put_tx_typed split: option.splits sum.splits)

lemma copy_typed: "typed_at g db \<Longrightarrow> typed_at g (snd (copyStoredClientOrder now dw guid u db))"
  by (auto simp: copyStoredClientOrder_def Let_def order_simps typed_at_def typed_defs split: option.splits)

lemma delete_typed: "typed_at g db \<Longrightarrow> typed_at g (snd (deleteDraftClientOrder guid u db))"
  using delete_orders [of guid u db] by (auto simp: typed_at_def)

text \<open>Writes to the row that carries the identifier of a stored row.\<close>

lemma typed_write_row:
  assumes t: "typed_at g db" and wf: "orders_wf (ob_orders db)" and a: "a \<in> set (ob_orders db)" and i: "i = co_id a"
    and k: "co_guid (f a) = co_guid a" and f: "co_guid a = g \<Longrightarrow> states_typed a \<Longrightarrow> states_typed (f a)"
  shows "typed_at g (write_order now i f db)"
  unfolding typed_at_def orders_write
proof (rule typed_update)
  show "\<forall>b \<in> set (ob_orders db). co_guid b = g \<longrightarrow> states_typed b" using t by (simp add: typed_at_def)
  fix b assume "b \<in> set (ob_orders db)" "co_id b = i"
  then have [simp]: "b = a" using wf_id [OF wf _ a] i by blast
  show "co_guid b = g" if "co_guid ((f b)\<lparr>co_updatedAt := now\<rparr>) = g" using that k by simp
  show "states_typed ((f b)\<lparr>co_updatedAt := now\<rparr>)" if "co_guid b = g" "states_typed b" using that f by simp
qed

lemma push_typed:
  assumes t: "typed_at g db" and wf: "orders_wf (ob_orders db)"
  shows "typed_at g (push_order date now w q db)"
proof (cases rule: push_cases [of date now w q db])
  case (2 j)
  have "typed_at g (snd (markOrderExportSuccess date now q j db))"
  proof (cases "assertSavedOrderDidNotLoseItems q j = None \<and> List.find (still_exporting (qo_row q)) (ob_orders db) \<noteq> None")
    case True
    then obtain current where c: "List.find (still_exporting (qo_row q)) (ob_orders db) = Some current" by auto
    have db': "ob_orders (snd (markOrderExportSuccess date now q j db)) = ob_orders (write_order now (co_id (qo_row q))
        (exported now (isCancelExportOrder (qo_row q)) (extractSavedOrder date j) j (co_revision current)) db)"
      using True c by (simp add: markOrderExportSuccess_def Let_def orders_event)
    show ?thesis
      by (rule typed_orders [OF db' typed_write_row [OF t wf still_findD(1) [OF c] still_findD(2) [OF c, symmetric]]])
        (simp_all add: exported_def typed_defs)
  qed (use t in \<open>auto simp: markOrderExportSuccess_def Let_def split: option.splits\<close>)
  then show ?thesis using 2 by simp
next
  case (3 e)
  have "typed_at g (markOrderExportFailure now q e db)"
    using mark_failure_orders [of now q e db]
  proof (elim disjE exE conjE)
    fix current f
    assume c: "List.find (still_exporting (qo_row q)) (ob_orders db) = Some current"
      and db': "ob_orders (markOrderExportFailure now q e db) = ob_orders (write_order now (co_id (qo_row q)) f db)"
      and f: "f = (\<lambda>r. r\<lparr>co_syncState := (if is_validation_error e then SY_ERROR
                  else if isCancelExportOrder (qo_row q) then SY_CANCEL_REQUESTED else SY_QUEUED),
                co_exportAttempts := co_exportAttempts (qo_row q) + 1,
                co_lastExportError := Some (Failed e), co_sourceUpdatedAt := Some now,
                co_onec := (co_onec r)\<lparr>on_last1cError := Some (Failed e)\<rparr>\<rparr>)"
    show ?thesis
      by (rule typed_orders [OF db' typed_write_row [OF t wf still_findD(1) [OF c] still_findD(2) [OF c, symmetric]]])
        (use still_findD(3) [OF c] in \<open>auto simp: f still_exporting_def typed_defs\<close>)
  qed (use t in simp)
  then show ?thesis using 3 by simp
qed (use t in simp)

lemma ack_typed: "typed_at g db \<Longrightarrow> typed_at g (snd (handleOrderAck now guid b db))"
  by (auto simp: handleOrderAck_def typed_at_def order_simps ball_update_where typed_defs ack_failed_def ack_saved_def
      split: option.splits)

lemma status_typed: "typed_at g db \<Longrightarrow> typed_at g (apply_status col now s db)"
  by (auto simp: apply_status_def typed_at_def order_simps ball_update_where typed_defs status_applied_def Let_def
      split: option.splits)

lemma reconcile_typed: "typed_at g db \<Longrightarrow> typed_at g (reconcilePostedLiveOrders now ids db)"
  by (simp add: reconcilePostedLiveOrders_def typed_at_def ball_update_where typed_defs)

lemma snapshot_typed:
  assumes t: "typed_at g db" and wf: "orders_wf (ob_orders db)" and p: "\<not> misreports g (ReportSnapshot now uuid s)"
  shows "typed_at g (snd (apply_snapshot env now uuid s db))"
proof (cases "apply_snapshot env now uuid s db")
  case (Pair x db')
  then have "typed_at g db'"
  proof (cases rule: snapshot_cases)
    case (noted a f)
    have "states_typed (f a)" if "states_typed a"
      using that noted(2) unfolding marks_def typed_defs by (metis empty_iff insert_iff sync_state.distinct)
    then show ?thesis
      by (intro typed_orders [OF noted(3) typed_write_row [OF t wf find_guidD [OF noted(1), THEN conjunct1] refl]])
        (use noted(2) in \<open>simp_all add: marks_def order_succ_def\<close>)
  next
    case (applied a org n items)
    show ?thesis
      by (rule typed_orders [OF applied(3) typed_write_row [OF t wf find_guidD [OF applied(1), THEN conjunct1] refl]])
        (use p find_guidD [OF applied(1)] in \<open>simp_all add: snapshot_applied_def states_typed_def\<close>)
  qed (use t in simp)
  then show ?thesis using Pair by simp
qed

lemma order_step_typed:
  assumes "typed_at g db" and "orders_wf (ob_orders db)" and "\<not> misreports g op"
  shows "typed_at g (order_step env date op db)"
  using assms
  by (cases op) (simp_all only: order_step.simps create_typed put_typed put_tx_typed copy_typed edit_typed delete_typed push_typed ack_typed
      status_typed snapshot_typed reconcile_typed not_False_eq_True)

lemma ledger_run_typed:
  "ledger_wf s \<Longrightarrow> typed_at g (fst s) \<Longrightarrow> \<forall>op \<in> set ops. \<not> misreports g op \<Longrightarrow> typed_at g (fst (ledger_run env date ops s))"
  unfolding ledger_run_def
proof (induction ops arbitrary: s)
  case (Cons op ops)
  have "typed_at g (fst (ledger_step env date op s))"
    using Cons.prems order_step_typed by (simp add: ledger_step_def ledger_wf_def)
  then show ?case using Cons ledger_step_wf by simp
qed simp

lemma typed_queued: "states_typed a \<Longrightarrow> isOrderQueued a \<and> co_source a = MANAGER_APP \<and> co_guid a \<noteq> None \<longleftrightarrow> exportable a"
  by (auto simp: typed_defs isOrderQueued_def exportable_def)

end
