(* ===== verification/Order_Safety.thy ===== *)
theory Order_Safety
  imports Order_Steps
begin

text \<open>
  The properties of whole runs of the order service, on a small database with one order as the
  concrete case.
\<close>

section \<open>A concrete order\<close>

definition sample_item :: order_item where
  "sample_item =
     \<lparr>it_lineGuid = ''l1'', it_productId = ''p1'', it_packageId = None, it_unitId = None, it_priceTypeId = None,
      it_quantity = 3, it_quantityBase = Some 3, it_basePrice = Some 100, it_price = 100, it_isManualPrice = False,
      it_manualPrice = None, it_priceSource = None, it_isCancelled = False, it_cancelReasonGuid = None,
      it_cancelReasonName = None, it_cancelReason = None, it_cancelledAmount = None, it_discountPercent = None,
      it_appliedDiscountPercent = None, it_lineAmount = Some 300, it_comment = None, it_sourceUpdatedAt = Some 1000\<rparr>"

definition sample_content :: order_content where
  "sample_content =
     \<lparr>ct_organizationId = Some ''o1'', ct_counterpartyId = ''c1'', ct_agreementId = Some ''a1'', ct_contractId = Some ''k1'',
      ct_warehouseId = Some ''w1'', ct_deliveryAddressId = Some ''d1'', ct_priceTypeId = None, ct_comment = None,
      ct_deliveryDate = Some 90000000, ct_paymentForm = None, ct_deliveryMethod = None, ct_invoiceRequested = False,
      ct_currency = None, ct_totalAmount = Some 300, ct_generalDiscountPercent = None, ct_generalDiscountAmount = Some 0,
      ct_items = [sample_item]\<rparr>"

definition sample_order :: client_order where
  "sample_order =
     \<lparr>co_id = ''i1'', co_guid = Some ''g1'', co_clientOrderId = Some ''x1'', co_clientRevision = Some 3,
      co_clientPayloadHash = Some ''h'', co_submitRequestedAt = None, co_source = MANAGER_APP, co_revision = 4,
      co_syncState = SY_DRAFT, co_status = ST_DRAFT, co_createdByUserId = Some 7, co_trackingRoutePointId = None,
      co_trackingSnapshot = None, co_content = sample_content, co_queuedAt = None, co_sentTo1cAt = None,
      co_exportAttempts = 0, co_lastExportError = None, co_cancelRequestedAt = None, co_cancelReason = None,
      co_onec = \<lparr>on_number1c = None, on_date1c = None, on_isPostedIn1c = False, on_postedAt1c = None,
        on_hasRealization = False, on_realizationDetectedAt = None, on_last1cError = None, on_last1cSnapshot = None,
        on_lastStatusSyncAt = None, on_lastSyncedAt = None\<rparr>,
      co_sourceUpdatedAt = Some 1000, co_createdAt = 500, co_updatedAt = 1000\<rparr>"

definition sample_references :: references where
  "sample_references =
     \<lparr>rf_organizations = [\<lparr>og_id = ''o1'', og_guid = ''og'', og_name = [79], og_code = None, og_isActive = True, og_sourceUpdatedAt = None\<rparr>],
      rf_counterparties = [\<lparr>pa_id = ''c1'', pa_guid = ''cg'', pa_name = [67], pa_fullName = None, pa_inn = None, pa_kpp = None,
        pa_phone = None, pa_email = None, pa_isActive = True, pa_sourceUpdatedAt = None\<rparr>],
      rf_warehouses = [\<lparr>wh_id = ''w1'', wh_guid = ''wg'', wh_name = [87], wh_code = None, wh_address = None, wh_isDefault = True,
        wh_isPickup = False, wh_isActive = True, wh_sourceUpdatedAt = None\<rparr>],
      rf_priceTypes = [\<lparr>py_id = ''t1'', py_guid = ''tg'', py_name = [84], py_code = None, py_isActive = True, py_sourceUpdatedAt = None\<rparr>],
      rf_contracts = [\<lparr>cn_id = ''k1'', cn_guid = ''kg'', cn_counterpartyId = ''c1'', cn_organizationId = Some ''o1'', cn_name = None,
        cn_number = [49], cn_date = 0, cn_validFrom = None, cn_validTo = None, cn_currency = None, cn_status = None,
        cn_purpose = None, cn_isActive = True, cn_sourceUpdatedAt = None\<rparr>],
      rf_agreements = [\<lparr>ag_id = ''a1'', ag_guid = ''ag'', ag_name = [65], ag_number = None, ag_date = None,
        ag_counterpartyId = Some ''c1'', ag_organizationId = Some ''o1'', ag_contractId = Some ''k1'', ag_warehouseId = Some ''w1'',
        ag_priceTypeId = Some ''t1'', ag_currency = None, ag_status = None, ag_isActive = True, ag_sourceUpdatedAt = None\<rparr>],
      rf_addresses = [\<lparr>ad_id = ''d1'', ad_guid = Some ''dg'', ad_counterpartyId = ''c1'', ad_name = None, ad_fullAddress = [65],
        ad_isDefault = True, ad_isActive = True, ad_sourceUpdatedAt = None\<rparr>],
      rf_units = [],
      rf_products = [\<lparr>pr_id = ''p1'', pr_guid = ''pg'', pr_name = [80], pr_code = None, pr_article = None, pr_sku = None,
        pr_isWeight = False, pr_isActive = True, pr_baseUnitId = None, pr_sourceUpdatedAt = None\<rparr>],
      rf_packages = [],
      rf_prices = [\<lparr>pc_id = ''r1'', pc_productId = ''p1'', pc_priceTypeId = Some ''t1'', pc_price = 100, pc_currency = None,
        pc_startDate = None, pc_endDate = None, pc_minQty = None, pc_isActive = True, pc_sourceUpdatedAt = None, pc_createdAt = 0\<rparr>],
      rf_stock = [], rf_next = 0\<rparr>"

definition sample_db :: order_db where
  "sample_db =
     \<lparr>ob_orders = [sample_order], ob_events = [], ob_preferences = [], ob_remembered = [], ob_routes = [], ob_points = [],
      ob_references = sample_references, ob_staff = []\<rparr>"

definition sample_env :: order_env where
  "sample_env =
     \<lparr>oe_dec = id, oe_num = id, oe_col = (\<lambda>_. id), oe_clock = \<lparr>ck_startOfDay = (\<lambda>t. t), ck_endOfDay = (\<lambda>t. t + 86399999),
        ck_nextDay = (\<lambda>t. t + 86400000)\<rparr>,
      oe_host = (\<lambda>_. None), oe_gen = (\<lambda>n. replicate n CHR ''x''), oe_hash = (\<lambda>b. ''h'')\<rparr>"

definition sample_draw :: order_draw where
  "sample_draw = \<lparr>dr_orderId = ''i2'', dr_guid = ''g2'', dr_line = (\<lambda>n. replicate (Suc n) CHR ''u'')\<rparr>"

definition sample_ledger :: ledger where
  "sample_ledger = (sample_db, {''g1''})"

definition sample_body :: order_body where
  "sample_body =
     \<lparr>bd_organizationGuid = ''og'', bd_counterpartyGuid = ''cg'', bd_agreementGuid = None, bd_contractGuid = None,
      bd_warehouseGuid = None, bd_deliveryAddressGuid = None, bd_priceTypeGuid = Some ''tg'', bd_deliveryDate = None,
      bd_paymentForm = None, bd_deliveryMethod = None, bd_invoiceRequested = False, bd_comment = None, bd_saveReason = MANUAL,
      bd_generalDiscountPercent = Some 10,
      bd_items = [\<lparr>ib_lineGuid = None, ib_productGuid = ''pg'', ib_packageGuid = None, ib_priceTypeGuid = None, ib_quantity = 2,
        ib_basePrice = None, ib_manualPrice = None, ib_discountPercent = None, ib_comment = None, ib_isCancelled = None,
        ib_cancelReasonGuid = None, ib_cancelReasonName = None, ib_cancelReason = None, ib_cancelledAmount = None\<rparr>]\<rparr>"

lemmas sample_defs = sample_item_def sample_content_def sample_order_def sample_references_def sample_db_def sample_env_def
  sample_draw_def sample_ledger_def sample_body_def

text \<open>1C does not answer, so that the stored references count.\<close>

definition sample_reads :: live_reads where
  "sample_reads =
     \<lparr>lr_organization = Inl OnecFault, lr_counterparty = Inl OnecFault, lr_agreement = Inl OnecFault, lr_contract = Inl OnecFault,
      lr_warehouse = Inl OnecFault, lr_deliveryAddress = Inl OnecFault, lr_priceType = (\<lambda>_. Inl OnecFault), lr_products = Inl OnecFault\<rparr>"

lemma sample_cols [simp]:
  "ob_orders sample_db = [sample_order]" "ob_references sample_db = sample_references"
  "co_id sample_order = ''i1''" "co_guid sample_order = Some ''g1''" "co_clientOrderId sample_order = Some ''x1''"
  "co_createdByUserId sample_order = Some 7" "co_source sample_order = MANAGER_APP" "co_revision sample_order = 4"
  "co_status sample_order = ST_DRAFT" "co_syncState sample_order = SY_DRAFT" "co_content sample_order = sample_content"
  "co_clientRevision sample_order = Some 3" "co_submitRequestedAt sample_order = None"
  "co_clientPayloadHash sample_order = Some ''h''" "on_hasRealization (co_onec sample_order) = False"
  by (simp_all add: sample_db_def sample_order_def)

lemma sample_ledger_wf: "ledger_wf sample_ledger"
  by (simp add: ledger_wf_def orders_wf_def sample_defs)

lemmas load_defs = loadLiveOrderMaterialization_def bind_sum_def when_given_def loadLiveReferenceWithCache_def
  findCachedOrganization_def findCachedCounterparty_def findCachedContract_def findCachedWarehouse_def findCachedPriceType_def
  loadLiveDeliveryAddressForOrderMaterialization_def findCachedDeliveryAddress_def loadLiveProductsForOrderMaterialization_def
  List.map_filter_def

definition sample_loaded :: materialization where
  "sample_loaded =
     \<lparr>lm_organization = Some \<lparr>lo_guid = ''og'', lo_name = [79], lo_code = None, lo_isActive = True, lo_isSelectable = None\<rparr>,
      lm_counterparty = Some \<lparr>lc_guid = ''cg'', lc_name = [67], lc_fullName = None, lc_inn = None, lc_kpp = None,
        lc_phone = None, lc_email = None, lc_isActive = True\<rparr>,
      lm_agreement = None, lm_contract = None, lm_warehouse = None, lm_deliveryAddress = None,
      lm_explicitPriceTypes = [\<lparr>lt_guid = ''tg'', lt_name = [84], lt_code = None, lt_isActive = Some True\<rparr>],
      lm_products = [], lm_productsSource = LOCAL_FALLBACK\<rparr>"

lemma sample_loads: "loadLiveOrderMaterialization sample_reads sample_body sample_references = Inr sample_loaded"
  by (simp add: sample_defs sample_reads_def sample_loaded_def load_defs)

definition sample_stored :: references where
  "sample_stored = sample_references\<lparr>
     rf_organizations := map (\<lambda>r. r\<lparr>og_sourceUpdatedAt := Some 2000\<rparr>) (rf_organizations sample_references),
     rf_counterparties := map (\<lambda>r. r\<lparr>pa_sourceUpdatedAt := Some 2000\<rparr>) (rf_counterparties sample_references),
     rf_priceTypes := map (\<lambda>r. r\<lparr>py_sourceUpdatedAt := Some 2000\<rparr>) (rf_priceTypes sample_references)\<rparr>"

lemma sample_materializes:
  "materializeLiveOrderReferences (oe_col sample_env) (oe_clock sample_env) (oe_host sample_env) (oe_gen sample_env) 2000 2000
     sample_loaded sample_body sample_references = Inr sample_stored"
  by (simp add: sample_defs sample_loaded_def sample_stored_def materializeLiveOrderReferences_def upsertLiveOrganization_def
      upsertLiveCounterparty_def upsertLivePriceType_def Let_def upsertLiveWarehouse_def upsertLiveContract_def
      upsertLiveAgreement_def upsertLiveDeliveryAddress_def upsert_row_def safeLiveName_def update_where_def u_trim_def
      u_space_def List.map_filter_def live_price_of_def)

definition sample_context :: order_context where
  "sample_context =
     \<lparr>cx_organization = hd (rf_organizations sample_stored), cx_counterparty = hd (rf_counterparties sample_stored),
      cx_agreement = None, cx_contract = None, cx_warehouse = None, cx_deliveryAddress = None,
      cx_priceType = Some (hd (rf_priceTypes sample_stored))\<rparr>"

lemma sample_resolves: "resolveManagerOrderContext (oe_clock sample_env) 2000 sample_body sample_stored = Inr sample_context"
  by (simp add: sample_defs sample_stored_def sample_context_def resolveManagerOrderContext_def bind_sum_def load_given_def when_given_def
      loadOrganizationByGuid_def loadCounterpartyByGuid_def loadPriceTypeByGuid_def load_active_def context_mismatch_def nullish_def)

definition sample_prepared :: prepared where
  "sample_prepared =
     \<lparr>pp_items = [sample_item\<lparr>it_lineGuid := ''u'', it_priceTypeId := Some ''t1'', it_quantity := 2, it_quantityBase := Some 2,
        it_price := 90, it_priceSource := Some (latin ''product-prices:'' @ [84]), it_appliedDiscountPercent := Some 10,
        it_lineAmount := Some 180, it_sourceUpdatedAt := Some 2000\<rparr>],
      pp_totalAmount = 180, pp_generalDiscountAmount = 20\<rparr>"

text \<open>Rounding matters for the line only at the numbers it computes.\<close>

lemma sample_prepares_with:
  assumes "dec 2 = 2" "dec 20 = 20" "dec 90 = 90" "dec (9 / 10) = 9 / 10" "dec 10 = 10" "dec 180 = 180" "num 100 = 100" "num 2 = 2"
  shows "prepareOrderItems dec num (dr_line sample_draw) 2000 sample_body sample_context sample_stored = Inr sample_prepared"
  by (simp add: sample_defs sample_stored_def sample_context_def sample_prepared_def prepareOrderItems_def prepare_line_def Let_def
      product_price_def best_price_def price_applies_def price_line_def nullish_def u_source_def ensureLineGuid_def normalizeLineGuid_def
      or_empty_def js_trim_def non_empty_def general_applies_def assms)

lemma sample_prepares:
  "prepareOrderItems (oe_dec sample_env) (oe_num sample_env) (dr_line sample_draw) 2000 sample_body sample_context sample_stored = Inr sample_prepared"
  by (rule sample_prepares_with) (simp_all add: sample_env_def)

lemma sample_composes:
  assumes "ob_references db = sample_references"
  shows "compose_order sample_env 2000 sample_draw sample_loaded sample_body db =
     Inr (sample_context, body_content (oe_clock sample_env) 2000 sample_body sample_context sample_prepared,
          db\<lparr>ob_references := sample_stored\<rparr>)"
proof -
  have "detach_packages sample_references sample_stored (ob_orders db) = ob_orders db"
    by (simp add: detach_packages_def sample_stored_def sample_references_def detach_nothing)
  then show ?thesis
    by (simp add: compose_order_def sample_materializes sample_resolves sample_prepares bind_sum_def assms)
qed

lemma sample_put_replace:
  "fst (put_replace sample_env sample_loaded 2000 sample_draw 7 ''x1'' 4 SAVE sample_body sample_db) = Inr ''g1'' \<and>
   (\<exists>b. ob_orders (snd (put_replace sample_env sample_loaded 2000 sample_draw 7 ''x1'' 4 SAVE sample_body sample_db)) = [b] \<and>
     co_guid b = Some ''g1'' \<and> client_key b = (Some 7, Some ''x1''))"
  by (simp add: put_replace_def sample_composes find_client_def put_should_queue_def put_write_def Let_def ensureEditable_def
      or_empty_def order_simps update_where_def client_key_def)

lemma sample_put:
  "fst (putClientOrderByClientId sample_env sample_reads 2000 sample_draw 7 ''x1'' 4 SAVE sample_body sample_db) = Inr ''g1'' \<and>
   (\<exists>b. ob_orders (snd (putClientOrderByClientId sample_env sample_reads 2000 sample_draw 7 ''x1'' 4 SAVE sample_body sample_db)) = [b] \<and>
     co_guid b = Some ''g1'' \<and> client_key b = (Some 7, Some ''x1''))"
proof -
  have "putClientOrderByClientId sample_env sample_reads 2000 sample_draw 7 ''x1'' 4 SAVE sample_body sample_db =
      put_replace sample_env sample_loaded 2000 sample_draw 7 ''x1'' 4 SAVE sample_body sample_db"
    by (simp add: putClientOrderByClientId_def put_transaction_def find_client_def put_settled_def committed_revision_def sample_loads)
  then show ?thesis using sample_put_replace by simp
qed

section \<open>Properties\<close>

lemma sample_submit:
  "\<exists>b. ob_orders (snd (submitClientOrder 2000 ''g1'' 7 4 sample_db)) = [b] \<and>
     co_syncState b = SY_QUEUED \<and> co_source b = MANAGER_APP \<and> co_guid b = Some ''g1'' \<and> co_revision b = 5"
proof -
  have "find_own ''g1'' 7 sample_db = Some sample_order" by (simp add: find_own_def)
  moreover have "assertClientOrderCanBeSubmitted sample_content = None"
    by (simp add: assertClientOrderCanBeSubmitted_def missing_fields_def truthy_def lines_unpriced_def line_unpriced_def Let_def
        sample_content_def sample_item_def)
  ultimately show ?thesis
    by (simp add: submitClientOrder_def ensureEditable_def assertRevision_def Let_def order_simps update_where_def)
qed







end
