(* ===== verification/Order_Push.thy ===== *)
theory Order_Push
  imports Order_Safety "HOL-Library.Multiset"
begin

text \<open>
  Properties of the worker that pushes orders to 1C and of the locks it takes: what is pushed is
  complete and in stock, a failed push is tried again after a bounded pause, an edit made during a push
  is not sent, an order behind a window of failing ones is not reached, and the lock of an order keeps
  other pushes and the pull channel away.
\<close>

section \<open>What is pushed\<close>

definition complete_for_onec :: "queued_order \<Rightarrow> bool" where
  "complete_for_onec q \<longleftrightarrow>
     \<not> no_guid og_guid (qo_organization q) \<and> \<not> no_guid pa_guid (qo_counterparty q) \<and> \<not> no_guid ag_guid (qo_agreement q) \<and>
     \<not> no_guid cn_guid (qo_contract q) \<and> \<not> no_guid wh_guid (qo_warehouse q) \<and>
     \<not> no_guid (\<lambda>a. or_empty (ad_guid a)) (qo_deliveryAddress q) \<and> ct_deliveryDate (co_content (qo_row q)) \<noteq> None \<and>
     active_items q \<noteq> [] \<and>
     (\<forall>(i, p) \<in> set (active_items q). \<not> no_guid pr_guid p \<and> 0 < it_quantity i \<and> (\<exists>b. it_basePrice i = Some b \<and> 0 < b))"

lemma line_complete:
  "line_defects (i, p) = [] \<longleftrightarrow> \<not> no_guid pr_guid p \<and> 0 < it_quantity i \<and> (\<exists>b. it_basePrice i = Some b \<and> 0 < b)"
  by (auto simp: line_defects_def not_le split: option.splits)

lemma defects_complete: "export_defects q = [] \<longleftrightarrow> complete_for_onec q"
  unfolding export_defects_def complete_for_onec_def by (auto simp: line_complete)

text \<open>Every active line of a complete order counts for the stock.\<close>

lemma complete_stocked:
  assumes "complete_for_onec q" and "(i, p) \<in> set (active_items q)"
  obtains r where "p = Some r" "(i, r) \<in> set (stocked_items q)"
proof -
  from assms obtain r where "p = Some r" "pr_guid r \<noteq> []" unfolding complete_for_onec_def by (auto simp: no_guid_def split: option.splits)
  with assms(2) show thesis
    by (intro that [of r]) (force simp: stocked_items_def active_items_def List.map_filter_def)+
qed

lemma first_by_set: "set (first_by id seen xs) = set xs - seen"
  by (induction xs arbitrary: seen) auto

lemma deficit_free:
  assumes "stock_deficits products ls = []" and "(i, p) \<in> set ls" and "live_available products (pr_guid p) = Some a"
  shows "required_of ls (pr_guid p) \<le> a + 1 / 1000000"
proof (rule ccontr)
  assume "\<not> required_of ls (pr_guid p) \<le> a + 1 / 1000000"
  moreover have "pr_guid p \<in> set (first_by id {} (map (\<lambda>(i, p). pr_guid p) ls))" using assms(2) by (force simp: first_by_set)
  ultimately have "(pr_guid p, required_of ls (pr_guid p), a) \<in> set (stock_deficits products ls)"
    using assms(3) by (force simp: stock_deficits_def List.map_filter_def)
  then show False using assms(1) by simp
qed

definition in_stock :: "push_world \<Rightarrow> queued_order \<Rightarrow> bool" where
  "in_stock w q \<longleftrightarrow>
     pw_stockDisabled w \<or>
     (\<exists>ps. pw_products w = Inr ps \<and>
        (\<forall>(i, r) \<in> set (stocked_items q). case live_available ps (pr_guid r) of None \<Rightarrow> True
           | Some a \<Rightarrow> required_of (stocked_items q) (pr_guid r) \<le> a + 1 / 1000000))"

lemma deficits_iff:
  "stock_deficits ps ls = [] \<longleftrightarrow>
     (\<forall>(i, r) \<in> set ls. case live_available ps (pr_guid r) of None \<Rightarrow> True | Some a \<Rightarrow> required_of ls (pr_guid r) \<le> a + 1 / 1000000)"
proof
  assume "stock_deficits ps ls = []"
  then show "\<forall>(i, r) \<in> set ls. case live_available ps (pr_guid r) of None \<Rightarrow> True | Some a \<Rightarrow> required_of ls (pr_guid r) \<le> a + 1 / 1000000"
    using deficit_free by (fastforce split: option.splits)
next
  assume ok: "\<forall>(i, r) \<in> set ls. case live_available ps (pr_guid r) of None \<Rightarrow> True | Some a \<Rightarrow> required_of ls (pr_guid r) \<le> a + 1 / 1000000"
  have "(case live_available ps g of None \<Rightarrow> None
      | Some a \<Rightarrow> if a + 1 / 1000000 < required_of ls g then Some (g, required_of ls g, a) else None) = None"
    if g: "g \<in> set (first_by id {} (map (\<lambda>(i, p). pr_guid p) ls))" for g
  proof -
    obtain i r where "(i, r) \<in> set ls" "g = pr_guid r" using g by (auto simp: first_by_set)
    then show ?thesis using ok by (auto split: option.splits)
  qed
  then show "stock_deficits ps ls = []" by (simp add: stock_deficits_def List.map_filter_def filter_empty_conv)
qed

lemma complete_stocked_some: "complete_for_onec q \<Longrightarrow> stocked_items q \<noteq> [] \<and> \<not> no_guid wh_guid (qo_warehouse q)"
proof -
  assume c: "complete_for_onec q"
  then have "active_items q \<noteq> []" by (simp add: complete_for_onec_def)
  then obtain i p where "(i, p) \<in> set (active_items q)" by (cases "active_items q") auto
  then obtain r where "(i, r) \<in> set (stocked_items q)" using complete_stocked [OF c] by metis
  then show ?thesis using c by (auto simp: complete_for_onec_def)
qed

lemma checks_exact:
  assumes "\<not> isCancelExportOrder (qo_row q)"
  shows "push_checks w q = Inr () \<longleftrightarrow> complete_for_onec q \<and> in_stock w q"
proof (cases "complete_for_onec q")
  case c: True
  then have r: "validateOrderReadyForExport q = Inr ()" using assms by (simp add: validateOrderReadyForExport_def defects_complete)
  show ?thesis
    using c complete_stocked_some [OF c] assms
    by (cases "pw_products w")
      (auto simp: push_checks_def r bind_sum_def validateOrderStockBeforeExport_def in_stock_def deficits_iff)
next
  case False
  then show ?thesis using assms by (simp add: push_checks_def validateOrderReadyForExport_def defects_complete bind_sum_def)
qed


section \<open>Concrete pushes\<close>

text \<open>The sample order, queued, as the worker reads it, and a world in which 1C has ten of its product and takes it.\<close>

definition queued_order_now :: client_order where
  "queued_order_now = sample_order\<lparr>co_status := ST_QUEUED, co_syncState := SY_QUEUED, co_queuedAt := Some 1500\<rparr>"

definition queued_db :: order_db where
  "queued_db = sample_db\<lparr>ob_orders := [queued_order_now]\<rparr>"

definition sample_push :: push_world where
  "sample_push = \<lparr>pw_lock = True, pw_stockDisabled = False, pw_products = Inr [(''pg'', Some 10)], pw_post = Inr JNull, pw_put = Inr JNull\<rparr>"

lemma queued_cols [simp]:
  "ob_orders queued_db = [queued_order_now]" "co_id queued_order_now = ''i1''" "co_guid queued_order_now = Some ''g1''"
  "co_status queued_order_now = ST_QUEUED" "co_syncState queued_order_now = SY_QUEUED" "co_content queued_order_now = sample_content"
  "co_source queued_order_now = MANAGER_APP" "co_exportAttempts queued_order_now = 0"
  by (simp_all add: queued_db_def queued_order_now_def sample_order_def)

lemma queued_row [simp]: "qo_row (queued_select db a) = a"
  by (simp add: queued_select_def Let_def)

lemma queued_not_cancel [simp]: "\<not> isCancelExportOrder queued_order_now"
  by (simp add: isCancelExportOrder_def)

lemma queued_complete: "complete_for_onec (queued_select queued_db queued_order_now)"
  by (simp add: complete_for_onec_def no_guid_def active_items_def queued_select_def Let_def by_id_def queued_db_def
      sample_content_def sample_item_def sample_references_def or_empty_def)

lemma queued_in_stock: "in_stock sample_push (queued_select queued_db queued_order_now)"
  by (simp add: in_stock_def sample_push_def stocked_items_def List.map_filter_def queued_select_def Let_def by_id_def queued_db_def
      sample_content_def sample_item_def sample_references_def live_available_def required_of_def line_required_def)


section \<open>Failures\<close>

lemma backoff_bounds:
  assumes "0 < n"
  shows "1000 \<le> getBackoffMs env n" and "getBackoffMs env n \<le> envInt env ''CLIENT_ORDERS_EXPORT_BACKOFF_MAX_MS'' 300000
    (envInt env ''CLIENT_ORDERS_EXPORT_BACKOFF_BASE_MS'' 10000 1000)"
proof -
  let ?base = "envInt env ''CLIENT_ORDERS_EXPORT_BACKOFF_BASE_MS'' 10000 1000"
  let ?mx = "envInt env ''CLIENT_ORDERS_EXPORT_BACKOFF_MAX_MS'' 300000 ?base"
  have b: "1000 \<le> ?base" by (rule envInt_ge) simp
  show "getBackoffMs env n \<le> ?mx" using assms by (simp add: getBackoffMs_def Let_def)
  have step: "?base * 1 \<le> ?base * 2 ^ nat (n - 1)" by (rule mult_left_mono) (use b in simp_all)
  have "1000 \<le> ?base * 2 ^ nat (n - 1)" by (rule order_trans [OF _ step]) (use b in simp)
  moreover have "1000 \<le> ?mx" using b js_trunc_ge by (auto simp: envInt_def split: option.splits)
  ultimately show "1000 \<le> getBackoffMs env n" using assms b by (simp add: getBackoffMs_def Let_def)
qed

lemma should_attempt_after:
  "0 < co_exportAttempts b \<Longrightarrow> co_sourceUpdatedAt b = Some now \<Longrightarrow>
   shouldAttempt env t b \<longleftrightarrow> getBackoffMs env (co_exportAttempts b) \<le> t - now"
  by (simp add: shouldAttempt_def last_attempt_at_def)

text \<open>
  C15: an order whose push failed for any reason but its own content stays in the queue, and it is due
  again exactly when the pause for its number of attempts is over, which is at least a second and bounded.
\<close>

theorem failed_push_retries:
  assumes "orders_wf (ob_orders db)" and "a \<in> set (ob_orders db)" and "exportable a" and "still_exporting (qo_row q) a"
    and "\<not> is_validation_error e" and "0 \<le> co_exportAttempts (qo_row q)" and "n = co_exportAttempts (qo_row q) + 1"
  shows "\<exists>b \<in> set (ob_orders (markOrderExportFailure now q e db)).
    co_id b = co_id a \<and> co_content b = co_content a \<and> exportable b \<and>
    (\<forall>t. shouldAttempt env t b \<longleftrightarrow> getBackoffMs env n \<le> t - now) \<and>
    1000 \<le> getBackoffMs env n \<and> getBackoffMs env n \<le> envInt env ''CLIENT_ORDERS_EXPORT_BACKOFF_MAX_MS'' 300000
      (envInt env ''CLIENT_ORDERS_EXPORT_BACKOFF_BASE_MS'' 10000 1000)"
proof -
  have n: "0 < n" using assms(6,7) by simp
  obtain c where c: "List.find (still_exporting (qo_row q)) (ob_orders db) = Some c"
    using assms(2,4) by (cases "List.find (still_exporting (qo_row q)) (ob_orders db)") (auto simp: find_None_iff)
  have id: "co_id a = co_id (qo_row q)" using assms(4) by (simp add: still_exporting_def)
  define f :: "client_order \<Rightarrow> client_order" where "f = (\<lambda>r. (r\<lparr>co_syncState := (if isCancelExportOrder (qo_row q) then SY_CANCEL_REQUESTED else SY_QUEUED),
      co_exportAttempts := n, co_lastExportError := Some (Failed e), co_sourceUpdatedAt := Some now,
      co_onec := (co_onec r)\<lparr>on_last1cError := Some (Failed e)\<rparr>\<rparr>)\<lparr>co_updatedAt := now\<rparr>)"
  have db': "ob_orders (markOrderExportFailure now q e db) = update_where (\<lambda>r. co_id r = co_id (qo_row q)) f (ob_orders db)"
    using c assms(5,7) by (simp add: markOrderExportFailure_def Let_def order_simps f_def)
  have "f a \<in> set (ob_orders (markOrderExportFailure now q e db))"
    unfolding db' by (rule update_where_hit) (use assms(2) id in simp_all)
  moreover have "exportable (f a)"
    using assms(3,4) by (auto simp: f_def exportable_def still_exporting_def split: if_splits)
  moreover have "shouldAttempt env t (f a) \<longleftrightarrow> getBackoffMs env n \<le> t - now" for t
    using should_attempt_after [of "f a" now env t] n by (simp add: f_def)
  ultimately show ?thesis
    using backoff_bounds [OF n] by (intro bexI [of _ "f a"]) (simp_all add: f_def)
qed

lemma failed_push_retries_witness:
  "\<exists>b \<in> set (ob_orders (markOrderExportFailure 2000 (queued_select queued_db queued_order_now) (Transport (OnecHttp 503)) queued_db)).
     co_id b = ''i1'' \<and> exportable b \<and> 1000 \<le> getBackoffMs (\<lambda>_. None) 1 \<and> \<not> shouldAttempt (\<lambda>_. None) 2000 b"
proof -
  have w: "orders_wf (ob_orders queued_db)" "queued_order_now \<in> set (ob_orders queued_db)" by (simp_all add: orders_wf_def)
  have e: "exportable queued_order_now" "still_exporting (qo_row (queued_select queued_db queued_order_now)) queued_order_now"
    by (simp_all add: exportable_def still_exporting_def)
  have "getBackoffMs (\<lambda>_. None) 1 \<le> 2000 - 2000 \<Longrightarrow> 1000 \<le> getBackoffMs (\<lambda>_. None) 1 \<Longrightarrow> False" by simp
  then show ?thesis
    using failed_push_retries [OF w e, of "Transport (OnecHttp 503)" 1 2000 "\<lambda>_. None"] by (fastforce simp: is_validation_error_def)
qed

section \<open>Edits during a push\<close>

text \<open>
  C36: when an order was edited between the moment the worker read it and the answer of 1C, the old
  content went out, and yet the order is marked as sent and leaves the queue with the new content.
\<close>

theorem stale_push_loses_edit:
  assumes "exportOrder date now w q db = (None, db')" and "pw_lock w"
    and "r \<in> set (ob_orders db)" and "still_exporting (qo_row q) r" and "\<not> isCancelExportOrder (qo_row q)"
    and "co_content r \<noteq> co_content (qo_row q)"
  shows "\<exists>p r'. pushed_payload w q = Some p \<and> r' \<in> set (ob_orders db') \<and> co_id r' = co_id r \<and> co_content r' = co_content r \<and>
    co_content (qo_row (qp_order p)) \<noteq> co_content r' \<and> co_status r' = ST_SENT_TO_1C \<and> co_syncState r' = SY_SYNCED \<and> \<not> exportable r'"
proof -
  obtain j where ch: "push_checks w q = Inr ()" and m: "markOrderExportSuccess date now q j db = (None, db')"
    using assms(1,2) by (auto simp: exportOrder_def split: sum.splits)
  obtain c where c: "List.find (still_exporting (qo_row q)) (ob_orders db) = Some c"
    using assms(3,4) by (cases "List.find (still_exporting (qo_row q)) (ob_orders db)") (auto simp: find_None_iff)
  have id: "co_id r = co_id (qo_row q)" using assms(4) by (simp add: still_exporting_def)
  define f :: "client_order \<Rightarrow> client_order" where "f = (\<lambda>x. (exported now False (extractSavedOrder date j) j (co_revision c) x)\<lparr>co_updatedAt := now\<rparr>)"
  have db': "ob_orders db' = update_where (\<lambda>x. co_id x = co_id (qo_row q)) f (ob_orders db)"
    using m c assms(5) by (auto simp: markOrderExportSuccess_def Let_def order_simps f_def split: option.splits)
  have "f r \<in> set (ob_orders db')" unfolding db' by (rule update_where_hit) (use assms(3) id in simp_all)
  moreover have "co_id (f r) = co_id r \<and> co_content (f r) = co_content r \<and> co_status (f r) = ST_SENT_TO_1C \<and> co_syncState (f r) = SY_SYNCED"
    by (simp add: f_def exported_def)
  moreover have "\<not> exportable (f r)" by (simp add: f_def exported_def exportable_def)
  moreover have "pushed_payload w q = Some (buildQueuedOrderPayload q)" using assms(2) ch by (simp add: pushed_payload_def)
  ultimately show ?thesis using assms(6)
    by (intro exI [of _ "buildQueuedOrderPayload q"] exI [of _ "f r"]) (simp add: buildQueuedOrderPayload_def)
qed

text \<open>The manager raised the quantity while 1C was answering.\<close>

definition edited_meanwhile :: client_order where
  "edited_meanwhile = queued_order_now\<lparr>co_revision := 5,
     co_content := sample_content\<lparr>ct_items := [sample_item\<lparr>it_quantity := 8\<rparr>]\<rparr>\<rparr>"

lemma stale_push_loses_edit_witness:
  "\<exists>db' p r'. exportOrder (\<lambda>_. None) 3000 sample_push (queued_select queued_db queued_order_now) (queued_db\<lparr>ob_orders := [edited_meanwhile]\<rparr>) = (None, db') \<and>
     pushed_payload sample_push (queued_select queued_db queued_order_now) = Some p \<and> r' \<in> set (ob_orders db') \<and>
     co_content r' = co_content edited_meanwhile \<and> co_content (qo_row (qp_order p)) \<noteq> co_content r' \<and> co_status r' = ST_SENT_TO_1C"
proof -
  let ?q = "queued_select queued_db queued_order_now" and ?db = "queued_db\<lparr>ob_orders := [edited_meanwhile]\<rparr>"
  have "push_checks sample_push ?q = Inr ()" using queued_complete queued_in_stock by (simp add: checks_exact)
  then have "\<exists>db'. exportOrder (\<lambda>_. None) 3000 sample_push ?q ?db = (None, db')"
    by (simp add: exportOrder_def sample_push_def send_payload_def markOrderExportSuccess_def assertSavedOrderDidNotLoseItems_def
        extractSavedOrderItems_def answer_item_def asRecord_def jget_def nullish_def as_array_def Let_def split: option.splits)
  then obtain db' where e: "exportOrder (\<lambda>_. None) 3000 sample_push ?q ?db = (None, db')" by blast
  have "pw_lock sample_push" "edited_meanwhile \<in> set (ob_orders ?db)" "still_exporting (qo_row ?q) edited_meanwhile"
    "co_content edited_meanwhile \<noteq> co_content (qo_row ?q)"
    by (simp_all add: sample_push_def still_exporting_def edited_meanwhile_def sample_content_def sample_item_def)
  with stale_push_loses_edit [OF e, of edited_meanwhile] e show ?thesis by (simp add: queued_row) blast
qed

section \<open>The window of candidates\<close>

lemma queue_before_total: "queue_before a b \<or> queue_before b a"
  by (auto simp: queue_before_def split: option.splits)

lemma queue_before_trans: "queue_before a b \<Longrightarrow> queue_before b c \<Longrightarrow> queue_before a c"
  by (auto simp: queue_before_def split: option.splits)

lemma queue_insert_set: "mset (queue_insert a os) = add_mset a (mset os)"
  by (induction os) auto

lemma queue_insert_sorted: "sorted_wrt queue_before os \<Longrightarrow> sorted_wrt queue_before (queue_insert a os)"
proof (induction os)
  case (Cons b os)
  have "set (queue_insert a os) = insert a (set os)" using arg_cong [OF queue_insert_set [of a os], of set_mset] by simp
  then show ?case using Cons queue_before_total queue_before_trans by auto
qed simp

lemma queue_sort_sorted: "sorted_wrt queue_before (queue_sort os)"
  unfolding queue_sort_def by (induction os) (simp_all add: queue_insert_sorted)

lemma queue_sort_mset: "mset (queue_sort os) = mset os"
  unfolding queue_sort_def by (induction os) (simp_all add: queue_insert_set)

definition ahead :: "client_order \<Rightarrow> client_order \<Rightarrow> bool" where
  "ahead b a \<longleftrightarrow> queue_before b a \<and> \<not> queue_before a b"

text \<open>In a sorted queue the orders ahead of one stand before it.\<close>

lemma window_count:
  assumes "sorted_wrt queue_before xs" and "a \<in> set (take n xs)"
  shows "length (filter (\<lambda>b. ahead b a) xs) < n"
proof -
  obtain i where i: "i < n" "i < length xs" "xs ! i = a" using assms(2) by (auto simp: in_set_conv_nth)
  have none: "\<not> ahead b a" if "b \<in> set (drop i xs)" for b
  proof -
    obtain k where k: "k < length xs - i" "b = xs ! (i + k)" using \<open>b \<in> set (drop i xs)\<close> by (auto simp: in_set_conv_nth)
    show ?thesis
    proof (cases k)
      case 0
      then show ?thesis using k i by (simp add: ahead_def)
    next
      case (Suc l)
      then have "queue_before a b" using sorted_wrt_nth_less [OF assms(1), of i "i + k"] i k by auto
      then show ?thesis by (simp add: ahead_def)
    qed
  qed
  have "filter (\<lambda>b. ahead b a) xs = filter (\<lambda>b. ahead b a) (take i xs) @ filter (\<lambda>b. ahead b a) (drop i xs)"
    by (metis append_take_drop_id filter_append)
  also have "filter (\<lambda>b. ahead b a) (drop i xs) = []" using none by (simp add: filter_empty_conv)
  finally have "length (filter (\<lambda>b. ahead b a) xs) \<le> i"
    by (simp add: order_trans [OF length_filter_le])
  then show ?thesis using i(1) by simp
qed

text \<open>
  The worker looks only at the oldest orders of the queue, three times its batch; so an order behind
  that many others is not picked up, even when none of those is due and it is.
\<close>

theorem window_starves:
  assumes "nat (3 * getBatchSize env) \<le> length (filter (\<lambda>b. exportable b \<and> ahead b a) (ob_orders db))"
  shows "a \<notin> qo_row ` set (loadExportCandidates env now db)"
proof
  let ?xs = "queue_sort (filter exportable (ob_orders db))"
  let ?n = "nat (max (getBatchSize env * 3) (getBatchSize env))"
  have b: "1 \<le> getBatchSize env" unfolding getBatchSize_def by (rule envInt_ge) simp
  assume "a \<in> qo_row ` set (loadExportCandidates env now db)"
  then have "a \<in> set (take ?n ?xs)"
    by (auto simp: loadExportCandidates_def queued_select_def Let_def dest!: in_set_takeD)
  from window_count [OF queue_sort_sorted this] have lt: "length (filter (\<lambda>b. ahead b a) ?xs) < nat (3 * getBatchSize env)"
    using b by (simp add: max_def mult.commute)
  have "mset (filter (\<lambda>b. ahead b a) ?xs) = mset (filter (\<lambda>b. exportable b \<and> ahead b a) (ob_orders db))"
    by (simp add: queue_sort_mset filter_filter_mset)
  then have "length (filter (\<lambda>b. ahead b a) ?xs) = length (filter (\<lambda>b. exportable b \<and> ahead b a) (ob_orders db))"
    by (rule mset_eq_length)
  then show False using lt assms by simp
qed

text \<open>With a batch of one, three orders in their pause hide a fourth that is due.\<close>

definition paused_order :: "string \<Rightarrow> client_order" where
  "paused_order i = queued_order_now\<lparr>co_id := i, co_guid := Some i, co_queuedAt := Some 100, co_exportAttempts := 9, co_sourceUpdatedAt := Some 2000\<rparr>"

definition batch_of_one :: settings where
  "batch_of_one = (\<lambda>name. if name = ''CLIENT_ORDERS_EXPORT_BATCH_SIZE'' then Some 1 else None)"

lemma window_starves_witness:
  "queued_order_now \<notin> qo_row ` set (loadExportCandidates batch_of_one 2001
      (queued_db\<lparr>ob_orders := [paused_order ''a'', paused_order ''b'', paused_order ''c'', queued_order_now]\<rparr>)) \<and>
   shouldAttempt batch_of_one 2001 queued_order_now"
proof
  have "getBatchSize batch_of_one = 1" by (simp add: getBatchSize_def envInt_def batch_of_one_def js_trunc_def)
  moreover have "ahead (paused_order i) queued_order_now" "exportable (paused_order i)" "exportable queued_order_now" for i
    by (simp_all add: ahead_def queue_before_def paused_order_def queued_order_now_def exportable_def sample_order_def)
  ultimately show "queued_order_now \<notin> qo_row ` set (loadExportCandidates batch_of_one 2001
      (queued_db\<lparr>ob_orders := [paused_order ''a'', paused_order ''b'', paused_order ''c'', queued_order_now]\<rparr>))"
    by (intro window_starves) simp
  show "shouldAttempt batch_of_one 2001 queued_order_now" by (simp add: shouldAttempt_def)
qed

section \<open>The lock of an order\<close>

datatype lock_op = TakeLock millis string string | GiveLock millis string string | TakeOffline millis string string

fun lock_step :: "settings \<Rightarrow> lock_op \<Rightarrow> order_locks \<Rightarrow> order_locks" where
  "lock_step env (TakeLock now guid lockId) ls = snd (acquireOrderLock env True now guid lockId ls)"
| "lock_step env (GiveLock now guid lockId) ls = releaseOrderLock now guid lockId ls"
| "lock_step env (TakeOffline now guid lockId) ls = snd (acquireOrderLock env False now guid lockId ls)"

definition lock_held :: "string \<Rightarrow> millis \<Rightarrow> order_locks \<Rightarrow> bool" where
  "lock_held guid u ls \<longleftrightarrow> (case ls guid of None \<Rightarrow> False | Some (v, t) \<Rightarrow> u < t)"

text \<open>By the time \<open>u\<close> nobody gives the lock back with the identifier that is stored.\<close>

fun lock_quiet :: "string \<Rightarrow> millis \<Rightarrow> lock_op \<Rightarrow> order_locks \<Rightarrow> bool" where
  "lock_quiet guid u (TakeLock now g lockId) ls = (now \<le> u)"
| "lock_quiet guid u (GiveLock now g lockId) ls = (g = guid \<longrightarrow> lock_value now guid ls \<noteq> Some lockId)"
| "lock_quiet guid u (TakeOffline now g lockId) ls = True"

interpretation ol: lease "\<lambda>lockId now guid. acquireOrderLock env True now guid lockId" "\<lambda>_. order_lock_ttl env" "(=)" "\<lambda>_. True"
  lock_held "lock_step env" lock_quiet
  for env :: settings
proof
  fix ls :: order_locks and lockId guid guid' :: string and now u :: millis and e :: lock_op
  show "lock_held guid u (snd (acquireOrderLock env True now guid lockId ls))"
    if "fst (acquireOrderLock env True now guid lockId ls)" "u < now + order_lock_ttl env"
    using that by (auto simp: acquireOrderLock_def lock_held_def split: if_splits)
  show "\<not> fst (acquireOrderLock env True now guid' lockId ls)" if "lock_held guid u ls" "now \<le> u" "guid = guid'"
    using that by (auto simp: acquireOrderLock_def lock_held_def lock_value_def split: option.splits)
  show "lock_held guid u (lock_step env e ls)" if "lock_held guid u ls" "lock_quiet guid u e ls"
    using that by (cases e) (auto simp: acquireOrderLock_def releaseOrderLock_def lock_held_def lock_value_def split: option.splits)
qed

lemma held_hides: "lock_held guid u ls \<Longrightarrow> now \<le> u \<Longrightarrow> a \<in> set (filterDirectPushLockedOrders True now ls os) \<Longrightarrow> export_key a \<noteq> guid"
  by (auto simp: filterDirectPushLockedOrders_def lock_held_def lock_value_def split: option.splits)

text \<open>
  While a push holds the lock of an order, for its time to live and until it gives it back, no other
  push obtains it, and the pull channel of 1C does not hand the order out.
\<close>

theorem order_lock_exclusive:
  assumes "fst (acquireOrderLock env True now guid lockId ls)" and "u < now + order_lock_ttl env"
    and "lease.quiet_run (lock_step env) lock_quiet guid u ops (snd (acquireOrderLock env True now guid lockId ls))" and "now' \<le> u"
    and "ls' = lease.lease_run (lock_step env) ops (snd (acquireOrderLock env True now guid lockId ls))"
  shows "\<not> fst (acquireOrderLock env True now' guid other ls') \<and>
    (\<forall>a \<in> set (filterDirectPushLockedOrders True now' ls' os). export_key a \<noteq> guid)"
proof -
  have "lock_held guid u ls'"
    unfolding assms(5) by (rule ol.run_held [OF _ assms(3)]) (rule ol.acquire_holds [OF TrueI assms(1,2)])
  moreover have "\<not> fst (acquireOrderLock env True now' guid other ls')"
    unfolding assms(5) by (rule ol.exclusive [OF TrueI assms(1-4) refl])
  ultimately show ?thesis using held_hides assms(4) by blast
qed

lemma order_lock_exclusive_witness:
  "let ls = lock_step (\<lambda>_. None) (GiveLock 1500 ''g1'' ''other'') (snd (acquireOrderLock (\<lambda>_. None) True 1000 ''g1'' ''mine'' Map.empty))
   in \<not> fst (acquireOrderLock (\<lambda>_. None) True 2000 ''g1'' ''other'' ls) \<and>
      (\<forall>a \<in> set (filterDirectPushLockedOrders True 2000 ls [queued_order_now]). export_key a \<noteq> ''g1'')"
proof -
  have t: "order_lock_ttl (\<lambda>_. None) = 60000" by (simp add: order_lock_ttl_def envInt_def)
  have "fst (acquireOrderLock (\<lambda>_. None) True 1000 ''g1'' ''mine'' Map.empty)" by (simp add: acquireOrderLock_def lock_value_def)
  moreover have "(60000 :: int) < 1000 + order_lock_ttl (\<lambda>_. None)" by (simp add: t)
  moreover have "lease.quiet_run (lock_step (\<lambda>_. None)) lock_quiet ''g1'' 60000 [GiveLock 1500 ''g1'' ''other'']
      (snd (acquireOrderLock (\<lambda>_. None) True 1000 ''g1'' ''mine'' Map.empty))"
    by (simp add: ol.quiet_run.simps acquireOrderLock_def lock_value_def t)
  ultimately show ?thesis
    using order_lock_exclusive [of "\<lambda>_. None" 1000 "''g1''" "''mine''" Map.empty 60000 "[GiveLock 1500 ''g1'' ''other'']" 2000 _ "''other''" "[queued_order_now]", OF _ _ _ _ refl]
    by (simp add: Let_def ol.lease_run.simps)
qed

end
