(* ===== verification/Order_Reports.thy ===== *)
theory Order_Reports
  imports Order_Safety
begin

text \<open>
  Properties of edits against what 1C reports: an update brings a cancelled order back, a list of posted
  orders takes an accepted edit out of the queue, and a snapshot with an unknown product leaves an
  order with part of its lines.  And the references of an order that the service composed agree with each other.
\<close>

section \<open>Edits of cancelled and of posted orders\<close>

lemma update_succeeds:
  assumes "updateClientOrder env lr now dw guid u v body db = (Inr g, db')" and "find_own guid u db = Some a"
  obtains b where "b \<in> set (ob_orders db')" "co_id b = co_id a" "co_guid b = Some guid" "co_source b = MANAGER_APP"
    "co_revision b = co_revision a + 1" "co_revision a = v" "\<not> on_hasRealization (co_onec a)"
    "co_status b = (if co_status a \<in> {ST_SENT_TO_1C, ST_QUEUED} then ST_QUEUED else ST_DRAFT)"
    "co_syncState b = (if co_status a \<in> {ST_SENT_TO_1C, ST_QUEUED} then SY_QUEUED else SY_DRAFT)"
    "\<exists>lm cx content db1. compose_order env now dw lm body db = Inr (cx, content, db1) \<and> co_content b = store_content (oe_col env) content"
  using assms(1)
proof (cases rule: update_cases)
  case (written a' lm cx content db1 gone tk)
  have a': "a' = a" using written(2) assms(2) by simp
  have a: "a \<in> set (ob_orders db)" "co_guid a = Some guid" "co_source a = MANAGER_APP" using find_ownD [OF assms(2)] by simp_all
  let ?b = "(updated env now tk content a (detach_package gone a))\<lparr>co_updatedAt := now\<rparr>"
  have "?b \<in> set (ob_orders db')" unfolding written(7) a' by (rule update_where_hit) (use a in auto)
  then show thesis
    by (rule that) (use a written a' in auto)
qed simp

text \<open>The concrete order in another state, and an update of it.\<close>

definition with_order :: "client_order \<Rightarrow> order_db" where
  "with_order a = sample_db\<lparr>ob_orders := [a]\<rparr>"

lemma with_order_cols [simp]: "ob_orders (with_order a) = [a]" "ob_references (with_order a) = sample_references"
  by (simp_all add: with_order_def)

lemma sample_update:
  assumes "co_guid a = Some ''g1''" and "co_source a = MANAGER_APP" and "co_createdByUserId a = Some 7" and "co_revision a = 4"
    and "\<not> on_hasRealization (co_onec a)"
  shows "find_own ''g1'' 7 (with_order a) = Some a \<and>
    (\<exists>db'. updateClientOrder sample_env sample_reads 2000 sample_draw ''g1'' 7 4 sample_body (with_order a) = (Inr ''g1'', db'))"
proof -
  have f: "find_own ''g1'' 7 (with_order a) = Some a" using assms by (simp add: find_own_def)
  have "updateClientOrder sample_env sample_reads 2000 sample_draw ''g1'' 7 4 sample_body (with_order a) =
    (Inr ''g1'', snd (updateClientOrder sample_env sample_reads 2000 sample_draw ''g1'' 7 4 sample_body (with_order a)))"
    using assms f by (simp add: updateClientOrder_def sample_loads ensureEditable_def assertRevision_def sample_composes Let_def
        resolveUpdatedOrderQueueState_def)
  then show ?thesis using f by blast
qed

definition sample_cancelled :: client_order where
  "sample_cancelled = sample_order\<lparr>co_status := ST_CANCELLED, co_syncState := SY_CANCEL_REQUESTED,
     co_onec := (co_onec sample_order)\<lparr>on_number1c := Some [49]\<rparr>\<rparr>"

text \<open>
  An update of a cancelled order that 1C knows turns it into a draft, so that the cancellation is never
  sent, although neither submitting nor restoring that order is allowed.
\<close>

theorem update_revives_cancelled:
  assumes "updateClientOrder env lr now dw guid u v body db = (Inr g, db')" and "find_own guid u db = Some a"
    and "co_status a = ST_CANCELLED" and "u_or_empty (on_number1c (co_onec a)) \<noteq> []"
  shows "(\<exists>b \<in> set (ob_orders db'). co_id b = co_id a \<and> co_status b = ST_DRAFT \<and> co_syncState b = SY_DRAFT \<and> \<not> exportable b) \<and>
    fst (submitClientOrder now guid u v db) = Inl OrderConflict \<and> fst (restoreClientOrder now guid u v db) = Inl OrderConflict"
proof (cases rule: update_succeeds [OF assms(1,2)])
  case (1 b)
  have "fst (submitClientOrder now guid u v db) = Inl OrderConflict"
    using assms(2,3) 1(6,7) find_ownD [OF assms(2)] by (simp add: submitClientOrder_def ensureEditable_def assertRevision_def)
  moreover have "fst (restoreClientOrder now guid u v db) = Inl OrderConflict"
    using assms(2-4) by (simp add: restoreClientOrder_def)
  moreover have "co_status b = ST_DRAFT" "co_syncState b = SY_DRAFT" using 1(8,9) assms(3) by simp_all
  moreover from this have "\<not> exportable b" by (simp add: exportable_def)
  ultimately show ?thesis using 1(1,2) by blast
qed

lemma update_revives_cancelled_witness:
  "(\<exists>b \<in> set (ob_orders (snd (updateClientOrder sample_env sample_reads 2000 sample_draw ''g1'' 7 4 sample_body (with_order sample_cancelled)))).
     co_id b = ''i1'' \<and> co_status b = ST_DRAFT \<and> co_syncState b = SY_DRAFT \<and> \<not> exportable b) \<and>
   fst (restoreClientOrder 2000 ''g1'' 7 4 (with_order sample_cancelled)) = Inl OrderConflict"
proof -
  obtain db' where u: "find_own ''g1'' 7 (with_order sample_cancelled) = Some sample_cancelled"
    "updateClientOrder sample_env sample_reads 2000 sample_draw ''g1'' 7 4 sample_body (with_order sample_cancelled) = (Inr ''g1'', db')"
    using sample_update [of sample_cancelled] by (auto simp: sample_cancelled_def)
  from update_revives_cancelled [OF u(2,1)] u show ?thesis by (simp add: sample_cancelled_def u_or_empty_def)
qed

text \<open>
  C37: when the list of 1C shows an order as posted, an accepted edit of that order that has not been sent yet is
  taken for the posted document: the order is confirmed with the new content and leaves the queue.
\<close>

theorem posted_list_drops_edit:
  assumes "updateClientOrder env lr now dw guid u v body db = (Inr g, db1)" and "find_own guid u db = Some a"
    and "co_id a \<in> set ids"
  shows "\<exists>b1 \<in> set (ob_orders db1). \<exists>b \<in> set (ob_orders (reconcilePostedLiveOrders now' ids db1)).
    co_id b = co_id a \<and> co_id b1 = co_id a \<and> co_revision b1 = co_revision a + 1 \<and> co_status b1 \<in> {ST_DRAFT, ST_QUEUED} \<and>
    co_content b = co_content b1 \<and> co_revision b = co_revision b1 \<and> co_status b = ST_CONFIRMED \<and> co_syncState b = SY_SYNCED \<and> \<not> exportable b"
proof (cases rule: update_succeeds [OF assms(1,2)])
  case b1: (1 b1)
  define f :: "client_order \<Rightarrow> client_order" where
    "f = (\<lambda>r. r\<lparr>co_status := ST_CONFIRMED, co_syncState := SY_SYNCED, co_lastExportError := None, co_updatedAt := now',
                 co_onec := (co_onec r)\<lparr>on_isPostedIn1c := True, on_last1cError := None,
                              on_lastStatusSyncAt := Some now', on_lastSyncedAt := Some now'\<rparr>\<rparr>)"
  have "f b1 \<in> set (ob_orders (reconcilePostedLiveOrders now' ids db1))"
    unfolding reconcilePostedLiveOrders_def f_def using b1(1-4,8) assms(3) by (simp, intro update_where_hit) auto
  moreover have "co_status b1 \<in> {ST_DRAFT, ST_QUEUED}" using b1(8) by simp
  ultimately show ?thesis using b1(1,2,5)
    by (intro bexI [of _ b1] bexI [of _ "f b1"]) (simp_all add: f_def exportable_def)
qed

definition sample_posted :: client_order where
  "sample_posted = sample_order\<lparr>co_status := ST_CONFIRMED, co_syncState := SY_SYNCED,
     co_onec := (co_onec sample_order)\<lparr>on_number1c := Some [49], on_isPostedIn1c := True\<rparr>\<rparr>"

lemma posted_list_drops_edit_witness:
  "\<exists>db1. updateClientOrder sample_env sample_reads 2000 sample_draw ''g1'' 7 4 sample_body (with_order sample_posted) = (Inr ''g1'', db1) \<and>
    (\<exists>b1 \<in> set (ob_orders db1). \<exists>b \<in> set (ob_orders (reconcilePostedLiveOrders 3000 [''i1''] db1)).
      co_status b1 \<in> {ST_DRAFT, ST_QUEUED} \<and> co_content b = co_content b1 \<and> co_status b = ST_CONFIRMED \<and> co_syncState b = SY_SYNCED)"
proof -
  obtain db1 where u: "find_own ''g1'' 7 (with_order sample_posted) = Some sample_posted"
    "updateClientOrder sample_env sample_reads 2000 sample_draw ''g1'' 7 4 sample_body (with_order sample_posted) = (Inr ''g1'', db1)"
    using sample_update [of sample_posted] by (auto simp: sample_posted_def)
  from posted_list_drops_edit [OF u(2,1), of "[''i1'']" 3000] u show ?thesis by (auto simp: sample_posted_def)
qed

section \<open>Snapshots with unknown products\<close>

lemma snapshot_org_products: "upsertSnapshotOrganization gen now og rf = (org, rf') \<Longrightarrow> rf_products rf' = rf_products rf"
  by (auto simp: upsertSnapshotOrganization_def upsert_row_def Let_def split: option.splits prod.splits)

definition known_product :: "references \<Rightarrow> snapshot_line \<Rightarrow> bool" where
  "known_product rf l \<longleftrightarrow> (\<exists>p \<in> set (rf_products rf). pr_guid p = sl_productGuid l)"

lemma snapshot_stops:
  assumes "\<forall>x \<in> set ls. known_product rf x" and "\<not> known_product rf l"
  shows "\<exists>items. write_snapshot_lines col dec now rf uuid k (ls @ l # rest) (w, t) = (Inl ''product-not-found'', w @ items) \<and>
    map it_lineGuid items = map (\<lambda>(n, x). snapshot_line_guid (uuid n) x) (enumerate k ls)"
  using assms(1)
proof (induction ls arbitrary: k w t)
  case Nil
  have "List.find (\<lambda>p. pr_guid p = sl_productGuid l) (rf_products rf) = None" using assms(2) by (simp add: known_product_def find_None_iff)
  then show ?case by simp
next
  case (Cons x ls)
  then obtain p where p: "List.find (\<lambda>p. pr_guid p = sl_productGuid x) (rf_products rf) = Some p"
    by (cases "List.find (\<lambda>p. pr_guid p = sl_productGuid x) (rf_products rf)") (auto simp: known_product_def find_None_iff)
  define i where "i = snapshot_item dec now rf (uuid k) x p"
  define t' where "t' = (if it_isCancelled i then t else dec (t + (case it_lineAmount i of None \<Rightarrow> 0 | Some a \<Rightarrow> a)))"
  have g: "it_lineGuid (store_item col i) = snapshot_line_guid (uuid k) x"
    by (simp add: store_item_def snapshot_item_def Let_def i_def)
  obtain items where items: "write_snapshot_lines col dec now rf uuid (Suc k) (ls @ l # rest) (w @ [store_item col i], t') =
      (Inl ''product-not-found'', (w @ [store_item col i]) @ items)"
    "map it_lineGuid items = map (\<lambda>(n, x). snapshot_line_guid (uuid n) x) (enumerate (Suc k) ls)"
    using Cons.IH [of "Suc k" "w @ [store_item col i]" t'] Cons.prems by auto
  have step: "write_snapshot_lines col dec now rf uuid k (x # ls @ l # rest) (w, t) =
      write_snapshot_lines col dec now rf uuid (Suc k) (ls @ l # rest) (w @ [store_item col i], t')"
    unfolding i_def t'_def by (simp add: p Let_def)
  show ?case
    by (rule exI [of _ "store_item col i # items"]) (use step items g in simp)
qed

text \<open>The order that a guid names, after a write to its row.\<close>

lemma find_guid_write:
  assumes "find_guid g db = Some a" and "\<And>r. co_guid (f r) = co_guid r" and "ob_orders db' = ob_orders (write_order now (co_id a) f db)"
  shows "find_guid g db' = Some ((f a)\<lparr>co_updatedAt := now\<rparr>)"
  using assms(1) unfolding find_guid_def assms(3) orders_write
  by (subst find_update_where) (simp_all add: assms(2))

text \<open>An order that is in error keeps its lines and its state, whatever snapshot arrives.\<close>

lemma snapshot_error_kept:
  assumes "find_guid (os_guid s) db = Some a" and "co_syncState a = SY_ERROR"
  shows "\<exists>c. find_guid (os_guid s) (snd (apply_snapshot env now uuid s db)) = Some c \<and> co_content c = co_content a \<and>
    co_syncState c \<in> {SY_ERROR, SY_CONFLICT} \<and> co_status c = co_status a"
proof (cases "snapshot_stale s a")
  case True
  then show ?thesis
    using assms by (simp add: snapshot_when_stale orders_event
        find_guid_write [where f = "note_snapshot now s (Some SY_CONFLICT) (Some (RevisionConflict (co_revision a) (os_baseRevision s)))" and now = now, OF assms(1)])
next
  case False
  have busy: "snapshot_busy a" using assms(2) by (simp add: snapshot_busy_def)
  show ?thesis
    using assms by (simp add: snapshot_when_busy [OF assms(1) False busy] orders_event
        find_guid_write [where f = "\<lambda>r. (note_snapshot now s None None r)\<lparr>co_onec := (co_onec (note_snapshot now s None None r))\<lparr>on_lastStatusSyncAt := Some now\<rparr>\<rparr>"
          and now = now, OF assms(1)])
qed

text \<open>
  C38: a snapshot whose line names an unknown product leaves the order with the lines before that one and
  without its own, and in error; later snapshots of the order are put aside and do not bring the lines back.
\<close>

theorem snapshot_truncates:
  assumes "find_guid (os_guid s) db = Some a" and "\<not> snapshot_stale s a" and "\<not> snapshot_busy a"
    and "os_lines s = ls @ l # rest" and "\<forall>x \<in> set ls. known_product (ob_references db) x" and "\<not> known_product (ob_references db) l"
    and "distinct (map (\<lambda>(n, x). js_lower (snapshot_line_guid (uuid n) x)) (enumerate 0 (os_lines s)))"
    and "db' = snd (apply_snapshot env now uuid s db)"
  shows "\<exists>b. find_guid (os_guid s) db' = Some b \<and> co_syncState b = SY_ERROR \<and>
    map it_lineGuid (ct_items (co_content b)) = map (\<lambda>(n, x). snapshot_line_guid (uuid n) x) (enumerate 0 ls) \<and>
    (\<forall>now2 uuid2 s2. os_guid s2 = os_guid s \<longrightarrow>
       (\<exists>c. find_guid (os_guid s) (snd (apply_snapshot env now2 uuid2 s2 db')) = Some c \<and> co_content c = co_content b))"
proof -
  obtain org rf where u: "upsertSnapshotOrganization (oe_gen env) now (os_organization s) (ob_references db) = (org, rf)" by fastforce
  have known: "known_product rf x = known_product (ob_references db) x" for x
    using snapshot_org_products [OF u] by (simp add: known_product_def)
  obtain items where items: "write_snapshot_lines (oe_col env) (oe_dec env) now rf uuid 0 (os_lines s) ([], 0) = (Inl ''product-not-found'', items)"
    "map it_lineGuid items = map (\<lambda>(n, x). snapshot_line_guid (uuid n) x) (enumerate 0 ls)"
    using snapshot_stops [of ls rf l "oe_col env" "oe_dec env" now uuid 0 rest "[]" 0] assms(4-6) known by auto
  have rp: "replaceOrderItemsFromSnapshot (oe_col env) (oe_dec env) now rf uuid (os_lines s) (ct_items (co_content a)) = (Inl ''product-not-found'', items)"
    using assms(7) items(1) by (simp add: replaceOrderItemsFromSnapshot_def)
  define f where "f = (\<lambda>r. note_snapshot now s (Some SY_ERROR) (Some (SnapshotFailed ''product-not-found'')) (with_items items r))"
  have ne: "\<not> (ct_items (co_content a) \<noteq> [] \<and> os_lines s = [])" using assms(4) by simp
  have w: "ob_orders db' = ob_orders (write_order now (co_id a) f db)"
    unfolding assms(8) snapshot_when_lines [OF assms(1-3) ne u] rp f_def by (simp add: orders_event)
  have b: "find_guid (os_guid s) db' = Some ((f a)\<lparr>co_updatedAt := now\<rparr>)"
    by (rule find_guid_write [OF assms(1) _ w]) (simp add: f_def)
  have e: "co_syncState ((f a)\<lparr>co_updatedAt := now\<rparr>) = SY_ERROR" by (simp add: f_def)
  have "\<exists>c. find_guid (os_guid s) (snd (apply_snapshot env now2 uuid2 s2 db')) = Some c \<and> co_content c = co_content ((f a)\<lparr>co_updatedAt := now\<rparr>)"
    if g: "os_guid s2 = os_guid s" for now2 uuid2 s2
    using snapshot_error_kept [OF b [folded g] e, of env now2 uuid2] g by metis
  then show ?thesis using b e items(2) by (intro exI [of _ "(f a)\<lparr>co_updatedAt := now\<rparr>"]) (simp add: f_def)
qed

definition sample_line :: "string \<Rightarrow> string \<Rightarrow> snapshot_line" where
  "sample_line g product =
     \<lparr>sl_lineGuid = Some g, sl_appLineGuid = None, sl_productGuid = product, sl_packageGuid = None, sl_unitGuid = None,
      sl_priceTypeGuid = None, sl_quantity = 5, sl_quantityBase = None, sl_basePrice = Some 10, sl_price = None,
      sl_isManualPrice = None, sl_manualPrice = None, sl_priceSource = None, sl_discountPercent = None,
      sl_appliedDiscountPercent = None, sl_lineAmount = None, sl_comment = None, sl_isCancelled = None,
      sl_cancelReasonGuid = None, sl_cancelReasonName = None, sl_cancelReason = None, sl_cancelledAmount = None\<rparr>"

definition sample_snapshot :: "snapshot_line list \<Rightarrow> order_snapshot" where
  "sample_snapshot ls =
     \<lparr>os_guid = ''g1'', os_number = 0, os_baseRevision = 4, os_revision = None, os_status = ST_CONFIRMED, os_syncState = None,
      os_number1c = None, os_date1c = None, os_isPostedIn1c = Some True, os_postedAt1c = None, os_hasRealization = None,
      os_organization = None, os_comment = None, os_deliveryDate = None, os_paymentForm = None, os_deliveryMethod = None,
      os_currency = None, os_totalAmount = None, os_generalDiscountPercent = None, os_generalDiscountAmount = None,
      os_cancelReason = None, os_last1cError = None, os_sourceUpdatedAt = None, os_lines = ls\<rparr>"

lemma snapshot_truncates_witness:
  "\<exists>b. find_guid ''g1'' (snd (apply_snapshot sample_env 3000 (\<lambda>_. ''u'') (sample_snapshot [sample_line ''n1'' ''pg'', sample_line ''n2'' ''new''])
         (with_order sample_posted))) = Some b \<and>
     co_syncState b = SY_ERROR \<and> map it_lineGuid (ct_items (co_content b)) = [''n1'']"
proof -
  let ?s = "sample_snapshot ([sample_line ''n1'' ''pg''] @ sample_line ''n2'' ''new'' # [])"
  have f: "find_guid (os_guid ?s) (with_order sample_posted) = Some sample_posted"
    by (simp add: find_guid_def sample_snapshot_def sample_posted_def)
  have st: "\<not> snapshot_stale ?s sample_posted" "\<not> snapshot_busy sample_posted"
    by (simp_all add: snapshot_stale_def snapshot_busy_def sample_snapshot_def sample_posted_def)
  have k: "\<forall>x \<in> set [sample_line ''n1'' ''pg'']. known_product (ob_references (with_order sample_posted)) x"
    "\<not> known_product (ob_references (with_order sample_posted)) (sample_line ''n2'' ''new'')"
    by (simp_all add: known_product_def sample_line_def sample_references_def)
  have g: "snapshot_line_guid u (sample_line ''n1'' p) = ''n1''" "snapshot_line_guid u (sample_line ''n2'' p) = ''n2''" for u p
    by (simp_all add: snapshot_line_guid_def sample_line_def js_trim_def js_space_def or_empty_def)
  have d: "distinct (map (\<lambda>(n, x). js_lower (snapshot_line_guid ''u'' x)) (enumerate 0 (os_lines ?s)))"
    by (simp add: sample_snapshot_def g js_lower_def js_lower_char_def)
  from snapshot_truncates [where env = sample_env and now = 3000, OF f st _ k d refl] show ?thesis
    by (auto simp: sample_snapshot_def g)
qed

section \<open>The references of an order\<close>

text \<open>The rows of a context are active, and the ones that belong to a counterparty or an organization belong to these.\<close>

definition context_consistent :: "clock \<Rightarrow> millis \<Rightarrow> references \<Rightarrow> order_context \<Rightarrow> bool" where
  "context_consistent ck now rf cx \<longleftrightarrow>
     cx_organization cx \<in> set (rf_organizations rf) \<and> og_isActive (cx_organization cx) \<and>
     cx_counterparty cx \<in> set (rf_counterparties rf) \<and> pa_isActive (cx_counterparty cx) \<and>
     (\<forall>a. cx_agreement cx = Some a \<longrightarrow> a \<in> set (rf_agreements rf) \<and> ag_isActive a \<and>
        ag_organizationId a = Some (og_id (cx_organization cx)) \<and>
        (truthy (ag_counterpartyId a) \<longrightarrow> ag_counterpartyId a = Some (pa_id (cx_counterparty cx))) \<and>
        (\<forall>k. cx_contract cx = Some k \<and> truthy (ag_contractId a) \<longrightarrow> ag_contractId a = Some (cn_id k)) \<and>
        (\<forall>w. cx_warehouse cx = Some w \<and> truthy (ag_warehouseId a) \<longrightarrow> ag_warehouseId a = Some (wh_id w))) \<and>
     (\<forall>k. cx_contract cx = Some k \<longrightarrow> k \<in> set (rf_contracts rf) \<and> cn_isActive k \<and> cn_counterpartyId k = pa_id (cx_counterparty cx) \<and>
        isContractDateRangeActive ck (cn_validFrom k) (cn_validTo k) now) \<and>
     (\<forall>w. cx_warehouse cx = Some w \<longrightarrow> w \<in> set (rf_warehouses rf) \<and> wh_isActive w) \<and>
     (\<forall>d. cx_deliveryAddress cx = Some d \<longrightarrow> d \<in> set (rf_addresses rf) \<and> ad_isActive d \<and> ad_counterpartyId d = pa_id (cx_counterparty cx)) \<and>
     (\<forall>p. cx_priceType cx = Some p \<longrightarrow> p \<in> set (rf_priceTypes rf) \<and> py_isActive p)"

lemma bind_sum_Inr: "bind_sum m k = Inr v \<longleftrightarrow> (\<exists>x. m = Inr x \<and> k x = Inr v)"
  by (cases m) (simp_all add: bind_sum_def)

lemma load_given_Inr: "load_given v k = Inr r \<longleftrightarrow> (v = None \<and> r = None) \<or> (\<exists>x y. v = Some x \<and> k x = Inr y \<and> r = Some y)"
  by (auto simp: load_given_def when_given_def bind_sum_Inr split: option.splits)

lemma load_active_Inr: "load_active what active found = Inr r \<longleftrightarrow> found = Some r \<and> active r"
  by (auto simp: load_active_def split: option.splits)

lemma load_findD: "load_active what active (List.find p rs) = Inr r \<Longrightarrow> r \<in> set rs \<and> p r \<and> active r"
  using find_SomeD [of p rs r] by (simp add: load_active_Inr)

lemma context_loaded:
  assumes "resolveManagerOrderContext ck now body rf = Inr cx"
  shows "loadOrganizationByGuid (bd_organizationGuid body) rf = Inr (cx_organization cx)"
    and "loadCounterpartyByGuid (bd_counterpartyGuid body) rf = Inr (cx_counterparty cx)"
    and "load_given (bd_agreementGuid body) (\<lambda>g. loadAgreementByGuid g rf) = Inr (cx_agreement cx)"
    and "load_given (bd_contractGuid body) (\<lambda>g. loadContractByGuid ck now g rf) = Inr (cx_contract cx)"
    and "load_given (bd_warehouseGuid body) (\<lambda>g. loadWarehouseByGuid g rf) = Inr (cx_warehouse cx)"
    and "load_given (bd_deliveryAddressGuid body) (\<lambda>g. loadDeliveryAddressByGuid g rf) = Inr (cx_deliveryAddress cx)"
    and "context_mismatch (cx_organization cx) (cx_counterparty cx) (cx_agreement cx) (cx_contract cx) (cx_warehouse cx) (cx_deliveryAddress cx) = None"
    and "\<forall>p. cx_priceType cx = Some p \<longrightarrow> (\<exists>g. loadPriceTypeByGuid g rf = Inr p) \<or> (\<exists>i. loadPriceTypeById i rf = Inr p)"
proof -
  obtain og cp ag k w d ep where l: "loadOrganizationByGuid (bd_organizationGuid body) rf = Inr og"
      "loadCounterpartyByGuid (bd_counterpartyGuid body) rf = Inr cp"
      "load_given (bd_agreementGuid body) (\<lambda>g. loadAgreementByGuid g rf) = Inr ag"
      "load_given (bd_contractGuid body) (\<lambda>g. loadContractByGuid ck now g rf) = Inr k"
      "load_given (bd_warehouseGuid body) (\<lambda>g. loadWarehouseByGuid g rf) = Inr w"
      "load_given (bd_deliveryAddressGuid body) (\<lambda>g. loadDeliveryAddressByGuid g rf) = Inr d"
      "load_given (bd_priceTypeGuid body) (\<lambda>g. loadPriceTypeByGuid g rf) = Inr ep"
    and m: "(case context_mismatch og cp ag k w d of
       Some what \<Rightarrow> Inl (OrderInvalid what)
     | None \<Rightarrow>
         bind_sum (load_given (case Option.bind ag ag_priceTypeId of None \<Rightarrow> None | Some i \<Rightarrow> non_empty i)
           (\<lambda>i. loadPriceTypeById i rf)) (\<lambda>agreementPriceType.
         Inr \<lparr>cx_organization = og, cx_counterparty = cp, cx_agreement = ag,
              cx_contract = k, cx_warehouse = w, cx_deliveryAddress = d,
              cx_priceType = nullish ep agreementPriceType\<rparr>)) = Inr cx"
    using assms unfolding resolveManagerOrderContext_def bind_sum_Inr by blast
  have n: "context_mismatch og cp ag k w d = None" using m by (cases "context_mismatch og cp ag k w d") simp_all
  obtain ap j where ap: "load_given j (\<lambda>i. loadPriceTypeById i rf) = Inr ap"
    and cx: "cx = \<lparr>cx_organization = og, cx_counterparty = cp, cx_agreement = ag, cx_contract = k, cx_warehouse = w,
      cx_deliveryAddress = d, cx_priceType = nullish ep ap\<rparr>"
    using m unfolding n option.case bind_sum_Inr by blast
  show "loadOrganizationByGuid (bd_organizationGuid body) rf = Inr (cx_organization cx)"
    and "loadCounterpartyByGuid (bd_counterpartyGuid body) rf = Inr (cx_counterparty cx)"
    and "load_given (bd_agreementGuid body) (\<lambda>g. loadAgreementByGuid g rf) = Inr (cx_agreement cx)"
    and "load_given (bd_contractGuid body) (\<lambda>g. loadContractByGuid ck now g rf) = Inr (cx_contract cx)"
    and "load_given (bd_warehouseGuid body) (\<lambda>g. loadWarehouseByGuid g rf) = Inr (cx_warehouse cx)"
    and "load_given (bd_deliveryAddressGuid body) (\<lambda>g. loadDeliveryAddressByGuid g rf) = Inr (cx_deliveryAddress cx)"
    and "context_mismatch (cx_organization cx) (cx_counterparty cx) (cx_agreement cx) (cx_contract cx) (cx_warehouse cx) (cx_deliveryAddress cx) = None"
    using l n by (simp_all add: cx)
  show "\<forall>p. cx_priceType cx = Some p \<longrightarrow> (\<exists>g. loadPriceTypeByGuid g rf = Inr p) \<or> (\<exists>i. loadPriceTypeById i rf = Inr p)"
    using l(7) ap unfolding load_given_Inr by (auto simp: cx nullish_def)
qed

lemma consistent_context:
  assumes r: "resolveManagerOrderContext ck now body rf = Inr cx"
  shows "context_consistent ck now rf cx"
proof -
  note l = context_loaded [OF r]
  have 1: "cx_organization cx \<in> set (rf_organizations rf) \<and> og_isActive (cx_organization cx)"
    using l(1) unfolding loadOrganizationByGuid_def by (blast dest: load_findD)
  have 2: "cx_counterparty cx \<in> set (rf_counterparties rf) \<and> pa_isActive (cx_counterparty cx)"
    using l(2) unfolding loadCounterpartyByGuid_def by (blast dest: load_findD)
  have 3: "a \<in> set (rf_agreements rf) \<and> ag_isActive a" if "cx_agreement cx = Some a" for a
    using l(3) \<open>cx_agreement cx = Some a\<close> unfolding loadAgreementByGuid_def load_given_Inr by (auto dest: load_findD)
  have 4: "k \<in> set (rf_contracts rf) \<and> cn_isActive k \<and> isContractDateRangeActive ck (cn_validFrom k) (cn_validTo k) now"
    if "cx_contract cx = Some k" for k
    using l(4) \<open>cx_contract cx = Some k\<close> unfolding loadContractByGuid_def load_given_Inr by (auto dest: load_findD)
  have 5: "w \<in> set (rf_warehouses rf) \<and> wh_isActive w" if "cx_warehouse cx = Some w" for w
    using l(5) \<open>cx_warehouse cx = Some w\<close> unfolding loadWarehouseByGuid_def load_given_Inr by (auto dest: load_findD)
  have 6: "d \<in> set (rf_addresses rf) \<and> ad_isActive d" if "cx_deliveryAddress cx = Some d" for d
    using l(6) \<open>cx_deliveryAddress cx = Some d\<close> unfolding loadDeliveryAddressByGuid_def load_given_Inr by (auto dest: load_findD)
  have 7: "p \<in> set (rf_priceTypes rf) \<and> py_isActive p" if "cx_priceType cx = Some p" for p
    using l(8) \<open>cx_priceType cx = Some p\<close> unfolding loadPriceTypeByGuid_def loadPriceTypeById_def by (auto dest: load_findD)
  show ?thesis
    unfolding context_consistent_def
    using 1 2 3 4 5 6 7 l(7) by (simp add: context_mismatch_def split: if_splits option.splits)
qed

text \<open>
  C14: the references of an order that the service composed, or composed anew, are active and agree: contract and
  delivery address belong to the counterparty, the agreement to the organization and the counterparty, and it
  names no other contract or warehouse.
\<close>

theorem order_context_sound:
  assumes "compose_order env now dw lm body db = Inr (cx, content, db')"
  shows "context_consistent (oe_clock env) now (ob_references db') cx \<and>
    ct_organizationId content = Some (og_id (cx_organization cx)) \<and> ct_counterpartyId content = pa_id (cx_counterparty cx) \<and>
    ct_agreementId content = map_option ag_id (cx_agreement cx) \<and> ct_deliveryAddressId content = map_option ad_id (cx_deliveryAddress cx) \<and>
    (\<forall>k. cx_contract cx = Some k \<longrightarrow> ct_contractId content = Some (cn_id k)) \<and>
    (\<forall>w. cx_warehouse cx = Some w \<longrightarrow> ct_warehouseId content = Some (wh_id w))"
proof -
  obtain rf pp where rf: "resolveManagerOrderContext (oe_clock env) now body rf = Inr cx" "ob_references db' = rf"
    and c: "content = body_content (oe_clock env) now body cx pp"
    using assms by (auto simp: compose_order_def bind_sum_Inr)
  show ?thesis
    using consistent_context [OF rf(1)] by (simp add: rf(2) c body_content_def nullish_def)
qed

lemma order_context_sound_witness:
  "context_consistent (oe_clock sample_env) 2000 sample_stored sample_context"
  using order_context_sound [OF sample_composes [OF sample_cols(2)]] by simp

end
