(* ===== verification/Order_Prices.thy ===== *)
theory Order_Prices
  imports Order_Safety
begin

text \<open>
  Laws of the prices of an order (\<open>prepareOrderItems\<close>): bounds under the rounding of
  \<^verbatim>\<open>Prisma.Decimal\<close>, and the exact sums when nothing has to be rounded.
\<close>

section \<open>One line\<close>

lemma best_price_in: "best_price rs = Some r \<Longrightarrow> r \<in> set rs"
proof -
  have "fold (\<lambda>r b. case b of None \<Rightarrow> Some r | Some x \<Rightarrow> if price_before r x then Some r else Some x) rs acc = Some r \<Longrightarrow>
      r \<in> set rs \<or> acc = Some r" for acc
    by (induction rs arbitrary: acc) (fastforce split: option.splits if_splits)+
  then show "best_price rs = Some r \<Longrightarrow> r \<in> set rs" unfolding best_price_def by blast
qed

text \<open>Where the base price and the base quantity of a line come from.\<close>

definition base_from :: "(rat \<Rightarrow> rat) \<Rightarrow> references \<Rightarrow> item_body \<Rightarrow> rat \<Rightarrow> bool" where
  "base_from num rf item b \<longleftrightarrow>
     ib_manualPrice item = Some b \<or> ib_basePrice item = Some b \<or> (\<exists>p \<in> set (rf_prices rf). num (pc_price p) = b) \<or> b = 0"

definition quantity_from :: "(rat \<Rightarrow> rat) \<Rightarrow> references \<Rightarrow> item_body \<Rightarrow> rat \<Rightarrow> bool" where
  "quantity_from dec rf item q \<longleftrightarrow>
     q = dec (ib_quantity item) \<or> (\<exists>k \<in> set (rf_packages rf). q = dec (ib_quantity item * pk_multiplier k))"

lemma prepare_line_priced:
  assumes "prepare_line dec num now rf general ctxType uuid item = Inr (row, amount, part)"
  obtains b q where "base_from num rf item b" "quantity_from dec rf item q" "it_basePrice row = Some b" "it_quantityBase row = Some q"
    "it_isCancelled row = (ib_isCancelled item = Some True)" "it_price row = pl_price (price_line dec general (ib_manualPrice item \<noteq> None) (ib_discountPercent item) b q)"
    "amount = pl_amount (price_line dec general (ib_manualPrice item \<noteq> None) (ib_discountPercent item) b q)"
    "part = pl_generalDiscount (price_line dec general (ib_manualPrice item \<noteq> None) (ib_discountPercent item) b q)"
    "it_lineAmount row = Some amount"
proof -
  obtain product where p: "List.find (\<lambda>p. pr_guid p = ib_productGuid item) (rf_products rf) = Some product"
    using assms by (cases "List.find (\<lambda>p. pr_guid p = ib_productGuid item) (rf_products rf)") (simp_all add: prepare_line_def)
  define package where "package = (case ib_packageGuid item of None \<Rightarrow> None
                     | Some g \<Rightarrow> List.find (\<lambda>k. pk_productId k = pr_id product \<and> pk_guid k = Some g) (rf_packages rf))"
  define own where "own = Option.bind (ib_priceTypeGuid item) (\<lambda>g. List.find (\<lambda>p. py_guid p = g) (rf_priceTypes rf))"
  define lineType where "lineType = (if ib_priceTypeGuid item \<noteq> None then own else if ib_manualPrice item \<noteq> None then None else ctxType)"
  define listed where "listed = (if ib_manualPrice item \<noteq> None then None else Option.bind lineType (\<lambda>p. product_price now rf (pr_id product) (py_id p)))"
  define q where "q = dec (ib_quantity item * (case package of None \<Rightarrow> 1 | Some k \<Rightarrow> pk_multiplier k))"
  define base where "base = (if ib_manualPrice item \<noteq> None then ib_manualPrice item
            else nullish (ib_basePrice item) (nullish (map_option (\<lambda>r. num (pc_price r)) listed) (if ib_isCancelled item = Some True then Some 0 else None)))"
  note defs = package_def own_def lineType_def listed_def q_def base_def
  have q: "quantity_from dec rf item q"
  proof (cases package)
    case (Some k)
    then have "k \<in> set (rf_packages rf)" by (auto simp: package_def dest: find_SomeD split: option.splits)
    then show ?thesis using Some by (auto simp: quantity_from_def q_def)
  qed (simp add: quantity_from_def q_def)
  have l: "\<exists>p \<in> set (rf_prices rf). p = x" if "listed = Some x" for x
    using \<open>listed = Some x\<close> best_price_in by (fastforce simp: listed_def product_price_def bind_eq_Some_conv split: if_splits)
  show thesis
  proof (cases base)
    case None
    then show thesis using assms p
      by (simp only: prepare_line_def Let_def option.case defs [symmetric]) (simp split: if_splits)
  next
    case (Some b)
    have b: "base_from num rf item b"
      using Some l by (auto simp: base_from_def base_def nullish_def split: if_splits option.splits)
    let ?pl = "price_line dec general (ib_manualPrice item \<noteq> None) (ib_discountPercent item) b q"
    have "it_basePrice row = Some b \<and> it_quantityBase row = Some q \<and> it_isCancelled row = (ib_isCancelled item = Some True) \<and>
      it_price row = pl_price ?pl \<and> amount = pl_amount ?pl \<and> part = pl_generalDiscount ?pl \<and> it_lineAmount row = Some amount"
      using assms p Some
      by (simp only: prepare_line_def Let_def option.case defs [symmetric]) (auto split: if_splits)
    then show thesis using that [OF b q] by blast
  qed
qed

text \<open>
  What the bounds need of the arithmetic and of the numbers of a request: rounding keeps the order and leaves
  \<open>0\<close>, \<open>1\<close>, \<open>100\<close> and JavaScript numbers, which have fewer digits, alone; discounts are percentages, as
  the schema of the request demands.  Prices and multipliers of 1C can have any sign.
\<close>

definition honest :: "(rat \<Rightarrow> rat) \<Rightarrow> (rat \<Rightarrow> rat) \<Rightarrow> bool" where
  "honest dec num \<longleftrightarrow> mono dec \<and> dec 0 = 0 \<and> dec 1 = 1 \<and> dec 100 = 100 \<and> (\<forall>x. dec (num x) = num x)"

definition percent :: "rat option \<Rightarrow> bool" where
  "percent v = (case v of None \<Rightarrow> True | Some d \<Rightarrow> 0 \<le> d \<and> d \<le> 100)"

definition fair_line :: "(rat \<Rightarrow> rat) \<Rightarrow> item_body \<Rightarrow> bool" where
  "fair_line dec item \<longleftrightarrow>
     percent (ib_discountPercent item) \<and>
     (case ib_manualPrice item of None \<Rightarrow> True | Some p \<Rightarrow> dec p = p) \<and>
     (case ib_basePrice item of None \<Rightarrow> True | Some p \<Rightarrow> dec p = p)"

definition between :: "rat \<Rightarrow> rat \<Rightarrow> rat \<Rightarrow> bool" where
  "between a x b \<longleftrightarrow> min a b \<le> x \<and> x \<le> max a b"

lemma honest_nonneg: "honest dec num \<Longrightarrow> 0 \<le> x \<Longrightarrow> 0 \<le> dec x"
  unfolding honest_def by (metis monoD)

lemma between_dec: "mono dec \<Longrightarrow> between a x b \<Longrightarrow> between (dec a) (dec x) (dec b)"
  unfolding between_def by (simp add: min_of_mono max_of_mono monoD)

lemma betweenI: "0 \<le> x \<and> x \<le> b \<or> b \<le> x \<and> x \<le> 0 \<Longrightarrow> between 0 x b"
  by (auto simp: between_def min_le_iff_disj le_max_iff_disj)

lemma between_sides: "between 0 x b \<Longrightarrow> 0 \<le> x \<and> x \<le> b \<or> b \<le> x \<and> x \<le> 0"
  by (auto simp: between_def min_def max_def split: if_splits)

lemma between_times:
  assumes "between 0 x b"
  shows "between 0 (q * x) (q * b)"
proof (cases "0 \<le> q")
  case True
  then show ?thesis using between_sides [OF assms] by (intro betweenI) (auto intro: mult_left_mono mult_nonneg_nonpos)
next
  case False
  then show ?thesis using between_sides [OF assms] by (intro betweenI) (auto intro: mult_left_mono_neg mult_nonpos_nonpos mult_nonpos_nonneg)
qed

lemma between_scaled: "0 \<le> f \<Longrightarrow> f \<le> 1 \<Longrightarrow> between 0 (b * f) b"
  using between_times [of f 1 b] betweenI [of f 1] by simp

lemma discounted:
  assumes h: "honest dec num" and b: "dec b = b" and d: "0 \<le> d" "d \<le> 100"
  shows "between 0 (dec (b * dec (dec (100 - d) / 100))) b"
proof -
  have m: "dec x \<le> dec y" if "x \<le> y" for x y using h that by (simp add: honest_def monoD)
  have 1: "0 \<le> dec (100 - d)" "dec (100 - d) \<le> 100"
    using honest_nonneg [OF h, of "100 - d"] m [of "100 - d" 100] h d by (simp_all add: honest_def)
  have "0 \<le> dec (dec (100 - d) / 100)" "dec (dec (100 - d) / 100) \<le> 1"
    using honest_nonneg [OF h, of "dec (100 - d) / 100"] m [of "dec (100 - d) / 100" 1] h 1 by (simp_all add: honest_def)
  from between_dec [OF _ between_scaled [OF this], of dec b] h b show ?thesis by (simp add: honest_def)
qed

lemma price_line_bounds:
  assumes h: "honest dec num" and b: "dec b = b" and p: "percent lineDiscount" "percent general"
    and pl: "pl = price_line dec general manual lineDiscount b q"
  shows "between 0 (pl_price pl) b \<and> between 0 (pl_amount pl) (dec (q * b)) \<and>
    (0 \<le> b \<longrightarrow> 0 \<le> q \<longrightarrow> 0 \<le> pl_amount pl \<and> 0 \<le> pl_generalDiscount pl)"
proof -
  define applied where "applied = nullish lineDiscount (if \<not> manual \<and> lineDiscount = None then general else None)"
  define price where "price = (case applied of None \<Rightarrow> b | Some d \<Rightarrow> dec (b * dec (dec (100 - d) / 100)))"
  have a: "percent applied" using p by (auto simp: applied_def nullish_def percent_def split: option.splits)
  have 1: "between 0 price b"
    using a discounted [OF h b] by (auto simp: price_def percent_def between_def split: option.splits)
  have 2: "between 0 (dec (q * price)) (dec (q * b))"
    using between_dec [OF _ between_times [OF 1], of dec q] h by (simp add: honest_def)
  have "0 \<le> dec (q * price) \<and> 0 \<le> dec (dec (b - price) * q)" if "0 \<le> b" "0 \<le> q"
    using 1 that by (auto simp: between_def intro!: honest_nonneg [OF h] mult_nonneg_nonneg)
  moreover have "pl_price pl = price" "pl_amount pl = dec (q * price)"
    by (simp_all add: pl price_line_def Let_def price_def applied_def)
  moreover have "pl_generalDiscount pl \<in> {0, dec (dec (b - price) * q)}"
    by (simp add: pl price_line_def Let_def price_def applied_def)
  ultimately show ?thesis using 1 2 by auto
qed

section \<open>All lines\<close>

definition line_bounded :: "(rat \<Rightarrow> rat) \<Rightarrow> order_item \<Rightarrow> bool" where
  "line_bounded dec i \<longleftrightarrow>
     (\<exists>b q a. it_basePrice i = Some b \<and> it_quantityBase i = Some q \<and> it_lineAmount i = Some a \<and>
        between 0 (it_price i) b \<and> between 0 a (dec (q * b)))"

definition amount_of :: "rat option \<Rightarrow> rat" where
  "amount_of v = (case v of None \<Rightarrow> 0 | Some x \<Rightarrow> x)"

definition line_plain :: "order_item \<Rightarrow> bool" where
  "line_plain i \<longleftrightarrow> 0 \<le> amount_of (it_basePrice i) \<and> 0 \<le> amount_of (it_quantityBase i)"

lemma prepare_line_bounded:
  assumes h: "honest dec num" and g: "percent general" and f: "fair_line dec item"
    and r: "prepare_line dec num now rf general ctxType uuid item = Inr (row, amount, part)"
  shows "line_bounded dec row \<and> (line_plain row \<longrightarrow> 0 \<le> amount \<and> 0 \<le> part)"
  using r
proof (cases rule: prepare_line_priced)
  case (1 b q)
  have b: "dec b = b" using 1(1) f h by (auto simp: base_from_def fair_line_def honest_def)
  from price_line_bounds [OF h b _ g refl, of "ib_discountPercent item" "ib_manualPrice item \<noteq> None" q] f
  show ?thesis using 1 by (auto simp: line_bounded_def line_plain_def amount_of_def fair_line_def)
qed

lemma prepare_lines_bounded:
  assumes h: "honest dec num" and g: "percent general"
    and "\<forall>i \<in> set items. fair_line dec i"
    and "prepare_lines dec num now rf general ctxType uuid k used acc items = Inr pp"
    and "\<forall>i \<in> set (pp_items acc). line_bounded dec i"
    and "list_all line_plain (pp_items acc) \<longrightarrow> 0 \<le> pp_totalAmount acc \<and> 0 \<le> pp_generalDiscountAmount acc"
    and "distinct (map (\<lambda>i. js_lower (it_lineGuid i)) (pp_items acc))" "used = set (map (\<lambda>i. js_lower (it_lineGuid i)) (pp_items acc))"
  shows "(\<forall>i \<in> set (pp_items pp). line_bounded dec i) \<and>
    (list_all line_plain (pp_items pp) \<longrightarrow> 0 \<le> pp_totalAmount pp \<and> 0 \<le> pp_generalDiscountAmount pp) \<and>
    distinct (map (\<lambda>i. js_lower (it_lineGuid i)) (pp_items pp)) \<and> length (pp_items pp) = length (pp_items acc) + length items"
  using assms(3-)
proof (induction items arbitrary: k used acc)
  case (Cons item items)
  obtain row amount part where p: "prepare_line dec num now rf general ctxType (uuid k) item = Inr (row, amount, part)"
    using Cons.prems(2) by (cases "prepare_line dec num now rf general ctxType (uuid k) item") auto
  have n: "js_lower (it_lineGuid row) \<notin> used" using Cons.prems(2) p by (auto split: if_splits)
  have b: "line_bounded dec row" "line_plain row \<Longrightarrow> 0 \<le> amount \<and> 0 \<le> part"
    using prepare_line_bounded [OF h g _ p] Cons.prems(1) by simp_all
  define acc' where "acc' = \<lparr>pp_items = pp_items acc @ [row],
      pp_totalAmount = (if it_isCancelled row then pp_totalAmount acc else dec (pp_totalAmount acc + amount)),
      pp_generalDiscountAmount = (if general_applies general item then dec (pp_generalDiscountAmount acc + part) else pp_generalDiscountAmount acc)\<rparr>"
  have "prepare_lines dec num now rf general ctxType uuid (Suc k) (insert (js_lower (it_lineGuid row)) used) acc' items = Inr pp"
    using Cons.prems(2) p n by (simp add: acc'_def)
  moreover have "list_all line_plain (pp_items acc') \<longrightarrow> 0 \<le> pp_totalAmount acc' \<and> 0 \<le> pp_generalDiscountAmount acc'"
    using Cons.prems b honest_nonneg [OF h] by (simp add: acc'_def)
  ultimately show ?case
    using Cons.IH [of "Suc k" "insert (js_lower (it_lineGuid row)) used" acc'] Cons.prems b n by (simp add: acc'_def)
qed simp



section \<open>Exact sums\<close>

definition line_worth :: "order_item \<Rightarrow> rat" where
  "line_worth i = amount_of (it_quantityBase i) * it_price i"

definition line_saving :: "order_item \<Rightarrow> rat" where
  "line_saving i = (amount_of (it_basePrice i) - it_price i) * amount_of (it_quantityBase i)"

definition unit_saving :: "order_item \<Rightarrow> rat" where
  "unit_saving i = amount_of (it_basePrice i) - it_price i"

fun running :: "rat \<Rightarrow> rat list \<Rightarrow> rat list" where
  "running a [] = []"
| "running a (x # xs) = (a + x) # running (a + x) xs"

definition worths :: "order_item list \<Rightarrow> rat list" where
  "worths rows = map line_worth (filter (\<lambda>i. \<not> it_isCancelled i) rows)"

definition savings :: "rat option \<Rightarrow> item_body list \<Rightarrow> order_item list \<Rightarrow> rat list" where
  "savings general items rows = map (\<lambda>(b, i). line_saving i) (filter (\<lambda>(b, i). general_applies general b) (zip items rows))"

text \<open>
  The results that the amounts are computed from: the amount of each line, the saving of each line that the general
  discount applies to, per unit and in all, and the sums on the way, which begin at \<open>t\<close> and \<open>g\<close>.
\<close>

definition computed_values :: "rat \<Rightarrow> rat \<Rightarrow> rat option \<Rightarrow> item_body list \<Rightarrow> order_item list \<Rightarrow> rat list" where
  "computed_values t g general items rows =
     map line_worth rows @
     concat (map (\<lambda>(b, i). if general_applies general b then [unit_saving i, line_saving i] else []) (zip items rows)) @
     running t (worths rows) @ running g (savings general items rows)"

lemma prepare_line_exact:
  assumes r: "prepare_line dec num now rf general ctxType uuid item = Inr (row, amount, part)"
    and w: "dec (line_worth row) = line_worth row"
    and s: "general_applies general item \<Longrightarrow> dec (unit_saving row) = unit_saving row \<and> dec (line_saving row) = line_saving row"
  shows "amount = line_worth row \<and> (general_applies general item \<longrightarrow> part = line_saving row)"
  using r
proof (cases rule: prepare_line_priced)
  case (1 b q)
  have amount: "amount = dec (line_worth row)" using 1 by (simp add: price_line_def Let_def line_worth_def amount_of_def)
  have "part = line_saving row" if g: "general_applies general item"
  proof -
    have "part = dec (dec (unit_saving row) * q)"
      using 1 g by (auto simp: price_line_def Let_def unit_saving_def amount_of_def general_applies_def nullish_def)
    moreover have "line_saving row = unit_saving row * q" using 1 by (simp add: line_saving_def unit_saving_def amount_of_def)
    ultimately show ?thesis using s [OF g] by simp
  qed
  then show ?thesis using amount w by simp
qed

lemma prepare_lines_extends:
  "prepare_lines dec num now rf general ctxType uuid k used acc items = Inr pp \<Longrightarrow> \<exists>rows. pp_items pp = pp_items acc @ rows"
proof (induction items arbitrary: k used acc)
  case (Cons item items)
  obtain row amount part where p: "prepare_line dec num now rf general ctxType (uuid k) item = Inr (row, amount, part)"
    using Cons.prems by (cases "prepare_line dec num now rf general ctxType (uuid k) item") auto
  show ?case using Cons.prems p Cons.IH by (force split: if_splits)
qed simp

lemma prepare_lines_exact:
  assumes "prepare_lines dec num now rf general ctxType uuid k used acc items = Inr pp"
    and "pp_items pp = pp_items acc @ rows"
    and "\<forall>v \<in> set (computed_values (pp_totalAmount acc) (pp_generalDiscountAmount acc) general items rows). dec v = v"
  shows "pp_totalAmount pp = pp_totalAmount acc + sum_list (worths rows) \<and>
    pp_generalDiscountAmount pp = pp_generalDiscountAmount acc + sum_list (savings general items rows)"
  using assms
proof (induction items arbitrary: k used acc rows)
  case Nil
  then show ?case by (simp add: worths_def savings_def)
next
  case (Cons item items)
  obtain row amount part where p: "prepare_line dec num now rf general ctxType (uuid k) item = Inr (row, amount, part)"
    using Cons.prems(1) by (cases "prepare_line dec num now rf general ctxType (uuid k) item") auto
  have n: "js_lower (it_lineGuid row) \<notin> used" using Cons.prems(1) p by (auto split: if_splits)
  define acc' where "acc' = \<lparr>pp_items = pp_items acc @ [row],
      pp_totalAmount = (if it_isCancelled row then pp_totalAmount acc else dec (pp_totalAmount acc + amount)),
      pp_generalDiscountAmount = (if general_applies general item then dec (pp_generalDiscountAmount acc + part) else pp_generalDiscountAmount acc)\<rparr>"
  have rest: "prepare_lines dec num now rf general ctxType uuid (Suc k) (insert (js_lower (it_lineGuid row)) used) acc' items = Inr pp"
    using Cons.prems(1) p n by (simp add: acc'_def)
  obtain more where "pp_items pp = pp_items acc' @ more" using prepare_lines_extends [OF rest] by blast
  then have rows: "rows = row # more" and more: "pp_items pp = pp_items acc' @ more"
    using Cons.prems(2) by (simp_all add: acc'_def)
  note vals = Cons.prems(3) [unfolded rows computed_values_def worths_def savings_def]
  have line: "amount = line_worth row" "general_applies general item \<Longrightarrow> part = line_saving row"
    using prepare_line_exact [OF p] vals by auto
  have totals: "pp_totalAmount acc' = pp_totalAmount acc + (if it_isCancelled row then 0 else line_worth row)"
    "pp_generalDiscountAmount acc' = pp_generalDiscountAmount acc + (if general_applies general item then line_saving row else 0)"
    using vals line by (auto simp: acc'_def)
  have "\<forall>v \<in> set (computed_values (pp_totalAmount acc') (pp_generalDiscountAmount acc') general items more). dec v = v"
    unfolding totals computed_values_def worths_def savings_def using vals by (auto split: if_splits)
  from Cons.IH [OF rest more this] show ?case
    unfolding totals rows by (simp add: worths_def savings_def)
qed

text \<open>
  C35: when the numbers that one call computes for the amounts need no rounding (\<open>computed_values\<close>), the total of
  the order is the worth of its active lines, base quantity times price, and
  the amount of the general discount is what it takes off the lines it applies to, the cancelled ones included.
\<close>

theorem order_totals_exact:
  assumes "prepareOrderItems dec num uuid now body cx rf = Inr pp"
    and "\<forall>v \<in> set (computed_values 0 0 (bd_generalDiscountPercent body) (bd_items body) (pp_items pp)). dec v = v"
  shows "pp_totalAmount pp = sum_list (map line_worth (filter (\<lambda>i. \<not> it_isCancelled i) (pp_items pp))) \<and>
    pp_generalDiscountAmount pp = sum_list (map (\<lambda>(b, i). line_saving i)
      (filter (\<lambda>(b, i). general_applies (bd_generalDiscountPercent body) b) (zip (bd_items body) (pp_items pp))))"
  using prepare_lines_exact [OF assms(1) [unfolded prepareOrderItems_def], of "pp_items pp"] assms(2)
  by (simp add: worths_def savings_def)

text \<open>Rounding to twenty significant digits, half away from zero, as \<^verbatim>\<open>Prisma.Decimal\<close> is set up.\<close>

function digit_shift :: "rat \<Rightarrow> nat" where
  "digit_shift x = (if x \<le> 0 \<or> 10 ^ 19 \<le> x then 0 else Suc (digit_shift (10 * x)))"
  by pat_completeness auto

function digit_drop :: "rat \<Rightarrow> nat" where
  "digit_drop x = (if x < 10 ^ 20 then 0 else Suc (digit_drop (x / 10)))"
  by pat_completeness auto

lemma ceiling_tenth: "1 < y \<Longrightarrow> nat \<lceil>y / 10\<rceil> < nat \<lceil>y :: rat\<rceil>"
proof -
  assume y: "1 < y"
  have "\<lceil>y / 10\<rceil> < \<lceil>y\<rceil>"
  proof (cases "y \<le> 10")
    case True
    then have "\<lceil>y / 10\<rceil> \<le> 1" by (simp add: ceiling_le_iff)
    moreover have "1 < \<lceil>y\<rceil>" using y by (simp add: less_ceiling_iff)
    ultimately show ?thesis by linarith
  next
    case False
    have "of_int \<lceil>y / 10\<rceil> < y / 10 + 1" by linarith
    also have "\<dots> \<le> y" using False by simp
    also have "\<dots> \<le> of_int \<lceil>y\<rceil>" by simp
    finally show ?thesis by simp
  qed
  then show ?thesis using y by simp
qed

termination digit_shift
proof (relation "measure (\<lambda>x. nat \<lceil>10 ^ 19 / x\<rceil>)")
  fix x :: rat
  assume "\<not> (x \<le> 0 \<or> 10 ^ 19 \<le> x)"
  then have "1 < 10 ^ 19 / x" by simp
  from ceiling_tenth [OF this] show "(10 * x, x) \<in> measure (\<lambda>x. nat \<lceil>10 ^ 19 / x\<rceil>)" by simp
qed simp

termination digit_drop
proof (relation "measure (\<lambda>x. nat \<lceil>x\<rceil>)")
  fix x :: rat
  assume "\<not> x < 10 ^ 20"
  then have "1 < x" by simp
  from ceiling_tenth [OF this] show "(x / 10, x) \<in> measure (\<lambda>x. nat \<lceil>x\<rceil>)" by simp
qed simp

declare digit_shift.simps [simp del] digit_drop.simps [simp del]

definition decimal20 :: "rat \<Rightarrow> rat" where
  "decimal20 x =
     (let s = digit_shift \<bar>x\<bar>; d = digit_drop \<bar>x\<bar>; y = \<bar>x\<bar> * 10 ^ s / 10 ^ d
      in sgn x * of_int \<lfloor>y + 1 / 2\<rfloor> * 10 ^ d / 10 ^ s)"

lemma decimal20_third: "decimal20 (1 / 3) = 33333333333333333333 / 100000000000000000000"
  by code_simp

lemma decimal20_sample:
  "decimal20 2 = 2" "decimal20 20 = 20" "decimal20 90 = 90" "decimal20 (9 / 10) = 9 / 10" "decimal20 10 = 10" "decimal20 180 = 180"
  by code_simp+

lemma order_totals_exact_witness:
  "prepareOrderItems decimal20 id (dr_line sample_draw) 2000 sample_body sample_context sample_stored = Inr sample_prepared \<and>
   sum_list (map line_worth (filter (\<lambda>i. \<not> it_isCancelled i) (pp_items sample_prepared))) = 180"
proof -
  have p: "prepareOrderItems decimal20 id (dr_line sample_draw) 2000 sample_body sample_context sample_stored = Inr sample_prepared"
    by (rule sample_prepares_with) (simp_all add: decimal20_sample)
  have "\<forall>v \<in> set (computed_values 0 0 (bd_generalDiscountPercent sample_body) (bd_items sample_body) (pp_items sample_prepared)).
      decimal20 v = v"
    by (simp add: computed_values_def worths_def savings_def sample_prepared_def sample_body_def sample_item_def general_applies_def
        line_worth_def line_saving_def unit_saving_def amount_of_def decimal20_sample)
  from order_totals_exact [OF p this] have
    "pp_totalAmount sample_prepared = sum_list (map line_worth (filter (\<lambda>i. \<not> it_isCancelled i) (pp_items sample_prepared)))" by blast
  then show ?thesis using p by (simp add: sample_prepared_def)
qed

end
