(* ===== verification/Order_Overlap.thy ===== *)
theory Order_Overlap
  imports Order_Safety
begin

text \<open>
  Edits whose transactions overlap.  The handlers read the order first and later write it by its
  primary key; at the isolation level of the database (read committed) nothing makes the second of two
  overlapping transactions read again.  The handlers are split here into the read and the write.
\<close>

definition submit_read :: "string \<Rightarrow> user_id \<Rightarrow> int \<Rightarrow> order_db \<Rightarrow> order_error + client_order" where
  "submit_read guid userId revision db =
     (case find_own guid userId db of
        None \<Rightarrow> Inl OrderNotFound
      | Some o' \<Rightarrow>
      case ensureEditable o' of Some e \<Rightarrow> Inl e | None \<Rightarrow>
      case assertRevision (co_revision o') revision of Some e \<Rightarrow> Inl e | None \<Rightarrow>
      if co_status o' = ST_CANCELLED then Inl OrderConflict
      else case assertClientOrderCanBeSubmitted (co_content o') of Some e \<Rightarrow> Inl e | None \<Rightarrow> Inr o')"

definition submit_write :: "millis \<Rightarrow> string \<Rightarrow> user_id \<Rightarrow> client_order \<Rightarrow> order_db \<Rightarrow> order_db" where
  "submit_write now guid userId o' db =
     saveUserCounterpartyDefaults now userId guid
       (appendOrderEvent (co_id o') (co_revision o' + 1) APP_MANAGER ''CLIENT_ORDER_SUBMITTED'' (Some userId)
         (write_order now (co_id o')
            (\<lambda>r. (submitted now (resolveActiveTrackingOrderSnapshot now userId db) r)
               \<lparr>co_revision := co_revision o' + 1, co_cancelRequestedAt := None, co_cancelReason := None\<rparr>) db))"

text \<open>A cancelled order needs no write (\<open>None\<close>).\<close>

definition cancel_read :: "string \<Rightarrow> user_id \<Rightarrow> int \<Rightarrow> order_db \<Rightarrow> order_error + client_order option" where
  "cancel_read guid userId revision db =
     (case find_own guid userId db of
        None \<Rightarrow> Inl OrderNotFound
      | Some o' \<Rightarrow>
      if co_status o' = ST_CANCELLED then Inr None
      else case assertRevision (co_revision o') revision of Some e \<Rightarrow> Inl e | None \<Rightarrow>
      if isOrderQueued o' then Inr (Some o')
      else case ensureEditable o' of Some e \<Rightarrow> Inl e | None \<Rightarrow> Inr (Some o'))"

definition cancel_write :: "millis \<Rightarrow> user_id \<Rightarrow> utext option \<Rightarrow> client_order \<Rightarrow> order_db \<Rightarrow> order_db" where
  "cancel_write now userId reason o' db =
     (if isOrderQueued o' then unqueueClientOrderInTransaction now o' userId db
      else appendOrderEvent (co_id o') (co_revision o' + 1) APP_CANCEL_REQUEST ''CLIENT_ORDER_CANCELLED'' (Some userId)
             (write_order now (co_id o') (cancelled now reason o') db))"

text \<open>Run without a break, the two parts are the handlers.\<close>

lemma update_where_same:
  "(\<And>r. r \<in> set rs \<Longrightarrow> p r \<Longrightarrow> f r = g r) \<Longrightarrow> update_where p f rs = update_where p g rs"
  by (auto simp: update_where_def)

lemma submit_split:
  assumes wf: "orders_wf (ob_orders db)"
  shows "submitClientOrder now guid u v db =
    (case submit_read guid u v db of Inl e \<Rightarrow> (Inl e, db) | Inr a \<Rightarrow> (Inr guid, submit_write now guid u a db))"
proof (cases "submit_read guid u v db")
  case (Inl e)
  then show ?thesis by (auto simp: submit_read_def submitClientOrder_def split: option.splits if_splits)
next
  case (Inr a)
  then have f: "find_own guid u db = Some a" "ensureEditable a = None" "assertRevision (co_revision a) v = None"
    "co_status a \<noteq> ST_CANCELLED" "assertClientOrderCanBeSubmitted (co_content a) = None"
    by (auto simp: submit_read_def split: option.splits if_splits)
  have a: "a \<in> set (ob_orders db)" using find_ownD [OF f(1)] by simp
  have "write_order now (co_id a) (\<lambda>r. (submitted now tk r)\<lparr>co_cancelRequestedAt := None, co_cancelReason := None\<rparr>) db =
      write_order now (co_id a) (\<lambda>r. (submitted now tk r)\<lparr>co_revision := co_revision a + 1, co_cancelRequestedAt := None, co_cancelReason := None\<rparr>) db" for tk
  proof -
    have "update_where (\<lambda>r. co_id r = co_id a) (\<lambda>r. (submitted now tk r)\<lparr>co_cancelRequestedAt := None, co_cancelReason := None, co_updatedAt := now\<rparr>) (ob_orders db) =
      update_where (\<lambda>r. co_id r = co_id a) (\<lambda>r. (submitted now tk r)\<lparr>co_revision := co_revision a + 1, co_cancelRequestedAt := None, co_cancelReason := None, co_updatedAt := now\<rparr>) (ob_orders db)"
    proof (rule update_where_same)
      fix r assume "r \<in> set (ob_orders db)" "co_id r = co_id a"
      then have "r = a" using wf_id [OF wf _ a] by blast
      then have "co_revision (submitted now tk r) = co_revision a + 1" by simp
      then show "(submitted now tk r)\<lparr>co_cancelRequestedAt := None, co_cancelReason := None, co_updatedAt := now\<rparr> =
        (submitted now tk r)\<lparr>co_revision := co_revision a + 1, co_cancelRequestedAt := None, co_cancelReason := None, co_updatedAt := now\<rparr>"
        by (metis client_order.update_convs(8) client_order.surjective client_order.select_convs(8))
    qed
    then show ?thesis by (simp add: write_order_def)
  qed
  then show ?thesis using Inr f by (simp add: submitClientOrder_def submit_write_def Let_def)
qed

lemma cancelled_fun:
  "cancelled now reason a = (\<lambda>r. r\<lparr>co_revision := co_revision a + 1, co_status := ST_CANCELLED,
       co_syncState := (if co_status a \<noteq> ST_DRAFT then SY_CANCEL_REQUESTED else SY_SYNCED),
       co_cancelRequestedAt := (if co_status a \<noteq> ST_DRAFT then Some now else None),
       co_cancelReason := reason, co_sourceUpdatedAt := Some now\<rparr>)"
  by (rule ext) (simp add: cancelled_def)

lemma cancel_split:
  "cancelClientOrder now guid u v reason db =
    (case cancel_read guid u v db of
       Inl e \<Rightarrow> (Inl e, db) | Inr None \<Rightarrow> (Inr guid, db) | Inr (Some a) \<Rightarrow> (Inr guid, cancel_write now u reason a db))"
  by (cases "find_own guid u db")
    (auto simp: cancelClientOrder_def cancel_read_def cancel_write_def cancelled_fun Let_def split: option.splits)

lemma events_order_simps:
  "ob_events (appendOrderEvent i r src k actor db) = ob_events db @ [\<lparr>ev_orderId = i, ev_revision = r, ev_source = src, ev_type = k, ev_actor = actor\<rparr>]"
  "ob_events (write_order now i f db) = ob_events db"
  "ob_events (saveUserCounterpartyDefaults now u g db) = ob_events db"
  by (simp_all add: appendOrderEvent_def write_order_def saveUserCounterpartyDefaults_def Let_def split: option.splits)

text \<open>
  C39: a cancellation and a submission of the same revision whose transactions overlap are both accepted: the order ends up
  queued, the cancellation is gone without a trace on it, and the history shows two edits of one revision.
\<close>

theorem overlapping_edits_commit:
  assumes "submit_read guid u v db = Inr a" and "cancel_read guid u v db = Inr (Some b)"
    and "db' = submit_write now' guid u a (cancel_write now u reason b db)"
  shows "\<exists>r \<in> set (ob_orders db'). co_id r = co_id a \<and> co_status r = ST_QUEUED \<and> co_syncState r = SY_QUEUED \<and>
      co_revision r = v + 1 \<and> co_cancelRequestedAt r = None \<and> co_cancelReason r = None \<and>
      (\<exists>e1 e2. ob_events db' = ob_events db @ [e1, e2] \<and> ev_orderId e1 = co_id a \<and> ev_orderId e2 = co_id a \<and>
         ev_revision e1 = v + 1 \<and> ev_revision e2 = v + 1 \<and> ev_type e1 \<noteq> ev_type e2)"
proof -
  have f: "find_own guid u db = Some a" "b = a" "co_revision a = v"
    using assms(1,2) by (auto simp: submit_read_def cancel_read_def assertRevision_def split: option.splits if_splits)
  have a: "a \<in> set (ob_orders db)" using find_ownD [OF f(1)] by simp
  have "\<exists>g. ob_orders (cancel_write now u reason b db) = update_where (\<lambda>r. co_id r = co_id a) g (ob_orders db) \<and> co_id (g a) = co_id a"
    by (cases "isOrderQueued a") (auto simp: cancel_write_def f(2) unqueue_tx_orders order_simps cancelled_def)
  then obtain g where g: "ob_orders (cancel_write now u reason b db) = update_where (\<lambda>r. co_id r = co_id a) g (ob_orders db)" "co_id (g a) = co_id a"
    by blast
  have ga: "g a \<in> set (ob_orders (cancel_write now u reason b db))" unfolding g(1) by (rule update_where_hit) (use a in simp_all)
  define h :: "client_order \<Rightarrow> client_order" where
    "h = (\<lambda>r. (submitted now' (resolveActiveTrackingOrderSnapshot now' u (cancel_write now u reason b db)) r)
       \<lparr>co_revision := co_revision a + 1, co_cancelRequestedAt := None, co_cancelReason := None, co_updatedAt := now'\<rparr>)"
  have "ob_orders db' = update_where (\<lambda>r. co_id r = co_id a) h (ob_orders (cancel_write now u reason b db))"
    by (simp add: assms(3) submit_write_def order_simps h_def)
  then have "h (g a) \<in> set (ob_orders db')" using update_where_hit [of "g a"] ga g(2) by simp
  moreover have "\<exists>e1 e2. ob_events db' = ob_events db @ [e1, e2] \<and> ev_orderId e1 = co_id a \<and> ev_orderId e2 = co_id a \<and>
      ev_revision e1 = v + 1 \<and> ev_revision e2 = v + 1 \<and> ev_type e1 \<noteq> ev_type e2"
    by (simp add: assms(3) submit_write_def cancel_write_def events_order_simps unqueueClientOrderInTransaction_def f(2,3))
  ultimately show ?thesis
    by (intro bexI [of _ "h (g a)"]) (simp_all add: h_def f(3) g(2))
qed

lemma overlapping_edits_commit_witness:
  "\<exists>r \<in> set (ob_orders (submit_write 3000 ''g1'' 7 sample_order (cancel_write 2000 7 None sample_order sample_db))).
     co_status r = ST_QUEUED \<and> co_revision r = 5 \<and> co_cancelRequestedAt r = None"
proof -
  have f: "find_own ''g1'' 7 sample_db = Some sample_order" by (simp add: find_own_def)
  have "submit_read ''g1'' 7 4 sample_db = Inr sample_order"
    by (simp add: submit_read_def f ensureEditable_def assertRevision_def assertClientOrderCanBeSubmitted_def missing_fields_def
        truthy_def lines_unpriced_def line_unpriced_def Let_def sample_content_def sample_item_def)
  moreover have "cancel_read ''g1'' 7 4 sample_db = Inr (Some sample_order)"
    by (simp add: cancel_read_def f ensureEditable_def assertRevision_def isOrderQueued_def)
  ultimately show ?thesis using overlapping_edits_commit [OF _ _ refl, of "''g1''" 7 4 sample_db sample_order sample_order 3000 2000 None] by auto
qed

end
