(* ===== verification/Appeal_Data.thy ===== *)
theory Appeal_Data
  imports Complex_Main Prelude
begin

text \<open>
  The tables of the appeals service (\<^verbatim>\<open>src/src/routes/appeals.ts\<close>, schema in
  \<^verbatim>\<open>src/prisma/schema.core.prisma\<close>), the rights its handlers test and the primitive
  writes they share: the status change with its history row, and the system message.

  Bodies are validated as \<^verbatim>\<open>src/src/validation/appeals.schema.ts\<close> does; identifiers
  arrive as numbers, and \<open>valid_id\<close> is the test for a positive one.  A primary key that the
  database generates comes from a counter of the model.  Sockets, pushes, bot messages and the
  reminder jobs are not modelled.
\<close>

section \<open>Tables\<close>

datatype appeal_status = OPEN | IN_PROGRESS | COMPLETED | DECLINED | RESOLVED

datatype appeal_priority = LOW | MEDIUM | HIGH | CRITICAL

datatype attachment_type = IMAGE | AUDIO | FILE

datatype message_type = USER_MESSAGE | SYSTEM_MESSAGE

datatype labor_status = UNPAID | PARTIAL | PAID | NOT_REQUIRED

record employee =
  em_departmentId :: "int option"
  em_laborRate :: "rat option"

text \<open>A user as \<^verbatim>\<open>userMiniSelect\<close> reads it; a department role is a pair of department and role name.\<close>

record user_mini =
  um_id :: user_id
  um_roleName :: string
  um_departmentRoles :: "(int \<times> string) list"
  um_employee :: "employee option"

record department =
  dp_id :: int
  dp_paymentRequired :: bool
  dp_laborRate :: rat

record appeal =
  ap_id :: int
  ap_number :: int
  ap_fromDepartmentId :: "int option"
  ap_toDepartmentId :: int
  ap_createdById :: user_id
  ap_status :: appeal_status
  ap_priority :: appeal_priority
  ap_deadline :: "millis option"
  ap_title :: string
  ap_laborNotRequired :: bool
  ap_createdAt :: millis
  ap_updatedAt :: millis

text \<open>Rows of \<^verbatim>\<open>AppealAssignee\<close> and \<^verbatim>\<open>AppealWatcher\<close>.\<close>

record participant =
  pt_appealId :: int
  pt_userId :: user_id

record status_change =
  sc_appealId :: int
  sc_oldStatus :: appeal_status
  sc_newStatus :: appeal_status
  sc_changedById :: user_id
  sc_changedAt :: millis

datatype system_event =
    AssigneesChanged "user_id list" "user_id list"
  | StatusChanged appeal_status appeal_status
  | DepartmentChanged int int
  | DeadlineChanged "millis option" "millis option"

text \<open>The text of a message is what a user typed, or what the server composes for a system event.\<close>

datatype message_text = Typed string | Composed

record message =
  ms_id :: int
  ms_appealId :: int
  ms_senderId :: user_id
  ms_text :: "message_text option"
  ms_type :: message_type
  ms_systemEvent :: "system_event option"
  ms_editedAt :: "millis option"
  ms_deleted :: bool
  ms_createdAt :: millis

record attachment =
  at_messageId :: int
  at_fileUrl :: string
  at_fileName :: string
  at_fileType :: attachment_type

record message_read =
  rr_messageId :: int
  rr_userId :: user_id
  rr_readAt :: millis

record labor_entry =
  le_appealId :: int
  le_assigneeUserId :: user_id
  le_hours :: rat
  le_paidHours :: rat
  le_rate :: rat
  le_paymentStatus :: labor_status
  le_paidAt :: "millis option"
  le_paidById :: "user_id option"
  le_createdById :: user_id
  le_updatedById :: user_id

record labor_audit =
  la_appealId :: int
  la_assigneeUserId :: user_id
  la_changedById :: user_id
  la_oldHours :: "rat option"
  la_newHours :: rat
  la_oldPaidHours :: "rat option"
  la_newPaidHours :: rat
  la_oldPaymentStatus :: "labor_status option"
  la_newPaymentStatus :: labor_status

record appeal_db =
  ab_users :: "user_mini list"
  ab_departments :: "department list"
  ab_appeals :: "appeal list"
  ab_assignees :: "participant list"
  ab_watchers :: "participant list"
  ab_history :: "status_change list"
  ab_messages :: "message list"
  ab_attachments :: "attachment list"
  ab_reads :: "message_read list"
  ab_labor :: "labor_entry list"
  ab_audit :: "labor_audit list"
  ab_nextAppeal :: int
  ab_nextMessage :: int

datatype appeal_error = BAD_REQUEST | NOT_FOUND | FORBIDDEN | INTERNAL

section \<open>Rights\<close>

definition isAdminRole :: "user_mini \<Rightarrow> bool" where
  "isAdminRole u \<longleftrightarrow> js_lower (um_roleName u) \<in> {''admin'', ''administrator''}"

definition employee_department :: "user_mini \<Rightarrow> int option" where
  "employee_department u = Option.bind (um_employee u) em_departmentId"

definition isDepartmentManager :: "user_mini \<Rightarrow> int \<Rightarrow> bool" where
  "isDepartmentManager u departmentId \<longleftrightarrow>
     list_ex (\<lambda>(d, r). r = ''department_manager'' \<and> (departmentId = 0 \<or> d = departmentId)) (um_departmentRoles u) \<or>
     um_roleName u = ''department_manager'' \<and> (departmentId = 0 \<or> employee_department u = Some departmentId)"

definition loadUserMini :: "user_id \<Rightarrow> appeal_db \<Rightarrow> user_mini option" where
  "loadUserMini i db = List.find (\<lambda>u. um_id u = i) (ab_users db)"

text \<open>The department of the employee profile of a user, as \<^verbatim>\<open>prisma.employeeProfile\<close> finds it.\<close>

definition profile_department :: "user_id \<Rightarrow> appeal_db \<Rightarrow> int option" where
  "profile_department i db = Option.bind (loadUserMini i db) employee_department"

section \<open>Reads and writes\<close>

definition valid_id :: "int \<Rightarrow> bool" where
  "valid_id i \<longleftrightarrow> 0 < i"

definition find_appeal :: "int \<Rightarrow> appeal_db \<Rightarrow> appeal option" where
  "find_appeal i db = List.find (\<lambda>a. ap_id a = i) (ab_appeals db)"

definition members_of :: "int \<Rightarrow> participant list \<Rightarrow> user_id list" where
  "members_of i ps = map pt_userId (filter (\<lambda>p. pt_appealId p = i) ps)"

text \<open>\<^verbatim>\<open>Array.from(new Set(xs))\<close>: the first occurrences, in order.\<close>

definition js_set :: "'a list \<Rightarrow> 'a list" where
  "js_set xs = rev (remdups (rev xs))"

lemma set_js_set [simp]: "set (js_set xs) = set xs"
  by (simp add: js_set_def)

lemma distinct_js_set [simp]: "distinct (js_set xs)"
  by (simp add: js_set_def)

definition write_appeal :: "millis \<Rightarrow> int \<Rightarrow> (appeal \<Rightarrow> appeal) \<Rightarrow> appeal_db \<Rightarrow> appeal_db" where
  "write_appeal now i f db =
     db\<lparr>ab_appeals := update_where (\<lambda>a. ap_id a = i) (\<lambda>a. (f a)\<lparr>ap_updatedAt := now\<rparr>) (ab_appeals db)\<rparr>"

text \<open>The update of the status and its history row, which four handlers write only when the status differs.\<close>

definition change_status :: "millis \<Rightarrow> user_id \<Rightarrow> appeal \<Rightarrow> appeal_status \<Rightarrow> appeal_db \<Rightarrow> appeal_db" where
  "change_status now u a s db =
     (if s = ap_status a then db
      else (write_appeal now (ap_id a) (\<lambda>r. r\<lparr>ap_status := s\<rparr>) db)
             \<lparr>ab_history := ab_history db @
                [\<lparr>sc_appealId = ap_id a, sc_oldStatus = ap_status a, sc_newStatus = s,
                  sc_changedById = u, sc_changedAt = now\<rparr>]\<rparr>)"

definition add_message ::
  "millis \<Rightarrow> int \<Rightarrow> user_id \<Rightarrow> message_text option \<Rightarrow> message_type \<Rightarrow> system_event option \<Rightarrow> appeal_db \<Rightarrow> appeal_db" where
  "add_message now appealId senderId t ty e db =
     db\<lparr>ab_messages := ab_messages db @
          [\<lparr>ms_id = ab_nextMessage db, ms_appealId = appealId, ms_senderId = senderId, ms_text = t, ms_type = ty,
            ms_systemEvent = e, ms_editedAt = None, ms_deleted = False, ms_createdAt = now\<rparr>],
        ab_nextMessage := ab_nextMessage db + 1\<rparr>"

definition createSystemMessage :: "millis \<Rightarrow> int \<Rightarrow> user_id \<Rightarrow> system_event \<Rightarrow> appeal_db \<Rightarrow> appeal_db" where
  "createSystemMessage now appealId actorId e db =
     add_message now appealId actorId (Some Composed) SYSTEM_MESSAGE (Some e) db"

definition apply_if :: "bool \<Rightarrow> ('s \<Rightarrow> 's) \<Rightarrow> 's \<Rightarrow> 's" where
  "apply_if c f s = (if c then f s else s)"

section \<open>Attachments\<close>

record upload =
  up_mimetype :: string
  up_stored :: "(string \<times> string) option"

text \<open>
  An uploaded file with its media type and what the object store answers: the key and the name of
  the stored object, or a failure.
\<close>

definition detectAttachmentType :: "string \<Rightarrow> attachment_type" where
  "detectAttachmentType mime =
     (if starts_with ''image/'' mime then IMAGE else if starts_with ''audio/'' mime then AUDIO else FILE)"

definition attachment_row :: "int \<Rightarrow> string \<Rightarrow> string \<times> string \<Rightarrow> attachment" where
  "attachment_row messageId mime stored =
     \<lparr>at_messageId = messageId, at_fileUrl = fst stored, at_fileName = snd stored, at_fileType = detectAttachmentType mime\<rparr>"

text \<open>\<^verbatim>\<open>saveMulterFilesToAppealMessage\<close>: the first failure raises.\<close>

fun saveMulterFilesToAppealMessage :: "int \<Rightarrow> upload list \<Rightarrow> attachment list \<Rightarrow> attachment list option" where
  "saveMulterFilesToAppealMessage messageId [] acc = Some acc"
| "saveMulterFilesToAppealMessage messageId (f # fs) acc =
     (case up_stored f of
        None \<Rightarrow> None
      | Some stored \<Rightarrow> saveMulterFilesToAppealMessage messageId fs (acc @ [attachment_row messageId (up_mimetype f) stored]))"

end
