(* ===== verification/Appeal_Flow.thy ===== *)
theory Appeal_Flow
  imports Appeal_Data
begin

text \<open>
  The handlers of \<^verbatim>\<open>src/src/routes/appeals.ts\<close> that create an appeal and move it
  through its life: assignment, self-assignment, transfer to another department, status, deadline
  and watchers.  Each is one function from the request and the tables to its answer and the new
  tables.
\<close>

section \<open>Creation\<close>

record create_body =
  cb_toDepartmentId :: int
  cb_title :: "string option"
  cb_text :: string
  cb_priority :: "appeal_priority option"
  cb_deadline :: "string option"

text \<open>
  \<^verbatim>\<open>zISODateString\<close>: an empty text is no date, any other has to be one for the date
  parser of the host.
\<close>

definition iso_date :: "(string \<Rightarrow> millis option) \<Rightarrow> string option \<Rightarrow> (millis option) option" where
  "iso_date host_date v =
     (let t = js_trim (or_empty v) in if t = [] then Some None else map_option Some (host_date t))"

text \<open>
  \<^verbatim>\<open>POST /appeals\<close>.  The number is the next after the highest; the files are stored
  inside the transaction, so that a failed upload leaves no appeal behind.
\<close>

definition next_number :: "appeal_db \<Rightarrow> int" where
  "next_number db = (case map ap_number (ab_appeals db) of [] \<Rightarrow> 1 | n # ns \<Rightarrow> fold max ns n + 1)"

definition create_appeal ::
  "(string \<Rightarrow> millis option) \<Rightarrow> millis \<Rightarrow> user_id \<Rightarrow> create_body \<Rightarrow> upload list \<Rightarrow> appeal_db \<Rightarrow> (appeal_error + int) \<times> appeal_db" where
  "create_appeal host_date now userId body files db =
     (let normalizedText = js_trim (cb_text body); title = js_trim (or_empty (cb_title body)) in
      case iso_date host_date (cb_deadline body) of None \<Rightarrow> (Inl BAD_REQUEST, db) | Some deadline \<Rightarrow>
      if \<not> valid_id (cb_toDepartmentId body) \<or> normalizedText = [] then (Inl BAD_REQUEST, db)
      else if List.find (\<lambda>d. dp_id d = cb_toDepartmentId body) (ab_departments db) = None then (Inl NOT_FOUND, db)
      else
        let appealId = ab_nextAppeal db;
            messageId = ab_nextMessage db;
            a = \<lparr>ap_id = appealId, ap_number = next_number db, ap_fromDepartmentId = profile_department userId db,
                 ap_toDepartmentId = cb_toDepartmentId body, ap_createdById = userId, ap_status = OPEN,
                 ap_priority = (case cb_priority body of None \<Rightarrow> MEDIUM | Some p \<Rightarrow> p), ap_deadline = deadline,
                 ap_title = (if title = [] then normalizedText else title), ap_laborNotRequired = False,
                 ap_createdAt = now, ap_updatedAt = now\<rparr>;
            db1 = add_message now appealId userId (Some (Typed normalizedText)) USER_MESSAGE None
                    (db\<lparr>ab_appeals := ab_appeals db @ [a], ab_nextAppeal := appealId + 1\<rparr>)
        in case saveMulterFilesToAppealMessage messageId files (ab_attachments db1) of
             None \<Rightarrow> (Inl INTERNAL, db)
           | Some rows \<Rightarrow> (Inr appealId, db1\<lparr>ab_attachments := rows\<rparr>))"

section \<open>Assignment\<close>

text \<open>
  \<^verbatim>\<open>PUT /appeals/:id/assign\<close>.  A user that does not exist violates the foreign key,
  which rolls the transaction back.
\<close>

definition assigned_status :: "appeal \<Rightarrow> user_id list \<Rightarrow> appeal_status" where
  "assigned_status a assignees =
     (if assignees \<noteq> [] then IN_PROGRESS else if ap_status a = IN_PROGRESS then OPEN else ap_status a)"

definition replace_assignees :: "int \<Rightarrow> user_id list \<Rightarrow> appeal_db \<Rightarrow> appeal_db" where
  "replace_assignees i us db =
     db\<lparr>ab_assignees := filter (\<lambda>p. pt_appealId p \<noteq> i) (ab_assignees db) @ map (\<lambda>u. \<lparr>pt_appealId = i, pt_userId = u\<rparr>) us\<rparr>"

definition assign_appeal ::
  "millis \<Rightarrow> user_id \<Rightarrow> int \<Rightarrow> user_id list \<Rightarrow> appeal_db \<Rightarrow> (appeal_error + appeal_status) \<times> appeal_db" where
  "assign_appeal now actorId appealId assigneeIds db =
     (if \<not> valid_id appealId \<or> \<not> list_all valid_id assigneeIds then (Inl BAD_REQUEST, db)
      else case find_appeal appealId db of None \<Rightarrow> (Inl NOT_FOUND, db) | Some a \<Rightarrow>
      case loadUserMini actorId db of None \<Rightarrow> (Inl NOT_FOUND, db) | Some actor \<Rightarrow>
      if \<not> (isAdminRole actor \<or> isDepartmentManager actor (ap_toDepartmentId a)) then (Inl FORBIDDEN, db)
      else
        let prevAssignees = members_of appealId (ab_assignees db);
            nextAssignees = js_set assigneeIds;
            added = filter (\<lambda>u. u \<notin> set prevAssignees) nextAssignees;
            removed = filter (\<lambda>u. u \<notin> set nextAssignees) prevAssignees;
            nextStatus = assigned_status a nextAssignees
        in if list_ex (\<lambda>u. loadUserMini u db = None) nextAssignees then (Inl INTERNAL, db)
           else
             (Inr nextStatus,
              apply_if (nextStatus \<noteq> ap_status a) (createSystemMessage now appealId actorId (StatusChanged (ap_status a) nextStatus))
              (apply_if (added \<noteq> [] \<or> removed \<noteq> []) (createSystemMessage now appealId actorId (AssigneesChanged added removed))
              (write_appeal now appealId (\<lambda>r. r)
              (change_status now actorId a nextStatus
              (replace_assignees appealId nextAssignees db))))))"

text \<open>\<^verbatim>\<open>POST /appeals/:id/claim\<close>: an employee of the department takes the appeal.\<close>

definition claim_appeal ::
  "millis \<Rightarrow> user_id \<Rightarrow> int \<Rightarrow> appeal_db \<Rightarrow> (appeal_error + user_id list) \<times> appeal_db" where
  "claim_appeal now userId appealId db =
     (if \<not> valid_id appealId then (Inl BAD_REQUEST, db)
      else case find_appeal appealId db of None \<Rightarrow> (Inl NOT_FOUND, db) | Some a \<Rightarrow>
      if profile_department userId db \<noteq> Some (ap_toDepartmentId a) then (Inl FORBIDDEN, db)
      else
        let prevAssignees = members_of appealId (ab_assignees db);
            alreadyAssigned = (userId \<in> set prevAssignees)
        in (Inr (if alreadyAssigned then prevAssignees else prevAssignees @ [userId]),
            apply_if (ap_status a \<noteq> IN_PROGRESS) (createSystemMessage now appealId userId (StatusChanged (ap_status a) IN_PROGRESS))
            (apply_if (\<not> alreadyAssigned) (createSystemMessage now appealId userId (AssigneesChanged [userId] []))
            (write_appeal now appealId (\<lambda>r. r)
            (change_status now userId a IN_PROGRESS
            (apply_if (\<not> alreadyAssigned)
              (\<lambda>d. d\<lparr>ab_assignees := ab_assignees d @ [\<lparr>pt_appealId = appealId, pt_userId = userId\<rparr>]\<rparr>) db))))))"

section \<open>Department, status, deadline, watchers\<close>

text \<open>\<^verbatim>\<open>PUT /appeals/:id/department\<close>: the appeal starts over in the other department.\<close>

definition move_department ::
  "millis \<Rightarrow> user_id \<Rightarrow> int \<Rightarrow> int \<Rightarrow> appeal_db \<Rightarrow> (appeal_error + appeal_status \<times> int) \<times> appeal_db" where
  "move_department now actorId appealId departmentId db =
     (if \<not> valid_id appealId \<or> \<not> valid_id departmentId then (Inl BAD_REQUEST, db)
      else case find_appeal appealId db of None \<Rightarrow> (Inl NOT_FOUND, db) | Some a \<Rightarrow>
      case loadUserMini actorId db of None \<Rightarrow> (Inl NOT_FOUND, db) | Some actor \<Rightarrow>
      if \<not> (isAdminRole actor \<or> isDepartmentManager actor (ap_toDepartmentId a)) then (Inl FORBIDDEN, db)
      else if ap_toDepartmentId a = departmentId then (Inr (ap_status a, departmentId), db)
      else if List.find (\<lambda>d. dp_id d = departmentId) (ab_departments db) = None then (Inl NOT_FOUND, db)
      else
        let prevAssignees = members_of appealId (ab_assignees db)
        in (Inr (OPEN, departmentId),
            apply_if (ap_status a \<noteq> OPEN) (createSystemMessage now appealId actorId (StatusChanged (ap_status a) OPEN))
            (apply_if (prevAssignees \<noteq> []) (createSystemMessage now appealId actorId (AssigneesChanged [] prevAssignees))
            (createSystemMessage now appealId actorId (DepartmentChanged (ap_toDepartmentId a) departmentId)
            (change_status now actorId a OPEN
            (write_appeal now appealId (\<lambda>r. r\<lparr>ap_toDepartmentId := departmentId\<rparr>)
            (replace_assignees appealId [] db)))))))"

text \<open>\<^verbatim>\<open>PUT /appeals/:id/status\<close>: who may set which status.\<close>

definition has_access :: "user_mini \<Rightarrow> appeal \<Rightarrow> appeal_db \<Rightarrow> bool" where
  "has_access actor a db \<longleftrightarrow>
     ap_createdById a = um_id actor \<or> um_id actor \<in> set (members_of (ap_id a) (ab_assignees db)) \<or>
     profile_department (um_id actor) db = Some (ap_toDepartmentId a) \<or> isAdminRole actor"

definition status_allowed :: "user_mini \<Rightarrow> appeal \<Rightarrow> appeal_status \<Rightarrow> appeal_db \<Rightarrow> bool" where
  "status_allowed actor a s db =
     (if isAdminRole actor \<or> isDepartmentManager actor (ap_toDepartmentId a) then True
      else if ap_createdById a = um_id actor then s = COMPLETED \<or> ap_status a = RESOLVED \<and> s = IN_PROGRESS
      else if um_id actor \<in> set (members_of (ap_id a) (ab_assignees db)) then s = RESOLVED
      else False)"

definition update_status ::
  "millis \<Rightarrow> user_id \<Rightarrow> int \<Rightarrow> appeal_status \<Rightarrow> appeal_db \<Rightarrow> (appeal_error + appeal_status) \<times> appeal_db" where
  "update_status now userId appealId s db =
     (if \<not> valid_id appealId then (Inl BAD_REQUEST, db)
      else case find_appeal appealId db of None \<Rightarrow> (Inl NOT_FOUND, db) | Some a \<Rightarrow>
      case loadUserMini userId db of None \<Rightarrow> (Inl NOT_FOUND, db) | Some actor \<Rightarrow>
      if \<not> has_access actor a db \<and> \<not> isDepartmentManager actor (ap_toDepartmentId a) then (Inl FORBIDDEN, db)
      else if \<not> status_allowed actor a s db then (Inl FORBIDDEN, db)
      else if s = ap_status a then (Inr s, db)
      else (Inr s,
            createSystemMessage now appealId userId (StatusChanged (ap_status a) s)
              (change_status now userId a s db)))"

text \<open>\<^verbatim>\<open>PUT /appeals/:id/deadline\<close>\<close>

definition update_deadline ::
  "(string \<Rightarrow> millis option) \<Rightarrow> millis \<Rightarrow> user_id \<Rightarrow> int \<Rightarrow> string option \<Rightarrow> appeal_db \<Rightarrow>
   (appeal_error + millis option) \<times> appeal_db" where
  "update_deadline host_date now userId appealId deadline db =
     (if \<not> valid_id appealId then (Inl BAD_REQUEST, db)
      else case iso_date host_date deadline of None \<Rightarrow> (Inl BAD_REQUEST, db) | Some nextDeadline \<Rightarrow>
      case find_appeal appealId db of None \<Rightarrow> (Inl NOT_FOUND, db) | Some a \<Rightarrow>
      case loadUserMini userId db of None \<Rightarrow> (Inl NOT_FOUND, db) | Some actor \<Rightarrow>
      if ap_createdById a \<noteq> userId \<and> \<not> isAdminRole actor then (Inl FORBIDDEN, db)
      else if ap_deadline a = nextDeadline then (Inr nextDeadline, db)
      else (Inr nextDeadline,
            createSystemMessage now appealId userId (DeadlineChanged (ap_deadline a) nextDeadline)
              (write_appeal now appealId (\<lambda>r. r\<lparr>ap_deadline := nextDeadline\<rparr>) db)))"

text \<open>
  \<^verbatim>\<open>PUT /appeals/:id/watchers\<close>: the rows are deleted and written one by one, outside a
  transaction; a second row of the same user or an unknown user raises.
\<close>

fun write_watchers :: "int \<Rightarrow> user_id list \<Rightarrow> appeal_db \<Rightarrow> bool \<times> appeal_db" where
  "write_watchers i [] db = (True, db)"
| "write_watchers i (u # us) db =
     (if loadUserMini u db = None \<or> u \<in> set (members_of i (ab_watchers db)) then (False, db)
      else write_watchers i us (db\<lparr>ab_watchers := ab_watchers db @ [\<lparr>pt_appealId = i, pt_userId = u\<rparr>]\<rparr>))"

definition update_watchers :: "int \<Rightarrow> user_id list \<Rightarrow> appeal_db \<Rightarrow> (appeal_error + user_id list) \<times> appeal_db" where
  "update_watchers appealId watcherIds db =
     (if \<not> valid_id appealId \<or> \<not> list_all valid_id watcherIds then (Inl BAD_REQUEST, db)
      else case find_appeal appealId db of None \<Rightarrow> (Inl NOT_FOUND, db) | Some a \<Rightarrow>
      case write_watchers appealId watcherIds (db\<lparr>ab_watchers := filter (\<lambda>p. pt_appealId p \<noteq> appealId) (ab_watchers db)\<rparr>) of
        (ok, db1) \<Rightarrow> (if ok then Inr watcherIds else Inl INTERNAL, db1))"

end
