(* ===== verification/Iso_Date.thy ===== *)
theory Iso_Date
  imports Prelude
begin

text \<open>
  The date library as far as the sources format and read timestamps in the ISO form: the calendar
  of ECMAScript (days since 1970, leap years, months), \<^verbatim>\<open>Date.prototype.toISOString\<close>
  and the reading of that form by \<^verbatim>\<open>new Date\<close>.  Reading inverts writing for every
  time of the years 0 to 9999.
\<close>

section \<open>Calendar\<close>

definition day_from_year :: "int \<Rightarrow> int" where
  "day_from_year y = 365 * (y - 1970) + (y - 1969) div 4 - (y - 1901) div 100 + (y - 1601) div 400"

definition leap :: "int \<Rightarrow> bool" where
  "leap y \<longleftrightarrow> y mod 4 = 0 \<and> (y mod 100 \<noteq> 0 \<or> y mod 400 = 0)"

text \<open>The year of a day: an estimate from the mean length of a year, off by at most one.\<close>

definition year_from_day :: "int \<Rightarrow> int" where
  "year_from_day d =
     (let y = 1970 + (400 * d) div 146097 in
      if d < day_from_year y then y - 1 else if day_from_year (y + 1) \<le> d then y + 1 else y)"

lemma div_interval: "0 < k \<Longrightarrow> k * (z div k) \<le> z \<and> z < k * (z div k) + k" for k :: int
  using mult_div_mod_eq [of k z] pos_mod_sign [of k z] pos_mod_bound [of k z] by linarith

lemma year_arith:
  fixes y a b c :: int
  shows "(y - 1969) - 3 \<le> 4 * a \<Longrightarrow> 100 * b \<le> y - 1901 \<Longrightarrow> (y - 1601) - 399 \<le> 400 * c \<Longrightarrow>
      146097 * (y - 1970) - 506 \<le> 400 * (365 * (y - 1970) + a - b + c)"
    and "4 * a \<le> y - 1969 \<Longrightarrow> (y - 1901) - 99 \<le> 100 * b \<Longrightarrow> 400 * c \<le> y - 1601 \<Longrightarrow>
      400 * (365 * (y - 1970) + a - b + c) \<le> 146097 * (y - 1970) + 589"
  by (simp_all add: algebra_simps)

lemma day_from_year_bounds:
  "146097 * (y - 1970) - 506 \<le> 400 * day_from_year y" "400 * day_from_year y \<le> 146097 * (y - 1970) + 589"
proof -
  have d: "(y - 1969) - 3 \<le> 4 * ((y - 1969) div 4)" "4 * ((y - 1969) div 4) \<le> y - 1969"
    "(y - 1901) - 99 \<le> 100 * ((y - 1901) div 100)" "100 * ((y - 1901) div 100) \<le> y - 1901"
    "(y - 1601) - 399 \<le> 400 * ((y - 1601) div 400)" "400 * ((y - 1601) div 400) \<le> y - 1601"
    using div_interval [of 4 "y - 1969"] div_interval [of 100 "y - 1901"] div_interval [of 400 "y - 1601"] by simp_all
  show "146097 * (y - 1970) - 506 \<le> 400 * day_from_year y"
    unfolding day_from_year_def by (rule year_arith(1) [OF d(1,4,5)])
  show "400 * day_from_year y \<le> 146097 * (y - 1970) + 589"
    unfolding day_from_year_def by (rule year_arith(2) [OF d(2,3,6)])
qed

lemma year_from_day_range: "day_from_year (year_from_day d) \<le> d \<and> d < day_from_year (year_from_day d + 1)"
proof -
  define y where "y = 1970 + (400 * d) div 146097"
  have lo: "146097 * (y - 1970) \<le> 400 * d" and hi: "400 * d < 146097 * (y - 1970) + 146097"
    unfolding y_def using div_interval [of 146097 "400 * d"] by simp_all
  consider "d < day_from_year y" | "day_from_year y \<le> d" "day_from_year (y + 1) \<le> d"
    | "day_from_year y \<le> d" "d < day_from_year (y + 1)" by linarith
  then show ?thesis
  proof cases
    case 1
    then have "year_from_day d = y - 1" by (simp add: year_from_day_def y_def Let_def)
    moreover have "400 * day_from_year (y - 1) \<le> 400 * d" using day_from_year_bounds(2) [of "y - 1"] lo by simp
    ultimately show ?thesis using 1 by simp
  next
    case 2
    then have "year_from_day d = y + 1" by (simp add: year_from_day_def y_def Let_def)
    moreover have "400 * d < 400 * day_from_year (y + 1 + 1)" using day_from_year_bounds(1) [of "y + 1 + 1"] hi by (simp add: algebra_simps)
    ultimately show ?thesis using 2 by simp
  next
    case 3
    then have "year_from_day d = y" by (simp add: year_from_day_def y_def Let_def)
    then show ?thesis using 3 by simp
  qed
qed

lemma div_succ: "0 < k \<Longrightarrow> (z + 1) div k = z div k + (if (z + 1) mod k = 0 then 1 else 0)" for k :: int
proof -
  assume k: "0 < k"
  show ?thesis
  proof (cases "(z + 1) mod k = 0")
    case True
    then obtain q where q: "z + 1 = k * q" by (auto simp: mod_eq_0_iff_dvd)
    then have "z div k = q - 1" using k by (intro int_div_pos_eq [where r = "k - 1"]) (auto simp: algebra_simps)
    then show ?thesis using True k q by simp
  next
    case False
    then have "z mod k + 1 \<noteq> k" by (metis mod_add_left_eq mod_self)
    moreover have "z mod k < k" using k by simp
    ultimately have "z mod k + 1 < k \<and> z + 1 = k * (z div k) + (z mod k + 1)" by simp
    moreover have "0 \<le> z mod k" using k by simp
    ultimately have "(z + 1) div k = z div k" by (intro int_div_pos_eq [where r = "z mod k + 1"]) auto
    then show ?thesis using False by simp
  qed
qed

lemma mod_of_mod: "k dvd n \<Longrightarrow> y mod n = 0 \<longrightarrow> y mod k = 0" for y :: int
  by (metis mod_0 mod_mod_cancel)

lemma dvd_numerals: "(100 :: int) dvd 400" "(4 :: int) dvd 100"
  by simp_all

lemma leap_sum: "(r \<longrightarrow> q) \<Longrightarrow> (q \<longrightarrow> p) \<Longrightarrow>
    (if p then 1 else 0) - (if q then 1 else 0) + (if r then 1 else 0) = (if p \<and> (\<not> q \<or> r) then 1 else (0 :: int))"
  by (cases p; cases q; cases r) simp_all

lemma year_sum: "A' = A + p \<Longrightarrow> B' = B + q \<Longrightarrow> C' = C + r \<Longrightarrow> p - q + r = s \<Longrightarrow> D' = z + 365 + A' - B' + C' \<Longrightarrow>
    D = z + A - B + C \<Longrightarrow> n = 365 + s \<Longrightarrow> D' = D + n" for A :: int
  by simp

lemma year_length: "day_from_year (y + 1) = day_from_year y + (if leap y then 366 else 365)"
proof -
  have m: "(y - 1968) mod 4 = y mod 4" "(y - 1900) mod 100 = y mod 100" "(y - 1600) mod 400 = y mod 400"
    using mod_mult_self2 [of y 4 "-492"] mod_mult_self2 [of y 100 "-19"] mod_mult_self2 [of y 400 "-4"] by simp_all
  have e: "y - 1969 + 1 = y - 1968" "y - 1901 + 1 = y - 1900" "y - 1601 + 1 = y - 1600"
    by simp_all
  show ?thesis
  proof (rule year_sum)
    show "(y - 1968) div 4 = (y - 1969) div 4 + (if y mod 4 = 0 then 1 else 0)"
      using div_succ [of 4 "y - 1969"] unfolding e(1) m(1) by simp
    show "(y - 1900) div 100 = (y - 1901) div 100 + (if y mod 100 = 0 then 1 else 0)"
      using div_succ [of 100 "y - 1901"] unfolding e(2) m(2) by simp
    show "(y - 1600) div 400 = (y - 1601) div 400 + (if y mod 400 = 0 then 1 else 0)"
      using div_succ [of 400 "y - 1601"] unfolding e(3) m(3) by simp
    show "(if y mod 4 = 0 then 1 else 0) - (if y mod 100 = 0 then 1 else 0) + (if y mod 400 = 0 then 1 else 0) =
      (if y mod 4 = 0 \<and> (y mod 100 \<noteq> 0 \<or> y mod 400 = 0) then 1 else (0 :: int))"
      by (rule leap_sum; rule mod_of_mod, rule dvd_numerals)
    show "day_from_year (y + 1) = 365 * (y - 1970) + 365 + (y - 1968) div 4 - (y - 1900) div 100 + (y - 1600) div 400"
      by (simp add: day_from_year_def)
    show "day_from_year y = 365 * (y - 1970) + (y - 1969) div 4 - (y - 1901) div 100 + (y - 1601) div 400"
      by (simp add: day_from_year_def)
    show "(if leap y then 366 else 365) = 365 + (if y mod 4 = 0 \<and> (y mod 100 \<noteq> 0 \<or> y mod 400 = 0) then 1 else (0 :: int))"
      by (simp only: leap_def split: if_splits) simp
  qed
qed

text \<open>The days of a year before each month, and the month and day of a day of the year.\<close>

definition month_starts :: "bool \<Rightarrow> int list" where
  "month_starts l = (let b = (if l then 1 else 0) in
     [0, 31, 59 + b, 90 + b, 120 + b, 151 + b, 181 + b, 212 + b, 243 + b, 273 + b, 304 + b, 334 + b])"

definition month_start :: "bool \<Rightarrow> int \<Rightarrow> int" where
  "month_start l m = month_starts l ! nat (m - 1)"

definition month_end :: "bool \<Rightarrow> int \<Rightarrow> int" where
  "month_end l m = (if m = 12 then (if l then 366 else 365) else month_start l (m + 1))"

definition month_of :: "bool \<Rightarrow> int \<Rightarrow> int" where
  "month_of l k = int (length (takeWhile (\<lambda>s. s \<le> k) (month_starts l)))"

lemma month_of_range:
  assumes "0 \<le> k" and "k < (if l then 366 else 365)"
  shows "1 \<le> month_of l k \<and> month_of l k \<le> 12 \<and> month_start l (month_of l k) \<le> k \<and> k < month_end l (month_of l k) \<and>
    month_end l (month_of l k) \<le> month_start l (month_of l k) + 31"
  using assms by (cases l) (auto simp: month_of_def month_starts_def month_start_def month_end_def Let_def)

section \<open>Writing and reading\<close>

definition digits2 :: "int \<Rightarrow> string" where
  "digits2 n = [digit_char (nat (n div 10)), digit_char (nat (n mod 10))]"

definition digits3 :: "int \<Rightarrow> string" where
  "digits3 n = digit_char (nat (n div 100)) # digits2 (n mod 100)"

definition digits4 :: "int \<Rightarrow> string" where
  "digits4 n = digit_char (nat (n div 1000)) # digits3 (n mod 1000)"

definition show_year :: "int \<Rightarrow> string" where
  "show_year y =
     (if 0 \<le> y \<and> y \<le> 9999 then digits4 y
      else (if y < 0 then ''-'' else ''+'') @ digits3 (\<bar>y\<bar> div 1000) @ digits3 (\<bar>y\<bar> mod 1000))"

definition toISOString :: "millis \<Rightarrow> string" where
  "toISOString t =
     (let d = t div 86400000; y = year_from_day d; k = d - day_from_year y; m = month_of (leap y) k;
          r = t mod 86400000
      in show_year y @ ''-'' @ digits2 m @ ''-'' @ digits2 (k - month_start (leap y) m + 1) @ ''T'' @
         digits2 (r div 3600000) @ '':'' @ digits2 (r div 60000 mod 60) @ '':'' @ digits2 (r div 1000 mod 60) @ ''.'' @
         digits3 (r mod 1000) @ ''Z'')"

definition number_of :: "string \<Rightarrow> int option" where
  "number_of s = (if s \<noteq> [] \<and> list_all js_digit s then Some (int (nat_of_digits s)) else None)"

definition iso_time :: "int \<Rightarrow> int \<Rightarrow> int \<Rightarrow> int \<Rightarrow> int \<Rightarrow> int \<Rightarrow> int \<Rightarrow> millis option" where
  "iso_time y m d h mi s ms =
     (if 1 \<le> m \<and> m \<le> 12 \<and> 1 \<le> d \<and> d \<le> month_end (leap y) m - month_start (leap y) m \<and> h < 24 \<and> mi < 60 \<and> s < 60
      then Some ((day_from_year y + month_start (leap y) m + (d - 1)) * 86400000 + h * 3600000 + mi * 60000 + s * 1000 + ms)
      else None)"

definition parse_iso :: "string \<Rightarrow> millis option" where
  "parse_iso s =
     (if length s = 24 \<and> s ! 4 = CHR ''-'' \<and> s ! 7 = CHR ''-'' \<and> s ! 10 = CHR ''T'' \<and> s ! 13 = CHR '':'' \<and>
         s ! 16 = CHR '':'' \<and> s ! 19 = CHR ''.'' \<and> s ! 23 = CHR ''Z''
      then (case (number_of (slice 0 4 s), number_of (slice 5 7 s), number_of (slice 8 10 s), number_of (slice 11 13 s),
                  number_of (slice 14 16 s), number_of (slice 17 19 s), number_of (slice 20 23 s)) of
              (Some y, Some m, Some d, Some h, Some mi, Some sec, Some ms) \<Rightarrow> iso_time y m d h mi sec ms
            | _ \<Rightarrow> None)
      else None)"

text \<open>\<^verbatim>\<open>new Date(text)\<close>: texts of another form are left to the date parser of the host.\<close>

definition date_of_text :: "(string \<Rightarrow> millis option) \<Rightarrow> string \<Rightarrow> millis option" where
  "date_of_text host_date s = (case parse_iso s of None \<Rightarrow> host_date s | Some t \<Rightarrow> Some t)"

section \<open>Reading inverts writing\<close>

lemma nat_of_digits_Cons: "nat_of_digits (c # cs) = digit_val c * 10 ^ length cs + nat_of_digits cs"
proof (induction cs rule: rev_induct)
  case Nil
  then show ?case by (simp add: js_simps)
next
  case (snoc x xs)
  have "nat_of_digits ((c # xs) @ [x]) = 10 * nat_of_digits (c # xs) + digit_val x"
    by (simp only: nat_of_digits_snoc)
  then show ?case using snoc by (simp add: js_simps algebra_simps)
qed

definition digit_value :: "int \<Rightarrow> string \<Rightarrow> bool" where
  "digit_value n s \<longleftrightarrow> list_all js_digit s \<and> int (nat_of_digits s) = n"

lemma digit_value_one: "0 \<le> n \<Longrightarrow> n < 10 \<Longrightarrow> digit_value n [digit_char (nat n)]"
  by (simp add: digit_value_def js_simps)

lemma digit_value_Cons: "0 \<le> k \<Longrightarrow> k < 10 \<Longrightarrow> digit_value n s \<Longrightarrow> digit_value (k * 10 ^ length s + n) (digit_char (nat k) # s)"
  by (simp add: digit_value_def js_simps nat_of_digits_Cons)

lemma digits2_value: assumes "0 \<le> n" and "n < 100" shows "digit_value n (digits2 n)"
proof -
  have "digit_value ((n div 10) * 10 ^ length [digit_char (nat (n mod 10))] + n mod 10) (digit_char (nat (n div 10)) # [digit_char (nat (n mod 10))])"
    using assms by (intro digit_value_Cons digit_value_one) linarith+
  then show ?thesis by (simp add: digits2_def)
qed

lemma digits3_value: assumes "0 \<le> n" and "n < 1000" shows "digit_value n (digits3 n)"
proof -
  have "digit_value ((n div 100) * 10 ^ length (digits2 (n mod 100)) + n mod 100) (digit_char (nat (n div 100)) # digits2 (n mod 100))"
    using assms by (intro digit_value_Cons digits2_value) linarith+
  then show ?thesis by (simp add: digits3_def digits2_def)
qed

lemma digits4_value: assumes "0 \<le> n" and "n < 10000" shows "digit_value n (digits4 n)"
proof -
  have "digit_value ((n div 1000) * 10 ^ length (digits3 (n mod 1000)) + n mod 1000) (digit_char (nat (n div 1000)) # digits3 (n mod 1000))"
    using assms by (intro digit_value_Cons digits3_value) linarith+
  then show ?thesis by (simp add: digits4_def digits3_def digits2_def)
qed

lemma number_of_value: "digit_value n s \<Longrightarrow> s \<noteq> [] \<Longrightarrow> number_of s = Some n"
  by (auto simp: digit_value_def number_of_def)

lemma digits_length [simp]: "length (digits2 n) = 2" "length (digits3 n) = 3" "length (digits4 n) = 4"
  by (simp_all add: digits2_def digits3_def digits4_def)

lemma digits_not_nil [simp]: "digits2 n \<noteq> []" "digits3 n \<noteq> []" "digits4 n \<noteq> []"
  by (simp_all add: digits2_def digits3_def digits4_def)

lemma digits_read [simp]:
  "0 \<le> n \<Longrightarrow> n < 100 \<Longrightarrow> number_of (digits2 n) = Some n"
  "0 \<le> n \<Longrightarrow> n < 1000 \<Longrightarrow> number_of (digits3 n) = Some n"
  "0 \<le> n \<Longrightarrow> n < 10000 \<Longrightarrow> number_of (digits4 n) = Some n"
  by (simp_all add: digits2_value digits3_value digits4_value number_of_value)

text \<open>The fields of a time, and that they determine it.\<close>

lemma clock_sum: "M = 60 * H + m \<Longrightarrow> S = 60 * M + s \<Longrightarrow> r = 1000 * S + f \<Longrightarrow>
    H * 3600000 + m * 60000 + s * 1000 + f = r" for r :: int
  by simp

lemma clock_fields:
  fixes r :: int
  assumes "0 \<le> r" and "r < 86400000"
  shows "r div 3600000 < 24 \<and> 0 \<le> r div 3600000 \<and> r div 60000 mod 60 < 60 \<and> r div 1000 mod 60 < 60 \<and> r mod 1000 < 1000 \<and>
    (r div 3600000) * 3600000 + (r div 60000 mod 60) * 60000 + (r div 1000 mod 60) * 1000 + r mod 1000 = r"
proof -
  have n: "(3600000 :: int) = 60000 * 60" "(60000 :: int) = 1000 * 60" by simp_all
  have h: "r div 3600000 = r div 60000 div 60" unfolding n(1) by (rule zdiv_zmult2_eq) simp
  have mi: "r div 60000 = r div 1000 div 60" unfolding n(2) by (rule zdiv_zmult2_eq) simp
  have "(r div 3600000) * 3600000 + (r div 60000 mod 60) * 60000 + (r div 1000 mod 60) * 1000 + r mod 1000 = r"
  proof (rule clock_sum)
    show "r div 60000 = 60 * (r div 3600000) + r div 60000 mod 60" unfolding h by (rule mult_div_mod_eq [symmetric])
    show "r div 1000 = 60 * (r div 60000) + r div 1000 mod 60" unfolding mi by (rule mult_div_mod_eq [symmetric])
    show "r = 1000 * (r div 1000) + r mod 1000" by (rule mult_div_mod_eq [symmetric])
  qed
  moreover have "r div 3600000 < 24" using zdiv_mono1 [of r 86399999 3600000] assms(2) by simp
  moreover have "0 \<le> r div 3600000" using assms(1) by (simp add: pos_imp_zdiv_nonneg_iff)
  moreover have "r div 60000 mod 60 < 60" "r div 1000 mod 60 < 60" "r mod 1000 < 1000"
    by (rule pos_mod_bound, simp)+
  ultimately show ?thesis by (intro conjI)
qed

lemma parse_iso_pattern:
  assumes "length ys = 4" "length ms = 2" "length ds = 2" "length hs = 2" "length is = 2" "length ss = 2" "length fs = 3"
  shows "parse_iso (ys @ ''-'' @ ms @ ''-'' @ ds @ ''T'' @ hs @ '':'' @ is @ '':'' @ ss @ ''.'' @ fs @ ''Z'') =
    (case (number_of ys, number_of ms, number_of ds, number_of hs, number_of is, number_of ss, number_of fs) of
       (Some y, Some m, Some d, Some h, Some mi, Some sec, Some f) \<Rightarrow> iso_time y m d h mi sec f | _ \<Rightarrow> None)"
  using assms by (simp add: parse_iso_def slice_def nth_append numeral_eq_Suc nth_Cons')

definition common_era :: "millis \<Rightarrow> bool" where
  "common_era t \<longleftrightarrow> day_from_year 0 * 86400000 \<le> t \<and> t < day_from_year 10000 * 86400000"

lemma day_from_year_mono: "x \<le> y \<Longrightarrow> day_from_year x \<le> day_from_year y"
proof (induction y rule: int_ge_induct)
  case (step i)
  then show ?case using year_length [of i] by (simp split: if_splits)
qed simp

lemma common_era_year: assumes "common_era t" shows "0 \<le> year_from_day (t div 86400000) \<and> year_from_day (t div 86400000) < 10000"
proof -
  let ?d = "t div 86400000"
  have "day_from_year 0 \<le> ?d \<and> ?d < day_from_year 10000"
    using assms div_interval [of 86400000 t] by (simp add: common_era_def)
  then show ?thesis
    using year_from_day_range [of ?d] day_from_year_mono [of "year_from_day ?d + 1" 0] day_from_year_mono [of 10000 "year_from_day ?d"]
    by linarith
qed

text \<open>The form of a time in the common era, with fields in their ranges.\<close>

lemma iso_form:
  assumes "common_era t"
  obtains y m e h mi s f where
    "toISOString t = digits4 y @ ''-'' @ digits2 m @ ''-'' @ digits2 e @ ''T'' @ digits2 h @ '':'' @ digits2 mi @ '':'' @ digits2 s @ ''.'' @
       digits3 f @ ''Z''"
    and "0 \<le> y \<and> y < 10000" and "1 \<le> m \<and> m \<le> 12" and "1 \<le> e \<and> e < 100" and "0 \<le> h \<and> h < 24" and "0 \<le> mi \<and> mi < 60"
    and "0 \<le> s \<and> s < 60" and "0 \<le> f \<and> f < 1000" and "iso_time y m e h mi s f = Some t"
proof -
  define d where "d = t div 86400000"
  define y where "y = year_from_day d"
  define k where "k = d - day_from_year y"
  define m where "m = month_of (leap y) k"
  define r where "r = t mod 86400000"
  define e where "e = k - month_start (leap y) m + 1"
  have y: "0 \<le> y \<and> y < 10000" using common_era_year [OF assms] by (simp add: y_def d_def)
  have k: "0 \<le> k" "k < (if leap y then 366 else 365)"
    using year_from_day_range [of d] year_length [of y] by (auto simp: k_def y_def)
  note mr = month_of_range [OF k, folded m_def]
  have e: "1 \<le> e \<and> e < 100" "e \<le> month_end (leap y) m - month_start (leap y) m" using mr by (auto simp: e_def)
  have r: "0 \<le> r" "r < 86400000" by (simp_all add: r_def)
  note c = clock_fields [OF r]
  have t: "t = d * 86400000 + r" by (simp add: d_def r_def)
  show ?thesis
  proof (rule that)
    show "toISOString t = digits4 y @ ''-'' @ digits2 m @ ''-'' @ digits2 e @ ''T'' @ digits2 (r div 3600000) @ '':'' @
        digits2 (r div 60000 mod 60) @ '':'' @ digits2 (r div 1000 mod 60) @ ''.'' @ digits3 (r mod 1000) @ ''Z''"
      using y by (simp add: toISOString_def Let_def show_year_def e_def m_def k_def y_def d_def r_def)
    show "iso_time y m e (r div 3600000) (r div 60000 mod 60) (r div 1000 mod 60) (r mod 1000) = Some t"
      using mr e c by (simp add: iso_time_def t e_def k_def)
  qed (use y mr e c in simp_all)
qed

lemma parse_iso_of_time:
  assumes "common_era t"
  shows "parse_iso (toISOString t) = Some t"
  by (rule iso_form [OF assms]) (simp only: parse_iso_pattern digits_length, simp)

lemma digit_not_bar: "digit_value n s \<Longrightarrow> CHR ''|'' \<notin> set s"
  by (auto simp: digit_value_def list_all_iff js_digit_def)

lemma iso_no_bar:
  assumes "common_era t"
  shows "CHR ''|'' \<notin> set (toISOString t) \<and> toISOString t \<noteq> []"
  by (rule iso_form [OF assms])
     (simp add: digit_not_bar [OF digits2_value] digit_not_bar [OF digits3_value] digit_not_bar [OF digits4_value])

end
