(* ===== verification/Appeal_Messages.thy ===== *)
theory Appeal_Messages
  imports Appeal_Flow Iso_Date "HOL-Library.Product_Lexorder"
begin

text \<open>
  The conversation of an appeal (\<^verbatim>\<open>src/src/routes/appeals.ts\<close>): adding, editing and
  deleting messages, the pages in which a client reads them, the marks that say who has read what
  and the counters.  The date parser and the number parser of the host are parameters for texts
  that are not of the form the server itself writes.
\<close>

section \<open>Order and cursors\<close>

definition message_key :: "message \<Rightarrow> millis \<times> int" where
  "message_key m = (ms_createdAt m, ms_id m)"

definition visible :: "int \<Rightarrow> appeal_db \<Rightarrow> message list" where
  "visible appealId db = filter (\<lambda>m. ms_appealId m = appealId \<and> \<not> ms_deleted m) (ab_messages db)"

text \<open>\<^verbatim>\<open>orderBy: [{ createdAt: 'asc' }, { id: 'asc' }]\<close> and the reverse.\<close>

definition oldest_first :: "message list \<Rightarrow> message list" where
  "oldest_first ms = sort_key message_key ms"

definition newest_first :: "message list \<Rightarrow> message list" where
  "newest_first ms = rev (oldest_first ms)"

definition encodeMessageCursor :: "millis \<Rightarrow> int \<Rightarrow> string" where
  "encodeMessageCursor createdAt i = toISOString createdAt @ ''|'' @ show_int i"

definition cursor_number :: "(string \<Rightarrow> rat option) \<Rightarrow> string \<Rightarrow> rat option" where
  "cursor_number host_number s = (case number_of s of None \<Rightarrow> host_number s | Some n \<Rightarrow> Some (of_int n))"

definition decodeMessageCursor ::
  "(string \<Rightarrow> millis option) \<Rightarrow> (string \<Rightarrow> rat option) \<Rightarrow> string option \<Rightarrow> (millis \<times> rat) option" where
  "decodeMessageCursor host_date host_number raw =
     (if \<not> truthy raw then None
      else case split_on (CHR ''|'') (the raw) of
        isoText # idStr # _ \<Rightarrow>
          (if isoText = [] \<or> idStr = [] then None
           else case cursor_number host_number idStr of None \<Rightarrow> None | Some i \<Rightarrow>
             (case date_of_text host_date isoText of None \<Rightarrow> None | Some t \<Rightarrow> Some (t, i)))
      | _ \<Rightarrow> None)"

definition older :: "millis \<times> int \<Rightarrow> message \<Rightarrow> bool" where
  "older c m \<longleftrightarrow> ms_createdAt m < fst c \<or> ms_createdAt m = fst c \<and> ms_id m < snd c"

definition newer :: "millis \<times> int \<Rightarrow> message \<Rightarrow> bool" where
  "newer c m \<longleftrightarrow> fst c < ms_createdAt m \<or> ms_createdAt m = fst c \<and> snd c < ms_id m"

section \<open>Pages\<close>

datatype direction = Before | After
datatype mode = Page | Bootstrap
datatype anchor = FirstUnread | LastUnread

record messages_query =
  mq_limit :: nat
  mq_cursor :: "string option"
  mq_direction :: direction
  mq_mode :: mode
  mq_anchor :: "anchor option"
  mq_before :: "nat option"
  mq_after :: "nat option"

definition valid_query :: "messages_query \<Rightarrow> bool" where
  "valid_query q \<longleftrightarrow> 1 \<le> mq_limit q \<and> mq_limit q \<le> 100 \<and>
     (case mq_before q of None \<Rightarrow> True | Some n \<Rightarrow> n \<le> 200) \<and> (case mq_after q of None \<Rightarrow> True | Some n \<Rightarrow> n \<le> 200)"

definition unread_by :: "user_id \<Rightarrow> appeal_db \<Rightarrow> message \<Rightarrow> bool" where
  "unread_by u db m \<longleftrightarrow>
     ms_senderId m \<noteq> u \<and> \<not> list_ex (\<lambda>r. rr_messageId r = ms_id m \<and> rr_userId r = u) (ab_reads db)"

text \<open>\<^verbatim>\<open>buildMessageCursorWhere\<close> on the messages of an appeal in order.\<close>

definition cursor_where :: "(millis \<times> int) option \<Rightarrow> direction \<Rightarrow> message list \<Rightarrow> message list" where
  "cursor_where c dir ms =
     (case c of None \<Rightarrow> ms | Some k \<Rightarrow> filter (case dir of Before \<Rightarrow> older k | After \<Rightarrow> newer k) ms)"

record slice_of_messages =
  sl_ordered :: "message list"
  sl_hasMoreBefore :: bool
  sl_hasMoreAfter :: bool
  sl_anchor :: "int option"

definition plain_page :: "nat \<Rightarrow> (millis \<times> int) option \<Rightarrow> direction \<Rightarrow> message list \<Rightarrow> slice_of_messages" where
  "plain_page limit c dir ms =
     (let found = cursor_where c dir ms;
          raw = take (limit + 1) (case dir of Before \<Rightarrow> rev found | After \<Rightarrow> found);
          hasMore = (limit < length raw);
          page = take limit raw
      in case dir of
           Before \<Rightarrow> \<lparr>sl_ordered = rev page, sl_hasMoreBefore = hasMore, sl_hasMoreAfter = (c \<noteq> None), sl_anchor = None\<rparr>
         | After \<Rightarrow> \<lparr>sl_ordered = page, sl_hasMoreBefore = (c \<noteq> None), sl_hasMoreAfter = hasMore, sl_anchor = None\<rparr>)"

definition first_unread :: "user_id \<Rightarrow> anchor option \<Rightarrow> appeal_db \<Rightarrow> message list \<Rightarrow> message option" where
  "first_unread u anch db ms =
     (case anch of
        None \<Rightarrow> None
      | Some FirstUnread \<Rightarrow> List.find (unread_by u db) ms
      | Some LastUnread \<Rightarrow> List.find (unread_by u db) (rev ms))"

definition bootstrap_page :: "user_id \<Rightarrow> messages_query \<Rightarrow> appeal_db \<Rightarrow> message list \<Rightarrow> slice_of_messages" where
  "bootstrap_page u q db ms =
     (let beforeTake = (case mq_before q of None \<Rightarrow> 40 | Some n \<Rightarrow> n);
          afterTake = (case mq_after q of None \<Rightarrow> 20 | Some n \<Rightarrow> n)
      in case first_unread u (mq_anchor q) db ms of
           Some m \<Rightarrow>
             let olderRaw = take (beforeTake + 1) (rev (filter (older (message_key m)) ms));
                 newerRaw = take (afterTake + 2) (filter (\<lambda>x. newer (message_key m) x \<or> message_key x = message_key m) ms)
             in \<lparr>sl_ordered = rev (take beforeTake olderRaw) @ take (afterTake + 1) newerRaw,
                 sl_hasMoreBefore = (beforeTake < length olderRaw), sl_hasMoreAfter = (afterTake + 1 < length newerRaw),
                 sl_anchor = Some (ms_id m)\<rparr>
         | None \<Rightarrow>
             let raw = take (mq_limit q + 1) (rev ms)
             in \<lparr>sl_ordered = rev (take (mq_limit q) raw), sl_hasMoreBefore = (mq_limit q < length raw),
                 sl_hasMoreAfter = False, sl_anchor = None\<rparr>)"

record message_view =
  mv_message :: message
  mv_attachments :: "attachment list"
  mv_readBy :: "(user_id \<times> millis) list"
  mv_isRead :: bool

definition mapMessageWithReads :: "user_id \<Rightarrow> appeal_db \<Rightarrow> message \<Rightarrow> message_view" where
  "mapMessageWithReads u db m =
     (let readBy = map (\<lambda>r. (rr_userId r, rr_readAt r)) (filter (\<lambda>r. rr_messageId r = ms_id m) (ab_reads db)) in
      \<lparr>mv_message = m, mv_attachments = filter (\<lambda>x. at_messageId x = ms_id m) (ab_attachments db), mv_readBy = readBy,
       mv_isRead = (ms_senderId m = u \<or> list_ex (\<lambda>(v, _). v = u) readBy)\<rparr>)"

record messages_page =
  mp_data :: "message_view list"
  mp_hasMore :: bool
  mp_nextCursor :: "string option"
  mp_hasMoreBefore :: bool
  mp_prevCursor :: "string option"
  mp_hasMoreAfter :: bool
  mp_anchorMessageId :: "int option"

definition message_cursor :: "message \<Rightarrow> string" where
  "message_cursor m = encodeMessageCursor (ms_createdAt m) (ms_id m)"

definition answer_page :: "user_id \<Rightarrow> direction \<Rightarrow> appeal_db \<Rightarrow> slice_of_messages \<Rightarrow> messages_page" where
  "answer_page u dir db s =
     (let ordered = sl_ordered s;
          prevCursor = (if ordered = [] then None else Some (message_cursor (hd ordered)));
          nextCursor = (if ordered = [] then None else Some (message_cursor (last ordered)))
      in \<lparr>mp_data = map (mapMessageWithReads u db) ordered,
          mp_hasMore = (case dir of After \<Rightarrow> sl_hasMoreAfter s | Before \<Rightarrow> sl_hasMoreBefore s),
          mp_nextCursor = (case dir of After \<Rightarrow> nextCursor | Before \<Rightarrow> prevCursor),
          mp_hasMoreBefore = sl_hasMoreBefore s, mp_prevCursor = prevCursor, mp_hasMoreAfter = sl_hasMoreAfter s,
          mp_anchorMessageId = sl_anchor s\<rparr>)"

text \<open>
  \<^verbatim>\<open>GET /appeals/:id/messages\<close>.  A cursor whose identifier is a number but not an
  integer is refused by the database client.
\<close>

definition list_messages ::
  "(string \<Rightarrow> millis option) \<Rightarrow> (string \<Rightarrow> rat option) \<Rightarrow> user_id \<Rightarrow> int \<Rightarrow> messages_query \<Rightarrow> appeal_db \<Rightarrow> appeal_error + messages_page" where
  "list_messages host_date host_number userId appealId q db =
     (let cursor = non_empty (js_trim (or_empty (mq_cursor q)));
          parsedCursor = decodeMessageCursor host_date host_number cursor
      in
      if \<not> valid_id appealId \<or> \<not> valid_query q \<or> cursor \<noteq> None \<and> parsedCursor = None then Inl BAD_REQUEST
      else case find_appeal appealId db of None \<Rightarrow> Inl NOT_FOUND | Some a \<Rightarrow>
      case loadUserMini userId db of None \<Rightarrow> Inl NOT_FOUND | Some actor \<Rightarrow>
      if \<not> has_access actor a db then Inl FORBIDDEN
      else
        let ms = oldest_first (visible appealId db) in
        case mq_mode q of
          Bootstrap \<Rightarrow> Inr (answer_page userId (mq_direction q) db (bootstrap_page userId q db ms))
        | Page \<Rightarrow>
            (case parsedCursor of
               None \<Rightarrow> Inr (answer_page userId (mq_direction q) db (plain_page (mq_limit q) None (mq_direction q) ms))
             | Some (t, i) \<Rightarrow>
                 if i \<noteq> of_int \<lfloor>i\<rfloor> then Inl INTERNAL
                 else Inr (answer_page userId (mq_direction q) db
                        (plain_page (mq_limit q) (Some (t, \<lfloor>i\<rfloor>)) (mq_direction q) ms))))"

section \<open>Writing\<close>

text \<open>\<^verbatim>\<open>POST /appeals/:id/messages\<close>: a failed upload only loses its file.\<close>

definition stored_uploads :: "int \<Rightarrow> upload list \<Rightarrow> attachment list" where
  "stored_uploads messageId files =
     List.map_filter (\<lambda>f. map_option (attachment_row messageId (up_mimetype f)) (up_stored f)) files"

definition post_message ::
  "millis \<Rightarrow> user_id \<Rightarrow> int \<Rightarrow> string option \<Rightarrow> upload list \<Rightarrow> appeal_db \<Rightarrow> (appeal_error + int) \<times> appeal_db" where
  "post_message now userId appealId t files db =
     (let content = non_empty (js_trim (or_empty t)) in
      if \<not> valid_id appealId then (Inl BAD_REQUEST, db)
      else case find_appeal appealId db of None \<Rightarrow> (Inl NOT_FOUND, db) | Some a \<Rightarrow>
      if content = None \<and> files = [] then (Inl BAD_REQUEST, db)
      else
        let messageId = ab_nextMessage db;
            db1 = add_message now appealId userId (map_option Typed content) USER_MESSAGE None db;
            db2 = db1\<lparr>ab_attachments := ab_attachments db1 @ stored_uploads messageId files\<rparr>
        in (Inr messageId, write_appeal now appealId (\<lambda>r. r) db2))"

definition find_message :: "int \<Rightarrow> appeal_db \<Rightarrow> message option" where
  "find_message i db = List.find (\<lambda>m. ms_id m = i) (ab_messages db)"

definition write_message :: "int \<Rightarrow> (message \<Rightarrow> message) \<Rightarrow> appeal_db \<Rightarrow> appeal_db" where
  "write_message i f db = db\<lparr>ab_messages := update_where (\<lambda>m. ms_id m = i) f (ab_messages db)\<rparr>"

text \<open>\<^verbatim>\<open>PUT\<close> and \<^verbatim>\<open>DELETE /appeals/messages/:messageId\<close>\<close>

definition edit_message :: "millis \<Rightarrow> user_id \<Rightarrow> int \<Rightarrow> string \<Rightarrow> appeal_db \<Rightarrow> (appeal_error + int) \<times> appeal_db" where
  "edit_message now userId messageId t db =
     (if \<not> valid_id messageId \<or> js_trim t = [] then (Inl BAD_REQUEST, db)
      else case find_message messageId db of None \<Rightarrow> (Inl NOT_FOUND, db) | Some m \<Rightarrow>
      if ms_senderId m \<noteq> userId then (Inl FORBIDDEN, db)
      else (Inr messageId,
            write_message messageId (\<lambda>r. r\<lparr>ms_text := Some (Typed (js_trim t)), ms_editedAt := Some now\<rparr>) db))"

definition delete_message :: "user_id \<Rightarrow> int \<Rightarrow> appeal_db \<Rightarrow> (appeal_error + int) \<times> appeal_db" where
  "delete_message userId messageId db =
     (if \<not> valid_id messageId then (Inl BAD_REQUEST, db)
      else case find_message messageId db of None \<Rightarrow> (Inl NOT_FOUND, db) | Some m \<Rightarrow>
      if ms_senderId m \<noteq> userId then (Inl FORBIDDEN, db)
      else (Inr messageId, write_message messageId (\<lambda>r. r\<lparr>ms_deleted := True\<rparr>) db))"

section \<open>Reading marks\<close>

text \<open>Everything of others, unread and not newer than the boundary, is marked; a mark that exists stays.\<close>

definition unread_up_to :: "user_id \<Rightarrow> int \<Rightarrow> millis \<times> int \<Rightarrow> appeal_db \<Rightarrow> int list" where
  "unread_up_to u appealId boundary db =
     js_set (map ms_id (filter (\<lambda>m. unread_by u db m \<and>
       (ms_createdAt m < fst boundary \<or> ms_createdAt m = fst boundary \<and> ms_id m \<le> snd boundary)) (visible appealId db)))"

definition mark_read :: "millis \<Rightarrow> user_id \<Rightarrow> int list \<Rightarrow> appeal_db \<Rightarrow> appeal_db" where
  "mark_read now u ids db =
     db\<lparr>ab_reads := ab_reads db @
          map (\<lambda>i. \<lparr>rr_messageId = i, rr_userId = u, rr_readAt = now\<rparr>)
            (filter (\<lambda>i. \<not> list_ex (\<lambda>r. rr_messageId r = i \<and> rr_userId r = u) (ab_reads db)) ids)\<rparr>"

text \<open>The newest of some messages, the accumulator of \<^verbatim>\<open>reduce\<close>.\<close>

definition later_of :: "message \<Rightarrow> message \<Rightarrow> message" where
  "later_of mx cur =
     (if ms_createdAt mx < ms_createdAt cur then cur
      else if ms_createdAt cur = ms_createdAt mx \<and> ms_id mx < ms_id cur then cur else mx)"

text \<open>\<^verbatim>\<open>POST /appeals/:id/messages/read-bulk\<close>\<close>

definition readable :: "user_id \<Rightarrow> int \<Rightarrow> int list \<Rightarrow> appeal_db \<Rightarrow> message list" where
  "readable u appealId ids db = filter (\<lambda>m. ms_id m \<in> set ids \<and> ms_senderId m \<noteq> u) (visible appealId db)"

definition read_bulk ::
  "millis \<Rightarrow> user_id \<Rightarrow> int \<Rightarrow> int list \<Rightarrow> appeal_db \<Rightarrow> (appeal_error + int list) \<times> appeal_db" where
  "read_bulk now userId appealId messageIds db =
     (if \<not> valid_id appealId \<or> messageIds = [] \<or> \<not> list_all valid_id messageIds then (Inl BAD_REQUEST, db)
      else case find_appeal appealId db of None \<Rightarrow> (Inl NOT_FOUND, db) | Some a \<Rightarrow>
      case loadUserMini userId db of None \<Rightarrow> (Inl NOT_FOUND, db) | Some actor \<Rightarrow>
      if \<not> has_access actor a db then (Inl FORBIDDEN, db)
      else case readable userId appealId messageIds db of
        [] \<Rightarrow> (Inr [], db)
      | m # ms \<Rightarrow>
          let finalReadIds = unread_up_to userId appealId (message_key (fold (\<lambda>cur mx. later_of mx cur) (m # ms) m)) db
          in (Inr finalReadIds, mark_read now userId finalReadIds db))"

text \<open>\<^verbatim>\<open>POST /appeals/:appealId/messages/:messageId/read\<close>\<close>

definition read_message ::
  "millis \<Rightarrow> user_id \<Rightarrow> int \<Rightarrow> int \<Rightarrow> appeal_db \<Rightarrow> (appeal_error + int list) \<times> appeal_db" where
  "read_message now userId appealId messageId db =
     (case List.find (\<lambda>m. ms_id m = messageId) (visible appealId db) of None \<Rightarrow> (Inl NOT_FOUND, db) | Some m \<Rightarrow>
      case find_appeal appealId db of None \<Rightarrow> (Inl NOT_FOUND, db) | Some a \<Rightarrow>
      case loadUserMini userId db of None \<Rightarrow> (Inl NOT_FOUND, db) | Some actor \<Rightarrow>
      if \<not> has_access actor a db then (Inl FORBIDDEN, db)
      else if ms_senderId m = userId then (Inr [], db)
      else
        let finalReadIds = unread_up_to userId appealId (message_key m) db
        in (Inr finalReadIds, mark_read now userId finalReadIds db))"

section \<open>Counters\<close>

definition ACTIVE_APPEAL_STATUSES :: "appeal_status list" where
  "ACTIVE_APPEAL_STATUSES = [OPEN, IN_PROGRESS, RESOLVED]"

text \<open>Active appeals and unread messages in a scope, as \<^verbatim>\<open>GET /appeals/counters\<close> counts them.\<close>

definition scope_counters :: "user_id \<Rightarrow> (appeal \<Rightarrow> bool) \<Rightarrow> appeal_db \<Rightarrow> nat \<times> nat" where
  "scope_counters u scope db =
     (count_where (\<lambda>a. scope a \<and> ap_status a \<in> set ACTIVE_APPEAL_STATUSES) (ab_appeals db),
      count_where (\<lambda>m. \<not> ms_deleted m \<and> unread_by u db m \<and>
        list_ex (\<lambda>a. ap_id a = ms_appealId m \<and> scope a) (ab_appeals db)) (ab_messages db))"

record counters =
  ct_my :: "nat \<times> nat"
  ct_departmentAvailable :: bool
  ct_department :: "nat \<times> nat"

definition appeal_counters :: "user_id \<Rightarrow> appeal_db \<Rightarrow> counters" where
  "appeal_counters userId db =
     (let d = (case profile_department userId db of None \<Rightarrow> 0 | Some n \<Rightarrow> n) in
      \<lparr>ct_my = scope_counters userId (\<lambda>a. ap_createdById a = userId) db,
       ct_departmentAvailable = (d \<noteq> 0),
       ct_department = (if d = 0 then (0, 0) else scope_counters userId (\<lambda>a. ap_toDepartmentId a = d) db)\<rparr>)"

end
