(* ===== verification/Appeal_Paging.thy ===== *)
theory Appeal_Paging
  imports Appeal_Messages
begin

text \<open>
  Paging through the conversation of an appeal: cursors read back as the position they were
  written for, and a client that starts anywhere and follows the cursors in both directions has
  every message once and in order.
\<close>

section \<open>Cursors\<close>

lemma number_of_show: "0 \<le> i \<Longrightarrow> number_of (show_int i) = Some i"
proof -
  assume i: "0 \<le> i"
  have "show_nat (nat i) \<noteq> []" by (subst show_nat.simps) simp
  then show ?thesis
    using i show_nat_digits [of "nat i"] by (simp add: number_of_def show_int_def js_simps list_all_iff)
qed

lemma show_int_not_nil: "0 \<le> i \<Longrightarrow> show_int i \<noteq> []"
  using number_of_show [of i] by (auto simp: number_of_def)

lemma bar_not_in_show: "0 \<le> i \<Longrightarrow> CHR ''|'' \<notin> set (show_int i)"
  using show_nat_digits [of "nat i"] by (auto simp: show_int_def js_digit_def)

lemma cursor_roundtrip_fact:
  assumes "common_era t" and "0 \<le> i"
  shows "decodeMessageCursor host_date host_number (Some (encodeMessageCursor t i)) = Some (t, of_int i)"
proof -
  have "split_on (CHR ''|'') (encodeMessageCursor t i) = [toISOString t, show_int i]"
    using iso_no_bar [OF assms(1)] bar_not_in_show [OF assms(2)]
    by (simp add: encodeMessageCursor_def split_on_append split_on_none)
  moreover have "encodeMessageCursor t i \<noteq> []" by (simp add: encodeMessageCursor_def)
  ultimately show ?thesis
    using iso_no_bar [OF assms(1)] show_int_not_nil [OF assms(2)] number_of_show [OF assms(2)] parse_iso_of_time [OF assms(1)]
    by (simp add: decodeMessageCursor_def truthy_def cursor_number_def date_of_text_def)
qed

text \<open>
  C30: a cursor that the server wrote for a message of the common era is read back as the time and
  the identifier of that message.
\<close>

theorem cursor_roundtrip:
  assumes "common_era t" and "0 \<le> i"
  shows "decodeMessageCursor host_date host_number (Some (encodeMessageCursor t i)) = Some (t, of_int i)"
  using assms by (rule cursor_roundtrip_fact)

lemma cursor_roundtrip_witness:
  "decodeMessageCursor (\<lambda>_. None) (\<lambda>_. None) (Some (encodeMessageCursor 1700000000000 42)) = Some (1700000000000, 42)"
  using cursor_roundtrip [of 1700000000000 42 "\<lambda>_. None" "\<lambda>_. None"] by (simp add: common_era_def day_from_year_def)

text \<open>A cursor survives the trimming of the query.\<close>

lemma js_trim_idle: "s \<noteq> [] \<Longrightarrow> \<not> js_space (hd s) \<Longrightarrow> \<not> js_space (last s) \<Longrightarrow> js_trim s = s"
  by (simp add: js_trim_def dropWhile_idle hd_rev)

lemma digit_value_no_space: "digit_value n s \<Longrightarrow> s \<noteq> [] \<Longrightarrow> \<not> js_space (hd s)"
  using digit_not_space by (cases s) (auto simp: digit_value_def)

lemma iso_begins: assumes "common_era t" shows "\<not> js_space (hd (toISOString t))"
  by (rule iso_form [OF assms]) (simp add: digit_value_no_space [OF digits4_value])

lemma show_int_ends: "0 \<le> i \<Longrightarrow> \<not> js_space (last (show_int i))"
  using show_nat_digits [of "nat i"] show_int_not_nil [of i] digit_not_space by (simp add: show_int_def)

lemma cursor_trim:
  assumes "common_era t" and "0 \<le> i"
  shows "js_trim (encodeMessageCursor t i) = encodeMessageCursor t i"
  using iso_begins [OF assms(1)] iso_no_bar [OF assms(1)] show_int_ends [OF assms(2)] show_int_not_nil [OF assms(2)]
  by (intro js_trim_idle) (simp_all add: encodeMessageCursor_def)

section \<open>Positions in the conversation\<close>

definition in_order :: "message list \<Rightarrow> bool" where
  "in_order ms \<longleftrightarrow> sorted_wrt (\<lambda>a b. message_key a < message_key b) ms"

lemma older_key: "older (message_key m) x \<longleftrightarrow> message_key x < message_key m"
  by (auto simp: older_def message_key_def less_prod_def)

lemma newer_key: "newer (message_key m) x \<longleftrightarrow> message_key m < message_key x"
  by (auto simp: newer_def message_key_def less_prod_def)

lemma in_order_oldest_first: "distinct (map message_key ms) \<Longrightarrow> in_order (oldest_first ms)"
proof -
  assume d: "distinct (map message_key ms)"
  have "sorted (map message_key (oldest_first ms))" by (simp add: oldest_first_def)
  moreover have "distinct (map message_key (oldest_first ms))"
    using d by (simp add: oldest_first_def distinct_map)
  ultimately have "sorted_wrt (<) (map message_key (oldest_first ms))" by (simp add: strict_sorted_iff)
  then show ?thesis by (simp add: in_order_def sorted_wrt_map)
qed

lemma split_at:
  assumes "in_order (as @ m # bs)"
  shows "filter (older (message_key m)) (as @ m # bs) = as" and "filter (newer (message_key m)) (as @ m # bs) = bs"
    and "filter (\<lambda>x. newer (message_key m) x \<or> message_key x = message_key m) (as @ m # bs) = m # bs"
proof -
  have a: "\<forall>x \<in> set as. message_key x < message_key m" and b: "\<forall>x \<in> set bs. message_key m < message_key x"
    using assms by (simp_all add: in_order_def sorted_wrt_append)
  show "filter (older (message_key m)) (as @ m # bs) = as" "filter (newer (message_key m)) (as @ m # bs) = bs"
    "filter (\<lambda>x. newer (message_key m) x \<or> message_key x = message_key m) (as @ m # bs) = m # bs"
    using a b by (auto simp: older_key newer_key filter_id_conv filter_empty_conv dest: less_not_sym)
qed

text \<open>What a page is: a part of the conversation, with flags that say whether something is left on each side.\<close>

definition is_part :: "message list \<Rightarrow> slice_of_messages \<Rightarrow> bool" where
  "is_part ms s \<longleftrightarrow>
     (\<exists>as bs. ms = as @ sl_ordered s @ bs \<and> (sl_hasMoreBefore s \<longleftrightarrow> as \<noteq> []) \<and> (sl_hasMoreAfter s \<longleftrightarrow> bs \<noteq> [])) \<and>
     (sl_ordered s = [] \<longrightarrow> ms = [])"

lemma take_again: "take n (take (n + 1) xs) = take n xs" "n < length (take (n + 1) xs) \<longleftrightarrow> n < length xs"
  by auto

lemma last_page:
  assumes "0 < n"
  shows "is_part ms \<lparr>sl_ordered = rev (take n (take (n + 1) (rev ms))), sl_hasMoreBefore = (n < length (take (n + 1) (rev ms))),
      sl_hasMoreAfter = False, sl_anchor = a\<rparr>"
proof -
  have "length ms - n < length ms" if "ms \<noteq> []" using assms that by simp
  then have "drop (length ms - n) ms = [] \<longrightarrow> ms = []" by force
  moreover have "ms = take (length ms - n) ms @ drop (length ms - n) ms" by simp
  ultimately show ?thesis
    unfolding take_again unfolding take_rev rev_rev_ident is_part_def
    by - (rule conjI, rule exI [of _ "take (length ms - n) ms"], rule exI [of _ "[]"], auto)
qed

lemma first_page:
  assumes "0 < n"
  shows "is_part ms \<lparr>sl_ordered = take n (take (n + 1) ms), sl_hasMoreBefore = False,
      sl_hasMoreAfter = (n < length (take (n + 1) ms)), sl_anchor = a\<rparr>"
  unfolding take_again using assms append_take_drop_id [of n ms]
  by (auto simp: is_part_def intro!: exI [of _ "drop n ms"])

lemma plain_page_part: "0 < n \<Longrightarrow> is_part ms (plain_page n None dir ms)"
  using last_page [of n ms None] first_page [of n ms None]
  by (cases dir) (simp_all add: plain_page_def cursor_where_def Let_def)

lemma around_page:
  assumes "in_order (as @ m # bs)"
  shows "is_part (as @ m # bs)
    \<lparr>sl_ordered = rev (take p (take (p + 1) (rev (filter (older (message_key m)) (as @ m # bs))))) @
        take (q + 1) (take (q + 2) (filter (\<lambda>x. newer (message_key m) x \<or> message_key x = message_key m) (as @ m # bs))),
     sl_hasMoreBefore = (p < length (take (p + 1) (rev (filter (older (message_key m)) (as @ m # bs))))),
     sl_hasMoreAfter = (q + 1 < length (take (q + 2)
        (filter (\<lambda>x. newer (message_key m) x \<or> message_key x = message_key m) (as @ m # bs)))),
     sl_anchor = a\<rparr>"
proof -
  let ?mid = "drop (length as - p) as @ m # take q bs"
  have t: "take (q + 1) (take (q + 2) (m # bs)) = m # take q bs" "q + 1 < length (take (q + 2) (m # bs)) \<longleftrightarrow> q < length bs"
    by auto
  have "as @ m # bs = take (length as - p) as @ ?mid @ drop q bs" by simp
  then show ?thesis
    unfolding split_at [OF assms] t take_again unfolding take_rev rev_rev_ident is_part_def
    by - (rule conjI, rule exI [of _ "take (length as - p) as"], rule exI [of _ "drop q bs"], auto)
qed

lemma first_unread_in: "first_unread u anch db ms = Some m \<Longrightarrow> m \<in> set ms"
  by (auto simp: first_unread_def split: option.splits anchor.splits dest!: find_SomeD)

lemma bootstrap_page_part:
  assumes "in_order ms" and "0 < mq_limit q"
  shows "is_part ms (bootstrap_page u q db ms)"
proof (cases "first_unread u (mq_anchor q) db ms")
  case None
  then show ?thesis using last_page [OF assms(2), of ms None] by (simp add: bootstrap_page_def Let_def)
next
  case (Some m)
  then obtain as bs where "ms = as @ m # bs" using first_unread_in split_list by metis
  then show ?thesis using around_page [of as m bs _ _ "Some (ms_id m)"] assms(1) Some by (simp add: bootstrap_page_def Let_def)
qed

section \<open>Following the cursors\<close>

text \<open>The requests that a client sends with the cursor of the page before, in either direction.\<close>

definition next_query :: "nat \<Rightarrow> direction \<Rightarrow> string \<Rightarrow> messages_query" where
  "next_query limit dir c =
     \<lparr>mq_limit = limit, mq_cursor = Some c, mq_direction = dir, mq_mode = Page, mq_anchor = None, mq_before = None, mq_after = None\<rparr>"

fun page_back ::
  "(string \<Rightarrow> millis option) \<Rightarrow> (string \<Rightarrow> rat option) \<Rightarrow> user_id \<Rightarrow> int \<Rightarrow> nat \<Rightarrow> appeal_db \<Rightarrow> nat \<Rightarrow> string \<Rightarrow> message_view list" where
  "page_back host_date host_number u i limit db 0 c = []"
| "page_back host_date host_number u i limit db (Suc n) c =
     (case list_messages host_date host_number u i (next_query limit Before c) db of
        Inl _ \<Rightarrow> []
      | Inr p \<Rightarrow> (if mp_hasMore p then page_back host_date host_number u i limit db n (the (mp_nextCursor p)) else []) @ mp_data p)"

fun page_forward ::
  "(string \<Rightarrow> millis option) \<Rightarrow> (string \<Rightarrow> rat option) \<Rightarrow> user_id \<Rightarrow> int \<Rightarrow> nat \<Rightarrow> appeal_db \<Rightarrow> nat \<Rightarrow> string \<Rightarrow> message_view list" where
  "page_forward host_date host_number u i limit db 0 c = []"
| "page_forward host_date host_number u i limit db (Suc n) c =
     (case list_messages host_date host_number u i (next_query limit After c) db of
        Inl _ \<Rightarrow> []
      | Inr p \<Rightarrow> mp_data p @ (if mp_hasMore p then page_forward host_date host_number u i limit db n (the (mp_nextCursor p)) else []))"

text \<open>The messages of the database have identifiers of their own and times of the common era.\<close>

definition readable_times :: "appeal_db \<Rightarrow> bool" where
  "readable_times db \<longleftrightarrow> distinct (map ms_id (ab_messages db)) \<and> (\<forall>m \<in> set (ab_messages db). common_era (ms_createdAt m) \<and> 0 \<le> ms_id m)"

lemma conversation_in_order: "readable_times db \<Longrightarrow> in_order (oldest_first (visible i db))"
proof -
  assume r: "readable_times db"
  have "distinct (map ms_id (visible i db))"
    using r by (auto simp: readable_times_def visible_def distinct_map intro: inj_on_subset)
  then have "distinct (map message_key (visible i db))"
    by (auto simp: distinct_map inj_on_def message_key_def)
  then show ?thesis by (rule in_order_oldest_first)
qed

lemma cursor_position:
  assumes "readable_times db" and "m \<in> set (visible i db)"
  shows "decodeMessageCursor host_date host_number (non_empty (js_trim (message_cursor m))) = Some (ms_createdAt m, of_int (ms_id m))"
proof -
  have "common_era (ms_createdAt m)" "0 \<le> ms_id m" using assms by (auto simp: readable_times_def visible_def)
  then show ?thesis
    by (simp add: message_cursor_def cursor_trim non_empty_def cursor_roundtrip_fact) (simp add: encodeMessageCursor_def)
qed

text \<open>With the access that the first answer proved, a cursor is answered by the page at its position.\<close>

lemma cursor_page:
  assumes ok: "list_messages host_date host_number u i q db = Inr p" and r: "readable_times db"
    and m: "m \<in> set (visible i db)" and l: "1 \<le> limit" "limit \<le> 100"
  shows "list_messages host_date host_number u i (next_query limit dir (message_cursor m)) db =
    Inr (answer_page u dir db (plain_page limit (Some (message_key m)) dir (oldest_first (visible i db))))"
  using ok l cursor_position [OF r m, of host_date host_number]
  by (auto simp: list_messages_def next_query_def valid_query_def Let_def message_key_def or_empty_def
      split: if_splits option.splits)

text \<open>The page before a position, and the page after it.\<close>

lemma page_before_position:
  assumes "in_order (as @ m # bs)" and "0 < n"
  shows "plain_page n (Some (message_key m)) Before (as @ m # bs) =
    \<lparr>sl_ordered = drop (length as - n) as, sl_hasMoreBefore = (n < length as), sl_hasMoreAfter = True, sl_anchor = None\<rparr>"
  unfolding plain_page_def cursor_where_def Let_def option.case direction.case split_at [OF assms(1)] take_again
  unfolding take_rev rev_rev_ident by simp

lemma page_after_position:
  assumes "in_order (as @ m # bs)" and "0 < n"
  shows "plain_page n (Some (message_key m)) After (as @ m # bs) =
    \<lparr>sl_ordered = take n bs, sl_hasMoreBefore = True, sl_hasMoreAfter = (n < length bs), sl_anchor = None\<rparr>"
  unfolding plain_page_def cursor_where_def Let_def option.case direction.case split_at [OF assms(1)] take_again by simp

lemma back_complete:
  assumes ok: "list_messages host_date host_number u i q db = Inr p" and r: "readable_times db" and l: "1 \<le> limit" "limit \<le> 100"
    and "oldest_first (visible i db) = as @ m # bs" and "length as \<le> n" and "as \<noteq> []"
  shows "map mv_message (page_back host_date host_number u i limit db n (message_cursor m)) = as"
  using assms(5-7)
proof (induction n arbitrary: as m bs)
  case (Suc n)
  let ?ms = "oldest_first (visible i db)" and ?rest = "take (length as - limit) as" and ?page = "drop (length as - limit) as"
  have o: "in_order (as @ m # bs)" using conversation_in_order [OF r, of i] Suc.prems(1) by simp
  have "m \<in> set ?ms" using Suc.prems(1) by simp
  then have "m \<in> set (visible i db)" by (simp add: oldest_first_def)
  note pg = cursor_page [OF ok r this l, of Before, unfolded Suc.prems(1) page_before_position [OF o, of limit]]
  have ne: "?page \<noteq> []" using Suc.prems(3) l(1) by (cases as) auto
  have more: "map mv_message (page_back host_date host_number u i limit db n (message_cursor (hd ?page))) = ?rest"
    if "limit < length as"
  proof (rule Suc.IH)
    show "?ms = ?rest @ hd ?page # (tl ?page @ m # bs)" using Suc.prems(1) ne by simp
  qed (use that Suc.prems(2) l(1) in auto)
  show ?case
    using more pg ne l(1) by (simp add: answer_page_def Let_def page_before_position [OF o] mapMessageWithReads_def comp_def)
qed simp

lemma forward_complete:
  assumes ok: "list_messages host_date host_number u i q db = Inr p" and r: "readable_times db" and l: "1 \<le> limit" "limit \<le> 100"
    and "oldest_first (visible i db) = as @ m # bs" and "length bs \<le> n" and "bs \<noteq> []"
  shows "map mv_message (page_forward host_date host_number u i limit db n (message_cursor m)) = bs"
  using assms(5-7)
proof (induction n arbitrary: as m bs)
  case (Suc n)
  let ?ms = "oldest_first (visible i db)" and ?page = "take limit bs"
  have o: "in_order (as @ m # bs)" using conversation_in_order [OF r, of i] Suc.prems(1) by simp
  have "m \<in> set ?ms" using Suc.prems(1) by simp
  then have "m \<in> set (visible i db)" by (simp add: oldest_first_def)
  note pg = cursor_page [OF ok r this l, of After, unfolded Suc.prems(1) page_after_position [OF o, of limit]]
  have ne: "?page \<noteq> []" using Suc.prems(3) l(1) by (cases bs) auto
  have more: "map mv_message (page_forward host_date host_number u i limit db n (message_cursor (last ?page))) = drop limit bs"
    if "limit < length bs"
  proof (rule Suc.IH)
    have "?ms = as @ m # (butlast ?page @ [last ?page]) @ drop limit bs" using Suc.prems(1) ne by simp
    then show "?ms = (as @ m # butlast ?page) @ last ?page # drop limit bs" by simp
  qed (use that Suc.prems(2) l(1) in auto)
  show ?case
    using more pg ne l(1) by (simp add: answer_page_def Let_def page_after_position [OF o] mapMessageWithReads_def comp_def)
qed simp

text \<open>The first answer without a cursor is a part of the conversation, with the cursors of its ends.\<close>

lemma first_answer:
  assumes "list_messages host_date host_number u i q db = Inr p" and "readable_times db" and "mq_cursor q = None"
  obtains s where "p = answer_page u (mq_direction q) db s" and "is_part (oldest_first (visible i db)) s"
proof -
  have "valid_query q" using assms(1) by (auto simp: list_messages_def Let_def split: if_splits)
  then have l: "0 < mq_limit q" by (auto simp: valid_query_def)
  show thesis
    using assms(1,3) that [OF _ plain_page_part [OF l]] that [OF _ bootstrap_page_part [OF conversation_in_order [OF assms(2)] l]]
    by (auto simp: list_messages_def Let_def or_empty_def js_trim_def non_empty_def decodeMessageCursor_def truthy_def
        split: if_splits option.splits mode.splits)
qed

text \<open>
  C11: a client that asks for any first page, the newest, the oldest or the one around its unread messages,
  and then follows the cursors of the answers as long as there is more on either side has every message of
  the conversation that is not deleted, once and in order; as many requests as there are messages are
  enough.  The first request names the forward direction, or is a plain page: the answer to a backward
  bootstrap does not carry the cursor of its newest message.
\<close>

theorem paging_complete:
  assumes "list_messages host_date host_number u i q db = Inr p" and "readable_times db" and "mq_cursor q = None"
    and "mq_direction q = After \<or> mq_mode q = Page" and "1 \<le> limit" and "limit \<le> 100" and "length (visible i db) \<le> n"
  shows "map mv_message
      ((if mp_hasMoreBefore p then page_back host_date host_number u i limit db n (the (mp_prevCursor p)) else []) @
       mp_data p @
       (if mp_hasMoreAfter p then page_forward host_date host_number u i limit db n (the (mp_nextCursor p)) else [])) =
    oldest_first (visible i db)"
proof -
  let ?ms = "oldest_first (visible i db)"
  from assms(1-3) obtain s where p: "p = answer_page u (mq_direction q) db s" and part: "is_part ?ms s"
    by (rule first_answer)
  from part obtain as bs where ms: "?ms = as @ sl_ordered s @ bs" and f: "sl_hasMoreBefore s \<longleftrightarrow> as \<noteq> []" "sl_hasMoreAfter s \<longleftrightarrow> bs \<noteq> []"
    by (auto simp: is_part_def)
  have len: "length ?ms \<le> n" using assms(7) by (simp add: oldest_first_def)
  show ?thesis
  proof (cases "sl_ordered s = []")
    case True
    then show ?thesis using part ms f p by (simp add: is_part_def answer_page_def Let_def)
  next
    case False
    have backward: "map mv_message (page_back host_date host_number u i limit db n (message_cursor (hd (sl_ordered s)))) = as" if "as \<noteq> []"
      using ms False len that
      by (intro back_complete [OF assms(1,2,5,6), where bs = "tl (sl_ordered s) @ bs"]) auto
    have eq: "?ms = (as @ butlast (sl_ordered s)) @ last (sl_ordered s) # bs" using ms False by simp
    have forward: "map mv_message (page_forward host_date host_number u i limit db n (message_cursor (last (sl_ordered s)))) = bs" if "bs \<noteq> []"
      using len that unfolding eq by (intro forward_complete [OF assms(1,2,5,6) eq]) auto
    have "mq_direction q = After \<or> bs = []"
      using assms(1,3,4) p f(2) by (auto simp: list_messages_def Let_def or_empty_def js_trim_def non_empty_def decodeMessageCursor_def
        truthy_def answer_page_def plain_page_def split: if_splits option.splits direction.splits)
    then show ?thesis
      using backward forward ms f False p by (auto simp: answer_page_def Let_def mapMessageWithReads_def comp_def)
  qed
qed

definition sample_message :: "int \<Rightarrow> message" where
  "sample_message n = \<lparr>ms_id = n, ms_appealId = 1, ms_senderId = 2, ms_text = Some (Typed ''hello''), ms_type = USER_MESSAGE,
     ms_systemEvent = None, ms_editedAt = None, ms_deleted = False, ms_createdAt = 1700000000000\<rparr>"

definition sample_appeal :: appeal where
  "sample_appeal = \<lparr>ap_id = 1, ap_number = 1, ap_fromDepartmentId = None, ap_toDepartmentId = 7, ap_createdById = 1,
     ap_status = OPEN, ap_priority = MEDIUM, ap_deadline = None, ap_title = ''printer'', ap_laborNotRequired = False,
     ap_createdAt = 0, ap_updatedAt = 0\<rparr>"

definition sample_chat :: appeal_db where
  "sample_chat = \<lparr>ab_users = [\<lparr>um_id = 1, um_roleName = ''user'', um_departmentRoles = [], um_employee = None\<rparr>,
       \<lparr>um_id = 2, um_roleName = ''user'', um_departmentRoles = [], um_employee = Some \<lparr>em_departmentId = Some 7, em_laborRate = None\<rparr>\<rparr>],
     ab_departments = [\<lparr>dp_id = 7, dp_paymentRequired = True, dp_laborRate = 500\<rparr>],
     ab_appeals = [sample_appeal], ab_assignees = [], ab_watchers = [], ab_history = [],
     ab_messages = [sample_message 1, sample_message 2, sample_message 3], ab_attachments = [],
     ab_reads = [\<lparr>rr_messageId = 1, rr_userId = 1, rr_readAt = 1700000000000\<rparr>], ab_labor = [], ab_audit = [],
     ab_nextAppeal = 2, ab_nextMessage = 4\<rparr>"

definition sample_query :: messages_query where
  "sample_query = \<lparr>mq_limit = 1, mq_cursor = None, mq_direction = After, mq_mode = Bootstrap, mq_anchor = Some FirstUnread,
     mq_before = Some 0, mq_after = Some 0\<rparr>"

definition sample_page :: messages_page where
  "sample_page = answer_page 1 After sample_chat (bootstrap_page 1 sample_query sample_chat (oldest_first (visible 1 sample_chat)))"

lemma sample_page_answer: "list_messages (\<lambda>_. None) (\<lambda>_. None) 1 1 sample_query sample_chat = Inr sample_page"
  by (simp add: list_messages_def sample_page_def sample_query_def valid_query_def or_empty_def js_trim_def non_empty_def valid_id_def
      find_appeal_def loadUserMini_def sample_chat_def sample_appeal_def has_access_def Let_def)

lemma sample_chat_times: "readable_times sample_chat"
  by (simp add: readable_times_def sample_chat_def sample_message_def common_era_def day_from_year_def)

lemma paging_complete_witness:
  "map mv_message
      ((if mp_hasMoreBefore sample_page
        then page_back (\<lambda>_. None) (\<lambda>_. None) 1 1 1 sample_chat 3 (the (mp_prevCursor sample_page)) else []) @
       mp_data sample_page @
       (if mp_hasMoreAfter sample_page
        then page_forward (\<lambda>_. None) (\<lambda>_. None) 1 1 1 sample_chat 3 (the (mp_nextCursor sample_page)) else [])) =
    [sample_message 1, sample_message 2, sample_message 3]"
  using paging_complete [OF sample_page_answer sample_chat_times, of 1 3]
  by (simp add: sample_query_def sample_chat_def visible_def sample_message_def oldest_first_def message_key_def less_eq_prod_def)

end
