(* ===== verification/Appeal_Reads.thy ===== *)
theory Appeal_Reads
  imports Appeal_Paging
begin

text \<open>
  The reading marks of a conversation: what a bulk request marks and what it leaves, for the reader
  and for everyone else; and two things the message handlers permit that the others do not.
\<close>

section \<open>The boundary of a bulk request\<close>

lemma later_of_key: "message_key (later_of mx cur) = max (message_key mx) (message_key cur)"
  by (auto simp: later_of_def message_key_def max_def less_eq_prod_def)

lemma boundary_key:
  "message_key (fold (\<lambda>cur mx. later_of mx cur) ms m) = fold (\<lambda>cur k. max k (message_key cur)) ms (message_key m)"
  by (induction ms arbitrary: m) (simp_all add: later_of_key)

lemma fold_max_ge: "k \<le> fold (\<lambda>cur k. max k (message_key cur)) ms k"
proof (induction ms arbitrary: k)
  case (Cons y ms)
  show ?case using order_trans [OF max.cobounded1 Cons.IH [of "max k (message_key y)"]] by simp
qed simp

lemma fold_max_upper: "x \<in> set ms \<Longrightarrow> message_key x \<le> fold (\<lambda>cur k. max k (message_key cur)) ms k"
proof (induction ms arbitrary: k)
  case (Cons y ms)
  then consider "x = y" | "x \<in> set ms" by auto
  then show ?case
    using Cons.IH [of "max k (message_key y)"] order_trans [OF max.cobounded2 fold_max_ge [of "max k (message_key y)" ms]]
    by cases simp_all
qed simp

lemma fold_max_attained:
  "fold (\<lambda>cur k. max k (message_key cur)) ms k \<in> insert k (message_key ` set ms)"
proof (induction ms arbitrary: k)
  case (Cons y ms)
  have "max k (message_key y) = k \<or> max k (message_key y) = message_key y" by (simp add: max_def)
  then show ?case
  proof
    assume e: "max k (message_key y) = k"
    show ?thesis using Cons.IH [of k] by (auto simp: e)
  next
    assume e: "max k (message_key y) = message_key y"
    show ?thesis using Cons.IH [of "message_key y"] by (auto simp: e)
  qed
qed simp

lemma up_to_key: "(ms_createdAt m < fst b \<or> ms_createdAt m = fst b \<and> ms_id m \<le> snd b) \<longleftrightarrow> message_key m \<le> b"
  by (auto simp: message_key_def less_eq_prod_def)

lemma unread_after_marks:
  "unread_by v (mark_read now u ids db) m \<longleftrightarrow> unread_by v db m \<and> \<not> (v = u \<and> ms_id m \<in> set ids)"
proof (cases "v = u")
  case True
  have "list_ex (\<lambda>r. rr_messageId r = ms_id m \<and> rr_userId r = u) (ab_reads (mark_read now u ids db)) \<longleftrightarrow>
      list_ex (\<lambda>r. rr_messageId r = ms_id m \<and> rr_userId r = u) (ab_reads db) \<or> ms_id m \<in> set ids" (is "?l \<longleftrightarrow> ?o \<or> ?n")
  proof (cases ?o)
    case False
    then have o: "?o = False" by simp
    have "?l \<longleftrightarrow> list_ex (\<lambda>r. rr_messageId r = ms_id m \<and> rr_userId r = u) (map (\<lambda>i. \<lparr>rr_messageId = i, rr_userId = u, rr_readAt = now\<rparr>)
        (filter (\<lambda>i. \<not> list_ex (\<lambda>r. rr_messageId r = i \<and> rr_userId r = u) (ab_reads db)) ids))"
      by (simp add: mark_read_def o)
    also have "\<dots> \<longleftrightarrow> ?n" using o by (auto simp: list_ex_iff)
    finally show ?thesis by (simp only: o simp_thms)
  qed (simp add: mark_read_def)
  then show ?thesis using True by (simp add: unread_by_def)
next
  case False
  then have "list_ex (\<lambda>r. rr_messageId r = ms_id m \<and> rr_userId r = v) (ab_reads (mark_read now u ids db)) \<longleftrightarrow>
      list_ex (\<lambda>r. rr_messageId r = ms_id m \<and> rr_userId r = v) (ab_reads db)"
    by (auto simp: mark_read_def list_ex_iff)
  then show ?thesis using False by (simp add: unread_by_def)
qed

lemma visible_after_marks [simp]: "visible i (mark_read now u ids db) = visible i db"
  by (simp add: visible_def mark_read_def)

lemma marked_count:
  assumes "distinct (map ms_id ms)" and "distinct done" and "set done = ms_id ` {m \<in> set ms. P m \<and> Q m}"
  shows "length (filter (\<lambda>m. P m \<and> ms_id m \<notin> set done) ms) + length done = length (filter P ms)"
proof -
  have "length done = card (ms_id ` {m \<in> set ms. P m \<and> Q m})"
    using assms(2,3) distinct_card by metis
  also have "\<dots> = card {m \<in> set ms. P m \<and> Q m}"
    using assms(1) by (intro card_image) (auto simp: distinct_map intro: inj_on_subset)
  also have "\<dots> = length (filter (\<lambda>m. P m \<and> Q m) ms)"
    using assms(1) by (subst distinct_card [symmetric]) (auto simp: distinct_map)
  moreover have "filter (\<lambda>m. P m \<and> ms_id m \<notin> set done) ms = filter (\<lambda>m. P m \<and> \<not> Q m) ms"
    using assms(1,3) by (intro filter_cong) (auto simp: distinct_map dest: inj_onD)
  moreover have "length (filter P ms) = length (filter (\<lambda>m. P m \<and> \<not> Q m) ms) + length (filter (\<lambda>m. P m \<and> Q m) ms)"
    by (induction ms) auto
  ultimately show ?thesis by simp
qed

text \<open>
  C29: a bulk request marks, for its reader only, every unread message of others that is not newer than the newest
  message it names: all the messages it names are read afterwards, what stays unread is newer, and the number of
  unread messages drops by exactly the number of identifiers in the answer.
\<close>

theorem read_marks_exact:
  assumes "read_bulk now u i ids db = (Inr done, db')" and "distinct (map ms_id (ab_messages db))"
  shows "(\<forall>v. \<forall>m \<in> set (ab_messages db'). unread_by v db' m \<longleftrightarrow> unread_by v db m \<and> \<not> (v = u \<and> ms_id m \<in> set done)) \<and>
    (\<forall>m \<in> set (readable u i ids db). \<not> unread_by u db' m) \<and>
    (\<forall>x \<in> set (visible i db). unread_by u db' x \<longrightarrow> (\<forall>m \<in> set (readable u i ids db). message_key m < message_key x)) \<and>
    (\<forall>x \<in> set (visible i db). ms_id x \<in> set done \<longrightarrow> (\<exists>m \<in> set (readable u i ids db). message_key x \<le> message_key m)) \<and>
    length (filter (unread_by u db') (visible i db)) + length done = length (filter (unread_by u db) (visible i db))"
proof -
  from assms(1) obtain a actor where ok: "find_appeal i db = Some a" "loadUserMini u db = Some actor" "has_access actor a db"
    by (auto simp: read_bulk_def split: if_splits option.splits)
  show ?thesis
  proof (cases "readable u i ids db")
    case Nil
    then have "done = []" "db' = db" using assms(1) ok by (auto simp: read_bulk_def split: if_splits)
    then show ?thesis using Nil by simp
  next
    case (Cons m0 ms)
    define b where "b = message_key (fold (\<lambda>cur mx. later_of mx cur) (m0 # ms) m0)"
    have r: "done = unread_up_to u i b db" "db' = mark_read now u done db"
      using assms(1) ok Cons by (auto simp: read_bulk_def Let_def b_def split: if_splits)
    have top: "message_key m \<le> b" if "m \<in> set (m0 # ms)" for m
      using that unfolding b_def boundary_key by (rule fold_max_upper)
    have att: "\<exists>m \<in> set (m0 # ms). b = message_key m"
      using fold_max_attained [of "m0 # ms" "message_key m0"] unfolding b_def boundary_key by auto
    have done_set: "set done = ms_id ` {m \<in> set (visible i db). unread_by u db m \<and> message_key m \<le> b}"
      using r(1) by (auto simp: unread_up_to_def up_to_key)
    have ids: "distinct (map ms_id (visible i db))"
      using assms(2) by (auto simp: visible_def distinct_map intro: inj_on_subset)
    have in_done: "ms_id m \<in> set done \<longleftrightarrow> unread_by u db m \<and> message_key m \<le> b" if "m \<in> set (visible i db)" for m
      using ids that by (auto simp: done_set distinct_map dest: inj_onD)
    have sub: "m \<in> set (visible i db)" if "m \<in> set (m0 # ms)" for m
      using that Cons by (metis readable_def filter_is_subset subsetD)
    have mark: "unread_by v db' m \<longleftrightarrow> unread_by v db m \<and> \<not> (v = u \<and> ms_id m \<in> set done)" for v m
      by (simp add: r(2) unread_after_marks)
    have named: "\<not> unread_by u db' m" if "m \<in> set (m0 # ms)" for m
      using mark in_done sub top that by blast
    have newer: "message_key m < message_key x" if "x \<in> set (visible i db)" "unread_by u db' x" "m \<in> set (m0 # ms)" for x m
      using mark in_done top that by (metis not_le order_trans)
    have dd: "distinct done" unfolding r(1) unread_up_to_def by simp
    have count: "length (filter (unread_by u db') (visible i db)) + length done = length (filter (unread_by u db) (visible i db))"
      using marked_count [OF ids dd done_set] by (simp add: mark [of u] cong: filter_cong)
    have upper: "\<exists>m \<in> set (m0 # ms). message_key x \<le> message_key m" if "x \<in> set (visible i db)" "ms_id x \<in> set done" for x
      using in_done att that by metis
    show ?thesis unfolding Cons using mark named newer upper count by blast
  qed
qed

definition sample_read :: appeal_db where
  "sample_read = mark_read 1700000000001 1 [2, 3] sample_chat"

lemma sample_bulk: "read_bulk 1700000000001 1 1 [3] sample_chat = (Inr [2, 3], sample_read)"
proof -
  have r: "readable 1 1 [3] sample_chat = [sample_message 3]"
    by (simp add: readable_def visible_def sample_chat_def sample_message_def)
  have u: "unread_up_to 1 1 (message_key (sample_message 3)) sample_chat = [2, 3]"
    by (simp add: unread_up_to_def visible_def sample_chat_def sample_message_def message_key_def unread_by_def js_set_def)
  have f: "find_appeal 1 sample_chat = Some sample_appeal"
    "loadUserMini 1 sample_chat = Some \<lparr>um_id = 1, um_roleName = ''user'', um_departmentRoles = [], um_employee = None\<rparr>"
    by (simp_all add: find_appeal_def loadUserMini_def sample_chat_def sample_appeal_def)
  show ?thesis
    by (simp add: read_bulk_def f r later_of_def u sample_read_def has_access_def valid_id_def sample_appeal_def Let_def)
qed

lemma read_marks_exact_witness:
  "length (filter (unread_by 1 sample_read) (visible 1 sample_chat)) + 2 = length (filter (unread_by 1 sample_chat) (visible 1 sample_chat))"
  using read_marks_exact [OF sample_bulk] by (simp add: sample_chat_def sample_message_def)

section \<open>What the message handlers permit\<close>

text \<open>
  C40: a user without access to an appeal, who is refused its conversation, can nevertheless post to it:
  the handler that adds messages does not look at who the user is.
\<close>

theorem post_without_access:
  assumes "find_appeal i db = Some a" and "loadUserMini u db = Some actor" and "\<not> has_access actor a db"
    and "0 < i" and "valid_query q" and "mq_cursor q = None" and "js_trim t \<noteq> []"
  shows "list_messages host_date host_number u i q db = Inl FORBIDDEN \<and>
    (\<exists>k db' m. post_message now u i (Some t) files db = (Inr k, db') \<and> m \<in> set (visible i db') \<and> ms_id m = k \<and>
       ms_senderId m = u \<and> ms_text m = Some (Typed (js_trim t)))"
proof
  show "list_messages host_date host_number u i q db = Inl FORBIDDEN"
    using assms by (simp add: list_messages_def Let_def or_empty_def js_trim_def non_empty_def valid_id_def)
  show "\<exists>k db' m. post_message now u i (Some t) files db = (Inr k, db') \<and> m \<in> set (visible i db') \<and> ms_id m = k \<and>
      ms_senderId m = u \<and> ms_text m = Some (Typed (js_trim t))"
  proof (intro exI conjI)
    let ?m = "\<lparr>ms_id = ab_nextMessage db, ms_appealId = i, ms_senderId = u, ms_text = Some (Typed (js_trim t)), ms_type = USER_MESSAGE,
      ms_systemEvent = None, ms_editedAt = None, ms_deleted = False, ms_createdAt = now\<rparr>"
    show "post_message now u i (Some t) files db = (Inr (ab_nextMessage db), snd (post_message now u i (Some t) files db))"
      using assms(1,4,7) by (simp add: post_message_def Let_def or_empty_def non_empty_def valid_id_def)
    show "?m \<in> set (visible i (snd (post_message now u i (Some t) files db)))"
      using assms(1,4,7) by (simp add: post_message_def Let_def or_empty_def non_empty_def valid_id_def visible_def write_appeal_def add_message_def)
  qed simp_all
qed

definition sample_outsider :: appeal_db where
  "sample_outsider = sample_chat\<lparr>ab_users := ab_users sample_chat @
     [\<lparr>um_id = 3, um_roleName = ''user'', um_departmentRoles = [], um_employee = Some \<lparr>em_departmentId = Some 8, em_laborRate = None\<rparr>\<rparr>]\<rparr>"

lemma post_without_access_witness:
  "list_messages (\<lambda>_. None) (\<lambda>_. None) 3 1 sample_query sample_outsider = Inl FORBIDDEN \<and>
   fst (post_message 0 3 1 (Some ''hi'') [] sample_outsider) = Inr 4"
proof -
  have t: "js_trim ''hi'' = ''hi''" by (simp add: js_trim_def js_space_def)
  have "find_appeal 1 sample_outsider = Some sample_appeal"
    "loadUserMini 3 sample_outsider = Some \<lparr>um_id = 3, um_roleName = ''user'', um_departmentRoles = [],
       um_employee = Some \<lparr>em_departmentId = Some 8, em_laborRate = None\<rparr>\<rparr>"
    by (simp_all add: find_appeal_def loadUserMini_def sample_outsider_def sample_chat_def sample_appeal_def)
  moreover have "\<not> has_access \<lparr>um_id = 3, um_roleName = ''user'', um_departmentRoles = [],
       um_employee = Some \<lparr>em_departmentId = Some 8, em_laborRate = None\<rparr>\<rparr> sample_appeal sample_outsider"
    by (simp add: has_access_def sample_appeal_def members_of_def sample_outsider_def sample_chat_def profile_department_def
        loadUserMini_def employee_department_def isAdminRole_def js_lower_def js_lower_char_def)
  ultimately have "list_messages (\<lambda>_. None) (\<lambda>_. None) 3 1 sample_query sample_outsider = Inl FORBIDDEN \<and>
     (\<exists>k db' m. post_message 0 3 1 (Some ''hi'') [] sample_outsider = (Inr k, db') \<and> m \<in> set (visible 1 db') \<and> ms_id m = k \<and>
       ms_senderId m = 3 \<and> ms_text m = Some (Typed (js_trim ''hi'')))"
    by (intro post_without_access) (simp_all add: t sample_query_def valid_query_def)
  moreover have "fst (post_message 0 3 1 (Some ''hi'') [] sample_outsider) = Inr 4"
    by (simp add: post_message_def Let_def t or_empty_def non_empty_def valid_id_def find_appeal_def sample_outsider_def sample_chat_def sample_appeal_def)
  ultimately show ?thesis by blast
qed

text \<open>
  The record that the server writes of a change of status belongs to the user who made it, who can reword or hide
  it like a message of his own.
\<close>

lemma system_message_rewritten:
  assumes "find_message k db = Some m" and "ms_type m = SYSTEM_MESSAGE" and "ms_senderId m = u" and "0 < k" and "js_trim t \<noteq> []"
  shows "(\<exists>db' m'. edit_message now u k t db = (Inr k, db') \<and> m' \<in> set (ab_messages db') \<and> ms_id m' = k \<and>
      ms_type m' = SYSTEM_MESSAGE \<and> ms_systemEvent m' = ms_systemEvent m \<and> ms_text m' = Some (Typed (js_trim t))) \<and>
    (\<exists>db'. delete_message u k db = (Inr k, db') \<and> (\<forall>m' \<in> set (visible (ms_appealId m) db'). ms_id m' \<noteq> k))"
proof -
  from assms(1) have m: "m \<in> set (ab_messages db)" "ms_id m = k" using find_SomeD unfolding find_message_def by fast+
  then show ?thesis
    using assms by (auto simp: edit_message_def delete_message_def valid_id_def write_message_def visible_def update_where_def
      intro!: bexI [of _ m])
qed

end
