(* ===== verification/Appeal_Labor.thy ===== *)
theory Appeal_Labor
  imports Appeal_Data
begin

text \<open>
  Hours of work on appeals and their payment (\<^verbatim>\<open>src/src/routes/appeals.ts\<close>): rates,
  payment states, the entry form of an appeal, marking as paid and the audit log.  Numbers of
  JavaScript are rationals here; \<open>round2\<close> is \<^verbatim>\<open>toFixed(2)\<close>, which rounds half
  away from zero, so that stored values fit the two places of their columns.
\<close>

section \<open>Numbers\<close>

definition round2 :: "rat \<Rightarrow> rat" where
  "round2 x = (if x < 0 then - (of_int \<lfloor>- x * 100 + 1 / 2\<rfloor> / 100) else of_int \<lfloor>x * 100 + 1 / 2\<rfloor> / 100)"

definition normalizeHourValue :: "rat \<Rightarrow> rat" where
  "normalizeHourValue value = max 0 (round2 value)"

definition resolveEffectiveHourlyRate :: "bool \<Rightarrow> rat \<Rightarrow> rat option \<Rightarrow> rat" where
  "resolveEffectiveHourlyRate departmentPaymentRequired departmentHourlyRate assigneeHourlyRate =
     (if \<not> departmentPaymentRequired then 0
      else let candidate = (case assigneeHourlyRate of None \<Rightarrow> departmentHourlyRate | Some r \<Rightarrow> r)
           in if candidate \<le> 0 then 0 else round2 candidate)"

definition deriveLaborPaymentStatus :: "bool \<Rightarrow> rat \<Rightarrow> rat \<Rightarrow> labor_status" where
  "deriveLaborPaymentStatus payable accruedHours paidHours =
     (let accrued = normalizeHourValue accruedHours; paid = normalizeHourValue paidHours in
      if \<not> payable then NOT_REQUIRED
      else if accrued \<le> 0 \<or> paid \<le> 0 then UNPAID
      else if paid < accrued then PARTIAL
      else PAID)"

definition resolveLegacyPaidHours :: "rat \<Rightarrow> labor_status option \<Rightarrow> rat \<Rightarrow> rat" where
  "resolveLegacyPaidHours accruedHours paymentStatus previousPaidHours =
     (let accrued = normalizeHourValue accruedHours in
      if paymentStatus = Some PAID then accrued
      else if paymentStatus = Some UNPAID \<or> paymentStatus = Some NOT_REQUIRED then 0
      else min (normalizeHourValue previousPaidHours) accrued)"

section \<open>Entries and their audit log\<close>

type_synonym labor_key = "int \<times> user_id"

definition labor_key :: "labor_entry \<Rightarrow> labor_key" where
  "labor_key e = (le_appealId e, le_assigneeUserId e)"

definition find_entry :: "labor_key \<Rightarrow> labor_entry list \<Rightarrow> labor_entry option" where
  "find_entry k es = List.find (\<lambda>e. labor_key e = k) es"

definition upsert_entry :: "labor_entry \<Rightarrow> labor_entry list \<Rightarrow> labor_entry list" where
  "upsert_entry e es =
     (if find_entry (labor_key e) es = None then es @ [e]
      else update_where (\<lambda>r. labor_key r = labor_key e) (\<lambda>r. e\<lparr>le_createdById := le_createdById r\<rparr>) es)"

definition delete_entry :: "labor_key \<Rightarrow> labor_entry list \<Rightarrow> labor_entry list" where
  "delete_entry k es = filter (\<lambda>r. labor_key r \<noteq> k) es"

definition writeLaborAuditLog ::
  "user_id \<Rightarrow> labor_key \<Rightarrow> labor_entry option \<Rightarrow> rat \<Rightarrow> rat \<Rightarrow> labor_status \<Rightarrow> labor_audit list \<Rightarrow> labor_audit list" where
  "writeLaborAuditLog actorId k prev newHours newPaidHours newStatus trail =
     (if map_option le_hours prev = Some newHours \<and> map_option le_paidHours prev = Some newPaidHours \<and>
         map_option le_paymentStatus prev = Some newStatus then trail
      else trail @ [\<lparr>la_appealId = fst k, la_assigneeUserId = snd k, la_changedById = actorId,
             la_oldHours = map_option le_hours prev, la_newHours = newHours,
             la_oldPaidHours = map_option le_paidHours prev, la_newPaidHours = newPaidHours,
             la_oldPaymentStatus = map_option le_paymentStatus prev, la_newPaymentStatus = newStatus\<rparr>])"

section \<open>The entry form\<close>

record labor_item =
  li_assigneeUserId :: user_id
  li_accruedHours :: "rat option"
  li_paidHours :: "rat option"
  li_hours :: "rat option"
  li_paymentStatus :: "labor_status option"

definition valid_hours :: "rat option \<Rightarrow> bool" where
  "valid_hours v = (case v of None \<Rightarrow> True
     | Some h \<Rightarrow> 0 \<le> h \<and> h \<le> 9999 \<and> \<bar>h * 4 - of_int \<lfloor>h * 4 + 1 / 2\<rfloor>\<bar> < 1 / 1000000000)"

definition valid_item :: "labor_item \<Rightarrow> bool" where
  "valid_item i \<longleftrightarrow> valid_id (li_assigneeUserId i) \<and> valid_hours (li_accruedHours i) \<and> valid_hours (li_paidHours i) \<and>
     valid_hours (li_hours i) \<and> (li_accruedHours i \<noteq> None \<or> li_hours i \<noteq> None)"

type_synonym labor_tables = "labor_entry list \<times> labor_audit list"

definition zero_entry :: "user_id \<Rightarrow> labor_key \<Rightarrow> labor_entry" where
  "zero_entry actorId k =
     \<lparr>le_appealId = fst k, le_assigneeUserId = snd k, le_hours = 0, le_paidHours = 0, le_rate = 0,
      le_paymentStatus = NOT_REQUIRED, le_paidAt = None, le_paidById = None, le_createdById = actorId, le_updatedById = actorId\<rparr>"

text \<open>The branch for appeals whose work is not paid, one assignee after the other.\<close>

fun waive_labor :: "user_id \<Rightarrow> labor_entry list \<Rightarrow> labor_key list \<Rightarrow> labor_tables \<Rightarrow> labor_tables" where
  "waive_labor actorId current [] (es, trail) = (es, trail)"
| "waive_labor actorId current (k # ks) (es, trail) =
     waive_labor actorId current ks
       (upsert_entry (zero_entry actorId k) es, writeLaborAuditLog actorId k (find_entry k current) 0 0 NOT_REQUIRED trail)"

definition paid_hours_of :: "labor_item \<Rightarrow> rat \<Rightarrow> labor_entry option \<Rightarrow> rat" where
  "paid_hours_of item accruedHours prev =
     (let previousPaidHours = normalizeHourValue (case prev of None \<Rightarrow> 0 | Some e \<Rightarrow> le_paidHours e) in
      case li_paidHours item of
        Some p \<Rightarrow> normalizeHourValue p
      | None \<Rightarrow> resolveLegacyPaidHours accruedHours (li_paymentStatus item) previousPaidHours)"

text \<open>
  One item of the form: the hours, the rate that an existing entry keeps unless the work was not
  paid before, and the entry to store, if any.  A delete without a row raises in the database.
\<close>

definition labor_step ::
  "millis \<Rightarrow> user_id \<Rightarrow> appeal \<Rightarrow> (user_id \<Rightarrow> rat) \<Rightarrow> labor_entry option \<Rightarrow> labor_item \<Rightarrow> labor_tables \<Rightarrow> appeal_error + labor_tables" where
  "labor_step now actorId a effectiveRate prev item tables =
     (let k = (ap_id a, li_assigneeUserId item);
          accruedHours = normalizeHourValue (case li_accruedHours item of Some h \<Rightarrow> h
            | None \<Rightarrow> (case li_hours item of Some h \<Rightarrow> h | None \<Rightarrow> 0));
          requested = paid_hours_of item accruedHours prev;
          lockedRate = (case prev of None \<Rightarrow> effectiveRate (li_assigneeUserId item)
            | Some e \<Rightarrow> if ap_laborNotRequired a then effectiveRate (li_assigneeUserId item) else round2 (le_rate e));
          payable = (0 < lockedRate);
          paidHours = (if payable then requested else 0);
          (es, trail) = tables
      in
      if accruedHours < requested then Inl BAD_REQUEST
      else if accruedHours \<le> 0 \<and> paidHours \<le> 0 then
        (if prev \<noteq> None \<and> find_entry k es = None then Inl INTERNAL
         else Inr (if prev = None then es else delete_entry k es, writeLaborAuditLog actorId k prev 0 0 UNPAID trail))
      else
        let paymentStatus = deriveLaborPaymentStatus payable accruedHours paidHours;
            paidAt = (if paymentStatus \<noteq> PAID then None
              else Some (case Option.bind prev le_paidAt of None \<Rightarrow> now | Some t \<Rightarrow> t));
            paidById = (if paymentStatus \<noteq> PAID then None
              else Some (case Option.bind prev le_paidById of None \<Rightarrow> actorId | Some u \<Rightarrow> u))
        in Inr (upsert_entry
                  \<lparr>le_appealId = ap_id a, le_assigneeUserId = li_assigneeUserId item, le_hours = accruedHours,
                   le_paidHours = paidHours, le_rate = lockedRate, le_paymentStatus = paymentStatus, le_paidAt = paidAt,
                   le_paidById = paidById, le_createdById = actorId, le_updatedById = actorId\<rparr> es,
                writeLaborAuditLog actorId k prev accruedHours paidHours paymentStatus trail))"

fun labor_items ::
  "millis \<Rightarrow> user_id \<Rightarrow> appeal \<Rightarrow> (user_id \<Rightarrow> rat) \<Rightarrow> labor_entry list \<Rightarrow> labor_item list \<Rightarrow> labor_tables \<Rightarrow> appeal_error + labor_tables" where
  "labor_items now actorId a effectiveRate current [] tables = Inr tables"
| "labor_items now actorId a effectiveRate current (item # items) tables =
     (case labor_step now actorId a effectiveRate (find_entry (ap_id a, li_assigneeUserId item) current) item tables of
        Inl e \<Rightarrow> Inl e
      | Inr tables' \<Rightarrow> labor_items now actorId a effectiveRate current items tables')"

text \<open>Entries that the form does not name are deleted.\<close>

fun drop_unnamed :: "user_id \<Rightarrow> user_id set \<Rightarrow> labor_entry list \<Rightarrow> labor_tables \<Rightarrow> labor_tables" where
  "drop_unnamed actorId named [] tables = tables"
| "drop_unnamed actorId named (e # current) (es, trail) =
     drop_unnamed actorId named current
       (if le_assigneeUserId e \<in> named then (es, trail)
        else (delete_entry (labor_key e) es, writeLaborAuditLog actorId (labor_key e) (Some e) 0 0 UNPAID trail))"

text \<open>What the answer shows of an entry.\<close>

record labor_dto =
  ld_assigneeUserId :: user_id
  ld_accruedHours :: rat
  ld_paidHours :: rat
  ld_remainingHours :: rat
  ld_payable :: bool
  ld_hourlyRateRub :: "rat option"
  ld_effectiveHourlyRateRub :: rat
  ld_amountAccruedRub :: rat
  ld_amountPaidRub :: rat
  ld_amountRemainingRub :: rat
  ld_paymentStatus :: labor_status
  ld_paidAt :: "millis option"
  ld_paidById :: "user_id option"

definition assignee_rate :: "appeal_db \<Rightarrow> user_id \<Rightarrow> rat option" where
  "assignee_rate db u = Option.bind (Option.bind (loadUserMini u db) um_employee) em_laborRate"

definition mapLaborEntryDto :: "rat option \<Rightarrow> bool \<Rightarrow> labor_entry \<Rightarrow> labor_dto" where
  "mapLaborEntryDto assigneeHourlyRate appealLaborNotRequired entry =
     (let accruedHours = normalizeHourValue (le_hours entry);
          rawPaidHours = normalizeHourValue (le_paidHours entry);
          rate = (if appealLaborNotRequired then 0 else max 0 (round2 (le_rate entry)));
          payable = (\<not> appealLaborNotRequired \<and> 0 < rate);
          paidHours = (if payable then min rawPaidHours accruedHours else 0);
          remainingHours = max 0 (round2 (accruedHours - paidHours));
          paymentStatus = (if appealLaborNotRequired then NOT_REQUIRED else deriveLaborPaymentStatus payable accruedHours paidHours)
      in \<lparr>ld_assigneeUserId = le_assigneeUserId entry, ld_accruedHours = accruedHours, ld_paidHours = paidHours,
          ld_remainingHours = remainingHours, ld_payable = payable, ld_hourlyRateRub = map_option round2 assigneeHourlyRate,
          ld_effectiveHourlyRateRub = rate, ld_amountAccruedRub = round2 (accruedHours * rate),
          ld_amountPaidRub = round2 (paidHours * rate), ld_amountRemainingRub = round2 (remainingHours * rate),
          ld_paymentStatus = paymentStatus, ld_paidAt = (if paymentStatus = PAID then le_paidAt entry else None),
          ld_paidById = (if paymentStatus = PAID then le_paidById entry else None)\<rparr>)"

text \<open>\<^verbatim>\<open>PUT /appeals/:id/labor\<close>: all writes are one transaction.\<close>

definition labor_transaction ::
  "millis \<Rightarrow> user_id \<Rightarrow> appeal \<Rightarrow> user_id list \<Rightarrow> (user_id \<Rightarrow> rat) \<Rightarrow> bool \<Rightarrow> labor_item list \<Rightarrow> labor_tables \<Rightarrow> appeal_error + labor_tables" where
  "labor_transaction now actorId a assignees effectiveRate laborNotRequired items tables =
     (let current = filter (\<lambda>e. le_appealId e = ap_id a) (fst tables) in
      if laborNotRequired then
        Inr (waive_labor actorId current (map (\<lambda>u. (ap_id a, u)) (js_set (js_set assignees @ map le_assigneeUserId current))) tables)
      else case labor_items now actorId a effectiveRate current items tables of
             Inl e \<Rightarrow> Inl e
           | Inr tables' \<Rightarrow> Inr (drop_unnamed actorId (set (map li_assigneeUserId items)) current tables'))"

definition upsert_labor ::
  "millis \<Rightarrow> user_id \<Rightarrow> int \<Rightarrow> bool \<Rightarrow> labor_item list \<Rightarrow> appeal_db \<Rightarrow> (appeal_error + labor_dto list) \<times> appeal_db" where
  "upsert_labor now userId appealId laborNotRequired items db =
     (if \<not> valid_id appealId \<or> \<not> list_all valid_item items then (Inl BAD_REQUEST, db)
      else case loadUserMini userId db of None \<Rightarrow> (Inl NOT_FOUND, db) | Some actor \<Rightarrow>
      case find_appeal appealId db of None \<Rightarrow> (Inl NOT_FOUND, db) | Some a \<Rightarrow>
      if \<not> (isAdminRole actor \<or> isDepartmentManager actor (ap_toDepartmentId a)) then (Inl FORBIDDEN, db)
      else
        let assignees = members_of appealId (ab_assignees db) in
        if list_ex (\<lambda>i. li_assigneeUserId i \<notin> set assignees) items then (Inl BAD_REQUEST, db)
        else case List.find (\<lambda>d. dp_id d = ap_toDepartmentId a) (ab_departments db) of None \<Rightarrow> (Inl INTERNAL, db) | Some d \<Rightarrow>
        let effectiveRate = (\<lambda>u. resolveEffectiveHourlyRate (dp_paymentRequired d) (dp_laborRate d) (assignee_rate db u))
        in case labor_transaction now userId a assignees effectiveRate laborNotRequired items (ab_labor db, ab_audit db) of
             Inl e \<Rightarrow> (Inl e, db)
           | Inr (es, trail) \<Rightarrow>
               let db1 = (write_appeal now appealId (\<lambda>r. r\<lparr>ap_laborNotRequired := laborNotRequired\<rparr>) db)
                           \<lparr>ab_labor := es, ab_audit := trail\<rparr>
               in (Inr (map (\<lambda>e. mapLaborEntryDto (assignee_rate db (le_assigneeUserId e)) laborNotRequired e)
                    (sort_key le_assigneeUserId (filter (\<lambda>e. le_appealId e = appealId) es))), db1))"

section \<open>Marking as paid, rates\<close>

text \<open>\<^verbatim>\<open>PUT /appeals/analytics/payment-queue/mark-paid\<close>\<close>

definition payable_now :: "user_mini \<Rightarrow> labor_key \<Rightarrow> appeal_db \<Rightarrow> labor_entry list \<Rightarrow> labor_entry option" where
  "payable_now actor k db es =
     (case (find_entry k es, find_appeal (fst k) db) of
        (Some e, Some a) \<Rightarrow>
          (case List.find (\<lambda>d. dp_id d = ap_toDepartmentId a) (ab_departments db) of
             None \<Rightarrow> None
           | Some d \<Rightarrow>
               if (isAdminRole actor \<or> isDepartmentManager actor (ap_toDepartmentId a)) \<and> dp_paymentRequired d \<and>
                  le_paymentStatus e \<noteq> NOT_REQUIRED \<and> le_paymentStatus e \<noteq> PAID
               then Some e else None)
      | _ \<Rightarrow> None)"

fun mark_items :: "millis \<Rightarrow> user_mini \<Rightarrow> appeal_db \<Rightarrow> labor_key list \<Rightarrow> labor_tables \<Rightarrow> nat \<times> labor_tables" where
  "mark_items now actor db [] tables = (0, tables)"
| "mark_items now actor db (k # ks) (es, trail) =
     (case payable_now actor k db es of
        None \<Rightarrow> mark_items now actor db ks (es, trail)
      | Some e \<Rightarrow>
          (case mark_items now actor db ks
             (update_where (\<lambda>r. labor_key r = k)
                (\<lambda>r. r\<lparr>le_paidHours := le_hours e, le_paymentStatus := PAID, le_paidAt := Some now,
                      le_paidById := Some (um_id actor), le_updatedById := um_id actor\<rparr>) es,
              trail @ [\<lparr>la_appealId = fst k, la_assigneeUserId = snd k, la_changedById = um_id actor,
                la_oldHours = Some (le_hours e), la_newHours = le_hours e, la_oldPaidHours = Some (le_paidHours e),
                la_newPaidHours = le_hours e, la_oldPaymentStatus = Some (le_paymentStatus e), la_newPaymentStatus = PAID\<rparr>]) of
             (n, tables) \<Rightarrow> (Suc n, tables)))"

definition mark_paid :: "millis \<Rightarrow> user_id \<Rightarrow> labor_key list \<Rightarrow> appeal_db \<Rightarrow> (appeal_error + nat) \<times> appeal_db" where
  "mark_paid now userId ks db =
     (if ks = [] \<or> \<not> list_all (\<lambda>(a, u). valid_id a \<and> valid_id u) ks then (Inl BAD_REQUEST, db)
      else case loadUserMini userId db of None \<Rightarrow> (Inl NOT_FOUND, db) | Some actor \<Rightarrow>
      case mark_items now actor db ks (ab_labor db, ab_audit db) of
        (n, es, trail) \<Rightarrow> (Inr n, db\<lparr>ab_labor := es, ab_audit := trail\<rparr>))"

text \<open>\<^verbatim>\<open>PUT /appeals/analytics/users/:userId/hourly-rate\<close>\<close>

definition set_hourly_rate :: "user_id \<Rightarrow> user_id \<Rightarrow> rat \<Rightarrow> appeal_db \<Rightarrow> (appeal_error + rat) \<times> appeal_db" where
  "set_hourly_rate userId targetId hourlyRateRub db =
     (if \<not> valid_id targetId \<or> hourlyRateRub < 0 \<or> 999999 < hourlyRateRub \<or>
         of_int \<lfloor>hourlyRateRub * 100 + 1 / 2\<rfloor> / 100 \<noteq> hourlyRateRub then (Inl BAD_REQUEST, db)
      else case loadUserMini userId db of None \<Rightarrow> (Inl NOT_FOUND, db) | Some actor \<Rightarrow>
      case Option.bind (loadUserMini targetId db) um_employee of None \<Rightarrow> (Inl NOT_FOUND, db) | Some profile \<Rightarrow>
      if \<not> (isAdminRole actor \<or>
             isDepartmentManager actor (case em_departmentId profile of None \<Rightarrow> 0 | Some d \<Rightarrow> d)) then (Inl FORBIDDEN, db)
      else (Inr (round2 hourlyRateRub),
            db\<lparr>ab_users := update_where (\<lambda>u. um_id u = targetId)
                 (\<lambda>u. u\<lparr>um_employee := map_option (\<lambda>p. p\<lparr>em_laborRate := Some (round2 hourlyRateRub)\<rparr>) (um_employee u)\<rparr>) (ab_users db)\<rparr>))"

end
