(* ===== verification/Appeal_Ledger.thy ===== *)
theory Appeal_Ledger
  imports Appeal_Labor
begin

text \<open>
  The audit log of the labor entries as their abstract specification: replaying the log gives the
  table.  Every entry is consistent: hours paid are at most the hours worked, and the state of the
  payment is the one that its hours and its rate imply.
\<close>

section \<open>Numbers\<close>

lemma round2_grid: "\<exists>n. round2 x = of_int n / 100"
  by (cases "x < 0") (auto simp: round2_def intro: exI [of _ "- \<lfloor>1 / 2 - x * 100\<rfloor>"])

lemma round2_of_grid [simp]: "round2 (of_int n / 100) = of_int n / 100"
proof -
  have "\<lfloor>of_int m + 1 / 2 :: rat\<rfloor> = m" for m :: int by (rule floor_unique) simp_all
  from this [of n] this [of "- n"] show ?thesis by (simp add: round2_def)
qed

lemma round2_idem [simp]: "round2 (round2 x) = round2 x"
  using round2_grid [of x] round2_of_grid by metis

lemma round2_nonneg: "0 \<le> x \<Longrightarrow> 0 \<le> round2 x"
  by (simp add: round2_def)

lemma round2_zero [simp]: "round2 0 = 0"
  using round2_of_grid [of 0] by simp

definition two_places :: "rat \<Rightarrow> bool" where
  "two_places x \<longleftrightarrow> round2 x = x"

lemma normalize_nonneg [simp]: "0 \<le> normalizeHourValue x"
  by (simp add: normalizeHourValue_def)

lemma normalize_places [simp]: "two_places (normalizeHourValue x)"
  by (simp add: normalizeHourValue_def two_places_def max_def)

lemma normalize_idle: "two_places x \<Longrightarrow> 0 \<le> x \<Longrightarrow> normalizeHourValue x = x"
  by (simp add: normalizeHourValue_def two_places_def)

lemma two_places_round2 [simp]: "two_places (round2 x)"
  by (simp add: two_places_def)

lemma two_places_zero [simp]: "two_places 0"
  by (simp add: two_places_def)

lemma effective_rate_sound: "0 \<le> resolveEffectiveHourlyRate r d u \<and> two_places (resolveEffectiveHourlyRate r d u)"
  by (simp add: resolveEffectiveHourlyRate_def Let_def round2_nonneg)

section \<open>Entries\<close>

definition entry_ok :: "labor_entry \<Rightarrow> bool" where
  "entry_ok e \<longleftrightarrow>
     two_places (le_hours e) \<and> two_places (le_paidHours e) \<and> two_places (le_rate e) \<and>
     0 \<le> le_paidHours e \<and> le_paidHours e \<le> le_hours e \<and> 0 \<le> le_rate e \<and>
     le_paymentStatus e = deriveLaborPaymentStatus (0 < le_rate e) (le_hours e) (le_paidHours e) \<and>
     (le_rate e = 0 \<longrightarrow> le_paidHours e = 0) \<and> (le_hours e = 0 \<longrightarrow> le_rate e = 0) \<and>
     (le_paymentStatus e = PAID \<longleftrightarrow> le_paidAt e \<noteq> None) \<and> (le_paymentStatus e = PAID \<longleftrightarrow> le_paidById e \<noteq> None)"

lemma derive_status:
  assumes "two_places h" and "two_places p" and "0 \<le> p" and "p \<le> h"
  shows "deriveLaborPaymentStatus payable h p =
    (if \<not> payable then NOT_REQUIRED else if p = 0 then UNPAID else if p = h then PAID else PARTIAL)"
  using assms by (auto simp: deriveLaborPaymentStatus_def normalize_idle)

lemma entry_not_bare: "entry_ok e \<Longrightarrow> (le_hours e, le_paidHours e, le_paymentStatus e) \<noteq> (0, 0, UNPAID)"
  by (auto simp: entry_ok_def derive_status)

section \<open>The log as specification\<close>

type_synonym labor_view = "labor_key \<Rightarrow> (rat \<times> rat \<times> labor_status) option"

definition view :: "labor_entry list \<Rightarrow> labor_view" where
  "view es k = map_option (\<lambda>e. (le_hours e, le_paidHours e, le_paymentStatus e)) (find_entry k es)"

definition apply_audit :: "labor_audit \<Rightarrow> labor_view \<Rightarrow> labor_view" where
  "apply_audit r v =
     v((la_appealId r, la_assigneeUserId r) :=
       (if (la_newHours r, la_newPaidHours r, la_newPaymentStatus r) = (0, 0, UNPAID) then None
        else Some (la_newHours r, la_newPaidHours r, la_newPaymentStatus r)))"

definition replay :: "labor_audit list \<Rightarrow> labor_view" where
  "replay trail = fold apply_audit trail Map.empty"

text \<open>The table is consistent; the log gives the value that the table holds for one appeal and assignee.\<close>

definition entries_ok :: "labor_entry list \<Rightarrow> bool" where
  "entries_ok es \<longleftrightarrow> distinct (map labor_key es) \<and> (\<forall>e \<in> set es. entry_ok e)"

definition logged :: "labor_key \<Rightarrow> labor_tables \<Rightarrow> bool" where
  "logged k t \<longleftrightarrow> replay (snd t) k = view (fst t) k"

definition same_at :: "labor_key \<Rightarrow> labor_tables \<Rightarrow> labor_tables \<Rightarrow> bool" where
  "same_at k t t' \<longleftrightarrow> find_entry k (fst t') = find_entry k (fst t) \<and> replay (snd t') k = replay (snd t) k"

lemma same_at_refl [simp]: "same_at k t t"
  by (simp add: same_at_def)

lemma same_at_trans: "same_at k t t1 \<Longrightarrow> same_at k t1 t2 \<Longrightarrow> same_at k t t2"
  by (simp add: same_at_def)

lemma same_at_logged: "same_at k t t' \<Longrightarrow> logged k t' = logged k t"
  by (simp add: same_at_def logged_def view_def)

lemma replay_snoc: "replay (trail @ [r]) = apply_audit r (replay trail)"
  by (simp add: replay_def)

lemma find_entry_Some: "find_entry k es = Some e \<Longrightarrow> e \<in> set es \<and> labor_key e = k"
  using find_SomeD unfolding find_entry_def by fast

lemma find_entry_None: "find_entry k es = None \<longleftrightarrow> (\<forall>e \<in> set es. labor_key e \<noteq> k)"
  by (auto simp: find_entry_def find_None_iff)

lemma find_entry_upsert:
  "find_entry k' (upsert_entry e es) =
    (if k' = labor_key e
     then Some (case find_entry k' es of None \<Rightarrow> e | Some r \<Rightarrow> e\<lparr>le_createdById := le_createdById r\<rparr>) else find_entry k' es)"
proof (cases "find_entry (labor_key e) es")
  case None
  then have "List.find (\<lambda>r. labor_key r = labor_key e) (es @ [e]) = Some e"
    by (subst find_append_None) (auto simp: find_entry_None)
  moreover have "find_entry k' (es @ [e]) = find_entry k' es" if "k' \<noteq> labor_key e"
    using that by (induction es) (auto simp: find_entry_def)
  ultimately show ?thesis using None by (auto simp: upsert_entry_def find_entry_def)
next
  case (Some r)
  have "find_entry k' (update_where (\<lambda>r. labor_key r = labor_key e) (\<lambda>r. e\<lparr>le_createdById := le_createdById r\<rparr>) es) =
      map_option (\<lambda>r. if labor_key r = labor_key e then e\<lparr>le_createdById := le_createdById r\<rparr> else r) (find_entry k' es)"
    by (induction es) (auto simp: find_entry_def update_where_def labor_key_def)
  then show ?thesis using Some find_entry_Some [of k' es] by (cases "find_entry k' es") (auto simp: upsert_entry_def)
qed

lemma view_upsert: "view (upsert_entry e es) = (view es)(labor_key e := Some (le_hours e, le_paidHours e, le_paymentStatus e))"
  by (auto simp: view_def find_entry_upsert fun_eq_iff split: option.splits)

lemma find_entry_delete: "find_entry k' (delete_entry k es) = (if k' = k then None else find_entry k' es)"
  by (induction es) (auto simp: find_entry_def delete_entry_def)

lemma view_delete: "view (delete_entry k es) = (view es)(k := None)"
  by (simp add: view_def find_entry_delete fun_eq_iff)

lemma keys_upsert: "distinct (map labor_key es) \<Longrightarrow> distinct (map labor_key (upsert_entry e es))"
proof -
  have "map labor_key (update_where (\<lambda>r. labor_key r = labor_key e) (\<lambda>r. e\<lparr>le_createdById := le_createdById r\<rparr>) es) = map labor_key es"
    by (induction es) (auto simp: update_where_def labor_key_def)
  then show "distinct (map labor_key es) \<Longrightarrow> ?thesis" by (auto simp: upsert_entry_def find_entry_None)
qed

lemma keys_delete: "distinct (map labor_key es) \<Longrightarrow> distinct (map labor_key (delete_entry k es))"
  by (simp add: delete_entry_def distinct_map_filter)

lemma entry_ok_created [simp]: "entry_ok (e\<lparr>le_createdById := x\<rparr>) = entry_ok e"
  by (simp add: entry_ok_def)

lemma set_upsert: "entry_ok e \<Longrightarrow> \<forall>r \<in> set es. entry_ok r \<Longrightarrow> \<forall>r \<in> set (upsert_entry e es). entry_ok r"
  by (auto simp: upsert_entry_def update_where_def)

lemma entries_upsert: "entries_ok es \<Longrightarrow> entry_ok e \<Longrightarrow> entries_ok (upsert_entry e es)"
  unfolding entries_ok_def using keys_upsert set_upsert by blast

lemma entries_delete: "entries_ok es \<Longrightarrow> entries_ok (delete_entry k es)"
  by (simp add: entries_ok_def keys_delete) (simp add: delete_entry_def)

lemma entries_found: "entries_ok es \<Longrightarrow> find_entry k es = Some e \<Longrightarrow> entry_ok e"
  using find_entry_Some by (fastforce simp: entries_ok_def)

text \<open>The audit row of a write brings the replay to the written value, and touches no other key.\<close>

lemma audit_other: "k' \<noteq> k \<Longrightarrow> replay (writeLaborAuditLog actorId k prev h p st trail) k' = replay trail k'"
  by (cases k) (auto simp: writeLaborAuditLog_def replay_snoc apply_audit_def)

lemma audit_put:
  assumes "logged k (es, trail)" and "find_entry k es = prev" and "(h, p, st) \<noteq> (0, 0, UNPAID)"
  shows "replay (writeLaborAuditLog actorId k prev h p st trail) k = Some (h, p, st)"
  using assms by (cases k) (auto simp: logged_def writeLaborAuditLog_def replay_snoc apply_audit_def view_def)

lemma audit_remove:
  assumes "\<And>e. prev = Some e \<Longrightarrow> entry_ok e"
  shows "replay (writeLaborAuditLog actorId k prev 0 0 UNPAID trail) k = None"
  using assms entry_not_bare by (cases k; cases prev) (auto simp: writeLaborAuditLog_def replay_snoc apply_audit_def)

text \<open>An entry is written, or removed, together with its audit row.\<close>

lemma put_other:
  "k' \<noteq> labor_key e \<Longrightarrow>
   same_at k' (es, trail) (upsert_entry e es, writeLaborAuditLog actorId (labor_key e) prev h p st trail)"
  by (simp add: same_at_def find_entry_upsert audit_other)

lemma put_logged:
  assumes "logged k (es, trail)" and "find_entry k es = prev" and "entry_ok e" and "labor_key e = k"
  shows "logged k (upsert_entry e es, writeLaborAuditLog actorId k prev (le_hours e) (le_paidHours e) (le_paymentStatus e) trail)"
  using audit_put [OF assms(1,2) entry_not_bare [OF assms(3)]] assms(4) by (simp add: logged_def view_upsert)

lemma remove_other: "k' \<noteq> k \<Longrightarrow> same_at k' (es, trail) (delete_entry k es, writeLaborAuditLog actorId k prev h p st trail)"
  by (simp add: same_at_def find_entry_delete audit_other)

lemma remove_logged:
  "(\<And>e. prev = Some e \<Longrightarrow> entry_ok e) \<Longrightarrow> logged k (delete_entry k es, writeLaborAuditLog actorId k prev 0 0 UNPAID trail)"
  by (simp add: logged_def view_delete audit_remove)

section \<open>The form keeps the specification\<close>

lemma delete_none: "find_entry k es = None \<Longrightarrow> delete_entry k es = es"
  by (auto simp: find_entry_None delete_entry_def filter_id_conv)

lemma zero_entry_ok [simp]: "entry_ok (zero_entry u k)"
  by (simp add: zero_entry_def entry_ok_def derive_status)

lemma labor_key_zero [simp]: "labor_key (zero_entry u k) = k"
  by (simp add: labor_key_def zero_entry_def)

lemma zero_entry_fields: "le_hours (zero_entry u k) = 0" "le_paidHours (zero_entry u k) = 0" "le_paymentStatus (zero_entry u k) = NOT_REQUIRED"
  by (simp_all add: zero_entry_def)

definition rates_sound :: "(user_id \<Rightarrow> rat) \<Rightarrow> bool" where
  "rates_sound f \<longleftrightarrow> (\<forall>u. 0 \<le> f u \<and> two_places (f u))"

lemma rates_sound_effective: "rates_sound (\<lambda>u. resolveEffectiveHourlyRate r d (g u))"
  by (simp add: rates_sound_def effective_rate_sound)

lemma paid_hours_nonneg: "0 \<le> paid_hours_of item (normalizeHourValue x) prev \<and> two_places (paid_hours_of item (normalizeHourValue x) prev)"
  by (auto simp: paid_hours_of_def resolveLegacyPaidHours_def Let_def min_def normalize_idle split: option.split)

text \<open>One item: \<open>prev\<close> is the entry as the transaction read it, which a repeated item no longer matches.\<close>

lemma labor_step_sound:
  assumes ok: "entries_ok es" and prev: "\<forall>e. prev = Some e \<longrightarrow> entry_ok e" and rates: "rates_sound f"
    and step: "labor_step now actorId a f prev item (es, trail) = Inr (es', trail')"
    and key: "kk = (ap_id a, li_assigneeUserId item)"
  shows "entries_ok es' \<and> (\<forall>k. k \<noteq> kk \<longrightarrow> same_at k (es, trail) (es', trail')) \<and>
    (find_entry kk es = prev \<longrightarrow> logged kk (es, trail) \<longrightarrow> logged kk (es', trail'))"
proof -
  define h where "h = normalizeHourValue (case li_accruedHours item of Some h \<Rightarrow> h
            | None \<Rightarrow> (case li_hours item of Some h \<Rightarrow> h | None \<Rightarrow> 0))"
  define q where "q = paid_hours_of item h prev"
  define r where "r = (case prev of None \<Rightarrow> f (li_assigneeUserId item)
            | Some e \<Rightarrow> if ap_laborNotRequired a then f (li_assigneeUserId item) else round2 (le_rate e))"
  define p where "p = (if 0 < r then q else 0)"
  have h: "0 \<le> h" "two_places h" by (simp_all add: h_def)
  have q: "0 \<le> q" "two_places q" using paid_hours_nonneg by (simp_all add: q_def h_def)
  have r: "0 \<le> r" "two_places r" using rates prev by (auto simp: r_def rates_sound_def entry_ok_def round2_nonneg split: option.split)
  note unf = step [unfolded labor_step_def Let_def, folded h_def key, folded q_def r_def, folded p_def]
  have le: "q \<le> h" using unf by (auto split: if_splits)
  then have p: "0 \<le> p" "two_places p" "p \<le> h" using q h by (auto simp: p_def)
  show ?thesis
  proof (cases "h \<le> 0 \<and> p \<le> 0")
    case True
    then have eq: "es' = (if prev = None then es else delete_entry kk es)" "trail' = writeLaborAuditLog actorId kk prev 0 0 UNPAID trail"
      using unf le by (auto split: if_splits)
    show ?thesis
    proof (cases prev)
      case None
      then show ?thesis
        using eq ok audit_remove [of prev actorId kk trail] by (auto simp: same_at_def logged_def view_def audit_other)
    next
      case (Some e)
      then show ?thesis
        using eq entries_delete [OF ok] remove_other [of _ kk es trail actorId prev 0 0 UNPAID] remove_logged [of prev kk es actorId trail] prev
        by simp
    qed
  next
    case False
    define st where "st = deriveLaborPaymentStatus (0 < r) h p"
    define e where "e = \<lparr>le_appealId = ap_id a, le_assigneeUserId = li_assigneeUserId item, le_hours = h,
                   le_paidHours = p, le_rate = r, le_paymentStatus = st,
                   le_paidAt = (if st \<noteq> PAID then None else Some (case Option.bind prev le_paidAt of None \<Rightarrow> now | Some t \<Rightarrow> t)),
                   le_paidById = (if st \<noteq> PAID then None else Some (case Option.bind prev le_paidById of None \<Rightarrow> actorId | Some u \<Rightarrow> u)),
                   le_createdById = actorId, le_updatedById = actorId\<rparr>"
    have "0 < h" using False h(1) p by linarith
    then have e_ok: "entry_ok e" using h p r by (simp add: entry_ok_def e_def st_def p_def)
    have k: "labor_key e = kk" by (simp add: labor_key_def e_def key)
    have "es' = upsert_entry e es" "trail' = writeLaborAuditLog actorId kk prev (le_hours e) (le_paidHours e) (le_paymentStatus e) trail"
      using unf le False by (auto simp: e_def st_def)
    then show ?thesis
      using entries_upsert [OF ok e_ok] put_other [of _ e es trail actorId prev] put_logged [OF _ _ e_ok k] k by simp
  qed
qed

lemma labor_items_sound:
  assumes "rates_sound f" and "\<forall>j e. find_entry j current = Some e \<longrightarrow> entry_ok e" and "entries_ok (fst t)"
    and "labor_items now actorId a f current items t = Inr t'"
  shows "entries_ok (fst t') \<and> (k \<notin> (\<lambda>i. (ap_id a, li_assigneeUserId i)) ` set items \<longrightarrow> same_at k t t') \<and>
    (count_list (map li_assigneeUserId items) (snd k) \<le> 1 \<longrightarrow> find_entry k (fst t) = find_entry k current \<longrightarrow> logged k t \<longrightarrow> logged k t')"
  using assms(3,4)
proof (induction items arbitrary: t)
  case (Cons i items)
  let ?k = "(ap_id a, li_assigneeUserId i)"
  obtain es trail where t: "t = (es, trail)" by (cases t)
  from Cons.prems(2) obtain es1 trail1 where s: "labor_step now actorId a f (find_entry ?k current) i (es, trail) = Inr (es1, trail1)"
    and rest: "labor_items now actorId a f current items (es1, trail1) = Inr t'"
    by (auto simp: t split: sum.splits)
  have ok: "entries_ok es" using Cons.prems(1) by (simp add: t)
  have "\<forall>e. find_entry ?k current = Some e \<longrightarrow> entry_ok e" using assms(2) by blast
  note one = labor_step_sound [OF ok this assms(1) s refl]
  have "entries_ok (fst (es1, trail1))" using one by simp
  note more = Cons.IH [OF this rest]
  show ?case
  proof (cases "k = ?k")
    case True
    then have "same_at k (es1, trail1) t'" if "count_list (map li_assigneeUserId (i # items)) (snd k) \<le> 1"
      using more that by (auto simp: count_list_0_iff)
    moreover have "find_entry k es = find_entry k current \<Longrightarrow> logged k (es, trail) \<Longrightarrow> logged k (es1, trail1)"
      using one True by blast
    ultimately show ?thesis using more True same_at_logged [of k "(es1, trail1)" t'] unfolding t by auto
  next
    case False
    then have "same_at k (es, trail) (es1, trail1)" using one by blast
    then show ?thesis
      using more False same_at_trans same_at_logged [of k "(es, trail)" "(es1, trail1)"] by (auto simp: t same_at_def)
  qed
qed simp

lemma drop_unnamed_sound:
  assumes "entries_ok (fst t)" and "\<And>e. e \<in> set current \<Longrightarrow> entry_ok e"
  shows "entries_ok (fst (drop_unnamed actorId named current t)) \<and> (logged k t \<longrightarrow> logged k (drop_unnamed actorId named current t))"
  using assms
proof (induction current arbitrary: t)
  case (Cons e current)
  obtain es trail where t: "t = (es, trail)" by (cases t)
  let ?t = "(delete_entry (labor_key e) es, writeLaborAuditLog actorId (labor_key e) (Some e) 0 0 UNPAID trail)"
  have ok: "entries_ok (fst ?t)" using entries_delete Cons.prems(1) by (simp add: t)
  have "logged k ?t" if "logged k t"
    using that remove_logged [of "Some e" k es actorId trail] same_at_logged [OF remove_other] Cons.prems(2)
    by (cases "k = labor_key e") (simp_all add: t)
  then show ?case using Cons.IH [OF ok] Cons.IH [of t] Cons.prems by (simp add: t)
qed simp

lemma waive_sound:
  assumes "entries_ok (fst t)" and "distinct ks"
  shows "entries_ok (fst (waive_labor actorId current ks t)) \<and>
    (find_entry k (fst t) = find_entry k current \<longrightarrow> logged k t \<longrightarrow> logged k (waive_labor actorId current ks t)) \<and>
    (k \<notin> set ks \<longrightarrow> same_at k t (waive_labor actorId current ks t))"
  using assms
proof (induction ks arbitrary: t)
  case (Cons j ks)
  obtain es trail where t: "t = (es, trail)" by (cases t)
  let ?t = "(upsert_entry (zero_entry actorId j) es, writeLaborAuditLog actorId j (find_entry j current) 0 0 NOT_REQUIRED trail)"
  have "entries_ok (fst ?t)" using Cons.prems(1) entries_upsert by (simp add: t)
  note more = Cons.IH [OF this]
  show ?case
  proof (cases "k = j")
    case True
    then have "logged k ?t" if "find_entry k es = find_entry k current" "logged k (es, trail)"
      using put_logged [OF that(2,1) zero_entry_ok labor_key_zero, of actorId] by (simp add: zero_entry_fields)
    moreover have "k \<notin> set ks" "distinct ks" using Cons.prems(2) True by simp_all
    ultimately show ?thesis using more True same_at_logged [of k ?t "waive_labor actorId current ks ?t"] by (auto simp: t)
  next
    case False
    then have "same_at k (es, trail) ?t" using put_other [of k "zero_entry actorId j" es trail actorId] by simp
    then show ?thesis
      using more Cons.prems(2) False same_at_logged [of k "(es, trail)" ?t] same_at_trans by (auto simp: t same_at_def)
  qed
qed (metis same_at_refl surj_pair waive_labor.simps(1))

lemma current_entry:
  "find_entry k (filter (\<lambda>e. le_appealId e = i) es) = (if fst k = i then find_entry k es else None)"
  by (induction es) (auto simp: find_entry_def labor_key_def)

lemma labor_transaction_sound:
  assumes ok: "entries_ok (fst t)" and rates: "rates_sound f"
    and tr: "labor_transaction now actorId a assignees f laborNotRequired items t = Inr t'"
  shows "entries_ok (fst t') \<and>
    ((fst k = ap_id a \<longrightarrow> count_list (map li_assigneeUserId items) (snd k) \<le> 1) \<longrightarrow> logged k t \<longrightarrow> logged k t')"
proof -
  let ?current = "filter (\<lambda>e. le_appealId e = ap_id a) (fst t)"
  have oks: "\<forall>j e. find_entry j ?current = Some e \<longrightarrow> entry_ok e"
  proof (intro allI impI)
    fix j e assume "find_entry j ?current = Some e"
    then show "entry_ok e" using ok find_entry_Some [of j ?current e] by (simp add: entries_ok_def)
  qed
  show ?thesis
  proof (cases laborNotRequired)
    case True
    let ?ks = "map (\<lambda>u. (ap_id a, u)) (js_set (js_set assignees @ map le_assigneeUserId ?current))"
    have t': "t' = waive_labor actorId ?current ?ks t" using tr True by (simp add: labor_transaction_def Let_def)
    have "distinct ?ks" by (simp add: distinct_map inj_on_def)
    note w = waive_sound [OF ok this, of actorId ?current k]
    show ?thesis
    proof (cases "fst k = ap_id a")
      case True
      then have "find_entry k (fst t) = find_entry k ?current" by (simp add: current_entry)
      then show ?thesis using w unfolding t' by blast
    next
      case False
      then have "k \<notin> set ?ks" by auto
      then have "same_at k t t'" using w unfolding t' by blast
      then show ?thesis using w same_at_logged unfolding t' by blast
    qed
  next
    case False
    then obtain t1 where it: "labor_items now actorId a f ?current items t = Inr t1"
      and t': "t' = drop_unnamed actorId (set (map li_assigneeUserId items)) ?current t1"
      using tr by (auto simp: labor_transaction_def Let_def split: sum.splits)
    note items = labor_items_sound [OF rates oks ok it, where k = k]
    have "logged k t1" if "fst k = ap_id a \<longrightarrow> count_list (map li_assigneeUserId items) (snd k) \<le> 1" "logged k t"
    proof (cases "fst k = ap_id a")
      case True
      then show ?thesis using items that by (simp add: current_entry)
    next
      case False
      then have "k \<notin> (\<lambda>i. (ap_id a, li_assigneeUserId i)) ` set items" by auto
      then show ?thesis using items that same_at_logged by blast
    qed
    moreover have "entry_ok e" if "e \<in> set ?current" for e using ok that by (simp add: entries_ok_def)
    ultimately show ?thesis unfolding t' using items drop_unnamed_sound [of t1 ?current actorId _ k] by blast
  qed
qed

section \<open>Marking as paid\<close>

lemma find_entry_update:
  assumes "\<And>r. labor_key (g r) = labor_key r"
  shows "find_entry k' (update_where (\<lambda>r. labor_key r = k) g es) = (if k' = k then map_option g (find_entry k es) else find_entry k' es)"
  using assms by (induction es) (auto simp: find_entry_def update_where_def)

lemma mark_one_sound:
  assumes ok: "entries_ok es" and e: "payable_now actor k db es = Some e"
    and es': "es' = update_where (\<lambda>r. labor_key r = k)
                (\<lambda>r. r\<lparr>le_paidHours := le_hours e, le_paymentStatus := PAID, le_paidAt := Some now,
                      le_paidById := Some (um_id actor), le_updatedById := um_id actor\<rparr>) es" (is "es' = update_where ?p ?g es")
    and trail': "trail' = trail @ [\<lparr>la_appealId = fst k, la_assigneeUserId = snd k, la_changedById = um_id actor,
                la_oldHours = Some (le_hours e), la_newHours = le_hours e, la_oldPaidHours = Some (le_paidHours e),
                la_newPaidHours = le_hours e, la_oldPaymentStatus = Some (le_paymentStatus e), la_newPaymentStatus = PAID\<rparr>]"
  shows "entries_ok es' \<and> (logged k' (es, trail) \<longrightarrow> logged k' (es', trail'))"
proof -
  have f: "find_entry k es = Some e" and s: "le_paymentStatus e \<noteq> NOT_REQUIRED" "le_paymentStatus e \<noteq> PAID"
    using e by (auto simp: payable_now_def split: option.splits if_splits)
  have in_es: "e \<in> set es" "labor_key e = k" using find_entry_Some [OF f] by simp_all
  have e_ok: "entry_ok e" using ok in_es by (simp add: entries_ok_def)
  have keys: "distinct (map labor_key es)" using ok by (simp add: entries_ok_def)
  have g: "labor_key (?g r) = labor_key r" for r by (simp add: labor_key_def)
  have "0 < le_rate e" "le_hours e \<noteq> 0" "0 \<le> le_hours e"
    using e_ok s by (auto simp: entry_ok_def derive_status split: if_splits)
  then have "entry_ok (?g e)" using e_ok by (simp add: entry_ok_def derive_status)
  moreover have "r = e" if "r \<in> set es" "?p r" for r using keys in_es that by (metis distinct_key_eq)
  ultimately have oks: "\<forall>r \<in> set es'. entry_ok r"
    using ok unfolding es' by (auto simp: entries_ok_def update_where_def)
  have "map labor_key es' = map labor_key es" unfolding es' by (simp add: update_where_def g)
  moreover have "view es' = (view es)(k := Some (le_hours e, le_hours e, PAID))"
    using find_entry_update [of ?g, OF g] unfolding es' by (simp add: view_def f fun_eq_iff)
  ultimately show ?thesis using keys oks by (cases k) (auto simp: entries_ok_def logged_def trail' replay_snoc apply_audit_def)
qed

lemma mark_items_sound:
  "entries_ok (fst t) \<Longrightarrow> entries_ok (fst (snd (mark_items now actor db ks t))) \<and>
     (logged k' t \<longrightarrow> logged k' (snd (mark_items now actor db ks t)))"
proof (induction ks arbitrary: t)
  case (Cons k ks)
  obtain es trail where t: "t = (es, trail)" by (cases t)
  have ok: "entries_ok es" using Cons.prems by (simp add: t)
  show ?case
  proof (cases "payable_now actor k db es")
    case None
    then show ?thesis using Cons by (simp add: t)
  next
    case (Some e)
    note one = mark_one_sound [OF ok Some refl refl]
    show ?thesis
      using Cons.IH [unfolded atomize_imp, THEN mp] one [of now] by (simp add: t Some case_prod_beta)
  qed
qed simp

section \<open>Runs\<close>

datatype labor_op =
    UpsertLabor millis user_id int bool "labor_item list"
  | MarkPaid millis user_id "labor_key list"
  | SetHourlyRate user_id user_id rat

fun labor_apply :: "labor_op \<Rightarrow> appeal_db \<Rightarrow> appeal_db" where
  "labor_apply (UpsertLabor now u i waived items) db = snd (upsert_labor now u i waived items db)"
| "labor_apply (MarkPaid now u ks) db = snd (mark_paid now u ks db)"
| "labor_apply (SetHourlyRate u target r) db = snd (set_hourly_rate u target r db)"

text \<open>A form that names an assignee of an appeal at most once.\<close>

fun names_once :: "labor_key \<Rightarrow> labor_op \<Rightarrow> bool" where
  "names_once k (UpsertLabor now u i waived items) = (fst k = i \<longrightarrow> count_list (map li_assigneeUserId items) (snd k) \<le> 1)"
| "names_once k _ = True"

definition ledger_ok :: "appeal_db \<Rightarrow> bool" where
  "ledger_ok db \<longleftrightarrow> entries_ok (ab_labor db)"

definition audited :: "labor_key \<Rightarrow> appeal_db \<Rightarrow> bool" where
  "audited k db \<longleftrightarrow> logged k (ab_labor db, ab_audit db)"

lemma upsert_labor_ledger:
  assumes "ledger_ok db"
  shows "ledger_ok (snd (upsert_labor now u i waived items db)) \<and>
    (names_once k (UpsertLabor now u i waived items) \<longrightarrow> audited k db \<longrightarrow> audited k (snd (upsert_labor now u i waived items db)))"
proof -
  have tr: "entries_ok es \<and> ((fst k = i \<longrightarrow> count_list (map li_assigneeUserId items) (snd k) \<le> 1) \<longrightarrow> audited k db \<longrightarrow> logged k (es, trail))"
    if "find_appeal i db = Some a"
      "labor_transaction now u a assignees (\<lambda>v. resolveEffectiveHourlyRate r d (g v)) waived items (ab_labor db, ab_audit db) = Inr (es, trail)"
    for a assignees r d g es trail
  proof -
    have "ap_id a = i" using that(1) by (auto simp: find_appeal_def dest: find_SomeD)
    then show ?thesis using labor_transaction_sound [OF _ rates_sound_effective that(2), of k] assms by (simp add: ledger_ok_def audited_def)
  qed
  show ?thesis
    unfolding upsert_labor_def Let_def
    by (auto simp: ledger_ok_def audited_def dest: tr [unfolded audited_def] split: option.split sum.split prod.split
        intro: assms [unfolded ledger_ok_def])
qed

lemma labor_apply_ledger:
  assumes "ledger_ok db"
  shows "ledger_ok (labor_apply op db) \<and> (names_once k op \<longrightarrow> audited k db \<longrightarrow> audited k (labor_apply op db))"
proof (cases op)
  case (MarkPaid now u ks)
  show ?thesis
    using mark_items_sound [of "(ab_labor db, ab_audit db)" now _ db ks k] MarkPaid assms
    by (auto simp: mark_paid_def ledger_ok_def audited_def split: option.split prod.split) (metis fst_conv snd_conv)+
next
  case (UpsertLabor now u i waived items)
  then show ?thesis using upsert_labor_ledger [OF assms] by simp
next
  case (SetHourlyRate u target r)
  then show ?thesis using assms by (auto simp: set_hourly_rate_def ledger_ok_def audited_def split: option.split)
qed

lemma labor_run_ledger: "ledger_ok db \<Longrightarrow> ledger_ok (fold labor_apply ops db)"
  by (induction ops arbitrary: db) (auto simp: labor_apply_ledger)

lemma labor_run_audited:
  "ledger_ok db \<Longrightarrow> audited k db \<Longrightarrow> \<forall>op \<in> set ops. names_once k op \<Longrightarrow> audited k (fold labor_apply ops db)"
  by (induction ops arbitrary: db) (auto simp: labor_apply_ledger)


text \<open>
  C28: every entry of the table stays consistent: paid hours between zero and the hours worked, nothing paid
  at rate zero, the payment state that hours and rate imply, a payer and a time exactly for paid entries; and an
  appeal has at most one entry for a user.
\<close>

theorem labor_entries_sound:
  assumes "ledger_ok db" and "e \<in> set (ab_labor (fold labor_apply ops db))"
  shows "0 \<le> le_paidHours e \<and> le_paidHours e \<le> le_hours e \<and> (le_rate e = 0 \<longrightarrow> le_paidHours e = 0) \<and>
    le_paymentStatus e = (if le_rate e = 0 then NOT_REQUIRED else if le_paidHours e = 0 then UNPAID
      else if le_paidHours e = le_hours e then PAID else PARTIAL) \<and>
    (le_paymentStatus e = PAID \<longleftrightarrow> le_paidAt e \<noteq> None) \<and> (le_paymentStatus e = PAID \<longleftrightarrow> le_paidById e \<noteq> None) \<and>
    (\<forall>r \<in> set (ab_labor (fold labor_apply ops db)). labor_key r = labor_key e \<longrightarrow> r = e)"
proof -
  have inv: "entries_ok (ab_labor (fold labor_apply ops db))"
    using labor_run_ledger [OF assms(1)] by (simp add: ledger_ok_def)
  then have ok: "entry_ok e" using assms(2) by (simp add: entries_ok_def)
  then have "le_paymentStatus e = (if le_rate e = 0 then NOT_REQUIRED else if le_paidHours e = 0 then UNPAID
      else if le_paidHours e = le_hours e then PAID else PARTIAL)"
    by (auto simp: entry_ok_def derive_status)
  moreover from ok have "0 \<le> le_paidHours e" "le_paidHours e \<le> le_hours e" "le_rate e = 0 \<longrightarrow> le_paidHours e = 0"
    "le_paymentStatus e = PAID \<longleftrightarrow> le_paidAt e \<noteq> None" "le_paymentStatus e = PAID \<longleftrightarrow> le_paidById e \<noteq> None"
    unfolding entry_ok_def by blast+
  moreover have "r = e" if "r \<in> set (ab_labor (fold labor_apply ops db))" "labor_key r = labor_key e" for r
    using inv assms(2) that by (metis distinct_key_eq entries_ok_def)
  ultimately show ?thesis by blast
qed

definition sample_labor_db :: appeal_db where
  "sample_labor_db = \<lparr>ab_users = [\<lparr>um_id = 1, um_roleName = ''admin'', um_departmentRoles = [], um_employee = None\<rparr>,
       \<lparr>um_id = 2, um_roleName = ''user'', um_departmentRoles = [], um_employee = Some \<lparr>em_departmentId = Some 7, em_laborRate = Some 300\<rparr>\<rparr>],
     ab_departments = [\<lparr>dp_id = 7, dp_paymentRequired = True, dp_laborRate = 500\<rparr>],
     ab_appeals = [\<lparr>ap_id = 1, ap_number = 1, ap_fromDepartmentId = None, ap_toDepartmentId = 7, ap_createdById = 1,
       ap_status = IN_PROGRESS, ap_priority = MEDIUM, ap_deadline = None, ap_title = ''printer'', ap_laborNotRequired = False,
       ap_createdAt = 0, ap_updatedAt = 0\<rparr>],
     ab_assignees = [\<lparr>pt_appealId = 1, pt_userId = 2\<rparr>], ab_watchers = [], ab_history = [], ab_messages = [], ab_attachments = [],
     ab_reads = [], ab_labor = [], ab_audit = [], ab_nextAppeal = 2, ab_nextMessage = 1\<rparr>"

definition sample_form :: labor_item where
  "sample_form = \<lparr>li_assigneeUserId = 2, li_accruedHours = Some 2, li_paidHours = Some (1 / 2), li_hours = None, li_paymentStatus = None\<rparr>"

definition sample_ops :: "labor_op list" where
  "sample_ops = [UpsertLabor 10 1 1 False [sample_form], MarkPaid 20 1 [(1, 2)]]"

lemma sample_run: "ab_labor (fold labor_apply sample_ops sample_labor_db) =
  [\<lparr>le_appealId = 1, le_assigneeUserId = 2, le_hours = 2, le_paidHours = 2, le_rate = 300, le_paymentStatus = PAID,
    le_paidAt = Some 20, le_paidById = Some 1, le_createdById = 1, le_updatedById = 1\<rparr>]"
  by code_simp


lemma labor_entries_sound_witness:
  "le_paymentStatus (hd (ab_labor (fold labor_apply sample_ops sample_labor_db))) = PAID"
proof -
  have "ledger_ok sample_labor_db"
    by (simp add: ledger_ok_def entries_ok_def sample_labor_db_def)
  note s = labor_entries_sound [OF this, where ops = sample_ops]
  show ?thesis using s [of "hd (ab_labor (fold labor_apply sample_ops sample_labor_db))"] by (simp add: sample_run)
qed

end
