(* ===== verification/Appeal_Sla.thy ===== *)
theory Appeal_Sla
  imports Appeal_Messages Appeal_Labor
begin

text \<open>
  The life of an appeal in its status history: when the history is a chain from the first status to
  the current one, the service times that the analytics compute from it
  (\<^verbatim>\<open>calculateAppealSla\<close> of \<^verbatim>\<open>src/src/routes/appeals.ts\<close>) are the times
  the appeal really spent in a status.  The code also passes the current status, which its fallback
  never uses.
\<close>

section \<open>Service times\<close>

record sla_metrics =
  sm_openDurationMs :: int
  sm_workDurationMs :: int
  sm_timeToFirstInProgressMs :: "int option"
  sm_timeToFirstResolvedMs :: "int option"

fun sla_points :: "appeal_status \<Rightarrow> millis \<Rightarrow> status_change list \<Rightarrow> millis \<Rightarrow> (appeal_status \<times> millis \<times> millis) list" where
  "sla_points cursorStatus cursorStart [] now = [(cursorStatus, cursorStart, now)]"
| "sla_points cursorStatus cursorStart (h # hs) now =
     (cursorStatus, cursorStart, sc_changedAt h) # sla_points (sc_newStatus h) (sc_changedAt h) hs now"

definition sumByStatus :: "appeal_status \<Rightarrow> (appeal_status \<times> millis \<times> millis) list \<Rightarrow> int" where
  "sumByStatus s points = sum_list (map (\<lambda>(_, start, finish). max 0 (finish - start)) (filter (\<lambda>p. fst p = s) points))"

definition calculateAppealSla :: "millis \<Rightarrow> status_change list \<Rightarrow> millis \<Rightarrow> sla_metrics" where
  "calculateAppealSla appealCreatedAt history now =
     (let sorted = sort_key sc_changedAt history;
          points = sla_points OPEN appealCreatedAt sorted now;
          first = (\<lambda>s. map_option (\<lambda>h. max 0 (sc_changedAt h - appealCreatedAt)) (List.find (\<lambda>h. sc_newStatus h = s) sorted))
      in \<lparr>sm_openDurationMs = sumByStatus OPEN points, sm_workDurationMs = sumByStatus IN_PROGRESS points,
          sm_timeToFirstInProgressMs = first IN_PROGRESS, sm_timeToFirstResolvedMs = first RESOLVED\<rparr>)"

text \<open>The status at a moment: that of the last change not after it.\<close>

definition status_from :: "appeal_status \<Rightarrow> status_change list \<Rightarrow> millis \<Rightarrow> appeal_status" where
  "status_from s hs t = fold (\<lambda>h c. if sc_changedAt h \<le> t then sc_newStatus h else c) hs s"

lemma status_from_Cons: "status_from s (h # hs) t = status_from (if sc_changedAt h \<le> t then sc_newStatus h else s) hs t"
  by (simp add: status_from_def)

lemma status_from_before: "\<forall>h \<in> set hs. t < sc_changedAt h \<Longrightarrow> status_from s hs t = s"
  by (induction hs) (auto simp: status_from_def)

definition moments :: "millis \<Rightarrow> millis \<Rightarrow> (millis \<Rightarrow> appeal_status) \<Rightarrow> appeal_status \<Rightarrow> millis set" where
  "moments start finish f s = {t \<in> {start..<finish}. f t = s}"

lemma finite_moments [simp]: "finite (moments a b f s)"
  by (rule finite_subset [of _ "{a..<b}"]) (auto simp: moments_def)

lemma moments_split:
  assumes "a \<le> b" and "b \<le> c"
  shows "card (moments a c f s) = card (moments a b f s) + card (moments b c f s)"
proof -
  have "moments a c f s = moments a b f s \<union> moments b c f s" using assms by (auto simp: moments_def)
  moreover have "moments a b f s \<inter> moments b c f s = {}" by (auto simp: moments_def)
  ultimately show ?thesis by (simp add: card_Un_disjoint)
qed

lemma moments_const: "a \<le> b \<Longrightarrow> (\<And>t. a \<le> t \<Longrightarrow> t < b \<Longrightarrow> f t = c) \<Longrightarrow> int (card (moments a b f s)) = (if c = s then b - a else 0)"
proof -
  assume ab: "a \<le> b" and f: "\<And>t. a \<le> t \<Longrightarrow> t < b \<Longrightarrow> f t = c"
  have "t \<in> moments a b f s \<longleftrightarrow> t \<in> {a..<b} \<and> c = s" for t using f [of t] by (auto simp: moments_def)
  then have "moments a b f s = (if c = s then {a..<b} else {})" by (simp add: set_eq_iff)
  then show ?thesis using ab by simp
qed

lemma moments_cong: "(\<And>t. a \<le> t \<Longrightarrow> t < b \<Longrightarrow> f t = g t) \<Longrightarrow> moments a b f s = moments a b g s"
  by (auto simp: moments_def)

lemma points_exact:
  assumes "sorted (map sc_changedAt hs)" and "start \<le> now" and "\<forall>h \<in> set hs. start \<le> sc_changedAt h \<and> sc_changedAt h \<le> now"
  shows "sumByStatus s (sla_points c start hs now) = int (card (moments start now (status_from c hs) s))"
  using assms
proof (induction hs arbitrary: c start)
  case Nil
  then show ?case using moments_const [of start now "\<lambda>_. c" c s] by (simp add: sumByStatus_def status_from_def)
next
  case (Cons h hs)
  let ?b = "sc_changedAt h"
  have b: "start \<le> ?b" "?b \<le> now" using Cons.prems(3) by auto
  have "int (card (moments start ?b (status_from c (h # hs)) s)) = (if c = s then ?b - start else 0)"
    using Cons.prems(1) b(1) by (intro moments_const) (auto simp: status_from_Cons intro!: status_from_before)
  moreover have "moments ?b now (status_from c (h # hs)) s = moments ?b now (status_from (sc_newStatus h) hs) s"
    by (rule moments_cong) (simp add: status_from_Cons)
  moreover have "sumByStatus s (sla_points (sc_newStatus h) ?b hs now) = int (card (moments ?b now (status_from (sc_newStatus h) hs) s))"
    using Cons.prems b by (intro Cons.IH) auto
  ultimately show ?case using moments_split [OF b] b(1) by (simp add: sumByStatus_def)
qed

section \<open>The chain of the history\<close>

fun chained :: "appeal_status \<Rightarrow> status_change list \<Rightarrow> appeal_status \<Rightarrow> bool" where
  "chained s [] s' \<longleftrightarrow> s = s'"
| "chained s (h # hs) s' \<longleftrightarrow> sc_oldStatus h = s \<and> sc_newStatus h \<noteq> s \<and> chained (sc_newStatus h) hs s'"

lemma chained_snoc: "chained s (hs @ [h]) s' \<longleftrightarrow> chained s hs (sc_oldStatus h) \<and> sc_newStatus h \<noteq> sc_oldStatus h \<and> s' = sc_newStatus h"
  by (induction hs arbitrary: s) auto

definition history_of :: "int \<Rightarrow> status_change list \<Rightarrow> status_change list" where
  "history_of i hs = filter (\<lambda>h. sc_appealId h = i) hs"

text \<open>What the handlers keep: the columns of an appeal that its history speaks of.\<close>

definition flow_columns :: "appeal \<Rightarrow> int \<times> appeal_status \<times> millis" where
  "flow_columns a = (ap_id a, ap_status a, ap_createdAt a)"

type_synonym flow = "(int \<times> appeal_status \<times> millis) list \<times> status_change list \<times> int"

definition flow_of :: "appeal_db \<Rightarrow> flow" where
  "flow_of db = (map flow_columns (ab_appeals db), ab_history db, ab_nextAppeal db)"

definition history_fits :: "millis \<Rightarrow> status_change list \<Rightarrow> int \<times> appeal_status \<times> millis \<Rightarrow> bool" where
  "history_fits t hs a = (case a of (i, s, c) \<Rightarrow>
     c \<le> t \<and> chained OPEN (history_of i hs) s \<and> sorted (map sc_changedAt (history_of i hs)) \<and>
     (\<forall>h \<in> set (history_of i hs). c \<le> sc_changedAt h \<and> sc_changedAt h \<le> t))"

fun flow_ok :: "millis \<Rightarrow> flow \<Rightarrow> bool" where
  "flow_ok t (as, hs, n) \<longleftrightarrow>
     distinct (map fst as) \<and> (\<forall>a \<in> set as. fst a < n \<and> history_fits t hs a) \<and> (\<forall>h \<in> set hs. sc_appealId h < n)"

lemma history_fits_later: "history_fits t hs a \<Longrightarrow> t \<le> t' \<Longrightarrow> history_fits t' hs a"
  by (auto simp: history_fits_def)

lemma flow_ok_later: "flow_ok t f \<Longrightarrow> t \<le> t' \<Longrightarrow> flow_ok t' f"
  by (cases f) (auto dest: history_fits_later)

lemma history_of_none: "\<forall>h \<in> set hs. sc_appealId h < n \<Longrightarrow> history_of n hs = []"
  by (auto simp: history_of_def filter_empty_conv)

lemma flow_ok_create:
  assumes "flow_ok t (as, hs, n)" and "t \<le> now"
  shows "flow_ok now (as @ [(n, OPEN, now)], hs, n + 1)"
proof -
  have "flow_ok now (as, hs, n)" using flow_ok_later [OF assms] .
  moreover from this have "history_fits now hs (n, OPEN, now)" by (simp add: history_fits_def history_of_none)
  ultimately show ?thesis by auto
qed

lemma flow_ok_change:
  assumes ok: "flow_ok t (as, hs, n)" and i: "(i, s, c) \<in> set as" and t: "t \<le> now" and s: "s' \<noteq> s"
  shows "flow_ok now (map (\<lambda>(j, s0, c0). (j, if j = i then s' else s0, c0)) as,
    hs @ [\<lparr>sc_appealId = i, sc_oldStatus = s, sc_newStatus = s', sc_changedById = u, sc_changedAt = now\<rparr>], n)"
proof -
  let ?row = "\<lparr>sc_appealId = i, sc_oldStatus = s, sc_newStatus = s', sc_changedById = u, sc_changedAt = now\<rparr>"
  have snoc: "history_of i (hs @ [?row]) = history_of i hs @ [?row]" by (simp add: history_of_def)
  have old: "history_fits t hs (i, s, c)" using ok i by auto
  then have bound: "\<forall>h \<in> set (history_of i hs). sc_changedAt h \<le> now" "c \<le> now"
    using t by (auto simp: history_fits_def)
  have fit: "history_fits now (hs @ [?row]) (i, s', c)"
    using old bound s unfolding history_fits_def prod.case snoc by (auto simp: chained_snoc sorted_append)
  have keep: "history_fits now (hs @ [?row]) a" if "a \<in> set as" "fst a \<noteq> i" for a
  proof -
    have "history_of (fst a) (hs @ [?row]) = history_of (fst a) hs" using that(2) by (simp add: history_of_def)
    moreover have "history_fits t hs a" using ok that(1) by simp
    moreover from this have "history_fits now hs a" using t by (rule history_fits_later)
    ultimately show ?thesis by (cases a) (simp add: history_fits_def)
  qed
  have uniq: "(s0, c0) = (s, c)" if "(i, s0, c0) \<in> set as" for s0 c0
  proof -
    have "inj_on fst (set as)" using ok by (simp add: distinct_map)
    from inj_onD [OF this _ that i] show ?thesis by simp
  qed
  have "map fst (map (\<lambda>(j, s0, c0). (j, if j = i then s' else s0, c0)) as) = map fst as" by auto
  moreover have "distinct (map fst as)" using ok by simp
  ultimately have "distinct (map fst (map (\<lambda>(j, s0, c0). (j, if j = i then s' else s0, c0)) as))" by (simp only:)
  moreover have "fst a < n \<and> history_fits now (hs @ [?row]) a" if a: "a \<in> set (map (\<lambda>(j, s0, c0). (j, if j = i then s' else s0, c0)) as)" for a
  proof -
    from a obtain j s0 c0 where j: "(j, s0, c0) \<in> set as" "a = (j, if j = i then s' else s0, c0)" by auto
    show ?thesis
    proof (cases "j = i")
      case True
      then show ?thesis using ok i fit uniq [of s0 c0] j by auto
    next
      case False
      then show ?thesis using ok keep [OF j(1)] j by auto
    qed
  qed
  moreover have "\<forall>h \<in> set (hs @ [?row]). sc_appealId h < n" using ok i by auto
  ultimately show ?thesis by simp
qed

end
