(* ===== verification/Appeal_Runs.thy ===== *)
theory Appeal_Runs
  imports Appeal_Sla
begin

text \<open>
  The requests of the appeals service as steps, each at its time, and what a step can do to the
  appeals and their status history: nothing, open a new appeal, or change one status and record it.
  Everything that holds of runs is proved of these three moves.
\<close>

section \<open>Requests\<close>

datatype appeal_request =
    CreateAppeal user_id create_body "upload list"
  | AssignAppeal user_id int "user_id list"
  | ClaimAppeal user_id int
  | MoveDepartment user_id int int
  | UpdateStatus user_id int appeal_status
  | UpdateDeadline user_id int "string option"
  | UpdateWatchers user_id int "user_id list"
  | PostMessage user_id int "string option" "upload list"
  | EditMessage user_id int string
  | DeleteMessage user_id int
  | ReadBulk user_id int "int list"
  | ReadMessage user_id int int
  | UpsertForm user_id int bool "labor_item list"
  | MarkPaidKeys user_id "labor_key list"
  | SetRate user_id user_id rat

fun appeal_step :: "(string \<Rightarrow> millis option) \<Rightarrow> millis \<Rightarrow> appeal_request \<Rightarrow> appeal_db \<Rightarrow> appeal_db" where
  "appeal_step host_date now (CreateAppeal u body files) db = snd (create_appeal host_date now u body files db)"
| "appeal_step host_date now (AssignAppeal u i us) db = snd (assign_appeal now u i us db)"
| "appeal_step host_date now (ClaimAppeal u i) db = snd (claim_appeal now u i db)"
| "appeal_step host_date now (MoveDepartment u i d) db = snd (move_department now u i d db)"
| "appeal_step host_date now (UpdateStatus u i s) db = snd (update_status now u i s db)"
| "appeal_step host_date now (UpdateDeadline u i t) db = snd (update_deadline host_date now u i t db)"
| "appeal_step host_date now (UpdateWatchers u i us) db = snd (update_watchers i us db)"
| "appeal_step host_date now (PostMessage u i t files) db = snd (post_message now u i t files db)"
| "appeal_step host_date now (EditMessage u k t) db = snd (edit_message now u k t db)"
| "appeal_step host_date now (DeleteMessage u k) db = snd (delete_message u k db)"
| "appeal_step host_date now (ReadBulk u i ks) db = snd (read_bulk now u i ks db)"
| "appeal_step host_date now (ReadMessage u i k) db = snd (read_message now u i k db)"
| "appeal_step host_date now (UpsertForm u i waived items) db = snd (upsert_labor now u i waived items db)"
| "appeal_step host_date now (MarkPaidKeys u ks) db = snd (mark_paid now u ks db)"
| "appeal_step host_date now (SetRate u target r) db = snd (set_hourly_rate u target r db)"

definition appeal_run :: "(string \<Rightarrow> millis option) \<Rightarrow> (millis \<times> appeal_request) list \<Rightarrow> appeal_db \<Rightarrow> appeal_db" where
  "appeal_run host_date steps db = fold (\<lambda>(now, r). appeal_step host_date now r) steps db"

lemma appeal_run_simps [simp]:
  "appeal_run host_date [] db = db"
  "appeal_run host_date ((now, r) # steps) db = appeal_run host_date steps (appeal_step host_date now r db)"
  "appeal_run host_date (xs @ ys) db = appeal_run host_date ys (appeal_run host_date xs db)"
  by (simp_all add: appeal_run_def)

text \<open>Who may change a status to which: the four ways of the handlers.\<close>

definition entitled :: "appeal_request \<Rightarrow> user_id \<Rightarrow> appeal \<Rightarrow> appeal_status \<Rightarrow> appeal_db \<Rightarrow> bool" where
  "entitled r u a s db \<longleftrightarrow>
     (\<exists>actor. loadUserMini u db = Some actor \<and> (isAdminRole actor \<or> isDepartmentManager actor (ap_toDepartmentId a))) \<or>
     r = UpdateStatus u (ap_id a) s \<and> ap_createdById a = u \<and> (s = COMPLETED \<or> ap_status a = RESOLVED \<and> s = IN_PROGRESS) \<or>
     r = UpdateStatus u (ap_id a) s \<and> u \<in> set (members_of (ap_id a) (ab_assignees db)) \<and> s = RESOLVED \<or>
     r = ClaimAppeal u (ap_id a) \<and> profile_department u db = Some (ap_toDepartmentId a) \<and> s = IN_PROGRESS"

fun requester :: "appeal_request \<Rightarrow> user_id" where
  "requester (CreateAppeal u _ _) = u" | "requester (AssignAppeal u _ _) = u" | "requester (ClaimAppeal u _) = u"
| "requester (MoveDepartment u _ _) = u" | "requester (UpdateStatus u _ _) = u" | "requester (UpdateDeadline u _ _) = u"
| "requester (UpdateWatchers u _ _) = u" | "requester (PostMessage u _ _ _) = u" | "requester (EditMessage u _ _) = u"
| "requester (DeleteMessage u _) = u" | "requester (ReadBulk u _ _) = u" | "requester (ReadMessage u _ _) = u"
| "requester (UpsertForm u _ _ _) = u" | "requester (MarkPaidKeys u _) = u" | "requester (SetRate u _ _) = u"

section \<open>The moves\<close>

fun opened :: "millis \<Rightarrow> flow \<Rightarrow> flow" where
  "opened now (as, hs, n) = (as @ [(n, OPEN, now)], hs, n + 1)"

fun changed :: "millis \<Rightarrow> user_id \<Rightarrow> int \<Rightarrow> appeal_status \<Rightarrow> appeal_status \<Rightarrow> flow \<Rightarrow> flow" where
  "changed now u i s s' (as, hs, n) =
     (map (\<lambda>(j, s0, c0). (j, if j = i then s' else s0, c0)) as,
      hs @ [\<lparr>sc_appealId = i, sc_oldStatus = s, sc_newStatus = s', sc_changedById = u, sc_changedAt = now\<rparr>], n)"

inductive moves :: "millis \<Rightarrow> appeal_request \<Rightarrow> appeal_db \<Rightarrow> flow \<Rightarrow> bool" where
  Kept: "moves now r db (flow_of db)"
| Opened: "moves now (CreateAppeal u body files) db (opened now (flow_of db))"
| Changed: "find_appeal i db = Some a \<Longrightarrow> s \<noteq> ap_status a \<Longrightarrow> entitled r (requester r) a s db \<Longrightarrow>
    moves now r db (changed now (requester r) i (ap_status a) s (flow_of db))"

lemma find_appeal_id: "find_appeal i db = Some a \<Longrightarrow> ap_id a = i \<and> a \<in> set (ab_appeals db)"
  using find_SomeD unfolding find_appeal_def by fast

lemma write_keeps_flow: "(\<And>r. flow_columns (f r) = flow_columns r) \<Longrightarrow> flow_of (write_appeal now i f db) = flow_of db"
  by (auto simp: flow_of_def write_appeal_def update_where_def flow_columns_def)

lemma flow_of_writes [simp]:
  "flow_of (write_appeal now i (\<lambda>r. r) db) = flow_of db"
  "flow_of (write_appeal now i (\<lambda>r. r\<lparr>ap_toDepartmentId := d\<rparr>) db) = flow_of db"
  "flow_of (write_appeal now i (\<lambda>r. r\<lparr>ap_deadline := t\<rparr>) db) = flow_of db"
  "flow_of (write_appeal now i (\<lambda>r. r\<lparr>ap_laborNotRequired := b\<rparr>) db) = flow_of db"
  by (rule write_keeps_flow, simp add: flow_columns_def)+

lemma flow_of_others [simp]:
  "flow_of (add_message now i u t ty e db) = flow_of db"
  "flow_of (createSystemMessage now i u ev db) = flow_of db"
  "flow_of (replace_assignees i us db) = flow_of db"
  "flow_of (mark_read now u ks db) = flow_of db"
  "flow_of (write_message k g db) = flow_of db"
  "flow_of (db\<lparr>ab_assignees := ps\<rparr>) = flow_of db"
  "flow_of (db\<lparr>ab_watchers := ps\<rparr>) = flow_of db"
  "flow_of (db\<lparr>ab_attachments := ats\<rparr>) = flow_of db"
  "flow_of (db\<lparr>ab_users := us'\<rparr>) = flow_of db"
  "flow_of (db\<lparr>ab_labor := es, ab_audit := trail\<rparr>) = flow_of db"
  by (simp_all add: flow_of_def add_message_def createSystemMessage_def replace_assignees_def mark_read_def write_message_def)

lemma flow_of_apply_if [simp]: "(\<And>d. flow_of (f d) = flow_of d) \<Longrightarrow> flow_of (apply_if c f db) = flow_of db"
  by (simp add: apply_if_def)

lemma flow_of_change_status:
  "flow_of (change_status now u a s db) =
    (if s = ap_status a then flow_of db else changed now u (ap_id a) (ap_status a) s (flow_of db))"
  by (auto simp: change_status_def flow_of_def write_appeal_def update_where_def flow_columns_def)

lemma change_moves:
  assumes "find_appeal i db = Some a" and "s \<noteq> ap_status a \<Longrightarrow> entitled r (requester r) a s db" and "flow_of d = flow_of db"
  shows "moves now r db (flow_of (change_status now (requester r) a s d))"
  using assms find_appeal_id [of i db a] moves.Kept [of now r db] moves.Changed [of i db a s r now]
  by (simp add: flow_of_change_status)

section \<open>Every handler is a move\<close>

lemma create_moves: "moves now (CreateAppeal u body files) db (flow_of (snd (create_appeal host_date now u body files db)))"
proof (cases "snd (create_appeal host_date now u body files db) = db")
  case True
  then show ?thesis by (simp add: moves.Kept)
next
  case False
  then have "flow_of (snd (create_appeal host_date now u body files db)) = opened now (flow_of db)"
    by (auto simp: create_appeal_def Let_def flow_of_def add_message_def flow_columns_def split: option.splits if_splits)
  then show ?thesis by (simp add: moves.Opened)
qed

lemma assign_moves: "moves now (AssignAppeal u i us) db (flow_of (snd (assign_appeal now u i us db)))"
  using change_moves [of i db _ _ "AssignAppeal u i us"]
  by (auto simp: assign_appeal_def Let_def entitled_def moves.Kept split: option.split)

lemma claim_moves: "moves now (ClaimAppeal u i) db (flow_of (snd (claim_appeal now u i db)))"
  using change_moves [of i db _ _ "ClaimAppeal u i"] find_appeal_id
  by (auto simp: claim_appeal_def Let_def entitled_def moves.Kept split: option.split)

lemma department_moves: "moves now (MoveDepartment u i d) db (flow_of (snd (move_department now u i d db)))"
  using change_moves [of i db _ _ "MoveDepartment u i d"]
  by (auto simp: move_department_def Let_def entitled_def moves.Kept split: option.split)

lemma loadUserMini_id: "loadUserMini u db = Some actor \<Longrightarrow> um_id actor = u"
  using find_SomeD unfolding loadUserMini_def by fast

lemma status_moves: "moves now (UpdateStatus u i s) db (flow_of (snd (update_status now u i s db)))"
proof (cases "snd (update_status now u i s db) = db")
  case True
  then show ?thesis by (simp add: moves.Kept)
next
  case False
  then obtain a actor where a: "find_appeal i db = Some a" "loadUserMini u db = Some actor" "status_allowed actor a s db"
      "snd (update_status now u i s db) = createSystemMessage now i u (StatusChanged (ap_status a) s) (change_status now u a s db)"
    by (auto simp: update_status_def split: option.splits if_splits)
  have "entitled (UpdateStatus u i s) u a s db"
    using a(1-3) loadUserMini_id find_appeal_id unfolding entitled_def status_allowed_def by (fastforce split: if_splits)
  then show ?thesis using change_moves [of i db a s "UpdateStatus u i s"] a(1,4) by simp
qed

lemma write_watchers_flow: "flow_of (snd (write_watchers i us db)) = flow_of db"
  by (induction i us db rule: write_watchers.induct) simp_all

lemmas quiet_handlers = update_deadline_def update_watchers_def post_message_def edit_message_def delete_message_def
  read_bulk_def read_message_def upsert_labor_def mark_paid_def set_hourly_rate_def

lemma appeal_step_moves: "moves now r db (flow_of (appeal_step host_date now r db))"
proof (cases r)
  case (UpdateWatchers u i us)
  show ?thesis
    using UpdateWatchers write_watchers_flow [of i us "db\<lparr>ab_watchers := filter (\<lambda>p. pt_appealId p \<noteq> i) (ab_watchers db)\<rparr>"]
    by (auto simp: update_watchers_def moves.Kept split: option.split prod.split)
next
  case (UpsertForm u i waived items)
  have "flow_of (snd (upsert_labor now u i waived items db)) = flow_of db"
    by (auto simp: upsert_labor_def Let_def split: option.split sum.split prod.split)
  then show ?thesis using UpsertForm by (simp add: moves.Kept)
next
  case (MarkPaidKeys u ks)
  have "flow_of (snd (mark_paid now u ks db)) = flow_of db"
    by (auto simp: mark_paid_def split: option.split prod.split)
  then show ?thesis using MarkPaidKeys by (simp add: moves.Kept)
qed (auto simp: create_moves assign_moves claim_moves department_moves status_moves quiet_handlers Let_def moves.Kept
     split: option.split list.split)

section \<open>Invariants of runs\<close>

lemma moves_ok:
  assumes "moves now r db f" and "flow_ok t (flow_of db)" and "t \<le> now"
  shows "flow_ok now f"
  using assms
proof cases
  case Kept
  then show ?thesis using assms flow_ok_later by simp
next
  case (Opened u body files)
  obtain as hs n where "flow_of db = (as, hs, n)" by (cases "flow_of db")
  then show ?thesis using Opened assms(2,3) flow_ok_create [of t as hs n now] by simp
next
  case (Changed i a s)
  obtain as hs n where f: "flow_of db = (as, hs, n)" by (cases "flow_of db")
  moreover from this Changed(2) have "(i, ap_status a, ap_createdAt a) \<in> set as"
    using find_appeal_id by (fastforce simp: flow_of_def flow_columns_def)
  ultimately show ?thesis using Changed assms(2,3) flow_ok_change [of t as hs n i "ap_status a" "ap_createdAt a" now s] by simp
qed

text \<open>The identities and times of appeals, and the history, only grow, and what is new carries the time of the step.\<close>

definition births :: "flow \<Rightarrow> (int \<times> millis) list" where
  "births f = map (\<lambda>(i, s, c). (i, c)) (fst f)"

definition grows :: "millis set \<Rightarrow> flow \<Rightarrow> flow \<Rightarrow> bool" where
  "grows T f f' \<longleftrightarrow>
     (\<exists>new rows. births f' = births f @ new \<and> fst (snd f') = fst (snd f) @ rows \<and>
        snd ` set new \<subseteq> T \<and> sc_changedAt ` set rows \<subseteq> T)"

lemma growsI:
  "births f' = births f @ new \<Longrightarrow> fst (snd f') = fst (snd f) @ rows \<Longrightarrow> snd ` set new \<subseteq> T \<Longrightarrow> sc_changedAt ` set rows \<subseteq> T
    \<Longrightarrow> grows T f f'"
  unfolding grows_def by blast

lemma growsE:
  assumes "grows T f f'"
  obtains new rows where "births f' = births f @ new" "fst (snd f') = fst (snd f) @ rows" "snd ` set new \<subseteq> T"
    "sc_changedAt ` set rows \<subseteq> T"
  using assms unfolding grows_def by blast

lemma grows_refl [simp]: "grows T f f"
  by (rule growsI [of _ _ "[]" "[]"]) simp_all

lemma grows_trans: assumes "grows T f g" and "grows T g h" shows "grows T f h"
proof -
  from assms(1) obtain new rows where a: "births g = births f @ new" "fst (snd g) = fst (snd f) @ rows"
    "snd ` set new \<subseteq> T" "sc_changedAt ` set rows \<subseteq> T" by (rule growsE)
  from assms(2) obtain new' rows' where b: "births h = births g @ new'" "fst (snd h) = fst (snd g) @ rows'"
    "snd ` set new' \<subseteq> T" "sc_changedAt ` set rows' \<subseteq> T" by (rule growsE)
  show ?thesis by (rule growsI [of _ _ "new @ new'" "rows @ rows'"]) (use a b in auto)
qed

lemma grows_mono: "grows T f g \<Longrightarrow> T \<subseteq> U \<Longrightarrow> grows U f g"
  by (erule growsE) (rule growsI, auto)

lemma moves_grow: "moves now r db f \<Longrightarrow> grows {now} (flow_of db) f"
proof (induction rule: moves.induct)
  case (Opened now u body files db)
  obtain as hs n where f: "flow_of db = (as, hs, n)" by (cases "flow_of db")
  show ?case unfolding f by (rule growsI [of _ _ "[(n, now)]" "[]"]) (simp_all add: births_def)
next
  case (Changed i db a s r now)
  obtain as hs n where f: "flow_of db = (as, hs, n)" by (cases "flow_of db")
  show ?case unfolding f changed.simps by (rule growsI [where new = "[]"]) (auto simp: births_def)
qed simp

lemma run_grows: "fst ` set steps \<subseteq> T \<Longrightarrow> grows T (flow_of db) (flow_of (appeal_run host_date steps db))"
proof (induction steps arbitrary: db)
  case (Cons s steps)
  obtain now r where s: "s = (now, r)" by (cases s)
  have "grows T (flow_of db) (flow_of (appeal_step host_date now r db))"
    using Cons.prems s by (intro grows_mono [OF moves_grow [OF appeal_step_moves]]) simp
  then show ?case using Cons s grows_trans by fastforce
qed simp

lemma run_ok:
  assumes "flow_ok t (flow_of db)" and "sorted (t # map fst steps)"
  shows "flow_ok (last (t # map fst steps)) (flow_of (appeal_run host_date steps db))"
  using assms
proof (induction steps arbitrary: t db)
  case (Cons s steps)
  obtain now r where s: "s = (now, r)" by (cases s)
  have "flow_ok now (flow_of (appeal_step host_date now r db))"
    using moves_ok [OF appeal_step_moves] Cons.prems s by simp
  then show ?case using Cons s by simp
qed simp

end
