(* ===== verification/Appeal_History.thy ===== *)
theory Appeal_History
  imports Appeal_Runs
begin

text \<open>
  What holds of an appeal in every run of the service: its status history is a chain, the service
  times computed from it are the times it really spent in a status, and who can change its status.
\<close>

section \<open>Runs from an empty service\<close>

lemma fresh_run_ok:
  assumes "ab_appeals db = []" and "ab_history db = []" and "sorted (map fst steps)" and "\<forall>s \<in> set steps. fst s \<le> now"
  shows "flow_ok now (flow_of (appeal_run host_date steps db))"
proof (cases steps)
  case Nil
  then show ?thesis using assms by (simp add: flow_of_def)
next
  case (Cons s rest)
  have "flow_ok (fst s) (flow_of db)" using assms by (simp add: flow_of_def)
  then have "flow_ok (last (fst s # map fst steps)) (flow_of (appeal_run host_date steps db))"
    using Cons assms(3) by (intro run_ok) auto
  moreover have "last (fst s # map fst steps) \<le> now" using Cons assms(4) by (auto simp: last_map)
  ultimately show ?thesis by (rule flow_ok_later)
qed

lemma flow_member: "a \<in> set (ab_appeals db) \<Longrightarrow> (ap_id a, ap_status a, ap_createdAt a) \<in> set (fst (flow_of db))"
  by (force simp: flow_of_def flow_columns_def)

lemma flow_fits:
  assumes "flow_ok t (flow_of db)" and "a \<in> set (ab_appeals db)"
  shows "history_fits t (ab_history db) (ap_id a, ap_status a, ap_createdAt a)"
  using assms flow_member [OF assms(2)] by (auto simp: flow_of_def)

text \<open>
  C3: in every run, whatever is requested by whom, the status history of an appeal leads from OPEN step by step
  to its current status, each row starting where the one before it ended and changing the status, in order of
  time, and never before the appeal was created.
\<close>

theorem history_chains:
  assumes "ab_appeals db = []" and "ab_history db = []" and "sorted (map fst steps)"
    and "a \<in> set (ab_appeals (appeal_run host_date steps db))"
  shows "chained OPEN (history_of (ap_id a) (ab_history (appeal_run host_date steps db))) (ap_status a) \<and>
    sorted (ap_createdAt a # map sc_changedAt (history_of (ap_id a) (ab_history (appeal_run host_date steps db))))"
proof -
  obtain now where "\<forall>s \<in> set steps. fst s \<le> now" by (meson List.finite_set finite_imageI finite_less_ub image_eqI Max_ge)
  from flow_fits [OF fresh_run_ok [OF assms(1-3) this] assms(4)] show ?thesis by (simp add: history_fits_def)
qed

section \<open>Service times\<close>

text \<open>The status an appeal had at a moment: after the requests up to then.\<close>

definition held :: "(string \<Rightarrow> millis option) \<Rightarrow> (millis \<times> appeal_request) list \<Rightarrow> appeal_db \<Rightarrow> int \<Rightarrow> millis \<Rightarrow> appeal_status option" where
  "held host_date steps db i t =
     map_option ap_status (find_appeal i (appeal_run host_date (filter (\<lambda>s. fst s \<le> t) steps) db))"

lemma sorted_split: "sorted (map f xs) \<Longrightarrow> xs = filter (\<lambda>x. f x \<le> t) xs @ filter (\<lambda>x. \<not> f x \<le> t) xs"
proof (induction xs)
  case (Cons x xs)
  show ?case
  proof (cases "f x \<le> t")
    case False
    then have "filter (\<lambda>y. f y \<le> t) xs = []" using Cons.prems by (auto simp: filter_empty_conv)
    moreover from this Cons have "filter (\<lambda>y. \<not> f y \<le> t) xs = xs" by simp
    ultimately show ?thesis using False by simp
  qed (use Cons in simp)
qed simp

lemma status_from_append: "status_from s (hs @ hs') t = status_from (status_from s hs t) hs' t"
  by (simp add: status_from_def)

lemma status_from_chained: "chained s hs s' \<Longrightarrow> \<forall>h \<in> set hs. sc_changedAt h \<le> t \<Longrightarrow> status_from s hs t = s'"
  by (induction hs arbitrary: s) (simp_all add: status_from_Cons, simp add: status_from_def)

lemma find_appeal_exists: "a \<in> set (ab_appeals db) \<Longrightarrow> \<exists>a'. find_appeal (ap_id a) db = Some a'"
  by (cases "find_appeal (ap_id a) db") (auto simp: find_appeal_def find_None_iff)

lemma held_history:
  assumes "ab_appeals db = []" and "ab_history db = []" and "sorted (map fst steps)"
    and "find_appeal i (appeal_run host_date steps db) = Some a" and "ap_createdAt a \<le> t"
  shows "held host_date steps db i t = Some (status_from OPEN (history_of i (ab_history (appeal_run host_date steps db))) t)"
proof -
  let ?pre = "filter (\<lambda>s. fst s \<le> t) steps" and ?post = "filter (\<lambda>s. \<not> fst s \<le> t) steps"
  let ?P = "appeal_run host_date ?pre db" and ?F = "appeal_run host_date steps db"
  have "sorted (map fst ?pre)" using assms(3) by (rule sorted_filter)
  with assms have ok: "flow_ok t (flow_of ?P)" by (intro fresh_run_ok) auto
  have F: "?F = appeal_run host_date ?post ?P" by (subst sorted_split [OF assms(3), of t]) simp
  have "grows {x. t < x} (flow_of ?P) (flow_of ?F)" unfolding F by (rule run_grows) auto
  then obtain new rows where g: "births (flow_of ?F) = births (flow_of ?P) @ new" "ab_history ?F = ab_history ?P @ rows"
    "snd ` set new \<subseteq> {x. t < x}" "sc_changedAt ` set rows \<subseteq> {x. t < x}"
    by (rule growsE) (simp add: flow_of_def)
  have "(i, ap_createdAt a) \<in> set (births (flow_of ?F))"
    using flow_member [of a ?F] find_appeal_id [OF assms(4)] by (force simp: births_def)
  then have "(i, ap_createdAt a) \<in> set (births (flow_of ?P))" using g(1,3) assms(5) by force
  then obtain a0 where "a0 \<in> set (ab_appeals ?P)" "ap_id a0 = i" by (auto simp: births_def flow_of_def flow_columns_def)
  with find_appeal_exists obtain b where b: "find_appeal i ?P = Some b" by metis
  then have fits: "history_fits t (ab_history ?P) (i, ap_status b, ap_createdAt b)"
    using flow_fits [OF ok, of b] find_appeal_id by metis
  have "status_from OPEN (history_of i (ab_history ?P)) t = ap_status b"
    using fits by (intro status_from_chained) (auto simp: history_fits_def)
  moreover have "\<forall>h \<in> set (history_of i rows). t < sc_changedAt h" using g(4) by (auto simp: history_of_def)
  ultimately have "status_from OPEN (history_of i (ab_history ?F)) t = ap_status b"
    by (simp add: g(2) history_of_def status_from_append status_from_before)
  then show ?thesis by (simp add: held_def b)
qed

text \<open>
  C17: the times that the analytics report for an appeal are exact: the open time is the number of milliseconds since
  its creation at which its status was OPEN, the working time the number at which it was IN_PROGRESS.
\<close>

theorem sla_exact:
  assumes "ab_appeals db = []" and "ab_history db = []" and "sorted (map fst steps)" and "\<forall>s \<in> set steps. fst s \<le> now"
    and "find_appeal i (appeal_run host_date steps db) = Some a"
  shows "sm_openDurationMs (calculateAppealSla (ap_createdAt a) (history_of i (ab_history (appeal_run host_date steps db))) now) =
      int (card {t \<in> {ap_createdAt a..<now}. held host_date steps db i t = Some OPEN}) \<and>
    sm_workDurationMs (calculateAppealSla (ap_createdAt a) (history_of i (ab_history (appeal_run host_date steps db))) now) =
      int (card {t \<in> {ap_createdAt a..<now}. held host_date steps db i t = Some IN_PROGRESS})"
proof -
  let ?hs = "history_of i (ab_history (appeal_run host_date steps db))"
  have a: "ap_id a = i" "a \<in> set (ab_appeals (appeal_run host_date steps db))" using find_appeal_id [OF assms(5)] by auto
  from flow_fits [OF fresh_run_ok [OF assms(1-4)] a(2)]
  have fits: "history_fits now (ab_history (appeal_run host_date steps db)) (i, ap_status a, ap_createdAt a)" by (simp add: a(1))
  then have sorted: "sort_key sc_changedAt ?hs = ?hs" by (simp add: history_fits_def sort_key_id_if_sorted)
  have "sumByStatus s (sla_points OPEN (ap_createdAt a) ?hs now) = int (card (moments (ap_createdAt a) now (status_from OPEN ?hs) s))" for s
    using fits by (intro points_exact) (auto simp: history_fits_def)
  moreover have "moments (ap_createdAt a) now (status_from OPEN ?hs) s =
      {t \<in> {ap_createdAt a..<now}. held host_date steps db i t = Some s}" for s
    using held_history [OF assms(1-3,5)] by (auto simp: moments_def)
  ultimately show ?thesis
    by (simp add: calculateAppealSla_def Let_def sorted)
qed

section \<open>Who changes a status\<close>

definition status_in :: "int \<Rightarrow> flow \<Rightarrow> appeal_status option" where
  "status_in i f = map_option (\<lambda>(_, s, _). s) (List.find (\<lambda>x. fst x = i) (fst f))"

lemma status_of_found: "status_in i (flow_of db) = map_option ap_status (find_appeal i db)"
  by (simp add: status_in_def flow_of_def find_map find_appeal_def flow_columns_def option.map_comp comp_def)

lemma status_in_opened: "status_in i f = Some s \<Longrightarrow> status_in i (opened now f) = Some s"
  by (cases f) (auto simp: status_in_def dest: find_append_Some)

lemma status_in_changed:
  "status_in i (changed now u j s s' f) = map_option (\<lambda>s0. if i = j then s' else s0) (status_in i f)"
proof -
  obtain as hs n where f: "f = (as, hs, n)" by (cases f)
  have "List.find (\<lambda>x. fst x = i) (map (\<lambda>(k, s0, c0). (k, if k = j then s' else s0, c0)) as) =
      map_option (\<lambda>(k, s0, c0). (k, if k = j then s' else s0, c0)) (List.find (\<lambda>x. fst x = i) as)"
    by (induction as) auto
  moreover have "fst x = i" if "List.find (\<lambda>x. fst x = i) as = Some x" for x using that find_SomeD by fast
  ultimately show ?thesis by (cases "List.find (\<lambda>x. fst x = i) as") (auto simp: status_in_def f)
qed

text \<open>
  C12: a request changes the status of an appeal only if its user is entitled to it: an administrator or a manager of
  the department; the creator who completes it or sends a resolved one back to work; an assignee who resolves it; or
  an employee of the department who claims it.  Exactly one row of history tells who did it, when, from which
  status to which.
\<close>

theorem status_change_authorised:
  assumes "find_appeal i db = Some a" and "find_appeal i (appeal_step host_date now r db) = Some a'" and "ap_status a' \<noteq> ap_status a"
  shows "entitled r (requester r) a (ap_status a') db \<and>
    ab_history (appeal_step host_date now r db) = ab_history db @
      [\<lparr>sc_appealId = i, sc_oldStatus = ap_status a, sc_newStatus = ap_status a', sc_changedById = requester r, sc_changedAt = now\<rparr>]"
proof -
  have before: "status_in i (flow_of db) = Some (ap_status a)"
    and after: "status_in i (flow_of (appeal_step host_date now r db)) = Some (ap_status a')"
    using assms(1,2) by (simp_all add: status_of_found)
  have history: "fst (snd (flow_of d)) = ab_history d" for d by (simp add: flow_of_def)
  from appeal_step_moves [of now r db host_date] show ?thesis
  proof cases
    case Kept
    then show ?thesis using before after assms(3) by simp
  next
    case (Opened u body files)
    then show ?thesis using before after assms(3) status_in_opened by (metis option.inject)
  next
    case (Changed j b s)
    then have ij: "i = j" "s = ap_status a'" using before after assms(3) by (auto simp: status_in_changed split: if_splits)
    then have b: "b = a" using Changed assms(1) by simp
    have "fst (snd (changed now u k s0 s1 f)) = fst (snd f) @
      [\<lparr>sc_appealId = k, sc_oldStatus = s0, sc_newStatus = s1, sc_changedById = u, sc_changedAt = now\<rparr>]" for u k s0 s1 f
      by (cases f) simp
    from this [of "requester r" j "ap_status b" s "flow_of db"] show ?thesis using Changed ij b history by metis
  qed
qed

text \<open>
  An employee of the department whom the status request refuses any change of a completed or declined appeal
  reopens it by claiming it.
\<close>

theorem claim_reopens:
  assumes "find_appeal i db = Some a" and "loadUserMini u db = Some actor" and "ap_status a \<in> {COMPLETED, DECLINED}"
    and "profile_department u db = Some (ap_toDepartmentId a)" and "ap_createdById a \<noteq> u"
    and "\<not> isAdminRole actor" and "\<not> isDepartmentManager actor (ap_toDepartmentId a)"
    and "u \<notin> set (members_of i (ab_assignees db))" and "0 < i"
  shows "update_status now u i s db = (Inl FORBIDDEN, db) \<and>
    fst (claim_appeal now u i db) = Inr (members_of i (ab_assignees db) @ [u]) \<and>
    map_option ap_status (find_appeal i (snd (claim_appeal now u i db))) = Some IN_PROGRESS"
proof (intro conjI)
  have ids: "um_id actor = u" "ap_id a = i" using assms(1,2) loadUserMini_id find_appeal_id by auto
  then have "\<not> status_allowed actor a s db" using assms by (simp add: status_allowed_def)
  then show "update_status now u i s db = (Inl FORBIDDEN, db)" using assms by (simp add: update_status_def valid_id_def)
  show "fst (claim_appeal now u i db) = Inr (members_of i (ab_assignees db) @ [u])"
    using assms by (simp add: claim_appeal_def valid_id_def Let_def)
  have ne: "IN_PROGRESS \<noteq> ap_status a" using assms(3) by auto
  have "flow_of (snd (claim_appeal now u i db)) = changed now u i (ap_status a) IN_PROGRESS (flow_of db)"
    using assms ids ne by (simp add: claim_appeal_def valid_id_def Let_def flow_of_change_status)
  then have "status_in i (flow_of (snd (claim_appeal now u i db))) = Some IN_PROGRESS"
    using assms(1) by (simp add: status_in_changed status_of_found)
  then show "map_option ap_status (find_appeal i (snd (claim_appeal now u i db))) = Some IN_PROGRESS"
    by (simp only: status_of_found)
qed

section \<open>A run\<close>

definition sample_staff :: "user_mini list" where
  "sample_staff =
     [\<lparr>um_id = 1, um_roleName = ''user'', um_departmentRoles = [], um_employee = Some \<lparr>em_departmentId = Some 5, em_laborRate = None\<rparr>\<rparr>,
      \<lparr>um_id = 2, um_roleName = ''user'', um_departmentRoles = [], um_employee = Some \<lparr>em_departmentId = Some 7, em_laborRate = None\<rparr>\<rparr>]"

definition sample_desk :: appeal_db where
  "sample_desk = \<lparr>ab_users = sample_staff, ab_departments = [\<lparr>dp_id = 7, dp_paymentRequired = False, dp_laborRate = 0\<rparr>],
     ab_appeals = [], ab_assignees = [], ab_watchers = [], ab_history = [], ab_messages = [], ab_attachments = [],
     ab_reads = [], ab_labor = [], ab_audit = [], ab_nextAppeal = 1, ab_nextMessage = 1\<rparr>"

text \<open>Created by user 1, claimed by user 2 of the department, resolved, completed by its creator.\<close>

definition sample_steps :: "(millis \<times> appeal_request) list" where
  "sample_steps =
     [(10, CreateAppeal 1 \<lparr>cb_toDepartmentId = 7, cb_title = None, cb_text = ''no light'', cb_priority = None, cb_deadline = None\<rparr> []),
      (15, ClaimAppeal 2 1), (35, UpdateStatus 2 1 RESOLVED), (38, UpdateStatus 1 1 COMPLETED)]"

definition sample_end :: appeal_db where
  "sample_end = appeal_run (\<lambda>_. None) sample_steps sample_desk"

lemma sample_steps_sorted: "sorted (map fst sample_steps)" "\<forall>s \<in> set sample_steps. fst s \<le> 50"
  by (simp_all add: sample_steps_def)

lemma sample_found: "map_option (\<lambda>a. (ap_status a, ap_createdAt a)) (find_appeal 1 sample_end) = Some (COMPLETED, 10)"
  unfolding sample_end_def by code_simp

lemma sample_sla:
  "sm_openDurationMs (calculateAppealSla 10 (history_of 1 (ab_history sample_end)) 50) = 5 \<and>
   sm_workDurationMs (calculateAppealSla 10 (history_of 1 (ab_history sample_end)) 50) = 20"
  unfolding sample_end_def by code_simp

lemma history_chains_witness:
  "chained OPEN (history_of 1 (ab_history sample_end)) COMPLETED"
proof -
  obtain a where a: "find_appeal 1 sample_end = Some a" "ap_status a = COMPLETED" using sample_found by auto
  from history_chains [of sample_desk sample_steps a "\<lambda>_. None"] show ?thesis
    using a find_appeal_id [OF a(1)] sample_steps_sorted by (simp add: sample_end_def sample_desk_def)
qed

lemma sla_exact_witness:
  "card {t \<in> {10..<50}. held (\<lambda>_. None) sample_steps sample_desk 1 t = Some OPEN} = 5 \<and>
   card {t \<in> {10..<50}. held (\<lambda>_. None) sample_steps sample_desk 1 t = Some IN_PROGRESS} = 20"
proof -
  obtain a where a: "find_appeal 1 sample_end = Some a" "ap_createdAt a = 10" using sample_found by auto
  from sla_exact [of sample_desk sample_steps 50 1 "\<lambda>_. None" a] show ?thesis
    using a sample_steps_sorted sample_sla by (simp add: sample_end_def [symmetric]) (simp add: sample_desk_def)
qed

lemma status_change_authorised_witness:
  "profile_department 2 (appeal_run (\<lambda>_. None) (take 1 sample_steps) sample_desk) = Some 7 \<and>
   length (ab_history (appeal_run (\<lambda>_. None) (take 2 sample_steps) sample_desk)) = 1"
proof -
  let ?db = "appeal_run (\<lambda>_. None) (take 1 sample_steps) sample_desk"
  let ?db' = "appeal_step (\<lambda>_. None) 15 (ClaimAppeal 2 1) ?db"
  have "map_option (\<lambda>a. (ap_status a, ap_toDepartmentId a)) (find_appeal 1 ?db) = Some (OPEN, 7)" by code_simp
  then obtain a where a: "find_appeal 1 ?db = Some a" "ap_status a = OPEN" "ap_toDepartmentId a = 7" by auto
  have "map_option ap_status (find_appeal 1 ?db') = Some IN_PROGRESS" by code_simp
  then obtain a' where a': "find_appeal 1 ?db' = Some a'" "ap_status a' = IN_PROGRESS" by auto
  have s: "loadUserMini 2 ?db = Some (sample_staff ! 1)" "ab_history ?db = []" by code_simp+
  from status_change_authorised [OF a(1) a'(1)] have e: "entitled (ClaimAppeal 2 1) 2 a IN_PROGRESS ?db"
    "length (ab_history ?db') = length (ab_history ?db) + 1" using a a' by simp_all
  moreover have "?db' = appeal_run (\<lambda>_. None) (take 2 sample_steps) sample_desk" by (simp add: sample_steps_def)
  moreover have "\<not> isAdminRole (sample_staff ! 1)" "\<not> isDepartmentManager (sample_staff ! 1) 7" by code_simp+
  ultimately show ?thesis using a s by (simp add: entitled_def)
qed

lemma claim_reopens_witness:
  "fst (update_status 40 2 1 IN_PROGRESS (sample_end\<lparr>ab_assignees := []\<rparr>)) = Inl FORBIDDEN \<and>
   fst (claim_appeal 40 2 1 (sample_end\<lparr>ab_assignees := []\<rparr>)) = Inr [2]"
proof -
  let ?db = "sample_end\<lparr>ab_assignees := []\<rparr>"
  have "map_option (\<lambda>a. (ap_status a, ap_toDepartmentId a, ap_createdById a)) (find_appeal 1 ?db) = Some (COMPLETED, 7, 1)"
    unfolding sample_end_def by code_simp
  then obtain a where a: "find_appeal 1 ?db = Some a" "ap_status a = COMPLETED" "ap_toDepartmentId a = 7" "ap_createdById a = 1" by auto
  have s: "loadUserMini 2 ?db = Some (sample_staff ! 1)" "profile_department 2 ?db = Some 7" "members_of 1 (ab_assignees ?db) = []"
    "\<not> isAdminRole (sample_staff ! 1)" "\<not> isDepartmentManager (sample_staff ! 1) 7"
    unfolding sample_end_def by code_simp+
  show ?thesis using claim_reopens [OF a(1) s(1), of 40 IN_PROGRESS] a s by simp
qed

end
