(* ===== verification/Spec2Isabelle.thy ===== *)
theory Spec2Isabelle
  imports Phone_Verification Email_Change Messenger_Qr Password_Reset Service_Access Invoice_Access
    Order_Push Order_Reports Order_Prices Order_Overlap
    Appeal_Paging Appeal_Reads Appeal_Ledger Appeal_History
begin

text \<open>
  A verification library for the LeaderProductAPI backend (Express handlers over PostgreSQL,
  under \<^verbatim>\<open>src/src\<close>).  This theory is the root; it imports every other one.

  \<^bold>\<open>The program and what is modelled.\<close>  The backend serves the mobile and mini
  applications of a distribution company.  The library covers four of its parts: identity and
  access (who may sign in, how credentials are issued, rotated and withdrawn, which requests and
  services a user reaches); client orders and their exchange with the accounting system 1C; the
  invoices that 1C announces and bots deliver; and the appeals that employees send each other.
  Identity is independent of the rest.  Orders and invoices share the tables of 1C: the order
  worker pushes what the order service queued, and the invoice pipeline looks up the order to find
  out whom to send a document.  The appeals stand alone.

  \<^item> \<^verbatim>\<open>Prelude\<close>: the fragment of the JavaScript library that the handlers use
    (trimming, lower case, truthiness, \<^verbatim>\<open>BigInt\<close>), decimal numbers, and tables as
    lists of rows with \<^verbatim>\<open>findFirst\<close>, \<^verbatim>\<open>findUnique\<close>,
    \<^verbatim>\<open>update\<close> and \<^verbatim>\<open>updateMany\<close>.
  \<^item> \<^verbatim>\<open>Regex\<close>: regular expressions of the sources as data, with an executable
    test proved equal to their meaning.
  \<^item> \<^verbatim>\<open>Contracts\<close>: the interfaces as locales.  \<open>session_machine\<close> and
    \<open>owned_session_machine\<close> for request tables whose closed rows are final and whose owners have
    at most one open row; \<open>one_shot\<close> for credentials redeemed at most once; \<open>lease\<close> for exclusive
    leases that run out.  They are interpreted on e-mail changes (\<open>ec\<close>), phone verifications (\<open>pv\<close>),
    sign-up and reset codes (\<open>vm\<close>, \<open>rm\<close>), QR sessions (\<open>qs\<close>), token rotation (\<open>rot\<close>), edits based on
    one revision of an order (\<open>oc\<close>), the lock of an order (\<open>ol\<close>) and the leases of the invoice
    pipeline (\<open>invoice_lease\<close>, \<open>tick_lock\<close>).
  \<^item> \<^verbatim>\<open>Phone\<close> (\<^verbatim>\<open>utils/phone.ts\<close>): normalisation, storage and
    display of phone numbers, with the two round trips.
  \<^item> \<^verbatim>\<open>Accounts\<close>: the contact columns of the user table, the bot settings and the
    uniqueness constraint the database declares.
  \<^item> \<^verbatim>\<open>Phone_Verification\<close>
    (\<^verbatim>\<open>services/phoneVerificationService.ts\<close>): start, state, cancel, bind and
    verify for both messengers.  Uniqueness of the contact columns is invariant, a user has one
    pending session, closed sessions are final, and a successful verification has all the
    evidence it should.
  \<^item> \<^verbatim>\<open>Email_Change\<close> (\<^verbatim>\<open>services/emailChangeService.ts\<close>): the
    session with its mailed code, resend and attempt limit.
  \<^item> \<^verbatim>\<open>Messenger_Qr\<close>
    (\<^verbatim>\<open>services/messengerQrAuthSessionService.ts\<close> and
    \<^verbatim>\<open>handleQrAuthStatus\<close> of \<^verbatim>\<open>routes/auth.ts\<close>): the QR sign-in
    session.  Its handlers refine a life-cycle automaton.  The poll is modelled in the two parts
    its \<^verbatim>\<open>await\<close> separates, so that overlapping polls can be stated.
  \<^item> \<^verbatim>\<open>Refresh_Tokens\<close>
    (\<^verbatim>\<open>services/authRefreshTokenService.ts\<close>, \<^verbatim>\<open>/token\<close> and
    \<^verbatim>\<open>/logout\<close>): device sessions, token creation and rotation in a transaction.
    Rotation happens at most once per token under every interleaving, a family has one live
    token, and a logged-out token stays dead.
  \<^item> \<^verbatim>\<open>Local_Auth\<close> (\<^verbatim>\<open>/register\<close>,
    \<^verbatim>\<open>/resend\<close>, \<^verbatim>\<open>/verify\<close>, \<^verbatim>\<open>/login\<close>):
    sign-up with a mailed code and password sign-in with lockout.
  \<^item> \<^verbatim>\<open>Password_Reset\<close> (\<^verbatim>\<open>routes/passwordReset.ts\<close>): request,
    check and change, on the same tables as \<^verbatim>\<open>Local_Auth\<close>.
  \<^item> \<^verbatim>\<open>Role_Authorization\<close> (\<^verbatim>\<open>middleware/auth.ts\<close>,
    \<^verbatim>\<open>middleware/checkUserStatus.ts\<close>): bearer authentication, the walk up the role
    table, inherited permissions and the guards.
  \<^item> \<^verbatim>\<open>Service_Access\<close> (\<^verbatim>\<open>services/serviceAccess.ts\<close>,
    \<^verbatim>\<open>middleware/serviceAccess.ts\<close>): the access context of a user, the rule layers,
    the queries built on them and the guard.
  \<^item> \<^verbatim>\<open>Task_Pool\<close> (\<^verbatim>\<open>forEachConcurrent\<close> of \<^verbatim>\<open>services/clientOrderInvoiceWorker.ts\<close>): the bounded pool
    as a step relation over every interleaving; it ends, having run every item exactly once.
  \<^item> \<^verbatim>\<open>Invoice_Data\<close>, \<^verbatim>\<open>Invoice_Worker\<close> (\<^verbatim>\<open>services/clientOrderInvoiceWorker.ts\<close>): the queue items of 1C,
    their synchronisation into the invoice table, the processing run from its lease to the
    acknowledgement, the tick and its lock.  \<^verbatim>\<open>Invoice_Safety\<close> and \<^verbatim>\<open>Invoice_Sync\<close> show that a bot accepts
    a document at most once, only for an invoice 1C has just confirmed, that runs settle, that leases
    exclude each other and that a realization has one active version.
  \<^item> \<^verbatim>\<open>Invoice_Access\<close> (\<^verbatim>\<open>modules/clientOrders/clientOrderInvoices.service.ts\<close>): lists, polling, manual
    request and download, restricted to orders the user created or manages.
  \<^item> \<^verbatim>\<open>Order_Data\<close>, \<^verbatim>\<open>Order_References\<close>, \<^verbatim>\<open>Order_Pricing\<close>, \<^verbatim>\<open>Order_Commands\<close>
    (\<^verbatim>\<open>modules/clientOrders/clientOrders.service.ts\<close>, \<^verbatim>\<open>clientOrders.schemas.ts\<close>): the tables, the
    materialization and resolution of references, prices and totals, and every operation that changes an
    order, the idempotent \<^verbatim>\<open>putClientOrderByClientId\<close> of offline clients included.
  \<^item> \<^verbatim>\<open>Order_Export\<close> (\<^verbatim>\<open>services/clientOrdersExportWorker.ts\<close>, \<^verbatim>\<open>modules/onec/onec.orderQueuePayload.ts\<close>) and
    \<^verbatim>\<open>Order_Exchange\<close> (\<^verbatim>\<open>modules/onec/onec.controllers.ts\<close>): the worker that pushes orders to 1C, the pull
    queue, acknowledgements, status and snapshot batches.
  \<^item> \<^verbatim>\<open>Order_Lifecycle\<close>, \<^verbatim>\<open>Order_Steps\<close>, \<^verbatim>\<open>Order_Safety\<close>: how a row may change under any of these operations,
    runs of them in any order, and the properties of runs (one edit per revision, harmless retries,
    typed pairs of states).  \<^verbatim>\<open>Order_Push\<close>, \<^verbatim>\<open>Order_Reports\<close>, \<^verbatim>\<open>Order_Prices\<close>, \<^verbatim>\<open>Order_Overlap\<close>: the push and
    its retries, references and reports of 1C, bounds and exact totals of prices, and requests whose
    transactions overlap.
  \<^item> \<^verbatim>\<open>Iso_Date\<close>: \<^verbatim>\<open>toISOString\<close> and the reading of its form, with the round trip.
  \<^item> \<^verbatim>\<open>Appeal_Data\<close>, \<^verbatim>\<open>Appeal_Flow\<close>, \<^verbatim>\<open>Appeal_Messages\<close>, \<^verbatim>\<open>Appeal_Labor\<close> (\<^verbatim>\<open>routes/appeals.ts\<close>,
    \<^verbatim>\<open>validation/appeals.schema.ts\<close>): the tables and rights; creation, assignment, claim, transfer, status,
    deadline and watchers; messages, their pages, reading marks and counters; hours of work, rates and
    payments.
  \<^item> \<^verbatim>\<open>Appeal_Paging\<close>, \<^verbatim>\<open>Appeal_Reads\<close>: cursors read back, a client that follows them has every message once
    and in order, and a bulk mark reads exactly what it should.  \<^verbatim>\<open>Appeal_Ledger\<close>: the audit log of the
    labor table is its abstract specification, replaying it gives the table.
  \<^item> \<^verbatim>\<open>Appeal_Sla\<close>, \<^verbatim>\<open>Appeal_Runs\<close>, \<^verbatim>\<open>Appeal_History\<close>: every request is one of three moves on appeals and
    their history (nothing, a new appeal, a recorded change of status); so the history is a chain in every
    run, the service times of \<^verbatim>\<open>calculateAppealSla\<close> are the times really spent in a status, and a status
    changes only on behalf of an entitled user.

  \<^bold>\<open>How code becomes definitions.\<close>  A handler is a function from its inputs and the
  tables to its answer and the new tables; every early return and every raised error is a
  branch.  The current time, random draws and generated identifiers are arguments.  A Prisma
  transaction that raises leaves the tables unchanged; writes outside a transaction that precede
  an error stay.  Where two requests can overlap between \<^verbatim>\<open>await\<close>s and the outcome
  depends on it, the handler is split there and the theorem speaks of the interleavings
  (\<open>one_shot.successes\<close>, \<open>qr_poll_begin\<close> and \<open>qr_poll_end\<close>, the phases of \<open>processInvoice\<close>, the push of an
  order with edits in between, \<open>submit_read\<close> and \<open>submit_write\<close>).  Elsewhere a handler is one step, so
  that a theorem about sequences of requests holds for requests that run one after the other;
  \<open>Order_Overlap\<close> shows what is different when transactions on one order overlap.

  \<^bold>\<open>Parameters.\<close>  Code outside the repository is an argument: hash functions,
  \<^verbatim>\<open>bcrypt\<close>, \<^verbatim>\<open>jsonwebtoken\<close>, the mail transport, the answers of 1C, the bots and the object store
  (\<open>world\<close>, \<open>push_world\<close>, \<open>live\<close>, \<open>live_reads\<close>), the date and number parsers of the host (\<open>host_date\<close>,
  \<open>host_number\<close>), the collation and the decimal columns of the database (\<open>col\<close>), the rounding of
  \<^verbatim>\<open>Prisma.Decimal\<close> (\<open>dec\<close>) and the local calendar (\<open>clock\<close>).  Numbers of JavaScript are rationals;
  the rounding of doubles is not modelled.  Hypotheses about the parameters (a code hash without
  collisions on the values compared, a password that \<^verbatim>\<open>bcrypt\<close> accepts for its own hash, a \<open>dec\<close> that is
  monotone and exact at 0, 1 and 100, distinct generated identifiers) and about runs (times that do not go
  back, reports of 1C that leave the compared columns alone, forms that name an assignee once, readable
  times in the common era) are premises of the theorems that need them, and each such theorem has a
  witness with concrete functions.

  \<^bold>\<open>Termination and bounds.\<close>  The walk up the role table, \<open>Role_Authorization.walk\<close>, is total by a
  measure that counts the rows not yet visited.  The task pool has a bound on its steps: twice the
  items plus the workers.  The clients \<open>page_back\<close> and \<open>page_forward\<close> that follow cursors count
  their requests, and as many as there are messages are shown to be enough.

  \<^bold>\<open>Behaviour worth knowing.\<close>  Some theorems record what the code permits:
  \<open>qr_double_issue\<close> (two overlapping polls both sign in), \<open>reset_guesses_unbounded\<close>
  (wrong reset codes are not counted), \<open>reset_request_reveals\<close> (a repeated request tells
  whether an address has an account), \<open>inactive_service_reachable\<close> (a rule opens a
  switched-off service that the list hides), \<open>withdrawn_invoice_returns\<close> (an error of a run reopens a
  withdrawn invoice), \<open>stale_push_loses_edit\<close> and \<open>posted_list_drops_edit\<close> (an edit leaves the queue
  without being sent), \<open>snapshot_truncates\<close> (a snapshot with an unknown product cuts the lines of an
  order), \<open>update_revives_cancelled\<close>, \<open>window_starves\<close> and \<open>overlapping_edits_commit\<close> for orders, and
  \<open>post_without_access\<close> (anyone may post to an appeal), \<open>claim_reopens\<close> (claiming reopens a finished appeal)
  and \<open>system_message_rewritten\<close> for appeals.

  \<^bold>\<open>Not modelled.\<close>  Characters beyond Latin-1 in strings other than order texts; message texts; HTTP,
  Redis, Kafka, S3 and bot transports; notifications, sockets and reminder jobs; lists, analytics and
  exports of the appeals; lists, projections, product search and defaults of the orders; the bulk upserts
  of reference data from 1C; users and profiles, tracking, QR codes, the marketplace, service
  administration and updates, which are mostly database projections.
\<close>

end
